(* ===== verification/Prelude.thy ===== *)
theory Prelude
  imports Main "HOL-Library.Word" "HOL-Library.Char_ord" "HOL-Library.List_Lexorder"
begin

text \<open>
  What every component of the development shares: the result type of fallible code and its
  sequencing, byte strings with the parts of Rust's \<open>str\<close> API the program uses, the
  decimal rendering of integers, and the fact collections the component proofs draw on.

  A Rust \<open>String\<close> is modelled as the list of its UTF-8 bytes (\<open>string\<close>, a
  \<open>char list\<close>): \<open>len\<close>, \<open>bytes()\<close> and comparison are then list length, the list
  itself and the lexicographic order, and the operations that work on characters first cut
  the bytes into characters (\<open>chars\<close>).
\<close>

named_theorems res_simps \<open>how a sequenced computation succeeds or fails\<close>
named_theorems str_simps \<open>definitions of the string functions, for evaluation\<close>
named_theorems table_simps \<open>definitions of the code's tables, for evaluation\<close>

section \<open>Fallible computations\<close>

text \<open>\<open>Result<T, E>\<close> is the sum \<open>'e + 'a\<close>, the error on the left; the \<open>?\<close>
  operator is \<open>and_then\<close>.\<close>

fun and_then :: "'e + 'a \<Rightarrow> ('a \<Rightarrow> 'e + 'b) \<Rightarrow> 'e + 'b" where
  "and_then (Inl e) f = Inl e"
| "and_then (Inr x) f = f x"

lemma and_then_Inr_iff [res_simps]:
  "and_then r f = Inr y \<longleftrightarrow> (\<exists>x. r = Inr x \<and> f x = Inr y)"
  by (cases r) auto

lemma and_then_Inl_iff [res_simps]:
  "and_then r f = Inl e \<longleftrightarrow> r = Inl e \<or> (\<exists>x. r = Inr x \<and> f x = Inl e)"
  by (cases r) auto

lemma and_then_assoc: "and_then (and_then r f) g = and_then r (\<lambda>x. and_then (f x) g)"
  by (cases r) auto

lemma and_then_cong [fundef_cong]:
  "\<lbrakk>r = r'; \<And>x. r' = Inr x \<Longrightarrow> f x = f' x\<rbrakk> \<Longrightarrow> and_then r f = and_then r' f'"
  by (cases r') auto

text \<open>\<open>if !b { return Err(e) }\<close>.\<close>

definition ensure :: "bool \<Rightarrow> 'e \<Rightarrow> 'e + unit" where
  "ensure b e = (if b then Inr () else Inl e)"

lemma ensure_iff [res_simps]:
  "ensure b e = Inr u \<longleftrightarrow> b"
  "ensure b e = Inl e' \<longleftrightarrow> \<not> b \<and> e' = e"
  by (auto simp: ensure_def)

text \<open>\<open>Option::ok_or\<close> and \<open>iter().map(f).collect::<Result<Vec<_>>>()\<close>.\<close>

definition ok_or :: "'a option \<Rightarrow> 'e \<Rightarrow> 'e + 'a" where
  "ok_or x e = (case x of None \<Rightarrow> Inl e | Some y \<Rightarrow> Inr y)"

lemma ok_or_iff [res_simps]:
  "ok_or x e = Inr y \<longleftrightarrow> x = Some y"
  "ok_or x e = Inl e' \<longleftrightarrow> x = None \<and> e' = e"
  by (auto simp: ok_or_def split: option.splits)

fun traverse :: "('a \<Rightarrow> 'e + 'b) \<Rightarrow> 'a list \<Rightarrow> 'e + 'b list" where
  "traverse f [] = Inr []"
| "traverse f (x # xs) = and_then (f x) (\<lambda>y. and_then (traverse f xs) (\<lambda>ys. Inr (y # ys)))"

lemma traverse_Inr_iff [res_simps]:
  "traverse f xs = Inr ys \<longleftrightarrow> list_all2 (\<lambda>x y. f x = Inr y) xs ys"
  by (induction xs arbitrary: ys) (auto simp: res_simps list_all2_Cons1)

text \<open>\<open>Option<T>\<close> followed by a fallible step: \<open>opt.map(f).transpose()\<close>.\<close>

definition transpose_opt :: "('a \<Rightarrow> 'e + 'b) \<Rightarrow> 'a option \<Rightarrow> 'e + 'b option" where
  "transpose_opt f x = (case x of None \<Rightarrow> Inr None | Some y \<Rightarrow> and_then (f y) (\<lambda>z. Inr (Some z)))"

lemma transpose_opt_Inr_iff [res_simps]:
  "transpose_opt f x = Inr z \<longleftrightarrow>
     (case x of None \<Rightarrow> z = None | Some y \<Rightarrow> \<exists>w. f y = Inr w \<and> z = Some w)"
  by (auto simp: transpose_opt_def res_simps split: option.splits)

text \<open>\<open>items.iter().enumerate().try_for_each(f)\<close>: the first failure, by index.\<close>

fun try_each :: "nat \<Rightarrow> (nat \<Rightarrow> 'a \<Rightarrow> 'e + unit) \<Rightarrow> 'a list \<Rightarrow> 'e + unit" where
  "try_each i f [] = Inr ()"
| "try_each i f (x # xs) = and_then (f i x) (\<lambda>_. try_each (Suc i) f xs)"

lemma try_each_ok_iff:
  "try_each i f xs = Inr () \<longleftrightarrow> (\<forall>j < length xs. f (i + j) (xs ! j) = Inr ())"
proof (induction xs arbitrary: i)
  case Nil
  then show ?case by simp
next
  case (Cons x xs)
  have split: "(\<forall>j < Suc (length xs). P j) \<longleftrightarrow> P 0 \<and> (\<forall>j < length xs. P (Suc j))" for P
    by (metis less_Suc_eq_0_disj)
  show ?case by (simp add: res_simps Cons.IH split)
qed

lemma try_each_refused:
  assumes "\<And>i x e. x \<in> set xs \<Longrightarrow> f i x = Inl e \<Longrightarrow> P e"
  shows "try_each n f xs = Inl e \<Longrightarrow> P e"
  using assms by (induction xs arbitrary: n) (auto simp: res_simps)

text \<open>De-duplication keeping the first mention: the code's \<open>if !out.contains(&x) { out.push(x) }\<close>.\<close>

fun dedup_onto :: "'a list \<Rightarrow> 'a list \<Rightarrow> 'a list" where
  "dedup_onto out [] = out"
| "dedup_onto out (x # xs) = dedup_onto (if x \<in> set out then out else out @ [x]) xs"

lemma set_dedup_onto [simp]: "set (dedup_onto out xs) = set out \<union> set xs"
  by (induction xs arbitrary: out) auto

lemma distinct_dedup_onto [simp]: "distinct out \<Longrightarrow> distinct (dedup_onto out xs)"
  by (induction xs arbitrary: out) auto

lemma dedup_onto_distinct: "distinct (out @ xs) \<Longrightarrow> dedup_onto out xs = out @ xs"
  by (induction xs arbitrary: out) auto

lemma length_dedup_onto_le: "length (dedup_onto out xs) \<le> length out + length xs"
proof (induction xs arbitrary: out)
  case Nil
  then show ?case by simp
next
  case (Cons x xs)
  from Cons.IH [of "if x \<in> set out then out else out @ [x]"] show ?case
    by (auto split: if_splits)
qed

lemma find_append_new:
  "\<forall>x \<in> set xs. \<not> P x \<Longrightarrow> P y \<Longrightarrow> find P (xs @ [y]) = Some y"
  by (induction xs) auto

end
