(* ===== verification/Rust_Strings.thy ===== *)
theory Rust_Strings
  imports Prelude
begin

text \<open>
  The parts of Rust's string library the program uses, on UTF-8 byte lists: cutting a string
  into characters, counting UTF-16 units, Unicode trimming, splitting at an ASCII separator,
  ASCII classification and case, and decimal rendering and parsing. Only valid UTF-8 reaches
  these functions in Rust, so a string is read as a sequence of a leading byte and the
  continuation bytes that follow it.
\<close>

section \<open>Bytes and characters\<close>

abbreviation byte :: "char \<Rightarrow> nat" where
  "byte c \<equiv> of_char c"

definition is_cont :: "char \<Rightarrow> bool" where
  "is_cont c \<longleftrightarrow> 128 \<le> byte c \<and> byte c < 192"

text \<open>\<open>str::chars\<close>, each character kept as its own bytes.\<close>

function chars :: "string \<Rightarrow> string list" where
  "chars [] = []"
| "chars (c # cs) = (c # takeWhile is_cont cs) # chars (dropWhile is_cont cs)"
  by pat_completeness auto
termination
  by (relation "measure length") (auto simp: le_imp_less_Suc length_dropWhile_le)

lemma concat_chars [simp]: "concat (chars s) = s"
  by (induction s rule: chars.induct) auto

lemma chars_eq_Nil_iff [simp]: "chars s = [] \<longleftrightarrow> s = []"
  by (cases s) auto

text \<open>\<open>encode_utf16().count()\<close>: a character outside the basic plane (a four-byte sequence)
  is a surrogate pair.\<close>

definition utf16_units :: "string \<Rightarrow> nat" where
  "utf16_units c = (case c of [] \<Rightarrow> 0 | b # _ \<Rightarrow> if 240 \<le> byte b then 2 else 1)"

definition utf16_len :: "string \<Rightarrow> nat" where
  "utf16_len s = sum_list (map utf16_units (chars s))"

definition is_ascii :: "char \<Rightarrow> bool" where
  "is_ascii c \<longleftrightarrow> byte c < 128"

lemma chars_ascii: "list_all is_ascii s \<Longrightarrow> chars s = map (\<lambda>c. [c]) s"
proof (induction s)
  case Nil
  then show ?case by simp
next
  case (Cons c s)
  have "takeWhile is_cont s = []" "dropWhile is_cont s = s"
    using Cons.prems by (cases s; simp add: is_ascii_def is_cont_def)+
  with Cons show ?case by simp
qed

lemma utf16_len_ascii: "list_all is_ascii s \<Longrightarrow> utf16_len s = length s"
proof -
  assume a: "list_all is_ascii s"
  then have "map utf16_units (chars s) = map (\<lambda>_. 1) s"
    by (auto simp: chars_ascii list_all_iff is_ascii_def utf16_units_def)
  then show ?thesis by (simp add: utf16_len_def sum_list_triv)
qed

lemma utf16_len_le: "utf16_len s \<le> 2 * length (chars s)"
proof -
  have "sum_list (map utf16_units cs) \<le> 2 * length cs" for cs
    by (induction cs) (auto simp: utf16_units_def split: list.splits)
  then show ?thesis by (simp add: utf16_len_def)
qed

lemma utf16_len_Nil [simp]: "utf16_len [] = 0"
  by (simp add: utf16_len_def)

lemma utf16_len_pos_iff [simp]: "0 < utf16_len s \<longleftrightarrow> s \<noteq> []"
  by (cases s) (auto simp: utf16_len_def utf16_units_def)

text \<open>\<open>char::is_whitespace\<close>: the Unicode \<open>White_Space\<close> property, as UTF-8.\<close>

definition white_space :: "nat list list" where
  "white_space =
     [[9], [10], [11], [12], [13], [32], [194, 133], [194, 160], [225, 154, 128],
      [226, 128, 128], [226, 128, 129], [226, 128, 130], [226, 128, 131], [226, 128, 132],
      [226, 128, 133], [226, 128, 134], [226, 128, 135], [226, 128, 136], [226, 128, 137],
      [226, 128, 138], [226, 128, 168], [226, 128, 169], [226, 128, 175], [226, 129, 159],
      [227, 128, 128]]"

definition is_ws :: "string \<Rightarrow> bool" where
  "is_ws c \<longleftrightarrow> map of_char c \<in> set white_space"

definition trim :: "string \<Rightarrow> string" where
  "trim s = concat (rev (dropWhile is_ws (rev (dropWhile is_ws (chars s)))))"

definition trim_end :: "string \<Rightarrow> string" where
  "trim_end s = concat (rev (dropWhile is_ws (rev (chars s))))"

text \<open>\<open>str::strip_prefix\<close>.\<close>

definition strip_prefix :: "string \<Rightarrow> string \<Rightarrow> string option" where
  "strip_prefix p s = (if take (length p) s = p then Some (drop (length p) s) else None)"

lemma strip_prefix_append [simp]: "strip_prefix p (p @ s) = Some s"
  by (simp add: strip_prefix_def)

lemma strip_prefix_Some: "strip_prefix p s = Some r \<longleftrightarrow> s = p @ r"
  by (auto simp: strip_prefix_def) (metis append_take_drop_id)

definition blank :: "string \<Rightarrow> bool" where
  "blank s \<longleftrightarrow> trim s = []"

lemma trim_cut_eq_Nil_iff:
  "rev (dropWhile P (rev (dropWhile P xs))) = [] \<longleftrightarrow> list_all P xs"
  by (induction xs) (auto simp: list_all_iff dropWhile_eq_Nil_conv)

lemma concat_eq_Nil_no_Nil: "[] \<notin> set cs \<Longrightarrow> concat cs = [] \<longleftrightarrow> cs = []"
  by (cases cs) auto

lemma blank_iff: "blank s \<longleftrightarrow> list_all is_ws (chars s)"
proof -
  let ?cs = "rev (dropWhile is_ws (rev (dropWhile is_ws (chars s))))"
  have "[] \<notin> set (chars s)"
    by (induction s rule: chars.induct) auto
  moreover have "set (dropWhile P xs) \<subseteq> set xs" for P and xs :: "string list"
    by (auto dest: set_dropWhileD)
  then have "set ?cs \<subseteq> set (chars s)"
    by (metis order_trans set_rev)
  ultimately have "[] \<notin> set ?cs" by blast
  then have "concat ?cs = [] \<longleftrightarrow> ?cs = []" by (rule concat_eq_Nil_no_Nil)
  with trim_cut_eq_Nil_iff [of is_ws "chars s"] show ?thesis
    by (simp only: blank_def trim_def)
qed

section \<open>Splitting and ASCII classes\<close>

text \<open>\<open>str::split(sep)\<close> at an ASCII separator: never the empty list.\<close>

fun split_on :: "char \<Rightarrow> string \<Rightarrow> string list" where
  "split_on d [] = [[]]"
| "split_on d (c # cs) =
     (if c = d then [] # split_on d cs
      else case split_on d cs of [] \<Rightarrow> [[c]] | p # ps \<Rightarrow> (c # p) # ps)"

lemma split_on_ne [simp]: "split_on d s \<noteq> []"
  by (induction s) (auto split: list.splits)

lemma split_on_no_sep: "p \<in> set (split_on d s) \<Longrightarrow> d \<notin> set p"
  by (induction s arbitrary: p) (auto split: if_splits list.splits)

fun join_with :: "char \<Rightarrow> string list \<Rightarrow> string" where
  "join_with d [] = []"
| "join_with d [p] = p"
| "join_with d (p # ps) = p @ d # join_with d ps"

lemma join_split [simp]: "join_with d (split_on d s) = s"
proof (induction s)
  case Nil
  then show ?case by simp
next
  case (Cons c s)
  then obtain p ps where ps: "split_on d s = p # ps"
    by (meson list.exhaust split_on_ne)
  with Cons show ?case by (cases ps) auto
qed

lemma split_on_atom: "d \<notin> set p \<Longrightarrow> split_on d p = [p]"
  by (induction p) auto

lemma split_on_append_sep: "d \<notin> set p \<Longrightarrow> split_on d (p @ d # s) = p # split_on d s"
  by (induction p) auto

lemma split_join: "ps \<noteq> [] \<Longrightarrow> \<forall>p \<in> set ps. d \<notin> set p \<Longrightarrow> split_on d (join_with d ps) = ps"
  by (induction d ps rule: join_with.induct) (auto simp: split_on_atom split_on_append_sep)

definition is_digit :: "char \<Rightarrow> bool" where
  "is_digit c \<longleftrightarrow> 48 \<le> byte c \<and> byte c \<le> 57"

definition is_upper :: "char \<Rightarrow> bool" where
  "is_upper c \<longleftrightarrow> 65 \<le> byte c \<and> byte c \<le> 90"

definition is_lower :: "char \<Rightarrow> bool" where
  "is_lower c \<longleftrightarrow> 97 \<le> byte c \<and> byte c \<le> 122"

definition is_hexdigit :: "char \<Rightarrow> bool" where
  "is_hexdigit c \<longleftrightarrow> is_digit c \<or> (65 \<le> byte c \<and> byte c \<le> 70) \<or> (97 \<le> byte c \<and> byte c \<le> 102)"

definition is_lower_hexdigit :: "char \<Rightarrow> bool" where
  "is_lower_hexdigit c \<longleftrightarrow> is_digit c \<or> (97 \<le> byte c \<and> byte c \<le> 102)"

text \<open>\<open>to_ascii_lowercase\<close>.\<close>

definition lower_char :: "char \<Rightarrow> char" where
  "lower_char c = (if is_upper c then char_of (byte c + 32) else c)"

definition ascii_lower :: "string \<Rightarrow> string" where
  "ascii_lower s = map lower_char s"

lemma byte_lower_char: "byte (lower_char c) = (if is_upper c then byte c + 32 else byte c)"
  by (auto simp: lower_char_def is_upper_def of_char_of)

lemma lower_char_idem [simp]: "lower_char (lower_char c) = lower_char c"
  by (auto simp: lower_char_def is_upper_def of_char_of)

lemma ascii_lower_idem [simp]: "ascii_lower (ascii_lower s) = ascii_lower s"
  by (simp add: ascii_lower_def)

lemma length_ascii_lower [simp]: "length (ascii_lower s) = length s"
  by (simp add: ascii_lower_def)

lemma lower_char_hex: "is_hexdigit c \<Longrightarrow> is_lower_hexdigit (lower_char c)"
  by (auto simp: is_hexdigit_def is_lower_hexdigit_def is_digit_def byte_lower_char is_upper_def)

lemma lower_char_hex_iff: "is_hexdigit (lower_char c) \<longleftrightarrow> is_hexdigit c"
  by (auto simp: is_hexdigit_def is_digit_def byte_lower_char is_upper_def)

lemma lower_hexdigit_fixed: "is_lower_hexdigit c \<Longrightarrow> lower_char c = c"
  by (auto simp: is_lower_hexdigit_def is_digit_def lower_char_def is_upper_def)

section \<open>Decimal numbers\<close>

definition digit_char :: "nat \<Rightarrow> char" where
  "digit_char n = char_of (48 + n)"

fun show_nat :: "nat \<Rightarrow> string" where
  "show_nat n = (if n < 10 then [digit_char n] else show_nat (n div 10) @ [digit_char (n mod 10)])"

declare show_nat.simps [simp del]

definition show_int :: "int \<Rightarrow> string" where
  "show_int i = (if i < 0 then CHR ''-'' # show_nat (nat (- i)) else show_nat (nat i))"

definition parse_digits :: "string \<Rightarrow> nat" where
  "parse_digits s = foldl (\<lambda>n c. 10 * n + (byte c - 48)) 0 s"

lemma digit_char_digit: "n < 10 \<Longrightarrow> is_digit (digit_char n)"
  by (simp add: is_digit_def digit_char_def of_char_of)

lemma show_nat_digits: "list_all is_digit (show_nat n)"
proof (induction n rule: show_nat.induct)
  case (1 n)
  then show ?case
    by (subst show_nat.simps) (auto simp: digit_char_digit)
qed

lemma show_nat_ne [simp]: "show_nat n \<noteq> []"
  by (subst show_nat.simps) simp

lemma parse_show_nat [simp]: "parse_digits (show_nat n) = n"
proof (induction n rule: show_nat.induct)
  case (1 n)
  show ?case
  proof (cases "n < 10")
    case True
    then show ?thesis
      by (subst show_nat.simps) (simp add: parse_digits_def digit_char_def of_char_of)
  next
    case False
    have b: "byte (digit_char (n mod 10)) - 48 = n mod 10"
      by (simp add: digit_char_def of_char_of)
    from 1 False have "parse_digits (show_nat (n div 10)) = n div 10" by simp
    with False b show ?thesis
      by (subst show_nat.simps) (simp add: parse_digits_def)
  qed
qed

lemma show_nat_inj: "show_nat m = show_nat n \<Longrightarrow> m = n"
  by (metis parse_show_nat)

lemma show_nat_no_char: "\<not> is_digit c \<Longrightarrow> c \<notin> set (show_nat n)"
  using show_nat_digits [of n] by (auto simp: list_all_iff)

lemma length_show_nat_le: "n < 10 ^ k \<Longrightarrow> 0 < k \<Longrightarrow> length (show_nat n) \<le> k"
proof (induction n arbitrary: k rule: show_nat.induct)
  case (1 n)
  show ?case
  proof (cases "n < 10")
    case True
    with 1 show ?thesis by (subst show_nat.simps) simp
  next
    case False
    obtain j where k: "k = Suc j" using 1 by (cases k) auto
    with False 1 have "0 < j" by (cases j) auto
    moreover from 1 k have "n div 10 < 10 ^ j" by (simp add: less_mult_imp_div_less mult.commute)
    ultimately show ?thesis using 1(1) [OF False] False k
      by (subst show_nat.simps) simp
  qed
qed

end
