(* ===== verification/Json.thy ===== *)
theory Json
  imports Rust_Strings "HOL-Library.Multiset"
begin

text \<open>
  JSON values as \<open>serde_json::Value\<close> has them, and their canonical form
  (\<open>src/utilities/canonical_json.rs\<close>): the same value with the members of every object
  sorted by key, which is what a payload or a command body is hashed over. An object is the
  list of its members in insertion order. Turning a value into bytes (\<open>serde_json::to_vec\<close>)
  and hashing bytes (SHA-256, the crate \<open>sha2\<close>) are third-party code and stay parameters.
\<close>

section \<open>Values\<close>

text \<open>A number is an integer or the bit pattern of an IEEE double.\<close>

datatype json =
    JNull
  | JBool bool
  | JInt int
  | JFloat "64 word"
  | JStr string
  | JArr "json list"
  | JObj "(string \<times> json) list"

definition json_ids :: "string list \<Rightarrow> json" where
  "json_ids values = JArr (map JStr values)"

definition json_opt :: "string option \<Rightarrow> json" where
  "json_opt v = (case v of None \<Rightarrow> JNull | Some s \<Rightarrow> JStr s)"

section \<open>Canonical form\<close>

fun sort_value :: "json \<Rightarrow> json" where
  "sort_value (JObj kvs) = JObj (sort_key fst (map (\<lambda>(k, v). (k, sort_value v)) kvs))"
| "sort_value (JArr items) = JArr (map sort_value items)"
| "sort_value JNull = JNull"
| "sort_value (JBool b) = JBool b"
| "sort_value (JInt i) = JInt i"
| "sort_value (JFloat w) = JFloat w"
| "sort_value (JStr s) = JStr s"

text \<open>\<open>to_bytes\<close>: the canonical bytes, or \<open>serde_json\<close>'s refusal wrapped by \<open>other\<close> (the code's
  \<open>Error::Other\<close>); \<open>bytes_and_digest\<close> adds their digest.\<close>

definition to_bytes ::
  "(string \<Rightarrow> 'e) \<Rightarrow> (json \<Rightarrow> string + string) \<Rightarrow> json \<Rightarrow> 'e + string" where
  "to_bytes other to_vec value =
     (case to_vec (sort_value value) of
        Inl e \<Rightarrow> Inl (other (''canonical json: '' @ e))
      | Inr bytes \<Rightarrow> Inr bytes)"

definition bytes_and_digest ::
  "(string \<Rightarrow> 'e) \<Rightarrow> (json \<Rightarrow> string + string) \<Rightarrow> (string \<Rightarrow> string) \<Rightarrow> json \<Rightarrow> 'e + string \<times> string"
where
  "bytes_and_digest other to_vec sha256_hex value =
     and_then (to_bytes other to_vec value) (\<lambda>bytes. Inr (bytes, sha256_hex bytes))"

text \<open>Every object of the value has distinct keys, which \<open>serde_json::Map\<close> guarantees.\<close>

fun keys_distinct :: "json \<Rightarrow> bool" where
  "keys_distinct (JObj kvs) \<longleftrightarrow> distinct (map fst kvs) \<and> (\<forall>kv \<in> set kvs. keys_distinct (snd kv))"
| "keys_distinct (JArr items) \<longleftrightarrow> (\<forall>v \<in> set items. keys_distinct v)"
| "keys_distinct _ \<longleftrightarrow> True"

text \<open>Two values that differ only in the order of object members, at any depth.\<close>

inductive same_members :: "json \<Rightarrow> json \<Rightarrow> bool" where
  same_refl: "same_members v v"
| same_arr: "list_all2 same_members xs ys \<Longrightarrow> same_members (JArr xs) (JArr ys)"
| same_obj: "mset kvs = mset kvs' \<Longrightarrow>
     list_all2 (\<lambda>a b. fst a = fst b \<and> same_members (snd a) (snd b)) kvs' kvs'' \<Longrightarrow>
     same_members (JObj kvs) (JObj kvs'')"
monos list_all2_mono

section \<open>Properties\<close>

lemma map_fst_sorted_members [simp]:
  "map fst (map (\<lambda>(k, v). (k, f v)) kvs) = map fst kvs"
  by (induction kvs) auto

lemma fst_comp_map_snd [simp]: "fst \<circ> (\<lambda>(k, v). (k, f v)) = fst"
  by auto

text \<open>Sorting by key forgets the order of members with distinct keys.\<close>

lemma sort_key_fst_perm:
  assumes "mset kvs = mset kvs'" and "distinct (map fst kvs)"
  shows "sort_key fst kvs = sort_key fst kvs'"
proof (rule map_sorted_distinct_set_unique [where f = fst])
  have set_eq: "set kvs = set kvs'" using assms(1) by (rule mset_eq_setD)
  then show "set (sort_key fst kvs) = set (sort_key fst kvs')" by simp
  show "inj_on fst (set (sort_key fst kvs) \<union> set (sort_key fst kvs'))"
    using assms(2) set_eq by (simp add: distinct_map)
  have "distinct (map fst kvs')"
    using assms by (metis mset_eq_imp_distinct_iff mset_map)
  then show "distinct (map fst (sort_key fst kvs'))"
    by (metis mset_eq_imp_distinct_iff mset_map mset_sort)
  show "distinct (map fst (sort_key fst kvs))"
    using assms(2) by (metis mset_eq_imp_distinct_iff mset_map mset_sort)
qed simp_all

lemma sort_key_fst_map_snd:
  assumes "list_all2 (\<lambda>a b. fst a = fst b \<and> f (snd a) = g (snd b)) xs ys"
  shows "map (\<lambda>(k, v). (k, f v)) xs = map (\<lambda>(k, v). (k, g v)) ys"
  using assms by (induction) auto

text \<open>The canonical form does not depend on the order a map was filled in, at any depth.\<close>

lemma sort_value_same_members:
  "same_members v w \<Longrightarrow> keys_distinct v \<Longrightarrow> sort_value v = sort_value w"
proof (induction rule: same_members.induct)
  case (same_refl v)
  then show ?case by simp
next
  case (same_arr xs ys)
  have "list_all2 (\<lambda>x y. sort_value x = sort_value y) xs ys"
    using same_arr by (auto simp: list_all2_conv_all_nth)
  then have "map sort_value xs = map sort_value ys"
    by induction auto
  then show ?case by simp
next
  case (same_obj kvs kvs' kvs'')
  let ?s = "map (\<lambda>(k, v). (k, sort_value v))"
  have "set kvs = set kvs'" using same_obj(1) by (rule mset_eq_setD)
  then have "\<forall>kv \<in> set kvs'. keys_distinct (snd kv)" using same_obj by simp
  then have "list_all2 (\<lambda>a b. fst a = fst b \<and> sort_value (snd a) = sort_value (snd b)) kvs' kvs''"
    using same_obj(2) by (auto simp: list_all2_conv_all_nth)
  then have "?s kvs' = ?s kvs''" by (rule sort_key_fst_map_snd)
  moreover have "sort_key fst (?s kvs) = sort_key fst (?s kvs')"
    using same_obj by (intro sort_key_fst_perm) auto
  ultimately show ?case by simp
qed

end
