(* ===== verification/Errors.thy ===== *)
theory Errors
  imports Json
begin

text \<open>
  The error vocabulary: the crate-wide \<open>Error\<close> (\<open>src/errors.rs\<close>), the project refusals
  (\<open>src/utilities/project_error.rs\<close>) with their messages and ordered \<open>details\<close>, and the
  two classifications every transport shares: \<open>classify\<close>
  (\<open>src/utilities/error_code.rs\<close>) and \<open>exit_code\<close> (\<open>src/utilities/exit_code.rs\<close>).

  The payload of a variant that wraps another crate's error (YAML, TOML, Git, ...) is the text
  that error renders; an I/O error also keeps its kind and a SQLite error its codes, because
  the code inspects them.
\<close>

section \<open>The project refusals\<close>

datatype request_edge = EdgeSchema | EdgeInvariant

datatype project_error =
    ProjectNotFound string
  | WorkItemNotFound string
  | ProposalNotFound string
  | ExecutionNotFound string
  | EvidenceNotFound string
  | InvalidRequest request_edge string "(string \<times> json) list"
  | DependencyCycle "string list"
  | ProjectAgentScope string
  | RepoNotAllowed string
  | ExecutionActorForbidden
  | TierForbidden string
  | ProposalStale int int
  | ProposalAlreadyReviewed
  | VersionConflict int
  | IdempotencyConflict
  | InvalidTransition string
  | DependencyBlocked "string list"
  | CompletionRequirementsUnmet "string list" "string list" "string list"
  | EvidenceUnverified "string list"
  | ExecutionActive
  | Unauthorized string
  | ContextUnavailable string
  | Invariant string string

text \<open>The \<open>Display\<close> each variant's \<open>#[error]\<close> attribute derives.\<close>

fun project_message :: "project_error \<Rightarrow> string" where
  "project_message (ProjectNotFound _) = ''Project not found''"
| "project_message (WorkItemNotFound _) = ''Work item not found''"
| "project_message (ProposalNotFound _) = ''Proposal not found''"
| "project_message (ExecutionNotFound _) = ''Execution not found''"
| "project_message (EvidenceNotFound _) = ''Evidence not found''"
| "project_message (InvalidRequest _ message _) = message"
| "project_message (DependencyCycle _) = ''The proposed dependency graph contains a cycle''"
| "project_message (ProjectAgentScope reason) = reason"
| "project_message (RepoNotAllowed _) =
     ''This repository is not on the workspace's GitHub App allowlist''"
| "project_message ExecutionActorForbidden =
     ''Only this execution's own actor may run this command''"
| "project_message (TierForbidden reason) = reason"
| "project_message (ProposalStale _ _) = ''The plan has changed since this proposal was written''"
| "project_message ProposalAlreadyReviewed = ''This proposal has already been reviewed''"
| "project_message (VersionConflict _) = ''The project has changed since it was last read''"
| "project_message IdempotencyConflict =
     ''This idempotency key was already used for a different command''"
| "project_message (InvalidTransition reason) = reason"
| "project_message (DependencyBlocked _) = ''An unfinished blocker prevents this transition''"
| "project_message (CompletionRequirementsUnmet _ _ _) =
     ''This project still has unmet completion requirements''"
| "project_message (EvidenceUnverified _) = ''Required evidence exists but is not verified''"
| "project_message ExecutionActive = ''A non-stale execution already owns this work item''"
| "project_message (Unauthorized reason) = reason"
| "project_message (ContextUnavailable reason) = reason"
| "project_message (Invariant _ message) = message"

section \<open>The crate error\<close>

datatype io_kind = IoNotFound | IoOther

datatype sqlite_code = DatabaseBusy | DatabaseLocked | ConstraintViolation | SqliteCodeOther

text \<open>\<open>rusqlite::Error\<close>: a failure with its primary and extended code and message, or
  anything else.\<close>

datatype sqlite_error =
    SqliteFailure sqlite_code int "string option"
  | SqliteOther string

datatype error =
    Io io_kind string
  | Sqlite sqlite_error
  | Yaml string
  | JsonError string
  | Toml string
  | Ast string
  | Git string
  | Migration string
  | SchemaTooNew string
  | VecDimMismatch nat nat
  | Frontmatter string
  | IdCollision string
  | Document string
  | NotFound string
  | Usage string
  | Config string
  | Forbidden string
  | BadRequest string
  | ConfirmationRequired string
  | Unavailable string
  | Conflict string
  | EpochMismatch string
  | IndexRunning string string
  | Cancelled
  | Unsupported string
  | Embedder string
  | Busy string
  | RestoreUnverified string
  | Project project_error
  | Other string

text \<open>\<open>Error: Display\<close>; \<open>sqlite_text\<close> renders a \<open>rusqlite\<close> error.\<close>

fun error_message :: "(sqlite_error \<Rightarrow> string) \<Rightarrow> error \<Rightarrow> string" where
  "error_message sqlite_text (Io _ m) = ''io: '' @ m"
| "error_message sqlite_text (Sqlite e) = ''sqlite: '' @ sqlite_text e"
| "error_message sqlite_text (Yaml m) = ''yaml: '' @ m"
| "error_message sqlite_text (JsonError m) = ''json: '' @ m"
| "error_message sqlite_text (Toml m) = ''toml: '' @ m"
| "error_message sqlite_text (Ast m) = ''ast: '' @ m"
| "error_message sqlite_text (Git m) = ''git: '' @ m"
| "error_message sqlite_text (Migration m) = ''schema migration failed: '' @ m"
| "error_message sqlite_text (SchemaTooNew m) = ''schema too new: '' @ m"
| "error_message sqlite_text (VecDimMismatch expected got) =
     ''vector dim mismatch: expected '' @ show_nat expected @ '', got '' @ show_nat got"
| "error_message sqlite_text (Frontmatter m) = ''invalid frontmatter: '' @ m"
| "error_message sqlite_text (IdCollision i) =
     ''memory id '' @ i @ '' already belongs to a different body (32-bit content-address '' @
     ''collision); change the body to save it''"
| "error_message sqlite_text (Document m) = ''document extract: '' @ m"
| "error_message sqlite_text (NotFound m) = ''memory not found: '' @ m"
| "error_message sqlite_text (Usage m) = m"
| "error_message sqlite_text (Config m) = ''config: '' @ m"
| "error_message sqlite_text (Forbidden m) = ''forbidden: '' @ m"
| "error_message sqlite_text (BadRequest m) = ''bad request: '' @ m"
| "error_message sqlite_text (ConfirmationRequired m) = ''confirmation required: '' @ m"
| "error_message sqlite_text (Unavailable m) = ''unavailable: '' @ m"
| "error_message sqlite_text (Conflict m) = ''conflict: '' @ m"
| "error_message sqlite_text (EpochMismatch m) = ''epoch_mismatch: '' @ m"
| "error_message sqlite_text (IndexRunning repo job_id) =
     ''index-code is already running for repo '' @ repo @ '' (job '' @ job_id @ '')''"
| "error_message sqlite_text Cancelled = ''cancelled''"
| "error_message sqlite_text (Unsupported m) = ''unsupported: '' @ m"
| "error_message sqlite_text (Embedder m) = ''embedder unavailable: '' @ m"
| "error_message sqlite_text (Busy m) = ''busy: '' @ m"
| "error_message sqlite_text (RestoreUnverified m) = ''restore_unverified: '' @ m"
| "error_message sqlite_text (Project p) = project_message p"
| "error_message sqlite_text (Other m) = ''other: '' @ m"

section \<open>Classification\<close>

datatype err_class =
    ClassNotFound | ClassUnauthorized | ClassForbidden | ClassBadRequest | ClassUnprocessable
  | ClassConflict | ClassUnavailable | ClassLocked | ClassNotImplemented | ClassInternal

text \<open>\<open>classify_project\<close>, the table the macro \<open>code_table!\<close> expands to.\<close>

fun classify_project :: "project_error \<Rightarrow> string \<times> err_class" where
  "classify_project (ProjectNotFound _) = (''project_not_found'', ClassNotFound)"
| "classify_project (WorkItemNotFound _) = (''work_item_not_found'', ClassNotFound)"
| "classify_project (ProposalNotFound _) = (''proposal_not_found'', ClassNotFound)"
| "classify_project (ExecutionNotFound _) = (''execution_not_found'', ClassNotFound)"
| "classify_project (EvidenceNotFound _) = (''evidence_not_found'', ClassNotFound)"
| "classify_project (InvalidRequest edge _ _) =
     (case edge of
        EdgeSchema \<Rightarrow> (''invalid_request'', ClassBadRequest)
      | EdgeInvariant \<Rightarrow> (''invalid_request'', ClassUnprocessable))"
| "classify_project (DependencyCycle _) = (''dependency_cycle'', ClassUnprocessable)"
| "classify_project (ProjectAgentScope _) = (''project_agent_scope'', ClassForbidden)"
| "classify_project (RepoNotAllowed _) = (''repo_not_allowed'', ClassForbidden)"
| "classify_project ExecutionActorForbidden = (''forbidden'', ClassForbidden)"
| "classify_project (TierForbidden _) = (''forbidden'', ClassForbidden)"
| "classify_project (ProposalStale _ _) = (''proposal_stale'', ClassConflict)"
| "classify_project ProposalAlreadyReviewed = (''proposal_already_reviewed'', ClassConflict)"
| "classify_project (VersionConflict _) = (''version_conflict'', ClassConflict)"
| "classify_project IdempotencyConflict = (''idempotency_conflict'', ClassConflict)"
| "classify_project (InvalidTransition _) = (''invalid_transition'', ClassConflict)"
| "classify_project (DependencyBlocked _) = (''dependency_blocked'', ClassConflict)"
| "classify_project (CompletionRequirementsUnmet _ _ _) =
     (''completion_requirements_unmet'', ClassConflict)"
| "classify_project (EvidenceUnverified _) = (''evidence_unverified'', ClassConflict)"
| "classify_project ExecutionActive = (''execution_active'', ClassConflict)"
| "classify_project (Unauthorized _) = (''unauthorized'', ClassUnauthorized)"
| "classify_project (ContextUnavailable _) = (''context_unavailable'', ClassUnavailable)"
| "classify_project (Invariant _ _) = (''internal_error'', ClassInternal)"

fun classify_io :: "io_kind \<Rightarrow> string \<times> err_class" where
  "classify_io IoNotFound = (''not_found'', ClassNotFound)"
| "classify_io IoOther = (''internal'', ClassInternal)"

text \<open>\<open>store::busy::is_locked\<close>.\<close>

fun is_locked :: "error \<Rightarrow> bool" where
  "is_locked (Sqlite (SqliteFailure DatabaseBusy _ _)) = True"
| "is_locked (Sqlite (SqliteFailure DatabaseLocked _ _)) = True"
| "is_locked _ = False"

definition classify_sqlite :: "error \<Rightarrow> string \<times> err_class" where
  "classify_sqlite e =
     (if is_locked e then (''store_locked'', ClassLocked) else (''internal'', ClassInternal))"

fun classify :: "error \<Rightarrow> string \<times> err_class" where
  "classify (Io kind _) = classify_io kind"
| "classify (Sqlite e) = classify_sqlite (Sqlite e)"
| "classify (Yaml _) = (''internal'', ClassInternal)"
| "classify (Toml _) = (''internal'', ClassInternal)"
| "classify (Git _) = (''internal'', ClassInternal)"
| "classify (Migration _) = (''internal'', ClassInternal)"
| "classify (Other _) = (''internal'', ClassInternal)"
| "classify (JsonError _) = (''json'', ClassBadRequest)"
| "classify (Ast _) = (''ast'', ClassBadRequest)"
| "classify (SchemaTooNew _) = (''schema_mismatch'', ClassUnprocessable)"
| "classify (VecDimMismatch _ _) = (''vec_dim_mismatch'', ClassUnprocessable)"
| "classify (Frontmatter _) = (''frontmatter'', ClassBadRequest)"
| "classify (IdCollision _) = (''id_collision'', ClassConflict)"
| "classify (Document _) = (''document'', ClassBadRequest)"
| "classify (NotFound _) = (''not_found'', ClassNotFound)"
| "classify (Usage _) = (''usage'', ClassBadRequest)"
| "classify (Config _) = (''config'', ClassBadRequest)"
| "classify (Forbidden _) = (''forbidden'', ClassForbidden)"
| "classify (BadRequest _) = (''bad_request'', ClassBadRequest)"
| "classify (ConfirmationRequired _) = (''confirmation_required'', ClassBadRequest)"
| "classify (Unavailable _) = (''unavailable'', ClassUnavailable)"
| "classify (Conflict _) = (''conflict'', ClassConflict)"
| "classify (EpochMismatch _) = (''epoch_mismatch'', ClassConflict)"
| "classify (IndexRunning _ _) = (''index_running'', ClassConflict)"
| "classify Cancelled = (''cancelled'', ClassConflict)"
| "classify (Unsupported _) = (''unsupported'', ClassNotImplemented)"
| "classify (Embedder _) = (''embedder_unavailable'', ClassUnavailable)"
| "classify (Busy _) = (''busy'', ClassUnavailable)"
| "classify (RestoreUnverified _) = (''restore_unverified'', ClassUnavailable)"
| "classify (Project p) = classify_project p"

section \<open>Exit codes\<close>

fun exit_for_class :: "err_class \<Rightarrow> int" where
  "exit_for_class ClassNotFound = 64"
| "exit_for_class ClassBadRequest = 64"
| "exit_for_class ClassNotImplemented = 64"
| "exit_for_class ClassUnprocessable = 65"
| "exit_for_class ClassUnavailable = 69"
| "exit_for_class ClassUnauthorized = 70"
| "exit_for_class ClassForbidden = 70"
| "exit_for_class ClassInternal = 70"
| "exit_for_class ClassConflict = 75"
| "exit_for_class ClassLocked = 75"

fun exit_code :: "error \<Rightarrow> int" where
  "exit_code (Io _ _) = 74"
| "exit_code (Config _) = 78"
| "exit_code (Unavailable _) = 69"
| "exit_code (Embedder _) = 69"
| "exit_code (IndexRunning _ _) = 75"
| "exit_code (EpochMismatch _) = 75"
| "exit_code (Conflict _) = 75"
| "exit_code (Busy _) = 75"
| "exit_code (RestoreUnverified _) = 75"
| "exit_code (NotFound _) = 64"
| "exit_code (Usage _) = 64"
| "exit_code (Unsupported _) = 64"
| "exit_code (Yaml _) = 65"
| "exit_code (JsonError _) = 65"
| "exit_code (Toml _) = 65"
| "exit_code (VecDimMismatch _ _) = 65"
| "exit_code (IdCollision _) = 65"
| "exit_code (Frontmatter _) = 65"
| "exit_code (Document _) = 65"
| "exit_code (Sqlite _) = 70"
| "exit_code (Ast _) = 70"
| "exit_code (Git _) = 70"
| "exit_code (Migration _) = 70"
| "exit_code (SchemaTooNew _) = 70"
| "exit_code (Forbidden _) = 70"
| "exit_code (BadRequest _) = 70"
| "exit_code (ConfirmationRequired _) = 70"
| "exit_code Cancelled = 70"
| "exit_code (Other _) = 70"
| "exit_code (Project p) = exit_for_class (snd (classify_project p))"

section \<open>Building a refusal and its details\<close>

definition invalid_field :: "string \<Rightarrow> string \<Rightarrow> project_error" where
  "invalid_field field reason =
     InvalidRequest EdgeSchema (field @ '' is '' @ reason)
       [(''field'', JStr field), (''reason'', JStr reason)]"

text \<open>\<open>ProjectError::at\<close>: another edge and, if given, a fixed message; only an
  \<open>invalid_request\<close> changes.\<close>

fun at_edge :: "project_error \<Rightarrow> request_edge \<Rightarrow> string option \<Rightarrow> project_error" where
  "at_edge (InvalidRequest _ message details) edge fixed =
     InvalidRequest edge (case fixed of None \<Rightarrow> message | Some m \<Rightarrow> m) details"
| "at_edge e _ _ = e"

text \<open>\<open>if let InvalidRequest { details, .. } = &mut refusal { details.push(key, value) }\<close>.\<close>

fun push_detail :: "project_error \<Rightarrow> string \<Rightarrow> json \<Rightarrow> project_error" where
  "push_detail (InvalidRequest edge message details) key v =
     InvalidRequest edge message (details @ [(key, v)])"
| "push_detail e _ _ = e"

definition over_limit :: "string \<Rightarrow> string \<Rightarrow> nat \<Rightarrow> project_error" where
  "over_limit field reason limit =
     push_detail
       (at_edge (invalid_field field reason) EdgeInvariant
         (Some (field @ '' is '' @ reason @ '' (limit '' @ show_nat limit @ '')'')))
       ''limit'' (JInt (int limit))"

text \<open>\<open>limits::invariant\<close>: the same refusal at the invariant edge, as a crate error.\<close>

definition invariant_refusal :: "string \<Rightarrow> string \<Rightarrow> error" where
  "invariant_refusal field reason = Project (at_edge (invalid_field field reason) EdgeInvariant None)"

fun detail_pairs :: "project_error \<Rightarrow> (string \<times> json) list" where
  "detail_pairs (ProjectNotFound i) = [(''projectId'', JStr i)]"
| "detail_pairs (WorkItemNotFound i) = [(''workItemId'', JStr i)]"
| "detail_pairs (ProposalNotFound i) = [(''proposalId'', JStr i)]"
| "detail_pairs (ExecutionNotFound i) = [(''executionId'', JStr i)]"
| "detail_pairs (EvidenceNotFound i) = [(''evidenceId'', JStr i)]"
| "detail_pairs (DependencyCycle ids) = [(''workItemIds'', json_ids ids)]"
| "detail_pairs (RepoNotAllowed repo) = [(''repo'', JStr repo)]"
| "detail_pairs (ProposalStale base current) =
     [(''basePlanVersion'', JInt base), (''currentPlanVersion'', JInt current)]"
| "detail_pairs (VersionConflict current) = [(''currentVersion'', JInt current)]"
| "detail_pairs (DependencyBlocked blockers) = [(''blockerWorkItemIds'', json_ids blockers)]"
| "detail_pairs (CompletionRequirementsUnmet unmet unverified work_items) =
     [(''criterionIds'', json_ids (unmet @ unverified)),
      (''unmetCriterionIds'', json_ids unmet),
      (''unverifiedCriterionIds'', json_ids unverified),
      (''workItemIds'', json_ids work_items)]"
| "detail_pairs (EvidenceUnverified ids) = [(''criterionIds'', json_ids ids)]"
| "detail_pairs (Invariant i _) = [(''invariant'', JStr i)]"
| "detail_pairs _ = []"

text \<open>\<open>OrderedDetails::coded\<close> and \<open>ProjectError::details\<close>.\<close>

definition coded :: "string \<Rightarrow> (string \<times> json) list \<Rightarrow> (string \<times> json) list" where
  "coded code pairs = (''code'', JStr code) # pairs"

fun details :: "project_error \<Rightarrow> (string \<times> json) list" where
  "details (InvalidRequest edge message ds) = ds"
| "details e = coded (fst (classify_project e)) (detail_pairs e)"

section \<open>Properties\<close>

definition exit_of_code :: "string \<Rightarrow> int" where
  "exit_of_code code =
     (if code \<in> {''project_not_found'', ''work_item_not_found'', ''proposal_not_found'',
                  ''execution_not_found'', ''evidence_not_found''} then 64
      else if code = ''dependency_cycle'' then 65
      else if code = ''context_unavailable'' then 69
      else if code \<in> {''project_agent_scope'', ''repo_not_allowed'', ''forbidden'', ''unauthorized'',
                       ''internal_error''} then 70
      else 75)"

text \<open>The wire code of a project refusal fixes its exit code: two refusals with one code end
  the process alike, except \<open>invalid_request\<close>, where the edge decides (64 for a malformed
  request, 65 for a violated invariant); and every other refusal's details name its code
  first.\<close>

theorem wire_code_fixes_exit:
  "(if fst (classify (Project e)) = ''invalid_request''
    then exit_code (Project e) = (if \<exists>m ds. e = InvalidRequest EdgeSchema m ds then 64 else 65)
    else exit_code (Project e) = exit_of_code (fst (classify (Project e))) \<and>
      hd (details e) = (''code'', JStr (fst (classify (Project e)))))"
proof (cases e)
  case (InvalidRequest edge m ds)
  then show ?thesis by (cases edge) simp_all
qed (simp_all add: exit_of_code_def coded_def)

section \<open>Constraint failures\<close>

definition constraint_error :: "int \<Rightarrow> string \<Rightarrow> error" where
  "constraint_error ext message = Sqlite (SqliteFailure ConstraintViolation ext (Some message))"

definition ext_unique :: int where "ext_unique = 2067"
definition ext_primary_key :: int where "ext_primary_key = 1555"
definition ext_foreign_key :: int where "ext_foreign_key = 787"

lemmas ext_defs [table_simps] = ext_unique_def ext_primary_key_def ext_foreign_key_def

definition unique_failed :: "int \<Rightarrow> string \<Rightarrow> error" where
  "unique_failed ext column = constraint_error ext (''UNIQUE constraint failed: '' @ column)"

definition foreign_key_failed :: error where
  "foreign_key_failed = constraint_error ext_foreign_key ''FOREIGN KEY constraint failed''"

definition check_failed :: "string \<Rightarrow> error" where
  "check_failed expr = constraint_error 275 (''CHECK constraint failed: '' @ expr)"

end
