(* ===== verification/Identifiers.thy ===== *)
theory Identifiers
  imports Errors
begin

text \<open>
  The identifier formats: UUIDs (\<open>src/utilities/uuid.rs\<close>), the dated ids and query ids
  (\<open>dated_id.rs\<close>, \<open>query_id.rs\<close>, \<open>digest.rs\<close>), memory ids
  (\<open>src/domains/memories/id.rs\<close>), the slugs of projects and memories, canonical
  repository names and the keyset cursor. For each format: what the code writes is what its
  checker accepts, and what it parses back.

  SHA-256 and the random device are outside the repository: a digest and a random draw are
  arguments.
\<close>

section \<open>Hex shapes\<close>

definition is_lower_hex :: "string \<Rightarrow> nat \<Rightarrow> bool" where
  "is_lower_hex s len \<longleftrightarrow> length s = len \<and> list_all is_lower_hexdigit s"

lemma is_lower_hex_take:
  "is_lower_hex s n \<Longrightarrow> k \<le> n \<Longrightarrow> is_lower_hex (take k s) k"
  by (auto simp: is_lower_hex_def list_all_iff dest: in_set_takeD)

lemma lower_hexdigit_hexdigit: "is_lower_hexdigit c \<Longrightarrow> is_hexdigit c"
  by (auto simp: is_lower_hexdigit_def is_hexdigit_def)

lemma dash_not_hex: "\<not> is_hexdigit CHR ''-''" "\<not> is_lower_hexdigit CHR ''-''"
  by (simp_all add: is_hexdigit_def is_lower_hexdigit_def is_digit_def)

definition is_valid_memory_id :: "string \<Rightarrow> bool" where
  "is_valid_memory_id s \<longleftrightarrow> is_lower_hex s 8"

section \<open>UUIDs\<close>

text \<open>\<open>u8::from_str_radix(.., 16)\<close> of one hex character.\<close>

definition nibble :: "char \<Rightarrow> nat" where
  "nibble c =
     (if is_digit c then byte c - 48
      else if 97 \<le> byte c \<and> byte c \<le> 102 then byte c - 87
      else if 65 \<le> byte c \<and> byte c \<le> 70 then byte c - 55
      else 0)"

definition variant_char :: "nat \<Rightarrow> char" where
  "variant_char n =
     (if n mod 4 = 0 then CHR ''8'' else if n mod 4 = 1 then CHR ''9''
      else if n mod 4 = 2 then CHR ''a'' else CHR ''b'')"

text \<open>\<open>new_v4\<close> of 32 random hex characters: the version and variant nibbles are set, then
  the five groups are cut.\<close>

definition new_v4 :: "string \<Rightarrow> string" where
  "new_v4 random =
     (let hex = take 12 random @ ''4'' @ take 3 (drop 13 random) @
                [variant_char (nibble (random ! 16))] @ drop 17 random
      in join_with CHR ''-''
           [take 8 hex, take 4 (drop 8 hex), take 4 (drop 12 hex), take 4 (drop 16 hex), drop 20 hex])"

definition uuid_group_lengths :: "nat list" where
  "uuid_group_lengths = [8, 4, 4, 4, 12]"

definition canonical_uuid :: "string \<Rightarrow> string option" where
  "canonical_uuid raw =
     (let groups = split_on CHR ''-'' raw;
          shaped = (length groups = 5 \<and>
             list_all (\<lambda>(g, n). length g = n \<and> list_all is_hexdigit g) (zip groups uuid_group_lengths))
      in if shaped then Some (ascii_lower raw) else None)"

lemma canonical_uuid_groups:
  "canonical_uuid raw = Some u \<longleftrightarrow>
     u = ascii_lower raw \<and>
     list_all2 (\<lambda>g n. length g = n \<and> list_all is_hexdigit g) (split_on CHR ''-'' raw) uuid_group_lengths"
  by (auto simp: canonical_uuid_def Let_def list_all2_iff list_all_iff uuid_group_lengths_def)

lemma split_on_map:
  assumes "\<And>c. f c = d \<longleftrightarrow> c = d"
  shows "split_on d (map f s) = map (map f) (split_on d s)"
  using assms by (induction s) (auto split: list.splits)

lemma lower_char_dash: "lower_char c = CHR ''-'' \<longleftrightarrow> c = CHR ''-''"
proof
  assume a: "lower_char c = CHR ''-''"
  then have "byte (lower_char c) = (45::nat)" by simp
  then have "\<not> is_upper c" by (auto simp: byte_lower_char is_upper_def split: if_splits)
  with a show "c = CHR ''-''" by (simp add: lower_char_def)
qed (simp add: lower_char_def is_upper_def)

lemma canonical_uuid_idem:
  assumes "canonical_uuid raw = Some u"
  shows "canonical_uuid u = Some u"
proof -
  have "split_on CHR ''-'' u = map ascii_lower (split_on CHR ''-'' raw)"
    using assms lower_char_dash
    by (simp add: canonical_uuid_groups ascii_lower_def split_on_map)
  with assms show ?thesis
    by (auto simp: canonical_uuid_groups list_all2_map1 list_all_iff ascii_lower_def lower_char_hex_iff
        elim!: list_all2_mono)
qed

lemma length_join5:
  "length (join_with d [a, b, c, e, f]) = length a + length b + length c + length e + length f + 4"
  by simp

lemma canonical_uuid_shape:
  assumes "canonical_uuid raw = Some u"
  shows "length u = 36 \<and> list_all (\<lambda>c. is_lower_hexdigit c \<or> c = CHR ''-'') u"
proof -
  let ?g = "split_on CHR ''-'' raw"
  have g: "list_all2 (\<lambda>g n. length g = n \<and> list_all is_hexdigit g) ?g uuid_group_lengths"
    and u: "u = ascii_lower raw"
    using assms by (auto simp: canonical_uuid_groups)
  then obtain a b c d e where gs: "?g = [a, b, c, d, e]"
    and len: "length a = 8" "length b = 4" "length c = 4" "length d = 4" "length e = 12"
    and hex: "list_all is_hexdigit a" "list_all is_hexdigit b" "list_all is_hexdigit c"
      "list_all is_hexdigit d" "list_all is_hexdigit e"
    by (auto simp: uuid_group_lengths_def list_all2_Cons2)
  have v: "raw = join_with CHR ''-'' [a, b, c, d, e]"
    using join_split [of "CHR ''-''" raw] gs by simp
  have "list_all (\<lambda>c. is_hexdigit c \<or> c = CHR ''-'') raw"
    using hex v by (auto simp: list_all_iff)
  then have "list_all (\<lambda>c. is_lower_hexdigit c \<or> c = CHR ''-'') u"
    using u lower_char_hex lower_char_dash by (auto simp: list_all_iff ascii_lower_def)
  moreover have "length u = 36" using u v len by simp
  ultimately show ?thesis by simp
qed

section \<open>Dated ids\<close>

text \<open>\<open>{:04}\<close> and \<open>{:02}\<close>.\<close>

definition pad_zero :: "nat \<Rightarrow> nat \<Rightarrow> string" where
  "pad_zero w n = replicate (w - length (show_nat n)) CHR ''0'' @ show_nat n"

text \<open>The calendar day of an instant and its nanosecond bytes, which the crate \<open>time\<close> computes.\<close>

record moment =
  m_year :: nat
  m_month :: nat
  m_day :: nat
  m_nanos_be :: string

definition dated_id :: "(string \<Rightarrow> string) \<Rightarrow> string \<Rightarrow> string \<Rightarrow> moment \<Rightarrow> string" where
  "dated_id sha256_hex prefix seed now =
     prefix @ ''-'' @ pad_zero 4 (m_year now) @ pad_zero 2 (m_month now) @ pad_zero 2 (m_day now) @
     ''-'' @ take 8 (sha256_hex (seed @ m_nanos_be now))"

definition is_valid_dated_id :: "string \<Rightarrow> string \<Rightarrow> bool" where
  "is_valid_dated_id s prefix =
     (let head = length prefix + 1
      in length s = head + 17 \<and> take (length prefix) s = prefix \<and>
         s ! length prefix = CHR ''-'' \<and>
         list_all is_digit (take 8 (drop head s)) \<and>
         s ! (head + 8) = CHR ''-'' \<and>
         is_lower_hex (drop (head + 9) s) 8)"

definition generate_query_id :: "(string \<Rightarrow> string) \<Rightarrow> string \<Rightarrow> moment \<Rightarrow> string" where
  "generate_query_id sha256_hex query now =
     ''q-'' @ pad_zero 4 (m_year now) @ pad_zero 2 (m_month now) @ pad_zero 2 (m_day now) @
     ''-'' @ take 8 (sha256_hex (query @ m_nanos_be now))"

definition is_valid_query_id :: "string \<Rightarrow> bool" where
  "is_valid_query_id s \<longleftrightarrow>
     length s = 19 \<and> take 2 s = ''q-'' \<and> list_all is_digit (take 8 (drop 2 s)) \<and>
     s ! 10 = CHR ''-'' \<and> is_lower_hex (drop 11 s) 8"

lemma pad_zero_digits: "list_all is_digit (pad_zero w n)"
  using show_nat_digits [of n] by (auto simp: pad_zero_def list_all_iff is_digit_def)

lemma length_pad_zero: "n < 10 ^ w \<Longrightarrow> 0 < w \<Longrightarrow> length (pad_zero w n) = w"
  using length_show_nat_le [of n w] by (simp add: pad_zero_def)

lemma date_part:
  assumes "y < 10000" "m < 100" "d < 100"
  shows "length (pad_zero 4 y @ pad_zero 2 m @ pad_zero 2 d) = 8"
    and "list_all is_digit (pad_zero 4 y @ pad_zero 2 m @ pad_zero 2 d)"
  using assms pad_zero_digits by (auto simp: length_pad_zero list_all_append)

text \<open>The shape both minted ids have: a prefix, a dash, eight digits, a dash, eight hex.\<close>

lemma dated_shape:
  assumes "length date = 8" "list_all is_digit date" "is_lower_hex tail 8"
  shows "is_valid_dated_id (prefix @ ''-'' @ date @ ''-'' @ tail) prefix"
  using assms by (simp add: is_valid_dated_id_def is_lower_hex_def nth_append Let_def)

lemma query_id_is_dated: "is_valid_query_id s \<longleftrightarrow> is_valid_dated_id s ''q''"
proof (cases s)
  case Nil
  then show ?thesis by (simp add: is_valid_query_id_def is_valid_dated_id_def)
next
  case s: (Cons a t)
  show ?thesis
  proof (cases t)
    case Nil
    with s show ?thesis by (simp add: is_valid_query_id_def is_valid_dated_id_def)
  next
    case (Cons b r)
    with s show ?thesis
      by (auto simp: is_valid_query_id_def is_valid_dated_id_def)
  qed
qed

lemma generate_query_id_is_dated: "generate_query_id h q now = dated_id h ''q'' q now"
  by (simp add: generate_query_id_def dated_id_def)

section \<open>Slugs\<close>

text \<open>\<open>str::to_lowercase\<close>. Lowercasing a character outside ASCII is the Unicode table of
  the standard library, the argument \<open>lower_other\<close>; its one context rule (final sigma)
  only chooses between two characters outside ASCII, which no slug keeps.\<close>

definition lower_chars :: "(string \<Rightarrow> string) \<Rightarrow> string \<Rightarrow> string list" where
  "lower_chars lower_other s =
     chars (concat (map (\<lambda>c. case c of [b] \<Rightarrow> if is_ascii b then [lower_char b] else lower_other c
                                     | _ \<Rightarrow> lower_other c) (chars s)))"

definition slug_char :: "string \<Rightarrow> bool" where
  "slug_char c = (case c of [b] \<Rightarrow> is_lower b \<or> is_digit b | _ \<Rightarrow> False)"

definition ends_with_dash :: "string \<Rightarrow> bool" where
  "ends_with_dash s \<longleftrightarrow> s \<noteq> [] \<and> last s = CHR ''-''"

fun base_slug_loop :: "string \<Rightarrow> string list \<Rightarrow> string" where
  "base_slug_loop slug [] = slug"
| "base_slug_loop slug (ch # rest) =
     base_slug_loop
       (if slug_char ch then slug @ ch
        else if \<not> ends_with_dash slug then slug @ ''-'' else slug) rest"

definition trim_dashes :: "string \<Rightarrow> string" where
  "trim_dashes s =
     rev (dropWhile (\<lambda>c. c = CHR ''-'') (rev (dropWhile (\<lambda>c. c = CHR ''-'') s)))"

definition base_slug :: "(string \<Rightarrow> string) \<Rightarrow> string \<Rightarrow> string" where
  "base_slug lower_other name =
     (let trimmed = trim_dashes (base_slug_loop [] (lower_chars lower_other name))
      in if trimmed = [] then ''project'' else take 60 trimmed)"

definition disambiguate :: "string \<Rightarrow> nat \<Rightarrow> string" where
  "disambiguate base attempt =
     (if attempt = 0 then base else base @ ''-'' @ show_nat (attempt + 1))"

text \<open>\<open>str::lines\<close>.\<close>

definition strip_cr :: "string \<Rightarrow> string" where
  "strip_cr s = (if s \<noteq> [] \<and> last s = CHR 0x0D then butlast s else s)"

definition lines_of :: "string \<Rightarrow> string list" where
  "lines_of s =
     (let ps = split_on CHR ''\<newline>'' s in map strip_cr (if last ps = [] then butlast ps else ps))"

definition is_alnum :: "char \<Rightarrow> bool" where
  "is_alnum c \<longleftrightarrow> is_digit c \<or> is_upper c \<or> is_lower c"

fun memory_slug_loop :: "string \<Rightarrow> bool \<Rightarrow> string list \<Rightarrow> string" where
  "memory_slug_loop out prev_dash [] = out"
| "memory_slug_loop out prev_dash (c # rest) =
     (let (out', prev') =
            (case c of
               [b] \<Rightarrow>
                 if is_alnum b then (out @ [lower_char b], False)
                 else if \<not> prev_dash \<and> out \<noteq> [] then (out @ ''-'', True) else (out, prev_dash)
             | _ \<Rightarrow> if \<not> prev_dash \<and> out \<noteq> [] then (out @ ''-'', True) else (out, prev_dash))
      in if 60 \<le> length out' then out' else memory_slug_loop out' prev' rest)"

definition slug_from_body :: "string \<Rightarrow> string" where
  "slug_from_body body =
     (let first = (case find (\<lambda>l. l \<noteq> []) (map trim (lines_of body)) of Some l \<Rightarrow> l | None \<Rightarrow> []);
          trimmed = trim_dashes (memory_slug_loop [] False (chars first))
      in if trimmed = [] then ''untitled'' else trimmed)"

text \<open>What a slug may contain: lowercase letters, digits and single dashes.\<close>

definition slug_byte :: "char \<Rightarrow> bool" where
  "slug_byte c \<longleftrightarrow> is_lower c \<or> is_digit c \<or> c = CHR ''-''"

lemma slug_byte_dash [simp]: "slug_byte CHR ''-''"
  by (simp add: slug_byte_def)

fun no_double_dash :: "string \<Rightarrow> bool" where
  "no_double_dash (a # b # s) \<longleftrightarrow> \<not> (a = CHR ''-'' \<and> b = CHR ''-'') \<and> no_double_dash (b # s)"
| "no_double_dash _ \<longleftrightarrow> True"

lemma no_double_dash_append:
  "no_double_dash (s @ [c]) \<longleftrightarrow> no_double_dash s \<and> \<not> (ends_with_dash s \<and> c = CHR ''-'')"
  by (induction s rule: no_double_dash.induct) (auto simp: ends_with_dash_def)

lemma no_double_dash_append2:
  "no_double_dash (s @ [b, a]) \<longleftrightarrow> no_double_dash (s @ [b]) \<and> \<not> (b = CHR ''-'' \<and> a = CHR ''-'')"
  using no_double_dash_append [of "s @ [b]" a] by (simp add: ends_with_dash_def)

lemma no_double_dash_Cons: "no_double_dash (c # s) \<Longrightarrow> no_double_dash s"
  by (cases s) auto

lemma no_double_dash_rev [simp]: "no_double_dash (rev s) = no_double_dash s"
  by (induction s rule: no_double_dash.induct) (auto simp: no_double_dash_append2)

lemma no_double_dash_dropWhile: "no_double_dash s \<Longrightarrow> no_double_dash (dropWhile P s)"
  by (induction s) (auto dest: no_double_dash_Cons)

lemma no_double_dash_take: "no_double_dash s \<Longrightarrow> no_double_dash (take n s)"
proof (induction s arbitrary: n rule: no_double_dash.induct)
  case (1 a b s)
  show ?case
  proof (cases n)
    case (Suc m)
    with 1 have "no_double_dash (take m (b # s))" by simp
    with 1 Suc show ?thesis by (cases m) auto
  qed simp
qed (auto simp: take_Cons split: nat.splits)

lemma trim_dashes_props:
  assumes "no_double_dash s" "list_all slug_byte s"
  shows "no_double_dash (trim_dashes s)" "list_all slug_byte (trim_dashes s)"
    "\<not> ends_with_dash (trim_dashes s)"
    "trim_dashes s \<noteq> [] \<Longrightarrow> hd (trim_dashes s) \<noteq> CHR ''-''"
    "length (trim_dashes s) \<le> length s"
proof -
  let ?d = "dropWhile (\<lambda>c. c = CHR ''-'')"
  show "no_double_dash (trim_dashes s)"
    using assms(1) by (simp add: trim_dashes_def no_double_dash_dropWhile)
  show "list_all slug_byte (trim_dashes s)"
    using assms(2) by (auto simp: trim_dashes_def list_all_iff dest!: set_dropWhileD)
  have e: "?d r \<noteq> [] \<Longrightarrow> hd (?d r) \<noteq> CHR ''-''" for r
    using hd_dropWhile [of "\<lambda>c. c = CHR ''-''" r] by blast
  show "\<not> ends_with_dash (trim_dashes s)"
    using e [of "rev (?d s)"]
    by (simp only: trim_dashes_def ends_with_dash_def last_rev rev_is_Nil_conv) blast
  show "hd (trim_dashes s) \<noteq> CHR ''-''" if ne: "trim_dashes s \<noteq> []"
  proof -
    have ds: "?d s \<noteq> []"
    proof
      assume "?d s = []"
      then have "trim_dashes s = []" by (simp only: trim_dashes_def rev.simps dropWhile.simps)
      with ne show False by contradiction
    qed
    then obtain c cs where cs: "?d s = c # cs" by (meson list.exhaust)
    with e [OF ds] have "c \<noteq> CHR ''-''" by (simp only: list.sel simp_thms)
    then have "?d (rev cs @ [c]) = ?d (rev cs) @ [c]"
      by (simp add: dropWhile_append dropWhile_eq_Nil_conv)
    then have "hd (trim_dashes s) = c" by (simp add: trim_dashes_def cs)
    with \<open>c \<noteq> CHR ''-''\<close> show ?thesis by simp
  qed
  show "length (trim_dashes s) \<le> length s"
    unfolding trim_dashes_def by (metis length_dropWhile_le length_rev order_trans)
qed

lemma base_slug_loop_props:
  assumes "no_double_dash slug" "list_all slug_byte slug"
  shows "no_double_dash (base_slug_loop slug cs) \<and> list_all slug_byte (base_slug_loop slug cs)"
  using assms
proof (induction slug cs rule: base_slug_loop.induct)
  case (1 slug)
  then show ?case by simp
next
  case (2 slug ch rest)
  show ?case
  proof (cases "slug_char ch")
    case True
    then obtain b where b: "ch = [b]" "is_lower b \<or> is_digit b"
      by (auto simp: slug_char_def split: list.splits)
    then have "b \<noteq> CHR ''-''" by (auto simp: is_lower_def is_digit_def)
    with b 2 True show ?thesis
      by (auto simp: no_double_dash_append slug_byte_def)
  next
    case False
    with 2 show ?thesis
      by (auto simp: no_double_dash_append slug_byte_def)
  qed
qed

lemma memory_slug_loop_props:
  assumes "no_double_dash out" "list_all slug_byte out" "prev = ends_with_dash out" "length out < 60"
  shows "no_double_dash (memory_slug_loop out prev cs) \<and>
         list_all slug_byte (memory_slug_loop out prev cs) \<and>
         length (memory_slug_loop out prev cs) \<le> 60"
  using assms
proof (induction out prev cs rule: memory_slug_loop.induct)
  case (1 out prev)
  then show ?case by simp
next
  case (2 out prev c rest)
  define next_out where "next_out =
    (case c of
       [b] \<Rightarrow> if is_alnum b then (out @ [lower_char b], False)
              else if \<not> prev \<and> out \<noteq> [] then (out @ ''-'', True) else (out, prev)
     | _ \<Rightarrow> if \<not> prev \<and> out \<noteq> [] then (out @ ''-'', True) else (out, prev))"
  obtain out' prev' where n: "next_out = (out', prev')" by fastforce
  have low: "slug_byte (lower_char b) \<and> lower_char b \<noteq> CHR ''-''" if "is_alnum b" for b
    using that
    by (auto simp: is_alnum_def slug_byte_def is_lower_def is_digit_def byte_lower_char is_upper_def
        lower_char_dash)
  have inv: "no_double_dash out'" "list_all slug_byte out'" "prev' = ends_with_dash out'"
    "length out' \<le> Suc (length out)"
    using n 2(2-5) low
    by (auto simp: next_out_def no_double_dash_append ends_with_dash_def
        split: list.splits if_splits)
  have "memory_slug_loop out prev (c # rest) =
        (if 60 \<le> length out' then out' else memory_slug_loop out' prev' rest)"
    using n by (simp add: next_out_def split del: if_split)
  with inv 2 n show ?case by (auto simp: next_out_def)
qed

text \<open>The invariant of a project slug, and of a memory's file name.\<close>

lemma base_slug_props:
  shows "base_slug lower_other name \<noteq> []"
    and "length (base_slug lower_other name) \<le> 60"
    and "list_all slug_byte (base_slug lower_other name)"
    and "no_double_dash (base_slug lower_other name)"
    and "hd (base_slug lower_other name) \<noteq> CHR ''-''"
proof -
  define raw where "raw = base_slug_loop [] (lower_chars lower_other name)"
  have "no_double_dash raw" "list_all slug_byte raw"
    unfolding raw_def using base_slug_loop_props [of "[]"] by auto
  note t = trim_dashes_props [OF this]
  have p: "list_all slug_byte ''project''"
    by (simp add: slug_byte_def is_lower_def)
  have b: "base_slug lower_other name =
           (if trim_dashes raw = [] then ''project'' else take 60 (trim_dashes raw))"
    by (simp add: base_slug_def raw_def Let_def)
  show "base_slug lower_other name \<noteq> []" by (simp add: b)
  show "length (base_slug lower_other name) \<le> 60" by (simp add: b)
  show "list_all slug_byte (base_slug lower_other name)"
    using p t(2) by (auto simp: b list_all_iff dest: in_set_takeD)
  show "no_double_dash (base_slug lower_other name)"
    using t(1) by (simp add: b no_double_dash_take)
  show "hd (base_slug lower_other name) \<noteq> CHR ''-''"
    using t(4) by (simp add: b)
qed

lemma slug_from_body_props:
  shows "slug_from_body body \<noteq> []"
    and "length (slug_from_body body) \<le> 60"
    and "list_all slug_byte (slug_from_body body)"
    and "no_double_dash (slug_from_body body)"
    and "hd (slug_from_body body) \<noteq> CHR ''-'' \<and> last (slug_from_body body) \<noteq> CHR ''-''"
proof -
  define first where
    "first = (case find (\<lambda>l. l \<noteq> []) (map trim (lines_of body)) of Some l \<Rightarrow> l | None \<Rightarrow> [])"
  define raw where "raw = memory_slug_loop [] False (chars first)"
  have raw: "no_double_dash raw" "list_all slug_byte raw" "length raw \<le> 60"
    unfolding raw_def using memory_slug_loop_props [of "[]" False] by (auto simp: ends_with_dash_def)
  note t = trim_dashes_props [OF raw(1,2)]
  have b: "slug_from_body body = (if trim_dashes raw = [] then ''untitled'' else trim_dashes raw)"
    by (simp only: slug_from_body_def raw_def first_def Let_def)
  show "slug_from_body body \<noteq> []" by (simp add: b)
  show "length (slug_from_body body) \<le> 60" using t(5) raw(3) by (simp add: b)
  show "list_all slug_byte (slug_from_body body)"
    using t(2) by (simp add: b slug_byte_def is_lower_def)
  show "no_double_dash (slug_from_body body)" using t(1) by (simp add: b)
  show "hd (slug_from_body body) \<noteq> CHR ''-'' \<and> last (slug_from_body body) \<noteq> CHR ''-''"
    using t(3,4) by (auto simp: b ends_with_dash_def)
qed

lemma disambiguate_inj: "disambiguate base i = disambiguate base j \<Longrightarrow> i = j"
  by (auto simp: disambiguate_def split: if_splits dest: show_nat_inj)

section \<open>Repository names\<close>

definition valid_component :: "string \<Rightarrow> bool" where
  "valid_component s \<longleftrightarrow>
     s \<noteq> [] \<and>
     list_all (\<lambda>c. is_alnum c \<or> c = CHR ''-'' \<or> c = CHR ''_'' \<or> c = CHR ''.'') s"

definition strip_git :: "string \<Rightarrow> string" where
  "strip_git path =
     (if 4 \<le> length path \<and> drop (length path - 4) path = ''.git'' then take (length path - 4) path
      else path)"

definition canonical_github_name :: "string \<Rightarrow> string option" where
  "canonical_github_name path =
     (case split_on CHR ''/'' (strip_git path) of
        [owner, name] \<Rightarrow>
          if valid_component owner \<and> valid_component name
          then Some (ascii_lower (owner @ ''/'' @ name)) else None
      | _ \<Rightarrow> None)"

section \<open>Keyset cursors\<close>

record cursor =
  at_ms :: int
  cursor_id :: string

definition encode_cursor :: "int \<Rightarrow> string \<Rightarrow> string" where
  "encode_cursor ms i = show_int ms @ CHR '':'' # i"

text \<open>\<open>split_once(':')\<close>.\<close>

fun split_once :: "char \<Rightarrow> string \<Rightarrow> (string \<times> string) option" where
  "split_once d [] = None"
| "split_once d (c # cs) =
     (if c = d then Some ([], cs)
      else case split_once d cs of None \<Rightarrow> None | Some (a, b) \<Rightarrow> Some (c # a, b))"

definition cursor_id_byte :: "char \<Rightarrow> bool" where
  "cursor_id_byte c \<longleftrightarrow> is_lower_hexdigit c \<or> c = CHR ''-''"

text \<open>Fifteen digits always fit an \<open>i64\<close>, so \<open>at.parse()\<close> cannot fail here.\<close>

definition parse_cursor :: "string \<Rightarrow> cursor option" where
  "parse_cursor s =
     (case split_once CHR '':'' s of
        None \<Rightarrow> None
      | Some (at, i) \<Rightarrow>
          let digits = (1 \<le> length at \<and> length at \<le> 15 \<and> list_all is_digit at);
              hex = (length i = 36 \<and> list_all cursor_id_byte i)
          in if \<not> (digits \<and> hex) then None
             else Some \<lparr>at_ms = int (parse_digits at), cursor_id = i\<rparr>)"

definition decode_cursor :: "string \<Rightarrow> error + cursor" where
  "decode_cursor s =
     (case parse_cursor s of
        None \<Rightarrow> Inl (Project (invalid_field ''cursor'' ''invalid''))
      | Some c \<Rightarrow> Inr c)"

lemma split_once_append: "d \<notin> set a \<Longrightarrow> split_once d (a @ d # b) = Some (a, b)"
  by (induction a) auto

lemma decode_encode_cursor:
  assumes "0 \<le> ms" "ms < 10 ^ 15" "length i = 36" "list_all cursor_id_byte i"
  shows "decode_cursor (encode_cursor ms i) = Inr \<lparr>at_ms = ms, cursor_id = i\<rparr>"
proof -
  have "nat ms < 10 ^ 15" using assms(1,2) by (simp add: nat_less_iff)
  then have "length (show_nat (nat ms)) \<le> 15" by (rule length_show_nat_le) simp
  moreover have "1 \<le> length (show_nat (nat ms))"
    by (simp add: Suc_le_eq)
  moreover have "CHR '':'' \<notin> set (show_nat (nat ms))"
    by (rule show_nat_no_char) (simp add: is_digit_def)
  ultimately show ?thesis
    using assms show_nat_digits [of "nat ms"]
    by (simp add: decode_cursor_def parse_cursor_def encode_cursor_def show_int_def split_once_append)
qed

section \<open>Properties\<close>

lemma new_v4_groups:
  assumes "is_lower_hex random 32"
  shows "list_all2 (\<lambda>g n. length g = n \<and> list_all is_lower_hexdigit g)
           (split_on CHR ''-'' (new_v4 random)) uuid_group_lengths"
proof -
  define hex where "hex = take 12 random @ ''4'' @ take 3 (drop 13 random) @
                [variant_char (nibble (random ! 16))] @ drop 17 random"
  have four: "is_lower_hexdigit CHR ''4''"
    by (simp add: is_lower_hexdigit_def is_digit_def)
  have var: "is_lower_hexdigit (variant_char k)" for k
    by (auto simp: variant_char_def is_lower_hexdigit_def is_digit_def)
  have len: "length random = 32" and all: "\<forall>c \<in> set random. is_lower_hexdigit c"
    using assms by (auto simp: is_lower_hex_def list_all_iff)
  have hl: "length hex = 32" using len by (simp add: hex_def)
  have ha: "\<forall>c \<in> set hex. is_lower_hexdigit c"
    using all four var by (auto simp: hex_def dest: in_set_takeD in_set_dropD)
  let ?g = "[take 8 hex, take 4 (drop 8 hex), take 4 (drop 12 hex), take 4 (drop 16 hex), drop 20 hex]"
  have parts: "\<forall>g \<in> set ?g. \<forall>c \<in> set g. is_lower_hexdigit c"
    using ha by (auto dest: in_set_takeD in_set_dropD)
  have "new_v4 random = join_with CHR ''-'' ?g"
    by (simp only: new_v4_def hex_def Let_def)
  moreover have "\<forall>g \<in> set ?g. CHR ''-'' \<notin> set g"
    using parts dash_not_hex by blast
  ultimately have "split_on CHR ''-'' (new_v4 random) = ?g"
    using split_join [of ?g "CHR ''-''"] by simp
  then show ?thesis
    using parts hl by (simp add: uuid_group_lengths_def list_all_iff)
qed

text \<open>A minted UUID is already canonical: checking it, as every command does with a
  caller's id, accepts it and answers the same text, its version nibble is 4 and its variant
  nibble is 8, 9, a or b.\<close>

theorem new_v4_canonical:
  assumes "is_lower_hex random 32"
  shows "canonical_uuid (new_v4 random) = Some (new_v4 random) \<and>
         new_v4 random ! 14 = CHR ''4'' \<and>
         new_v4 random ! 19 \<in> {CHR ''8'', CHR ''9'', CHR ''a'', CHR ''b''}"
proof (intro conjI)
  let ?u = "new_v4 random"
  have g: "list_all2 (\<lambda>g n. length g = n \<and> list_all is_lower_hexdigit g)
             (split_on CHR ''-'' ?u) uuid_group_lengths"
    using assms by (rule new_v4_groups)
  have "list_all (\<lambda>c. is_lower_hexdigit c \<or> c = CHR ''-'') ?u"
  proof -
    have "\<forall>p \<in> set (split_on CHR ''-'' ?u). list_all is_lower_hexdigit p"
      using g by (auto simp: list_all2_conv_all_nth in_set_conv_nth)
    moreover have "set (join_with d ps) \<subseteq> insert d (\<Union> (set ` set ps))" for d ps
      by (induction d ps rule: join_with.induct) auto
    from this [of "CHR ''-''" "split_on CHR ''-'' ?u"]
    have "set ?u \<subseteq> insert CHR ''-'' (\<Union> (set ` set (split_on CHR ''-'' ?u)))"
      by simp
    ultimately show ?thesis by (fastforce simp: list_all_iff)
  qed
  then have "\<forall>c \<in> set ?u. lower_char c = c"
    using lower_hexdigit_fixed lower_char_dash [of "CHR ''-''"] by (auto simp: list_all_iff)
  then have "ascii_lower ?u = ?u"
    by (simp add: ascii_lower_def map_idI)
  with g show "canonical_uuid ?u = Some ?u"
    by (auto simp: canonical_uuid_groups list_all_iff lower_hexdigit_hexdigit elim!: list_all2_mono)
  have len: "length random = 32" using assms by (simp add: is_lower_hex_def)
  then show "?u ! 14 = CHR ''4''"
    by (simp add: new_v4_def Let_def nth_append)
  show "?u ! 19 \<in> {CHR ''8'', CHR ''9'', CHR ''a'', CHR ''b''}"
    using len by (simp add: new_v4_def Let_def nth_append variant_char_def)
qed

theorem new_v4_canonical_witness:
  "canonical_uuid (new_v4 (replicate 32 CHR ''a'')) = Some (new_v4 (replicate 32 CHR ''a''))"
proof -
  have "is_lower_hex (replicate 32 CHR ''a'') 32"
    by (simp add: is_lower_hex_def is_lower_hexdigit_def is_digit_def list_all_iff)
  from new_v4_canonical [OF this] show ?thesis by simp
qed

text \<open>Every id minted by the two dated-id writers passes the checker of its contract: a
  query id is accepted by \<open>is_valid_query_id\<close> and a \<open><prefix>-<yyyymmdd>-<8hex>\<close> id by
  \<open>is_valid_dated_id\<close>, for every seed, prefix and calendar day, whatever SHA-256 answers in
  lowercase hex.\<close>

theorem minted_ids_valid:
  assumes sha: "\<And>bytes. is_lower_hex (sha256_hex bytes) 64"
    and day: "m_year now < 10000" "m_month now < 100" "m_day now < 100"
  shows "is_valid_query_id (generate_query_id sha256_hex query now) \<and>
         is_valid_dated_id (dated_id sha256_hex prefix seed now) prefix"
proof -
  have "is_lower_hex (take 8 (sha256_hex bytes)) 8" for bytes
    using sha [of bytes] by (rule is_lower_hex_take) simp
  then have "is_valid_dated_id (dated_id sha256_hex p s now) p" for p s
    using dated_shape [OF date_part [OF day]] by (simp add: dated_id_def)
  then show ?thesis
    by (simp add: query_id_is_dated generate_query_id_is_dated)
qed

theorem minted_ids_valid_witness:
  "is_valid_query_id (generate_query_id (\<lambda>_. replicate 64 CHR ''0'') ''auth''
     \<lparr>m_year = 2026, m_month = 9, m_day = 26, m_nanos_be = []\<rparr>)"
proof -
  have "is_lower_hex (replicate 64 CHR ''0'') 64"
    by (simp add: is_lower_hex_def is_lower_hexdigit_def is_digit_def list_all_iff)
  then show ?thesis
    using minted_ids_valid [of "\<lambda>_. replicate 64 CHR ''0''"
        "\<lparr>m_year = 2026, m_month = 9, m_day = 26, m_nanos_be = []\<rparr>" "''auth''" "''q''" "''auth''"]
    by simp
qed

text \<open>A project slug and a memory's file-name slug are never empty, at most 60 bytes, made
  of lowercase letters, digits and dashes only, with no leading dash and no two dashes in a
  row, for every name and every body; the memory slug has no trailing dash either; and the
  slugs the create loop tries for one base are all different.\<close>

theorem slugs_well_formed:
  "(base_slug lower_other name \<noteq> [] \<and> length (base_slug lower_other name) \<le> 60 \<and>
    list_all slug_byte (base_slug lower_other name) \<and>
    no_double_dash (base_slug lower_other name) \<and>
    hd (base_slug lower_other name) \<noteq> CHR ''-'') \<and>
   (slug_from_body body \<noteq> [] \<and> length (slug_from_body body) \<le> 60 \<and>
    list_all slug_byte (slug_from_body body) \<and> no_double_dash (slug_from_body body) \<and>
    hd (slug_from_body body) \<noteq> CHR ''-'' \<and> last (slug_from_body body) \<noteq> CHR ''-'') \<and>
   inj (disambiguate base)"
  using base_slug_props [of lower_other name] slug_from_body_props [of body]
  by (auto intro: injI disambiguate_inj)

lemma digit_byte: "is_digit c \<Longrightarrow> byte c - 48 < (10 :: nat)"
  by (auto simp: is_digit_def)

lemma parse_digits_less: "list_all is_digit xs \<Longrightarrow> parse_digits xs < 10 ^ length xs"
proof (induction xs rule: rev_induct)
  case (snoc c xs)
  then have "parse_digits xs < 10 ^ length xs" "byte c - 48 < (10 :: nat)"
    using digit_byte by simp_all
  then show ?case by (simp add: parse_digits_def)
qed (simp add: parse_digits_def)

text \<open>Cursor round trip: a cursor built from a position the store holds (a time of up to
  fifteen digits and any checked project id) decodes to that very position; and whatever text
  decodes carries such a position, which encodes to text that decodes to it again, so no
  cursor a client sends can name another kind of position.\<close>

theorem cursor_round_trip:
  "(canonical_uuid raw = Some i \<and> 0 \<le> ms \<and> ms < 10 ^ 15 \<longrightarrow>
      decode_cursor (encode_cursor ms i) = Inr \<lparr>at_ms = ms, cursor_id = i\<rparr>) \<and>
   (decode_cursor s = Inr c \<longrightarrow>
      0 \<le> at_ms c \<and> at_ms c < 10 ^ 15 \<and> length (cursor_id c) = 36 \<and>
      decode_cursor (encode_cursor (at_ms c) (cursor_id c)) = Inr c)"
proof (intro conjI impI)
  assume a: "canonical_uuid raw = Some i \<and> 0 \<le> ms \<and> ms < 10 ^ 15"
  have "cursor_id_byte = (\<lambda>c. is_lower_hexdigit c \<or> c = CHR ''-'')"
    by (rule ext) (simp add: cursor_id_byte_def)
  then show "decode_cursor (encode_cursor ms i) = Inr \<lparr>at_ms = ms, cursor_id = i\<rparr>"
    using a canonical_uuid_shape [of raw i] by (intro decode_encode_cursor) simp_all
next
  assume d: "decode_cursor s = Inr c"
  then obtain at i where "parse_cursor s = Some c" and at: "length at \<le> 15" "list_all is_digit at"
    and i: "length i = 36" "list_all cursor_id_byte i" and c: "c = \<lparr>at_ms = int (parse_digits at), cursor_id = i\<rparr>"
    by (auto simp: decode_cursor_def parse_cursor_def Let_def split: option.splits prod.splits if_splits)
  have "parse_digits at < 10 ^ length at" using at(2) by (rule parse_digits_less)
  also have "\<dots> \<le> 10 ^ 15" using at(1) by (intro power_increasing) simp_all
  finally have ms: "at_ms c < 10 ^ 15" "0 \<le> at_ms c" by (simp_all add: c)
  then show "0 \<le> at_ms c" "at_ms c < 10 ^ 15" "length (cursor_id c) = 36" using i by (simp_all add: c)
  show "decode_cursor (encode_cursor (at_ms c) (cursor_id c)) = Inr c"
    using decode_encode_cursor [OF ms(2,1), of i] i by (simp add: c)
qed

theorem cursor_round_trip_witness:
  "decode_cursor (encode_cursor 1790000000000 (new_v4 (replicate 32 CHR ''a''))) =
     Inr \<lparr>at_ms = 1790000000000, cursor_id = new_v4 (replicate 32 CHR ''a'')\<rparr>"
proof -
  let ?u = "new_v4 (replicate 32 CHR ''a'')"
  have "canonical_uuid ?u = Some ?u" by code_simp
  then show ?thesis using cursor_round_trip [of ?u ?u 1790000000000] by simp
qed

end
