(* ===== verification/Project_Limits.thy ===== *)
theory Project_Limits
  imports Identifiers
begin

text \<open>
  The charter and paging caps (\<open>src/domains/projects/limits.rs\<close>) and the vocabulary check
  (\<open>list.rs\<close>). Every check answers the refusal naming the field, or unit. Lengths of text
  are UTF-16 units.
\<close>

definition name_max :: nat where "name_max = 120"
definition outcome_max :: nat where "outcome_max = 2000"
definition constraint_max :: nat where "constraint_max = 500"
definition constraints_max_count :: nat where "constraints_max_count = 50"
definition non_goals_max_count :: nat where "non_goals_max_count = 50"
definition repositories_max :: nat where "repositories_max = 50"
definition criteria_max :: nat where "criteria_max = 50"
definition criterion_description_max :: nat where "criterion_description_max = 500"
definition rationale_max :: nat where "rationale_max = 4000"
definition key_prefix_min :: nat where "key_prefix_min = 2"
definition key_prefix_max :: nat where "key_prefix_max = 10"
definition idempotency_key_max :: nat where "idempotency_key_max = 200"
definition page_max :: int where "page_max = 100"
definition page_default :: int where "page_default = 20"

text \<open>\<open>usize::MAX\<close> on the 64-bit targets.\<close>

definition usize_max :: nat where "usize_max = 2 ^ 64 - 1"

lemmas limit_defs [table_simps] =
  name_max_def outcome_max_def constraint_max_def constraints_max_count_def
  non_goals_max_count_def repositories_max_def criteria_max_def criterion_description_max_def
  rationale_max_def key_prefix_min_def key_prefix_max_def idempotency_key_max_def
  page_max_def page_default_def usize_max_def

definition text_limit :: "string \<Rightarrow> string \<Rightarrow> nat \<Rightarrow> nat \<Rightarrow> error + unit" where
  "text_limit field v lo hi =
     (let len = utf16_len v
      in if len < lo then Inl (Project (over_limit field ''too_short'' lo))
         else if hi < len then Inl (Project (over_limit field ''too_long'' hi))
         else Inr ())"

definition list_limit :: "string \<Rightarrow> string list \<Rightarrow> nat \<Rightarrow> nat \<Rightarrow> error + unit" where
  "list_limit field items max_count item_max =
     (if max_count < length items then Inl (Project (over_limit field ''too_many'' max_count))
      else try_each 0 (\<lambda>i item. text_limit (field @ ''.'' @ show_nat i) item 1 item_max) items)"

definition key_prefix_shaped :: "string \<Rightarrow> bool" where
  "key_prefix_shaped v =
     (case v of [] \<Rightarrow> False | b # bs \<Rightarrow> is_upper b \<and> list_all (\<lambda>c. is_upper c \<or> is_digit c) bs)"

definition check_key_prefix :: "string \<Rightarrow> error + unit" where
  "check_key_prefix v =
     and_then (text_limit ''keyPrefix'' v key_prefix_min key_prefix_max) (\<lambda>_.
       if key_prefix_shaped v then Inr ()
       else Inl (invariant_refusal ''keyPrefix'' ''invalid_format''))"

definition page_within :: "int option \<Rightarrow> int \<Rightarrow> int \<Rightarrow> error + int" where
  "page_within limit dflt hi =
     (case limit of
        None \<Rightarrow> Inr dflt
      | Some n \<Rightarrow>
          if n < 1 then Inl (Project (over_limit ''limit'' ''too_small'' 1))
          else if hi < n then Inl (Project (over_limit ''limit'' ''too_large'' (nat hi)))
          else Inr n)"

definition page_limit :: "int option \<Rightarrow> error + int" where
  "page_limit limit = page_within limit page_default page_max"

text \<open>\<open>list::vocabulary\<close>.\<close>

definition check_vocabulary :: "string \<Rightarrow> string option \<Rightarrow> string list \<Rightarrow> error + string option" where
  "check_vocabulary field v allowed =
     (case v of
        None \<Rightarrow> Inr None
      | Some w \<Rightarrow> if w \<in> set allowed then Inr (Some w)
                  else Inl (Project (invalid_field field ''invalid'')))"

text \<open>A caller's id, canonical, or the schema-edge refusal on \<open>field\<close>.\<close>

definition canonical_id :: "string \<Rightarrow> string \<Rightarrow> error + string" where
  "canonical_id field raw = ok_or (canonical_uuid raw) (Project (invalid_field field ''invalid''))"

lemma text_limit_ok_iff [res_simps]:
  "text_limit field v lo hi = Inr () \<longleftrightarrow> lo \<le> utf16_len v \<and> utf16_len v \<le> hi"
  by (auto simp: text_limit_def Let_def)

lemma list_limit_ok_iff [res_simps]:
  "list_limit field items m k = Inr () \<longleftrightarrow>
     length items \<le> m \<and> (\<forall>item \<in> set items. 1 \<le> utf16_len item \<and> utf16_len item \<le> k)"
  by (auto simp: list_limit_def try_each_ok_iff text_limit_ok_iff all_set_conv_all_nth)

lemma check_key_prefix_ok_iff [res_simps]:
  "check_key_prefix v = Inr () \<longleftrightarrow>
     key_prefix_min \<le> utf16_len v \<and> utf16_len v \<le> key_prefix_max \<and> key_prefix_shaped v"
  by (auto simp: check_key_prefix_def res_simps)

lemma page_within_ok:
  assumes "1 \<le> dflt" "dflt \<le> hi"
  shows "page_within limit dflt hi = Inr n \<longleftrightarrow>
     (case limit of None \<Rightarrow> n = dflt | Some m \<Rightarrow> n = m \<and> 1 \<le> m \<and> m \<le> hi)"
  by (auto simp: page_within_def split: option.splits)

lemma page_within_bounds:
  "page_within limit dflt hi = Inr n \<Longrightarrow> 1 \<le> dflt \<Longrightarrow> dflt \<le> hi \<Longrightarrow> 1 \<le> n \<and> n \<le> hi"
  by (auto simp: page_within_ok split: option.splits)

text \<open>Every cap refusal is the same kind of answer: well-formed but unprocessable.\<close>

lemma over_limit_answer:
  "classify (Project (over_limit field reason limit)) = (''invalid_request'', ClassUnprocessable)"
  "details (over_limit field reason limit) =
     [(''field'', JStr field), (''reason'', JStr reason), (''limit'', JInt (int limit))]"
  by (simp_all add: over_limit_def invalid_field_def)

lemma text_limit_refusal:
  "text_limit field v lo hi = Inl e \<Longrightarrow>
     \<exists>reason limit. e = Project (over_limit field reason limit) \<and> limit \<in> {lo, hi}"
  by (auto simp: text_limit_def Let_def split: if_splits)

end
