(* ===== verification/Project_Authority.thy ===== *)
theory Project_Authority
  imports Errors
begin

text \<open>
  Who may run which project verb (\<open>src/domains/projects/authority.rs\<close>, \<open>principal.rs\<close>):
  the six capabilities an agent grant may carry, kept as bits of a byte; the three human tiers;
  the envelope a command runs under; the per-verb rule table; and \<open>authorize\<close>. A command
  is a function from the store to a result, and \<open>run_command\<close> is the only way to give it
  an actor.
\<close>

section \<open>Principals\<close>

datatype principal_type = User | ProjectAgent

fun principal_type_str :: "principal_type \<Rightarrow> string" where
  "principal_type_str User = ''user''"
| "principal_type_str ProjectAgent = ''project_agent''"

record principal =
  principal_type :: principal_type
  principal_id :: string

definition local_operator_id :: string where
  "local_operator_id = ''local-operator''"

definition local_agent_id :: string where
  "local_agent_id = ''local-agent''"

definition new_principal :: "principal_type \<Rightarrow> string \<Rightarrow> principal" where
  "new_principal t i = \<lparr>principal_type = t, principal_id = i\<rparr>"

section \<open>Capabilities\<close>

datatype capability =
  ProjectRead | CapProposalCreate | CapWorkPacketCreate | CapExecutionUpdate
| CapEvidenceCreate | CapHealthUpdate

definition all_capabilities :: "capability list" where
  "all_capabilities =
     [ProjectRead, CapProposalCreate, CapWorkPacketCreate, CapExecutionUpdate,
      CapEvidenceCreate, CapHealthUpdate]"

fun capability_str :: "capability \<Rightarrow> string" where
  "capability_str ProjectRead = ''project.read''"
| "capability_str CapProposalCreate = ''proposal.create''"
| "capability_str CapWorkPacketCreate = ''work_packet.create''"
| "capability_str CapExecutionUpdate = ''execution.update''"
| "capability_str CapEvidenceCreate = ''evidence.create''"
| "capability_str CapHealthUpdate = ''health.update''"

definition parse_capability :: "string \<Rightarrow> capability option" where
  "parse_capability v = find (\<lambda>c. capability_str c = v) all_capabilities"

text \<open>\<open>self as u8\<close>: the declaration index.\<close>

fun capability_index :: "capability \<Rightarrow> nat" where
  "capability_index ProjectRead = 0"
| "capability_index CapProposalCreate = 1"
| "capability_index CapWorkPacketCreate = 2"
| "capability_index CapExecutionUpdate = 3"
| "capability_index CapEvidenceCreate = 4"
| "capability_index CapHealthUpdate = 5"

definition capability_bit :: "capability \<Rightarrow> 8 word" where
  "capability_bit c = push_bit (capability_index c) 1"

type_synonym capabilities = "8 word"

definition caps_all :: capabilities where
  "caps_all = foldl (\<lambda>bits c. or bits (capability_bit c)) 0 all_capabilities"

definition caps_none :: capabilities where
  "caps_none = 0"

definition caps_contains :: "capabilities \<Rightarrow> capability \<Rightarrow> bool" where
  "caps_contains s c \<longleftrightarrow> and s (capability_bit c) \<noteq> 0"

text \<open>\<open>Capabilities::parse\<close>: one unknown name and the whole list grants nothing.\<close>

fun caps_parse_onto :: "capabilities \<Rightarrow> string list \<Rightarrow> capabilities" where
  "caps_parse_onto s [] = s"
| "caps_parse_onto s (v # vs) =
     (case parse_capability v of
        None \<Rightarrow> caps_none
      | Some c \<Rightarrow> caps_parse_onto (or s (capability_bit c)) vs)"

definition caps_parse :: "string list \<Rightarrow> capabilities" where
  "caps_parse vs = caps_parse_onto caps_none vs"

section \<open>Tiers, envelopes and the verb table\<close>

datatype tier = Member | Lead | Owner

text \<open>The derived \<open>Ord\<close>: declaration order.\<close>

instantiation tier :: linorder
begin

fun tier_rank :: "tier \<Rightarrow> nat" where
  "tier_rank Member = 0"
| "tier_rank Lead = 1"
| "tier_rank Owner = 2"

definition less_eq_tier :: "tier \<Rightarrow> tier \<Rightarrow> bool" where
  "less_eq_tier a b \<longleftrightarrow> tier_rank a \<le> tier_rank b"

definition less_tier :: "tier \<Rightarrow> tier \<Rightarrow> bool" where
  "less_tier a b \<longleftrightarrow> tier_rank a < tier_rank b"

instance
proof
  fix a b :: tier
  show "a \<le> b \<Longrightarrow> b \<le> a \<Longrightarrow> a = b"
    by (cases a; cases b) (auto simp: less_eq_tier_def)
qed (auto simp: less_eq_tier_def less_tier_def)

end

datatype reach = Human tier | Agent capabilities

record envelope =
  env_principal :: principal
  env_reach :: reach

definition user_envelope :: "string \<Rightarrow> tier \<Rightarrow> envelope" where
  "user_envelope i t = \<lparr>env_principal = new_principal User i, env_reach = Human t\<rparr>"

definition agent_envelope :: "string \<Rightarrow> capabilities \<Rightarrow> envelope" where
  "agent_envelope i caps = \<lparr>env_principal = new_principal ProjectAgent i, env_reach = Agent caps\<rparr>"

definition local_operator :: envelope where
  "local_operator = user_envelope local_operator_id Owner"

definition local_agent :: envelope where
  "local_agent = agent_envelope local_agent_id caps_all"

datatype rule = Shared tier capability | HumanOnly tier

fun rule_tier :: "rule \<Rightarrow> tier" where
  "rule_tier (Shared t _) = t"
| "rule_tier (HumanOnly t) = t"

datatype verb =
  ProjectShow | ProjectList | PlanRead | ProposalRead | WorkItemRead | EvidenceRead
| ActivityRead | ProjectChanges | ProposalCreate | WorkPacketCreate | WorkItemTransition
| ExecutionUpdate | EvidenceCreate | HealthUpdate | ProjectCreate | ApprovalInbox
| WorkspaceActivity | WorkItemComplete | Archive | Restore | Pause | Resume
| ProposalApprove | ProposalRequestChanges | ProposalReject | ProjectComplete
| ProjectCancel | ProjectDelete | ProjectExport | ProjectImport

definition all_verbs :: "verb list" where
  "all_verbs =
     [ProjectShow, ProjectList, PlanRead, ProposalRead, WorkItemRead, EvidenceRead,
      ActivityRead, ProjectChanges, ProposalCreate, WorkPacketCreate, WorkItemTransition,
      ExecutionUpdate, EvidenceCreate, HealthUpdate, ProjectCreate, ApprovalInbox,
      WorkspaceActivity, WorkItemComplete, Archive, Restore, Pause, Resume,
      ProposalApprove, ProposalRequestChanges, ProposalReject, ProjectComplete,
      ProjectCancel, ProjectDelete, ProjectExport, ProjectImport]"

fun verb_rule :: "verb \<Rightarrow> rule" where
  "verb_rule ProjectShow = Shared Member ProjectRead"
| "verb_rule ProjectList = Shared Member ProjectRead"
| "verb_rule PlanRead = Shared Member ProjectRead"
| "verb_rule ProposalRead = Shared Member ProjectRead"
| "verb_rule WorkItemRead = Shared Member ProjectRead"
| "verb_rule EvidenceRead = Shared Member ProjectRead"
| "verb_rule ActivityRead = Shared Member ProjectRead"
| "verb_rule ProjectChanges = Shared Member ProjectRead"
| "verb_rule ProposalCreate = Shared Member CapProposalCreate"
| "verb_rule WorkPacketCreate = Shared Member CapWorkPacketCreate"
| "verb_rule WorkItemTransition = Shared Member CapExecutionUpdate"
| "verb_rule ExecutionUpdate = Shared Member CapExecutionUpdate"
| "verb_rule EvidenceCreate = Shared Member CapEvidenceCreate"
| "verb_rule HealthUpdate = Shared Lead CapHealthUpdate"
| "verb_rule ProjectCreate = HumanOnly Member"
| "verb_rule ApprovalInbox = HumanOnly Member"
| "verb_rule WorkspaceActivity = HumanOnly Member"
| "verb_rule WorkItemComplete = HumanOnly Member"
| "verb_rule ProjectExport = HumanOnly Member"
| "verb_rule Archive = HumanOnly Lead"
| "verb_rule Restore = HumanOnly Lead"
| "verb_rule Pause = HumanOnly Lead"
| "verb_rule Resume = HumanOnly Lead"
| "verb_rule ProposalApprove = HumanOnly Lead"
| "verb_rule ProposalRequestChanges = HumanOnly Lead"
| "verb_rule ProposalReject = HumanOnly Lead"
| "verb_rule ProjectComplete = HumanOnly Lead"
| "verb_rule ProjectCancel = HumanOnly Lead"
| "verb_rule ProjectDelete = HumanOnly Owner"
| "verb_rule ProjectImport = HumanOnly Owner"

definition below_tier :: "verb \<Rightarrow> string" where
  "below_tier v =
     (case v of
        ProposalApprove \<Rightarrow> ''Only the project lead or a workspace admin may review a proposal''
      | ProposalRequestChanges \<Rightarrow> ''Only the project lead or a workspace admin may review a proposal''
      | ProposalReject \<Rightarrow> ''Only the project lead or a workspace admin may review a proposal''
      | HealthUpdate \<Rightarrow> ''Only the project lead or a workspace admin may report health''
      | ProjectDelete \<Rightarrow> ''Only a workspace owner or admin can delete a project''
      | ProjectImport \<Rightarrow> ''Only a workspace owner or admin can import a project''
      | _ \<Rightarrow> ''Only the project lead or a workspace admin may run this command'')"

fun authorize :: "envelope \<Rightarrow> verb \<Rightarrow> error + unit" where
  "authorize env v =
     (case (env_reach env, verb_rule v) of
        (Human held, r) \<Rightarrow>
          if held \<ge> rule_tier r then Inr ()
          else Inl (Project (TierForbidden (below_tier v)))
      | (Agent held, HumanOnly _) \<Rightarrow>
          Inl (Project (ProjectAgentScope ''This command requires a signed-in human''))
      | (Agent held, Shared _ needed) \<Rightarrow>
          if caps_contains held needed then Inr ()
          else Inl (Project (ProjectAgentScope
                 (''This grant does not carry the '' @ capability_str needed @ '' capability''))))"

section \<open>Running a command\<close>

record actor =
  actor_principal :: principal

text \<open>
  \<open>Command::execute\<close> takes the store and the actor; it answers a result and the store as
  it leaves it. \<open>run\<close> refuses before it.
\<close>

record ('st, 'r) command =
  cmd_verb :: verb
  cmd_execute :: "'st \<Rightarrow> actor \<Rightarrow> (error + 'r) \<times> 'st"

definition run_command :: "'st \<Rightarrow> envelope \<Rightarrow> ('st, 'r) command \<Rightarrow> (error + 'r) \<times> 'st" where
  "run_command st env c =
     (case authorize env (cmd_verb c) of
        Inl e \<Rightarrow> (Inl e, st)
      | Inr _ \<Rightarrow> cmd_execute c st \<lparr>actor_principal = env_principal env\<rparr>)"

section \<open>A finite vocabulary and its wire names\<close>

text \<open>
  The code writes an enumeration's wire names in one table and parses by searching the list
  of its values. What makes the parser the inverse of the printer is that the list is
  complete and the names are distinct.
\<close>

locale vocabulary =
  fixes vals :: "'a list"
    and name :: "'a \<Rightarrow> string"
    and parse :: "string \<Rightarrow> 'a option"
  assumes complete: "x \<in> set vals"
    and names_distinct: "distinct (map name vals)"
    and parse_is_find: "parse s = find (\<lambda>x. name x = s) vals"
begin

lemma name_inj: "name x = name y \<Longrightarrow> x = y"
  using names_distinct complete by (auto simp: distinct_map inj_on_def)

lemma parse_name [simp]: "parse (name x) = Some x"
proof -
  have "find (\<lambda>y. name y = name x) vals \<noteq> None"
    using complete [of x] by (auto simp: find_None_iff)
  then obtain y where "find (\<lambda>y. name y = name x) vals = Some y" by blast
  then show ?thesis
    by (auto simp: parse_is_find find_Some_iff dest: name_inj)
qed

lemma parse_Some_iff: "parse s = Some x \<longleftrightarrow> s = name x"
proof
  assume "parse s = Some x"
  then show "s = name x" by (auto simp: parse_is_find find_Some_iff)
qed auto

lemma parse_None_iff: "parse s = None \<longleftrightarrow> s \<notin> range name"
  using parse_Some_iff [of s] by (cases "parse s") auto

end

interpretation cap: vocabulary all_capabilities capability_str parse_capability
proof
  fix c :: capability
  show "c \<in> set all_capabilities"
    by (cases c) (simp_all add: all_capabilities_def)
  show "distinct (map capability_str all_capabilities)"
    by (simp add: all_capabilities_def)
  fix s
  show "parse_capability s = find (\<lambda>c. capability_str c = s) all_capabilities"
    by (simp add: parse_capability_def)
qed

section \<open>Capability sets\<close>

lemma capability_index_inj: "capability_index c = capability_index d \<Longrightarrow> c = d"
  by (cases c; cases d) auto

lemma capability_index_less: "capability_index c < 8"
  by (cases c) auto

lemma bit_capability_bit:
  "bit (capability_bit d) n \<longleftrightarrow> n = capability_index d"
  using capability_index_less [of d]
  by (auto simp: capability_bit_def bit_exp_iff)

lemma caps_contains_iff_bit: "caps_contains s c \<longleftrightarrow> bit s (capability_index c)"
  using capability_index_less [of c]
  by (auto simp: caps_contains_def bit_eq_iff [of "and s (capability_bit c)" 0]
      bit_and_iff bit_capability_bit)

lemma caps_contains_or_bit [simp]:
  "caps_contains (or s (capability_bit d)) c \<longleftrightarrow> caps_contains s c \<or> c = d"
  by (auto simp: caps_contains_iff_bit bit_or_iff bit_capability_bit dest: capability_index_inj)

lemma caps_contains_none [simp]: "\<not> caps_contains caps_none c"
  by (simp add: caps_contains_def caps_none_def)

lemma caps_parse_onto_unknown:
  "\<exists>v \<in> set vs. parse_capability v = None \<Longrightarrow> caps_parse_onto s vs = caps_none"
  by (induction vs arbitrary: s) (auto split: option.splits)

lemma caps_parse_onto_known:
  "\<forall>v \<in> set vs. parse_capability v \<noteq> None \<Longrightarrow>
   caps_contains (caps_parse_onto s vs) c \<longleftrightarrow> caps_contains s c \<or> capability_str c \<in> set vs"
  by (induction vs arbitrary: s) (auto simp: cap.parse_Some_iff dest: cap.name_inj)

lemma caps_all_contains [simp]: "caps_contains caps_all c"
proof -
  have "caps_contains (foldl (\<lambda>b d. or b (capability_bit d)) s ds) c \<longleftrightarrow>
        caps_contains s c \<or> c \<in> set ds" for s ds
    by (induction ds arbitrary: s) auto
  then show ?thesis by (simp add: caps_all_def cap.complete)
qed

end
