(* ===== verification/Project_Store.thy ===== *)
theory Project_Store
  imports Project_Limits Project_Authority "HOL-Library.Signed_Division" "HOL-Library.Product_Lexorder"
begin

text \<open>
  The project tables (\<open>src/store/projects.rs\<close>, \<open>project_read.rs\<close>,
  \<open>project_activity.rs\<close>, \<open>project_receipts.rs\<close>, \<open>project_changes.rs\<close>,
  \<open>project_binding.rs\<close>) as lists of rows, and the statements on them with the unique
  indexes, foreign keys and defaults of \<open>schema_projects.rs\<close> and
  \<open>schema_project_record.rs\<close>.

  A statement reads and writes the state \<open>st\<close>: the database, and how far the clock, the
  random source and the transactions have been used. Those sources, and the third-party
  functions the code calls (JSON text, SHA-256, date rendering), are fields of \<open>env\<close>.
  \<open>INTEGER\<close> columns are unbounded integers: the code only increments them by one.
\<close>

section \<open>The environment\<close>

text \<open>
  \<open>e_urandom k n\<close> is the \<open>k\<close>-th read of \<open>n\<close> bytes, \<open>e_clock k\<close> the \<open>k\<close>-th reading of the
  clock in nanoseconds, \<open>e_begin k\<close> and \<open>e_commit k\<close> whether the \<open>k\<close>-th write transaction
  starts and commits. \<open>e_to_string\<close>, \<open>e_from_str\<close> are \<open>serde_json\<close>'s, an error its
  text; \<open>e_data_error\<close> is the text for a value of another shape than the type asked for.
\<close>

record env =
  e_urandom :: "nat \<Rightarrow> nat \<Rightarrow> error + 8 word list"
  e_clock :: "nat \<Rightarrow> int"
  e_render :: "int \<Rightarrow> string option"
  e_date :: "string \<Rightarrow> int option"
  e_rfc3339 :: "string \<Rightarrow> int option"
  e_lower :: "string \<Rightarrow> string"
  e_to_string :: "json \<Rightarrow> string + string"
  e_from_str :: "string \<Rightarrow> string + json"
  e_data_error :: "json \<Rightarrow> string"
  e_sha256 :: "string \<Rightarrow> string"
  e_begin :: "nat \<Rightarrow> error + unit"
  e_commit :: "nat \<Rightarrow> error + unit"

section \<open>Rows\<close>

text \<open>\<open>ProjectRow\<close>, column for column.\<close>

record project_row =
  p_id :: string
  p_slug :: string
  p_key_prefix :: string
  p_name :: string
  p_outcome :: string
  p_constraints :: string
  p_non_goals :: string
  p_status :: string
  p_health :: string
  p_lead_type :: string
  p_lead_id :: string
  p_target_date :: "int option"
  p_plan_version :: int
  p_version :: int
  p_completion_policy :: string
  p_creator_type :: string
  p_creator_id :: string
  p_created_at :: int
  p_updated_at :: int
  p_archived_at :: "int option"

record repository_row =
  r_project :: string
  r_repo :: string
  r_creator_type :: string
  r_creator_id :: string
  r_created_at :: int

text \<open>A \<open>project_criteria\<close> row; \<open>c_work_item\<close> is absent for a project-level criterion.\<close>

record criterion_row =
  c_id :: string
  c_project :: string
  c_work_item :: "string option"
  c_description :: string
  c_required :: int
  c_evidence_requirement :: string
  c_resolution :: string
  c_rationale :: "string option"
  c_position :: int
  c_archived_at :: "int option"

text \<open>The plan tables: milestones, work items and \<open>blocks\<close> edges.\<close>

record milestone_row =
  ms_id :: string
  ms_project :: string
  ms_name :: string
  ms_description :: string
  ms_target_date :: int
  ms_position :: int
  ms_status :: string
  ms_archived_at :: "int option"

record work_item_row =
  wi_id :: string
  wi_project :: string
  wi_number :: int
  wi_parent :: "string option"
  wi_milestone :: "string option"
  wi_kind :: string
  wi_title :: string
  wi_description :: string
  wi_status :: string
  wi_priority :: string
  wi_estimate :: "int option"
  wi_assignee_type :: "string option"
  wi_assignee_id :: "string option"
  wi_repo :: "string option"
  wi_version :: int
  wi_position :: int
  wi_archived_at :: "int option"

record dependency_row =
  dp_project :: string
  dp_blocker :: string
  dp_blocked :: string

text \<open>Proposals, the decision a review takes on one, and evidence.\<close>

record proposal_row =
  pr_id :: string
  pr_project :: string
  pr_base_plan_version :: int
  pr_state :: string
  pr_operations :: string
  pr_assumptions :: string
  pr_risks :: string
  pr_rationale :: string
  pr_proposer_type :: string
  pr_proposer_id :: string
  pr_request_digest :: string
  pr_created_at :: int
  pr_updated_at :: int

record approval_row =
  apr_id :: string
  apr_project :: string
  apr_proposal :: string
  apr_decision :: string
  apr_reviewer_type :: string
  apr_reviewer_id :: string
  apr_rationale :: "string option"
  apr_created_at :: int

record evidence_row =
  evd_id :: string
  evd_project :: string
  evd_work_item :: "string option"
  evd_execution :: "string option"
  evd_kind :: string
  evd_source :: string
  evd_external_id :: "string option"
  evd_url :: "string option"
  evd_trust :: string
  evd_metadata :: string
  evd_content_hash :: "string option"
  evd_verified_by :: "string option"
  evd_verified_at :: "int option"
  evd_creator_type :: string
  evd_creator_id :: string
  evd_created_at :: int

record event_row =
  ev_id :: string
  ev_project :: string
  ev_actor_type :: string
  ev_actor_id :: string
  ev_type :: string
  ev_entity_type :: string
  ev_entity_id :: string
  ev_payload :: string
  ev_created_at :: int

record receipt_row =
  rc_id :: string
  rc_project :: string
  rc_principal_type :: string
  rc_principal_id :: string
  rc_key :: string
  rc_command_type :: string
  rc_digest :: string
  rc_response :: string
  rc_created_at :: int

record change_row =
  ch_seq :: int
  ch_project :: string
  ch_event :: string
  ch_entity_type :: string
  ch_op :: string
  ch_created_at :: int

record binding_row =
  b_project :: string
  b_direction :: string
  b_remote :: string
  b_digest :: string
  b_remapped_from :: "(string \<times> string) option"
  b_transferred_at :: int

text \<open>The database: each table's rows in insertion order, and the last \<open>AUTOINCREMENT\<close>
  number \<open>project_changes\<close> handed out.\<close>

record db =
  projects :: "project_row list"
  repositories :: "repository_row list"
  criteria :: "criterion_row list"
  events :: "event_row list"
  receipts :: "receipt_row list"
  changes :: "change_row list"
  last_seq :: int
  bindings :: "binding_row list"
  milestones :: "milestone_row list"
  work_items :: "work_item_row list"
  dependencies :: "dependency_row list"
  proposals :: "proposal_row list"
  approvals :: "approval_row list"
  evidence :: "evidence_row list"
  evidence_links :: "(string \<times> string) list"

text \<open>The state of a running engine. \<open>st_log\<close> is what is handed to the \<open>activity_log\<close>
  telemetry: the command and its summary or error.\<close>

record st =
  st_db :: db
  st_draws :: nat
  st_ticks :: nat
  st_txs :: nat
  st_log :: "(string \<times> (error + json)) list"

section \<open>Statements and their sequencing\<close>

type_synonym 'a tx = "st \<Rightarrow> (error + 'a) \<times> st"

definition ret :: "'a \<Rightarrow> 'a tx" where
  "ret x s = (Inr x, s)"

definition lift :: "error + 'a \<Rightarrow> 'a tx" where
  "lift r s = (r, s)"

definition tx_bind :: "'a tx \<Rightarrow> ('a \<Rightarrow> 'b tx) \<Rightarrow> 'b tx" where
  "tx_bind m f s = (case m s of (Inl e, s') \<Rightarrow> (Inl e, s') | (Inr x, s') \<Rightarrow> f x s')"

text \<open>A read of the database, and a write that succeeds.\<close>

definition reading :: "(db \<Rightarrow> error + 'a) \<Rightarrow> 'a tx" where
  "reading f s = (f (st_db s), s)"

definition write_db :: "(db \<Rightarrow> db) \<Rightarrow> unit tx" where
  "write_db f s = (Inr (), s\<lparr>st_db := f (st_db s)\<rparr>)"

fun tx_traverse :: "('a \<Rightarrow> 'b tx) \<Rightarrow> 'a list \<Rightarrow> 'b list tx" where
  "tx_traverse f [] = ret []"
| "tx_traverse f (x # xs) = tx_bind (f x) (\<lambda>y. tx_bind (tx_traverse f xs) (\<lambda>ys. ret (y # ys)))"

named_theorems tx_simps \<open>how a sequence of statements succeeds\<close>

lemma tx_bind_Inr_iff [tx_simps]:
  "tx_bind m f s = (Inr y, s') \<longleftrightarrow> (\<exists>x s1. m s = (Inr x, s1) \<and> f x s1 = (Inr y, s'))"
  by (auto simp: tx_bind_def split: prod.splits sum.splits)

lemma tx_bind_Inl_iff:
  "tx_bind m f s = (Inl e, s') \<longleftrightarrow>
     m s = (Inl e, s') \<or> (\<exists>x s1. m s = (Inr x, s1) \<and> f x s1 = (Inl e, s'))"
  by (auto simp: tx_bind_def split: prod.splits sum.splits)

lemma ret_iff [tx_simps]: "ret x s = (r, s') \<longleftrightarrow> r = Inr x \<and> s' = s"
  by (auto simp: ret_def)

lemma lift_iff [tx_simps]: "lift x s = (r, s') \<longleftrightarrow> x = r \<and> s' = s"
  by (auto simp: lift_def)

lemma reading_iff [tx_simps]: "reading f s = (r, s') \<longleftrightarrow> f (st_db s) = r \<and> s' = s"
  by (auto simp: reading_def)

lemma write_db_iff [tx_simps]:
  "write_db f s = (r, s') \<longleftrightarrow> r = Inr () \<and> s' = s\<lparr>st_db := f (st_db s)\<rparr>"
  by (auto simp: write_db_def)

section \<open>Randomness and time\<close>

text \<open>\<open>random_hex\<close> (\<open>src/store/random_id.rs\<close>): lowercase hex, two characters a byte.\<close>

definition hex_digit :: "nat \<Rightarrow> char" where
  "hex_digit n = (if n < 10 then char_of (48 + n) else char_of (87 + n))"

definition hex_of_bytes :: "8 word list \<Rightarrow> string" where
  "hex_of_bytes bytes = concat (map (\<lambda>b. [hex_digit (unat b div 16), hex_digit (unat b mod 16)]) bytes)"

definition random_hex :: "env \<Rightarrow> nat \<Rightarrow> string tx" where
  "random_hex env n s =
     (let s' = s\<lparr>st_draws := Suc (st_draws s)\<rparr>
      in case e_urandom env (st_draws s) n of
           Inl e \<Rightarrow> (Inl e, s')
         | Inr bytes \<Rightarrow> (Inr (hex_of_bytes bytes), s'))"

definition mint_uuid :: "env \<Rightarrow> string tx" where
  "mint_uuid env = tx_bind (random_hex env 16) (\<lambda>random. ret (new_v4 random))"

text \<open>\<open>timestamp.rs\<close>. Dividing the nanoseconds truncates towards zero.\<close>

definition now_ms :: "env \<Rightarrow> int tx" where
  "now_ms env s = (Inr (e_clock env (st_ticks s) sdiv 1000000), s\<lparr>st_ticks := Suc (st_ticks s)\<rparr>)"

definition iso :: "env \<Rightarrow> int \<Rightarrow> string option" where
  "iso env ms = e_render env (ms * 1000000)"

definition parse_target_date :: "env \<Rightarrow> string \<Rightarrow> error + int" where
  "parse_target_date env v =
     (case (case e_date env v of Some at \<Rightarrow> Some at | None \<Rightarrow> e_rfc3339 env v) of
        None \<Rightarrow> Inl (Project (invalid_field ''targetDate'' ''invalid''))
      | Some at \<Rightarrow> Inr (at sdiv 1000000))"

text \<open>\<open>serde_json::to_string(v)?\<close>.\<close>

definition json_text :: "env \<Rightarrow> json \<Rightarrow> error + string" where
  "json_text env v = (case e_to_string env v of Inl m \<Rightarrow> Inl (JsonError m) | Inr t \<Rightarrow> Inr t)"

section \<open>Statements that check\<close>

text \<open>A statement that checks and then changes the database, or fails and changes nothing.\<close>

definition statement :: "(db \<Rightarrow> error + db) \<Rightarrow> unit tx" where
  "statement f s =
     (case f (st_db s) of Inl e \<Rightarrow> (Inl e, s) | Inr d \<Rightarrow> (Inr (), s\<lparr>st_db := d\<rparr>))"

lemma statement_Inr_iff [tx_simps]:
  "statement f s = (Inr u, s') \<longleftrightarrow> (\<exists>d. f (st_db s) = Inr d \<and> s' = s\<lparr>st_db := d\<rparr>)"
  by (auto simp: statement_def split: sum.splits)

definition has_project :: "db \<Rightarrow> string \<Rightarrow> bool" where
  "has_project d i \<longleftrightarrow> i \<in> p_id ` set (projects d)"

section \<open>\<open>projects.rs\<close>: charter writes\<close>

record new_project =
  np_id :: string
  np_slug :: string
  np_key_prefix :: string
  np_name :: string
  np_outcome :: string
  np_constraints :: string
  np_non_goals :: string
  np_lead_type :: string
  np_lead_id :: string
  np_target_date :: "int option"
  np_creator_type :: string
  np_creator_id :: string
  np_at :: int

datatype project_insert = Inserted | SlugTaken | KeyPrefixTaken | IdTaken

text \<open>The row the statement writes: the other columns take their declared defaults.\<close>

definition stored_project :: "new_project \<Rightarrow> project_row" where
  "stored_project row = \<lparr>
     p_id = np_id row, p_slug = np_slug row, p_key_prefix = np_key_prefix row,
     p_name = np_name row, p_outcome = np_outcome row, p_constraints = np_constraints row,
     p_non_goals = np_non_goals row, p_status = ''draft'', p_health = ''unknown'',
     p_lead_type = np_lead_type row, p_lead_id = np_lead_id row,
     p_target_date = np_target_date row, p_plan_version = 0, p_version = 1,
     p_completion_policy = ''manual'', p_creator_type = np_creator_type row,
     p_creator_id = np_creator_id row, p_created_at = np_at row, p_updated_at = np_at row,
     p_archived_at = None\<rparr>"

text \<open>The \<open>INSERT\<close> itself, with the unique indexes in the order SQLite checks them: the
  newest index first, the primary key last.\<close>

definition projects_insert :: "new_project \<Rightarrow> db \<Rightarrow> error + db" where
  "projects_insert row d =
     (if np_key_prefix row \<in> p_key_prefix ` set (projects d)
      then Inl (unique_failed ext_unique ''projects.key_prefix'')
      else if np_slug row \<in> p_slug ` set (projects d)
      then Inl (unique_failed ext_unique ''projects.slug'')
      else if np_id row \<in> p_id ` set (projects d)
      then Inl (unique_failed ext_primary_key ''projects.id'')
      else Inr (d\<lparr>projects := projects d @ [stored_project row]\<rparr>))"

fun unique_violation :: "error \<Rightarrow> project_insert option" where
  "unique_violation (Sqlite (SqliteFailure _ ext (Some message))) =
     (let unique = (ext = ext_unique \<or> ext = ext_primary_key)
      in case strip_prefix ''UNIQUE constraint failed: '' message of
           None \<Rightarrow> None
         | Some column \<Rightarrow>
             if column = ''projects.slug'' \<and> unique then Some SlugTaken
             else if column = ''projects.key_prefix'' \<and> unique then Some KeyPrefixTaken
             else if column = ''projects.id'' \<and> unique then Some IdTaken
             else None)"
| "unique_violation _ = None"

definition insert_project :: "new_project \<Rightarrow> project_insert tx" where
  "insert_project row s =
     (case statement (projects_insert row) s of
        (Inr _, s') \<Rightarrow> (Inr Inserted, s')
      | (Inl e, s') \<Rightarrow> (ok_or (unique_violation e) e, s'))"

definition repository_insert :: "repository_row \<Rightarrow> db \<Rightarrow> error + db" where
  "repository_insert row d =
     (if (r_project row, r_repo row) \<in> (\<lambda>r. (r_project r, r_repo r)) ` set (repositories d)
      then Inl (unique_failed ext_primary_key
             ''project_repositories.project_id, project_repositories.repo'')
      else if \<not> has_project d (r_project row) then Inl foreign_key_failed
      else Inr (d\<lparr>repositories := repositories d @ [row]\<rparr>))"

definition criterion_insert :: "criterion_row \<Rightarrow> db \<Rightarrow> error + db" where
  "criterion_insert row d =
     (if c_id row \<in> c_id ` set (criteria d)
      then Inl (unique_failed ext_primary_key ''project_criteria.id'')
      else if \<not> has_project d (c_project row) then Inl foreign_key_failed
      else Inr (d\<lparr>criteria := criteria d @ [row]\<rparr>))"

text \<open>\<open>orm::execute_many\<close>: one statement a row, stopping at the first failure.\<close>

fun execute_many :: "('r \<Rightarrow> db \<Rightarrow> error + db) \<Rightarrow> 'r list \<Rightarrow> unit tx" where
  "execute_many ins [] = ret ()"
| "execute_many ins (r # rs) = tx_bind (statement (ins r)) (\<lambda>_. execute_many ins rs)"

definition new_repository :: "new_project \<Rightarrow> string \<Rightarrow> repository_row" where
  "new_repository project name = \<lparr>
     r_project = np_id project, r_repo = name, r_creator_type = np_creator_type project,
     r_creator_id = np_creator_id project, r_created_at = np_at project\<rparr>"

definition new_criterion :: "new_project \<Rightarrow> nat \<times> string \<times> string \<Rightarrow> criterion_row" where
  "new_criterion project = (\<lambda>(position, i, description). \<lparr>
     c_id = i, c_project = np_id project, c_work_item = None, c_description = description,
     c_required = 1, c_evidence_requirement = ''reported'', c_resolution = ''open'',
     c_rationale = None, c_position = int position, c_archived_at = None\<rparr>)"

definition insert_relations ::
  "new_project \<Rightarrow> string list \<Rightarrow> (string \<times> string) list \<Rightarrow> unit tx" where
  "insert_relations project repos crits =
     tx_bind (execute_many repository_insert (map (new_repository project) repos)) (\<lambda>_.
       execute_many criterion_insert (map (new_criterion project) (enumerate 0 crits)))"

datatype archived_at = Keep | SetAt int | Clear

record lifecycle_patch =
  lp_status :: "string option"
  lp_archived :: archived_at
  lp_at :: int

definition patch_row :: "int \<Rightarrow> lifecycle_patch \<Rightarrow> project_row \<Rightarrow> project_row" where
  "patch_row version patch row =
     row\<lparr>p_version := version + 1, p_updated_at := lp_at patch,
         p_status := (case lp_status patch of None \<Rightarrow> p_status row | Some t \<Rightarrow> t),
         p_archived_at := (case lp_archived patch of
            Keep \<Rightarrow> p_archived_at row | SetAt at \<Rightarrow> Some at | Clear \<Rightarrow> None)\<rparr>"

text \<open>The version-guarded \<open>UPDATE\<close>: whether exactly one row matched.\<close>

definition update_lifecycle :: "string \<Rightarrow> int \<Rightarrow> lifecycle_patch \<Rightarrow> bool tx" where
  "update_lifecycle i version patch s =
     (let d = st_db s; hit = (\<lambda>row. p_id row = i \<and> p_version row = version)
      in (Inr (length (filter hit (projects d)) = 1),
          s\<lparr>st_db := d\<lparr>projects := map (\<lambda>row. if hit row then patch_row version patch row else row)
                                    (projects d)\<rparr>\<rparr>))"

section \<open>\<open>project_read.rs\<close>: charter reads\<close>

definition read_project :: "db \<Rightarrow> string \<Rightarrow> project_row option" where
  "read_project d i = find (\<lambda>row. p_id row = i) (projects d)"

record project_page =
  pp_status :: "string option"
  pp_health :: "string option"
  pp_include_archived :: bool
  pp_after :: "(int \<times> string) option"
  pp_limit :: int

definition page_admits :: "project_page \<Rightarrow> project_row \<Rightarrow> bool" where
  "page_admits page row \<longleftrightarrow>
     (case pp_status page of None \<Rightarrow> True | Some t \<Rightarrow> p_status row = t) \<and>
     (case pp_health page of None \<Rightarrow> True | Some h \<Rightarrow> p_health row = h) \<and>
     (pp_include_archived page \<or> p_archived_at row = None) \<and>
     (case pp_after page of
        None \<Rightarrow> True
      | Some (at, i) \<Rightarrow> p_created_at row < at \<or> (p_created_at row = at \<and> p_id row < i))"

text \<open>\<open>ORDER BY created_at DESC, id DESC LIMIT n\<close>.\<close>

definition read_project_page :: "db \<Rightarrow> project_page \<Rightarrow> project_row list" where
  "read_project_page d page =
     take (nat (pp_limit page))
       (rev (sort_key (\<lambda>row. (p_created_at row, p_id row)) (filter (page_admits page) (projects d))))"

record relations =
  rel_repositories :: "(string \<times> string) list"
  rel_criteria :: "criterion_row list"

definition read_relations :: "db \<Rightarrow> string list \<Rightarrow> relations" where
  "read_relations d ids = \<lparr>
     rel_repositories =
       sort (map (\<lambda>r. (r_project r, r_repo r)) (filter (\<lambda>r. r_project r \<in> set ids) (repositories d))),
     rel_criteria =
       sort_key (\<lambda>c. (c_project c, c_position c))
         (filter (\<lambda>c. c_project c \<in> set ids \<and> c_work_item c = None) (criteria d))\<rparr>"

section \<open>Events, receipts, changes and bindings\<close>

definition event_insert :: "event_row \<Rightarrow> db \<Rightarrow> error + db" where
  "event_insert row d =
     (if ev_id row \<in> ev_id ` set (events d)
      then Inl (unique_failed ext_primary_key ''project_activity_events.id'')
      else if \<not> has_project d (ev_project row) then Inl foreign_key_failed
      else Inr (d\<lparr>events := events d @ [row]\<rparr>))"

record activity_page =
  ap_project :: string
  ap_ascending :: bool
  ap_after :: "(int \<times> string) option"
  ap_limit :: int

definition event_position :: "event_row \<Rightarrow> int \<times> string" where
  "event_position ev = (ev_created_at ev, ev_id ev)"

definition read_activity_page :: "db \<Rightarrow> activity_page \<Rightarrow> event_row list" where
  "read_activity_page d page =
     (let past = (\<lambda>ev. case ap_after page of
            None \<Rightarrow> True
          | Some (at, i) \<Rightarrow>
              if ap_ascending page
              then at < ev_created_at ev \<or> (ev_created_at ev = at \<and> i < ev_id ev)
              else ev_created_at ev < at \<or> (ev_created_at ev = at \<and> ev_id ev < i));
          rows = sort_key event_position
                   (filter (\<lambda>ev. ev_project ev = ap_project page \<and> past ev) (events d))
      in take (nat (ap_limit page)) (if ap_ascending page then rows else rev rows))"

definition find_receipt :: "db \<Rightarrow> string \<Rightarrow> string \<Rightarrow> string \<Rightarrow> receipt_row option" where
  "find_receipt d ptype pid key =
     find (\<lambda>r. rc_principal_type r = ptype \<and> rc_principal_id r = pid \<and> rc_key r = key) (receipts d)"

definition receipt_insert :: "receipt_row \<Rightarrow> db \<Rightarrow> error + db" where
  "receipt_insert row d =
     (if find_receipt d (rc_principal_type row) (rc_principal_id row) (rc_key row) \<noteq> None
      then Inl (unique_failed ext_unique
             (''project_command_receipts.principal_type, project_command_receipts.principal_id, '' @
              ''project_command_receipts.idempotency_key''))
      else if rc_id row \<in> rc_id ` set (receipts d)
      then Inl (unique_failed ext_primary_key ''project_command_receipts.id'')
      else if \<not> has_project d (rc_project row) then Inl foreign_key_failed
      else Inr (d\<lparr>receipts := receipts d @ [row]\<rparr>))"

text \<open>\<open>project_changes::append\<close>: \<open>AUTOINCREMENT\<close> never hands a number out twice.\<close>

definition change_append ::
  "string \<Rightarrow> string \<Rightarrow> string \<Rightarrow> string \<Rightarrow> int \<Rightarrow> unit tx" where
  "change_append project event entity op at = write_db (\<lambda>d. d\<lparr>
     last_seq := last_seq d + 1,
     changes := changes d @ [\<lparr>ch_seq = last_seq d + 1, ch_project = project, ch_event = event,
                              ch_entity_type = entity, ch_op = op, ch_created_at = at\<rparr>]\<rparr>)"

definition read_change_page :: "db \<Rightarrow> int \<Rightarrow> int \<Rightarrow> change_row list" where
  "read_change_page d after limit =
     take (nat limit) (sort_key ch_seq (filter (\<lambda>r. after < ch_seq r) (changes d)))"

definition change_bounds :: "db \<Rightarrow> (int \<times> int) option" where
  "change_bounds d =
     (case map ch_seq (changes d) of
        [] \<Rightarrow> None
      | q # qs \<Rightarrow> Some (foldl min q qs, foldl max q qs))"

definition find_binding :: "db \<Rightarrow> string \<Rightarrow> binding_row option" where
  "find_binding d project = find (\<lambda>b. b_project b = project) (bindings d)"

text \<open>\<open>INSERT OR REPLACE\<close>: the old row goes, the new one is written.\<close>

definition binding_upsert :: "binding_row \<Rightarrow> db \<Rightarrow> error + db" where
  "binding_upsert row d =
     (if \<not> has_project d (b_project row) then Inl foreign_key_failed
      else Inr (d\<lparr>bindings := filter (\<lambda>b. b_project b \<noteq> b_project row) (bindings d) @ [row]\<rparr>))"

end
