(* ===== verification/Serde.thy ===== *)
theory Serde
  imports Json
begin

text \<open>
  How the derived \<open>Serialize\<close> and \<open>Deserialize\<close> of the program's structs go through a JSON
  value: members by name, absent and \<open>null\<close> ones, unknown ones refused or ignored, unit
  variants and tags.
\<close>

section \<open>Reading a struct from JSON\<close>

text \<open>
  A derived \<open>Deserialize\<close> takes an object, in any order, ignoring unknown members and
  refusing a known one given twice, or an array with one entry per field.
\<close>

definition struct_fields :: "string list \<Rightarrow> json \<Rightarrow> (string \<Rightarrow> json option) option" where
  "struct_fields names v =
     (case v of
        JObj kvs \<Rightarrow>
          if distinct (filter (\<lambda>k. k \<in> set names) (map fst kvs)) then Some (map_of kvs) else None
      | JArr vs \<Rightarrow> if length vs = length names then Some (map_of (zip names vs)) else None
      | _ \<Rightarrow> None)"

fun json_str :: "json \<Rightarrow> string option" where
  "json_str (JStr s) = Some s"
| "json_str _ = None"

fun json_int :: "json \<Rightarrow> int option" where
  "json_int (JInt i) = Some i"
| "json_int _ = None"

fun json_bool :: "json \<Rightarrow> bool option" where
  "json_bool (JBool b) = Some b"
| "json_bool _ = None"

fun json_list :: "(json \<Rightarrow> 'a option) \<Rightarrow> json \<Rightarrow> 'a list option" where
  "json_list f (JArr vs) = those (map f vs)"
| "json_list f _ = None"

fun json_option :: "(json \<Rightarrow> 'a option) \<Rightarrow> json \<Rightarrow> 'a option option" where
  "json_option f JNull = Some None"
| "json_option f v = map_option Some (f v)"

definition field :: "(json \<Rightarrow> 'a option) \<Rightarrow> (string \<Rightarrow> json option) \<Rightarrow> string \<Rightarrow> 'a option" where
  "field f get k = (case get k of None \<Rightarrow> None | Some v \<Rightarrow> f v)"

text \<open>A missing \<open>Option\<close> field reads as \<open>None\<close>.\<close>

definition opt_field ::
  "(json \<Rightarrow> 'a option) \<Rightarrow> (string \<Rightarrow> json option) \<Rightarrow> string \<Rightarrow> 'a option option" where
  "opt_field f get k = (case get k of None \<Rightarrow> Some None | Some v \<Rightarrow> json_option f v)"

section \<open>Structs that deny unknown members\<close>

text \<open>
  A struct with \<open>deny_unknown_fields\<close>: an object with known members, none twice, or an array
  of its leading fields (the derived \<open>visit_seq\<close> lets defaulted fields run out).
\<close>

definition known_fields :: "string list \<Rightarrow> json \<Rightarrow> (string \<Rightarrow> json option) option" where
  "known_fields names v =
     (case v of
        JObj kvs \<Rightarrow>
          if distinct (map fst kvs) \<and> list_all (\<lambda>kv. fst kv \<in> set names) kvs
          then Some (map_of kvs) else None
      | JArr vs \<Rightarrow> if length vs \<le> length names then Some (map_of (zip names vs)) else None
      | _ \<Rightarrow> None)"

text \<open>\<open>non_null\<close> with \<open>default\<close>: an absent member is \<open>None\<close>, a present one must read as the type.\<close>

definition non_null :: "(json \<Rightarrow> 'a option) \<Rightarrow> (string \<Rightarrow> json option) \<Rightarrow> string \<Rightarrow> 'a option option" where
  "non_null f get k = (case get k of None \<Rightarrow> Some None | Some v \<Rightarrow> map_option Some (f v))"

text \<open>A unit variant, by its name.\<close>

definition named_of_json :: "(string \<times> 'a) list \<Rightarrow> json \<Rightarrow> 'a option" where
  "named_of_json names v = Option.bind (json_str v) (map_of names)"

text \<open>The tag of an internally tagged enum, and the rest of its content.\<close>

fun tagged_content :: "string \<Rightarrow> json \<Rightarrow> (string \<times> json) option" where
  "tagged_content key (JObj kvs) =
     (case filter (\<lambda>kv. fst kv = key) kvs of
        [(_, JStr tag)] \<Rightarrow> Some (tag, JObj (filter (\<lambda>kv. fst kv \<noteq> key) kvs))
      | _ \<Rightarrow> None)"
| "tagged_content key (JArr (JStr tag # vs)) = Some (tag, JArr vs)"
| "tagged_content key _ = None"

text \<open>A struct that ignores unknown members and defaults missing ones.\<close>

definition open_fields :: "string list \<Rightarrow> json \<Rightarrow> (string \<Rightarrow> json option) option" where
  "open_fields names v =
     (case v of
        JObj kvs \<Rightarrow>
          if distinct (filter (\<lambda>k. k \<in> set names) (map fst kvs)) then Some (map_of kvs) else None
      | JArr vs \<Rightarrow> if length vs \<le> length names then Some (map_of (zip names vs)) else None
      | _ \<Rightarrow> None)"

definition default_field ::
  "'a \<Rightarrow> (json \<Rightarrow> 'a option) \<Rightarrow> (string \<Rightarrow> json option) \<Rightarrow> string \<Rightarrow> 'a option" where
  "default_field d f get k = (case get k of None \<Rightarrow> Some d | Some v \<Rightarrow> f v)"

text \<open>The machine integers: a number outside the type's range is refused.\<close>

definition json_between :: "int \<Rightarrow> int \<Rightarrow> json \<Rightarrow> int option" where
  "json_between lo hi v =
     Option.bind (json_int v) (\<lambda>i. if lo \<le> i \<and> i \<le> hi then Some i else None)"

abbreviation json_i64 :: "json \<Rightarrow> int option" where
  "json_i64 \<equiv> json_between (- (2 ^ 63)) (2 ^ 63 - 1)"

abbreviation json_u32 :: "json \<Rightarrow> int option" where
  "json_u32 \<equiv> json_between 0 (2 ^ 32 - 1)"

abbreviation json_u8 :: "json \<Rightarrow> int option" where
  "json_u8 \<equiv> json_between 0 (2 ^ 8 - 1)"

section \<open>Writing a struct\<close>

text \<open>The members of a struct, an absent one left out.\<close>

fun present :: "(string \<times> json option) list \<Rightarrow> (string \<times> json) list" where
  "present [] = []"
| "present ((k, None) # kvs) = present kvs"
| "present ((k, Some v) # kvs) = (k, v) # present kvs"

definition struct_json :: "(string \<times> json option) list \<Rightarrow> json" where
  "struct_json kvs = JObj (present kvs)"

section \<open>Round trips\<close>

lemma those_map_inverse: "(\<And>x. x \<in> set xs \<Longrightarrow> g (f x) = Some x) \<Longrightarrow> those (map g (map f xs)) = Some xs"
  by (induction xs) auto

lemma json_list_ids [simp]: "json_list json_str (json_ids xs) = Some xs"
  by (simp add: json_ids_def those_map_inverse del: map_map)

lemma json_option_opt [simp]: "json_option json_str (json_opt v) = Some v"
  by (cases v) (simp_all add: json_opt_def)

lemma present_keys: "set (map fst (present kvs)) \<subseteq> set (map fst kvs)"
  by (induction kvs rule: present.induct) auto

lemma present_distinct: "distinct (map fst kvs) \<Longrightarrow> distinct (map fst (present kvs))"
  by (induction kvs rule: present.induct) (use present_keys in auto)

lemma map_of_present:
  "distinct (map fst kvs) \<Longrightarrow> map_of (present kvs) k = Option.bind (map_of kvs k) id"
proof (induction kvs rule: present.induct)
  case (2 k' kvs)
  have "map_of (present kvs) k' = None"
    using 2 present_keys [of kvs] by (auto simp: map_of_eq_None_iff)
  then show ?case using 2 by auto
qed auto

text \<open>A struct written by its members reads back through them, absent ones absent.\<close>

lemma known_fields_struct:
  assumes "distinct (map fst kvs)" "names = map fst kvs"
  shows "known_fields names (struct_json kvs) = Some (\<lambda>k. Option.bind (map_of kvs k) id)"
proof -
  have "list_all (\<lambda>kv. fst kv \<in> set names) (present kvs)"
    using present_keys [of kvs] by (auto simp: assms(2) list_all_iff)
  then show ?thesis
    by (simp add: known_fields_def struct_json_def present_distinct assms(1) map_of_present fun_eq_iff)
qed

lemma non_null_back [simp]:
  "get k = map_option g x \<Longrightarrow> (\<And>y. f (g y) = Some y) \<Longrightarrow> non_null f get k = Some x"
  by (cases x) (simp_all add: non_null_def)

lemma field_back: "get k = Some (g x) \<Longrightarrow> f (g x) = Some x \<Longrightarrow> field f get k = Some x"
  by (simp add: field_def)

lemma open_fields_obj:
  "distinct (map fst kvs) \<Longrightarrow> open_fields names (JObj kvs) = Some (map_of kvs)"
  by (simp add: open_fields_def)

lemma default_field_back:
  "get k = Some (g x) \<Longrightarrow> f (g x) = Some x \<Longrightarrow> default_field d f get k = Some x"
  by (simp add: default_field_def)

lemma json_between_back [simp]: "json_between lo hi (JInt i) = (if lo \<le> i \<and> i \<le> hi then Some i else None)"
  by (simp add: json_between_def)

end
