(* ===== verification/Project_View.thy ===== *)
theory Project_View
  imports Project_Store Serde
begin

text \<open>
  The shape every project command answers with (\<open>src/domains/projects/view.rs\<close>): the
  charter row with its repositories and project-level criteria, timestamps rendered. A response
  is also stored as JSON and read back for a replay, so the derived \<open>Serialize\<close> and
  \<open>Deserialize\<close> are written out. Then the writer every mutation shares
  (\<open>activity.rs\<close>, \<open>changes.rs\<close>, \<open>local_only.rs\<close>): one event, one feed row, and the
  warning a bound project earns.
\<close>

section \<open>Views\<close>

record criterion_view =
  cv_id :: string
  cv_description :: string
  cv_required :: bool
  cv_evidence_requirement :: string
  cv_resolution :: string
  cv_rationale :: "string option"
  cv_position :: int

record project_view =
  v_id :: string
  v_slug :: string
  v_key_prefix :: string
  v_name :: string
  v_outcome :: string
  v_constraints :: "string list"
  v_non_goals :: "string list"
  v_status :: string
  v_health :: string
  v_lead_user_id :: string
  v_target_date :: "string option"
  v_plan_version :: int
  v_version :: int
  v_completion_policy :: string
  v_created_by :: string
  v_created_at :: string
  v_updated_at :: string
  v_archived_at :: "string option"
  v_repositories :: "string list"
  v_criteria :: "criterion_view list"

definition criterion_view_json :: "criterion_view \<Rightarrow> json" where
  "criterion_view_json c = JObj
     [(''id'', JStr (cv_id c)),
      (''description'', JStr (cv_description c)),
      (''required'', JBool (cv_required c)),
      (''evidenceRequirement'', JStr (cv_evidence_requirement c)),
      (''resolution'', JStr (cv_resolution c)),
      (''resolutionRationale'', json_opt (cv_rationale c)),
      (''position'', JInt (cv_position c))]"

definition view_json :: "project_view \<Rightarrow> json" where
  "view_json v = JObj
     [(''id'', JStr (v_id v)),
      (''slug'', JStr (v_slug v)),
      (''keyPrefix'', JStr (v_key_prefix v)),
      (''name'', JStr (v_name v)),
      (''outcome'', JStr (v_outcome v)),
      (''constraints'', json_ids (v_constraints v)),
      (''nonGoals'', json_ids (v_non_goals v)),
      (''status'', JStr (v_status v)),
      (''health'', JStr (v_health v)),
      (''leadUserId'', JStr (v_lead_user_id v)),
      (''targetDate'', json_opt (v_target_date v)),
      (''currentPlanVersion'', JInt (v_plan_version v)),
      (''version'', JInt (v_version v)),
      (''completionPolicy'', JStr (v_completion_policy v)),
      (''createdBy'', JStr (v_created_by v)),
      (''createdAt'', JStr (v_created_at v)),
      (''updatedAt'', JStr (v_updated_at v)),
      (''archivedAt'', json_opt (v_archived_at v)),
      (''repositories'', json_ids (v_repositories v)),
      (''criteria'', JArr (map criterion_view_json (v_criteria v)))]"

definition criterion_view_fields :: "string list" where
  "criterion_view_fields =
     [''id'', ''description'', ''required'', ''evidenceRequirement'', ''resolution'',
      ''resolutionRationale'', ''position'']"

definition view_fields :: "string list" where
  "view_fields =
     [''id'', ''slug'', ''keyPrefix'', ''name'', ''outcome'', ''constraints'', ''nonGoals'',
      ''status'', ''health'', ''leadUserId'', ''targetDate'', ''currentPlanVersion'', ''version'',
      ''completionPolicy'', ''createdBy'', ''createdAt'', ''updatedAt'', ''archivedAt'',
      ''repositories'', ''criteria'']"

definition criterion_view_of_json :: "json \<Rightarrow> criterion_view option" where
  "criterion_view_of_json j =
     Option.bind (struct_fields criterion_view_fields j) (\<lambda>get.
     Option.bind (field json_str get ''id'') (\<lambda>i.
     Option.bind (field json_str get ''description'') (\<lambda>description.
     Option.bind (field json_bool get ''required'') (\<lambda>required.
     Option.bind (field json_str get ''evidenceRequirement'') (\<lambda>evidence.
     Option.bind (field json_str get ''resolution'') (\<lambda>resolution.
     Option.bind (opt_field json_str get ''resolutionRationale'') (\<lambda>rationale.
     Option.bind (field json_int get ''position'') (\<lambda>position.
     Some \<lparr>cv_id = i, cv_description = description, cv_required = required,
           cv_evidence_requirement = evidence, cv_resolution = resolution,
           cv_rationale = rationale, cv_position = position\<rparr>))))))))"

definition view_of_json :: "json \<Rightarrow> project_view option" where
  "view_of_json j =
     Option.bind (struct_fields view_fields j) (\<lambda>get.
     Option.bind (field json_str get ''id'') (\<lambda>i.
     Option.bind (field json_str get ''slug'') (\<lambda>slug.
     Option.bind (field json_str get ''keyPrefix'') (\<lambda>key_prefix.
     Option.bind (field json_str get ''name'') (\<lambda>name.
     Option.bind (field json_str get ''outcome'') (\<lambda>outcome.
     Option.bind (field (json_list json_str) get ''constraints'') (\<lambda>constraints.
     Option.bind (field (json_list json_str) get ''nonGoals'') (\<lambda>non_goals.
     Option.bind (field json_str get ''status'') (\<lambda>status.
     Option.bind (field json_str get ''health'') (\<lambda>health.
     Option.bind (field json_str get ''leadUserId'') (\<lambda>lead.
     Option.bind (opt_field json_str get ''targetDate'') (\<lambda>target_date.
     Option.bind (field json_int get ''currentPlanVersion'') (\<lambda>plan_version.
     Option.bind (field json_int get ''version'') (\<lambda>version.
     Option.bind (field json_str get ''completionPolicy'') (\<lambda>completion_policy.
     Option.bind (field json_str get ''createdBy'') (\<lambda>created_by.
     Option.bind (field json_str get ''createdAt'') (\<lambda>created_at.
     Option.bind (field json_str get ''updatedAt'') (\<lambda>updated_at.
     Option.bind (opt_field json_str get ''archivedAt'') (\<lambda>archived_at.
     Option.bind (field (json_list json_str) get ''repositories'') (\<lambda>repos.
     Option.bind (field (json_list criterion_view_of_json) get ''criteria'') (\<lambda>crits.
     Some \<lparr>v_id = i, v_slug = slug, v_key_prefix = key_prefix, v_name = name, v_outcome = outcome,
           v_constraints = constraints, v_non_goals = non_goals, v_status = status,
           v_health = health, v_lead_user_id = lead, v_target_date = target_date,
           v_plan_version = plan_version, v_version = version,
           v_completion_policy = completion_policy, v_created_by = created_by,
           v_created_at = created_at, v_updated_at = updated_at, v_archived_at = archived_at,
           v_repositories = repos, v_criteria = crits\<rparr>)))))))))))))))))))))"

section \<open>Rows as views\<close>

definition criterion_to_view :: "criterion_row \<Rightarrow> criterion_view" where
  "criterion_to_view row = \<lparr>
     cv_id = c_id row, cv_description = c_description row, cv_required = (c_required row \<noteq> 0),
     cv_evidence_requirement = c_evidence_requirement row, cv_resolution = c_resolution row,
     cv_rationale = c_rationale row, cv_position = c_position row\<rparr>"

text \<open>A stored JSON array of strings; unreadable text degrades to the empty list.\<close>

definition stored_json :: "env \<Rightarrow> string \<Rightarrow> string list" where
  "stored_json env raw =
     (case e_from_str env raw of
        Inl _ \<Rightarrow> []
      | Inr v \<Rightarrow> (case json_list json_str v of None \<Rightarrow> [] | Some xs \<Rightarrow> xs))"

definition rendered :: "env \<Rightarrow> int \<Rightarrow> string \<Rightarrow> string \<Rightarrow> error + string" where
  "rendered env ms row_id column =
     ok_or (iso env ms)
       (Project (Invariant ''project_timestamp_range''
          (column @ '' of '' @ row_id @ '' is outside the representable range'')))"

definition project_to_view ::
  "env \<Rightarrow> project_row \<Rightarrow> string list \<Rightarrow> criterion_view list \<Rightarrow> error + project_view" where
  "project_to_view env row repos crits =
     (let stamp = (\<lambda>column ms. rendered env ms (p_id row) column)
      in and_then (transpose_opt (stamp ''projects.target_date'') (p_target_date row)) (\<lambda>target_date.
         and_then (stamp ''projects.created_at'' (p_created_at row)) (\<lambda>created_at.
         and_then (stamp ''projects.updated_at'' (p_updated_at row)) (\<lambda>updated_at.
         and_then (transpose_opt (stamp ''projects.archived_at'') (p_archived_at row)) (\<lambda>archived_at.
         Inr \<lparr>v_id = p_id row, v_slug = p_slug row, v_key_prefix = p_key_prefix row,
              v_name = p_name row, v_outcome = p_outcome row,
              v_constraints = stored_json env (p_constraints row),
              v_non_goals = stored_json env (p_non_goals row), v_status = p_status row,
              v_health = p_health row, v_lead_user_id = p_lead_id row,
              v_target_date = target_date, v_plan_version = p_plan_version row,
              v_version = p_version row, v_completion_policy = p_completion_policy row,
              v_created_by = p_creator_id row, v_created_at = created_at,
              v_updated_at = updated_at, v_archived_at = archived_at,
              v_repositories = repos, v_criteria = crits\<rparr>)))))"

text \<open>\<open>load\<close>: the maps the relations are grouped into, and each row taking its own out.\<close>

fun load_rows ::
  "env \<Rightarrow> (string \<Rightarrow> string list) \<Rightarrow> (string \<Rightarrow> criterion_view list) \<Rightarrow> project_row list \<Rightarrow>
   error + project_view list" where
  "load_rows env repos crits [] = Inr []"
| "load_rows env repos crits (row # rows) =
     and_then (project_to_view env row (repos (p_id row)) (crits (p_id row))) (\<lambda>v.
     and_then (load_rows env (repos(p_id row := [])) (crits(p_id row := [])) rows) (\<lambda>vs.
     Inr (v # vs)))"

definition load_views :: "env \<Rightarrow> db \<Rightarrow> project_row list \<Rightarrow> error + project_view list" where
  "load_views env d rows =
     (let rel = read_relations d (map p_id rows)
      in load_rows env
           (\<lambda>i. map snd (filter (\<lambda>r. fst r = i) (rel_repositories rel)))
           (\<lambda>i. map criterion_to_view (filter (\<lambda>c. c_project c = i) (rel_criteria rel))) rows)"

definition vanished :: "string \<Rightarrow> string \<Rightarrow> error" where
  "vanished i cmd =
     Project (Invariant ''project_written_row''
       (''project '' @ i @ '' vanished inside its own '' @ cmd @ '' transaction''))"

definition written :: "env \<Rightarrow> db \<Rightarrow> string \<Rightarrow> string \<Rightarrow> error + project_view" where
  "written env d i cmd =
     and_then (transpose_opt (\<lambda>row. load_views env d [row]) (read_project d i)) (\<lambda>views.
       case views of
         None \<Rightarrow> Inl (vanished i cmd)
       | Some vs \<Rightarrow> if vs = [] then Inl (vanished i cmd) else Inr (last vs))"

text \<open>\<open>binding::find\<close>: a stored transfer binding as its view.\<close>

record transfer_view =
  tv_direction :: string
  tv_remote :: string
  tv_digest :: string
  tv_transferred_at :: string
  tv_remapped_from :: "string option"

definition binding_view :: "env \<Rightarrow> string \<Rightarrow> binding_row option \<Rightarrow> error + transfer_view option" where
  "binding_view env project_id found =
     (case found of
        None \<Rightarrow> Inr None
      | Some row \<Rightarrow>
          and_then (ok_or (iso env (b_transferred_at row))
                     (Project (Invariant ''project_timestamp_range''
                       (''project_transfer_bindings.transferred_at of '' @ project_id @
                        '' is outside the representable range'')))) (\<lambda>at.
          Inr (Some \<lparr>tv_direction = b_direction row, tv_remote = b_remote row,
                     tv_digest = b_digest row, tv_transferred_at = at,
                     tv_remapped_from =
                       map_option (\<lambda>(kind, i). kind @ CHR '':'' # i) (b_remapped_from row)\<rparr>)))"

section \<open>The shared activity writer\<close>

record local_only =
  lo_code :: string
  lo_project_id :: string
  lo_direction :: string
  lo_remote :: string
  lo_message :: string

definition read_local_only :: "db \<Rightarrow> string \<Rightarrow> local_only option" where
  "read_local_only d project =
     map_option (\<lambda>row.
       let how = if b_direction row = ''exported'' then ''was exported to'' else ''was imported from''
       in \<lparr>lo_code = ''local_only'', lo_project_id = project, lo_direction = b_direction row,
           lo_remote = b_remote row,
           lo_message = ''This project '' @ how @ '' '' @ b_remote row @
             ''; this change stays in this data directory and will not reach '' @ b_remote row\<rparr>)
       (find_binding d project)"

definition local_only_json :: "local_only \<Rightarrow> json" where
  "local_only_json w = JObj
     [(''code'', JStr (lo_code w)), (''projectId'', JStr (lo_project_id w)),
      (''direction'', JStr (lo_direction w)), (''remote'', JStr (lo_remote w)),
      (''message'', JStr (lo_message w))]"

definition local_only_of_json :: "json \<Rightarrow> local_only option" where
  "local_only_of_json j =
     Option.bind (struct_fields [''code'', ''projectId'', ''direction'', ''remote'', ''message''] j) (\<lambda>get.
     Option.bind (field json_str get ''code'') (\<lambda>code.
     Option.bind (field json_str get ''projectId'') (\<lambda>project.
     Option.bind (field json_str get ''direction'') (\<lambda>direction.
     Option.bind (field json_str get ''remote'') (\<lambda>remote.
     Option.bind (field json_str get ''message'') (\<lambda>message.
     Some \<lparr>lo_code = code, lo_project_id = project, lo_direction = direction, lo_remote = remote,
           lo_message = message\<rparr>))))))"

record event =
  e_project :: string
  e_type :: string
  e_entity_type :: string
  e_entity_id :: string
  e_payload :: json

record recorded =
  rec_id :: string
  rec_local_only :: "local_only option"

definition op_changed :: string where "op_changed = ''changed''"
definition op_deleted :: string where "op_deleted = ''deleted''"

definition record_change :: "string \<Rightarrow> string \<Rightarrow> string \<Rightarrow> int \<Rightarrow> unit tx" where
  "record_change project event entity at = change_append project event entity op_changed at"

definition record_deletion :: "string \<Rightarrow> int \<Rightarrow> unit tx" where
  "record_deletion project at = change_append project project ''project'' op_deleted at"

definition record_event :: "env \<Rightarrow> actor \<Rightarrow> event \<Rightarrow> int \<Rightarrow> recorded tx" where
  "record_event env actor ev at =
     tx_bind (mint_uuid env) (\<lambda>i.
     tx_bind (lift (json_text env (e_payload ev))) (\<lambda>payload.
     tx_bind (statement (event_insert \<lparr>
       ev_id = i, ev_project = e_project ev,
       ev_actor_type = principal_type_str (principal_type (actor_principal actor)),
       ev_actor_id = principal_id (actor_principal actor), ev_type = e_type ev,
       ev_entity_type = e_entity_type ev, ev_entity_id = e_entity_id ev,
       ev_payload = payload, ev_created_at = at\<rparr>)) (\<lambda>_.
     tx_bind (record_change (e_project ev) i (e_entity_type ev) at) (\<lambda>_.
     tx_bind (reading (\<lambda>d. Inr (read_local_only d (e_project ev)))) (\<lambda>warning.
     ret \<lparr>rec_id = i, rec_local_only = warning\<rparr>)))))"

section \<open>Round trips\<close>

lemma criterion_view_of_json [simp]: "criterion_view_of_json (criterion_view_json c) = Some c"
  by (simp add: criterion_view_of_json_def criterion_view_json_def struct_fields_def
      criterion_view_fields_def field_def opt_field_def)

lemma view_of_json [simp]: "view_of_json (view_json v) = Some v"
  by (simp add: view_of_json_def view_json_def struct_fields_def view_fields_def field_def
      opt_field_def those_map_inverse del: map_map)

lemma local_only_of_json [simp]: "local_only_of_json (local_only_json w) = Some w"
  by (simp add: local_only_of_json_def local_only_json_def struct_fields_def field_def)

end
