(* ===== verification/Store_Invariants.thy ===== *)
theory Store_Invariants
  imports Project_View "HOL-Library.Sublist"
begin

text \<open>
  What every statement on the project tables keeps: \<open>db_ok\<close>, the integrity the schema
  declares (unique keys, foreign keys, an ascending feed), and \<open>appends\<close>, that the
  append-only tables only grow and that a project keeps its identity columns. Both are
  preorders on databases, so a computation follows one when each of its statements does; the
  locale \<open>step_relation\<close> proves that once.
\<close>

section \<open>The relations\<close>

definition unique_ok :: "db \<Rightarrow> bool" where
  "unique_ok d \<longleftrightarrow>
     distinct (map p_id (projects d)) \<and> distinct (map p_slug (projects d)) \<and>
     distinct (map p_key_prefix (projects d)) \<and>
     distinct (map (\<lambda>r. (r_project r, r_repo r)) (repositories d)) \<and>
     distinct (map c_id (criteria d)) \<and> distinct (map ev_id (events d)) \<and>
     distinct (map rc_id (receipts d)) \<and>
     distinct (map (\<lambda>r. (rc_principal_type r, rc_principal_id r, rc_key r)) (receipts d)) \<and>
     distinct (map b_project (bindings d)) \<and> distinct (map pr_id (proposals d)) \<and>
     distinct (map evd_id (evidence d)) \<and> distinct (evidence_links d)"

definition references_ok :: "db \<Rightarrow> bool" where
  "references_ok d \<longleftrightarrow>
     r_project ` set (repositories d) \<union> c_project ` set (criteria d) \<union>
     ev_project ` set (events d) \<union> rc_project ` set (receipts d) \<union> b_project ` set (bindings d) \<union>
     pr_project ` set (proposals d) \<union> evd_project ` set (evidence d)
       \<subseteq> p_id ` set (projects d) \<and>
     apr_proposal ` set (approvals d) \<subseteq> pr_id ` set (proposals d) \<and>
     fst ` set (evidence_links d) \<subseteq> evd_id ` set (evidence d) \<and>
     snd ` set (evidence_links d) \<subseteq> c_id ` set (criteria d)"

definition feed_ok :: "db \<Rightarrow> bool" where
  "feed_ok d \<longleftrightarrow>
     sorted_wrt (<) (map ch_seq (changes d)) \<and>
     (\<forall>q \<in> ch_seq ` set (changes d). 1 \<le> q \<and> q \<le> last_seq d) \<and> 0 \<le> last_seq d"

definition db_ok :: "db \<Rightarrow> bool" where
  "db_ok d \<longleftrightarrow> unique_ok d \<and> references_ok d \<and> feed_ok d"

text \<open>The columns no command rewrites.\<close>

definition identity :: "project_row \<Rightarrow> string \<times> string \<times> string \<times> string \<times> string \<times> int" where
  "identity row = (p_id row, p_slug row, p_key_prefix row, p_creator_type row, p_creator_id row,
                   p_created_at row)"

definition appends :: "db \<Rightarrow> db \<Rightarrow> bool" where
  "appends d d' \<longleftrightarrow>
     prefix (map identity (projects d)) (map identity (projects d')) \<and>
     prefix (events d) (events d') \<and> prefix (receipts d) (receipts d') \<and>
     prefix (changes d) (changes d') \<and> last_seq d \<le> last_seq d' \<and>
     prefix (proposals d) (proposals d') \<and> prefix (evidence d) (evidence d')"

section \<open>Computations that follow a relation\<close>

definition follows :: "(db \<Rightarrow> db \<Rightarrow> bool) \<Rightarrow> 'a tx \<Rightarrow> bool" where
  "follows R m \<longleftrightarrow> (\<forall>s. R (st_db s) (st_db (snd (m s))))"

lemma followsD: "follows R m \<Longrightarrow> m s = (r, s') \<Longrightarrow> R (st_db s) (st_db s')"
  unfolding follows_def by (metis snd_conv)

locale step_relation =
  fixes R :: "db \<Rightarrow> db \<Rightarrow> bool"
  assumes R_refl [intro, simp]: "R d d"
    and R_trans: "R d1 d2 \<Longrightarrow> R d2 d3 \<Longrightarrow> R d1 d3"
begin

lemma follows_ret [intro]: "follows R (ret x)"
  by (simp add: follows_def ret_def)

lemma follows_lift [intro]: "follows R (lift r)"
  by (simp add: follows_def lift_def)

lemma follows_reading [intro]: "follows R (reading f)"
  by (simp add: follows_def reading_def)

lemma follows_bind [intro]:
  "follows R m \<Longrightarrow> (\<And>x. follows R (f x)) \<Longrightarrow> follows R (tx_bind m f)"
  unfolding follows_def tx_bind_def
  by (simp split: prod.splits sum.splits) (metis R_refl R_trans snd_conv)

lemma follows_traverse [intro]: "(\<And>x. follows R (f x)) \<Longrightarrow> follows R (tx_traverse f xs)"
  by (induction xs) (simp_all add: follows_bind follows_ret)

lemma follows_statement: "(\<And>d d'. f d = Inr d' \<Longrightarrow> R d d') \<Longrightarrow> follows R (statement f)"
  by (auto simp: follows_def statement_def split: sum.splits)

lemma follows_execute_many: "(\<And>r d d'. f r d = Inr d' \<Longrightarrow> R d d') \<Longrightarrow> follows R (execute_many f rs)"
  by (induction rs) (simp_all add: follows_bind follows_ret follows_statement)

lemma follows_insert_project:
  "(\<And>d d'. projects_insert row d = Inr d' \<Longrightarrow> R d d') \<Longrightarrow> follows R (insert_project row)"
  by (auto simp: follows_def insert_project_def statement_def split: sum.splits)

lemma follows_write: "(\<And>d. R d (f d)) \<Longrightarrow> follows R (write_db f)"
  by (simp add: follows_def write_db_def)

lemma follows_random [intro]: "follows R (random_hex env n)"
  by (auto simp: follows_def random_hex_def Let_def split: sum.splits)

lemma follows_mint [intro]: "follows R (mint_uuid env)"
  unfolding mint_uuid_def by (intro follows_bind follows_random follows_ret)

lemma follows_now [intro]: "follows R (now_ms env)"
  by (simp add: follows_def now_ms_def)

lemmas follows_basic =
  follows_ret follows_lift follows_reading follows_bind follows_traverse follows_mint follows_now

end

definition keeps_ok :: "db \<Rightarrow> db \<Rightarrow> bool" where
  "keeps_ok d d' \<longleftrightarrow> (db_ok d \<longrightarrow> db_ok d')"

interpretation okr: step_relation keeps_ok
  by unfold_locales (auto simp: keeps_ok_def)

interpretation app: step_relation appends
  by unfold_locales (auto simp: appends_def intro: prefix_order.trans)

section \<open>The statements of the store\<close>

lemma find_receipt_None_iff:
  "find_receipt d t i k = None \<longleftrightarrow>
     (t, i, k) \<notin> (\<lambda>r. (rc_principal_type r, rc_principal_id r, rc_key r)) ` set (receipts d)"
  by (auto simp: find_receipt_def find_None_iff)

lemmas ok_defs = keeps_ok_def db_ok_def unique_ok_def references_ok_def feed_ok_def

lemma projects_insert_ok:
  assumes "projects_insert row d = Inr d'"
  shows "keeps_ok d d'"
proof -
  have "d' = d\<lparr>projects := projects d @ [stored_project row]\<rparr>"
    and "np_id row \<notin> p_id ` set (projects d)" "np_slug row \<notin> p_slug ` set (projects d)"
    "np_key_prefix row \<notin> p_key_prefix ` set (projects d)"
    using assms by (auto simp: projects_insert_def split: if_splits)
  then show ?thesis by (simp add: ok_defs stored_project_def subset_insertI2)
qed

lemma repository_insert_ok:
  assumes "repository_insert row d = Inr d'"
  shows "keeps_ok d d'"
proof -
  have "d' = d\<lparr>repositories := repositories d @ [row]\<rparr>"
    and "(r_project row, r_repo row) \<notin> (\<lambda>r. (r_project r, r_repo r)) ` set (repositories d)"
    and "has_project d (r_project row)"
    using assms unfolding repository_insert_def by (metis Inl_Inr_False Inr_inject)+
  then show ?thesis by (simp add: ok_defs has_project_def)
qed

lemma criterion_insert_ok:
  assumes "criterion_insert row d = Inr d'"
  shows "keeps_ok d d'"
proof -
  have "d' = d\<lparr>criteria := criteria d @ [row]\<rparr>" and "c_id row \<notin> c_id ` set (criteria d)"
    and "has_project d (c_project row)"
    using assms unfolding criterion_insert_def by (metis Inl_Inr_False Inr_inject)+
  then show ?thesis by (simp add: ok_defs has_project_def subset_insertI2)
qed

lemma event_insert_ok:
  assumes "event_insert row d = Inr d'"
  shows "keeps_ok d d'"
proof -
  have "d' = d\<lparr>events := events d @ [row]\<rparr>" and "ev_id row \<notin> ev_id ` set (events d)"
    and "has_project d (ev_project row)"
    using assms unfolding event_insert_def by (metis Inl_Inr_False Inr_inject)+
  then show ?thesis by (simp add: ok_defs has_project_def)
qed

lemma receipt_insert_ok:
  assumes "receipt_insert row d = Inr d'"
  shows "keeps_ok d d'"
proof -
  have "d' = d\<lparr>receipts := receipts d @ [row]\<rparr>" and "rc_id row \<notin> rc_id ` set (receipts d)"
    and "find_receipt d (rc_principal_type row) (rc_principal_id row) (rc_key row) = None"
    and "has_project d (rc_project row)"
    using assms unfolding receipt_insert_def by (metis Inl_Inr_False Inr_inject)+
  then show ?thesis by (simp add: ok_defs has_project_def find_receipt_None_iff)
qed

lemma binding_upsert_ok:
  assumes "binding_upsert row d = Inr d'"
  shows "keeps_ok d d'"
proof -
  have "d' = d\<lparr>bindings := filter (\<lambda>b. b_project b \<noteq> b_project row) (bindings d) @ [row]\<rparr>"
    and "has_project d (b_project row)"
    using assms unfolding binding_upsert_def by (metis Inl_Inr_False Inr_inject)+
  then show ?thesis
    by (simp add: ok_defs has_project_def distinct_map_filter image_iff subset_iff)
       (metis (no_types, lifting))
qed

lemma change_append_ok: "follows keeps_ok (change_append p e t op at)"
  unfolding change_append_def
  by (rule okr.follows_write) (simp add: ok_defs sorted_wrt_append, force)

lemma map_patch [simp]:
  "p_id (patch_row v p row) = p_id row" "p_slug (patch_row v p row) = p_slug row"
  "p_key_prefix (patch_row v p row) = p_key_prefix row" "identity (patch_row v p row) = identity row"
  by (simp_all add: patch_row_def identity_def)

lemma update_lifecycle_ok: "follows keeps_ok (update_lifecycle i v p)"
proof -
  define upd :: "db \<Rightarrow> db" where "upd d = d\<lparr>projects := map (\<lambda>row. if p_id row = i \<and> p_version row = v
      then patch_row v p row else row) (projects d)\<rparr>" for d
  have same: "map f (projects (upd d)) = map f (projects d)"
    if "\<And>row. f (patch_row v p row) = f row" for f :: "project_row \<Rightarrow> string" and d
    using that by (simp add: upd_def)
  then have ids: "map p_id (projects (upd d)) = map p_id (projects d)"
    and slugs: "map p_slug (projects (upd d)) = map p_slug (projects d)"
    and prefixes: "map p_key_prefix (projects (upd d)) = map p_key_prefix (projects d)" for d
    by simp_all
  from ids have "p_id ` set (projects (upd d)) = p_id ` set (projects d)" for d
    by (metis list.set_map)
  moreover have "repositories (upd d) = repositories d" "criteria (upd d) = criteria d"
    "events (upd d) = events d" "receipts (upd d) = receipts d" "bindings (upd d) = bindings d"
    "changes (upd d) = changes d" "last_seq (upd d) = last_seq d" "proposals (upd d) = proposals d"
    "approvals (upd d) = approvals d" "evidence (upd d) = evidence d" "evidence_links (upd d) = evidence_links d" for d
    by (simp_all add: upd_def)
  ultimately have "keeps_ok d (upd d)" for d
    unfolding ok_defs by (simp only: ids slugs prefixes simp_thms)
  then show ?thesis
    by (simp add: follows_def update_lifecycle_def Let_def upd_def)
qed

lemma projects_insert_appends: "projects_insert row d = Inr d' \<Longrightarrow> appends d d'"
  by (auto simp: projects_insert_def appends_def split: if_splits)

lemma repository_insert_appends: "repository_insert row d = Inr d' \<Longrightarrow> appends d d'"
  by (auto simp: repository_insert_def appends_def split: if_splits)

lemma criterion_insert_appends: "criterion_insert row d = Inr d' \<Longrightarrow> appends d d'"
  by (auto simp: criterion_insert_def appends_def split: if_splits)

lemma event_insert_appends: "event_insert row d = Inr d' \<Longrightarrow> appends d d'"
  by (auto simp: event_insert_def appends_def split: if_splits)

lemma receipt_insert_appends: "receipt_insert row d = Inr d' \<Longrightarrow> appends d d'"
  by (auto simp: receipt_insert_def appends_def split: if_splits)

lemma change_append_appends: "follows appends (change_append p e t op at)"
  unfolding change_append_def by (rule app.follows_write) (simp add: appends_def)

lemma update_lifecycle_appends: "follows appends (update_lifecycle i v p)"
  by (auto simp: follows_def update_lifecycle_def Let_def appends_def comp_def if_distrib
      cong: if_cong)

lemma record_event_ok: "follows keeps_ok (record_event env actor ev at)"
  unfolding record_event_def record_change_def
  by (intro okr.follows_basic okr.follows_statement change_append_ok) (rule event_insert_ok)

lemma record_event_appends: "follows appends (record_event env actor ev at)"
  unfolding record_event_def record_change_def
  by (intro app.follows_basic app.follows_statement change_append_appends) (rule event_insert_appends)

section \<open>What recording an event does\<close>

lemma mint_frame:
  "mint_uuid env s = (r, s1) \<Longrightarrow>
     st_db s1 = st_db s \<and> st_txs s1 = st_txs s \<and> st_log s1 = st_log s \<and> st_ticks s1 = st_ticks s"
  by (auto simp: mint_uuid_def random_hex_def tx_bind_def ret_def Let_def
      split: prod.splits sum.splits)

lemma event_insert_Inr: "event_insert row d = Inr d' \<Longrightarrow> d' = d\<lparr>events := events d @ [row]\<rparr>"
  by (simp add: event_insert_def split: if_splits)

text \<open>One event by the actor, one \<open>changed\<close> feed row naming it, and nothing else.\<close>

lemma record_event_effect:
  assumes "record_event env actor ev at s = (Inr r, s')"
  shows "\<exists>payload. json_text env (e_payload ev) = Inr payload \<and>
     st_db s' = (st_db s)\<lparr>
       events := events (st_db s) @ [\<lparr>ev_id = rec_id r, ev_project = e_project ev,
         ev_actor_type = principal_type_str (principal_type (actor_principal actor)),
         ev_actor_id = principal_id (actor_principal actor), ev_type = e_type ev,
         ev_entity_type = e_entity_type ev, ev_entity_id = e_entity_id ev,
         ev_payload = payload, ev_created_at = at\<rparr>],
       last_seq := last_seq (st_db s) + 1,
       changes := changes (st_db s) @ [\<lparr>ch_seq = last_seq (st_db s) + 1, ch_project = e_project ev,
         ch_event = rec_id r, ch_entity_type = e_entity_type ev, ch_op = op_changed,
         ch_created_at = at\<rparr>]\<rparr> \<and>
     rec_local_only r = read_local_only (st_db s) (e_project ev) \<and>
     st_txs s' = st_txs s \<and> st_log s' = st_log s"
proof -
  from assms obtain i s1 payload d where m: "mint_uuid env s = (Inr i, s1)"
    and j: "json_text env (e_payload ev) = Inr payload"
    and d: "event_insert \<lparr>ev_id = i, ev_project = e_project ev,
         ev_actor_type = principal_type_str (principal_type (actor_principal actor)),
         ev_actor_id = principal_id (actor_principal actor), ev_type = e_type ev,
         ev_entity_type = e_entity_type ev, ev_entity_id = e_entity_id ev,
         ev_payload = payload, ev_created_at = at\<rparr> (st_db s1) = Inr d"
    and r: "s' = s1\<lparr>st_db := d\<lparr>last_seq := last_seq d + 1,
       changes := changes d @ [\<lparr>ch_seq = last_seq d + 1, ch_project = e_project ev,
         ch_event = i, ch_entity_type = e_entity_type ev, ch_op = op_changed,
         ch_created_at = at\<rparr>]\<rparr>\<rparr>"
      "r = \<lparr>rec_id = i, rec_local_only = read_local_only (st_db s') (e_project ev)\<rparr>"
    by (auto simp: record_event_def tx_simps record_change_def change_append_def)
  note d = event_insert_Inr [OF d]
  show ?thesis
    using d r j mint_frame [OF m]
    by (intro exI [of _ payload]) (simp add: read_local_only_def find_binding_def)
qed

section \<open>Finding a row by its key\<close>

lemma read_project_Some:
  "read_project d i = Some row \<Longrightarrow> row \<in> set (projects d) \<and> p_id row = i"
  by (auto simp: read_project_def find_Some_iff)

lemma read_project_iff:
  assumes "distinct (map p_id (projects d))"
  shows "read_project d i = Some row \<longleftrightarrow> row \<in> set (projects d) \<and> p_id row = i"
proof
  assume "row \<in> set (projects d) \<and> p_id row = i"
  moreover from this obtain row' where "read_project d i = Some row'"
    by (cases "read_project d i") (auto simp: read_project_def find_None_iff)
  ultimately show "read_project d i = Some row"
    using assms read_project_Some [of d i row'] by (auto simp: distinct_map inj_on_def)
qed (auto dest: read_project_Some)

lemma find_map_key:
  "(\<And>x. k (f x) = k x) \<Longrightarrow> find (\<lambda>x. k x = i) (map f xs) = map_option f (find (\<lambda>x. k x = i) xs)"
  by (induction xs) auto

lemma length_filter_key_le_1:
  "distinct (map k xs) \<Longrightarrow> length (filter (\<lambda>x. k x = i \<and> P x) xs) \<le> 1"
  by (induction xs) (auto simp: filter_empty_conv image_iff)

text \<open>At a version the row holds, the guarded update rewrites that row and answers yes.\<close>

lemma update_lifecycle_hit:
  assumes "distinct (map p_id (projects (st_db s)))" "read_project (st_db s) i = Some row"
    and "p_version row = v"
  shows "update_lifecycle i v patch s = (Inr True,
     s\<lparr>st_db := (st_db s)\<lparr>projects :=
        map (\<lambda>r. if p_id r = i then patch_row v patch r else r) (projects (st_db s))\<rparr>\<rparr>)"
proof -
  let ?ps = "projects (st_db s)"
  have row: "row \<in> set ?ps" "p_id row = i" using read_project_Some [OF assms(2)] by auto
  have only: "r = row" if "r \<in> set ?ps" "p_id r = i" for r
    using that row assms(1) by (auto simp: distinct_map inj_on_def)
  have "map (\<lambda>r. if p_id r = i \<and> p_version r = v then patch_row v patch r else r) ?ps =
        map (\<lambda>r. if p_id r = i then patch_row v patch r else r) ?ps"
    using only assms(3) by auto
  moreover have "length (filter (\<lambda>r. p_id r = i \<and> p_version r = v) ?ps) = 1"
  proof (rule antisym)
    show "length (filter (\<lambda>r. p_id r = i \<and> p_version r = v) ?ps) \<le> 1"
      using assms(1) by (rule length_filter_key_le_1)
    have "row \<in> set (filter (\<lambda>r. p_id r = i \<and> p_version r = v) ?ps)"
      using row assms(3) by simp
    then show "1 \<le> length (filter (\<lambda>r. p_id r = i \<and> p_version r = v) ?ps)"
      by (metis length_greater_0_conv less_one linorder_le_less_linear list.set(1) not_less_zero empty_iff)
  qed
  ultimately show ?thesis by (simp add: update_lifecycle_def Let_def)
qed

end
