(* ===== verification/Project_Receipt.thy ===== *)
theory Project_Receipt
  imports Store_Invariants
begin

text \<open>
  The idempotent-command runner (\<open>src/domains/projects/receipt.rs\<close>): a command's key,
  type and body digest; the one immediate transaction its writes and its receipt commit in; the
  replay of a stored answer; and the telemetry recorded afterwards. The locale
  \<open>receipted_command\<close> is the contract every project mutation relies on, proved once from
  the shape the commands share.
\<close>

section \<open>Transactions\<close>

text \<open>
  \<open>write_transaction\<close> (\<open>src/store/connection.rs\<close>) and its \<open>commit\<close>: the body
  answers whether it commits; an error, no commit or a failed commit rolls the database back.
\<close>

definition write_transaction :: "env \<Rightarrow> (bool \<times> 'a) tx \<Rightarrow> 'a tx" where
  "write_transaction env body s =
     (let k = st_txs s; s0 = s\<lparr>st_txs := Suc k\<rparr>
      in case e_begin env k of
           Inl e \<Rightarrow> (Inl e, s0)
         | Inr _ \<Rightarrow>
             (case body s0 of
                (Inl e, s1) \<Rightarrow> (Inl e, s1\<lparr>st_db := st_db s\<rparr>)
              | (Inr (commits, x), s1) \<Rightarrow>
                  if \<not> commits then (Inr x, s1\<lparr>st_db := st_db s\<rparr>)
                  else (case e_commit env k of
                          Inl e \<Rightarrow> (Inl e, s1\<lparr>st_db := st_db s\<rparr>)
                        | Inr _ \<Rightarrow> (Inr x, s1))))"

section \<open>Keyed commands\<close>

record keyed =
  k_key :: string
  k_command :: string
  k_digest :: string

definition command_digest :: "env \<Rightarrow> string \<Rightarrow> json \<Rightarrow> error + string" where
  "command_digest env command_type body =
     and_then (bytes_and_digest Other (e_to_string env) (e_sha256 env)
                 (JObj [(''commandType'', JStr command_type), (''body'', body)]))
       (\<lambda>(_, digest). Inr digest)"

definition new_keyed :: "env \<Rightarrow> string \<Rightarrow> string \<Rightarrow> json \<Rightarrow> error + keyed" where
  "new_keyed env key command_type body =
     and_then (text_limit ''idempotencyKey'' key 1 idempotency_key_max) (\<lambda>_.
     and_then (command_digest env command_type body) (\<lambda>digest.
     Inr \<lparr>k_key = key, k_command = command_type, k_digest = digest\<rparr>))"

datatype 'r ran = Applied 'r | Replayed 'r

definition unparsable_receipt :: "receipt_row \<Rightarrow> string \<Rightarrow> error" where
  "unparsable_receipt existing e =
     Project (Invariant ''project_command_receipt''
       (''project command receipt '' @ rc_id existing @ '' does not parse: '' @ e))"

definition replay ::
  "env \<Rightarrow> (json \<Rightarrow> 'r option) \<Rightarrow> receipt_row \<Rightarrow> keyed \<Rightarrow> error + 'r" where
  "replay env de existing keyed =
     (if rc_command_type existing \<noteq> k_command keyed \<or> rc_digest existing \<noteq> k_digest keyed
      then Inl (Project IdempotencyConflict)
      else case e_from_str env (rc_response existing) of
             Inl e \<Rightarrow> Inl (unparsable_receipt existing e)
           | Inr v \<Rightarrow> (case de v of
                 None \<Rightarrow> Inl (unparsable_receipt existing (e_data_error env v))
               | Some r \<Rightarrow> Inr r))"

definition actor_type :: "actor \<Rightarrow> string" where
  "actor_type actor = principal_type_str (principal_type (actor_principal actor))"

definition actor_id :: "actor \<Rightarrow> string" where
  "actor_id actor = principal_id (actor_principal actor)"

text \<open>\<open>receipt::run\<close>; \<open>ser\<close> and \<open>de\<close> are the response type's \<open>Serialize\<close> and
  \<open>Deserialize\<close>, and \<open>effect\<close> answers the response and the project it touched.\<close>

definition receipt_run ::
  "env \<Rightarrow> actor \<Rightarrow> keyed \<Rightarrow> ('r \<Rightarrow> json) \<Rightarrow> (json \<Rightarrow> 'r option) \<Rightarrow> ('r \<times> string) tx \<Rightarrow> 'r ran tx" where
  "receipt_run env actor keyed ser de effect =
     write_transaction env (
       tx_bind (reading (\<lambda>d. Inr (find_receipt d (actor_type actor) (actor_id actor) (k_key keyed))))
         (\<lambda>found. case found of
            Some existing \<Rightarrow> tx_bind (lift (replay env de existing keyed)) (\<lambda>r. ret (False, Replayed r))
          | None \<Rightarrow>
              tx_bind effect (\<lambda>(response, project).
              tx_bind (lift (json_text env (ser response))) (\<lambda>text.
              tx_bind (mint_uuid env) (\<lambda>i.
              tx_bind (now_ms env) (\<lambda>at.
              tx_bind (statement (receipt_insert \<lparr>
                rc_id = i, rc_project = project, rc_principal_type = actor_type actor,
                rc_principal_id = actor_id actor, rc_key = k_key keyed,
                rc_command_type = k_command keyed, rc_digest = k_digest keyed,
                rc_response = text, rc_created_at = at\<rparr>)) (\<lambda>_.
              ret (True, Applied response))))))))"

text \<open>\<open>receipt::record\<close>: an applied or failed command leaves a telemetry row, a replay
  none.\<close>

definition receipt_record :: "string \<Rightarrow> ('r \<Rightarrow> json) \<Rightarrow> 'r ran tx \<Rightarrow> 'r tx" where
  "receipt_record command summary m s =
     (case m s of
        (Inr (Replayed r), s') \<Rightarrow> (Inr r, s')
      | (Inr (Applied r), s') \<Rightarrow> (Inr r, s'\<lparr>st_log := st_log s' @ [(command, Inr (summary r))]\<rparr>)
      | (Inl e, s') \<Rightarrow> (Inl e, s'\<lparr>st_log := st_log s' @ [(command, Inl e)]\<rparr>))"

section \<open>Atomicity\<close>

lemma write_transaction_error:
  "write_transaction env body s = (Inl e, s') \<Longrightarrow> st_db s' = st_db s"
  by (auto simp: write_transaction_def Let_def split: sum.splits prod.splits if_splits)

lemma write_transaction_Inr:
  assumes "write_transaction env body s = (Inr x, s')"
  shows "\<exists>commits s1. e_begin env (st_txs s) = Inr () \<and>
     body (s\<lparr>st_txs := Suc (st_txs s)\<rparr>) = (Inr (commits, x), s1) \<and>
     (if commits then s' = s1 \<and> e_commit env (st_txs s) = Inr () else s' = s1\<lparr>st_db := st_db s\<rparr>)"
  using assms by (auto simp: write_transaction_def Let_def split: sum.splits prod.splits if_splits)


context step_relation
begin

lemma follows_transaction:
  assumes "follows R body"
  shows "follows R (write_transaction env body)"
proof -
  have "R (st_db s) (st_db s1)" if "body (s\<lparr>st_txs := Suc (st_txs s)\<rparr>) = (r, s1)" for s r s1
    using followsD [OF assms that] by simp
  then show ?thesis
    by (auto simp: follows_def write_transaction_def Let_def split: sum.splits prod.splits)
qed

lemma follows_receipt_run:
  assumes "follows R effect" "\<And>row d d'. receipt_insert row d = Inr d' \<Longrightarrow> R d d'"
  shows "follows R (receipt_run env actor keyed ser de effect)"
  unfolding receipt_run_def
  by (intro follows_transaction follows_bind follows_reading)
     (auto split: option.splits prod.splits
       intro!: follows_basic follows_statement assms(1) dest: assms(2))

lemma follows_receipt_record: "follows R m \<Longrightarrow> follows R (receipt_record cmd summary m)"
  unfolding follows_def receipt_record_def
  by (simp split: prod.splits sum.splits ran.splits) (metis snd_conv)

end

text \<open>What a first run commits: the effect's writes, then one receipt with its answer.\<close>

lemma now_ms_frame: "now_ms env s = (r, s1) \<Longrightarrow> st_db s1 = st_db s \<and> st_log s1 = st_log s"
  by (auto simp: now_ms_def)

lemma receipt_insert_Inr:
  "receipt_insert row d = Inr d' \<Longrightarrow> d' = d\<lparr>receipts := receipts d @ [row]\<rparr>"
  by (simp add: receipt_insert_def split: if_splits)

lemma receipt_run_applied:
  assumes "receipt_run env actor keyed ser de effect s = (Inr (Applied r), s')"
  shows "\<exists>project s1 answer i at.
     find_receipt (st_db s) (actor_type actor) (actor_id actor) (k_key keyed) = None \<and>
     effect (s\<lparr>st_txs := Suc (st_txs s)\<rparr>) = (Inr (r, project), s1) \<and>
     json_text env (ser r) = Inr answer \<and>
     receipt_insert \<lparr>rc_id = i, rc_project = project, rc_principal_type = actor_type actor,
       rc_principal_id = actor_id actor, rc_key = k_key keyed, rc_command_type = k_command keyed,
       rc_digest = k_digest keyed, rc_response = answer, rc_created_at = at\<rparr> (st_db s1)
       = Inr (st_db s') \<and> st_log s' = st_log s1"
proof -
  let ?s = "s\<lparr>st_txs := Suc (st_txs s)\<rparr>"
  let ?row = "\<lambda>i project answer at. \<lparr>rc_id = i, rc_project = project,
       rc_principal_type = actor_type actor,
       rc_principal_id = actor_id actor, rc_key = k_key keyed, rc_command_type = k_command keyed,
       rc_digest = k_digest keyed, rc_response = answer, rc_created_at = at\<rparr>"
  from write_transaction_Inr [OF assms [unfolded receipt_run_def]] obtain commits s2 where
    body: "find_receipt (st_db s) (actor_type actor) (actor_id actor) (k_key keyed) = None"
      "(if commits then s' = s2 else s' = s2\<lparr>st_db := st_db s\<rparr>)" and
    rest: "tx_bind effect (\<lambda>(response, project).
              tx_bind (lift (json_text env (ser response))) (\<lambda>answer.
              tx_bind (mint_uuid env) (\<lambda>i.
              tx_bind (now_ms env) (\<lambda>at.
              tx_bind (statement (receipt_insert (?row i project answer at))) (\<lambda>_.
              ret (True, Applied response)))))) ?s = (Inr (commits, Applied r), s2)"
    by (auto simp: tx_simps split: option.splits if_splits)
  from rest obtain project s1 answer i s3 at s4 d where
    *: "effect ?s = (Inr (r, project), s1)" "json_text env (ser r) = Inr answer"
      "mint_uuid env s1 = (Inr i, s3)" "now_ms env s3 = (Inr at, s4)"
      "receipt_insert (?row i project answer at) (st_db s4) = Inr d" "s2 = s4\<lparr>st_db := d\<rparr>" "commits"
    by (clarsimp simp: tx_simps split: prod.splits)
  with body mint_frame [OF *(3)] now_ms_frame [OF *(4)] show ?thesis
    by (intro exI [of _ project] exI [of _ s1] exI [of _ answer] exI [of _ i] exI [of _ at]) simp
qed

text \<open>When a receipt already answers the key, nothing runs and nothing is written.\<close>

lemma receipt_run_found:
  assumes "find_receipt (st_db s) (actor_type actor) (actor_id actor) (k_key keyed) = Some existing"
    and "e_begin env (st_txs s) = Inr ()"
  shows "receipt_run env actor keyed ser de effect s =
     (map_sum id Replayed (replay env de existing keyed), s\<lparr>st_txs := Suc (st_txs s)\<rparr>)"
  using assms
  by (cases "replay env de existing keyed")
     (simp_all add: receipt_run_def write_transaction_def Let_def tx_bind_def reading_def lift_def
       ret_def)

lemma receipt_run_begin_fails:
  assumes "e_begin env (st_txs s) = Inl e"
  shows "receipt_run env actor keyed ser de effect s = (Inl e, s\<lparr>st_txs := Suc (st_txs s)\<rparr>)"
  using assms by (simp add: receipt_run_def write_transaction_def Let_def)

lemma receipt_run_effect_fails:
  assumes "find_receipt (st_db s) (actor_type actor) (actor_id actor) (k_key keyed) = None"
    and "e_begin env (st_txs s) = Inr ()"
    and "effect (s\<lparr>st_txs := Suc (st_txs s)\<rparr>) = (Inl e, s1)"
  shows "receipt_run env actor keyed ser de effect s = (Inl e, s1\<lparr>st_db := st_db s\<rparr>)"
  using assms
  by (simp add: receipt_run_def write_transaction_def Let_def tx_bind_def reading_def)

lemma receipt_run_replayed:
  assumes "receipt_run env actor keyed ser de effect s = (Inr (Replayed r), s')"
  shows "st_db s' = st_db s \<and>
     (\<exists>existing. find_receipt (st_db s) (actor_type actor) (actor_id actor) (k_key keyed) = Some existing)"
proof (cases "find_receipt (st_db s) (actor_type actor) (actor_id actor) (k_key keyed)")
  case None
  from write_transaction_Inr [OF assms [unfolded receipt_run_def]] None show ?thesis
    by (auto simp: tx_simps split: prod.splits)
next
  case (Some existing)
  then show ?thesis
    using assms write_transaction_Inr [OF assms [unfolded receipt_run_def]]
    by (auto simp: receipt_run_found)
qed

lemma find_append: "find P (xs @ ys) = (case find P xs of None \<Rightarrow> find P ys | Some x \<Rightarrow> Some x)"
  by (induction xs) auto

lemma find_receipt_append:
  "receipts d' = receipts d @ rows \<Longrightarrow>
     find_receipt d' t i k = (case find_receipt d t i k of
        None \<Rightarrow> find (\<lambda>r. rc_principal_type r = t \<and> rc_principal_id r = i \<and> rc_key r = k) rows
      | Some r \<Rightarrow> Some r)"
  by (simp add: find_receipt_def find_append)

section \<open>The contract of a receipted command\<close>

text \<open>
  A command prepares (every check that needs no store, its key and body digest), then runs its
  effect under the receipt, then records telemetry. \<open>keyed_of\<close> says the key and digest
  depend on the request alone.
\<close>

locale receipted_command =
  fixes env :: env
    and exec :: "actor \<Rightarrow> 'req \<Rightarrow> 'r tx"
    and prepare :: "actor \<Rightarrow> 'req \<Rightarrow> (keyed \<times> 'c) tx"
    and keyed_of :: "'req \<Rightarrow> error + keyed"
    and effect :: "actor \<Rightarrow> 'req \<Rightarrow> 'c \<Rightarrow> ('r \<times> string) tx"
    and ser :: "'r \<Rightarrow> json"
    and de :: "json \<Rightarrow> 'r option"
    and command_name :: "'req \<Rightarrow> string"
    and summary :: "'r \<Rightarrow> json"
  assumes exec_shape: "exec actor req = receipt_record (command_name req) summary
            (tx_bind (prepare actor req) (\<lambda>(keyed, c).
              receipt_run env actor keyed ser de (effect actor req c)))"
    and prepare_pure: "prepare actor req s = (p, s1) \<Longrightarrow> st_db s1 = st_db s \<and> st_log s1 = st_log s"
    and prepare_keyed: "prepare actor req s = (Inr (keyed, c), s1) \<Longrightarrow> keyed_of req = Inr keyed"
    and round_trip: "de (ser r) = Some r"
    and effect_ok: "follows keeps_ok (effect actor req c)"
    and effect_appends: "follows appends (effect actor req c)"
    and effect_receipts: "effect actor req c s = (Inr x, s1) \<Longrightarrow>
      receipts (st_db s1) = receipts (st_db s) \<and> st_log s1 = st_log s"
begin

lemma exec_cases:
  assumes "exec actor req s = (r, s')"
  obtains (refused) e s1 where "r = Inl e" "prepare actor req s = (Inl e, s1)" "st_db s' = st_db s1"
      "st_log s' = st_log s1 @ [(command_name req, Inl e)]"
  | (failed) keyed c s1 e s2 where "r = Inl e" "prepare actor req s = (Inr (keyed, c), s1)"
      "receipt_run env actor keyed ser de (effect actor req c) s1 = (Inl e, s2)"
      "st_db s' = st_db s2" "st_log s' = st_log s2 @ [(command_name req, Inl e)]"
  | (replayed) keyed c s1 x where "r = Inr x" "prepare actor req s = (Inr (keyed, c), s1)"
      "receipt_run env actor keyed ser de (effect actor req c) s1 = (Inr (Replayed x), s')"
  | (applied) keyed c s1 x s2 where "r = Inr x" "prepare actor req s = (Inr (keyed, c), s1)"
      "receipt_run env actor keyed ser de (effect actor req c) s1 = (Inr (Applied x), s2)"
      "st_db s' = st_db s2" "st_log s' = st_log s2 @ [(command_name req, Inr (summary x))]"
  using assms
  by (auto simp: exec_shape receipt_record_def tx_bind_def split: prod.splits sum.splits ran.splits)

lemma failure_changes_nothing:
  assumes "exec actor req s = (Inl e, s')"
  shows "st_db s' = st_db s"
  using assms
proof (cases rule: exec_cases)
  case refused
  then show ?thesis by (auto dest: prepare_pure)
next
  case failed
  then show ?thesis
    using write_transaction_error [OF failed(3) [unfolded receipt_run_def]]
    by (auto dest: prepare_pure)
qed auto

lemma exec_follows:
  assumes R: "step_relation R" and eff: "\<And>c. follows R (effect actor req c)"
    and ins: "\<And>row d d'. receipt_insert row d = Inr d' \<Longrightarrow> R d d'"
  shows "follows R (exec actor req)"
proof -
  have "follows R (prepare actor req)"
    unfolding follows_def by (metis R prepare_pure step_relation.R_refl surjective_pairing)
  then show ?thesis
    unfolding exec_shape
    by (intro step_relation.follows_receipt_record [OF R] step_relation.follows_bind [OF R])
       (auto intro: step_relation.follows_receipt_run [OF R] eff ins split: prod.splits)
qed

lemma exec_ok: "follows keeps_ok (exec actor req)"
  by (rule exec_follows [OF okr.step_relation_axioms effect_ok receipt_insert_ok])

lemma exec_appends: "follows appends (exec actor req)"
  by (rule exec_follows [OF app.step_relation_axioms effect_appends receipt_insert_appends])

text \<open>A first success leaves exactly one receipt more, under the caller's key.\<close>

lemma first_run:
  assumes "exec actor req s = (Inr x, s')" "keyed_of req = Inr keyed"
    and "find_receipt (st_db s) (actor_type actor) (actor_id actor) (k_key keyed) = None"
  shows "\<exists>row. receipts (st_db s') = receipts (st_db s) @ [row] \<and>
     rc_principal_type row = actor_type actor \<and> rc_principal_id row = actor_id actor \<and>
     rc_key row = k_key keyed \<and> rc_command_type row = k_command keyed \<and>
     rc_digest row = k_digest keyed \<and> json_text env (ser x) = Inr (rc_response row) \<and>
     st_log s' = st_log s @ [(command_name req, Inr (summary x))]"
  using assms(1)
proof (cases rule: exec_cases)
  case (replayed keyed' c s1 y)
  then show ?thesis
    using assms(2,3) receipt_run_replayed [OF replayed(3)] prepare_keyed [OF replayed(2)]
      prepare_pure [OF replayed(2)] by auto
next
  case (applied keyed' c s1 y s2)
  have [simp]: "keyed' = keyed" using prepare_keyed [OF applied(2)] assms(2) by simp
  from receipt_run_applied [OF applied(3)] obtain project s3 answer i at where
    eff: "effect actor req c (s1\<lparr>st_txs := Suc (st_txs s1)\<rparr>) = (Inr (y, project), s3)"
    and answer: "json_text env (ser y) = Inr answer" and log: "st_log s2 = st_log s3"
    and ins: "receipt_insert \<lparr>rc_id = i, rc_project = project, rc_principal_type = actor_type actor,
       rc_principal_id = actor_id actor, rc_key = k_key keyed, rc_command_type = k_command keyed,
       rc_digest = k_digest keyed, rc_response = answer, rc_created_at = at\<rparr> (st_db s3)
       = Inr (st_db s2)" by auto
  have "receipts (st_db s3) = receipts (st_db s)" "st_log s3 = st_log s"
    using effect_receipts [OF eff] prepare_pure [OF applied(2)] by auto
  then show ?thesis
    using receipt_insert_Inr [OF ins] applied answer log by simp
qed auto

text \<open>Once a command has succeeded, its receipt answers it.\<close>

lemma answered:
  assumes "exec actor req s = (Inr x, s')" "\<And>v t. e_to_string env v = Inr t \<Longrightarrow> e_from_str env t = Inr v"
  shows "\<exists>keyed row. keyed_of req = Inr keyed \<and>
     find_receipt (st_db s') (actor_type actor) (actor_id actor) (k_key keyed) = Some row \<and>
     replay env de row keyed = Inr x"
  using assms(1)
proof (cases rule: exec_cases)
  case (replayed keyed c s1 y)
  note run = replayed(3)
  from receipt_run_replayed [OF run] obtain row where
    row: "find_receipt (st_db s1) (actor_type actor) (actor_id actor) (k_key keyed) = Some row"
    and same: "st_db s' = st_db s1" by blast
  have begin_ok: "e_begin env (st_txs s1) = Inr ()"
    using write_transaction_Inr [OF run [unfolded receipt_run_def]] by blast
  have "replay env de row keyed = Inr x"
    using run replayed(1) receipt_run_found [OF row begin_ok, of ser de "effect actor req c"]
    by (cases "replay env de row keyed") auto
  with row same prepare_keyed [OF replayed(2)] show ?thesis by auto
next
  case (applied keyed c s1 y s2)
  from receipt_run_applied [OF applied(3)] obtain project s3 answer i at where
    free: "find_receipt (st_db s1) (actor_type actor) (actor_id actor) (k_key keyed) = None"
    and eff: "effect actor req c (s1\<lparr>st_txs := Suc (st_txs s1)\<rparr>) = (Inr (y, project), s3)"
    and answer: "json_text env (ser y) = Inr answer"
    and ins: "receipt_insert \<lparr>rc_id = i, rc_project = project, rc_principal_type = actor_type actor,
       rc_principal_id = actor_id actor, rc_key = k_key keyed, rc_command_type = k_command keyed,
       rc_digest = k_digest keyed, rc_response = answer, rc_created_at = at\<rparr> (st_db s3)
       = Inr (st_db s2)" by blast
  let ?row = "\<lparr>rc_id = i, rc_project = project, rc_principal_type = actor_type actor,
       rc_principal_id = actor_id actor, rc_key = k_key keyed, rc_command_type = k_command keyed,
       rc_digest = k_digest keyed, rc_response = answer, rc_created_at = at\<rparr>"
  have "receipts (st_db s3) = receipts (st_db s1)" using effect_receipts [OF eff] by simp
  then have "receipts (st_db s') = receipts (st_db s1) @ [?row]"
    using receipt_insert_Inr [OF ins] applied(4) by simp
  then have "find_receipt (st_db s') (actor_type actor) (actor_id actor) (k_key keyed) = Some ?row"
    using free by (simp add: find_receipt_append)
  moreover have "replay env de ?row keyed = Inr x"
    using answer assms(2) applied(1)
    by (auto simp: replay_def json_text_def round_trip split: sum.splits)
  ultimately show ?thesis using prepare_keyed [OF applied(2)] by blast
qed auto

text \<open>From then on every request with the same key and digest answers the same and writes
  nothing; the retried command above all.\<close>

lemma retry_as:
  assumes "exec actor req s = (Inr x, s')" "\<And>v t. e_to_string env v = Inr t \<Longrightarrow> e_from_str env t = Inr v"
    and "appends (st_db s') (st_db u)" "keyed_of req' = keyed_of req"
    and "prepare actor req' u = (Inr (keyed, c), u1)" "e_begin env (st_txs u1) = Inr ()"
  shows "\<exists>u'. exec actor req' u = (Inr x, u') \<and> st_db u' = st_db u \<and> st_log u' = st_log u"
proof -
  from answered [OF assms(1,2)] prepare_keyed [OF assms(5)] assms(4) obtain row where
    row: "find_receipt (st_db s') (actor_type actor) (actor_id actor) (k_key keyed) = Some row"
    and rep: "replay env de row keyed = Inr x" by auto
  have pure: "st_db u1 = st_db u" "st_log u1 = st_log u" using prepare_pure [OF assms(5)] by auto
  from row assms(3) have
    "find_receipt (st_db u1) (actor_type actor) (actor_id actor) (k_key keyed) = Some row"
    by (auto simp: pure appends_def prefix_def find_receipt_append)
  from receipt_run_found [OF this assms(6), of ser de "effect actor req' c"] rep pure assms(5)
  show ?thesis by (simp add: exec_shape receipt_record_def tx_bind_def)
qed

lemma retry:
  assumes "exec actor req s = (Inr x, s')" "\<And>v t. e_to_string env v = Inr t \<Longrightarrow> e_from_str env t = Inr v"
    and "appends (st_db s') (st_db u)"
    and "prepare actor req u = (Inr (keyed, c), u1)" "e_begin env (st_txs u1) = Inr ()"
  shows "\<exists>u'. exec actor req u = (Inr x, u') \<and> st_db u' = st_db u \<and> st_log u' = st_log u"
  by (rule retry_as [OF assms(1-3) refl assms(4,5)])

text \<open>A key another command holds refuses, and writes nothing.\<close>

lemma key_reused:
  assumes "find_receipt (st_db u) (actor_type actor) (actor_id actor) (k_key keyed) = Some row"
    and "rc_command_type row \<noteq> k_command keyed \<or> rc_digest row \<noteq> k_digest keyed"
    and "prepare actor req u = (Inr (keyed, c), u1)" "e_begin env (st_txs u1) = Inr ()"
  shows "\<exists>u'. exec actor req u = (Inl (Project IdempotencyConflict), u') \<and> st_db u' = st_db u"
proof -
  have pure: "st_db u1 = st_db u" using prepare_pure [OF assms(3)] by auto
  with assms(1) have
    "find_receipt (st_db u1) (actor_type actor) (actor_id actor) (k_key keyed) = Some row" by simp
  from receipt_run_found [OF this assms(4), of ser de "effect actor req c"] assms(2,3) pure
  show ?thesis by (auto simp: exec_shape receipt_record_def tx_bind_def replay_def)
qed

text \<open>The same over whole histories: what a first success leaves, what a retry answers when its
  checks can pass again, and what any other request under the key is told.\<close>

lemma prepared:
  "exec actor req s = (Inr x, s') \<Longrightarrow> \<exists>p s1. prepare actor req s = (Inr p, s1)"
  by (elim exec_cases) auto

lemma receipt_kept:
  assumes "exec actor req s = (Inr x, s')" "\<And>v t. e_to_string env v = Inr t \<Longrightarrow> e_from_str env t = Inr v"
    and "keyed_of req = Inr keyed"
  shows "\<exists>row. find_receipt (st_db s') (actor_type actor) (actor_id actor) (k_key keyed) = Some row \<and>
     rc_command_type row = k_command keyed \<and> rc_digest row = k_digest keyed"
  using answered [OF assms(1,2)] assms(3) by (auto simp: replay_def split: if_splits)

lemma retry_again:
  assumes "exec actor req s = (Inr x, s')" "\<And>v t. e_to_string env v = Inr t \<Longrightarrow> e_from_str env t = Inr v"
    and "appends (st_db s') (st_db u)" "\<And>k. e_begin env k = Inr ()"
    and "\<And>p s1. prepare actor req s = (Inr p, s1) \<Longrightarrow> \<exists>p' u1. prepare actor req u = (Inr p', u1)"
  shows "\<exists>u'. exec actor req u = (Inr x, u') \<and> st_db u' = st_db u \<and> st_log u' = st_log u"
proof -
  obtain keyed c u1 where "prepare actor req u = (Inr (keyed, c), u1)"
    using prepared [OF assms(1)] assms(5) by (metis surj_pair)
  from retry [OF assms(1-3) this assms(4)] show ?thesis .
qed

lemma key_taken:
  assumes "find_receipt (st_db u) (actor_type actor) (actor_id actor) (k_key keyed) = Some row"
    and "rc_command_type row \<noteq> k_command keyed \<or> rc_digest row \<noteq> k_digest keyed"
    and "keyed_of req = Inr keyed" "\<And>k. e_begin env k = Inr ()"
  shows "\<exists>e u'. exec actor req u = (Inl e, u') \<and> st_db u' = st_db u \<and>
     (\<not> isl (fst (prepare actor req u)) \<longrightarrow> e = Project IdempotencyConflict)"
proof (cases "prepare actor req u")
  case (Pair r u1)
  show ?thesis
  proof (cases r)
    case (Inl e)
    then show ?thesis using Pair prepare_pure [OF Pair]
      by (simp add: exec_shape receipt_record_def tx_bind_def)
  next
    case (Inr p)
    obtain k c where p: "p = (k, c)" by (cases p)
    then have prep: "prepare actor req u = (Inr (keyed, c), u1)"
      using Pair Inr prepare_keyed [of actor req u k c u1] assms(3) by simp
    from key_reused [OF assms(1,2) prep assms(4)] show ?thesis by blast
  qed
qed

end

section \<open>Properties\<close>

text \<open>A retry is recognised by what it says, not by how it is spelled: two command bodies that
  differ only in the order of the members of their objects, at any depth, have the same
  digest, so the receipt of one answers the other.\<close>

theorem digest_ignores_member_order:
  assumes "same_members body body'" "keys_distinct body"
  shows "command_digest env command_type body = command_digest env command_type body' \<and>
     new_keyed env key command_type body = new_keyed env key command_type body'"
proof -
  have "sort_value body = sort_value body'" using sort_value_same_members [OF assms] .
  then have "command_digest env command_type body = command_digest env command_type body'"
    by (simp add: command_digest_def bytes_and_digest_def to_bytes_def)
  then show ?thesis by (simp add: new_keyed_def)
qed

theorem digest_ignores_member_order_witness:
  "\<forall>env. command_digest env ''project.create'' (JObj [(''name'', JStr ''a''), (''id'', JNull)]) =
     command_digest env ''project.create'' (JObj [(''id'', JNull), (''name'', JStr ''a'')])"
proof
  fix env
  let ?v = "JObj [(''name'', JStr ''a''), (''id'', JNull)]" and ?w = "JObj [(''id'', JNull), (''name'', JStr ''a'')]"
  have "same_members ?v ?w"
    by (rule same_obj [where kvs' = "[(''id'', JNull), (''name'', JStr ''a'')]"]) (auto intro: same_refl)
  moreover have "keys_distinct ?v" by simp
  ultimately show "command_digest env ''project.create'' ?v = command_digest env ''project.create'' ?w"
    using digest_ignores_member_order by blast
qed

end
