(* ===== verification/Store_Progress.thy ===== *)
theory Store_Progress
  imports Project_Receipt "HOL-Library.Countable"
begin

text \<open>
  When the statements succeed: under an environment whose services answer, on rows that break
  no constraint. And one concrete environment, the \<open>serde_json\<close> codec played by an
  enumeration of all JSON values, on which the properties are exercised.
\<close>

section \<open>Services that answer\<close>

definition env_total :: "env \<Rightarrow> bool" where
  "env_total env \<longleftrightarrow>
     (\<forall>k n. \<exists>bytes. e_urandom env k n = Inr bytes) \<and>
     (\<forall>ns. \<exists>t. e_render env ns = Some t) \<and>
     (\<forall>v. \<exists>t. e_to_string env v = Inr t) \<and>
     (\<forall>k. e_begin env k = Inr ()) \<and> (\<forall>k. e_commit env k = Inr ())"

text \<open>The documented contract of \<open>serde_json\<close>: text it wrote reads back as the value.\<close>

definition codec_ok :: "env \<Rightarrow> bool" where
  "codec_ok env \<longleftrightarrow> (\<forall>v t. e_to_string env v = Inr t \<longrightarrow> e_from_str env t = Inr v)"

lemma codec_okD: "codec_ok env \<Longrightarrow> e_to_string env v = Inr t \<Longrightarrow> e_from_str env t = Inr v"
  by (simp add: codec_ok_def)

text \<open>Every id the random source will still answer is new to the database.\<close>

definition fresh_ids :: "env \<Rightarrow> db \<Rightarrow> bool" where
  "fresh_ids env d \<longleftrightarrow>
     (\<forall>k bytes. e_urandom env k 16 = Inr bytes \<longrightarrow>
        new_v4 (hex_of_bytes bytes) \<notin> ev_id ` set (events d) \<union> rc_id ` set (receipts d))"

lemma json_text_total: "env_total env \<Longrightarrow> \<exists>t. json_text env v = Inr t"
  unfolding env_total_def json_text_def by (metis old.sum.simps(6))

lemma mint_total:
  "env_total env \<Longrightarrow> \<exists>i. mint_uuid env s = (Inr i, s\<lparr>st_draws := Suc (st_draws s)\<rparr>) \<and>
     (\<exists>bytes. e_urandom env (st_draws s) 16 = Inr bytes \<and> i = new_v4 (hex_of_bytes bytes))"
proof -
  assume "env_total env"
  then obtain bytes where "e_urandom env (st_draws s) 16 = Inr bytes"
    unfolding env_total_def by blast
  then show ?thesis
    by (simp add: mint_uuid_def random_hex_def tx_bind_def ret_def Let_def)
qed

lemma rendered_total: "env_total env \<Longrightarrow> \<exists>t. rendered env ms i col = Inr t"
  unfolding env_total_def rendered_def ok_or_def iso_def by (metis option.simps(5))

lemma project_to_view_total:
  assumes "env_total env"
  shows "\<exists>v. project_to_view env row repos crits = Inr v"
proof -
  have opt: "\<exists>t. transpose_opt (\<lambda>ms. rendered env ms i col) x = Inr t" for i col x
  proof (cases x)
    case (Some ms)
    then show ?thesis
      using rendered_total [OF assms, of ms i col] by (auto simp: transpose_opt_def)
  qed (simp add: transpose_opt_def)
  from opt obtain td where td: "transpose_opt (\<lambda>ms. rendered env ms (p_id row) ''projects.target_date'')
      (p_target_date row) = Inr td" by blast
  from opt obtain aa where aa: "transpose_opt (\<lambda>ms. rendered env ms (p_id row) ''projects.archived_at'')
      (p_archived_at row) = Inr aa" by blast
  from rendered_total [OF assms] obtain ca ua where
    "rendered env (p_created_at row) (p_id row) ''projects.created_at'' = Inr ca"
    "rendered env (p_updated_at row) (p_id row) ''projects.updated_at'' = Inr ua" by metis
  with td aa show ?thesis by (simp add: project_to_view_def)
qed

lemma written_total:
  assumes "env_total env" "read_project d i = Some row"
  shows "\<exists>v. written env d i cmd = Inr v"
proof -
  obtain v where "load_views env d [row] = Inr [v]"
    using project_to_view_total [OF assms(1)]
    unfolding load_views_def Let_def load_rows.simps by (metis and_then.simps(2))
  with assms(2) show ?thesis by (simp add: written_def transpose_opt_def)
qed

lemma record_event_total:
  assumes "env_total env" "has_project (st_db s) (e_project ev)" "fresh_ids env (st_db s)"
  shows "\<exists>r s'. record_event env actor ev at s = (Inr r, s')"
proof -
  from mint_total [OF assms(1)] obtain i bytes where
    i: "mint_uuid env s = (Inr i, s\<lparr>st_draws := Suc (st_draws s)\<rparr>)"
      "e_urandom env (st_draws s) 16 = Inr bytes" "i = new_v4 (hex_of_bytes bytes)" by blast
  then have "i \<notin> ev_id ` set (events (st_db s))" using assms(3) by (auto simp: fresh_ids_def)
  moreover obtain t where "json_text env (e_payload ev) = Inr t"
    using json_text_total [OF assms(1)] by blast
  ultimately show ?thesis
    using assms(2) i(1)
    by (simp add: record_event_def tx_bind_def lift_def statement_def event_insert_def
        record_change_def change_append_def write_db_def reading_def ret_def)
qed

lemma receipt_run_total:
  assumes env: "env_total env"
    and free: "find_receipt (st_db s) (actor_type actor) (actor_id actor) (k_key keyed) = None"
    and eff: "effect (s\<lparr>st_txs := Suc (st_txs s)\<rparr>) = (Inr (x, project), s1)"
    and same: "receipts (st_db s1) = receipts (st_db s)"
    and here: "has_project (st_db s1) project" and fresh: "fresh_ids env (st_db s)"
  shows "\<exists>s'. receipt_run env actor keyed ser de effect s = (Inr (Applied x), s')"
proof -
  from mint_total [OF env, of s1] obtain i bytes where
    i: "mint_uuid env s1 = (Inr i, s1\<lparr>st_draws := Suc (st_draws s1)\<rparr>)"
      "e_urandom env (st_draws s1) 16 = Inr bytes" "i = new_v4 (hex_of_bytes bytes)" by blast
  have new: "i \<notin> rc_id ` set (receipts (st_db s))" using fresh i by (auto simp: fresh_ids_def)
  obtain t where "json_text env (ser x) = Inr t" using json_text_total [OF env] by blast
  moreover have "find_receipt (st_db s1) (actor_type actor) (actor_id actor) (k_key keyed) = None"
    using free same by (simp add: find_receipt_def)
  moreover have "e_begin env k = Inr ()" "e_commit env k = Inr ()" for k
    using env by (auto simp: env_total_def)
  ultimately show ?thesis
    using free eff i(1) new here same
    by (simp add: receipt_run_def write_transaction_def tx_bind_def reading_def lift_def ret_def
        now_ms_def statement_def receipt_insert_def)
qed

section \<open>A concrete environment\<close>

instance json :: countable
  by countable_datatype

definition demo_text :: "json \<Rightarrow> string" where
  "demo_text v = show_nat (to_nat v)"

definition demo_env :: env where
  "demo_env = \<lparr>
     e_urandom = (\<lambda>k n. Inr (replicate n (word_of_nat k))),
     e_clock = (\<lambda>k. 1000000 * int k),
     e_render = (\<lambda>ns. Some (show_int ns)),
     e_date = (\<lambda>_. None), e_rfc3339 = (\<lambda>_. None), e_lower = id,
     e_to_string = (\<lambda>v. Inr (demo_text v)),
     e_from_str = (\<lambda>t. Inr (from_nat (parse_digits t))),
     e_data_error = (\<lambda>_. ''data''), e_sha256 = (\<lambda>t. t),
     e_begin = (\<lambda>_. Inr ()), e_commit = (\<lambda>_. Inr ())\<rparr>"

lemma demo_total: "env_total demo_env"
  by (simp add: env_total_def demo_env_def)

lemma demo_codec: "codec_ok demo_env"
  by (auto simp: codec_ok_def demo_env_def demo_text_def parse_show_nat)

lemma demo_to_string [simp]: "e_to_string demo_env v = Inr (demo_text v)"
  by (simp add: demo_env_def)

lemma demo_json_text [simp]: "json_text demo_env v = Inr (demo_text v)"
  by (simp add: json_text_def demo_env_def)

lemma demo_begin [simp]: "e_begin demo_env k = Inr ()"
  by (simp add: demo_env_def)

text \<open>The demo's environment with a short text for one value, so that an operation list fits the
  cap on its bytes.\<close>

definition brief_env :: "json \<Rightarrow> env" where
  "brief_env w = demo_env\<lparr>
     e_to_string := (\<lambda>v. Inr (if v = w then [] else demo_text v)),
     e_from_str := (\<lambda>t. Inr (if t = [] then w else from_nat (parse_digits t)))\<rparr>"

lemma brief_env_simps [simp]:
  "e_to_string (brief_env w) v = Inr (if v = w then [] else demo_text v)"
  "e_urandom (brief_env w) = e_urandom demo_env" "e_clock (brief_env w) = e_clock demo_env"
  "e_begin (brief_env w) = e_begin demo_env"
  by (simp_all add: brief_env_def)

lemma brief_total: "env_total (brief_env w)"
  using demo_total by (simp add: env_total_def brief_env_def)

lemma brief_codec: "codec_ok (brief_env w)"
  by (simp add: codec_ok_def brief_env_def demo_text_def)

definition empty_db :: db where
  "empty_db = \<lparr>projects = [], repositories = [], criteria = [], events = [], receipts = [],
     changes = [], last_seq = 0, bindings = [], milestones = [], work_items = [],
     dependencies = [], proposals = [], approvals = [], evidence = [], evidence_links = []\<rparr>"

definition st_of :: "db \<Rightarrow> st" where
  "st_of d = \<lparr>st_db = d, st_draws = 0, st_ticks = 0, st_txs = 0, st_log = []\<rparr>"

lemma st_of_simps [simp]: "st_db (st_of d) = d" "st_txs (st_of d) = 0"
  by (simp_all add: st_of_def)

definition demo_actor :: actor where
  "demo_actor = \<lparr>actor_principal = new_principal User ''local-operator''\<rparr>"

text \<open>A data directory with one active project.\<close>

definition demo_id :: string where
  "demo_id = ''0123abcd-0000-4000-8000-00000000000a''"

definition demo_project :: project_row where
  "demo_project = \<lparr>
     p_id = demo_id, p_slug = ''engine'', p_key_prefix = ''ENG'', p_name = ''Engine'',
     p_outcome = ''Ship'', p_constraints = demo_text (JArr []), p_non_goals = demo_text (JArr []),
     p_status = ''active'', p_health = ''unknown'', p_lead_type = ''user'',
     p_lead_id = ''local-operator'', p_target_date = None, p_plan_version = 0, p_version = 3,
     p_completion_policy = ''manual'', p_creator_type = ''user'',
     p_creator_id = ''local-operator'', p_created_at = 5, p_updated_at = 9,
     p_archived_at = None\<rparr>"

definition demo_db :: db where
  "demo_db = empty_db\<lparr>projects := [demo_project]\<rparr>"

lemma demo_id_canonical [simp]: "canonical_uuid demo_id = Some demo_id"
  unfolding demo_id_def by code_simp

lemma demo_db_ok: "db_ok demo_db"
  by (simp add: db_ok_def unique_ok_def references_ok_def feed_ok_def demo_db_def empty_db_def)

lemma demo_fresh: "events d = [] \<Longrightarrow> receipts d = [] \<Longrightarrow> fresh_ids demo_env d"
  by (simp add: fresh_ids_def)

lemma demo_read [simp]: "read_project demo_db demo_id = Some demo_project"
  by (simp add: read_project_def demo_db_def demo_project_def)

end
