(* ===== verification/Project_Create.thy ===== *)
theory Project_Create
  imports Store_Progress
begin

text \<open>
  Creating a draft project (\<open>src/domains/projects/create.rs\<close>, \<open>charter.rs\<close>): the charter
  checks in the platform's field order, the slug retry loop on real unique-index collisions,
  and the one transaction that writes the project, its repositories, its project-level criteria
  and one \<open>project.created\<close> event.
\<close>

section \<open>The request and the charter\<close>

record create_request =
  cr_id :: "string option"
  cr_key :: string
  cr_name :: string
  cr_key_prefix :: string
  cr_outcome :: string
  cr_success_criteria :: "string list"
  cr_constraints :: "string list"
  cr_non_goals :: "string list"
  cr_repositories :: "string list"
  cr_lead :: "string option"
  cr_target_date :: "string option"

record charter =
  h_id :: string
  h_name :: string
  h_key_prefix :: string
  h_outcome :: string
  h_success_criteria :: "string list"
  h_constraints :: "string list"
  h_non_goals :: "string list"
  h_repositories :: "string list"
  h_lead :: principal
  h_target_date :: "int option"

text \<open>Each entry canonical after trimming, de-duplicated in first-seen order.\<close>

fun repositories_loop :: "nat \<Rightarrow> string list \<Rightarrow> string list \<Rightarrow> error + string list" where
  "repositories_loop i out [] = Inr out"
| "repositories_loop i out (entry # rest) =
     and_then (ok_or (canonical_github_name (trim entry))
                 (invariant_refusal (''repositories.'' @ show_nat i) ''invalid_format'')) (\<lambda>canonical.
     repositories_loop (Suc i) (if canonical \<in> set out then out else out @ [canonical]) rest)"

definition charter_repositories :: "string list \<Rightarrow> error + string list" where
  "charter_repositories raw =
     (if repositories_max < length raw
      then Inl (Project (over_limit ''repositories'' ''too_many'' repositories_max))
      else repositories_loop 0 [] raw)"

text \<open>\<open>charter::validate\<close>; a missing id is minted before any other check.\<close>

definition charter_id :: "env \<Rightarrow> create_request \<Rightarrow> string tx" where
  "charter_id env req =
     (case cr_id req of
        Some raw \<Rightarrow> lift (ok_or (canonical_uuid raw) (invariant_refusal ''id'' ''invalid_format''))
      | None \<Rightarrow> mint_uuid env)"

definition charter_lead :: "create_request \<Rightarrow> principal \<Rightarrow> error + principal" where
  "charter_lead req actor =
     (case cr_lead req of
        Some lead \<Rightarrow> and_then (text_limit ''leadUserId'' lead 1 usize_max) (\<lambda>_.
                       Inr (new_principal User lead))
      | None \<Rightarrow> Inr (new_principal User (principal_id actor)))"

definition charter_checks :: "env \<Rightarrow> create_request \<Rightarrow> principal \<Rightarrow> string \<Rightarrow> error + charter" where
  "charter_checks env req actor i =
     and_then (text_limit ''name'' (cr_name req) 1 name_max) (\<lambda>_.
     and_then (check_key_prefix (cr_key_prefix req)) (\<lambda>_.
     and_then (text_limit ''outcome'' (cr_outcome req) 1 outcome_max) (\<lambda>_.
     and_then (list_limit ''successCriteria'' (cr_success_criteria req) criteria_max
                 criterion_description_max) (\<lambda>_.
     and_then (list_limit ''constraints'' (cr_constraints req) constraints_max_count constraint_max) (\<lambda>_.
     and_then (list_limit ''nonGoals'' (cr_non_goals req) non_goals_max_count constraint_max) (\<lambda>_.
     and_then (charter_repositories (cr_repositories req)) (\<lambda>repos.
     and_then (charter_lead req actor) (\<lambda>lead.
     and_then (transpose_opt (parse_target_date env) (cr_target_date req)) (\<lambda>target_date.
     Inr \<lparr>h_id = i, h_name = cr_name req, h_key_prefix = cr_key_prefix req,
          h_outcome = cr_outcome req, h_success_criteria = cr_success_criteria req,
          h_constraints = cr_constraints req, h_non_goals = cr_non_goals req,
          h_repositories = repos, h_lead = lead, h_target_date = target_date\<rparr>)))))))))"

definition charter_validate :: "env \<Rightarrow> create_request \<Rightarrow> principal \<Rightarrow> charter tx" where
  "charter_validate env req actor =
     tx_bind (charter_id env req) (\<lambda>i. lift (charter_checks env req actor i))"

section \<open>Writing the project\<close>

definition max_slug_attempts :: nat where "max_slug_attempts = 25"

definition key_prefix_duplicate :: error where
  "key_prefix_duplicate =
     Project (at_edge (invalid_field ''keyPrefix'' ''duplicate'') EdgeInvariant
       (Some ''keyPrefix is already used in this workspace''))"

definition slug_exhausted :: error where
  "slug_exhausted =
     Project (at_edge (invalid_field ''name'' ''slug_exhausted'') EdgeInvariant
       (Some ''Could not derive a unique project slug''))"

fun slug_attempts :: "new_project \<Rightarrow> string \<Rightarrow> nat list \<Rightarrow> string tx" where
  "slug_attempts project base [] = lift (Inl slug_exhausted)"
| "slug_attempts project base (attempt # rest) =
     (let slug = disambiguate base attempt
      in tx_bind (insert_project (project\<lparr>np_slug := slug\<rparr>)) (\<lambda>outcome.
           case outcome of
             Inserted \<Rightarrow> ret slug
           | SlugTaken \<Rightarrow> slug_attempts project base rest
           | KeyPrefixTaken \<Rightarrow> lift (Inl key_prefix_duplicate)
           | IdTaken \<Rightarrow> lift (Inl (invariant_refusal ''id'' ''duplicate''))))"

definition insert_with_unique_slug :: "env \<Rightarrow> new_project \<Rightarrow> string tx" where
  "insert_with_unique_slug env project =
     slug_attempts project (base_slug (e_lower env) (np_name project)) [0..<max_slug_attempts]"

definition write_relations :: "env \<Rightarrow> new_project \<Rightarrow> charter \<Rightarrow> unit tx" where
  "write_relations env project charter =
     tx_bind (tx_traverse (\<lambda>description. tx_bind (mint_uuid env) (\<lambda>i. ret (i, description)))
                (h_success_criteria charter)) (\<lambda>crits.
     insert_relations project (h_repositories charter) crits)"

definition created_event :: "charter \<Rightarrow> event" where
  "created_event charter = \<lparr>
     e_project = h_id charter, e_type = ''project.created'', e_entity_type = ''project'',
     e_entity_id = h_id charter,
     e_payload = JObj
       [(''name'', JStr (h_name charter)), (''keyPrefix'', JStr (h_key_prefix charter)),
        (''repositoryCount'', JInt (int (length (h_repositories charter)))),
        (''criteriaCount'', JInt (int (length (h_success_criteria charter))))]\<rparr>"

definition charter_project :: "actor \<Rightarrow> charter \<Rightarrow> string \<Rightarrow> string \<Rightarrow> int \<Rightarrow> new_project" where
  "charter_project actor charter constraints non_goals at = \<lparr>
     np_id = h_id charter, np_slug = [], np_key_prefix = h_key_prefix charter,
     np_name = h_name charter, np_outcome = h_outcome charter, np_constraints = constraints,
     np_non_goals = non_goals, np_lead_type = principal_type_str (principal_type (h_lead charter)),
     np_lead_id = principal_id (h_lead charter), np_target_date = h_target_date charter,
     np_creator_type = actor_type actor, np_creator_id = actor_id actor, np_at = at\<rparr>"

record create_response =
  cres_project :: project_view

definition create_response_json :: "create_response \<Rightarrow> json" where
  "create_response_json r = JObj [(''project'', view_json (cres_project r))]"

definition create_response_of_json :: "json \<Rightarrow> create_response option" where
  "create_response_of_json j =
     Option.bind (struct_fields [''project''] j) (\<lambda>get.
     Option.bind (field view_of_json get ''project'') (\<lambda>project.
     Some \<lparr>cres_project = project\<rparr>))"

definition create_write :: "env \<Rightarrow> actor \<Rightarrow> charter \<Rightarrow> create_response tx" where
  "create_write env actor charter =
     tx_bind (now_ms env) (\<lambda>at.
     tx_bind (lift (json_text env (json_ids (h_constraints charter)))) (\<lambda>constraints.
     tx_bind (lift (json_text env (json_ids (h_non_goals charter)))) (\<lambda>non_goals.
     let project = charter_project actor charter constraints non_goals at
     in tx_bind (insert_with_unique_slug env project) (\<lambda>slug.
        tx_bind (write_relations env (project\<lparr>np_slug := slug\<rparr>) charter) (\<lambda>_.
        tx_bind (record_event env actor (created_event charter) at) (\<lambda>_.
        tx_bind (reading (\<lambda>d. written env d (h_id charter) ''creation'')) (\<lambda>view.
        ret \<lparr>cres_project = view\<rparr>)))))))"

section \<open>The command\<close>

definition create_digest_body :: "create_request \<Rightarrow> json" where
  "create_digest_body req = JObj
     [(''id'', json_opt (cr_id req)), (''name'', JStr (cr_name req)),
      (''keyPrefix'', JStr (cr_key_prefix req)), (''outcome'', JStr (cr_outcome req)),
      (''successCriteria'', json_ids (cr_success_criteria req)),
      (''constraints'', json_ids (cr_constraints req)), (''nonGoals'', json_ids (cr_non_goals req)),
      (''repositories'', json_ids (cr_repositories req)), (''leadUserId'', json_opt (cr_lead req)),
      (''targetDate'', json_opt (cr_target_date req))]"

definition create_keyed :: "env \<Rightarrow> create_request \<Rightarrow> error + keyed" where
  "create_keyed env req = new_keyed env (cr_key req) ''project.create'' (create_digest_body req)"

definition create_prepare :: "env \<Rightarrow> actor \<Rightarrow> create_request \<Rightarrow> (keyed \<times> charter) tx" where
  "create_prepare env actor req =
     tx_bind (lift (create_keyed env req)) (\<lambda>keyed.
     tx_bind (charter_validate env req (actor_principal actor)) (\<lambda>charter.
     ret (keyed, charter)))"

definition create_effect ::
  "env \<Rightarrow> actor \<Rightarrow> create_request \<Rightarrow> charter \<Rightarrow> (create_response \<times> string) tx" where
  "create_effect env actor req charter =
     tx_bind (create_write env actor charter) (\<lambda>response. ret (response, h_id charter))"

definition create_summary :: "create_response \<Rightarrow> json" where
  "create_summary r =
     JObj [(''id'', JStr (v_id (cres_project r))), (''keyPrefix'', JStr (v_key_prefix (cres_project r)))]"

definition create_execute :: "env \<Rightarrow> actor \<Rightarrow> create_request \<Rightarrow> create_response tx" where
  "create_execute env actor req =
     receipt_record ''project.create'' create_summary
       (tx_bind (create_prepare env actor req) (\<lambda>(keyed, charter).
          receipt_run env actor keyed create_response_json create_response_of_json
            (create_effect env actor req charter)))"

definition create_command :: "env \<Rightarrow> create_request \<Rightarrow> (st, create_response) command" where
  "create_command env req = \<lparr>cmd_verb = ProjectCreate,
     cmd_execute = (\<lambda>s actor. create_execute env actor req s)\<rparr>"

section \<open>The charter rules\<close>

lemma repositories_loop_ok:
  "repositories_loop i out raw = Inr repos \<Longrightarrow> distinct out \<Longrightarrow>
     distinct repos \<and> (\<exists>more. repos = out @ more \<and>
       set repos = set out \<union> {c. \<exists>e \<in> set raw. canonical_github_name (trim e) = Some c})"
proof (induction i out raw rule: repositories_loop.induct)
  case (2 i out entry rest)
  from "2.prems"(1) obtain c where c: "canonical_github_name (trim entry) = Some c"
    and rest: "repositories_loop (Suc i) (if c \<in> set out then out else out @ [c]) rest = Inr repos"
    by (auto simp: res_simps)
  have "distinct (if c \<in> set out then out else out @ [c])" using "2.prems"(2) by simp
  moreover have "ok_or (canonical_github_name (trim entry))
      (invariant_refusal (''repositories.'' @ show_nat i) ''invalid_format'') = Inr c"
    using c by (simp add: ok_or_def)
  ultimately have "distinct repos \<and> (\<exists>more. repos = (if c \<in> set out then out else out @ [c]) @ more \<and>
      set repos = set (if c \<in> set out then out else out @ [c]) \<union>
        {c. \<exists>e \<in> set rest. canonical_github_name (trim e) = Some c})"
    using "2.IH" [of c] rest by blast
  with c show ?case by (auto split: if_splits)
qed simp

lemma repositories_loop_order:
  "repositories_loop i out raw = Inr repos \<Longrightarrow>
     repos = dedup_onto out (map (\<lambda>e. the (canonical_github_name (trim e))) raw)"
  by (induction i out raw rule: repositories_loop.induct) (auto simp: res_simps)

lemma charter_checks_ok:
  assumes "charter_checks env req actor i = Inr c"
  shows "h_id c = i" "h_name c = cr_name req" "h_key_prefix c = cr_key_prefix req"
    "h_success_criteria c = cr_success_criteria req" "distinct (h_repositories c)"
    "principal_type (h_lead c) = User"
proof -
  from assms obtain repos lead td where
    repos: "charter_repositories (cr_repositories req) = Inr repos"
    and lead: "charter_lead req actor = Inr lead"
    and c: "c = \<lparr>h_id = i, h_name = cr_name req, h_key_prefix = cr_key_prefix req,
          h_outcome = cr_outcome req, h_success_criteria = cr_success_criteria req,
          h_constraints = cr_constraints req, h_non_goals = cr_non_goals req,
          h_repositories = repos, h_lead = lead, h_target_date = td\<rparr>"
    unfolding charter_checks_def and_then_Inr_iff
    by (elim exE conjE) (rule that, assumption, assumption, erule Inr_inject [OF sym])
  have "distinct repos"
    using repos repositories_loop_ok [of 0 "[]" "cr_repositories req" repos]
    by (auto simp: charter_repositories_def split: if_splits)
  moreover have "principal_type lead = User"
    using lead by (auto simp: charter_lead_def new_principal_def res_simps split: option.splits)
  ultimately show "h_id c = i" "h_name c = cr_name req" "h_key_prefix c = cr_key_prefix req"
    "h_success_criteria c = cr_success_criteria req" "distinct (h_repositories c)"
    "principal_type (h_lead c) = User" by (simp_all add: c)
qed

lemma create_response_of_json [simp]: "create_response_of_json (create_response_json r) = Some r"
  by (simp add: create_response_of_json_def create_response_json_def struct_fields_def field_def)

section \<open>The slug loop\<close>

lemma unique_failed_read [simp]:
  "unique_violation (unique_failed ext_unique ''projects.key_prefix'') = Some KeyPrefixTaken"
  "unique_violation (unique_failed ext_unique ''projects.slug'') = Some SlugTaken"
  "unique_violation (unique_failed ext_primary_key ''projects.id'') = Some IdTaken"
  by (simp_all add: unique_failed_def constraint_error_def ext_defs Let_def del: append.simps)

text \<open>Every constraint failure of the insert becomes its outcome, never an error.\<close>

lemma insert_project_outcome:
  "insert_project row s =
     (if np_key_prefix row \<in> p_key_prefix ` set (projects (st_db s)) then (Inr KeyPrefixTaken, s)
      else if np_slug row \<in> p_slug ` set (projects (st_db s)) then (Inr SlugTaken, s)
      else if np_id row \<in> p_id ` set (projects (st_db s)) then (Inr IdTaken, s)
      else (Inr Inserted, s\<lparr>st_db := (st_db s)\<lparr>projects := projects (st_db s) @ [stored_project row]\<rparr>\<rparr>))"
  by (simp add: insert_project_def statement_def projects_insert_def ok_or_def)

definition slug_free :: "db \<Rightarrow> string \<Rightarrow> nat \<Rightarrow> bool" where
  "slug_free d base k \<longleftrightarrow> disambiguate base k \<notin> p_slug ` set (projects d)"

lemma slug_attempts_eq:
  "slug_attempts project base ks s =
     (if ks = [] then (Inl slug_exhausted, s)
      else if np_key_prefix project \<in> p_key_prefix ` set (projects (st_db s))
      then (Inl key_prefix_duplicate, s)
      else case find (slug_free (st_db s) base) ks of
             None \<Rightarrow> (Inl slug_exhausted, s)
           | Some k \<Rightarrow>
               if np_id project \<in> p_id ` set (projects (st_db s))
               then (Inl (invariant_refusal ''id'' ''duplicate''), s)
               else (Inr (disambiguate base k), s\<lparr>st_db := (st_db s)\<lparr>projects := projects (st_db s) @
                      [stored_project (project\<lparr>np_slug := disambiguate base k\<rparr>)]\<rparr>\<rparr>))"
proof (induction ks)
  case (Cons k ks)
  show ?case
  proof (cases "slug_free (st_db s) base k")
    case True
    then show ?thesis
      by (simp add: tx_bind_def insert_project_outcome slug_free_def Let_def ret_def lift_def)
  next
    case False
    with Cons.IH show ?thesis
      by (simp add: tx_bind_def insert_project_outcome slug_free_def Let_def lift_def)
  qed
qed (simp add: lift_def)

lemma repository_insert_Inr:
  "repository_insert row d = Inr d' \<Longrightarrow> d' = d\<lparr>repositories := repositories d @ [row]\<rparr>"
  by (simp add: repository_insert_def split: if_splits)

lemma execute_many_repositories:
  "execute_many repository_insert rs s = (Inr (), s') \<Longrightarrow>
     s' = s\<lparr>st_db := (st_db s)\<lparr>repositories := repositories (st_db s) @ rs\<rparr>\<rparr>"
proof (induction rs arbitrary: s)
  case (Cons r rs)
  from Cons.prems show ?case
    by (auto simp: tx_simps dest!: repository_insert_Inr Cons.IH)
qed (simp add: tx_simps)

lemma criterion_insert_Inr:
  "criterion_insert row d = Inr d' \<Longrightarrow> d' = d\<lparr>criteria := criteria d @ [row]\<rparr>"
  by (simp add: criterion_insert_def split: if_splits)

lemma execute_many_criteria:
  "execute_many criterion_insert rs s = (Inr (), s') \<Longrightarrow>
     s' = s\<lparr>st_db := (st_db s)\<lparr>criteria := criteria (st_db s) @ rs\<rparr>\<rparr>"
proof (induction rs arbitrary: s)
  case (Cons r rs)
  from Cons.prems show ?case
    by (auto simp: tx_simps dest!: criterion_insert_Inr Cons.IH)
qed (simp add: tx_simps)

lemma mint_criteria:
  "tx_traverse (\<lambda>description. tx_bind (mint_uuid env) (\<lambda>i. ret (i, description))) xs s = (Inr ys, s') \<Longrightarrow>
     map snd ys = xs \<and> st_db s' = st_db s \<and> st_log s' = st_log s"
  by (induction xs arbitrary: s ys) (fastforce simp: tx_simps dest: mint_frame)+

text \<open>Everything a create wrote, table by table.\<close>

lemma create_write_Inr:
  assumes "create_write env actor c s = (Inr r, s')"
  shows "\<exists>at constraints non_goals k crits eid payload project.
     json_text env (json_ids (h_constraints c)) = Inr constraints \<and>
     json_text env (json_ids (h_non_goals c)) = Inr non_goals \<and>
     project = (charter_project actor c constraints non_goals at)\<lparr>
       np_slug := disambiguate (base_slug (e_lower env) (h_name c)) k\<rparr> \<and>
     find (slug_free (st_db s) (base_slug (e_lower env) (h_name c))) [0..<max_slug_attempts] = Some k \<and>
     h_key_prefix c \<notin> p_key_prefix ` set (projects (st_db s)) \<and>
     h_id c \<notin> p_id ` set (projects (st_db s)) \<and>
     map snd crits = h_success_criteria c \<and>
     st_db s' = (st_db s)\<lparr>
       projects := projects (st_db s) @ [stored_project project],
       repositories := repositories (st_db s) @ map (new_repository project) (h_repositories c),
       criteria := criteria (st_db s) @ map (new_criterion project) (enumerate 0 crits),
       events := events (st_db s) @ [\<lparr>ev_id = eid, ev_project = h_id c,
         ev_actor_type = actor_type actor, ev_actor_id = actor_id actor,
         ev_type = ''project.created'', ev_entity_type = ''project'', ev_entity_id = h_id c,
         ev_payload = payload, ev_created_at = at\<rparr>],
       last_seq := last_seq (st_db s) + 1,
       changes := changes (st_db s) @ [\<lparr>ch_seq = last_seq (st_db s) + 1, ch_project = h_id c,
         ch_event = eid, ch_entity_type = ''project'', ch_op = op_changed, ch_created_at = at\<rparr>]\<rparr> \<and>
     written env (st_db s') (h_id c) ''creation'' = Inr (cres_project r) \<and> st_log s' = st_log s"
proof -
  from assms obtain at constraints non_goals slug s1 s2 crits recorded where
    cj: "json_text env (json_ids (h_constraints c)) = Inr constraints"
    and ng: "json_text env (json_ids (h_non_goals c)) = Inr non_goals"
    and ins: "insert_with_unique_slug env (charter_project actor c constraints non_goals at)
               (s\<lparr>st_ticks := Suc (st_ticks s)\<rparr>) = (Inr slug, s1)"
    and rel: "write_relations env ((charter_project actor c constraints non_goals at)\<lparr>np_slug := slug\<rparr>) c s1
               = (Inr (), s2)"
    and rec: "record_event env actor (created_event c) at s2 = (Inr recorded, s')"
    and view: "written env (st_db s') (h_id c) ''creation'' = Inr (cres_project r)"
    by (auto simp: create_write_def tx_simps now_ms_def Let_def)
  let ?p = "charter_project actor c constraints non_goals at"
  let ?base = "base_slug (e_lower env) (h_name c)"
  from ins obtain k where
    k: "find (slug_free (st_db s) ?base) [0..<max_slug_attempts] = Some k" "slug = disambiguate ?base k"
    and free: "h_key_prefix c \<notin> p_key_prefix ` set (projects (st_db s))"
      "h_id c \<notin> p_id ` set (projects (st_db s))"
    and s1: "st_db s1 = (st_db s)\<lparr>projects := projects (st_db s) @ [stored_project (?p\<lparr>np_slug := slug\<rparr>)]\<rparr>"
      "st_log s1 = st_log s"
    by (auto simp: insert_with_unique_slug_def slug_attempts_eq charter_project_def max_slug_attempts_def
        split: if_splits option.splits)
  let ?q = "?p\<lparr>np_slug := slug\<rparr>"
  from rel obtain crits s3 s4 where
    tr: "tx_traverse (\<lambda>description. tx_bind (mint_uuid env) (\<lambda>i. ret (i, description)))
           (h_success_criteria c) s1 = (Inr crits, s3)"
    and r1: "execute_many repository_insert (map (new_repository ?q) (h_repositories c)) s3 = (Inr (), s4)"
    and r2: "execute_many criterion_insert (map (new_criterion ?q) (enumerate 0 crits)) s4 = (Inr (), s2)"
    by (auto simp: write_relations_def insert_relations_def tx_simps)
  note tables = mint_criteria [OF tr] execute_many_repositories [OF r1] execute_many_criteria [OF r2]
  from record_event_effect [OF rec] obtain payload where
    eff: "st_db s' = (st_db s2)\<lparr>
       events := events (st_db s2) @ [\<lparr>ev_id = rec_id recorded, ev_project = h_id c,
         ev_actor_type = actor_type actor, ev_actor_id = actor_id actor,
         ev_type = ''project.created'', ev_entity_type = ''project'', ev_entity_id = h_id c,
         ev_payload = payload, ev_created_at = at\<rparr>],
       last_seq := last_seq (st_db s2) + 1,
       changes := changes (st_db s2) @ [\<lparr>ch_seq = last_seq (st_db s2) + 1, ch_project = h_id c,
         ch_event = rec_id recorded, ch_entity_type = ''project'', ch_op = op_changed,
         ch_created_at = at\<rparr>]\<rparr>" "st_log s' = st_log s2"
    by (auto simp: created_event_def actor_type_def actor_id_def)
  show ?thesis
    by (rule exI [of _ at], rule exI [of _ constraints], rule exI [of _ non_goals],
        rule exI [of _ k], rule exI [of _ crits], rule exI [of _ "rec_id recorded"],
        rule exI [of _ payload], rule exI [of _ ?q], intro conjI cj ng k(1) free view)
       (simp_all add: k(2) eff tables s1)
qed

lemma create_write_ok: "follows keeps_ok (create_write env actor c)"
proof -
  have "follows keeps_ok (slug_attempts p b ks)" for p b ks
    by (induction ks)
       (auto simp: Let_def intro!: okr.follows_basic okr.follows_insert_project projects_insert_ok
         split: project_insert.splits)
  moreover have "follows keeps_ok (write_relations env p c)" for p
    unfolding write_relations_def insert_relations_def
    by (intro okr.follows_basic okr.follows_execute_many)
       (auto intro: repository_insert_ok criterion_insert_ok)
  ultimately show ?thesis
    unfolding create_write_def Let_def insert_with_unique_slug_def
    by (intro okr.follows_basic record_event_ok)
qed

lemma create_write_appends: "follows appends (create_write env actor c)"
proof -
  have "follows appends (slug_attempts p b ks)" for p b ks
    by (induction ks)
       (auto simp: Let_def intro!: app.follows_basic app.follows_insert_project projects_insert_appends
         split: project_insert.splits)
  moreover have "follows appends (write_relations env p c)" for p
    unfolding write_relations_def insert_relations_def
    by (intro app.follows_basic app.follows_execute_many)
       (auto intro: repository_insert_appends criterion_insert_appends)
  ultimately show ?thesis
    unfolding create_write_def Let_def insert_with_unique_slug_def
    by (intro app.follows_basic record_event_appends)
qed

lemma charter_validate_frame:
  "charter_validate env req p s = (r, s1) \<Longrightarrow> st_db s1 = st_db s \<and> st_log s1 = st_log s"
  by (cases r)
     (auto simp: charter_validate_def charter_id_def tx_simps tx_bind_Inl_iff
       split: option.splits dest: mint_frame)

interpretation create: receipted_command env "create_execute env" "create_prepare env"
  "create_keyed env" "create_effect env" create_response_json create_response_of_json
  "\<lambda>_. ''project.create''" create_summary for env
proof
  fix actor req s p s1 keyed c and r :: create_response
  show "create_execute env actor req = receipt_record ''project.create'' create_summary
      (tx_bind (create_prepare env actor req) (\<lambda>(keyed, c).
        receipt_run env actor keyed create_response_json create_response_of_json
          (create_effect env actor req c)))"
    by (simp add: create_execute_def)
  show "st_db s1 = st_db s \<and> st_log s1 = st_log s" if "create_prepare env actor req s = (p, s1)"
    using that
    by (cases p) (auto simp: create_prepare_def tx_simps tx_bind_Inl_iff dest: charter_validate_frame)
  show "create_keyed env req = Inr keyed"
    if "create_prepare env actor req s = (Inr (keyed, c), s1)"
    using that by (auto simp: create_prepare_def tx_simps)
  show "create_response_of_json (create_response_json r) = Some r" by simp
  show "follows keeps_ok (create_effect env actor req c)"
    unfolding create_effect_def by (intro okr.follows_basic create_write_ok)
  show "follows appends (create_effect env actor req c)"
    unfolding create_effect_def by (intro app.follows_basic create_write_appends)
  show "receipts (st_db s1) = receipts (st_db s) \<and> st_log s1 = st_log s"
    if "create_effect env actor req c s = (Inr x, s1)" for x
    using that by (auto simp: create_effect_def tx_simps dest!: create_write_Inr)
qed

lemma new_criteria_map:
  "map c_description (map (new_criterion p) (enumerate n crits)) = map snd crits"
  "map c_position (map (new_criterion p) (enumerate n crits)) = map int [n..<n + length crits]"
  "\<forall>x \<in> set (map (new_criterion p) (enumerate n crits)).
     c_project x = np_id p \<and> c_work_item x = None \<and> c_resolution x = ''open''"
proof -
  have new: "new_criterion p (k, x) = \<lparr>c_id = fst x, c_project = np_id p, c_work_item = None,
     c_description = snd x, c_required = 1, c_evidence_requirement = ''reported'',
     c_resolution = ''open'', c_rationale = None, c_position = int k, c_archived_at = None\<rparr>" for k x
    by (cases x) (simp add: new_criterion_def)
  show "map c_description (map (new_criterion p) (enumerate n crits)) = map snd crits"
    by (induction crits arbitrary: n) (simp_all add: new)
  show "map c_position (map (new_criterion p) (enumerate n crits)) = map int [n..<n + length crits]"
    by (induction crits arbitrary: n) (simp_all add: new upt_conv_Cons del: upt_Suc)
  show "\<forall>x \<in> set (map (new_criterion p) (enumerate n crits)).
     c_project x = np_id p \<and> c_work_item x = None \<and> c_resolution x = ''open''"
    by (auto simp: new)
qed

section \<open>A concrete create\<close>

definition demo_new_id :: string where
  "demo_new_id = ''0123abcd-0000-4000-8000-00000000000b''"

definition demo_create :: create_request where
  "demo_create = \<lparr>cr_id = Some demo_new_id, cr_key = ''c1'', cr_name = ''Engine'',
     cr_key_prefix = ''ENX'', cr_outcome = ''Ship it'', cr_success_criteria = [''one''],
     cr_constraints = [], cr_non_goals = [], cr_repositories = [''Falconiere/comemory''],
     cr_lead = None, cr_target_date = None\<rparr>"

definition demo_charter :: charter where
  "demo_charter = \<lparr>h_id = demo_new_id, h_name = ''Engine'', h_key_prefix = ''ENX'',
     h_outcome = ''Ship it'', h_success_criteria = [''one''], h_constraints = [],
     h_non_goals = [], h_repositories = [''falconiere/comemory''],
     h_lead = new_principal User ''local-operator'', h_target_date = None\<rparr>"

lemma demo_create_checks:
  "text_limit ''idempotencyKey'' ''c1'' 1 idempotency_key_max = Inr ()"
  "text_limit ''name'' ''Engine'' 1 name_max = Inr ()"
  "check_key_prefix ''ENX'' = Inr ()"
  "text_limit ''outcome'' ''Ship it'' 1 outcome_max = Inr ()"
  "list_limit ''successCriteria'' [''one''] criteria_max criterion_description_max = Inr ()"
  "list_limit ''constraints'' [] constraints_max_count constraint_max = Inr ()"
  "list_limit ''nonGoals'' [] non_goals_max_count constraint_max = Inr ()"
  "charter_repositories [''Falconiere/comemory''] = Inr [''falconiere/comemory'']"
  "canonical_uuid demo_new_id = Some demo_new_id"
  by code_simp+

lemma demo_create_prepare:
  "\<exists>keyed. create_prepare demo_env demo_actor demo_create s = (Inr (keyed, demo_charter), s) \<and>
     create_keyed demo_env demo_create = Inr keyed \<and> k_key keyed = ''c1''"
  using demo_create_checks
  by (simp add: create_prepare_def create_keyed_def demo_create_def demo_charter_def tx_bind_def
      lift_def ret_def charter_validate_def charter_id_def charter_checks_def charter_lead_def
      demo_actor_def new_principal_def ok_or_def new_keyed_def command_digest_def
      bytes_and_digest_def to_bytes_def transpose_opt_def)

lemma demo_slug:
  "base_slug (e_lower demo_env) ''Engine'' = ''engine''" "disambiguate ''engine'' 1 = ''engine-2''"
  "disambiguate ''engine'' 0 = ''engine''"
proof -
  have "base_slug id ''Engine'' = ''engine''" by code_simp
  then show "base_slug (e_lower demo_env) ''Engine'' = ''engine''" by (simp add: demo_env_def)
  show "disambiguate ''engine'' 1 = ''engine-2''" by code_simp
  show "disambiguate ''engine'' 0 = ''engine''" by code_simp
qed

lemma demo_find_slug: "find (slug_free demo_db ''engine'') [0..<max_slug_attempts] = Some 1"
proof -
  have "[0..<max_slug_attempts] = 0 # 1 # [2..<max_slug_attempts]"
    by (simp add: max_slug_attempts_def upt_conv_Cons numeral_2_eq_2 del: upt_Suc)
  moreover have "\<not> slug_free demo_db ''engine'' 0" "slug_free demo_db ''engine'' 1"
    by (simp_all add: slug_free_def demo_slug [simplified] demo_db_def demo_project_def)
  ultimately show ?thesis by simp
qed

lemma demo_create_runs:
  "\<exists>r s'. create_execute demo_env demo_actor demo_create (st_of demo_db) = (Inr r, s')"
proof -
  obtain keyed where prep: "create_prepare demo_env demo_actor demo_create (st_of demo_db)
      = (Inr (keyed, demo_charter), st_of demo_db)" using demo_create_prepare by blast
  define s0 where "s0 = (st_of demo_db)\<lparr>st_txs := 1, st_ticks := 1\<rparr>"
  define p where "p = charter_project demo_actor demo_charter (demo_text (JArr [])) (demo_text (JArr [])) 0"
  define q where "q = p\<lparr>np_slug := ''engine-2''\<rparr>"
  define d1 where "d1 = demo_db\<lparr>projects := [demo_project, stored_project q]\<rparr>"
  define s1 where "s1 = s0\<lparr>st_db := d1\<rparr>"
  have p: "np_key_prefix p = ''ENX''" "np_id p = demo_new_id" "np_name p = ''Engine''" "np_at p = 0"
    by (simp_all add: p_def charter_project_def demo_charter_def)
  have db: "projects demo_db = [demo_project]" "events d1 = []" "receipts d1 = []" "criteria d1 = []"
      "repositories d1 = []" "has_project d1 demo_new_id"
    by (simp_all add: demo_db_def d1_def empty_db_def has_project_def stored_project_def q_def p)
  have ins: "insert_with_unique_slug demo_env p s0 = (Inr ''engine-2'', s1)"
  proof -
    have "st_db s0 = demo_db" by (simp add: s0_def st_of_def)
    moreover have "''ENX'' \<noteq> p_key_prefix demo_project" "demo_new_id \<noteq> p_id demo_project"
      by (simp_all add: demo_project_def demo_new_id_def demo_id_def)
    moreover have "[0..<max_slug_attempts] \<noteq> []" by (simp add: max_slug_attempts_def)
    ultimately show ?thesis
      using demo_slug(2)
      by (simp add: insert_with_unique_slug_def slug_attempts_eq p demo_slug(1) demo_find_slug
          s1_def d1_def q_def db)
  qed
  obtain c where c: "mint_uuid demo_env s1 = (Inr c, s1\<lparr>st_draws := Suc (st_draws s1)\<rparr>)"
    using mint_total [OF demo_total] by blast
  define d2 where "d2 = d1\<lparr>repositories := [new_repository q ''falconiere/comemory''],
     criteria := [new_criterion q (0, c, ''one'')]\<rparr>"
  define s2 where "s2 = s1\<lparr>st_draws := Suc (st_draws s1), st_db := d2\<rparr>"
  have rel: "write_relations demo_env q demo_charter s1 = (Inr (), s2)"
  proof -
    let ?s = "s1\<lparr>st_draws := Suc (st_draws s1)\<rparr>"
    let ?nr = "new_repository q ''falconiere/comemory''" and ?nc = "new_criterion q (0, c, ''one'')"
    have "tx_traverse (\<lambda>description. tx_bind (mint_uuid demo_env) (\<lambda>i. ret (i, description)))
        [''one''] s1 = (Inr [(c, ''one'')], ?s)" by (simp add: tx_bind_def ret_def c)
    moreover have "statement (repository_insert ?nr) ?s =
        (Inr (), ?s\<lparr>st_db := d1\<lparr>repositories := [?nr]\<rparr>\<rparr>)"
      using db by (simp add: statement_def repository_insert_def s1_def new_repository_def q_def p)
    moreover have "statement (criterion_insert ?nc) (?s\<lparr>st_db := d1\<lparr>repositories := [?nr]\<rparr>\<rparr>) = (Inr (), s2)"
      using db by (simp add: statement_def criterion_insert_def s2_def d2_def new_criterion_def
          q_def p has_project_def)
    ultimately show ?thesis
      by (simp add: write_relations_def insert_relations_def demo_charter_def tx_bind_def ret_def)
  qed
  have here: "has_project (st_db s2) (e_project (created_event demo_charter))"
    using db by (simp add: s2_def d2_def has_project_def created_event_def demo_charter_def)
  have "fresh_ids demo_env (st_db s2)"
    by (rule demo_fresh) (simp_all add: s2_def d2_def db)
  from record_event_total [OF demo_total here this] obtain recorded s3 where
    rec: "record_event demo_env demo_actor (created_event demo_charter) 0 s2 = (Inr recorded, s3)" by blast
  from record_event_effect [OF rec] have s3: "projects (st_db s3) = projects d1" "receipts (st_db s3) = []"
    by (auto simp: s2_def d2_def db)
  have "read_project (st_db s3) demo_new_id = Some (stored_project q)"
    by (simp add: read_project_def s3 d1_def stored_project_def q_def p)
       (simp add: demo_project_def demo_new_id_def demo_id_def)
  from written_total [OF demo_total this] obtain v where
    v: "written demo_env (st_db s3) demo_new_id ''creation'' = Inr v" by blast
  have wr: "create_write demo_env demo_actor demo_charter ((st_of demo_db)\<lparr>st_txs := 1\<rparr>)
      = (Inr \<lparr>cres_project = v\<rparr>, s3)"
  proof -
    have lists: "json_ids (h_constraints demo_charter) = JArr []"
      "json_ids (h_non_goals demo_charter) = JArr []" "h_id demo_charter = demo_new_id"
      by (simp_all add: demo_charter_def json_ids_def)
    have "now_ms demo_env ((st_of demo_db)\<lparr>st_txs := 1\<rparr>) = (Inr 0, s0)"
      by (simp add: now_ms_def demo_env_def s0_def st_of_def signed_divide_int_def)
    then show ?thesis
      using ins rel rec v
      by (simp add: create_write_def tx_bind_def lift_def lists Let_def reading_def ret_def
          p_def [symmetric] q_def [symmetric])
  qed
  have "find_receipt (st_db (st_of demo_db)) (actor_type demo_actor) (actor_id demo_actor)
      (k_key keyed) = None" "receipts (st_db s3) = receipts (st_db (st_of demo_db))"
    "has_project (st_db s3) demo_new_id" "fresh_ids demo_env (st_db (st_of demo_db))"
    using db(6) demo_fresh [of demo_db]
    by (simp_all add: st_of_def find_receipt_def demo_db_def empty_db_def s3 has_project_def)
  moreover have "create_effect demo_env demo_actor demo_create demo_charter
      ((st_of demo_db)\<lparr>st_txs := Suc (st_txs (st_of demo_db))\<rparr>)
      = (Inr (\<lparr>cres_project = v\<rparr>, demo_new_id), s3)"
    using wr by (simp add: create_effect_def tx_bind_def ret_def demo_charter_def st_of_def)
  ultimately obtain s4 where "receipt_run demo_env demo_actor keyed create_response_json
      create_response_of_json (create_effect demo_env demo_actor demo_create demo_charter) (st_of demo_db)
      = (Inr (Applied \<lparr>cres_project = v\<rparr>), s4)"
    using receipt_run_total [where effect = "create_effect demo_env demo_actor demo_create demo_charter",
        OF demo_total] by blast
  then show ?thesis
    by (simp add: create_execute_def receipt_record_def tx_bind_def prep)
qed

section \<open>Properties\<close>

text \<open>The slug retry loop decides by the unique indexes alone: a taken key prefix refuses at
  once, without trying another slug; otherwise the first of the 25 candidates that no project
  holds is used, unless the id is taken; and only 25 taken candidates refuse with
  \<open>slug_exhausted\<close>. A refusal writes nothing and a success adds exactly the one row.\<close>

theorem insert_with_unique_slug_decides:
  "insert_with_unique_slug env project s =
     (if np_key_prefix project \<in> p_key_prefix ` set (projects (st_db s))
      then (Inl key_prefix_duplicate, s)
      else case find (slug_free (st_db s) (base_slug (e_lower env) (np_name project))) [0..<25] of
             None \<Rightarrow> (Inl slug_exhausted, s)
           | Some k \<Rightarrow>
               if np_id project \<in> p_id ` set (projects (st_db s))
               then (Inl (invariant_refusal ''id'' ''duplicate''), s)
               else let slug = disambiguate (base_slug (e_lower env) (np_name project)) k
                    in (Inr slug, s\<lparr>st_db := (st_db s)\<lparr>projects := projects (st_db s) @
                          [stored_project (project\<lparr>np_slug := slug\<rparr>)]\<rparr>\<rparr>))"
  by (simp add: insert_with_unique_slug_def slug_attempts_eq max_slug_attempts_def Let_def
      split: option.split)

lemma find_free_slug:
  assumes "length (projects d) < n"
  shows "find (slug_free d base) [0..<n] \<noteq> None"
proof
  assume "find (slug_free d base) [0..<n] = None"
  then have "disambiguate base ` {0..<n} \<subseteq> p_slug ` set (projects d)"
    by (auto simp: find_None_iff slug_free_def)
  then have "card (disambiguate base ` {0..<n}) \<le> card (p_slug ` set (projects d))"
    by (intro card_mono) auto
  also have "\<dots> \<le> length (projects d)"
    by (meson card_image_le card_length finite_set order_trans)
  finally show False
    using assms by (simp add: card_image inj_on_def disambiguate_inj)
qed

text \<open>C40. The retry bound never refuses a name needlessly: with fewer than 25 projects in the data
  directory, no create is refused because a slug could not be derived, whatever their slugs.\<close>

theorem slug_never_exhausted:
  assumes "length (projects (st_db s)) < 25"
  shows "fst (insert_with_unique_slug env project s) \<noteq> Inl slug_exhausted"
proof -
  have "slug_exhausted \<noteq> key_prefix_duplicate" "slug_exhausted \<noteq> invariant_refusal ''id'' ''duplicate''"
    by (simp_all add: slug_exhausted_def key_prefix_duplicate_def invariant_refusal_def invalid_field_def)
  then show ?thesis
    using find_free_slug [OF assms, of "base_slug (e_lower env) (np_name project)"]
    by (auto simp: insert_with_unique_slug_def slug_attempts_eq max_slug_attempts_def split: option.splits)
qed

theorem slug_never_exhausted_witness:
  "fst (insert_with_unique_slug demo_env (charter_project demo_actor demo_charter ''[]'' ''[]'' 7)
     (st_of demo_db)) \<noteq> Inl slug_exhausted"
  by (rule slug_never_exhausted) (simp add: st_of_def demo_db_def)



end
