(* ===== verification/Project_Lifecycle.thy ===== *)
theory Project_Lifecycle
  imports Store_Progress
begin

text \<open>
  The four lifecycle commands (\<open>src/domains/projects/lifecycle.rs\<close>): archive, restore,
  pause and resume one project at the version the caller last read. The relation
  \<open>lifecycle_step\<close> is the state machine they promise; \<open>lifecycle_apply\<close> refines it,
  and the receipt contract is interpreted on the whole command.
\<close>

section \<open>The request\<close>

datatype kind = KindArchive | KindRestore | KindPause | KindResume

definition all_kinds :: "kind list" where
  "all_kinds = [KindArchive, KindRestore, KindPause, KindResume]"

fun kind_verb :: "kind \<Rightarrow> verb" where
  "kind_verb KindArchive = Archive"
| "kind_verb KindRestore = Restore"
| "kind_verb KindPause = Pause"
| "kind_verb KindResume = Resume"

fun kind_str :: "kind \<Rightarrow> string" where
  "kind_str KindArchive = ''archive''"
| "kind_str KindRestore = ''restore''"
| "kind_str KindPause = ''pause''"
| "kind_str KindResume = ''resume''"

fun kind_command :: "kind \<Rightarrow> string" where
  "kind_command KindArchive = ''project.archive''"
| "kind_command KindRestore = ''project.restore''"
| "kind_command KindPause = ''project.pause''"
| "kind_command KindResume = ''project.resume''"

fun kind_event :: "kind \<Rightarrow> string" where
  "kind_event KindArchive = ''project.archived''"
| "kind_event KindRestore = ''project.restored''"
| "kind_event KindPause = ''project.paused''"
| "kind_event KindResume = ''project.resumed''"

record lifecycle_body =
  lb_key :: string
  lb_expected_version :: int
  lb_reason :: "string option"

record lifecycle_request =
  lr_kind :: kind
  lr_id :: string
  lr_body :: lifecycle_body

record lifecycle_response =
  lres_project :: project_view
  lres_warnings :: "local_only list"

text \<open>\<open>warnings\<close> is left out when empty and reads as empty when absent.\<close>

definition lifecycle_response_json :: "lifecycle_response \<Rightarrow> json" where
  "lifecycle_response_json r =
     JObj ((''project'', view_json (lres_project r)) #
       (if lres_warnings r = [] then [] else [(''warnings'', JArr (map local_only_json (lres_warnings r)))]))"

definition lifecycle_response_of_json :: "json \<Rightarrow> lifecycle_response option" where
  "lifecycle_response_of_json j =
     Option.bind (case j of
         JArr [v] \<Rightarrow> struct_fields [''project''] j
       | _ \<Rightarrow> struct_fields [''project'', ''warnings''] j) (\<lambda>get.
     Option.bind (field view_of_json get ''project'') (\<lambda>project.
     Option.bind (case get ''warnings'' of
         None \<Rightarrow> Some [] | Some v \<Rightarrow> json_list local_only_of_json v) (\<lambda>warnings.
     Some \<lparr>lres_project = project, lres_warnings = warnings\<rparr>)))"

section \<open>Checks that need no store\<close>

definition lifecycle_validate :: "kind \<Rightarrow> lifecycle_body \<Rightarrow> error + unit" where
  "lifecycle_validate kind body =
     (if lb_expected_version body < 1 then Inl (Project (invalid_field ''expectedVersion'' ''invalid''))
      else and_then (case lb_reason body of
             None \<Rightarrow> Inr () | Some reason \<Rightarrow> text_limit ''reason'' reason 0 rationale_max) (\<lambda>_.
        case (kind, lb_reason body) of
          (KindPause, None) \<Rightarrow> Inl (Project (invalid_field ''reason'' ''required''))
        | (KindPause, Some reason) \<Rightarrow>
            if blank reason then Inl (invariant_refusal ''reason'' ''blank'') else Inr ()
        | _ \<Rightarrow> Inr ()))"

definition lifecycle_digested :: "string \<Rightarrow> lifecycle_body \<Rightarrow> json" where
  "lifecycle_digested i body = JObj
     [(''projectId'', JStr i), (''expectedVersion'', JInt (lb_expected_version body)),
      (''reason'', json_opt (lb_reason body))]"

section \<open>The transition\<close>

definition invalid_transition :: "string \<Rightarrow> error" where
  "invalid_transition reason = Project (InvalidTransition reason)"

definition terminal_status :: "string \<Rightarrow> bool" where
  "terminal_status status \<longleftrightarrow> status = ''completed'' \<or> status = ''canceled''"

definition lifecycle_patch_for :: "kind \<Rightarrow> project_row \<Rightarrow> int \<Rightarrow> error + lifecycle_patch" where
  "lifecycle_patch_for kind row at =
     (let archived = (p_archived_at row \<noteq> None);
          terminal = terminal_status (p_status row);
          patch = (\<lambda>status arch. Inr \<lparr>lp_status = status, lp_archived = arch, lp_at = at\<rparr>)
      in case kind of
           KindRestore \<Rightarrow>
             if \<not> archived then Inl (invalid_transition ''This project is not archived'')
             else if terminal
             then Inl (invalid_transition ''A completed or canceled project cannot be restored'')
             else patch None Clear
         | KindArchive \<Rightarrow>
             if archived then Inl (invalid_transition ''This project is archived'')
             else patch None (SetAt at)
         | KindPause \<Rightarrow>
             if archived then Inl (invalid_transition ''This project is archived'')
             else if p_status row \<noteq> ''active''
             then Inl (invalid_transition ''Only an active project can be paused'')
             else patch (Some ''paused'') Keep
         | KindResume \<Rightarrow>
             if archived then Inl (invalid_transition ''This project is archived'')
             else if p_status row \<noteq> ''paused''
             then Inl (invalid_transition ''Only a paused project can be resumed'')
             else patch (Some ''active'') Keep)"

definition lifecycle_event :: "kind \<Rightarrow> string \<Rightarrow> string option \<Rightarrow> event" where
  "lifecycle_event kind i reason = \<lparr>
     e_project = i, e_type = kind_event kind, e_entity_type = ''project'', e_entity_id = i,
     e_payload = JObj [(''reason'', json_opt reason)]\<rparr>"

definition lifecycle_apply ::
  "env \<Rightarrow> actor \<Rightarrow> lifecycle_request \<Rightarrow> string \<Rightarrow> lifecycle_response tx" where
  "lifecycle_apply env actor req i =
     tx_bind (reading (\<lambda>d. ok_or (read_project d i) (Project (ProjectNotFound (lr_id req))))) (\<lambda>row.
       let conflict = Project (VersionConflict (p_version row))
       in if p_version row \<noteq> lb_expected_version (lr_body req) then lift (Inl conflict)
          else tx_bind (now_ms env) (\<lambda>at.
               tx_bind (lift (lifecycle_patch_for (lr_kind req) row at)) (\<lambda>patch.
               tx_bind (update_lifecycle i (p_version row) patch) (\<lambda>hit.
               if \<not> hit then lift (Inl conflict)
               else tx_bind (record_event env actor
                      (lifecycle_event (lr_kind req) i (lb_reason (lr_body req))) at) (\<lambda>recorded.
                    tx_bind (reading (\<lambda>d. written env d i ''lifecycle'')) (\<lambda>view.
                    ret \<lparr>lres_project = view,
                         lres_warnings = (case rec_local_only recorded of
                            None \<Rightarrow> [] | Some w \<Rightarrow> [w])\<rparr>))))))"

text \<open>\<open>transition\<close>: the checks and the key, then the effect under the receipt.\<close>

definition lifecycle_prepare ::
  "env \<Rightarrow> actor \<Rightarrow> lifecycle_request \<Rightarrow> (keyed \<times> string) tx" where
  "lifecycle_prepare env actor req =
     tx_bind (lift (canonical_id ''projectId'' (lr_id req))) (\<lambda>i.
     tx_bind (lift (lifecycle_validate (lr_kind req) (lr_body req))) (\<lambda>_.
     tx_bind (lift (new_keyed env (lb_key (lr_body req)) (kind_command (lr_kind req))
                      (lifecycle_digested i (lr_body req)))) (\<lambda>keyed.
     ret (keyed, i))))"

definition lifecycle_effect ::
  "env \<Rightarrow> actor \<Rightarrow> lifecycle_request \<Rightarrow> string \<Rightarrow> (lifecycle_response \<times> string) tx" where
  "lifecycle_effect env actor req i =
     tx_bind (lifecycle_apply env actor req i) (\<lambda>response. ret (response, i))"

definition lifecycle_summary :: "lifecycle_response \<Rightarrow> json" where
  "lifecycle_summary r =
     JObj [(''id'', JStr (v_id (lres_project r))), (''version'', JInt (v_version (lres_project r)))]"

definition lifecycle_execute :: "env \<Rightarrow> actor \<Rightarrow> lifecycle_request \<Rightarrow> lifecycle_response tx" where
  "lifecycle_execute env actor req =
     receipt_record (kind_command (lr_kind req)) lifecycle_summary
       (tx_bind (lifecycle_prepare env actor req) (\<lambda>(keyed, i).
          receipt_run env actor keyed lifecycle_response_json lifecycle_response_of_json
            (lifecycle_effect env actor req i)))"

text \<open>The command as every transport runs it, under an envelope.\<close>

definition lifecycle_command :: "env \<Rightarrow> lifecycle_request \<Rightarrow> (st, lifecycle_response) command" where
  "lifecycle_command env req = \<lparr>cmd_verb = kind_verb (lr_kind req),
     cmd_execute = (\<lambda>s actor. lifecycle_execute env actor req s)\<rparr>"

section \<open>The state machine promised\<close>

inductive lifecycle_step :: "kind \<Rightarrow> int \<Rightarrow> project_row \<Rightarrow> project_row \<Rightarrow> bool" where
  archive: "p_archived_at row = None \<Longrightarrow>
    lifecycle_step KindArchive at row
      (row\<lparr>p_version := p_version row + 1, p_updated_at := at, p_archived_at := Some at\<rparr>)"
| restore: "p_archived_at row \<noteq> None \<Longrightarrow> \<not> terminal_status (p_status row) \<Longrightarrow>
    lifecycle_step KindRestore at row
      (row\<lparr>p_version := p_version row + 1, p_updated_at := at, p_archived_at := None\<rparr>)"
| pause: "p_archived_at row = None \<Longrightarrow> p_status row = ''active'' \<Longrightarrow>
    lifecycle_step KindPause at row
      (row\<lparr>p_version := p_version row + 1, p_updated_at := at, p_status := ''paused''\<rparr>)"
| resume: "p_archived_at row = None \<Longrightarrow> p_status row = ''paused'' \<Longrightarrow>
    lifecycle_step KindResume at row
      (row\<lparr>p_version := p_version row + 1, p_updated_at := at, p_status := ''active''\<rparr>)"

inductive_simps lifecycle_step_simps:
  "lifecycle_step KindArchive at row row'"
  "lifecycle_step KindRestore at row row'"
  "lifecycle_step KindPause at row row'"
  "lifecycle_step KindResume at row row'"

inductive_cases lifecycle_stepE: "lifecycle_step kind at row row'"

text \<open>Any number of commands on one project.\<close>

inductive lifecycle_steps :: "project_row \<Rightarrow> project_row \<Rightarrow> bool" where
  steps_refl: "lifecycle_steps row row"
| steps_step: "lifecycle_steps row row1 \<Longrightarrow> lifecycle_step kind at row1 row2 \<Longrightarrow> lifecycle_steps row row2"

lemma patch_row_at:
  "patch_row (p_version row) patch row =
     row\<lparr>p_version := p_version row + 1, p_updated_at := lp_at patch,
         p_status := (case lp_status patch of None \<Rightarrow> p_status row | Some t \<Rightarrow> t),
         p_archived_at := (case lp_archived patch of
            Keep \<Rightarrow> p_archived_at row | SetAt at \<Rightarrow> Some at | Clear \<Rightarrow> None)\<rparr>"
  by (simp add: patch_row_def)

lemma patch_row_version [simp]: "p_version (patch_row v patch row) = v + 1"
  by (simp add: patch_row_def)

lemma patch_refines_step:
  "lifecycle_patch_for kind row at = Inr patch \<Longrightarrow>
     lifecycle_step kind at row (patch_row (p_version row) patch row)"
  by (cases kind)
     (auto simp: lifecycle_patch_for_def Let_def patch_row_at lifecycle_step_simps split: if_splits)

lemma step_enables_patch:
  "lifecycle_step kind at row row' \<Longrightarrow>
     \<exists>patch. lifecycle_patch_for kind row at = Inr patch \<and> row' = patch_row (p_version row) patch row"
  by (cases kind)
     (auto simp: lifecycle_patch_for_def Let_def patch_row_at lifecycle_step_simps split: if_splits)

lemma lifecycle_response_of_json [simp]:
  "lifecycle_response_of_json (lifecycle_response_json r) = Some r"
  by (simp add: lifecycle_response_of_json_def lifecycle_response_json_def struct_fields_def
      field_def those_map_inverse del: map_map)

section \<open>What an accepted command does\<close>

lemma written_Inr:
  assumes "written env d i cmd = Inr v"
  shows "\<exists>row repos crits. read_project d i = Some row \<and> project_to_view env row repos crits = Inr v"
proof (cases "read_project d i")
  case None
  with assms show ?thesis by (simp add: written_def transpose_opt_def)
next
  case (Some row)
  with assms obtain vs where vs: "load_views env d [row] = Inr vs" "vs \<noteq> []" "v = last vs"
    by (cases "load_views env d [row]") (simp_all add: written_def transpose_opt_def split: if_splits)
  from vs(1) obtain repos crits w where "project_to_view env row repos crits = Inr w" "vs = [w]"
    unfolding load_views_def Let_def load_rows.simps and_then_Inr_iff by blast
  with Some vs show ?thesis by auto
qed

lemma project_to_view_Inr:
  assumes "project_to_view env row repos crits = Inr v"
  shows "v_id v = p_id row" "v_version v = p_version row" "v_status v = p_status row"
    "v_slug v = p_slug row" "v_key_prefix v = p_key_prefix row" "v_repositories v = repos"
    "v_criteria v = crits" "v_name v = p_name row" "v_lead_user_id v = p_lead_id row"
    "(v_archived_at v = None) = (p_archived_at row = None)"
proof -
  from assms obtain td ca ua aa where
    aa: "transpose_opt (\<lambda>ms. rendered env ms (p_id row) ''projects.archived_at'') (p_archived_at row) = Inr aa"
    and v: "v = \<lparr>v_id = p_id row, v_slug = p_slug row, v_key_prefix = p_key_prefix row,
              v_name = p_name row, v_outcome = p_outcome row,
              v_constraints = stored_json env (p_constraints row),
              v_non_goals = stored_json env (p_non_goals row), v_status = p_status row,
              v_health = p_health row, v_lead_user_id = p_lead_id row,
              v_target_date = td, v_plan_version = p_plan_version row,
              v_version = p_version row, v_completion_policy = p_completion_policy row,
              v_created_by = p_creator_id row, v_created_at = ca,
              v_updated_at = ua, v_archived_at = aa,
              v_repositories = repos, v_criteria = crits\<rparr>"
    unfolding project_to_view_def Let_def and_then_Inr_iff
    by (elim exE conjE) (rule that, assumption, erule Inr_inject [OF sym])
  from aa have "(aa = None) = (p_archived_at row = None)"
    by (cases "p_archived_at row") (auto simp: transpose_opt_def res_simps)
  with v show "v_id v = p_id row" "v_version v = p_version row" "v_status v = p_status row"
    "v_slug v = p_slug row" "v_key_prefix v = p_key_prefix row" "v_repositories v = repos"
    "v_criteria v = crits" "v_name v = p_name row" "v_lead_user_id v = p_lead_id row"
    "(v_archived_at v = None) = (p_archived_at row = None)"
    by simp_all
qed

lemma lifecycle_apply_Inr:
  assumes "lifecycle_apply env actor req i s = (Inr r, s')"
  shows "\<exists>row at patch payload eid.
     read_project (st_db s) i = Some row \<and> p_version row = lb_expected_version (lr_body req) \<and>
     lifecycle_patch_for (lr_kind req) row at = Inr patch \<and>
     st_db s' = (st_db s)\<lparr>
       projects := map (\<lambda>p. if p_id p = i \<and> p_version p = p_version row
                            then patch_row (p_version row) patch p else p) (projects (st_db s)),
       events := events (st_db s) @ [\<lparr>ev_id = eid, ev_project = i,
         ev_actor_type = actor_type actor, ev_actor_id = actor_id actor,
         ev_type = kind_event (lr_kind req), ev_entity_type = ''project'', ev_entity_id = i,
         ev_payload = payload, ev_created_at = at\<rparr>],
       last_seq := last_seq (st_db s) + 1,
       changes := changes (st_db s) @ [\<lparr>ch_seq = last_seq (st_db s) + 1, ch_project = i,
         ch_event = eid, ch_entity_type = ''project'', ch_op = op_changed, ch_created_at = at\<rparr>]\<rparr> \<and>
     written env (st_db s') i ''lifecycle'' = Inr (lres_project r) \<and> st_log s' = st_log s"
proof -
  from assms obtain row at patch recorded s1 where
    row: "read_project (st_db s) i = Some row" "p_version row = lb_expected_version (lr_body req)"
    and patch: "lifecycle_patch_for (lr_kind req) row at = Inr patch"
    and rec: "record_event env actor (lifecycle_event (lr_kind req) i (lb_reason (lr_body req))) at s1
              = (Inr recorded, s')"
    and s1: "st_db s1 = (st_db s)\<lparr>projects := map (\<lambda>p. if p_id p = i \<and> p_version p = p_version row
                 then patch_row (p_version row) patch p else p) (projects (st_db s))\<rparr>"
      "st_log s1 = st_log s"
    and view: "written env (st_db s') i ''lifecycle'' = Inr (lres_project r)"
    by (auto simp: lifecycle_apply_def tx_simps res_simps Let_def update_lifecycle_def now_ms_def
        split: if_splits)
  from record_event_effect [OF rec] row patch view show ?thesis
    by (auto simp: s1 lifecycle_event_def actor_type_def actor_id_def)
qed

lemma lifecycle_apply_ok: "follows keeps_ok (lifecycle_apply env actor req i)"
  unfolding lifecycle_apply_def Let_def
  by (intro okr.follows_basic)
     (auto intro!: okr.follows_basic update_lifecycle_ok record_event_ok)

lemma lifecycle_apply_appends: "follows appends (lifecycle_apply env actor req i)"
  unfolding lifecycle_apply_def Let_def
  by (intro app.follows_basic)
     (auto intro!: app.follows_basic update_lifecycle_appends record_event_appends)

definition lifecycle_keyed :: "env \<Rightarrow> lifecycle_request \<Rightarrow> error + keyed" where
  "lifecycle_keyed env req =
     and_then (canonical_id ''projectId'' (lr_id req)) (\<lambda>i.
     new_keyed env (lb_key (lr_body req)) (kind_command (lr_kind req))
       (lifecycle_digested i (lr_body req)))"

interpretation life: receipted_command env "lifecycle_execute env" "lifecycle_prepare env"
  "lifecycle_keyed env" "lifecycle_effect env" lifecycle_response_json lifecycle_response_of_json
  "\<lambda>req. kind_command (lr_kind req)" lifecycle_summary for env
proof
  fix actor req s p s1 keyed c and r :: lifecycle_response
  show "lifecycle_execute env actor req = receipt_record (kind_command (lr_kind req)) lifecycle_summary
      (tx_bind (lifecycle_prepare env actor req) (\<lambda>(keyed, c).
        receipt_run env actor keyed lifecycle_response_json lifecycle_response_of_json
          (lifecycle_effect env actor req c)))"
    by (simp add: lifecycle_execute_def)
  show "st_db s1 = st_db s \<and> st_log s1 = st_log s" if "lifecycle_prepare env actor req s = (p, s1)"
    using that
    by (cases p) (auto simp: lifecycle_prepare_def tx_simps tx_bind_Inl_iff)
  show "lifecycle_keyed env req = Inr keyed"
    if "lifecycle_prepare env actor req s = (Inr (keyed, c), s1)"
    using that by (auto simp: lifecycle_prepare_def lifecycle_keyed_def tx_simps)
  show "lifecycle_response_of_json (lifecycle_response_json r) = Some r" by simp
  show "follows keeps_ok (lifecycle_effect env actor req c)"
    unfolding lifecycle_effect_def by (intro okr.follows_basic lifecycle_apply_ok)
  show "follows appends (lifecycle_effect env actor req c)"
    unfolding lifecycle_effect_def by (intro app.follows_basic lifecycle_apply_appends)
  show "receipts (st_db s1) = receipts (st_db s) \<and> st_log s1 = st_log s"
    if "lifecycle_effect env actor req c s = (Inr x, s1)" for x
    using that by (auto simp: lifecycle_effect_def tx_simps dest!: lifecycle_apply_Inr)
qed

section \<open>Properties\<close>

lemma lifecycle_keyed_prepare:
  assumes "lifecycle_prepare env actor req s = (p, s1)"
  shows "s1 = s" "p = Inr (keyed, i) \<Longrightarrow> canonical_uuid (lr_id req) = Some i \<and>
    lifecycle_keyed env req = Inr keyed"
proof -
  show "s1 = s" using assms
    by (cases p) (auto simp: lifecycle_prepare_def tx_simps tx_bind_Inl_iff)
  assume "p = Inr (keyed, i)"
  with assms have "canonical_id ''projectId'' (lr_id req) = Inr i"
    "new_keyed env (lb_key (lr_body req)) (kind_command (lr_kind req))
       (lifecycle_digested i (lr_body req)) = Inr keyed"
    by (auto simp: lifecycle_prepare_def tx_simps)
  then show "canonical_uuid (lr_id req) = Some i \<and> lifecycle_keyed env req = Inr keyed"
    by (simp add: lifecycle_keyed_def canonical_id_def res_simps)
qed

text \<open>The row the guarded update rewrites, when ids are unique.\<close>

lemma guarded_rows:
  assumes "distinct (map p_id ps)" "row \<in> set ps" "p_id row = i"
  shows "map (\<lambda>p. if p_id p = i \<and> p_version p = p_version row then f p else p) ps =
         map (\<lambda>p. if p_id p = i then f row else p) ps"
proof (rule map_cong [OF refl])
  fix p assume "p \<in> set ps"
  with assms have "p_id p = i \<Longrightarrow> p = row" by (auto simp: distinct_map inj_on_def)
  then show "(if p_id p = i \<and> p_version p = p_version row then f p else p) =
             (if p_id p = i then f row else p)" by auto
qed

lemma find_replaced:
  assumes "find (\<lambda>p. k p = i) ps = Some row" "k row' = i"
  shows "find (\<lambda>p. k p = i) (map (\<lambda>p. if k p = i then row' else p) ps) = Some row'"
  using assms by (induction ps) (auto split: if_splits)

lemma find_updated:
  assumes "find (\<lambda>p. k p = i) ps = Some row" "\<And>p. k (f p) = k p"
  shows "find (\<lambda>p. k p = i) (map (\<lambda>p. if k p = i then f p else p) ps) = Some (f row)"
  using assms(1) by (induction ps) (auto simp: assms(2) split: if_splits)

text \<open>What an applied command did, from the receipt runner and the transition.\<close>

lemma lifecycle_exact:
  assumes run: "lifecycle_execute env actor req s = (Inr r, s')"
    and ok: "db_ok (st_db s)"
    and keyed: "lifecycle_keyed env req = Inr keyed"
    and fresh: "find_receipt (st_db s) (actor_type actor) (actor_id actor) (k_key keyed) = None"
  shows "\<exists>i row row' at event receipt.
     canonical_uuid (lr_id req) = Some i \<and> read_project (st_db s) i = Some row \<and>
     p_version row = lb_expected_version (lr_body req) \<and>
     lifecycle_step (lr_kind req) at row row' \<and>
     st_db s' = (st_db s)\<lparr>
       projects := map (\<lambda>p. if p_id p = i then row' else p) (projects (st_db s)),
       events := events (st_db s) @ [event],
       last_seq := last_seq (st_db s) + 1,
       changes := changes (st_db s) @ [\<lparr>ch_seq = last_seq (st_db s) + 1, ch_project = i,
         ch_event = ev_id event, ch_entity_type = ''project'', ch_op = op_changed,
         ch_created_at = at\<rparr>],
       receipts := receipts (st_db s) @ [receipt]\<rparr> \<and>
     ev_type event = kind_event (lr_kind req) \<and> ev_project event = i \<and>
     ev_actor_type event = actor_type actor \<and> ev_actor_id event = actor_id actor \<and>
     rc_key receipt = k_key keyed \<and> rc_project receipt = i \<and>
     v_version (lres_project r) = lb_expected_version (lr_body req) + 1 \<and>
     v_status (lres_project r) = p_status row'"
  using run
proof (cases rule: life.exec_cases)
  case (replayed k c s1 x)
  then show ?thesis
    using receipt_run_replayed [OF replayed(3)] lifecycle_keyed_prepare [OF replayed(2)] keyed fresh
    by auto
next
  case (applied k i s1 x s2)
  have s1: "s1 = s" and i: "canonical_uuid (lr_id req) = Some i" and k: "k = keyed"
    using lifecycle_keyed_prepare [OF applied(2)] keyed by auto
  have x: "x = r" using applied(1) by simp
  from receipt_run_applied [OF applied(3)] obtain project s3 answer j at' where
    eff: "lifecycle_effect env actor req i (s\<lparr>st_txs := Suc (st_txs s)\<rparr>) = (Inr (r, project), s3)"
    and ins: "receipt_insert \<lparr>rc_id = j, rc_project = project, rc_principal_type = actor_type actor,
       rc_principal_id = actor_id actor, rc_key = k_key keyed, rc_command_type = k_command keyed,
       rc_digest = k_digest keyed, rc_response = answer, rc_created_at = at'\<rparr> (st_db s3)
       = Inr (st_db s2)" by (auto simp: x k s1)
  from eff have pid: "project = i"
    and app: "lifecycle_apply env actor req i (s\<lparr>st_txs := Suc (st_txs s)\<rparr>) = (Inr r, s3)"
    by (auto simp: lifecycle_effect_def tx_simps)
  from lifecycle_apply_Inr [OF app] obtain row at patch payload eid where
    row: "read_project (st_db s) i = Some row" "p_version row = lb_expected_version (lr_body req)"
    and patch: "lifecycle_patch_for (lr_kind req) row at = Inr patch"
    and db3: "st_db s3 = (st_db s)\<lparr>
       projects := map (\<lambda>p. if p_id p = i \<and> p_version p = p_version row
                            then patch_row (p_version row) patch p else p) (projects (st_db s)),
       events := events (st_db s) @ [\<lparr>ev_id = eid, ev_project = i,
         ev_actor_type = actor_type actor, ev_actor_id = actor_id actor,
         ev_type = kind_event (lr_kind req), ev_entity_type = ''project'', ev_entity_id = i,
         ev_payload = payload, ev_created_at = at\<rparr>],
       last_seq := last_seq (st_db s) + 1,
       changes := changes (st_db s) @ [\<lparr>ch_seq = last_seq (st_db s) + 1, ch_project = i,
         ch_event = eid, ch_entity_type = ''project'', ch_op = op_changed, ch_created_at = at\<rparr>]\<rparr>"
    and view: "written env (st_db s3) i ''lifecycle'' = Inr (lres_project r)" by auto
  let ?row' = "patch_row (p_version row) patch row"
  have mem: "row \<in> set (projects (st_db s))" "p_id row = i" using read_project_Some [OF row(1)] by auto
  have ids: "distinct (map p_id (projects (st_db s)))" using ok by (simp add: db_ok_def unique_ok_def)
  note db3' = db3 [unfolded guarded_rows [OF ids mem, of "patch_row (p_version row) patch"]]
  have "read_project (st_db s3) i = Some ?row'"
    using row(1) mem(2) by (simp add: db3' read_project_def find_replaced)
  with written_Inr [OF view] have "v_version (lres_project r) = p_version ?row'"
    "v_status (lres_project r) = p_status ?row'" by (auto simp: project_to_view_Inr)
  moreover have "lifecycle_step (lr_kind req) at row ?row'" by (rule patch_refines_step [OF patch])
  ultimately show ?thesis
    using i row applied(4) receipt_insert_Inr [OF ins]
    by - (rule exI [of _ i], rule exI [of _ row], rule exI [of _ ?row'],
        rule exI [of _ at], rule exI [of _ "last (events (st_db s3))"],
        rule exI [of _ "last (receipts (st_db s'))"], simp add: db3' pid)
qed auto

text \<open>The whole command runs when the row is there, at that version, and the step is legal.\<close>

lemma lifecycle_runs:
  assumes env: "env_total env" and ok: "db_ok (st_db s)" and fresh: "fresh_ids env (st_db s)"
    and prep: "lifecycle_prepare env actor req s = (Inr (keyed, i), s)"
    and free: "find_receipt (st_db s) (actor_type actor) (actor_id actor) (k_key keyed) = None"
    and row: "read_project (st_db s) i = Some row" "p_version row = lb_expected_version (lr_body req)"
    and legal: "\<And>at. \<exists>row'. lifecycle_step (lr_kind req) at row row'"
  shows "\<exists>r s'. lifecycle_execute env actor req s = (Inr r, s')"
proof -
  let ?s = "s\<lparr>st_txs := Suc (st_txs s)\<rparr>"
  define at where "at = e_clock env (st_ticks s) sdiv 1000000"
  obtain patch where patch: "lifecycle_patch_for (lr_kind req) row at = Inr patch"
    using legal step_enables_patch by blast
  define s1 where "s1 = ?s\<lparr>st_ticks := Suc (st_ticks s), st_db := (st_db s)\<lparr>projects :=
     map (\<lambda>p. if p_id p = i then patch_row (p_version row) patch p else p) (projects (st_db s))\<rparr>\<rparr>"
  let ?ev = "lifecycle_event (lr_kind req) i (lb_reason (lr_body req))"
  have mem: "row \<in> set (projects (st_db s))" "p_id row = i" using read_project_Some [OF row(1)] by auto
  have ids: "distinct (map p_id (projects (st_db s)))" using ok by (simp add: db_ok_def unique_ok_def)
  have upd: "update_lifecycle i (p_version row) patch (?s\<lparr>st_ticks := Suc (st_ticks s)\<rparr>) = (Inr True, s1)"
    using update_lifecycle_hit [of "?s\<lparr>st_ticks := Suc (st_ticks s)\<rparr>" i row "p_version row" patch] ids row
    by (simp add: s1_def)
  have "map p_id (projects (st_db s1)) = map p_id (projects (st_db s))" by (simp add: s1_def)
  then have "p_id ` set (projects (st_db s1)) = p_id ` set (projects (st_db s))" by (metis list.set_map)
  with mem have here: "has_project (st_db s1) i" by (auto simp: has_project_def)
  have "has_project (st_db s1) (e_project ?ev)" "fresh_ids env (st_db s1)"
    using here fresh by (simp_all add: lifecycle_event_def fresh_ids_def s1_def)
  from record_event_total [OF env this] obtain recorded s2 where
    rec: "record_event env actor ?ev at s1 = (Inr recorded, s2)" by blast
  note eff2 = record_event_effect [OF rec]
  have "read_project (st_db s2) i = Some (patch_row (p_version row) patch row)"
    using eff2 row(1) by (auto simp: s1_def read_project_def find_updated)
  from written_total [OF env this] obtain v where v: "written env (st_db s2) i ''lifecycle'' = Inr v" by blast
  have app: "\<exists>r. lifecycle_effect env actor req i ?s = (Inr (r, i), s2)"
    by (simp add: lifecycle_effect_def lifecycle_apply_def tx_bind_def reading_def lift_def ret_def
        now_ms_def Let_def ok_or_def row(1) row(2) [symmetric] at_def [symmetric] patch upd rec v)
  then obtain r where r: "lifecycle_effect env actor req i ?s = (Inr (r, i), s2)" by blast
  from eff2 have "projects (st_db s2) = projects (st_db s1)" "receipts (st_db s2) = receipts (st_db s1)"
    by (elim exE conjE, simp)+
  then have "receipts (st_db s2) = receipts (st_db s)" "has_project (st_db s2) i"
    using here by (simp_all add: s1_def has_project_def)
  from receipt_run_total [where effect = "lifecycle_effect env actor req i", OF env free r this fresh] obtain s3 where
    "receipt_run env actor keyed lifecycle_response_json lifecycle_response_of_json
       (lifecycle_effect env actor req i) s = (Inr (Applied r), s3)" by blast
  then show ?thesis
    by (simp add: lifecycle_execute_def receipt_record_def tx_bind_def prep)
qed

lemma step_any_time: "lifecycle_step kind at row row' \<Longrightarrow> \<exists>row''. lifecycle_step kind at' row row''"
  by (erule lifecycle_stepE; hypsubst) (auto intro: lifecycle_step.intros)

lemma no_step_refuses:
  assumes "\<nexists>at row'. lifecycle_step kind at row row'"
  shows "\<exists>reason. lifecycle_patch_for kind row at = Inl (invalid_transition reason)"
proof (cases "lifecycle_patch_for kind row at")
  case (Inl e)
  then show ?thesis
    by (cases kind) (auto simp: lifecycle_patch_for_def Let_def split: if_splits)
next
  case (Inr patch)
  with patch_refines_step assms show ?thesis by blast
qed

lemma lifecycle_effect_error:
  assumes "lifecycle_prepare env actor req s = (Inr (keyed, i), s)" "e_begin env (st_txs s) = Inr ()"
    and "find_receipt (st_db s) (actor_type actor) (actor_id actor) (k_key keyed) = None"
    and "lifecycle_effect env actor req i (s\<lparr>st_txs := Suc (st_txs s)\<rparr>) = (Inl e, s1)"
  shows "\<exists>s'. lifecycle_execute env actor req s = (Inl e, s') \<and> st_db s' = st_db s"
  using receipt_run_effect_fails [where effect = "lifecycle_effect env actor req i", OF assms(3,2,4)]
  by (simp add: lifecycle_execute_def receipt_record_def tx_bind_def assms(1))

lemma lifecycle_stale:
  assumes "read_project (st_db s) i = Some row" "p_version row \<noteq> lb_expected_version (lr_body req)"
  shows "lifecycle_effect env actor req i s = (Inl (Project (VersionConflict (p_version row))), s)"
  using assms
  by (simp add: lifecycle_effect_def lifecycle_apply_def tx_bind_def reading_def ok_or_def lift_def)

text \<open>C6. The answer to a lifecycle command that no receipt holds is decided by the project's
  row alone: no row is \<open>project_not_found\<close> with the caller's id, another version is
  \<open>version_conflict\<close> with the current one, a step the state machine does not have is
  \<open>invalid_transition\<close>, and every other command succeeds; a refused command leaves the
  database as it was.\<close>

theorem lifecycle_decides:
  assumes env: "env_total env" and ok: "db_ok (st_db s)" and fresh: "fresh_ids env (st_db s)"
    and prep: "lifecycle_prepare env actor req s = (Inr (keyed, i), s)"
    and free: "find_receipt (st_db s) (actor_type actor) (actor_id actor) (k_key keyed) = None"
  shows "case read_project (st_db s) i of
     None \<Rightarrow> \<exists>s'. lifecycle_execute env actor req s = (Inl (Project (ProjectNotFound (lr_id req))), s') \<and>
                st_db s' = st_db s
   | Some row \<Rightarrow>
       if p_version row \<noteq> lb_expected_version (lr_body req)
       then \<exists>s'. lifecycle_execute env actor req s = (Inl (Project (VersionConflict (p_version row))), s') \<and>
              st_db s' = st_db s
       else if \<exists>at row'. lifecycle_step (lr_kind req) at row row'
       then \<exists>r s'. lifecycle_execute env actor req s = (Inr r, s')
       else \<exists>reason s'. lifecycle_execute env actor req s = (Inl (invalid_transition reason), s') \<and>
              st_db s' = st_db s"
proof -
  let ?s = "s\<lparr>st_txs := Suc (st_txs s)\<rparr>"
  have begins: "e_begin env (st_txs s) = Inr ()" using env by (simp add: env_total_def)
  have fails: "\<exists>s'. lifecycle_execute env actor req s = (Inl e, s') \<and> st_db s' = st_db s"
    if "lifecycle_effect env actor req i ?s = (Inl e, s1)" for e s1
    by (rule lifecycle_effect_error [OF prep begins free that])
  show ?thesis
  proof (cases "read_project (st_db s) i")
    case None
    have "\<exists>s1. lifecycle_effect env actor req i ?s = (Inl (Project (ProjectNotFound (lr_id req))), s1)"
      by (simp add: lifecycle_effect_def lifecycle_apply_def tx_bind_def reading_def ok_or_def None)
    with fails None show ?thesis by auto
  next
    case (Some row)
    consider (stale) "p_version row \<noteq> lb_expected_version (lr_body req)"
      | (legal) "p_version row = lb_expected_version (lr_body req)"
          "\<exists>at row'. lifecycle_step (lr_kind req) at row row'"
      | (illegal) "p_version row = lb_expected_version (lr_body req)"
          "\<nexists>at row'. lifecycle_step (lr_kind req) at row row'" by blast
    then show ?thesis
    proof cases
      case stale
      have "lifecycle_effect env actor req i ?s = (Inl (Project (VersionConflict (p_version row))), ?s)"
        using stale Some by (intro lifecycle_stale) simp_all
      with fails Some stale show ?thesis by auto
    next
      case legal
      then have "\<And>at. \<exists>row'. lifecycle_step (lr_kind req) at row row'" using step_any_time by blast
      from lifecycle_runs [OF env ok fresh prep free Some legal(1) this] Some legal show ?thesis by simp
    next
      case illegal
      from no_step_refuses [OF illegal(2)] obtain reason where
        "lifecycle_patch_for (lr_kind req) row (e_clock env (st_ticks s) sdiv 1000000)
          = Inl (invalid_transition reason)" by blast
      then have "\<exists>s1. lifecycle_effect env actor req i ?s = (Inl (invalid_transition reason), s1)"
        by (simp add: lifecycle_effect_def lifecycle_apply_def tx_bind_def reading_def ok_or_def Some
            lift_def now_ms_def illegal(1) [symmetric])
      with fails Some illegal show ?thesis by auto
    qed
  qed
qed

lemma lifecycle_step_effect:
  assumes "lifecycle_step kind at row row'"
  shows "identity row' = identity row" "p_version row' = p_version row + 1"
    "p_status row' = p_status row \<or>
       p_status row \<in> {''active'', ''paused''} \<and> p_status row' \<in> {''active'', ''paused''}"
    "terminal_status (p_status row) \<Longrightarrow> p_archived_at row \<noteq> None \<Longrightarrow>
       p_archived_at row' = p_archived_at row"
  using assms by (cases, simp_all add: identity_def)+

lemma active_not_terminal: "x \<in> {''active'', ''paused''} \<Longrightarrow> \<not> terminal_status x"
  by (auto simp: terminal_status_def)

text \<open>Whatever lifecycle commands run on one project, in any order and number: its id, slug, key prefix
  and creator never change and its version only grows; a completed or canceled project keeps
  its status, and once archived it stays archived; and the status of any other project only
  ever moves between active and paused.\<close>

theorem lifecycle_history:
  assumes "lifecycle_steps row row'"
  shows "identity row' = identity row \<and>
     (row' = row \<or> p_version row < p_version row') \<and>
     (terminal_status (p_status row) \<longrightarrow> p_status row' = p_status row \<and>
        (p_archived_at row \<noteq> None \<longrightarrow> p_archived_at row' = p_archived_at row)) \<and>
     (p_status row' = p_status row \<or>
        p_status row \<in> {''active'', ''paused''} \<and> p_status row' \<in> {''active'', ''paused''})"
  using assms
proof (induction)
  case (steps_step row row1 kind at row2)
  note now = lifecycle_step_effect [OF steps_step(2)]
  have "p_version row < p_version row2" using steps_step.IH now(2) by auto
  moreover have "p_status row2 = p_status row \<or>
      p_status row \<in> {''active'', ''paused''} \<and> p_status row2 \<in> {''active'', ''paused''}"
    using steps_step.IH now(3) by metis
  moreover from this have "terminal_status (p_status row) \<longrightarrow> p_status row2 = p_status row"
    using active_not_terminal by blast
  moreover have "terminal_status (p_status row) \<longrightarrow> p_archived_at row \<noteq> None \<longrightarrow>
      p_archived_at row2 = p_archived_at row"
    using steps_step.IH now(4) by metis
  ultimately show ?case using steps_step.IH now(1) by simp
qed simp

section \<open>A command on a concrete project\<close>

definition demo_pause :: lifecycle_request where
  "demo_pause = \<lparr>lr_kind = KindPause, lr_id = demo_id,
     lr_body = \<lparr>lb_key = ''k1'', lb_expected_version = 3, lb_reason = Some ''waiting''\<rparr>\<rparr>"

lemma demo_pause_checks:
  "text_limit ''idempotencyKey'' ''k1'' 1 idempotency_key_max = Inr ()"
  "lifecycle_validate KindPause (lr_body demo_pause) = Inr ()"
  unfolding demo_pause_def by code_simp+

lemma demo_pause_prepare:
  "\<exists>keyed. lifecycle_prepare demo_env demo_actor demo_pause s = (Inr (keyed, demo_id), s) \<and>
     lifecycle_keyed demo_env demo_pause = Inr keyed \<and> k_key keyed = ''k1''"
  using demo_pause_checks
  by (simp add: lifecycle_prepare_def lifecycle_keyed_def demo_pause_def tx_bind_def lift_def ret_def
      canonical_id_def ok_or_def new_keyed_def command_digest_def bytes_and_digest_def to_bytes_def)

lemma demo_versions: "lb_expected_version (lr_body demo_pause) = 3" "p_version demo_project = 3"
  by (simp_all add: demo_pause_def demo_project_def)

lemma demo_pause_legal: "\<exists>row'. lifecycle_step (lr_kind demo_pause) at demo_project row'"
  by (auto simp: demo_pause_def lifecycle_step_simps demo_project_def)

lemma demo_free [simp]: "find_receipt demo_db t i k = None"
  by (simp add: find_receipt_def demo_db_def empty_db_def)

lemma demo_db_fresh: "fresh_ids demo_env demo_db"
  by (rule demo_fresh) (simp_all add: demo_db_def empty_db_def)

lemma demo_pause_runs:
  "\<exists>r s'. lifecycle_execute demo_env demo_actor demo_pause (st_of demo_db) = (Inr r, s')"
proof -
  obtain keyed where "lifecycle_prepare demo_env demo_actor demo_pause (st_of demo_db)
      = (Inr (keyed, demo_id), st_of demo_db)" using demo_pause_prepare by blast
  from lifecycle_runs [OF demo_total _ _ this] show ?thesis
    using demo_pause_legal by (simp add: demo_db_ok demo_db_fresh demo_versions)
qed

text \<open>C5. An accepted lifecycle command is exactly one legal step of the state machine: the
  project named by the canonical id was at the version the caller expected, its row moves by
  \<open>lifecycle_step\<close> to that version plus one, no other row changes, and one event by the
  acting principal, one feed row naming that event and one receipt are appended; the answer
  carries the new version and status.\<close>

theorem lifecycle_execute_exact:
  assumes run: "lifecycle_execute env actor req s = (Inr r, s')"
    and ok: "db_ok (st_db s)"
    and keyed: "lifecycle_keyed env req = Inr keyed"
    and fresh: "find_receipt (st_db s) (actor_type actor) (actor_id actor) (k_key keyed) = None"
  shows "\<exists>i row row' at event receipt.
     canonical_uuid (lr_id req) = Some i \<and> read_project (st_db s) i = Some row \<and>
     p_version row = lb_expected_version (lr_body req) \<and>
     lifecycle_step (lr_kind req) at row row' \<and>
     st_db s' = (st_db s)\<lparr>
       projects := map (\<lambda>p. if p_id p = i then row' else p) (projects (st_db s)),
       events := events (st_db s) @ [event],
       last_seq := last_seq (st_db s) + 1,
       changes := changes (st_db s) @ [\<lparr>ch_seq = last_seq (st_db s) + 1, ch_project = i,
         ch_event = ev_id event, ch_entity_type = ''project'', ch_op = op_changed,
         ch_created_at = at\<rparr>],
       receipts := receipts (st_db s) @ [receipt]\<rparr> \<and>
     ev_type event = kind_event (lr_kind req) \<and> ev_project event = i \<and>
     ev_actor_type event = actor_type actor \<and> ev_actor_id event = actor_id actor \<and>
     rc_key receipt = k_key keyed \<and> rc_project receipt = i \<and>
     v_version (lres_project r) = lb_expected_version (lr_body req) + 1 \<and>
     v_status (lres_project r) = p_status row'"
  using assms by (rule lifecycle_exact)

theorem lifecycle_execute_exact_witness:
  "\<exists>r s' row'. lifecycle_execute demo_env demo_actor demo_pause (st_of demo_db) = (Inr r, s') \<and>
     read_project (st_db s') demo_id = Some row' \<and> p_status row' = ''paused'' \<and>
     length (events (st_db s')) = 1 \<and> v_version (lres_project r) = 4"
proof -
  from demo_pause_runs obtain r s' where
    run: "lifecycle_execute demo_env demo_actor demo_pause (st_of demo_db) = (Inr r, s')" by blast
  obtain keyed where keyed: "lifecycle_keyed demo_env demo_pause = Inr keyed"
    using demo_pause_prepare by blast
  have "db_ok (st_db (st_of demo_db))"
    "find_receipt (st_db (st_of demo_db)) (actor_type demo_actor) (actor_id demo_actor) (k_key keyed) = None"
    by (simp_all add: st_of_def demo_db_ok)
  from lifecycle_execute_exact [OF run this(1) keyed this(2)] run show ?thesis
    by (intro exI [of _ r] exI [of _ s'])
       (auto simp: demo_pause_def lifecycle_step_simps demo_db_def empty_db_def
        read_project_def demo_project_def)
qed

theorem lifecycle_decides_witness:
  "\<exists>r s'. lifecycle_execute demo_env demo_actor demo_pause (st_of demo_db) = (Inr r, s')"
proof -
  obtain keyed where "lifecycle_prepare demo_env demo_actor demo_pause (st_of demo_db)
      = (Inr (keyed, demo_id), st_of demo_db)" using demo_pause_prepare by blast
  from lifecycle_decides [OF demo_total _ _ this] show ?thesis
    using demo_pause_legal by (auto simp: demo_db_ok demo_db_fresh demo_versions)
qed

theorem lifecycle_history_witness:
  "\<exists>row'. lifecycle_steps demo_project row' \<and> p_status row' = ''paused'' \<and>
     identity row' = identity demo_project"
proof -
  let ?row' = "demo_project\<lparr>p_version := 4, p_updated_at := 7, p_status := ''paused''\<rparr>"
  have "lifecycle_step KindPause 7 demo_project ?row'"
    by (simp add: lifecycle_step_simps demo_project_def)
  then have "lifecycle_steps demo_project ?row'"
    by (meson steps_refl steps_step)
  from this lifecycle_history [OF this] show ?thesis by (intro exI [of _ ?row']) simp
qed

text \<open>C7. No lost update: after one lifecycle command moved a project from a version, any other
  command, by anyone and under a key of its own, that still expects that version is refused
  with the version the winner left and changes nothing.\<close>

theorem lifecycle_no_lost_update:
  assumes win: "lifecycle_execute env actor1 req1 s = (Inr r, s1)" "db_ok (st_db s)"
      "lifecycle_keyed env req1 = Inr keyed1"
      "find_receipt (st_db s) (actor_type actor1) (actor_id actor1) (k_key keyed1) = None"
    and late: "lifecycle_prepare env actor2 req2 s1 = (Inr (keyed2, i), s1)"
      "find_receipt (st_db s1) (actor_type actor2) (actor_id actor2) (k_key keyed2) = None"
      "e_begin env (st_txs s1) = Inr ()"
    and same: "canonical_uuid (lr_id req1) = canonical_uuid (lr_id req2)"
      "lb_expected_version (lr_body req2) = lb_expected_version (lr_body req1)"
  shows "\<exists>s2. lifecycle_execute env actor2 req2 s1 =
       (Inl (Project (VersionConflict (lb_expected_version (lr_body req1) + 1))), s2) \<and>
     st_db s2 = st_db s1"
proof -
  have i: "canonical_uuid (lr_id req1) = Some i"
    using lifecycle_keyed_prepare(2) [OF late(1)] same(1) by simp
  from lifecycle_exact [OF win] i obtain row row' at where
    row: "read_project (st_db s) i = Some row" "p_version row = lb_expected_version (lr_body req1)"
    and step: "lifecycle_step (lr_kind req1) at row row'"
    and after: "projects (st_db s1) = map (\<lambda>p. if p_id p = i then row' else p) (projects (st_db s))"
    by auto
  have "p_id row' = i" "p_version row' = lb_expected_version (lr_body req1) + 1"
    using lifecycle_step_effect(1,2) [OF step] row read_project_Some [OF row(1)]
    by (auto simp: identity_def)
  moreover from this have "read_project (st_db s1) i = Some row'"
    using row(1) by (simp add: after read_project_def find_replaced)
  ultimately have "lifecycle_effect env actor2 req2 i (s1\<lparr>st_txs := Suc (st_txs s1)\<rparr>) =
      (Inl (Project (VersionConflict (lb_expected_version (lr_body req1) + 1))), s1\<lparr>st_txs := Suc (st_txs s1)\<rparr>)"
    using same(2) by (subst lifecycle_stale [of _ i row']) simp_all
  from lifecycle_effect_error [OF late(1,3,2) this] show ?thesis .
qed

definition demo_late :: lifecycle_request where
  "demo_late = \<lparr>lr_kind = KindArchive, lr_id = demo_id,
     lr_body = \<lparr>lb_key = ''k2'', lb_expected_version = 3, lb_reason = None\<rparr>\<rparr>"

lemma demo_late_prepare:
  "\<exists>keyed. lifecycle_prepare demo_env demo_actor demo_late s = (Inr (keyed, demo_id), s) \<and>
     k_key keyed = ''k2''"
proof -
  have "text_limit ''idempotencyKey'' ''k2'' 1 idempotency_key_max = Inr ()"
    "lifecycle_validate KindArchive (lr_body demo_late) = Inr ()"
    unfolding demo_late_def by code_simp+
  then show ?thesis
    by (simp add: lifecycle_prepare_def demo_late_def tx_bind_def lift_def ret_def
        canonical_id_def ok_or_def new_keyed_def command_digest_def bytes_and_digest_def to_bytes_def)
qed

theorem lifecycle_no_lost_update_witness:
  "\<exists>r s1 s2. lifecycle_execute demo_env demo_actor demo_pause (st_of demo_db) = (Inr r, s1) \<and>
     lifecycle_execute demo_env demo_actor demo_late s1 = (Inl (Project (VersionConflict 4)), s2)"
proof -
  from demo_pause_runs obtain r s1 where
    run: "lifecycle_execute demo_env demo_actor demo_pause (st_of demo_db) = (Inr r, s1)" by blast
  obtain keyed where keyed: "lifecycle_keyed demo_env demo_pause = Inr keyed" "k_key keyed = ''k1''"
    using demo_pause_prepare by blast
  obtain keyed2 where late: "lifecycle_prepare demo_env demo_actor demo_late s1 = (Inr (keyed2, demo_id), s1)"
    "k_key keyed2 = ''k2''" using demo_late_prepare by blast
  have start: "db_ok (st_db (st_of demo_db))"
    "find_receipt (st_db (st_of demo_db)) (actor_type demo_actor) (actor_id demo_actor) (k_key keyed) = None"
    by (simp_all add: st_of_def demo_db_ok)
  from lifecycle_exact [OF run start(1) keyed(1) start(2)] keyed(2) late(2) have
    "find_receipt (st_db s1) (actor_type demo_actor) (actor_id demo_actor) (k_key keyed2) = None"
    by (auto simp: find_receipt_def st_of_def demo_db_def empty_db_def)
  from lifecycle_no_lost_update [OF run start(1) keyed(1) start(2) late(1) this] have
    "\<exists>s2. lifecycle_execute demo_env demo_actor demo_late s1 = (Inl (Project (VersionConflict 4)), s2)"
    by (auto simp: demo_pause_def demo_late_def)
  with run show ?thesis by blast
qed

end
