(* ===== verification/Project_Feed.thy ===== *)
theory Project_Feed
  imports Project_Lifecycle
begin

text \<open>
  The paged reads: the project list (\<open>src/domains/projects/list.rs\<close>) and one project's
  activity (\<open>activity_page.rs\<close>), both keyset pages over \<open>(created_at, id)\<close>, and the change
  feed (\<open>changes.rs\<close>), a cursor over \<open>seq\<close>. The locale \<open>keyset_pages\<close> states what a
  keyset query promises and proves that a walk over a database other writers keep changing
  neither repeats a row nor skips one that was there throughout.
\<close>

section \<open>Keyset pages\<close>

text \<open>\<open>activity_page::split\<close>, which \<open>list\<close> writes out the same way: a \<open>limit + 1\<close> read as
  the page and the cursor that continues it.\<close>

definition split_page :: "('r \<Rightarrow> int \<times> string) \<Rightarrow> 'r list \<Rightarrow> int \<Rightarrow> 'r list \<times> string option" where
  "split_page position rows limit =
     (let has_more = limit < int (length rows);
          kept = take (nat limit) rows
      in (kept, if kept \<noteq> [] \<and> has_more
                then Some (encode_cursor (fst (position (last kept))) (snd (position (last kept))))
                else None))"

section \<open>The project list\<close>

definition statuses :: "string list" where
  "statuses = [''draft'', ''planning'', ''active'', ''paused'', ''completed'', ''canceled'']"

definition health_values :: "string list" where
  "health_values = [''unknown'', ''on_track'', ''at_risk'', ''off_track'']"

record list_request =
  lq_limit :: "int option"
  lq_cursor :: "string option"
  lq_status :: "string option"
  lq_health :: "string option"
  lq_include_archived :: "bool option"

record list_response =
  ls_projects :: "project_view list"
  ls_next_cursor :: "string option"

definition project_position :: "project_row \<Rightarrow> int \<times> string" where
  "project_position row = (p_created_at row, p_id row)"

definition list_page ::
  "list_request \<Rightarrow> cursor option \<Rightarrow> string option \<Rightarrow> string option \<Rightarrow> int \<Rightarrow> project_page" where
  "list_page req cursor status health limit = \<lparr>
     pp_status = status, pp_health = health,
     pp_include_archived = (case lq_include_archived req of None \<Rightarrow> False | Some b \<Rightarrow> b),
     pp_after = map_option (\<lambda>c. (at_ms c, cursor_id c)) cursor, pp_limit = limit + 1\<rparr>"

definition list_read :: "env \<Rightarrow> list_request \<Rightarrow> db \<Rightarrow> error + list_response" where
  "list_read env req d =
     and_then (page_limit (lq_limit req)) (\<lambda>limit.
     and_then (transpose_opt decode_cursor (lq_cursor req)) (\<lambda>cursor.
     and_then (check_vocabulary ''status'' (lq_status req) statuses) (\<lambda>status.
     and_then (check_vocabulary ''health'' (lq_health req) health_values) (\<lambda>health.
     let (rows, next) = split_page project_position
           (read_project_page d (list_page req cursor status health limit)) limit
     in and_then (load_views env d rows) (\<lambda>views.
        Inr \<lparr>ls_projects = views, ls_next_cursor = next\<rparr>)))))"

definition list_command :: "env \<Rightarrow> list_request \<Rightarrow> (st, list_response) command" where
  "list_command env req = \<lparr>cmd_verb = ProjectList,
     cmd_execute = (\<lambda>s actor. reading (list_read env req) s)\<rparr>"

section \<open>One project's activity\<close>

definition activity_orders :: "string list" where "activity_orders = [''desc'', ''asc'']"
definition activity_default :: int where "activity_default = 50"
definition activity_max :: int where "activity_max = 200"

record activity_request =
  aq_id :: string
  aq_limit :: "int option"
  aq_cursor :: "string option"
  aq_order :: "string option"

record event_view =
  evv_id :: string
  evv_project :: string
  evv_actor_type :: string
  evv_actor_id :: string
  evv_type :: string
  evv_entity_type :: string
  evv_entity_id :: string
  evv_payload :: json
  evv_created_at :: string

record activity_response =
  as_events :: "event_view list"
  as_next_cursor :: "string option"

text \<open>\<open>activity_page::view\<close>: a payload that is not an object reads as an empty one.\<close>

definition event_to_view :: "env \<Rightarrow> event_row \<Rightarrow> error + event_view" where
  "event_to_view env row =
     and_then (ok_or (iso env (ev_created_at row))
        (Project (Invariant ''project_timestamp_range''
           (''project_activity_events.created_at of '' @ ev_id row @
            '' is outside the representable range'')))) (\<lambda>created_at.
     Inr \<lparr>evv_id = ev_id row, evv_project = ev_project row, evv_actor_type = ev_actor_type row,
          evv_actor_id = ev_actor_id row, evv_type = ev_type row,
          evv_entity_type = ev_entity_type row, evv_entity_id = ev_entity_id row,
          evv_payload = (case e_from_str env (ev_payload row) of
             Inr (JObj kvs) \<Rightarrow> JObj kvs | _ \<Rightarrow> JObj []),
          evv_created_at = created_at\<rparr>)"

definition activity_read :: "env \<Rightarrow> activity_request \<Rightarrow> db \<Rightarrow> error + activity_response" where
  "activity_read env req d =
     and_then (canonical_id ''projectId'' (aq_id req)) (\<lambda>i.
     and_then (page_within (aq_limit req) activity_default activity_max) (\<lambda>limit.
     and_then (transpose_opt decode_cursor (aq_cursor req)) (\<lambda>cursor.
     and_then (check_vocabulary ''order'' (aq_order req) activity_orders) (\<lambda>order.
     if read_project d i = None then Inl (Project (ProjectNotFound (aq_id req)))
     else let (rows, next) = split_page event_position
                (read_activity_page d \<lparr>ap_project = i, ap_ascending = (order = Some ''asc''),
                   ap_after = map_option (\<lambda>c. (at_ms c, cursor_id c)) cursor,
                   ap_limit = limit + 1\<rparr>) limit
          in and_then (traverse (event_to_view env) rows) (\<lambda>views.
             Inr \<lparr>as_events = views, as_next_cursor = next\<rparr>)))))"

definition activity_command :: "env \<Rightarrow> activity_request \<Rightarrow> (st, activity_response) command" where
  "activity_command env req = \<lparr>cmd_verb = ActivityRead,
     cmd_execute = (\<lambda>s actor. reading (activity_read env req) s)\<rparr>"

section \<open>The change feed\<close>

definition changes_default :: int where "changes_default = 100"
definition changes_max :: int where "changes_max = 1000"

record changes_request =
  cq_after :: "int option"
  cq_limit :: "int option"

record change_frame =
  cf_seq :: int
  cf_entity :: string
  cf_project :: string
  cf_event :: string
  cf_op :: string

definition change_frame_of :: "change_row \<Rightarrow> change_frame" where
  "change_frame_of row = \<lparr>cf_seq = ch_seq row, cf_entity = ''project'', cf_project = ch_project row,
     cf_event = ch_event row, cf_op = ch_op row\<rparr>"

definition changes_read :: "changes_request \<Rightarrow> db \<Rightarrow> error + change_frame list" where
  "changes_read req d =
     (let after = (case cq_after req of None \<Rightarrow> 0 | Some a \<Rightarrow> a)
      in if after < 0 then Inl (Project (invalid_field ''after'' ''invalid''))
         else and_then (page_within (cq_limit req) changes_default changes_max) (\<lambda>limit.
           let (floor, head) = (case change_bounds d of
                 None \<Rightarrow> (0, 0) | Some (oldest, newest) \<Rightarrow> (oldest - 1, newest))
           in if head < after then Inl (invariant_refusal ''after'' ''cursor_ahead'')
              else if after < floor then Inl (invariant_refusal ''after'' ''cursor_expired'')
              else Inr (map change_frame_of (read_change_page d after limit))))"

definition changes_command :: "changes_request \<Rightarrow> (st, change_frame list) command" where
  "changes_command req = \<lparr>cmd_verb = ProjectChanges,
     cmd_execute = (\<lambda>s actor. reading (changes_read req) s)\<rparr>"

section \<open>What a keyset query promises\<close>

text \<open>
  \<open>fetch d c n\<close> is the query: at most \<open>n\<close> rows of the database \<open>d\<close> past the position \<open>c\<close>,
  in the order \<open>before\<close> of their positions, with no gap.
\<close>

definition past :: "('k \<Rightarrow> 'k \<Rightarrow> bool) \<Rightarrow> ('r \<Rightarrow> 'k) \<Rightarrow> 'k option \<Rightarrow> 'r \<Rightarrow> bool" where
  "past before position c r \<longleftrightarrow> (case c of None \<Rightarrow> True | Some k \<Rightarrow> before k (position r))"

text \<open>A walk: one database per page read, each page continuing after the last row kept. It
  answers the rows and whether it reached a page with no cursor.\<close>

fun walk ::
  "('d \<Rightarrow> 'k option \<Rightarrow> nat \<Rightarrow> 'r list) \<Rightarrow> ('r \<Rightarrow> 'k) \<Rightarrow> nat \<Rightarrow> 'k option \<Rightarrow> 'd list \<Rightarrow> 'r list \<times> bool" where
  "walk fetch position n c [] = ([], False)"
| "walk fetch position n c (d # ds) =
     (let page = fetch d c (n + 1); kept = take n page
      in if n < length page
         then let (rest, done) = walk fetch position n (Some (position (last kept))) ds
              in (kept @ rest, done)
         else (kept, True))"

lemma walk_more:
  "n < length (fetch d c (n + 1)) \<Longrightarrow>
     walk fetch position n c (d # ds) =
       (take n (fetch d c (n + 1)) @
          fst (walk fetch position n (Some (position (last (take n (fetch d c (n + 1)))))) ds),
        snd (walk fetch position n (Some (position (last (take n (fetch d c (n + 1)))))) ds))"
  by (simp add: Let_def split: prod.splits)

lemma walk_last:
  "\<not> n < length (fetch d c (n + 1)) \<Longrightarrow>
     walk fetch position n c (d # ds) = (take n (fetch d c (n + 1)), True)"
  by (simp add: Let_def)

lemma last_take_in: "1 \<le> n \<Longrightarrow> n < length xs \<Longrightarrow> last (take n xs) \<in> set xs"
  by (rule in_set_takeD [of _ n], rule last_in_set) auto

lemma last_take_nth: "1 \<le> n \<Longrightarrow> n < length xs \<Longrightarrow> last (take n xs) = xs ! (n - 1)"
  by (subst last_conv_nth) (auto simp: min_def)

locale keyset_pages =
  fixes ok :: "'d \<Rightarrow> bool"
    and fetch :: "'d \<Rightarrow> 'k option \<Rightarrow> nat \<Rightarrow> 'r list"
    and rows :: "'d \<Rightarrow> 'r set"
    and position :: "'r \<Rightarrow> 'k"
    and before :: "'k \<Rightarrow> 'k \<Rightarrow> bool"
  assumes before_irrefl: "\<not> before k k"
    and before_trans: "before j k \<Longrightarrow> before k l \<Longrightarrow> before j l"
    and fetch_sorted: "ok d \<Longrightarrow> sorted_wrt (\<lambda>a b. before (position a) (position b)) (fetch d c n)"
    and fetch_past: "r \<in> set (fetch d c n) \<Longrightarrow> r \<in> rows d \<and> past before position c r"
    and fetch_no_gap: "ok d \<Longrightarrow> r \<in> rows d \<Longrightarrow> past before position c r \<Longrightarrow> r \<notin> set (fetch d c n) \<Longrightarrow>
      length (fetch d c n) = n \<and> (\<forall>x \<in> set (fetch d c n). before (position x) (position r))"
begin

lemmas more = walk_more [where fetch = fetch and position = position]
lemmas ended = walk_last [where fetch = fetch and position = position]

lemma walk_past:
  "r \<in> set (fst (walk fetch position n c ds)) \<Longrightarrow> 1 \<le> n \<Longrightarrow> past before position c r"
proof (induction ds arbitrary: c)
  case (Cons d ds)
  let ?page = "fetch d c (n + 1)"
  show ?case
  proof (cases "r \<in> set (take n ?page)")
    case True
    then show ?thesis using fetch_past in_set_takeD by metis
  next
    case False
    have more': "n < length ?page"
    proof (rule ccontr)
      assume small: "\<not> n < length ?page"
      from Cons.prems(1) False show False unfolding ended [OF small] by simp
    qed
    have r: "r \<in> set (fst (walk fetch position n (Some (position (last (take n ?page)))) ds))"
      using Cons.prems(1) False unfolding more [OF more'] by simp
    have "before (position (last (take n ?page))) (position r)"
      using Cons.IH [OF r Cons.prems(2)] by (simp add: past_def)
    with fetch_past [OF last_take_in [OF Cons.prems(2) more']] show ?thesis
      by (auto simp: past_def split: option.splits intro: before_trans)
  qed
qed simp

lemma sorted_last: "sorted_wrt (\<lambda>a b. before (position a) (position b)) xs \<Longrightarrow> x \<in> set xs \<Longrightarrow>
    x = last xs \<or> before (position x) (position (last xs))"
  by (induction xs) auto

text \<open>No row is answered twice, and the rows come in order.\<close>

lemma walk_sorted:
  assumes "1 \<le> n" "\<forall>d \<in> set ds. ok d"
  shows "sorted_wrt (\<lambda>a b. before (position a) (position b)) (fst (walk fetch position n c ds))"
  using assms(2)
proof (induction ds arbitrary: c)
  case (Cons d ds)
  let ?kept = "take n (fetch d c (n + 1))"
  have kept: "sorted_wrt (\<lambda>a b. before (position a) (position b)) ?kept"
    using fetch_sorted [of d] Cons.prems by (intro sorted_wrt_take) simp
  show ?case
  proof (cases "n < length (fetch d c (n + 1))")
    case True
    let ?rest = "fst (walk fetch position n (Some (position (last ?kept))) ds)"
    have "before (position a) (position b)" if a: "a \<in> set ?kept" and b: "b \<in> set ?rest" for a b
    proof -
      have "before (position (last ?kept)) (position b)"
        using walk_past [OF b assms(1)] by (simp add: past_def)
      with sorted_last [OF kept a] show ?thesis by (auto intro: before_trans)
    qed
    with kept Cons show ?thesis
      unfolding more [OF True] by (simp add: sorted_wrt_append)
  next
    case False
    from kept show ?thesis unfolding ended [OF False] by simp
  qed
qed simp

lemma walk_from: "r \<in> set (fst (walk fetch position n c ds)) \<Longrightarrow> \<exists>d \<in> set ds. r \<in> rows d"
proof (induction ds arbitrary: c)
  case (Cons d ds)
  show ?case
  proof (cases "r \<in> set (take n (fetch d c (n + 1)))")
    case True
    then show ?thesis using fetch_past in_set_takeD by (metis list.set_intros(1))
  next
    case False
    with Cons show ?thesis by (auto simp: Let_def split: prod.splits if_splits) (metis fst_conv)
  qed
qed simp

text \<open>A row that is there at every read, at one position, is answered by a walk that ends.\<close>

lemma walk_complete:
  assumes "1 \<le> n" "snd (walk fetch position n c ds)"
    "\<forall>d \<in> set ds. ok d \<and> k \<in> position ` rows d"
    and "case c of None \<Rightarrow> True | Some j \<Rightarrow> before j k"
  shows "k \<in> position ` set (fst (walk fetch position n c ds))"
  using assms(2-4)
proof (induction ds arbitrary: c)
  case (Cons d ds)
  let ?page = "fetch d c (n + 1)" and ?kept = "take n (fetch d c (n + 1))"
  have kept: "set ?kept \<subseteq> set (fst (walk fetch position n c (d # ds)))"
    by (cases "n < length ?page") (simp_all add: more ended del: walk.simps)
  from Cons.prems(2) obtain r where r: "r \<in> rows d" "k = position r" and d: "ok d" by auto
  have past: "past before position c r" using Cons.prems(3) r by (cases c) (simp_all add: past_def)
  show ?case
  proof (cases "r \<in> set ?kept")
    case True
    with kept r show ?thesis by blast
  next
    case notin: False
    show ?thesis
    proof (cases "n < length ?page")
      case True
      have "before (position (last ?kept)) (position r)"
      proof (cases "r \<in> set ?page")
        case in_page: True
        then obtain i where i: "i < length ?page" "?page ! i = r" by (auto simp: in_set_conv_nth)
        have "n \<le> i" using notin i by (metis in_set_conv_nth length_take min_less_iff_conj
              not_le_imp_less nth_take)
        with assms(1) have "n - 1 < i" by simp
        with d show ?thesis
          using sorted_wrt_nth_less [OF fetch_sorted _ i(1)] i(2)
          by (simp only: last_take_nth [OF assms(1) True])
      next
        case False
        with fetch_no_gap [OF d r(1) past False] last_take_in [OF assms(1) True]
        show ?thesis by simp
      qed
      with Cons.IH [of "Some (position (last ?kept))"] Cons.prems r show ?thesis
        unfolding more [OF True] by auto
    next
      case False
      then have "set ?page = set ?kept" by simp
      with fetch_no_gap [OF d r(1) past] notin False show ?thesis by auto
    qed
  qed
qed simp

end

section \<open>The queries keep the promise\<close>

lemma sort_key_strict:
  "distinct (map k xs) \<Longrightarrow> sorted_wrt (\<lambda>a b. k a < k b) (sort_key k (filter P xs))"
proof -
  assume "distinct (map k xs)"
  then have "distinct (map k (filter P xs))" by (rule distinct_map_filter)
  then have "distinct (map k (sort_key k (filter P xs)))"
    by (metis mset_eq_imp_distinct_iff mset_map mset_sort)
  then have "sorted_wrt (<) (map k (sort_key k (filter P xs)))"
    by (simp add: strict_sorted_iff)
  then show ?thesis by (simp add: sorted_wrt_map)
qed

lemma take_no_gap:
  assumes "sorted_wrt R ys" "r \<in> set ys" "r \<notin> set (take n ys)"
  shows "length (take n ys) = n \<and> (\<forall>x \<in> set (take n ys). R x r)"
proof -
  have r: "r \<in> set (drop n ys)" using assms(2,3) by (metis append_take_drop_id set_append UnE)
  then have "n < length ys" by (metis drop_all empty_iff list.set(1) not_le)
  moreover have "sorted_wrt R (take n ys @ drop n ys)" using assms(1) by simp
  ultimately show ?thesis using r unfolding sorted_wrt_append by auto
qed

text \<open>The project list under one filter, newest first.\<close>

definition project_fetch ::
  "project_page \<Rightarrow> db \<Rightarrow> (int \<times> string) option \<Rightarrow> nat \<Rightarrow> project_row list" where
  "project_fetch page d c n = read_project_page d (page\<lparr>pp_after := c, pp_limit := int n\<rparr>)"

definition project_rows :: "project_page \<Rightarrow> db \<Rightarrow> project_row set" where
  "project_rows page d = {row \<in> set (projects d). page_admits (page\<lparr>pp_after := None\<rparr>) row}"

lemma page_admits_past:
  "page_admits (page\<lparr>pp_after := c, pp_limit := l\<rparr>) row \<longleftrightarrow>
     page_admits (page\<lparr>pp_after := None\<rparr>) row \<and> past (>) project_position c row"
  by (auto simp: page_admits_def past_def project_position_def split: option.splits)

lemma project_position_distinct: "db_ok d \<Longrightarrow> distinct (map project_position (projects d))"
  by (auto simp: db_ok_def unique_ok_def distinct_map inj_on_def project_position_def)

interpretation plist: keyset_pages db_ok "project_fetch page" "project_rows page" project_position "(>)"
  for page
proof
  fix d :: db and c n and r :: project_row
  let ?all = "sort_key project_position
    (filter (page_admits (page\<lparr>pp_after := c, pp_limit := int n\<rparr>)) (projects d))"
  have fetch: "project_fetch page d c n = take n (rev ?all)"
    by (simp add: project_fetch_def read_project_page_def project_position_def [abs_def])
  have "db_ok d \<Longrightarrow> sorted_wrt (\<lambda>a b. project_position a < project_position b) ?all"
    by (intro sort_key_strict project_position_distinct)
  then have desc: "db_ok d \<Longrightarrow> sorted_wrt (\<lambda>a b. project_position b < project_position a) (rev ?all)"
    by (simp add: sorted_wrt_rev)
  then show "db_ok d \<Longrightarrow> sorted_wrt (\<lambda>a b. project_position b < project_position a) (project_fetch page d c n)"
    unfolding fetch by (intro sorted_wrt_take)
  show "r \<in> set (project_fetch page d c n) \<Longrightarrow> r \<in> project_rows page d \<and> past (>) project_position c r"
    unfolding fetch by (auto dest!: in_set_takeD simp: project_rows_def page_admits_past)
  show "db_ok d \<Longrightarrow> r \<in> project_rows page d \<Longrightarrow> past (>) project_position c r \<Longrightarrow>
      r \<notin> set (project_fetch page d c n) \<Longrightarrow>
      length (project_fetch page d c n) = n \<and>
      (\<forall>x \<in> set (project_fetch page d c n). project_position r < project_position x)"
    unfolding fetch
    by (rule take_no_gap [OF desc]) (auto simp: project_rows_def page_admits_past)
qed (auto)

text \<open>One project's activity, in either direction.\<close>

definition activity_fetch ::
  "string \<Rightarrow> bool \<Rightarrow> db \<Rightarrow> (int \<times> string) option \<Rightarrow> nat \<Rightarrow> event_row list" where
  "activity_fetch i asc d c n = read_activity_page d
     \<lparr>ap_project = i, ap_ascending = asc, ap_after = c, ap_limit = int n\<rparr>"

definition activity_rows :: "string \<Rightarrow> db \<Rightarrow> event_row set" where
  "activity_rows i d = {ev \<in> set (events d). ev_project ev = i}"

definition in_order :: "bool \<Rightarrow> int \<times> string \<Rightarrow> int \<times> string \<Rightarrow> bool" where
  "in_order asc a b \<longleftrightarrow> (if asc then a < b else b < a)"

lemma event_position_distinct: "db_ok d \<Longrightarrow> distinct (map event_position (events d))"
  by (auto simp: db_ok_def unique_ok_def distinct_map inj_on_def event_position_def)

interpretation alist: keyset_pages db_ok "activity_fetch i asc" "activity_rows i" event_position
  "in_order asc" for i asc
proof
  fix d :: db and c n and r :: event_row
  let ?P = "\<lambda>ev. ev_project ev = i \<and> past (in_order asc) event_position c ev"
  let ?all = "sort_key event_position (filter ?P (events d))"
  let ?dir = "if asc then ?all else rev ?all"
  have fetch: "activity_fetch i asc d c n = take n ?dir"
  proof -
    let ?pg = "\<lparr>ap_project = i, ap_ascending = asc, ap_after = c, ap_limit = int n\<rparr>"
    have "(ev_project ev = ap_project ?pg \<and> (case ap_after ?pg of None \<Rightarrow> True | Some (at, k) \<Rightarrow>
        if ap_ascending ?pg then at < ev_created_at ev \<or> (ev_created_at ev = at \<and> k < ev_id ev)
        else ev_created_at ev < at \<or> (ev_created_at ev = at \<and> ev_id ev < k))) = ?P ev" for ev
      by (cases c) (auto simp: past_def in_order_def event_position_def)
    note same = this
    show ?thesis
      unfolding activity_fetch_def read_activity_page_def Let_def same by simp
  qed
  have asc: "db_ok d \<Longrightarrow> sorted_wrt (\<lambda>a b. event_position a < event_position b) ?all"
    by (intro sort_key_strict event_position_distinct)
  then have dir: "db_ok d \<Longrightarrow> sorted_wrt (\<lambda>a b. in_order asc (event_position a) (event_position b)) ?dir"
    by (auto simp: in_order_def sorted_wrt_rev)
  then show "db_ok d \<Longrightarrow> sorted_wrt (\<lambda>a b. in_order asc (event_position a) (event_position b))
      (activity_fetch i asc d c n)"
    unfolding fetch by (intro sorted_wrt_take)
  have set_dir: "set ?dir = {ev \<in> set (events d). ?P ev}" by auto
  show "r \<in> set (activity_fetch i asc d c n) \<Longrightarrow>
      r \<in> activity_rows i d \<and> past (in_order asc) event_position c r"
    unfolding fetch using set_dir by (auto dest!: in_set_takeD simp: activity_rows_def)
  show "db_ok d \<Longrightarrow> r \<in> activity_rows i d \<Longrightarrow> past (in_order asc) event_position c r \<Longrightarrow>
      r \<notin> set (activity_fetch i asc d c n) \<Longrightarrow>
      length (activity_fetch i asc d c n) = n \<and>
      (\<forall>x \<in> set (activity_fetch i asc d c n). in_order asc (event_position x) (event_position r))"
    unfolding fetch
    by (rule take_no_gap [OF dir]) (use set_dir in \<open>auto simp: activity_rows_def\<close>)
qed (auto simp: in_order_def split: if_splits)

section \<open>Walking the project list\<close>

text \<open>A client's walk: each page asks for the cursor the previous one answered; one database per
  request, the writes in between.\<close>

fun list_walk :: "env \<Rightarrow> list_request \<Rightarrow> db list \<Rightarrow> error + project_view list \<times> bool" where
  "list_walk env req [] = Inr ([], False)"
| "list_walk env req (d # ds) =
     and_then (list_read env req d) (\<lambda>r.
       case ls_next_cursor r of
         None \<Rightarrow> Inr (ls_projects r, True)
       | Some c \<Rightarrow> and_then (list_walk env (req\<lparr>lq_cursor := Some c\<rparr>) ds) (\<lambda>(vs, done).
                     Inr (ls_projects r @ vs, done)))"

text \<open>What a request's filters admit, and the rows whose position fits a cursor: every id the
  code stores is a canonical UUID, and 15 digits of milliseconds last 31,000 years.\<close>

definition list_admits :: "list_request \<Rightarrow> project_row \<Rightarrow> bool" where
  "list_admits req row \<longleftrightarrow> page_admits (list_page req None (lq_status req) (lq_health req) 0) row"

definition wire_ok :: "project_row \<Rightarrow> bool" where
  "wire_ok row \<longleftrightarrow> 0 \<le> p_created_at row \<and> p_created_at row < 10 ^ 15 \<and> length (p_id row) = 36 \<and>
     list_all cursor_id_byte (p_id row)"

lemma load_rows_ids: "load_rows env f g rows = Inr vs \<Longrightarrow> map v_id vs = map p_id rows"
  by (induction env f g rows arbitrary: vs rule: load_rows.induct)
     (auto simp: res_simps dest: project_to_view_Inr(1))

lemma load_views_ids: "load_views env d rows = Inr vs \<Longrightarrow> map v_id vs = map p_id rows"
  unfolding load_views_def Let_def by (rule load_rows_ids)

lemma check_vocabulary_ok: "check_vocabulary f v xs = Inr w \<Longrightarrow> w = v"
  by (auto simp: check_vocabulary_def split: option.splits if_splits)

lemma list_page_fetch:
  "1 \<le> limit \<Longrightarrow> read_project_page d (list_page req cursor status health limit) =
     project_fetch (list_page req None status health 0) d
       (map_option (\<lambda>c. (at_ms c, cursor_id c)) cursor) (nat limit + 1)"
  by (simp add: project_fetch_def list_page_def add.commute)

lemma list_page_cursor [simp]: "list_page (req\<lparr>lq_cursor := x\<rparr>) = list_page req"
  by (intro ext) (simp add: list_page_def)

lemma list_walk_rows:
  assumes "list_walk env req ds = Inr (views, fin)"
    and "\<forall>d \<in> set ds. \<forall>row \<in> set (projects d). wire_ok row"
    and "page_limit (lq_limit req) = Inr limit"
    and "transpose_opt decode_cursor (lq_cursor req) = Inr cursor"
  shows "\<exists>rows. walk (project_fetch (list_page req None (lq_status req) (lq_health req) 0))
       project_position (nat limit) (map_option (\<lambda>c. (at_ms c, cursor_id c)) cursor) ds = (rows, fin) \<and>
     map v_id views = map p_id rows"
  using assms
proof (induction ds arbitrary: req cursor views)
  case (Cons d ds)
  let ?pg = "list_page req None (lq_status req) (lq_health req) 0"
  let ?c = "map_option (\<lambda>c. (at_ms c, cursor_id c)) cursor"
  let ?page = "project_fetch ?pg d ?c (nat limit + 1)"
  have limit: "1 \<le> limit" using Cons.prems(3)
    by (auto simp: page_limit_def page_default_def page_max_def dest: page_within_bounds)
  from Cons.prems(1) obtain r where r: "list_read env req d = Inr r"
    by (auto simp: res_simps)
  let ?kept = "take (nat limit) ?page"
  have more: "ls_next_cursor r = (if nat limit < length ?page
      then Some (encode_cursor (p_created_at (last ?kept)) (p_id (last ?kept))) else None)"
    and views: "map v_id (ls_projects r) = map p_id ?kept"
    using r Cons.prems(3,4) limit
    by (auto simp: list_read_def res_simps split_page_def Let_def project_position_def
        list_page_fetch load_views_ids dest!: check_vocabulary_ok split: if_splits)
  show ?case
  proof (cases "nat limit < length ?page")
    case True
    let ?last = "last ?kept"
    have "?last \<in> set ?page" using limit True by (intro last_take_in) auto
    then have "?last \<in> set (projects d)"
      using plist.fetch_past [of ?last ?pg d ?c] by (auto simp: project_rows_def)
    with Cons.prems(2) have "wire_ok ?last" by simp
    then have dec: "transpose_opt decode_cursor (Some (encode_cursor (p_created_at ?last) (p_id ?last)))
        = Inr (Some \<lparr>at_ms = p_created_at ?last, cursor_id = p_id ?last\<rparr>)"
      by (simp add: wire_ok_def transpose_opt_def decode_encode_cursor)
    let ?req = "req\<lparr>lq_cursor := Some (encode_cursor (p_created_at ?last) (p_id ?last))\<rparr>"
    from Cons.prems(1) r more True obtain vs where
      vs: "list_walk env ?req ds = Inr (vs, fin)" "views = ls_projects r @ vs"
      by (auto simp: res_simps)
    have w: "\<forall>d \<in> set ds. \<forall>row \<in> set (projects d). wire_ok row" using Cons.prems(2) by simp
    have l: "page_limit (lq_limit ?req) = Inr limit" using Cons.prems(3) by simp
    have c: "transpose_opt decode_cursor (lq_cursor ?req)
        = Inr (Some \<lparr>at_ms = p_created_at ?last, cursor_id = p_id ?last\<rparr>)" using dec by simp
    from Cons.IH [OF vs(1) w l c] obtain rows where
      rows: "walk (project_fetch ?pg) project_position (nat limit)
               (Some (project_position ?last)) ds = (rows, fin)" "map v_id vs = map p_id rows"
      by (auto simp: project_position_def [symmetric])
    show ?thesis
      unfolding plist.more [OF True]
      using rows views vs(2) by (intro exI [of _ "?kept @ rows"]) simp
  next
    case False
    with Cons.prems(1) r more have "views = ls_projects r" "fin" by auto
    with views show ?thesis
      unfolding plist.ended [OF False] by (intro exI [of _ ?kept]) simp
  qed
qed simp

lemma appends_position:
  assumes "appends d d'" "db_ok d'" "row \<in> set (projects d)" "row' \<in> set (projects d')"
    and "p_id row = p_id row'"
  shows "project_position row = project_position row'"
proof -
  from assms(1) have "set (map identity (projects d)) \<subseteq> set (map identity (projects d'))"
    by (auto simp: appends_def prefix_def simp del: set_map)
  with assms(3) obtain row2 where row2: "row2 \<in> set (projects d')" "identity row2 = identity row"
    by (metis (no_types, lifting) imageE image_eqI list.set_map subsetD)
  then have "p_id row2 = p_id row'" using assms(5) by (simp add: identity_def)
  with row2(1) assms(2,4) have "row2 = row'"
    by (auto simp: db_ok_def unique_ok_def distinct_map inj_on_def)
  with row2(2) show ?thesis by (simp add: identity_def project_position_def)
qed

lemma appends_chain_position:
  assumes "sorted_wrt appends ds" "\<forall>d \<in> set ds. db_ok d" "d \<in> set ds" "d' \<in> set ds"
    and "row \<in> set (projects d)" "row' \<in> set (projects d')" "p_id row = p_id row'"
  shows "project_position row = project_position row'"
proof -
  from assms(3,4) obtain i j where "i < length ds" "ds ! i = d" "j < length ds" "ds ! j = d'"
    by (auto simp: in_set_conv_nth)
  moreover have "appends (ds ! i) (ds ! j) \<or> appends (ds ! j) (ds ! i)"
    if "i < length ds" "j < length ds" for i j
    using that assms(1) by (metis app.R_refl linorder_neqE_nat sorted_wrt_nth_less)
  ultimately have "appends d d' \<or> appends d' d" by metis
  with assms show ?thesis using appends_position by metis
qed


section \<open>Reading the change feed\<close>

lemma sort_key_id: "sorted (map f xs) \<Longrightarrow> sort_key f xs = xs"
  by (induction xs) (auto simp: insort_is_Cons)

lemma feed_sorted: "db_ok d \<Longrightarrow> sorted_wrt (<) (map ch_seq (changes d))"
  by (simp add: db_ok_def feed_ok_def)

lemma read_change_page_eq:
  assumes "db_ok d"
  shows "read_change_page d after limit = take (nat limit) (filter (\<lambda>r. after < ch_seq r) (changes d))"
proof -
  have "sorted (map ch_seq (changes d))"
    using feed_sorted [OF assms] by (rule strict_sorted_imp_sorted)
  then have "sorted (map ch_seq (filter (\<lambda>r. after < ch_seq r) (changes d)))"
    by (rule sorted_filter)
  then show ?thesis by (simp add: read_change_page_def sort_key_id)
qed

lemma foldl_min_below: "\<forall>x \<in> set qs. q \<le> x \<Longrightarrow> foldl min q qs = (q::int)"
  by (induction qs) (simp_all add: min_absorb1)

lemma fold_bounds:
  "sorted_wrt (<) (q # qs) \<Longrightarrow> foldl min q qs = (q::int) \<and> foldl max q qs = last (q # qs)"
proof (induction qs arbitrary: q)
  case (Cons r qs)
  then have "q < r" "sorted_wrt (<) (r # qs)" "\<forall>x \<in> set (r # qs). q \<le> x" by auto
  moreover have "max q r = r" using \<open>q < r\<close> by simp
  ultimately show ?case
    using Cons.IH [of r] foldl_min_below [of "r # qs" q] by (simp del: sorted_wrt.simps)
qed simp

lemma change_bounds_eq:
  "db_ok d \<Longrightarrow> change_bounds d =
     (if changes d = [] then None else Some (ch_seq (hd (changes d)), ch_seq (last (changes d))))"
  using fold_bounds [of "ch_seq (hd (changes d))" "map ch_seq (tl (changes d))"] feed_sorted [of d]
  by (cases "changes d") (auto simp: change_bounds_def last_map split: if_splits)

text \<open>A feed cursor is accepted exactly when the feed can continue it without a gap: it is not
  negative, not past the newest row and not below the row before the oldest (0 for an empty
  feed); every other cursor is refused by name, \<open>cursor_ahead\<close> or \<open>cursor_expired\<close>. The page is
  then the next rows in order, as many as the limit allows.\<close>

theorem changes_read_decides:
  assumes "db_ok d" "page_within (cq_limit req) 100 1000 = Inr limit"
    and after: "after = (case cq_after req of None \<Rightarrow> 0 | Some a \<Rightarrow> a)" "0 \<le> after"
  shows "changes_read req d =
     (if changes d = []
      then (if 0 < after then Inl (invariant_refusal ''after'' ''cursor_ahead'') else Inr [])
      else if ch_seq (last (changes d)) < after then Inl (invariant_refusal ''after'' ''cursor_ahead'')
      else if after < ch_seq (hd (changes d)) - 1
      then Inl (invariant_refusal ''after'' ''cursor_expired'')
      else Inr (map change_frame_of
             (take (nat limit) (filter (\<lambda>r. after < ch_seq r) (changes d)))))"
  using assms(2-)
  by (auto simp: changes_read_def Let_def changes_default_def changes_max_def
      change_bounds_eq [OF assms(1)] read_change_page_eq [OF assms(1)])

text \<open>Polling the feed with the last \<open>seq\<close> seen, while commands commit between the polls, reads
  the feed of the later database contiguously: the two pages joined are the rows after the
  first cursor, in order, none skipped and none repeated.\<close>

theorem changes_pages_contiguous:
  assumes ok: "db_ok d" "db_ok d'" "appends d d'"
    and first: "changes_read \<lparr>cq_after = Some after, cq_limit = l\<rparr> d = Inr p" "p \<noteq> []"
    and second: "changes_read \<lparr>cq_after = Some (cf_seq (last p)), cq_limit = l'\<rparr> d' = Inr q"
  shows "p @ q = map change_frame_of
           (take (length p + length q) (filter (\<lambda>r. after < ch_seq r) (changes d')))"
proof -
  have page: "\<exists>n. x = map change_frame_of (take n (filter (\<lambda>r. a < ch_seq r) (changes e)))"
    if "changes_read \<lparr>cq_after = Some a, cq_limit = m\<rparr> e = Inr x" "db_ok e" for a m e x
    using that by (auto simp: changes_read_def Let_def res_simps read_change_page_eq
        split: if_splits option.splits prod.splits)
  let ?f = "filter (\<lambda>r. after < ch_seq r) (changes d)"
  let ?f' = "filter (\<lambda>r. after < ch_seq r) (changes d')"
  from page [OF first(1) ok(1)] obtain n where n: "p = map change_frame_of (take n ?f)" by blast
  from ok(3) obtain more where more: "changes d' = changes d @ more" by (auto simp: appends_def prefix_def)
  define k where "k = length p"
  have k: "k = length (take n ?f)" "k \<le> length ?f" "0 < k" using first(2) by (auto simp: k_def n)
  have p: "p = map change_frame_of (take k ?f')" using k by (auto simp: n more k_def min_def)
  have len: "k \<le> length ?f'" using k(2) by (simp add: more)
  have last: "cf_seq (last p) = ch_seq (?f' ! (k - 1))"
  proof -
    have ne: "take k ?f' \<noteq> []" using k(3) len by auto
    then have "last (take k ?f') = ?f' ! (k - 1)" using k(3) len by (simp add: last_conv_nth)
    then show ?thesis by (simp only: p last_map [OF ne]) (simp add: change_frame_of_def)
  qed
  have sorted: "sorted_wrt (\<lambda>a b. ch_seq a < ch_seq b) ?f'"
    using feed_sorted [OF ok(2)] by (simp add: sorted_wrt_map sorted_wrt_filter)
  have drop: "filter (\<lambda>r. ch_seq (ys ! (j - 1)) < ch_seq r) ys = drop j ys"
    if "sorted_wrt (\<lambda>a b. ch_seq a < ch_seq b) ys" "0 < j" "j \<le> length ys" for ys j
  proof -
    have "filter (\<lambda>r. ch_seq (ys ! (j - 1)) < ch_seq r) (take j ys) = []"
    proof -
      have "ch_seq (ys ! i) \<le> ch_seq (ys ! (j - 1))" if "i < j" for i
      proof (cases "i = j - 1")
        case False
        then have "i < j - 1" "j - 1 < length ys" using that \<open>j \<le> length ys\<close> by auto
        with sorted_wrt_nth_less [OF \<open>sorted_wrt _ ys\<close>, of i "j - 1"]
        show ?thesis by simp
      qed simp
      then show ?thesis by (force simp: filter_empty_conv in_set_conv_nth)
    qed
    moreover have "filter (\<lambda>r. ch_seq (ys ! (j - 1)) < ch_seq r) (drop j ys) = drop j ys"
      using that sorted_wrt_nth_less [OF that(1), of "j - 1"]
      by (intro filter_True) (auto simp: in_set_conv_nth)
    ultimately show ?thesis by (metis append_self_conv2 append_take_drop_id filter_append)
  qed
  from page [OF second ok(2)] obtain m where
    m: "q = map change_frame_of (take m (filter (\<lambda>r. cf_seq (last p) < ch_seq r) (changes d')))" by blast
  have "after < cf_seq (last p)"
    using k(3) len nth_mem [of "k - 1" ?f'] by (auto simp: last)
  then have "filter (\<lambda>r. cf_seq (last p) < ch_seq r) (changes d')
      = filter (\<lambda>r. cf_seq (last p) < ch_seq r) ?f'"
    by (auto intro: filter_cong)
  also have "\<dots> = drop k ?f'" unfolding last by (rule drop [OF sorted k(3) len])
  finally have q: "q = map change_frame_of (take m (drop k ?f'))" by (simp add: m)
  have "take (k + length q) ?f' = take k ?f' @ take (length q) (drop k ?f')"
    by (rule take_add)
  moreover have "take (length q) (drop k ?f') = take m (drop k ?f')"
    by (simp add: q min_def)
  ultimately have "take (k + length q) ?f' = take k ?f' @ take m (drop k ?f')" by simp
  then have "map change_frame_of (take (k + length q) ?f') = p @ q"
    by (simp only: map_append p [symmetric] q [symmetric])
  then show ?thesis by (simp only: k_def)
qed

section \<open>Concrete reads\<close>

definition demo_feed :: db where
  "demo_feed = demo_db\<lparr>last_seq := 3, changes :=
     [\<lparr>ch_seq = 1, ch_project = demo_id, ch_event = ''e1'', ch_entity_type = ''project'',
       ch_op = op_changed, ch_created_at = 1\<rparr>,
      \<lparr>ch_seq = 2, ch_project = demo_id, ch_event = ''e2'', ch_entity_type = ''project'',
       ch_op = op_changed, ch_created_at = 2\<rparr>]\<rparr>"

lemma demo_feed_ok: "db_ok demo_feed"
  using demo_db_ok
  by (simp add: db_ok_def unique_ok_def references_ok_def feed_ok_def demo_feed_def)

theorem changes_read_decides_witness:
  "\<exists>frames. changes_read \<lparr>cq_after = Some 1, cq_limit = None\<rparr> demo_feed = Inr frames \<and>
     map cf_event frames = [''e2'']"
  using changes_read_decides [OF demo_feed_ok, of "\<lparr>cq_after = Some 1, cq_limit = None\<rparr>" 100 1]
  by (simp add: page_within_def demo_feed_def change_frame_of_def)

theorem changes_pages_contiguous_witness:
  "\<exists>p q. changes_read \<lparr>cq_after = Some 0, cq_limit = Some 1\<rparr> demo_feed = Inr p \<and>
     changes_read \<lparr>cq_after = Some 1, cq_limit = Some 5\<rparr> demo_feed = Inr q \<and>
     p @ q = map change_frame_of (changes demo_feed)"
proof -
  have first: "changes_read \<lparr>cq_after = Some 0, cq_limit = Some 1\<rparr> demo_feed
      = Inr [change_frame_of (changes demo_feed ! 0)]"
    and second: "changes_read \<lparr>cq_after = Some 1, cq_limit = Some 5\<rparr> demo_feed
      = Inr [change_frame_of (changes demo_feed ! 1)]"
    by (simp_all add: changes_read_def changes_default_def changes_max_def page_within_def
        change_bounds_eq [OF demo_feed_ok] read_change_page_eq [OF demo_feed_ok])
       (simp_all add: demo_feed_def numeral_eq_Suc)
  from changes_pages_contiguous [OF demo_feed_ok demo_feed_ok app.R_refl first, of "Some 5"
      "[change_frame_of (changes demo_feed ! 1)]"] first second
  show ?thesis by (simp add: demo_feed_def change_frame_of_def)
qed

definition demo_list :: list_request where
  "demo_list = \<lparr>lq_limit = Some 5, lq_cursor = None, lq_status = None, lq_health = None,
     lq_include_archived = None\<rparr>"

lemma demo_wire: "\<forall>row \<in> set (projects demo_db). wire_ok row"
proof -
  have "list_all cursor_id_byte demo_id" "length demo_id = 36" unfolding demo_id_def by code_simp+
  then show ?thesis by (simp add: demo_db_def demo_project_def wire_ok_def)
qed


end
