(* ===== verification/Project_Plan.thy ===== *)
theory Project_Plan
  imports Project_Feed
begin

text \<open>
  Reading one project: its charter with its transfer binding (\<open>src/domains/projects/show.rs\<close>)
  and its committed plan (\<open>plan.rs\<close> on the rows of \<open>src/store/project_plan.rs\<close>). The plan
  drops archived milestones, items and criteria, and the edges that name an archived item.
\<close>

section \<open>The charter\<close>

record show_response =
  sr_project :: project_view
  sr_transfer :: "transfer_view option"

definition show_read :: "env \<Rightarrow> string \<Rightarrow> db \<Rightarrow> error + show_response" where
  "show_read env raw d =
     and_then (canonical_id ''projectId'' raw) (\<lambda>i.
     and_then (ok_or (read_project d i) (Project (ProjectNotFound raw))) (\<lambda>row.
     and_then (load_views env d [row]) (\<lambda>views.
     and_then (if views = [] then Inl (Project (ProjectNotFound raw)) else Inr (last views)) (\<lambda>view.
     and_then (binding_view env i (find_binding d i)) (\<lambda>transfer.
     Inr \<lparr>sr_project = view, sr_transfer = transfer\<rparr>)))))"

definition show_command :: "env \<Rightarrow> string \<Rightarrow> (st, show_response) command" where
  "show_command env raw = \<lparr>cmd_verb = ProjectShow,
     cmd_execute = (\<lambda>s actor. reading (show_read env raw) s)\<rparr>"

section \<open>The plan rows\<close>

record plan_rows =
  pl_milestones :: "milestone_row list"
  pl_work_items :: "work_item_row list"
  pl_criteria :: "criterion_row list"
  pl_dependencies :: "dependency_row list"

definition criteria_and_edges :: "db \<Rightarrow> string \<Rightarrow> criterion_row list \<times> dependency_row list" where
  "criteria_and_edges d project =
     (sort_key (\<lambda>c. (c_position c, c_id c)) (filter (\<lambda>c. c_project c = project) (criteria d)),
      sort_key (\<lambda>e. (dp_blocker e, dp_blocked e)) (filter (\<lambda>e. dp_project e = project) (dependencies d)))"

definition read_plan_rows :: "db \<Rightarrow> string \<Rightarrow> plan_rows" where
  "read_plan_rows d project =
     (let (crits, edges) = criteria_and_edges d project
      in \<lparr>pl_milestones = sort_key (\<lambda>m. (ms_position m, ms_id m))
             (filter (\<lambda>m. ms_project m = project) (milestones d)),
          pl_work_items = sort_key (\<lambda>w. (wi_position w, wi_number w))
             (filter (\<lambda>w. wi_project w = project) (work_items d)),
          pl_criteria = crits, pl_dependencies = edges\<rparr>)"

section \<open>The plan on the wire\<close>

record milestone_view =
  mv_id :: string
  mv_name :: string
  mv_description :: string
  mv_target_date :: string
  mv_position :: int
  mv_status :: string

record work_item_view =
  wv_id :: string
  wv_number :: int
  wv_parent :: "string option"
  wv_milestone :: "string option"
  wv_kind :: string
  wv_title :: string
  wv_description :: string
  wv_status :: string
  wv_priority :: string
  wv_estimate :: "int option"
  wv_assignee_type :: "string option"
  wv_assignee_id :: "string option"
  wv_repo :: "string option"
  wv_version :: int
  wv_position :: int

record plan_criterion_view =
  pcv_criterion :: criterion_view
  pcv_work_item :: "string option"

record dependency_view =
  dv_blocker :: string
  dv_blocked :: string

record plan_view =
  plv_project_id :: string
  plv_version :: int
  plv_milestones :: "milestone_view list"
  plv_work_items :: "work_item_view list"
  plv_criteria :: "plan_criterion_view list"
  plv_dependencies :: "dependency_view list"

definition milestone_to_view :: "env \<Rightarrow> milestone_row \<Rightarrow> error + milestone_view" where
  "milestone_to_view env row =
     and_then (rendered env (ms_target_date row) (ms_id row) ''project_milestones.target_date'') (\<lambda>target.
     Inr \<lparr>mv_id = ms_id row, mv_name = ms_name row, mv_description = ms_description row,
          mv_target_date = target, mv_position = ms_position row, mv_status = ms_status row\<rparr>)"

definition work_item_to_view :: "work_item_row \<Rightarrow> work_item_view" where
  "work_item_to_view row = \<lparr>
     wv_id = wi_id row, wv_number = wi_number row, wv_parent = wi_parent row,
     wv_milestone = wi_milestone row, wv_kind = wi_kind row, wv_title = wi_title row,
     wv_description = wi_description row, wv_status = wi_status row, wv_priority = wi_priority row,
     wv_estimate = wi_estimate row, wv_assignee_type = wi_assignee_type row,
     wv_assignee_id = wi_assignee_id row, wv_repo = wi_repo row, wv_version = wi_version row,
     wv_position = wi_position row\<rparr>"

definition plan_to_view :: "env \<Rightarrow> string \<Rightarrow> int \<Rightarrow> plan_rows \<Rightarrow> error + plan_view" where
  "plan_to_view env project version rows =
     and_then (traverse (milestone_to_view env)
         (filter (\<lambda>m. ms_archived_at m = None) (pl_milestones rows))) (\<lambda>ms.
     let items = map work_item_to_view (filter (\<lambda>w. wi_archived_at w = None) (pl_work_items rows));
         live = wv_id ` set items;
         edges = map (\<lambda>e. \<lparr>dv_blocker = dp_blocker e, dv_blocked = dp_blocked e\<rparr>)
           (filter (\<lambda>e. dp_blocker e \<in> live \<and> dp_blocked e \<in> live) (pl_dependencies rows));
         crits = map (\<lambda>c. \<lparr>pcv_criterion = criterion_to_view c, pcv_work_item = c_work_item c\<rparr>)
           (filter (\<lambda>c. c_archived_at c = None) (pl_criteria rows))
     in Inr \<lparr>plv_project_id = project, plv_version = version, plv_milestones = ms,
             plv_work_items = items, plv_criteria = crits, plv_dependencies = edges\<rparr>)"

text \<open>The version and the rows come from one snapshot: the command reads in one transaction.\<close>

definition plan_read :: "env \<Rightarrow> string \<Rightarrow> db \<Rightarrow> error + plan_view" where
  "plan_read env raw d =
     and_then (canonical_id ''projectId'' raw) (\<lambda>i.
     and_then (ok_or (read_project d i) (Project (ProjectNotFound raw))) (\<lambda>project.
     plan_to_view env (p_id project) (p_plan_version project) (read_plan_rows d (p_id project))))"

definition plan_command :: "env \<Rightarrow> string \<Rightarrow> (st, plan_view) command" where
  "plan_command env raw = \<lparr>cmd_verb = PlanRead,
     cmd_execute = (\<lambda>s actor. reading (plan_read env raw) s)\<rparr>"

section \<open>Properties\<close>

lemma milestones_viewed:
  "list_all2 (\<lambda>m v. milestone_to_view env m = Inr v) ms vs \<Longrightarrow> map mv_id vs = map ms_id ms"
  by (induction rule: list_all2_induct) (auto simp: milestone_to_view_def res_simps)

lemma plan_to_view_Inr:
  assumes "plan_to_view env project version rows = Inr plan"
  shows "plv_project_id plan = project" "plv_version plan = version"
    "map mv_id (plv_milestones plan) = map ms_id (filter (\<lambda>m. ms_archived_at m = None) (pl_milestones rows))"
    "plv_work_items plan = map work_item_to_view (filter (\<lambda>w. wi_archived_at w = None) (pl_work_items rows))"
    "plv_criteria plan = map (\<lambda>c. \<lparr>pcv_criterion = criterion_to_view c, pcv_work_item = c_work_item c\<rparr>)
       (filter (\<lambda>c. c_archived_at c = None) (pl_criteria rows))"
    "plv_dependencies plan = map (\<lambda>e. \<lparr>dv_blocker = dp_blocker e, dv_blocked = dp_blocked e\<rparr>)
       (filter (\<lambda>e. {dp_blocker e, dp_blocked e} \<subseteq> wv_id ` set (plv_work_items plan)) (pl_dependencies rows))"
  using assms milestones_viewed by (auto simp: plan_to_view_def res_simps Let_def)

lemma traverse_fails: "traverse f xs = Inl e \<Longrightarrow> \<exists>x. f x = Inl e"
  by (induction xs) (auto simp: and_then_Inl_iff)

lemma rendered_fails: "rendered env ms i col = Inl e \<Longrightarrow> \<exists>i m. e = Project (Invariant i m)"
  by (auto simp: rendered_def res_simps)

lemma plan_to_view_Inl:
  assumes "plan_to_view env project version rows = Inl e"
  shows "\<exists>i m. e = Project (Invariant i m)"
proof -
  from assms obtain m where "milestone_to_view env m = Inl e"
    by (auto simp: plan_to_view_def and_then_Inl_iff Let_def dest: traverse_fails)
  then show ?thesis by (auto simp: milestone_to_view_def and_then_Inl_iff dest: rendered_fails)
qed

lemma plan_rows_read [simp]:
  "pl_milestones (read_plan_rows d i) = sort_key (\<lambda>m. (ms_position m, ms_id m)) (filter (\<lambda>m. ms_project m = i) (milestones d))"
  "pl_work_items (read_plan_rows d i) = sort_key (\<lambda>w. (wi_position w, wi_number w)) (filter (\<lambda>w. wi_project w = i) (work_items d))"
  "pl_criteria (read_plan_rows d i) = sort_key (\<lambda>c. (c_position c, c_id c)) (filter (\<lambda>c. c_project c = i) (criteria d))"
  "pl_dependencies (read_plan_rows d i) =
     sort_key (\<lambda>e. (dp_blocker e, dp_blocked e)) (filter (\<lambda>e. dp_project e = i) (dependencies d))"
  by (simp_all add: read_plan_rows_def criteria_and_edges_def)

lemma items_sorted:
  "sorted (map (\<lambda>w. (wv_position w, wv_number w))
     (map work_item_to_view (filter P (sort_key (\<lambda>w. (wi_position w, wi_number w)) ws))))"
proof -
  have "(\<lambda>w. (wv_position w, wv_number w)) \<circ> work_item_to_view = (\<lambda>w. (wi_position w, wi_number w))"
    by (auto simp: work_item_to_view_def)
  then show ?thesis by (simp add: sorted_filter)
qed

text \<open>The committed plan is the live rows of its project and nothing else: at the project's own
  version it lists exactly the milestones, work items and criteria of the project that are not
  archived, work items in display order, and exactly the edges whose two items are both listed, so
  no edge dangles. An unknown or malformed id is refused with exit code 64, and otherwise only a
  milestone date outside the representable range can fail the read.\<close>

theorem plan_shows_live_rows:
  "case plan_read env raw d of
     Inr plan \<Rightarrow> \<exists>i row. canonical_uuid raw = Some i \<and> read_project d i = Some row \<and>
       plv_project_id plan = i \<and> plv_version plan = p_plan_version row \<and>
       mv_id ` set (plv_milestones plan) =
         ms_id ` {m \<in> set (milestones d). ms_project m = i \<and> ms_archived_at m = None} \<and>
       set (plv_work_items plan) =
         work_item_to_view ` {w \<in> set (work_items d). wi_project w = i \<and> wi_archived_at w = None} \<and>
       sorted (map (\<lambda>w. (wv_position w, wv_number w)) (plv_work_items plan)) \<and>
       set (plv_criteria plan) =
         (\<lambda>c. \<lparr>pcv_criterion = criterion_to_view c, pcv_work_item = c_work_item c\<rparr>) `
           {c \<in> set (criteria d). c_project c = i \<and> c_archived_at c = None} \<and>
       set (plv_dependencies plan) =
         (\<lambda>e. \<lparr>dv_blocker = dp_blocker e, dv_blocked = dp_blocked e\<rparr>) `
           {e \<in> set (dependencies d). dp_project e = i \<and>
              {dp_blocker e, dp_blocked e} \<subseteq> wv_id ` set (plv_work_items plan)}
   | Inl e \<Rightarrow> (Option.bind (canonical_uuid raw) (read_project d) = None \<and> exit_code e = 64) \<or>
       (\<exists>i m. e = Project (Invariant i m))"
proof (cases "plan_read env raw d")
  case (Inl e)
  then consider "canonical_uuid raw = None" "e = Project (invalid_field ''projectId'' ''invalid'')"
    | i where "canonical_uuid raw = Some i" "read_project d i = None" "e = Project (ProjectNotFound raw)"
    | project :: project_row where "plan_to_view env (p_id project) (p_plan_version project) (read_plan_rows d (p_id project)) = Inl e"
    by (auto simp: plan_read_def and_then_Inl_iff res_simps canonical_id_def)
  then show ?thesis
    using Inl plan_to_view_Inl by cases (auto simp: invalid_field_def)
next
  case (Inr plan)
  then obtain i row where i: "canonical_uuid raw = Some i" "read_project d i = Some row"
    and view: "plan_to_view env (p_id row) (p_plan_version row) (read_plan_rows d (p_id row)) = Inr plan"
    by (auto simp: plan_read_def res_simps canonical_id_def)
  have id: "p_id row = i" using read_project_Some [OF i(2)] by simp
  note plan = plan_to_view_Inr [OF view [unfolded id]]
  have "mv_id ` set (plv_milestones plan) = set (map mv_id (plv_milestones plan))" by simp
  then have "mv_id ` set (plv_milestones plan) =
      ms_id ` {m \<in> set (milestones d). ms_project m = i \<and> ms_archived_at m = None}"
    unfolding plan(3) by auto
  moreover have "sorted (map (\<lambda>w. (wv_position w, wv_number w)) (plv_work_items plan))"
    unfolding plan(4) plan_rows_read by (rule items_sorted)
  moreover have "set (plv_work_items plan) =
      work_item_to_view ` {w \<in> set (work_items d). wi_project w = i \<and> wi_archived_at w = None}"
    unfolding plan(4) by auto
  moreover have "set (plv_criteria plan) =
      (\<lambda>c. \<lparr>pcv_criterion = criterion_to_view c, pcv_work_item = c_work_item c\<rparr>) `
        {c \<in> set (criteria d). c_project c = i \<and> c_archived_at c = None}"
    unfolding plan(5) by auto
  moreover have "set (plv_dependencies plan) =
      (\<lambda>e. \<lparr>dv_blocker = dp_blocker e, dv_blocked = dp_blocked e\<rparr>) `
        {e \<in> set (dependencies d). dp_project e = i \<and>
           {dp_blocker e, dp_blocked e} \<subseteq> wv_id ` set (plv_work_items plan)}"
    by (subst plan(6)) auto
  ultimately show ?thesis using i Inr plan(1,2) by simp
qed

end
