(* ===== verification/Plan_Operations.thy ===== *)
theory Plan_Operations
  imports Project_View
begin

text \<open>
  The twelve typed operations a plan proposal is written in (\<open>operations.rs\<close>,
  \<open>operation_fields.rs\<close> and \<open>work_item_fields.rs\<close> of \<open>src/domains/projects\<close>), and the derived
  \<open>Serialize\<close> and \<open>Deserialize\<close> through which they reach a request body, a digest and a stored
  column: structs that deny unknown members, optional members left out when absent, and the
  \<open>op\<close> tag that names the operation.
\<close>

section \<open>Fields\<close>

text \<open>A member that may be \<open>null\<close>: \<open>Option<Nullable<T>>\<close> is absent, \<open>null\<close> or a value.\<close>

datatype 'a nullable = Null | Value 'a

fun nullable_value :: "'a nullable \<Rightarrow> 'a option" where
  "nullable_value Null = None"
| "nullable_value (Value v) = Some v"

datatype evidence_requirement = RequireNone | RequireReported | RequireVerified

datatype milestone_status =
  MilestonePlanned | MilestoneActive | MilestoneCompleted | MilestoneCanceled

datatype work_item_kind = ItemFeature | ItemTask | ItemBug | ItemResearch

datatype work_item_priority =
  PriorityUrgent | PriorityHigh | PriorityNormal | PriorityLow | PriorityNone

fun evidence_requirement_str :: "evidence_requirement \<Rightarrow> string" where
  "evidence_requirement_str RequireNone = ''none''"
| "evidence_requirement_str RequireReported = ''reported''"
| "evidence_requirement_str RequireVerified = ''verified''"

fun milestone_status_str :: "milestone_status \<Rightarrow> string" where
  "milestone_status_str MilestonePlanned = ''planned''"
| "milestone_status_str MilestoneActive = ''active''"
| "milestone_status_str MilestoneCompleted = ''completed''"
| "milestone_status_str MilestoneCanceled = ''canceled''"

fun work_item_kind_str :: "work_item_kind \<Rightarrow> string" where
  "work_item_kind_str ItemFeature = ''feature''"
| "work_item_kind_str ItemTask = ''task''"
| "work_item_kind_str ItemBug = ''bug''"
| "work_item_kind_str ItemResearch = ''research''"

fun work_item_priority_str :: "work_item_priority \<Rightarrow> string" where
  "work_item_priority_str PriorityUrgent = ''urgent''"
| "work_item_priority_str PriorityHigh = ''high''"
| "work_item_priority_str PriorityNormal = ''normal''"
| "work_item_priority_str PriorityLow = ''low''"
| "work_item_priority_str PriorityNone = ''none''"

record assignee =
  as_type :: principal_type
  as_id :: string

record project_patch =
  pp_name :: "string option"
  pp_outcome :: "string option"
  pp_constraints :: "string list option"
  pp_non_goals :: "string list option"
  pp_target_date :: "string nullable option"
  pp_repositories :: "string list option"

record criterion_patch =
  cp_description :: "string option"
  cp_required :: "bool option"
  cp_evidence_requirement :: "evidence_requirement option"
  cp_position :: "int option"

record proposed_criterion =
  pc_description :: string
  pc_required :: "bool option"
  pc_evidence_requirement :: "evidence_requirement option"
  pc_position :: "int option"
  pc_id :: string
  pc_work_item_id :: "string nullable option"

record milestone_patch =
  mp_name :: "string option"
  mp_description :: "string option"
  mp_target_date :: "string option"
  mp_position :: "int option"
  mp_status :: "milestone_status option"

record proposed_milestone =
  pm_name :: string
  pm_description :: "string option"
  pm_target_date :: string
  pm_position :: "int option"
  pm_status :: "milestone_status option"
  pm_id :: string

record work_item_patch =
  wp_parent :: "string nullable option"
  wp_milestone :: "string nullable option"
  wp_kind :: "work_item_kind option"
  wp_title :: "string option"
  wp_description :: "string option"
  wp_priority :: "work_item_priority option"
  wp_estimate :: "int nullable option"
  wp_assignee :: "assignee nullable option"
  wp_repo :: "string nullable option"
  wp_position :: "int option"

record proposed_work_item =
  pw_parent :: "string nullable option"
  pw_milestone :: "string nullable option"
  pw_kind :: work_item_kind
  pw_title :: string
  pw_description :: "string option"
  pw_priority :: "work_item_priority option"
  pw_estimate :: "int nullable option"
  pw_assignee :: "assignee nullable option"
  pw_repo :: "string nullable option"
  pw_position :: "int option"
  pw_id :: string

datatype operation =
    ProjectUpdate project_patch
  | CriterionCreate proposed_criterion
  | CriterionUpdate string criterion_patch
  | CriterionArchive string
  | MilestoneCreate proposed_milestone
  | MilestoneUpdate string milestone_patch
  | MilestoneArchive string
  | WorkItemCreate proposed_work_item
  | WorkItemUpdate string work_item_patch
  | WorkItemArchive string
  | DependencyAdd string string
  | DependencyRemove string string

section \<open>Writing\<close>

fun nullable_json :: "('a \<Rightarrow> json) \<Rightarrow> 'a nullable \<Rightarrow> json" where
  "nullable_json f Null = JNull"
| "nullable_json f (Value v) = f v"

definition assignee_members :: "assignee \<Rightarrow> (string \<times> json option) list" where
  "assignee_members a =
     [(''principalType'', Some (JStr (principal_type_str (as_type a)))),
      (''principalId'', Some (JStr (as_id a)))]"

definition assignee_json :: "assignee \<Rightarrow> json" where
  "assignee_json a = JObj (present (assignee_members a))"

definition project_patch_members :: "project_patch \<Rightarrow> (string \<times> json option) list" where
  "project_patch_members p =
     [(''name'', map_option JStr (pp_name p)),
      (''outcome'', map_option JStr (pp_outcome p)),
      (''constraints'', map_option json_ids (pp_constraints p)),
      (''nonGoals'', map_option json_ids (pp_non_goals p)),
      (''targetDate'', map_option (nullable_json JStr) (pp_target_date p)),
      (''repositories'', map_option json_ids (pp_repositories p))]"

definition criterion_patch_members :: "criterion_patch \<Rightarrow> (string \<times> json option) list" where
  "criterion_patch_members c =
     [(''description'', map_option JStr (cp_description c)),
      (''required'', map_option JBool (cp_required c)),
      (''evidenceRequirement'',
         map_option (\<lambda>r. JStr (evidence_requirement_str r)) (cp_evidence_requirement c)),
      (''position'', map_option JInt (cp_position c))]"

definition proposed_criterion_members :: "proposed_criterion \<Rightarrow> (string \<times> json option) list" where
  "proposed_criterion_members c =
     [(''description'', Some (JStr (pc_description c))),
      (''required'', map_option JBool (pc_required c)),
      (''evidenceRequirement'',
         map_option (\<lambda>r. JStr (evidence_requirement_str r)) (pc_evidence_requirement c)),
      (''position'', map_option JInt (pc_position c)),
      (''id'', Some (JStr (pc_id c))),
      (''workItemId'', map_option (nullable_json JStr) (pc_work_item_id c))]"

definition milestone_patch_members :: "milestone_patch \<Rightarrow> (string \<times> json option) list" where
  "milestone_patch_members m =
     [(''name'', map_option JStr (mp_name m)),
      (''description'', map_option JStr (mp_description m)),
      (''targetDate'', map_option JStr (mp_target_date m)),
      (''position'', map_option JInt (mp_position m)),
      (''status'', map_option (\<lambda>t. JStr (milestone_status_str t)) (mp_status m))]"

definition proposed_milestone_members :: "proposed_milestone \<Rightarrow> (string \<times> json option) list" where
  "proposed_milestone_members m =
     [(''name'', Some (JStr (pm_name m))),
      (''description'', map_option JStr (pm_description m)),
      (''targetDate'', Some (JStr (pm_target_date m))),
      (''position'', map_option JInt (pm_position m)),
      (''status'', map_option (\<lambda>t. JStr (milestone_status_str t)) (pm_status m)),
      (''id'', Some (JStr (pm_id m)))]"

definition work_item_patch_members :: "work_item_patch \<Rightarrow> (string \<times> json option) list" where
  "work_item_patch_members w =
     [(''parentWorkItemId'', map_option (nullable_json JStr) (wp_parent w)),
      (''milestoneId'', map_option (nullable_json JStr) (wp_milestone w)),
      (''kind'', map_option (\<lambda>k. JStr (work_item_kind_str k)) (wp_kind w)),
      (''title'', map_option JStr (wp_title w)),
      (''description'', map_option JStr (wp_description w)),
      (''priority'', map_option (\<lambda>p. JStr (work_item_priority_str p)) (wp_priority w)),
      (''estimate'', map_option (nullable_json JInt) (wp_estimate w)),
      (''assignee'', map_option (nullable_json assignee_json) (wp_assignee w)),
      (''repo'', map_option (nullable_json JStr) (wp_repo w)),
      (''position'', map_option JInt (wp_position w))]"

definition proposed_work_item_members :: "proposed_work_item \<Rightarrow> (string \<times> json option) list" where
  "proposed_work_item_members w =
     [(''parentWorkItemId'', map_option (nullable_json JStr) (pw_parent w)),
      (''milestoneId'', map_option (nullable_json JStr) (pw_milestone w)),
      (''kind'', Some (JStr (work_item_kind_str (pw_kind w)))),
      (''title'', Some (JStr (pw_title w))),
      (''description'', map_option JStr (pw_description w)),
      (''priority'', map_option (\<lambda>p. JStr (work_item_priority_str p)) (pw_priority w)),
      (''estimate'', map_option (nullable_json JInt) (pw_estimate w)),
      (''assignee'', map_option (nullable_json assignee_json) (pw_assignee w)),
      (''repo'', map_option (nullable_json JStr) (pw_repo w)),
      (''position'', map_option JInt (pw_position w)),
      (''id'', Some (JStr (pw_id w)))]"

fun operation_tag :: "operation \<Rightarrow> string" where
  "operation_tag (ProjectUpdate _) = ''project.update''"
| "operation_tag (CriterionCreate _) = ''criterion.create''"
| "operation_tag (CriterionUpdate _ _) = ''criterion.update''"
| "operation_tag (CriterionArchive _) = ''criterion.archive''"
| "operation_tag (MilestoneCreate _) = ''milestone.create''"
| "operation_tag (MilestoneUpdate _ _) = ''milestone.update''"
| "operation_tag (MilestoneArchive _) = ''milestone.archive''"
| "operation_tag (WorkItemCreate _) = ''work_item.create''"
| "operation_tag (WorkItemUpdate _ _) = ''work_item.update''"
| "operation_tag (WorkItemArchive _) = ''work_item.archive''"
| "operation_tag (DependencyAdd _ _) = ''dependency.add''"
| "operation_tag (DependencyRemove _ _) = ''dependency.remove''"

fun operation_members :: "operation \<Rightarrow> (string \<times> json) list" where
  "operation_members (ProjectUpdate patch) = [(''patch'', struct_json (project_patch_members patch))]"
| "operation_members (CriterionCreate c) = [(''criterion'', struct_json (proposed_criterion_members c))]"
| "operation_members (CriterionUpdate i patch) =
     [(''criterionId'', JStr i), (''patch'', struct_json (criterion_patch_members patch))]"
| "operation_members (CriterionArchive i) = [(''criterionId'', JStr i)]"
| "operation_members (MilestoneCreate m) = [(''milestone'', struct_json (proposed_milestone_members m))]"
| "operation_members (MilestoneUpdate i patch) =
     [(''milestoneId'', JStr i), (''patch'', struct_json (milestone_patch_members patch))]"
| "operation_members (MilestoneArchive i) = [(''milestoneId'', JStr i)]"
| "operation_members (WorkItemCreate w) = [(''workItem'', struct_json (proposed_work_item_members w))]"
| "operation_members (WorkItemUpdate i patch) =
     [(''workItemId'', JStr i), (''patch'', struct_json (work_item_patch_members patch))]"
| "operation_members (WorkItemArchive i) = [(''workItemId'', JStr i)]"
| "operation_members (DependencyAdd a b) = [(''blockerId'', JStr a), (''blockedId'', JStr b)]"
| "operation_members (DependencyRemove a b) = [(''blockerId'', JStr a), (''blockedId'', JStr b)]"

definition operation_json :: "operation \<Rightarrow> json" where
  "operation_json op = JObj ((''op'', JStr (operation_tag op)) # operation_members op)"

definition operations_json :: "operation list \<Rightarrow> json" where
  "operations_json ops = JArr (map operation_json ops)"

section \<open>Reading\<close>

fun nullable_of_json :: "(json \<Rightarrow> 'a option) \<Rightarrow> json \<Rightarrow> 'a nullable option" where
  "nullable_of_json f JNull = Some Null"
| "nullable_of_json f v = map_option Value (f v)"

definition evidence_requirement_of_json :: "json \<Rightarrow> evidence_requirement option" where
  "evidence_requirement_of_json = named_of_json
     (map (\<lambda>r. (evidence_requirement_str r, r)) [RequireNone, RequireReported, RequireVerified])"

definition milestone_status_of_json :: "json \<Rightarrow> milestone_status option" where
  "milestone_status_of_json = named_of_json
     (map (\<lambda>t. (milestone_status_str t, t))
        [MilestonePlanned, MilestoneActive, MilestoneCompleted, MilestoneCanceled])"

definition work_item_kind_of_json :: "json \<Rightarrow> work_item_kind option" where
  "work_item_kind_of_json = named_of_json
     (map (\<lambda>k. (work_item_kind_str k, k)) [ItemFeature, ItemTask, ItemBug, ItemResearch])"

definition work_item_priority_of_json :: "json \<Rightarrow> work_item_priority option" where
  "work_item_priority_of_json = named_of_json
     (map (\<lambda>p. (work_item_priority_str p, p))
        [PriorityUrgent, PriorityHigh, PriorityNormal, PriorityLow, PriorityNone])"

definition principal_type_of_json :: "json \<Rightarrow> principal_type option" where
  "principal_type_of_json =
     named_of_json (map (\<lambda>t. (principal_type_str t, t)) [User, ProjectAgent])"

definition assignee_of_json :: "json \<Rightarrow> assignee option" where
  "assignee_of_json j =
     Option.bind (known_fields [''principalType'', ''principalId''] j) (\<lambda>get.
     Option.bind (field principal_type_of_json get ''principalType'') (\<lambda>t.
     Option.bind (field json_str get ''principalId'') (\<lambda>i.
     Some \<lparr>as_type = t, as_id = i\<rparr>)))"

definition project_patch_of_json :: "json \<Rightarrow> project_patch option" where
  "project_patch_of_json j =
     Option.bind (known_fields [''name'', ''outcome'', ''constraints'', ''nonGoals'', ''targetDate'',
       ''repositories''] j) (\<lambda>get.
     Option.bind (non_null json_str get ''name'') (\<lambda>name.
     Option.bind (non_null json_str get ''outcome'') (\<lambda>outcome.
     Option.bind (non_null (json_list json_str) get ''constraints'') (\<lambda>constraints.
     Option.bind (non_null (json_list json_str) get ''nonGoals'') (\<lambda>non_goals.
     Option.bind (non_null (nullable_of_json json_str) get ''targetDate'') (\<lambda>target_date.
     Option.bind (non_null (json_list json_str) get ''repositories'') (\<lambda>repos.
     Some \<lparr>pp_name = name, pp_outcome = outcome, pp_constraints = constraints,
           pp_non_goals = non_goals, pp_target_date = target_date,
           pp_repositories = repos\<rparr>)))))))"

definition criterion_patch_of_json :: "json \<Rightarrow> criterion_patch option" where
  "criterion_patch_of_json j =
     Option.bind (known_fields [''description'', ''required'', ''evidenceRequirement'', ''position''] j) (\<lambda>get.
     Option.bind (non_null json_str get ''description'') (\<lambda>description.
     Option.bind (non_null json_bool get ''required'') (\<lambda>required.
     Option.bind (non_null evidence_requirement_of_json get ''evidenceRequirement'') (\<lambda>requirement.
     Option.bind (non_null json_int get ''position'') (\<lambda>position.
     Some \<lparr>cp_description = description, cp_required = required,
           cp_evidence_requirement = requirement, cp_position = position\<rparr>)))))"

definition proposed_criterion_of_json :: "json \<Rightarrow> proposed_criterion option" where
  "proposed_criterion_of_json j =
     Option.bind (known_fields [''description'', ''required'', ''evidenceRequirement'', ''position'',
       ''id'', ''workItemId''] j) (\<lambda>get.
     Option.bind (field json_str get ''description'') (\<lambda>description.
     Option.bind (non_null json_bool get ''required'') (\<lambda>required.
     Option.bind (non_null evidence_requirement_of_json get ''evidenceRequirement'') (\<lambda>requirement.
     Option.bind (non_null json_int get ''position'') (\<lambda>position.
     Option.bind (field json_str get ''id'') (\<lambda>i.
     Option.bind (non_null (nullable_of_json json_str) get ''workItemId'') (\<lambda>item.
     Some \<lparr>pc_description = description, pc_required = required,
           pc_evidence_requirement = requirement, pc_position = position, pc_id = i,
           pc_work_item_id = item\<rparr>)))))))"

definition milestone_patch_of_json :: "json \<Rightarrow> milestone_patch option" where
  "milestone_patch_of_json j =
     Option.bind (known_fields [''name'', ''description'', ''targetDate'', ''position'', ''status''] j) (\<lambda>get.
     Option.bind (non_null json_str get ''name'') (\<lambda>name.
     Option.bind (non_null json_str get ''description'') (\<lambda>description.
     Option.bind (non_null json_str get ''targetDate'') (\<lambda>target_date.
     Option.bind (non_null json_int get ''position'') (\<lambda>position.
     Option.bind (non_null milestone_status_of_json get ''status'') (\<lambda>status.
     Some \<lparr>mp_name = name, mp_description = description, mp_target_date = target_date,
           mp_position = position, mp_status = status\<rparr>))))))"

definition proposed_milestone_of_json :: "json \<Rightarrow> proposed_milestone option" where
  "proposed_milestone_of_json j =
     Option.bind (known_fields [''name'', ''description'', ''targetDate'', ''position'', ''status'', ''id''] j) (\<lambda>get.
     Option.bind (field json_str get ''name'') (\<lambda>name.
     Option.bind (non_null json_str get ''description'') (\<lambda>description.
     Option.bind (field json_str get ''targetDate'') (\<lambda>target_date.
     Option.bind (non_null json_int get ''position'') (\<lambda>position.
     Option.bind (non_null milestone_status_of_json get ''status'') (\<lambda>status.
     Option.bind (field json_str get ''id'') (\<lambda>i.
     Some \<lparr>pm_name = name, pm_description = description, pm_target_date = target_date,
           pm_position = position, pm_status = status, pm_id = i\<rparr>)))))))"

definition work_item_patch_of_json :: "json \<Rightarrow> work_item_patch option" where
  "work_item_patch_of_json j =
     Option.bind (known_fields [''parentWorkItemId'', ''milestoneId'', ''kind'', ''title'', ''description'',
       ''priority'', ''estimate'', ''assignee'', ''repo'', ''position''] j) (\<lambda>get.
     Option.bind (non_null (nullable_of_json json_str) get ''parentWorkItemId'') (\<lambda>parent.
     Option.bind (non_null (nullable_of_json json_str) get ''milestoneId'') (\<lambda>milestone.
     Option.bind (non_null work_item_kind_of_json get ''kind'') (\<lambda>kind.
     Option.bind (non_null json_str get ''title'') (\<lambda>title.
     Option.bind (non_null json_str get ''description'') (\<lambda>description.
     Option.bind (non_null work_item_priority_of_json get ''priority'') (\<lambda>priority.
     Option.bind (non_null (nullable_of_json json_int) get ''estimate'') (\<lambda>estimate.
     Option.bind (non_null (nullable_of_json assignee_of_json) get ''assignee'') (\<lambda>assignee.
     Option.bind (non_null (nullable_of_json json_str) get ''repo'') (\<lambda>repo.
     Option.bind (non_null json_int get ''position'') (\<lambda>position.
     Some \<lparr>wp_parent = parent, wp_milestone = milestone, wp_kind = kind, wp_title = title,
           wp_description = description, wp_priority = priority, wp_estimate = estimate,
           wp_assignee = assignee, wp_repo = repo, wp_position = position\<rparr>)))))))))))"

definition proposed_work_item_of_json :: "json \<Rightarrow> proposed_work_item option" where
  "proposed_work_item_of_json j =
     Option.bind (known_fields [''parentWorkItemId'', ''milestoneId'', ''kind'', ''title'', ''description'',
       ''priority'', ''estimate'', ''assignee'', ''repo'', ''position'', ''id''] j) (\<lambda>get.
     Option.bind (non_null (nullable_of_json json_str) get ''parentWorkItemId'') (\<lambda>parent.
     Option.bind (non_null (nullable_of_json json_str) get ''milestoneId'') (\<lambda>milestone.
     Option.bind (field work_item_kind_of_json get ''kind'') (\<lambda>kind.
     Option.bind (field json_str get ''title'') (\<lambda>title.
     Option.bind (non_null json_str get ''description'') (\<lambda>description.
     Option.bind (non_null work_item_priority_of_json get ''priority'') (\<lambda>priority.
     Option.bind (non_null (nullable_of_json json_int) get ''estimate'') (\<lambda>estimate.
     Option.bind (non_null (nullable_of_json assignee_of_json) get ''assignee'') (\<lambda>assignee.
     Option.bind (non_null (nullable_of_json json_str) get ''repo'') (\<lambda>repo.
     Option.bind (non_null json_int get ''position'') (\<lambda>position.
     Option.bind (field json_str get ''id'') (\<lambda>i.
     Some \<lparr>pw_parent = parent, pw_milestone = milestone, pw_kind = kind, pw_title = title,
           pw_description = description, pw_priority = priority, pw_estimate = estimate,
           pw_assignee = assignee, pw_repo = repo, pw_position = position, pw_id = i\<rparr>))))))))))))"

definition read_one ::
  "string \<Rightarrow> (json \<Rightarrow> 'a option) \<Rightarrow> ('a \<Rightarrow> operation) \<Rightarrow> json \<Rightarrow> operation option" where
  "read_one k f build content =
     Option.bind (known_fields [k] content) (\<lambda>get. map_option build (field f get k))"

definition read_two ::
  "string \<Rightarrow> (json \<Rightarrow> 'a option) \<Rightarrow> string \<Rightarrow> (json \<Rightarrow> 'b option) \<Rightarrow>
   ('a \<Rightarrow> 'b \<Rightarrow> operation) \<Rightarrow> json \<Rightarrow> operation option" where
  "read_two k f l g build content =
     Option.bind (known_fields [k, l] content) (\<lambda>get.
     Option.bind (field f get k) (\<lambda>x. map_option (build x) (field g get l)))"

definition operation_readers :: "(string \<times> (json \<Rightarrow> operation option)) list" where
  "operation_readers =
     [(''project.update'', read_one ''patch'' project_patch_of_json ProjectUpdate),
      (''criterion.create'', read_one ''criterion'' proposed_criterion_of_json CriterionCreate),
      (''criterion.update'',
         read_two ''criterionId'' json_str ''patch'' criterion_patch_of_json CriterionUpdate),
      (''criterion.archive'', read_one ''criterionId'' json_str CriterionArchive),
      (''milestone.create'', read_one ''milestone'' proposed_milestone_of_json MilestoneCreate),
      (''milestone.update'',
         read_two ''milestoneId'' json_str ''patch'' milestone_patch_of_json MilestoneUpdate),
      (''milestone.archive'', read_one ''milestoneId'' json_str MilestoneArchive),
      (''work_item.create'', read_one ''workItem'' proposed_work_item_of_json WorkItemCreate),
      (''work_item.update'',
         read_two ''workItemId'' json_str ''patch'' work_item_patch_of_json WorkItemUpdate),
      (''work_item.archive'', read_one ''workItemId'' json_str WorkItemArchive),
      (''dependency.add'', read_two ''blockerId'' json_str ''blockedId'' json_str DependencyAdd),
      (''dependency.remove'', read_two ''blockerId'' json_str ''blockedId'' json_str DependencyRemove)]"

definition operation_of_json :: "json \<Rightarrow> operation option" where
  "operation_of_json v =
     Option.bind (tagged_content ''op'' v) (\<lambda>(tag, content).
     Option.bind (map_of operation_readers tag) (\<lambda>reader. reader content))"

text \<open>\<open>bounded\<close>: the request's list, refused past the schema edge's outer bound.\<close>

definition operations_schema_max :: nat where "operations_schema_max = 2000"

definition bounded :: "json \<Rightarrow> operation list option" where
  "bounded v =
     (case v of
        JArr vs \<Rightarrow>
          if operations_schema_max < length vs then None
          else those (map operation_of_json vs)
      | _ \<Rightarrow> None)"

section \<open>Round trips\<close>

lemma nullable_back [simp]:
  assumes "\<And>x. f (g x) = Some x" "\<And>x. g x \<noteq> JNull"
  shows "nullable_of_json f (nullable_json g v) = Some v"
proof (cases v)
  case (Value x)
  have "nullable_of_json f j = map_option Value (f j)" if "j \<noteq> JNull" for j
    using that by (cases j) auto
  with Value assms show ?thesis by simp
qed simp

lemma named_back [simp]:
  "evidence_requirement_of_json (JStr (evidence_requirement_str r)) = Some r"
  "milestone_status_of_json (JStr (milestone_status_str t)) = Some t"
  "work_item_kind_of_json (JStr (work_item_kind_str w)) = Some w"
  "work_item_priority_of_json (JStr (work_item_priority_str p)) = Some p"
  "principal_type_of_json (JStr (principal_type_str q)) = Some q"
      apply (cases r; simp add: evidence_requirement_of_json_def named_of_json_def)
     apply (cases t; simp add: milestone_status_of_json_def named_of_json_def)
    apply (cases w; simp add: work_item_kind_of_json_def named_of_json_def)
   apply (cases p; simp add: work_item_priority_of_json_def named_of_json_def)
  apply (cases q; simp add: principal_type_of_json_def named_of_json_def)
  done

lemma assignee_back [simp]: "assignee_of_json (assignee_json a) = Some a"
  unfolding assignee_of_json_def assignee_json_def struct_json_def [symmetric]
  by (subst known_fields_struct) (simp_all add: assignee_members_def field_def)

lemma assignee_not_null [simp]: "assignee_json a \<noteq> JNull"
  by (simp add: assignee_json_def)

lemma nullable_kinds [simp]:
  "nullable_of_json json_str (nullable_json JStr v) = Some v"
  "nullable_of_json json_int (nullable_json JInt i) = Some i"
  "nullable_of_json assignee_of_json (nullable_json assignee_json a) = Some a"
  by (rule nullable_back; simp)+

lemma project_patch_back [simp]:
  "project_patch_of_json (struct_json (project_patch_members p)) = Some p"
  unfolding project_patch_of_json_def
  by (subst known_fields_struct) (simp_all add: project_patch_members_def)

lemma criterion_patch_back [simp]:
  "criterion_patch_of_json (struct_json (criterion_patch_members c)) = Some c"
  unfolding criterion_patch_of_json_def
  by (subst known_fields_struct) (simp_all add: criterion_patch_members_def)

lemma proposed_criterion_back [simp]:
  "proposed_criterion_of_json (struct_json (proposed_criterion_members c)) = Some c"
  unfolding proposed_criterion_of_json_def
  by (subst known_fields_struct) (simp_all add: proposed_criterion_members_def field_def)

lemma milestone_patch_back [simp]:
  "milestone_patch_of_json (struct_json (milestone_patch_members m)) = Some m"
  unfolding milestone_patch_of_json_def
  by (subst known_fields_struct) (simp_all add: milestone_patch_members_def)

lemma proposed_milestone_back [simp]:
  "proposed_milestone_of_json (struct_json (proposed_milestone_members m)) = Some m"
  unfolding proposed_milestone_of_json_def
  by (subst known_fields_struct) (simp_all add: proposed_milestone_members_def field_def)

lemma work_item_patch_back [simp]:
  "work_item_patch_of_json (struct_json (work_item_patch_members w)) = Some w"
  unfolding work_item_patch_of_json_def
  by (subst known_fields_struct) (simp_all add: work_item_patch_members_def)

lemma proposed_work_item_back [simp]:
  "proposed_work_item_of_json (struct_json (proposed_work_item_members w)) = Some w"
  unfolding proposed_work_item_of_json_def
  by (subst known_fields_struct) (simp_all add: proposed_work_item_members_def field_def)

lemma read_one_back: "f v = Some x \<Longrightarrow> read_one k f build (JObj [(k, v)]) = Some (build x)"
  by (simp add: read_one_def known_fields_def field_def)

lemma read_two_back:
  "f v = Some x \<Longrightarrow> g w = Some y \<Longrightarrow> k \<noteq> l \<Longrightarrow>
     read_two k f l g build (JObj [(k, v), (l, w)]) = Some (build x y)"
  by (simp add: read_two_def known_fields_def field_def)

lemma operation_members_tagless: "filter (\<lambda>kv. fst kv = ''op'') (operation_members op) = []"
  by (cases op) simp_all

lemma tagged_operation: "tagged_content ''op'' (operation_json op) = Some (operation_tag op, JObj (operation_members op))"
  using operation_members_tagless [of op]
  by (simp add: operation_json_def filter_empty_conv filter_id_conv)

lemma operation_back [simp]: "operation_of_json (operation_json op) = Some op"
  unfolding operation_of_json_def tagged_operation
  by (cases op) (simp_all add: operation_readers_def read_one_back read_two_back)

lemma operations_back [simp]:
  "json_list operation_of_json (operations_json ops) = Some ops"
  by (simp add: operations_json_def those_map_inverse del: map_map)

lemma operation_json_inj: "operation_json a = operation_json b \<longleftrightarrow> a = b"
  by (metis operation_back option.inject)

section \<open>Properties\<close>

text \<open>What a proposal's operations say survives being written: the list read back from its JSON is
  the list, through the stored column, a receipt's answer or a request body, where only a list
  past the schema's outer bound of 2000 is refused; and no two operations are written alike, so
  a digest over the text tells them apart.\<close>

theorem operations_round_trip:
  "json_list operation_of_json (operations_json ops) = Some ops \<and>
   bounded (operations_json ops) = (if length ops \<le> operations_schema_max then Some ops else None) \<and>
   (operation_json a = operation_json b) = (a = b)"
  using operations_back [of ops]
  by (simp add: bounded_def operations_json_def operation_json_inj not_less)

end
