(* ===== verification/Operation_Rules.thy ===== *)
theory Operation_Rules
  imports Plan_Operations Store_Progress
begin

text \<open>
  The request-level rules a parsed operation list must meet and its normalization
  (\<open>operation_rules.rs\<close> and \<open>work_item_rules.rs\<close> of \<open>src/domains/projects\<close>): every id canonical,
  every target date as \<open>toISOString()\<close> writes it, every text, list and number within its cap.
  The code rewrites the list in place; here the normalized list is the result. The reference it
  is compared with reads an operation's ids, dates, texts and numbers off its shape.
\<close>

section \<open>The rules\<close>

definition operations_max :: nat where "operations_max = 200"
definition operations_bytes_max :: nat where "operations_bytes_max = 256 * 1024"
definition description_max :: nat where "description_max = 8000"

lemmas [table_simps] = operations_max_def operations_bytes_max_def description_max_def

text \<open>\<open>cap\<close>: the platform's cap refusal.\<close>

definition cap_refusal :: "string \<Rightarrow> nat \<Rightarrow> nat \<Rightarrow> error" where
  "cap_refusal path limit actual = Project (InvalidRequest EdgeInvariant
     (''This proposal exceeds the '' @ path @ '' limit of '' @ show_nat limit)
     [(''field'', JStr path), (''reason'', JStr ''cap_exceeded''),
      (''limit'', JInt (int limit)), (''actual'', JInt (int actual))])"

definition optional_text_rule :: "string \<Rightarrow> string option \<Rightarrow> nat \<Rightarrow> nat \<Rightarrow> error + unit" where
  "optional_text_rule path v lo hi = (case v of None \<Rightarrow> Inr () | Some t \<Rightarrow> text_limit path t lo hi)"

definition optional_list :: "string \<Rightarrow> string list option \<Rightarrow> nat \<Rightarrow> nat \<Rightarrow> error + unit" where
  "optional_list path v m k = (case v of None \<Rightarrow> Inr () | Some items \<Rightarrow> list_limit path items m k)"

definition non_negative :: "string \<Rightarrow> int option \<Rightarrow> error + unit" where
  "non_negative path v =
     (case v of
        None \<Rightarrow> Inr ()
      | Some n \<Rightarrow> if n < 0 then Inl (Project (over_limit path ''too_small'' 0)) else Inr ())"

definition rule_id :: "string \<Rightarrow> string \<Rightarrow> error + string" where
  "rule_id path v = ok_or (canonical_uuid v) (Project (invalid_field path ''invalid''))"

definition rule_date :: "env \<Rightarrow> string \<Rightarrow> string \<Rightarrow> error + string" where
  "rule_date env path v =
     (let invalid = Project (invalid_field path ''invalid'')
      in case parse_target_date env v of
           Inl _ \<Rightarrow> Inl invalid
         | Inr ms \<Rightarrow> ok_or (iso env ms) invalid)"

text \<open>A set value is rewritten; an absent member and \<open>null\<close> stay as they are.\<close>

fun on_value :: "('a \<Rightarrow> error + 'a) \<Rightarrow> 'a nullable option \<Rightarrow> error + 'a nullable option" where
  "on_value f (Some (Value v)) = and_then (f v) (\<lambda>w. Inr (Some (Value w)))"
| "on_value f x = Inr x"

definition set_value :: "'a nullable option \<Rightarrow> 'a option" where
  "set_value x = Option.bind x nullable_value"

definition project_rules :: "env \<Rightarrow> string \<Rightarrow> project_patch \<Rightarrow> error + project_patch" where
  "project_rules env at p =
     and_then (optional_text_rule (at @ ''.name'') (pp_name p) 1 name_max) (\<lambda>_.
     and_then (optional_text_rule (at @ ''.outcome'') (pp_outcome p) 1 outcome_max) (\<lambda>_.
     and_then (optional_list (at @ ''.constraints'') (pp_constraints p)
       constraints_max_count constraint_max) (\<lambda>_.
     and_then (optional_list (at @ ''.nonGoals'') (pp_non_goals p)
       non_goals_max_count constraint_max) (\<lambda>_.
     and_then (optional_list (at @ ''.repositories'') (pp_repositories p)
       repositories_max usize_max) (\<lambda>_.
     and_then (on_value (rule_date env (at @ ''.targetDate'')) (pp_target_date p)) (\<lambda>target.
     Inr (p\<lparr>pp_target_date := target\<rparr>)))))))"

definition criterion_rules :: "string \<Rightarrow> string option \<Rightarrow> int option \<Rightarrow> error + unit" where
  "criterion_rules at description position =
     and_then (optional_text_rule (at @ ''.description'') description 1 criterion_description_max) (\<lambda>_.
     non_negative (at @ ''.position'') position)"

definition proposed_criterion_rules :: "string \<Rightarrow> proposed_criterion \<Rightarrow> error + proposed_criterion" where
  "proposed_criterion_rules at c =
     and_then (rule_id (at @ ''.id'') (pc_id c)) (\<lambda>i.
     and_then (on_value (rule_id (at @ ''.workItemId'')) (pc_work_item_id c)) (\<lambda>item.
     and_then (criterion_rules at (Some (pc_description c)) (pc_position c)) (\<lambda>_.
     Inr (c\<lparr>pc_id := i, pc_work_item_id := item\<rparr>))))"

definition milestone_rules ::
  "env \<Rightarrow> string \<Rightarrow> string option \<Rightarrow> string option \<Rightarrow> string option \<Rightarrow> int option \<Rightarrow> error + string option"
where
  "milestone_rules env at name description target_date position =
     and_then (optional_text_rule (at @ ''.name'') name 1 name_max) (\<lambda>_.
     and_then (optional_text_rule (at @ ''.description'') description 0 outcome_max) (\<lambda>_.
     and_then (transpose_opt (rule_date env (at @ ''.targetDate'')) target_date) (\<lambda>target.
     and_then (non_negative (at @ ''.position'') position) (\<lambda>_.
     Inr target))))"

definition proposed_milestone_rules ::
  "env \<Rightarrow> string \<Rightarrow> proposed_milestone \<Rightarrow> error + proposed_milestone" where
  "proposed_milestone_rules env at m =
     and_then (rule_id (at @ ''.id'') (pm_id m)) (\<lambda>i.
     and_then (milestone_rules env at (Some (pm_name m)) (pm_description m)
       (Some (pm_target_date m)) (pm_position m)) (\<lambda>target.
     Inr (m\<lparr>pm_id := i,
            pm_target_date := (case target of None \<Rightarrow> pm_target_date m | Some t \<Rightarrow> t)\<rparr>)))"

definition milestone_patch_rules :: "env \<Rightarrow> string \<Rightarrow> milestone_patch \<Rightarrow> error + milestone_patch" where
  "milestone_patch_rules env at m =
     and_then (milestone_rules env at (mp_name m) (mp_description m) (mp_target_date m) (mp_position m))
       (\<lambda>target. Inr (m\<lparr>mp_target_date := target\<rparr>))"

text \<open>\<open>work_item_rules::Fields\<close>: the checked fields of a create or a patch.\<close>

record work_item_fields =
  wf_parent :: "string nullable option"
  wf_milestone :: "string nullable option"
  wf_title :: "string option"
  wf_description :: "string option"
  wf_estimate :: "int option"
  wf_assignee :: "assignee option"
  wf_repo :: "string option"
  wf_position :: "int option"

definition work_item_rules ::
  "string \<Rightarrow> work_item_fields \<Rightarrow> error + string nullable option \<times> string nullable option" where
  "work_item_rules at f =
     and_then (on_value (rule_id (at @ ''.parentWorkItemId'')) (wf_parent f)) (\<lambda>parent.
     and_then (on_value (rule_id (at @ ''.milestoneId'')) (wf_milestone f)) (\<lambda>milestone.
     and_then (optional_text_rule (at @ ''.title'') (wf_title f) 1 name_max) (\<lambda>_.
     and_then (optional_text_rule (at @ ''.description'') (wf_description f) 0 description_max) (\<lambda>_.
     and_then (non_negative (at @ ''.estimate'') (wf_estimate f)) (\<lambda>_.
     and_then (case wf_assignee f of
         None \<Rightarrow> Inr ()
       | Some a \<Rightarrow> text_limit (at @ ''.assignee.principalId'') (as_id a) 1 usize_max) (\<lambda>_.
     and_then (optional_text_rule (at @ ''.repo'') (wf_repo f) 1 usize_max) (\<lambda>_.
     and_then (non_negative (at @ ''.position'') (wf_position f)) (\<lambda>_.
     Inr (parent, milestone)))))))))"

definition work_item_create_rules :: "string \<Rightarrow> proposed_work_item \<Rightarrow> error + proposed_work_item" where
  "work_item_create_rules at w =
     and_then (rule_id (at @ ''.id'') (pw_id w)) (\<lambda>i.
     and_then (work_item_rules at \<lparr>wf_parent = pw_parent w, wf_milestone = pw_milestone w,
         wf_title = Some (pw_title w), wf_description = pw_description w,
         wf_estimate = set_value (pw_estimate w), wf_assignee = set_value (pw_assignee w),
         wf_repo = set_value (pw_repo w), wf_position = pw_position w\<rparr>) (\<lambda>(parent, milestone).
     Inr (w\<lparr>pw_parent := parent, pw_milestone := milestone, pw_id := i\<rparr>)))"

definition work_item_patch_rules :: "string \<Rightarrow> work_item_patch \<Rightarrow> error + work_item_patch" where
  "work_item_patch_rules at w =
     and_then (work_item_rules at \<lparr>wf_parent = wp_parent w, wf_milestone = wp_milestone w,
         wf_title = wp_title w, wf_description = wp_description w,
         wf_estimate = set_value (wp_estimate w), wf_assignee = set_value (wp_assignee w),
         wf_repo = set_value (wp_repo w), wf_position = wp_position w\<rparr>) (\<lambda>(parent, milestone).
     Inr (w\<lparr>wp_parent := parent, wp_milestone := milestone\<rparr>))"

fun check_operation :: "env \<Rightarrow> string \<Rightarrow> operation \<Rightarrow> error + operation" where
  "check_operation env at (ProjectUpdate patch) =
     map_sum id ProjectUpdate (project_rules env (at @ ''.patch'') patch)"
| "check_operation env at (CriterionCreate c) =
     map_sum id CriterionCreate (proposed_criterion_rules (at @ ''.criterion'') c)"
| "check_operation env at (CriterionUpdate i patch) =
     and_then (rule_id (at @ ''.criterionId'') i) (\<lambda>i.
     and_then (criterion_rules (at @ ''.patch'') (cp_description patch) (cp_position patch)) (\<lambda>_.
     Inr (CriterionUpdate i patch)))"
| "check_operation env at (MilestoneCreate m) =
     map_sum id MilestoneCreate (proposed_milestone_rules env (at @ ''.milestone'') m)"
| "check_operation env at (MilestoneUpdate i patch) =
     and_then (rule_id (at @ ''.milestoneId'') i) (\<lambda>i.
     and_then (milestone_patch_rules env (at @ ''.patch'') patch) (\<lambda>patch.
     Inr (MilestoneUpdate i patch)))"
| "check_operation env at (WorkItemCreate w) =
     map_sum id WorkItemCreate (work_item_create_rules (at @ ''.workItem'') w)"
| "check_operation env at (WorkItemUpdate i patch) =
     and_then (rule_id (at @ ''.workItemId'') i) (\<lambda>i.
     and_then (work_item_patch_rules (at @ ''.patch'') patch) (\<lambda>patch.
     Inr (WorkItemUpdate i patch)))"
| "check_operation env at (CriterionArchive i) =
     map_sum id CriterionArchive (rule_id (at @ ''.criterionId'') i)"
| "check_operation env at (MilestoneArchive i) =
     map_sum id MilestoneArchive (rule_id (at @ ''.milestoneId'') i)"
| "check_operation env at (WorkItemArchive i) =
     map_sum id WorkItemArchive (rule_id (at @ ''.workItemId'') i)"
| "check_operation env at (DependencyAdd a b) =
     and_then (rule_id (at @ ''.blockerId'') a) (\<lambda>a.
     map_sum id (DependencyAdd a) (rule_id (at @ ''.blockedId'') b))"
| "check_operation env at (DependencyRemove a b) =
     and_then (rule_id (at @ ''.blockerId'') a) (\<lambda>a.
     map_sum id (DependencyRemove a) (rule_id (at @ ''.blockedId'') b))"

fun check_operations :: "env \<Rightarrow> nat \<Rightarrow> operation list \<Rightarrow> error + operation list" where
  "check_operations env i [] = Inr []"
| "check_operations env i (op # ops) =
     and_then (check_operation env (''operations.'' @ show_nat i) op) (\<lambda>op.
     and_then (check_operations env (Suc i) ops) (\<lambda>ops.
     Inr (op # ops)))"

definition validate_operations :: "env \<Rightarrow> operation list \<Rightarrow> error + operation list" where
  "validate_operations env ops =
     (if ops = [] then Inl (Project (over_limit ''operations'' ''too_short'' 1))
      else if operations_max < length ops
      then Inl (cap_refusal ''operations'' operations_max (length ops))
      else and_then (check_operations env 0 ops) (\<lambda>ops.
           and_then (json_text env (operations_json ops)) (\<lambda>bytes.
           if operations_bytes_max < length bytes
           then Inl (cap_refusal ''operations.bytes'' operations_bytes_max (length bytes))
           else Inr ops)))"

section \<open>The reference\<close>

text \<open>What an operation holds, read off its shape: ids, dates, texts with their bounds, lists of
  texts with theirs, and numbers.\<close>

definition opt_list :: "'a option \<Rightarrow> 'a list" where
  "opt_list x = (case x of None \<Rightarrow> [] | Some v \<Rightarrow> [v])"

fun operation_ids :: "operation \<Rightarrow> string list" where
  "operation_ids (ProjectUpdate p) = []"
| "operation_ids (CriterionCreate c) = pc_id c # opt_list (set_value (pc_work_item_id c))"
| "operation_ids (CriterionUpdate i p) = [i]"
| "operation_ids (CriterionArchive i) = [i]"
| "operation_ids (MilestoneCreate m) = [pm_id m]"
| "operation_ids (MilestoneUpdate i p) = [i]"
| "operation_ids (MilestoneArchive i) = [i]"
| "operation_ids (WorkItemCreate w) =
     pw_id w # opt_list (set_value (pw_parent w)) @ opt_list (set_value (pw_milestone w))"
| "operation_ids (WorkItemUpdate i p) =
     i # opt_list (set_value (wp_parent p)) @ opt_list (set_value (wp_milestone p))"
| "operation_ids (WorkItemArchive i) = [i]"
| "operation_ids (DependencyAdd a b) = [a, b]"
| "operation_ids (DependencyRemove a b) = [a, b]"

fun operation_dates :: "operation \<Rightarrow> string list" where
  "operation_dates (ProjectUpdate p) = opt_list (set_value (pp_target_date p))"
| "operation_dates (MilestoneCreate m) = [pm_target_date m]"
| "operation_dates (MilestoneUpdate i p) = opt_list (mp_target_date p)"
| "operation_dates op = []"

definition bounded_text :: "nat \<Rightarrow> nat \<Rightarrow> string option \<Rightarrow> (string \<times> nat \<times> nat) list" where
  "bounded_text lo hi t = map (\<lambda>t. (t, lo, hi)) (opt_list t)"

fun operation_texts :: "operation \<Rightarrow> (string \<times> nat \<times> nat) list" where
  "operation_texts (ProjectUpdate p) =
     bounded_text 1 name_max (pp_name p) @ bounded_text 1 outcome_max (pp_outcome p)"
| "operation_texts (CriterionCreate c) =
     bounded_text 1 criterion_description_max (Some (pc_description c))"
| "operation_texts (CriterionUpdate i p) =
     bounded_text 1 criterion_description_max (cp_description p)"
| "operation_texts (MilestoneCreate m) =
     bounded_text 1 name_max (Some (pm_name m)) @ bounded_text 0 outcome_max (pm_description m)"
| "operation_texts (MilestoneUpdate i p) =
     bounded_text 1 name_max (mp_name p) @ bounded_text 0 outcome_max (mp_description p)"
| "operation_texts (WorkItemCreate w) =
     bounded_text 1 name_max (Some (pw_title w)) @ bounded_text 0 description_max (pw_description w) @
     bounded_text 1 usize_max (map_option as_id (set_value (pw_assignee w))) @
     bounded_text 1 usize_max (set_value (pw_repo w))"
| "operation_texts (WorkItemUpdate i p) =
     bounded_text 1 name_max (wp_title p) @ bounded_text 0 description_max (wp_description p) @
     bounded_text 1 usize_max (map_option as_id (set_value (wp_assignee p))) @
     bounded_text 1 usize_max (set_value (wp_repo p))"
| "operation_texts op = []"

fun operation_lists :: "operation \<Rightarrow> (string list \<times> nat \<times> nat) list" where
  "operation_lists (ProjectUpdate p) =
     map (\<lambda>l. (l, constraints_max_count, constraint_max)) (opt_list (pp_constraints p)) @
     map (\<lambda>l. (l, non_goals_max_count, constraint_max)) (opt_list (pp_non_goals p)) @
     map (\<lambda>l. (l, repositories_max, usize_max)) (opt_list (pp_repositories p))"
| "operation_lists op = []"

fun operation_numbers :: "operation \<Rightarrow> int list" where
  "operation_numbers (CriterionCreate c) = opt_list (pc_position c)"
| "operation_numbers (CriterionUpdate i p) = opt_list (cp_position p)"
| "operation_numbers (MilestoneCreate m) = opt_list (pm_position m)"
| "operation_numbers (MilestoneUpdate i p) = opt_list (mp_position p)"
| "operation_numbers (WorkItemCreate w) = opt_list (set_value (pw_estimate w)) @ opt_list (pw_position w)"
| "operation_numbers (WorkItemUpdate i p) = opt_list (set_value (wp_estimate p)) @ opt_list (wp_position p)"
| "operation_numbers op = []"

text \<open>The operation with its ids and dates rewritten.\<close>

abbreviation on_set :: "('a \<Rightarrow> 'a) \<Rightarrow> 'a nullable option \<Rightarrow> 'a nullable option" where
  "on_set f \<equiv> map_option (map_nullable f)"

fun rewrite_operation :: "(string \<Rightarrow> string) \<Rightarrow> (string \<Rightarrow> string) \<Rightarrow> operation \<Rightarrow> operation" where
  "rewrite_operation f g (ProjectUpdate p) =
     ProjectUpdate (p\<lparr>pp_target_date := on_set g (pp_target_date p)\<rparr>)"
| "rewrite_operation f g (CriterionCreate c) =
     CriterionCreate (c\<lparr>pc_id := f (pc_id c), pc_work_item_id := on_set f (pc_work_item_id c)\<rparr>)"
| "rewrite_operation f g (CriterionUpdate i p) = CriterionUpdate (f i) p"
| "rewrite_operation f g (CriterionArchive i) = CriterionArchive (f i)"
| "rewrite_operation f g (MilestoneCreate m) =
     MilestoneCreate (m\<lparr>pm_id := f (pm_id m), pm_target_date := g (pm_target_date m)\<rparr>)"
| "rewrite_operation f g (MilestoneUpdate i p) =
     MilestoneUpdate (f i) (p\<lparr>mp_target_date := map_option g (mp_target_date p)\<rparr>)"
| "rewrite_operation f g (MilestoneArchive i) = MilestoneArchive (f i)"
| "rewrite_operation f g (WorkItemCreate w) =
     WorkItemCreate (w\<lparr>pw_id := f (pw_id w), pw_parent := on_set f (pw_parent w),
                       pw_milestone := on_set f (pw_milestone w)\<rparr>)"
| "rewrite_operation f g (WorkItemUpdate i p) =
     WorkItemUpdate (f i) (p\<lparr>wp_parent := on_set f (wp_parent p),
                             wp_milestone := on_set f (wp_milestone p)\<rparr>)"
| "rewrite_operation f g (WorkItemArchive i) = WorkItemArchive (f i)"
| "rewrite_operation f g (DependencyAdd a b) = DependencyAdd (f a) (f b)"
| "rewrite_operation f g (DependencyRemove a b) = DependencyRemove (f a) (f b)"

definition normal_date :: "env \<Rightarrow> string \<Rightarrow> string option" where
  "normal_date env v = (case parse_target_date env v of Inl _ \<Rightarrow> None | Inr ms \<Rightarrow> iso env ms)"

definition operation_ok :: "env \<Rightarrow> operation \<Rightarrow> bool" where
  "operation_ok env op \<longleftrightarrow>
     (\<forall>i \<in> set (operation_ids op). canonical_uuid i \<noteq> None) \<and>
     (\<forall>v \<in> set (operation_dates op). normal_date env v \<noteq> None) \<and>
     (\<forall>(t, lo, hi) \<in> set (operation_texts op). lo \<le> utf16_len t \<and> utf16_len t \<le> hi) \<and>
     (\<forall>(l, m, k) \<in> set (operation_lists op).
        length l \<le> m \<and> (\<forall>t \<in> set l. 1 \<le> utf16_len t \<and> utf16_len t \<le> k)) \<and>
     (\<forall>n \<in> set (operation_numbers op). 0 \<le> n)"

definition normal_operation :: "env \<Rightarrow> operation \<Rightarrow> operation" where
  "normal_operation env =
     rewrite_operation (\<lambda>i. the (canonical_uuid i)) (\<lambda>v. the (normal_date env v))"

section \<open>The rules are the reference\<close>

lemma optional_text_ok [res_simps]:
  "optional_text_rule path v lo hi = Inr () \<longleftrightarrow>
     (\<forall>(t, lo, hi) \<in> set (bounded_text lo hi v). lo \<le> utf16_len t \<and> utf16_len t \<le> hi)"
  by (simp add: optional_text_rule_def bounded_text_def opt_list_def res_simps split: option.splits)

lemma optional_list_ok [res_simps]:
  "optional_list path v m k = Inr () \<longleftrightarrow>
     (\<forall>l \<in> set (opt_list v). length l \<le> m \<and> (\<forall>t \<in> set l. 1 \<le> utf16_len t \<and> utf16_len t \<le> k))"
  by (simp add: optional_list_def opt_list_def res_simps split: option.splits)

lemma non_negative_ok [res_simps]:
  "non_negative path v = Inr () \<longleftrightarrow> (\<forall>n \<in> set (opt_list v). 0 \<le> n)"
  by (simp add: non_negative_def opt_list_def not_less split: option.splits)

lemma rule_id_ok [res_simps]:
  "rule_id path v = Inr i \<longleftrightarrow> canonical_uuid v \<noteq> None \<and> i = the (canonical_uuid v)"
  by (auto simp: rule_id_def res_simps)

lemma rule_date_ok [res_simps]:
  "rule_date env path v = Inr t \<longleftrightarrow> normal_date env v \<noteq> None \<and> t = the (normal_date env v)"
  by (auto simp: rule_date_def normal_date_def Let_def res_simps split: sum.splits)

lemma on_value_ok:
  assumes "\<And>v w. f v = Inr w \<longleftrightarrow> P v \<and> w = g v"
  shows "on_value f x = Inr y \<longleftrightarrow> (\<forall>v \<in> set (opt_list (set_value x)). P v) \<and> y = on_set g x"
proof (cases x)
  case (Some u)
  then show ?thesis
    by (cases u) (auto simp: set_value_def opt_list_def res_simps assms)
qed (auto simp: set_value_def opt_list_def)

lemmas on_value_rules [res_simps] = on_value_ok [OF rule_id_ok] on_value_ok [OF rule_date_ok]

lemma transpose_date_ok [res_simps]:
  "transpose_opt (rule_date env path) x = Inr y \<longleftrightarrow>
     (\<forall>v \<in> set (opt_list x). normal_date env v \<noteq> None) \<and> y = map_option (\<lambda>v. the (normal_date env v)) x"
  by (cases x) (auto simp: transpose_opt_def opt_list_def res_simps)

lemma map_sum_Inr_iff [res_simps]: "map_sum id f r = Inr y \<longleftrightarrow> (\<exists>x. r = Inr x \<and> y = f x)"
  by (cases r) auto

lemma map_nullable_id: "on_set f x = x \<longleftrightarrow> (\<forall>v \<in> set (opt_list (set_value x)). f v = v)"
proof (cases x)
  case (Some u)
  then show ?thesis by (cases u) (simp_all add: set_value_def opt_list_def)
qed (simp add: set_value_def opt_list_def)

lemmas rule_sets = bounded_text_def opt_list_def

lemma project_rules_ok:
  "project_rules env at p = Inr p' \<longleftrightarrow>
     operation_ok env (ProjectUpdate p) \<and> ProjectUpdate p' = normal_operation env (ProjectUpdate p)"
  by (auto simp: project_rules_def operation_ok_def normal_operation_def res_simps ball_Un)

lemma criterion_rules_ok [res_simps]:
  "criterion_rules at d n = Inr () \<longleftrightarrow>
     (\<forall>(t, lo, hi) \<in> set (bounded_text 1 criterion_description_max d).
        lo \<le> utf16_len t \<and> utf16_len t \<le> hi) \<and> (\<forall>n \<in> set (opt_list n). 0 \<le> n)"
  by (auto simp: criterion_rules_def res_simps)

lemma milestone_rules_ok [res_simps]:
  "milestone_rules env at name d target n = Inr t' \<longleftrightarrow>
     (\<forall>(t, lo, hi) \<in> set (bounded_text 1 name_max name @ bounded_text 0 outcome_max d).
        lo \<le> utf16_len t \<and> utf16_len t \<le> hi) \<and>
     (\<forall>v \<in> set (opt_list target). normal_date env v \<noteq> None) \<and> (\<forall>n \<in> set (opt_list n). 0 \<le> n) \<and>
     t' = map_option (\<lambda>v. the (normal_date env v)) target"
  by (auto simp: milestone_rules_def res_simps ball_Un simp del: transpose_opt_Inr_iff)

lemma work_item_rules_ok [res_simps]:
  "work_item_rules at f = Inr (parent, milestone) \<longleftrightarrow>
     (\<forall>i \<in> set (opt_list (set_value (wf_parent f)) @ opt_list (set_value (wf_milestone f))).
        canonical_uuid i \<noteq> None) \<and>
     (\<forall>(t, lo, hi) \<in> set (bounded_text 1 name_max (wf_title f) @
          bounded_text 0 description_max (wf_description f) @
          bounded_text 1 usize_max (map_option as_id (wf_assignee f)) @
          bounded_text 1 usize_max (wf_repo f)). lo \<le> utf16_len t \<and> utf16_len t \<le> hi) \<and>
     (\<forall>n \<in> set (opt_list (wf_estimate f) @ opt_list (wf_position f)). 0 \<le> n) \<and>
     parent = on_set (\<lambda>i. the (canonical_uuid i)) (wf_parent f) \<and>
     milestone = on_set (\<lambda>i. the (canonical_uuid i)) (wf_milestone f)"
proof -
  have "(case wf_assignee f of None \<Rightarrow> Inr () | Some a \<Rightarrow> text_limit path (as_id a) 1 usize_max) = Inr () \<longleftrightarrow>
      (\<forall>(t, lo, hi) \<in> set (bounded_text 1 usize_max (map_option as_id (wf_assignee f))).
         lo \<le> utf16_len t \<and> utf16_len t \<le> hi)" for path
    by (simp add: rule_sets res_simps split: option.splits)
  then show ?thesis
    by (auto simp: work_item_rules_def res_simps ball_Un)
qed

lemma check_operation_ok:
  "check_operation env at op = Inr op' \<longleftrightarrow> operation_ok env op \<and> op' = normal_operation env op"
proof (cases op)
  case (ProjectUpdate p)
  then show ?thesis
    by (auto simp: res_simps project_rules_ok) (auto simp: normal_operation_def)
next
  case (CriterionCreate c)
  then show ?thesis
    by (auto simp: proposed_criterion_rules_def operation_ok_def normal_operation_def res_simps)
next
  case (MilestoneCreate m)
  then show ?thesis
    by (auto simp: proposed_milestone_rules_def operation_ok_def normal_operation_def res_simps
        opt_list_def ball_Un)
next
  case (MilestoneUpdate i p)
  then show ?thesis
    by (auto simp: milestone_patch_rules_def operation_ok_def normal_operation_def res_simps ball_Un)
next
  case (WorkItemCreate w)
  then show ?thesis
    by (auto simp: work_item_create_rules_def operation_ok_def normal_operation_def res_simps ball_Un)
next
  case (WorkItemUpdate i p)
  then show ?thesis
    by (auto simp: work_item_patch_rules_def operation_ok_def normal_operation_def res_simps ball_Un)
qed (auto simp: operation_ok_def normal_operation_def res_simps)

lemma check_operations_ok:
  "check_operations env i ops = Inr ops' \<longleftrightarrow>
     list_all (operation_ok env) ops \<and> ops' = map (normal_operation env) ops"
  by (induction ops arbitrary: i ops') (auto simp: res_simps check_operation_ok)

section \<open>Refusals\<close>

text \<open>A refusal of a rule is an invalid request whose details name the field first.\<close>

definition field_refusal :: "error \<Rightarrow> bool" where
  "field_refusal e \<longleftrightarrow> (\<exists>edge m path ds. e = Project (InvalidRequest edge m ((''field'', JStr path) # ds)))"

lemma field_refusals [intro, simp]:
  "field_refusal (Project (invalid_field path reason))"
  "field_refusal (Project (over_limit path reason limit))"
  "field_refusal (cap_refusal path limit' actual)"
  by (simp_all add: field_refusal_def invalid_field_def over_limit_def cap_refusal_def)

lemma field_refusal_answer: "field_refusal e \<Longrightarrow> fst (classify e) = ''invalid_request'' \<and> exit_code e \<in> {64, 65}"
  by (auto simp: field_refusal_def split: request_edge.splits)

named_theorems refused \<open>which refusals a rule answers\<close>

lemma text_limit_refused [refused]: "text_limit path v lo hi = Inl e \<Longrightarrow> field_refusal e"
  by (auto simp: text_limit_def Let_def split: if_splits)

lemma field_each_refused [refused]:
  "try_each i f xs = Inl e \<Longrightarrow> (\<And>j x e. f j x = Inl e \<Longrightarrow> field_refusal e) \<Longrightarrow> field_refusal e"
  by (rule try_each_refused)

lemma list_limit_refused [refused]: "list_limit path items m k = Inl e \<Longrightarrow> field_refusal e"
  by (auto simp: list_limit_def split: if_splits elim: field_each_refused dest: text_limit_refused)

lemma optional_refused [refused]:
  "optional_text_rule path t lo hi = Inl e \<Longrightarrow> field_refusal e"
  "optional_list path l m k = Inl e \<Longrightarrow> field_refusal e"
  "non_negative path n = Inl e \<Longrightarrow> field_refusal e"
  "rule_id path v = Inl e \<Longrightarrow> field_refusal e"
  "rule_date env path v = Inl e \<Longrightarrow> field_refusal e"
  by (auto simp: optional_text_rule_def optional_list_def non_negative_def rule_id_def rule_date_def Let_def
      res_simps dest: refused split: option.splits if_splits sum.splits)

lemma on_value_fails: "on_value f x = Inl e \<Longrightarrow> \<exists>v. f v = Inl e"
  by (cases x; cases "the x") (auto simp: res_simps)

lemma on_value_refused [refused]:
  "on_value (rule_id path) x = Inl e \<Longrightarrow> field_refusal e"
  "on_value (rule_date env path) x = Inl e \<Longrightarrow> field_refusal e"
  by (auto dest!: on_value_fails dest: refused)

lemma map_sum_Inl_iff [res_simps]: "map_sum id f r = Inl e \<longleftrightarrow> r = Inl e"
  by (cases r) auto

lemma transpose_date_refused [refused]:
  "transpose_opt (rule_date env path) x = Inl e \<Longrightarrow> field_refusal e"
  by (cases x) (auto simp: transpose_opt_def res_simps dest: refused)

lemma entity_refused [refused]:
  "project_rules env at p = Inl e \<Longrightarrow> field_refusal e"
  "criterion_rules at d n = Inl e \<Longrightarrow> field_refusal e"
  "milestone_rules env at name d target n = Inl e \<Longrightarrow> field_refusal e"
  "work_item_rules at f = Inl e \<Longrightarrow> field_refusal e"
  by (auto simp: project_rules_def criterion_rules_def milestone_rules_def work_item_rules_def
      and_then_Inl_iff dest: refused split: option.splits)

lemma created_refused [refused]:
  "proposed_criterion_rules at c = Inl e \<Longrightarrow> field_refusal e"
  "proposed_milestone_rules env at m = Inl e \<Longrightarrow> field_refusal e"
  "milestone_patch_rules env at mp = Inl e \<Longrightarrow> field_refusal e"
  "work_item_create_rules at w = Inl e \<Longrightarrow> field_refusal e"
  "work_item_patch_rules at wp = Inl e \<Longrightarrow> field_refusal e"
  by (auto simp: proposed_criterion_rules_def proposed_milestone_rules_def milestone_patch_rules_def
      work_item_create_rules_def work_item_patch_rules_def and_then_Inl_iff dest: refused)

lemma check_operation_refused [refused]: "check_operation env at op = Inl e \<Longrightarrow> field_refusal e"
  by (cases op) (auto simp: and_then_Inl_iff map_sum_Inl_iff dest: refused)

lemma check_operations_refused [refused]: "check_operations env i ops = Inl e \<Longrightarrow> field_refusal e"
  by (induction ops arbitrary: i) (auto simp: and_then_Inl_iff dest: refused)

section \<open>Normal operations\<close>

text \<open>The documented behaviour of the date library: a rendered timestamp reads as the instant it
  was rendered from.\<close>

definition dates_reread :: "env \<Rightarrow> bool" where
  "dates_reread env \<longleftrightarrow> (\<forall>ms t. iso env ms = Some t \<longrightarrow> parse_target_date env t = Inr ms)"

lemma normal_date_again:
  "dates_reread env \<Longrightarrow> normal_date env v = Some t \<Longrightarrow> normal_date env t = Some t"
  by (auto simp: normal_date_def dates_reread_def split: sum.splits)

lemma set_value_on_set [simp]: "set_value (on_set f x) = map_option f (set_value x)"
proof (cases x)
  case (Some u)
  then show ?thesis by (cases u) (simp_all add: set_value_def)
qed (simp add: set_value_def)

lemma opt_list_map [simp]: "opt_list (map_option f x) = map f (opt_list x)"
  by (simp add: opt_list_def split: option.splits)

lemma rewritten_parts [simp]:
  "operation_ids (rewrite_operation f g op) = map f (operation_ids op)"
  "operation_dates (rewrite_operation f g op) = map g (operation_dates op)"
  "operation_texts (rewrite_operation f g op) = operation_texts op"
  "operation_lists (rewrite_operation f g op) = operation_lists op"
  "operation_numbers (rewrite_operation f g op) = operation_numbers op"
  by (cases op; simp)+

lemma map_option_fixed: "\<forall>v \<in> set (opt_list x). g v = v \<Longrightarrow> map_option g x = x"
  by (cases x) (simp_all add: opt_list_def)

lemma rewrite_fixed:
  assumes "\<forall>i \<in> set (operation_ids op). f i = i" "\<forall>v \<in> set (operation_dates op). g v = v"
  shows "rewrite_operation f g op = op"
  using assms
  by (cases op) (simp_all add: map_nullable_id [THEN iffD2] map_option_fixed ball_Un)

lemma normal_operation_ok:
  assumes "dates_reread env" "operation_ok env op"
  shows "operation_ok env (normal_operation env op)"
    "normal_operation env (normal_operation env op) = normal_operation env op"
proof -
  have ids: "\<forall>i \<in> set (operation_ids op). canonical_uuid (the (canonical_uuid i)) = Some (the (canonical_uuid i))"
    using assms(2) canonical_uuid_idem by (fastforce simp: operation_ok_def)
  have dates: "\<forall>v \<in> set (operation_dates op). normal_date env (the (normal_date env v)) = Some (the (normal_date env v))"
    using assms normal_date_again by (fastforce simp: operation_ok_def)
  show "operation_ok env (normal_operation env op)"
    using assms(2) ids dates by (simp add: operation_ok_def normal_operation_def)
  show "normal_operation env (normal_operation env op) = normal_operation env op"
    unfolding normal_operation_def by (rule rewrite_fixed) (use ids dates in simp_all)
qed

lemma validate_operations_iff:
  "validate_operations env ops = Inr ops' \<longleftrightarrow>
     ops \<noteq> [] \<and> length ops \<le> operations_max \<and> list_all (operation_ok env) ops \<and>
     ops' = map (normal_operation env) ops \<and>
     (\<exists>bytes. json_text env (operations_json ops') = Inr bytes \<and> length bytes \<le> operations_bytes_max)"
  by (auto simp: validate_operations_def res_simps check_operations_ok not_less)

lemma validate_operations_refused:
  "validate_operations env ops = Inl e \<Longrightarrow> field_refusal e \<or> (\<exists>m. e = JsonError m)"
  by (auto simp: validate_operations_def and_then_Inl_iff json_text_def dest: refused
      split: if_splits sum.splits)

section \<open>Properties\<close>

text \<open>C31. The rules a proposal's operations meet are exactly the ones written down as data: a list
  is accepted when it has 1 to 200 operations, every id in it is a UUID, every target date a
  date, every text and list within its bounds, no number negative, and its normalized text at
  most 256 KiB; what is accepted is the same operations with ids and dates in canonical form.
  Anything else is refused as an invalid request whose details name a field, exit code 64 or
  65, or because the list has no JSON text.\<close>

theorem operation_rules_exact:
  "case validate_operations env ops of
     Inr ops' \<Rightarrow> ops' = map (normal_operation env) ops \<and> 1 \<le> length ops \<and> length ops \<le> 200 \<and>
       list_all (operation_ok env) ops \<and>
       (\<exists>bytes. json_text env (operations_json ops') = Inr bytes \<and> length bytes \<le> 262144)
   | Inl e \<Rightarrow> \<not> (1 \<le> length ops \<and> length ops \<le> 200 \<and> list_all (operation_ok env) ops \<and>
       (\<exists>bytes. json_text env (operations_json (map (normal_operation env) ops)) = Inr bytes \<and>
          length bytes \<le> 262144)) \<and>
       (fst (classify e) = ''invalid_request'' \<and> exit_code e \<in> {64, 65} \<or> (\<exists>m. e = JsonError m))"
proof (cases "validate_operations env ops")
  case (Inl e)
  have "1 \<le> length ops \<longleftrightarrow> ops \<noteq> []" by (cases ops) auto
  then show ?thesis
    using Inl validate_operations_refused [OF Inl] field_refusal_answer
      validate_operations_iff [of env ops "map (normal_operation env) ops"]
    by (auto simp: table_simps)
next
  case (Inr ops')
  then show ?thesis
    using validate_operations_iff [of env ops ops'] by (cases ops) (auto simp: table_simps)
qed

text \<open>Normalizing settles: what the rules accepted and rewrote they accept again, and leave as it
  is, so a stored proposal's operations sent again are the same operations.\<close>

theorem operation_rules_settle:
  assumes "dates_reread env" "validate_operations env ops = Inr ops'"
  shows "validate_operations env ops' = Inr ops'"
  using assms(2) normal_operation_ok [OF assms(1)]
  by (auto simp: validate_operations_iff list_all_iff)

definition dated_env :: env where
  "dated_env = demo_env\<lparr>
     e_render := (\<lambda>ns. Some (show_nat (to_nat ns))), e_rfc3339 := (\<lambda>t. Some (from_nat (parse_digits t))),
     e_to_string := (\<lambda>_. Inr ''[..]'')\<rparr>"

lemma whole_milliseconds: "(ms :: int) * 1000000 sdiv 1000000 = ms"
  by (simp add: signed_divide_int_def sgn_mult abs_mult sgn_mult_abs)

lemma dated_env_dates: "dates_reread dated_env"
  by (simp add: dates_reread_def iso_def parse_target_date_def dated_env_def demo_env_def whole_milliseconds)

theorem operation_rules_settle_witness:
  "validate_operations dated_env [CriterionArchive ''0123ABCD-0000-4000-8000-00000000000A''] =
     Inr [CriterionArchive demo_id] \<and>
   validate_operations dated_env [CriterionArchive demo_id] = Inr [CriterionArchive demo_id]"
proof -
  have "canonical_uuid ''0123ABCD-0000-4000-8000-00000000000A'' = Some demo_id"
    unfolding demo_id_def by code_simp
  then have "validate_operations dated_env [CriterionArchive ''0123ABCD-0000-4000-8000-00000000000A''] =
      Inr [CriterionArchive demo_id]"
    by (simp add: validate_operations_def rule_id_def ok_or_def json_text_def dated_env_def
        operations_max_def operations_bytes_max_def)
  with operation_rules_settle [OF dated_env_dates this] show ?thesis by simp
qed

end
