(* ===== verification/Project_Proposal.thy ===== *)
theory Project_Proposal
  imports Operation_Rules Project_Feed
begin

text \<open>
  Plan proposals: the stored rows (\<open>src/store/project_proposals.rs\<close>), their view
  (\<open>src/domains/projects/proposal_view.rs\<close>), the submit command (\<open>propose.rs\<close>) and the two
  reads (\<open>proposals.rs\<close>). A proposal is an immutable row written together with the move of a
  draft project to planning, one event, one feed row and one receipt.
\<close>

section \<open>The proposal rows\<close>

definition proposal_insert :: "proposal_row \<Rightarrow> db \<Rightarrow> error + db" where
  "proposal_insert row d =
     (if pr_id row \<in> pr_id ` set (proposals d)
      then Inl (unique_failed ext_primary_key ''project_plan_proposals.id'')
      else if \<not> has_project d (pr_project row) then Inl foreign_key_failed
      else Inr (d\<lparr>proposals := proposals d @ [row]\<rparr>))"

definition planned_row :: "int \<Rightarrow> project_row \<Rightarrow> project_row" where
  "planned_row at row =
     row\<lparr>p_status := ''planning'', p_version := p_version row + 1, p_updated_at := at\<rparr>"

text \<open>The status-guarded \<open>UPDATE\<close>: whether exactly one row matched.\<close>

definition start_planning :: "string \<Rightarrow> int \<Rightarrow> bool tx" where
  "start_planning i at s =
     (let d = st_db s; hit = (\<lambda>row. p_id row = i \<and> p_status row = ''draft'')
      in (Inr (length (filter hit (projects d)) = 1),
          s\<lparr>st_db := d\<lparr>projects := map (\<lambda>row. if hit row then planned_row at row else row)
                                    (projects d)\<rparr>\<rparr>))"

text \<open>A row with its one review decision, left-joined.\<close>

definition reviewed :: "db \<Rightarrow> proposal_row \<Rightarrow> proposal_row \<times> approval_row option" where
  "reviewed d row = (row, find (\<lambda>a. apr_proposal a = pr_id row) (approvals d))"

definition read_proposal :: "db \<Rightarrow> string \<Rightarrow> string \<Rightarrow> (proposal_row \<times> approval_row option) option" where
  "read_proposal d project i =
     map_option (reviewed d) (find (\<lambda>row. pr_project row = project \<and> pr_id row = i) (proposals d))"

record proposal_page =
  qp_project :: string
  qp_state :: "string option"
  qp_after :: "(int \<times> string) option"
  qp_limit :: int

definition proposal_position :: "proposal_row \<Rightarrow> int \<times> string" where
  "proposal_position row = (pr_created_at row, pr_id row)"

definition proposal_admitted :: "proposal_page \<Rightarrow> proposal_row \<Rightarrow> bool" where
  "proposal_admitted page row \<longleftrightarrow>
     pr_project row = qp_project page \<and>
     (case qp_state page of None \<Rightarrow> True | Some t \<Rightarrow> pr_state row = t) \<and>
     (case qp_after page of
        None \<Rightarrow> True
      | Some (at, i) \<Rightarrow> pr_created_at row < at \<or> (pr_created_at row = at \<and> pr_id row < i))"

text \<open>\<open>ORDER BY created_at DESC, id DESC LIMIT n\<close>.\<close>

definition read_proposal_page :: "db \<Rightarrow> proposal_page \<Rightarrow> (proposal_row \<times> approval_row option) list" where
  "read_proposal_page d page =
     map (reviewed d) (take (nat (qp_limit page))
       (rev (sort_key proposal_position (filter (proposal_admitted page) (proposals d)))))"

section \<open>The view\<close>

record review_view =
  rv_decision :: string
  rv_reviewer_id :: string
  rv_rationale :: "string option"
  rv_created_at :: string

record proposal_view =
  pv_id :: string
  pv_project_id :: string
  pv_base_plan_version :: int
  pv_state :: string
  pv_operations :: "operation list"
  pv_rationale :: string
  pv_assumptions :: "string list"
  pv_risks :: "string list"
  pv_proposer_type :: string
  pv_proposer_id :: string
  pv_created_at :: string
  pv_updated_at :: string
  pv_review :: "review_view option"

text \<open>\<open>view::stored_json\<close> at the operations' type: unreadable text reads as the empty list.\<close>

definition stored_operations :: "env \<Rightarrow> string \<Rightarrow> operation list" where
  "stored_operations env raw =
     (case e_from_str env raw of
        Inl _ \<Rightarrow> []
      | Inr v \<Rightarrow> (case json_list operation_of_json v of None \<Rightarrow> [] | Some ops \<Rightarrow> ops))"

definition review_to_view :: "env \<Rightarrow> string \<Rightarrow> approval_row \<Rightarrow> error + review_view" where
  "review_to_view env proposal row =
     and_then (rendered env (apr_created_at row) proposal ''project_approvals.created_at'') (\<lambda>created_at.
     Inr \<lparr>rv_decision = apr_decision row, rv_reviewer_id = apr_reviewer_id row,
          rv_rationale = apr_rationale row, rv_created_at = created_at\<rparr>)"

definition proposal_to_view :: "env \<Rightarrow> proposal_row \<times> approval_row option \<Rightarrow> error + proposal_view" where
  "proposal_to_view env = (\<lambda>(row, review).
     and_then (transpose_opt (review_to_view env (pr_id row)) review) (\<lambda>rv.
     and_then (rendered env (pr_created_at row) (pr_id row) ''project_plan_proposals.created_at'') (\<lambda>created_at.
     and_then (rendered env (pr_updated_at row) (pr_id row) ''project_plan_proposals.updated_at'') (\<lambda>updated_at.
     Inr \<lparr>pv_id = pr_id row, pv_project_id = pr_project row,
          pv_base_plan_version = pr_base_plan_version row, pv_state = pr_state row,
          pv_operations = stored_operations env (pr_operations row), pv_rationale = pr_rationale row,
          pv_assumptions = stored_json env (pr_assumptions row),
          pv_risks = stored_json env (pr_risks row), pv_proposer_type = pr_proposer_type row,
          pv_proposer_id = pr_proposer_id row, pv_created_at = created_at,
          pv_updated_at = updated_at, pv_review = rv\<rparr>))))"

definition review_view_json :: "review_view \<Rightarrow> json" where
  "review_view_json r = JObj
     [(''decision'', JStr (rv_decision r)), (''reviewerId'', JStr (rv_reviewer_id r)),
      (''rationale'', json_opt (rv_rationale r)), (''createdAt'', JStr (rv_created_at r))]"

definition proposal_view_json :: "proposal_view \<Rightarrow> json" where
  "proposal_view_json v = JObj
     [(''id'', JStr (pv_id v)),
      (''projectId'', JStr (pv_project_id v)),
      (''basePlanVersion'', JInt (pv_base_plan_version v)),
      (''state'', JStr (pv_state v)),
      (''operations'', operations_json (pv_operations v)),
      (''rationale'', JStr (pv_rationale v)),
      (''assumptions'', json_ids (pv_assumptions v)),
      (''risks'', json_ids (pv_risks v)),
      (''proposerPrincipalType'', JStr (pv_proposer_type v)),
      (''proposerPrincipalId'', JStr (pv_proposer_id v)),
      (''createdAt'', JStr (pv_created_at v)),
      (''updatedAt'', JStr (pv_updated_at v)),
      (''review'', (case pv_review v of None \<Rightarrow> JNull | Some r \<Rightarrow> review_view_json r))]"

definition review_view_of_json :: "json \<Rightarrow> review_view option" where
  "review_view_of_json j =
     Option.bind (struct_fields [''decision'', ''reviewerId'', ''rationale'', ''createdAt''] j) (\<lambda>get.
     Option.bind (field json_str get ''decision'') (\<lambda>decision.
     Option.bind (field json_str get ''reviewerId'') (\<lambda>reviewer.
     Option.bind (opt_field json_str get ''rationale'') (\<lambda>rationale.
     Option.bind (field json_str get ''createdAt'') (\<lambda>created_at.
     Some \<lparr>rv_decision = decision, rv_reviewer_id = reviewer, rv_rationale = rationale,
           rv_created_at = created_at\<rparr>)))))"

definition proposal_view_of_json :: "json \<Rightarrow> proposal_view option" where
  "proposal_view_of_json j =
     Option.bind (struct_fields [''id'', ''projectId'', ''basePlanVersion'', ''state'', ''operations'',
       ''rationale'', ''assumptions'', ''risks'', ''proposerPrincipalType'', ''proposerPrincipalId'',
       ''createdAt'', ''updatedAt'', ''review''] j) (\<lambda>get.
     Option.bind (field json_str get ''id'') (\<lambda>i.
     Option.bind (field json_str get ''projectId'') (\<lambda>project.
     Option.bind (field json_int get ''basePlanVersion'') (\<lambda>base.
     Option.bind (field json_str get ''state'') (\<lambda>state.
     Option.bind (field (json_list operation_of_json) get ''operations'') (\<lambda>ops.
     Option.bind (field json_str get ''rationale'') (\<lambda>rationale.
     Option.bind (field (json_list json_str) get ''assumptions'') (\<lambda>assumptions.
     Option.bind (field (json_list json_str) get ''risks'') (\<lambda>risks.
     Option.bind (field json_str get ''proposerPrincipalType'') (\<lambda>ptype.
     Option.bind (field json_str get ''proposerPrincipalId'') (\<lambda>pid.
     Option.bind (field json_str get ''createdAt'') (\<lambda>created_at.
     Option.bind (field json_str get ''updatedAt'') (\<lambda>updated_at.
     Option.bind (opt_field review_view_of_json get ''review'') (\<lambda>rv.
     Some \<lparr>pv_id = i, pv_project_id = project, pv_base_plan_version = base, pv_state = state,
           pv_operations = ops, pv_rationale = rationale, pv_assumptions = assumptions,
           pv_risks = risks, pv_proposer_type = ptype, pv_proposer_id = pid,
           pv_created_at = created_at, pv_updated_at = updated_at, pv_review = rv\<rparr>))))))))))))))"

section \<open>Submitting\<close>

definition notes_max_count :: nat where "notes_max_count = 50"

record propose_request =
  po_project_id :: string
  po_workspace_id :: "json option"
  po_key :: string
  po_base_plan_version :: int
  po_operations :: "operation list"
  po_rationale :: string
  po_assumptions :: "string list"
  po_risks :: "string list"

record propose_response =
  pres_proposal :: proposal_view
  pres_warnings :: "local_only list"

text \<open>A response that may carry warnings: \<open>warnings\<close> is left out when empty and reads as empty
  when absent.\<close>

definition propose_response_json :: "propose_response \<Rightarrow> json" where
  "propose_response_json r =
     JObj ((''proposal'', proposal_view_json (pres_proposal r)) #
       (if pres_warnings r = [] then [] else [(''warnings'', JArr (map local_only_json (pres_warnings r)))]))"

definition propose_response_of_json :: "json \<Rightarrow> propose_response option" where
  "propose_response_of_json j =
     Option.bind (case j of
         JArr [v] \<Rightarrow> struct_fields [''proposal''] j
       | _ \<Rightarrow> struct_fields [''proposal'', ''warnings''] j) (\<lambda>get.
     Option.bind (field proposal_view_of_json get ''proposal'') (\<lambda>proposal.
     Option.bind (case get ''warnings'' of
         None \<Rightarrow> Some [] | Some v \<Rightarrow> json_list local_only_of_json v) (\<lambda>warnings.
     Some \<lparr>pres_proposal = proposal, pres_warnings = warnings\<rparr>)))"

definition propose_digest_body :: "propose_request \<Rightarrow> json" where
  "propose_digest_body req = JObj
     [(''basePlanVersion'', JInt (po_base_plan_version req)),
      (''operations'', operations_json (po_operations req)),
      (''rationale'', JStr (po_rationale req)),
      (''assumptions'', json_ids (po_assumptions req)),
      (''risks'', json_ids (po_risks req))]"

text \<open>Every rule a request meets without the store: the canonical id, and the operations
  normalized.\<close>

definition propose_validate :: "env \<Rightarrow> propose_request \<Rightarrow> error + string \<times> operation list" where
  "propose_validate env req =
     and_then (canonical_id ''projectId'' (po_project_id req)) (\<lambda>i.
     and_then (if po_base_plan_version req < 0
               then Inl (Project (over_limit ''basePlanVersion'' ''too_small'' 0)) else Inr ()) (\<lambda>_.
     and_then (validate_operations env (po_operations req)) (\<lambda>ops.
     and_then (text_limit ''rationale'' (po_rationale req) 1 rationale_max) (\<lambda>_.
     and_then (list_limit ''assumptions'' (po_assumptions req) notes_max_count constraint_max) (\<lambda>_.
     and_then (list_limit ''risks'' (po_risks req) notes_max_count rationale_max) (\<lambda>_.
     Inr (i, ops)))))))"

text \<open>The platform's \<open>assertProjectAcceptsProposals\<close>, then its stale-base check.\<close>

definition accepts_proposals :: "project_row \<Rightarrow> int \<Rightarrow> error + unit" where
  "accepts_proposals project base =
     (if p_archived_at project \<noteq> None then Inl (invalid_transition ''This project is archived'')
      else if terminal_status (p_status project)
      then Inl (invalid_transition ''This project is closed to new proposals'')
      else if p_plan_version project \<noteq> base
      then Inl (Project (ProposalStale base (p_plan_version project)))
      else Inr ())"

definition insert_proposal ::
  "env \<Rightarrow> actor \<Rightarrow> string \<Rightarrow> propose_request \<Rightarrow> operation list \<Rightarrow> string \<Rightarrow> int \<Rightarrow> string tx" where
  "insert_proposal env actor project req ops digest_hex at =
     tx_bind (mint_uuid env) (\<lambda>i.
     tx_bind (lift (json_text env (operations_json ops))) (\<lambda>operations.
     tx_bind (lift (json_text env (json_ids (po_assumptions req)))) (\<lambda>assumptions.
     tx_bind (lift (json_text env (json_ids (po_risks req)))) (\<lambda>risks.
     tx_bind (statement (proposal_insert \<lparr>
       pr_id = i, pr_project = project, pr_base_plan_version = po_base_plan_version req,
       pr_state = ''pending'', pr_operations = operations, pr_assumptions = assumptions,
       pr_risks = risks, pr_rationale = po_rationale req, pr_proposer_type = actor_type actor,
       pr_proposer_id = actor_id actor, pr_request_digest = digest_hex, pr_created_at = at,
       pr_updated_at = at\<rparr>)) (\<lambda>_.
     ret i)))))"

definition submitted_event :: "string \<Rightarrow> string \<Rightarrow> propose_request \<Rightarrow> operation list \<Rightarrow> event" where
  "submitted_event project i req ops = \<lparr>
     e_project = project, e_type = ''project.proposal_submitted'', e_entity_type = ''proposal'',
     e_entity_id = i,
     e_payload = JObj [(''basePlanVersion'', JInt (po_base_plan_version req)),
       (''operationCount'', JInt (int (length ops))), (''riskCount'', JInt (int (length (po_risks req))))]\<rparr>"

definition proposal_vanished :: "string \<Rightarrow> error" where
  "proposal_vanished i = Project (Invariant ''project_proposal_row''
     (''proposal '' @ i @ '' vanished inside its own creation transaction''))"

definition propose_write ::
  "env \<Rightarrow> actor \<Rightarrow> string \<Rightarrow> propose_request \<Rightarrow> operation list \<Rightarrow> string \<Rightarrow> propose_response tx" where
  "propose_write env actor project req ops digest_hex =
     tx_bind (reading (\<lambda>d. ok_or (read_project d project) (Project (ProjectNotFound (po_project_id req))))) (\<lambda>row.
     tx_bind (lift (accepts_proposals row (po_base_plan_version req))) (\<lambda>_.
     tx_bind (now_ms env) (\<lambda>at.
     tx_bind (insert_proposal env actor project req ops digest_hex at) (\<lambda>i.
     tx_bind (start_planning project at) (\<lambda>_.
     tx_bind (record_event env actor (submitted_event project i req ops) at) (\<lambda>recorded.
     tx_bind (reading (\<lambda>d. ok_or (read_proposal d project i) (proposal_vanished i))) (\<lambda>stored.
     tx_bind (lift (proposal_to_view env stored)) (\<lambda>view.
     ret \<lparr>pres_proposal = view,
          pres_warnings = (case rec_local_only recorded of None \<Rightarrow> [] | Some w \<Rightarrow> [w])\<rparr>))))))))"

definition propose_keyed :: "env \<Rightarrow> propose_request \<Rightarrow> error + keyed" where
  "propose_keyed env req =
     new_keyed env (po_key req) ''project.proposal.submit'' (propose_digest_body req)"

text \<open>\<open>submit\<close>: the key, then the checks, then the write under the receipt.\<close>

definition propose_prepare ::
  "env \<Rightarrow> actor \<Rightarrow> propose_request \<Rightarrow> (keyed \<times> string \<times> operation list \<times> string) tx" where
  "propose_prepare env actor req =
     tx_bind (lift (propose_keyed env req)) (\<lambda>keyed.
     tx_bind (lift (propose_validate env req)) (\<lambda>(project, ops).
     ret (keyed, project, ops, k_digest keyed)))"

definition propose_effect ::
  "env \<Rightarrow> actor \<Rightarrow> propose_request \<Rightarrow> string \<times> operation list \<times> string \<Rightarrow> (propose_response \<times> string) tx" where
  "propose_effect env actor req = (\<lambda>(project, ops, digest_hex).
     tx_bind (propose_write env actor project req ops digest_hex) (\<lambda>response. ret (response, project)))"

definition propose_summary :: "propose_response \<Rightarrow> json" where
  "propose_summary r = JObj
     [(''id'', JStr (pv_id (pres_proposal r))), (''projectId'', JStr (pv_project_id (pres_proposal r)))]"

definition propose_execute :: "env \<Rightarrow> actor \<Rightarrow> propose_request \<Rightarrow> propose_response tx" where
  "propose_execute env actor req =
     receipt_record ''project.proposal.submit'' propose_summary
       (tx_bind (propose_prepare env actor req) (\<lambda>(keyed, c).
          receipt_run env actor keyed propose_response_json propose_response_of_json
            (propose_effect env actor req c)))"

definition propose_command :: "env \<Rightarrow> propose_request \<Rightarrow> (st, propose_response) command" where
  "propose_command env req = \<lparr>cmd_verb = ProposalCreate,
     cmd_execute = (\<lambda>s actor. propose_execute env actor req s)\<rparr>"

section \<open>The reads\<close>

definition proposal_states :: "string list" where
  "proposal_states = [''pending'', ''approved'', ''changes_requested'', ''rejected'', ''superseded'']"

record proposals_request =
  plq_project_id :: string
  plq_limit :: "int option"
  plq_cursor :: "string option"
  plq_state :: "string option"

record proposals_response =
  pls_proposals :: "proposal_view list"
  pls_next_cursor :: "string option"

text \<open>\<open>existing\<close>: the canonical id of the project a caller names.\<close>

definition existing_project :: "db \<Rightarrow> string \<Rightarrow> error + string" where
  "existing_project d raw =
     and_then (canonical_id ''projectId'' raw) (\<lambda>i.
     map_sum id p_id (ok_or (read_project d i) (Project (ProjectNotFound raw))))"

definition proposals_read :: "env \<Rightarrow> proposals_request \<Rightarrow> db \<Rightarrow> error + proposals_response" where
  "proposals_read env req d =
     and_then (page_limit (plq_limit req)) (\<lambda>limit.
     and_then (transpose_opt decode_cursor (plq_cursor req)) (\<lambda>cursor.
     and_then (check_vocabulary ''state'' (plq_state req) proposal_states) (\<lambda>state.
     and_then (existing_project d (plq_project_id req)) (\<lambda>i.
     let (rows, next) = split_page (\<lambda>r. proposal_position (fst r))
           (read_proposal_page d \<lparr>qp_project = i, qp_state = state,
              qp_after = map_option (\<lambda>c. (at_ms c, cursor_id c)) cursor, qp_limit = limit + 1\<rparr>) limit
     in and_then (traverse (proposal_to_view env) rows) (\<lambda>views.
        Inr \<lparr>pls_proposals = views, pls_next_cursor = next\<rparr>)))))"

definition proposal_show_read :: "env \<Rightarrow> string \<Rightarrow> string \<Rightarrow> db \<Rightarrow> error + proposal_view" where
  "proposal_show_read env project_id proposal_id d =
     and_then (canonical_id ''proposalId'' proposal_id) (\<lambda>i.
     and_then (existing_project d project_id) (\<lambda>project.
     and_then (ok_or (read_proposal d project i) (Project (ProposalNotFound proposal_id)))
       (proposal_to_view env)))"

definition proposals_command :: "env \<Rightarrow> proposals_request \<Rightarrow> (st, proposals_response) command" where
  "proposals_command env req = \<lparr>cmd_verb = ProposalRead,
     cmd_execute = (\<lambda>s actor. reading (proposals_read env req) s)\<rparr>"

definition proposal_show_command :: "env \<Rightarrow> string \<Rightarrow> string \<Rightarrow> (st, proposal_view) command" where
  "proposal_show_command env project_id proposal_id = \<lparr>cmd_verb = ProposalRead,
     cmd_execute = (\<lambda>s actor. reading (proposal_show_read env project_id proposal_id) s)\<rparr>"

section \<open>Round trips\<close>

lemma review_view_back [simp]: "review_view_of_json (review_view_json r) = Some r"
  by (simp add: review_view_of_json_def review_view_json_def struct_fields_def field_def opt_field_def)

lemma json_option_review [simp]:
  "json_option review_view_of_json (case x of None \<Rightarrow> JNull | Some r \<Rightarrow> review_view_json r) = Some x"
  by (cases x) (simp_all add: review_view_json_def review_view_back [unfolded review_view_json_def])

lemma proposal_view_back [simp]: "proposal_view_of_json (proposal_view_json v) = Some v"
  by (simp add: proposal_view_of_json_def proposal_view_json_def struct_fields_def field_def opt_field_def)

lemma propose_response_back [simp]:
  "propose_response_of_json (propose_response_json r) = Some r"
  by (simp add: propose_response_of_json_def propose_response_json_def struct_fields_def
      field_def those_map_inverse del: map_map)

section \<open>What the statements keep\<close>

lemma proposal_insert_Inr:
  "proposal_insert row d = Inr d' \<Longrightarrow>
     d' = d\<lparr>proposals := proposals d @ [row]\<rparr> \<and> pr_id row \<notin> pr_id ` set (proposals d) \<and>
     has_project d (pr_project row)"
  by (simp add: proposal_insert_def split: if_splits)

lemma proposal_insert_ok: "proposal_insert row d = Inr d' \<Longrightarrow> keeps_ok d d'"
  using proposal_insert_Inr [of row d d'] by (auto simp: ok_defs has_project_def)

lemma proposal_insert_appends: "proposal_insert row d = Inr d' \<Longrightarrow> appends d d'"
  using proposal_insert_Inr [of row d d'] by (auto simp: appends_def)

lemma planned_row_simps [simp]:
  "p_id (planned_row at row) = p_id row" "p_slug (planned_row at row) = p_slug row"
  "p_key_prefix (planned_row at row) = p_key_prefix row" "identity (planned_row at row) = identity row"
  by (simp_all add: planned_row_def identity_def)

text \<open>Rewriting project rows without touching their keys keeps the database consistent.\<close>

lemma rewrite_projects_ok:
  assumes "\<And>row. p_id (f row) = p_id row" "\<And>row. p_slug (f row) = p_slug row"
    "\<And>row. p_key_prefix (f row) = p_key_prefix row"
  shows "keeps_ok d (d\<lparr>projects := map f (projects d)\<rparr>)"
proof -
  have "p_id \<circ> f = p_id" "p_slug \<circ> f = p_slug" "p_key_prefix \<circ> f = p_key_prefix"
    using assms by auto
  moreover have "p_id ` f ` set (projects d) = p_id ` set (projects d)"
    by (simp add: image_image assms)
  ultimately show ?thesis by (simp add: ok_defs)
qed

lemma start_planning_ok: "follows keeps_ok (start_planning i at)"
  unfolding follows_def start_planning_def Let_def
  by (auto intro!: rewrite_projects_ok)

lemma start_planning_appends: "follows appends (start_planning i at)"
  by (auto simp: follows_def start_planning_def Let_def appends_def comp_def if_distrib cong: if_cong)

lemma insert_proposal_ok: "follows keeps_ok (insert_proposal env actor project req ops dg at)"
  unfolding insert_proposal_def
  by (intro okr.follows_basic okr.follows_statement) (rule proposal_insert_ok)

lemma insert_proposal_appends: "follows appends (insert_proposal env actor project req ops dg at)"
  unfolding insert_proposal_def
  by (intro app.follows_basic app.follows_statement) (rule proposal_insert_appends)

lemma propose_write_ok: "follows keeps_ok (propose_write env actor project req ops dg)"
  unfolding propose_write_def
  by (intro okr.follows_basic insert_proposal_ok start_planning_ok record_event_ok)

lemma propose_write_appends: "follows appends (propose_write env actor project req ops dg)"
  unfolding propose_write_def
  by (intro app.follows_basic insert_proposal_appends start_planning_appends record_event_appends)

section \<open>What an accepted proposal does\<close>

text \<open>The row a submission stores.\<close>

definition submitted_row ::
  "string \<Rightarrow> string \<Rightarrow> actor \<Rightarrow> propose_request \<Rightarrow> string \<Rightarrow> string \<Rightarrow> string \<Rightarrow> string \<Rightarrow> int \<Rightarrow> proposal_row" where
  "submitted_row i project actor req operations assumptions risks digest_hex at = \<lparr>
       pr_id = i, pr_project = project, pr_base_plan_version = po_base_plan_version req,
       pr_state = ''pending'', pr_operations = operations, pr_assumptions = assumptions,
       pr_risks = risks, pr_rationale = po_rationale req, pr_proposer_type = actor_type actor,
       pr_proposer_id = actor_id actor, pr_request_digest = digest_hex, pr_created_at = at,
       pr_updated_at = at\<rparr>"

lemma insert_proposal_Inr:
  assumes "insert_proposal env actor project req ops dg at s = (Inr i, s')"
  shows "\<exists>operations assumptions risks.
     json_text env (operations_json ops) = Inr operations \<and>
     json_text env (json_ids (po_assumptions req)) = Inr assumptions \<and>
     json_text env (json_ids (po_risks req)) = Inr risks \<and>
     i \<notin> pr_id ` set (proposals (st_db s)) \<and>
     st_db s' = (st_db s)\<lparr>proposals := proposals (st_db s) @
       [submitted_row i project actor req operations assumptions risks dg at]\<rparr> \<and> st_log s' = st_log s"
proof -
  from assms obtain s1 operations assumptions risks d where
    m: "mint_uuid env s = (Inr i, s1)" and
    j: "json_text env (operations_json ops) = Inr operations"
      "json_text env (json_ids (po_assumptions req)) = Inr assumptions"
      "json_text env (json_ids (po_risks req)) = Inr risks" and
    d: "proposal_insert (submitted_row i project actor req operations assumptions risks dg at) (st_db s1) = Inr d"
      "s' = s1\<lparr>st_db := d\<rparr>"
    by (auto simp: insert_proposal_def submitted_row_def tx_simps)
  with proposal_insert_Inr [OF d(1)] mint_frame [OF m] show ?thesis
    by (intro exI [of _ operations] exI [of _ assumptions] exI [of _ risks])
       (simp add: submitted_row_def)
qed

text \<open>The project row as the submission leaves it.\<close>

definition planned_projects :: "string \<Rightarrow> int \<Rightarrow> project_row list \<Rightarrow> project_row list" where
  "planned_projects i at rows =
     map (\<lambda>row. if p_id row = i \<and> p_status row = ''draft'' then planned_row at row else row) rows"

lemma start_planning_db:
  "start_planning i at s = (Inr b, s') \<Longrightarrow>
     st_db s' = (st_db s)\<lparr>projects := planned_projects i at (projects (st_db s))\<rparr> \<and> st_log s' = st_log s"
  by (auto simp: start_planning_def planned_projects_def Let_def)

lemma propose_write_Inr:
  assumes "propose_write env actor project req ops dg s = (Inr r, s')"
  shows "\<exists>row at i operations assumptions risks payload eid.
     read_project (st_db s) project = Some row \<and>
     accepts_proposals row (po_base_plan_version req) = Inr () \<and>
     json_text env (operations_json ops) = Inr operations \<and>
     json_text env (json_ids (po_assumptions req)) = Inr assumptions \<and>
     json_text env (json_ids (po_risks req)) = Inr risks \<and>
     i \<notin> pr_id ` set (proposals (st_db s)) \<and>
     st_db s' = (st_db s)\<lparr>
       projects := planned_projects project at (projects (st_db s)),
       proposals := proposals (st_db s) @ [submitted_row i project actor req operations assumptions risks dg at],
       events := events (st_db s) @ [\<lparr>ev_id = eid, ev_project = project,
         ev_actor_type = actor_type actor, ev_actor_id = actor_id actor,
         ev_type = ''project.proposal_submitted'', ev_entity_type = ''proposal'', ev_entity_id = i,
         ev_payload = payload, ev_created_at = at\<rparr>],
       last_seq := last_seq (st_db s) + 1,
       changes := changes (st_db s) @ [\<lparr>ch_seq = last_seq (st_db s) + 1, ch_project = project,
         ch_event = eid, ch_entity_type = ''proposal'', ch_op = op_changed, ch_created_at = at\<rparr>]\<rparr> \<and>
     proposal_to_view env
       (reviewed (st_db s) (submitted_row i project actor req operations assumptions risks dg at))
         = Inr (pres_proposal r) \<and>
     st_log s' = st_log s"
proof -
  from assms obtain row at i s1 s2 s3 b recorded stored where
    row: "read_project (st_db s) project = Some row" "accepts_proposals row (po_base_plan_version req) = Inr ()"
    and now: "now_ms env s = (Inr at, s1)"
    and ins: "insert_proposal env actor project req ops dg at s1 = (Inr i, s2)"
    and plan: "start_planning project at s2 = (Inr b, s3)"
    and rec: "record_event env actor (submitted_event project i req ops) at s3 = (Inr recorded, s')"
    and stored: "read_proposal (st_db s') project i = Some stored"
    and view: "proposal_to_view env stored = Inr (pres_proposal r)"
    by (auto simp: propose_write_def tx_simps res_simps)
  note s1 = now_ms_frame [OF now] and s3 = start_planning_db [OF plan]
  from insert_proposal_Inr [OF ins] obtain operations assumptions risks where
    j: "json_text env (operations_json ops) = Inr operations"
      "json_text env (json_ids (po_assumptions req)) = Inr assumptions"
      "json_text env (json_ids (po_risks req)) = Inr risks" "i \<notin> pr_id ` set (proposals (st_db s))"
    and s2: "st_db s2 = (st_db s)\<lparr>proposals := proposals (st_db s) @
       [submitted_row i project actor req operations assumptions risks dg at]\<rparr>" "st_log s2 = st_log s"
    by (auto simp: s1)
  from record_event_effect [OF rec] obtain payload where s': "st_db s' = (st_db s3)\<lparr>
       events := events (st_db s3) @ [\<lparr>ev_id = rec_id recorded, ev_project = project,
         ev_actor_type = actor_type actor, ev_actor_id = actor_id actor,
         ev_type = ''project.proposal_submitted'', ev_entity_type = ''proposal'', ev_entity_id = i,
         ev_payload = payload, ev_created_at = at\<rparr>],
       last_seq := last_seq (st_db s3) + 1,
       changes := changes (st_db s3) @ [\<lparr>ch_seq = last_seq (st_db s3) + 1, ch_project = project,
         ch_event = rec_id recorded, ch_entity_type = ''proposal'', ch_op = op_changed,
         ch_created_at = at\<rparr>]\<rparr>" "st_log s' = st_log s3"
    by (auto simp: submitted_event_def actor_type_def actor_id_def)
  let ?row = "submitted_row i project actor req operations assumptions risks dg at"
  have "proposals (st_db s') = proposals (st_db s) @ [?row]" "approvals (st_db s') = approvals (st_db s)"
    using s'(1) s2 s3 by simp_all
  moreover have "find (\<lambda>p. pr_project p = project \<and> pr_id p = i) (proposals (st_db s) @ [?row]) = Some ?row"
    using j(4) by (intro find_append_new) (auto simp: submitted_row_def)
  ultimately have "stored = reviewed (st_db s) ?row"
    using stored by (simp add: read_proposal_def reviewed_def)
  with view have "proposal_to_view env (reviewed (st_db s) ?row) = Inr (pres_proposal r)" by simp
  moreover have "st_log s' = st_log s" using s'(2) s2(2) s3 by simp
  moreover have "st_db s' = (st_db s)\<lparr>
       projects := planned_projects project at (projects (st_db s)),
       proposals := proposals (st_db s) @ [?row],
       events := events (st_db s) @ [\<lparr>ev_id = rec_id recorded, ev_project = project,
         ev_actor_type = actor_type actor, ev_actor_id = actor_id actor,
         ev_type = ''project.proposal_submitted'', ev_entity_type = ''proposal'', ev_entity_id = i,
         ev_payload = payload, ev_created_at = at\<rparr>],
       last_seq := last_seq (st_db s) + 1,
       changes := changes (st_db s) @ [\<lparr>ch_seq = last_seq (st_db s) + 1, ch_project = project,
         ch_event = rec_id recorded, ch_entity_type = ''proposal'', ch_op = op_changed,
         ch_created_at = at\<rparr>]\<rparr>"
    using s3 by (simp add: s'(1) s2(1))
  ultimately show ?thesis using row j by blast
qed

lemma propose_effect_Inr:
  "propose_effect env actor req (project, ops, dg) s = (Inr (r, p), s') \<longleftrightarrow>
     p = project \<and> propose_write env actor project req ops dg s = (Inr r, s')"
  by (auto simp: propose_effect_def tx_simps)

lemma propose_prepare_iff:
  "propose_prepare env actor req s = (Inr (keyed, project, ops, dg), s1) \<longleftrightarrow>
     s1 = s \<and> propose_keyed env req = Inr keyed \<and> propose_validate env req = Inr (project, ops) \<and>
     dg = k_digest keyed"
  by (auto simp: propose_prepare_def tx_simps split: prod.splits)

interpretation propose: receipted_command env "propose_execute env" "propose_prepare env"
  "propose_keyed env" "propose_effect env" propose_response_json propose_response_of_json
  "\<lambda>_. ''project.proposal.submit''" propose_summary for env
proof
  fix actor req s p s1 keyed and c :: "string \<times> operation list \<times> string" and r :: propose_response
  show "propose_execute env actor req = receipt_record ''project.proposal.submit'' propose_summary
      (tx_bind (propose_prepare env actor req) (\<lambda>(keyed, c).
        receipt_run env actor keyed propose_response_json propose_response_of_json
          (propose_effect env actor req c)))"
    by (simp add: propose_execute_def)
  show "st_db s1 = st_db s \<and> st_log s1 = st_log s" if "propose_prepare env actor req s = (p, s1)"
    using that
    by (cases p) (auto simp: propose_prepare_def tx_simps tx_bind_Inl_iff split: prod.splits)
  show "propose_keyed env req = Inr keyed"
    if "propose_prepare env actor req s = (Inr (keyed, c), s1)"
    using that by (cases c) (simp add: propose_prepare_iff)
  show "propose_response_of_json (propose_response_json r) = Some r" by simp
  show "follows keeps_ok (propose_effect env actor req c)"
    unfolding propose_effect_def by (cases c) (auto intro!: okr.follows_basic propose_write_ok)
  show "follows appends (propose_effect env actor req c)"
    unfolding propose_effect_def by (cases c) (auto intro!: app.follows_basic propose_write_appends)
  show "receipts (st_db s1) = receipts (st_db s) \<and> st_log s1 = st_log s"
    if "propose_effect env actor req c s = (Inr x, s1)" for x
    using that by (cases c; cases x) (auto simp: propose_effect_Inr dest!: propose_write_Inr)
qed

section \<open>When a submission succeeds\<close>

lemma fresh_find_none:
  assumes "db_ok d" "i \<notin> pr_id ` set (proposals d)"
  shows "find (\<lambda>a. apr_proposal a = i) (approvals d) = None"
  using assms by (auto simp: db_ok_def references_ok_def find_None_iff)

lemma stored_texts:
  assumes "codec_ok env"
  shows "json_text env (operations_json ops) = Inr t \<Longrightarrow> stored_operations env t = ops"
    "json_text env (json_ids xs) = Inr u \<Longrightarrow> stored_json env u = xs"
  by (auto simp: json_text_def stored_operations_def stored_json_def codec_okD [OF assms]
      split: sum.splits)

lemma proposal_to_view_Inr:
  assumes "proposal_to_view env (row, None) = Inr v"
  shows "pv_id v = pr_id row \<and> pv_project_id v = pr_project row \<and>
     pv_base_plan_version v = pr_base_plan_version row \<and> pv_state v = pr_state row \<and>
     pv_operations v = stored_operations env (pr_operations row) \<and> pv_rationale v = pr_rationale row \<and>
     pv_assumptions v = stored_json env (pr_assumptions row) \<and>
     pv_risks v = stored_json env (pr_risks row) \<and> pv_review v = None"
  using assms by (auto simp: proposal_to_view_def res_simps transpose_opt_def)

lemma proposal_to_view_total:
  assumes "env_total env"
  shows "\<exists>v. proposal_to_view env (row, review) = Inr v"
proof -
  obtain rv where "transpose_opt (review_to_view env (pr_id row)) review = Inr rv"
  proof (cases review)
    case (Some a)
    then show ?thesis
      using that rendered_total [OF assms, of "apr_created_at a" "pr_id row" "''project_approvals.created_at''"]
      by (auto simp: transpose_opt_def review_to_view_def)
  qed (use that in \<open>simp add: transpose_opt_def\<close>)
  moreover obtain ca ua where
    "rendered env (pr_created_at row) (pr_id row) ''project_plan_proposals.created_at'' = Inr ca"
    "rendered env (pr_updated_at row) (pr_id row) ''project_plan_proposals.updated_at'' = Inr ua"
    using rendered_total [OF assms] by metis
  ultimately show ?thesis by (simp add: proposal_to_view_def)
qed

text \<open>Every id the random source will still answer is new among the proposals too.\<close>

definition fresh_proposals :: "env \<Rightarrow> db \<Rightarrow> bool" where
  "fresh_proposals env d \<longleftrightarrow>
     (\<forall>k bytes. e_urandom env k 16 = Inr bytes \<longrightarrow> new_v4 (hex_of_bytes bytes) \<notin> pr_id ` set (proposals d))"

lemma planned_ids: "p_id ` set (planned_projects i at rows) = p_id ` set rows"
proof -
  have "map p_id (planned_projects i at rows) = map p_id rows" by (simp add: planned_projects_def)
  then show ?thesis by (metis list.set_map)
qed

lemma propose_write_total:
  assumes env: "env_total env" and fresh: "fresh_ids env (st_db s)" "fresh_proposals env (st_db s)"
    and row: "read_project (st_db s) project = Some row"
    and ok: "accepts_proposals row (po_base_plan_version req) = Inr ()"
  shows "\<exists>r s'. propose_write env actor project req ops dg s = (Inr r, s')"
proof -
  define at where "at = e_clock env (st_ticks s) sdiv 1000000"
  define s1 where "s1 = s\<lparr>st_ticks := Suc (st_ticks s)\<rparr>"
  have now: "now_ms env s = (Inr at, s1)" by (simp add: now_ms_def at_def s1_def)
  have here: "has_project (st_db s1) project"
    using read_project_Some [OF row] by (auto simp: has_project_def s1_def)
  from mint_total [OF env, of s1] obtain i bytes where
    i: "mint_uuid env s1 = (Inr i, s1\<lparr>st_draws := Suc (st_draws s1)\<rparr>)"
      "e_urandom env (st_draws s1) 16 = Inr bytes" "i = new_v4 (hex_of_bytes bytes)" by blast
  have new: "i \<notin> pr_id ` set (proposals (st_db s1))"
    using fresh(2) i by (auto simp: fresh_proposals_def s1_def)
  obtain operations assumptions risks where
    j: "json_text env (operations_json ops) = Inr operations"
      "json_text env (json_ids (po_assumptions req)) = Inr assumptions"
      "json_text env (json_ids (po_risks req)) = Inr risks"
    using json_text_total [OF env] by metis
  let ?row = "submitted_row i project actor req operations assumptions risks dg at"
  define s2 where "s2 = s1\<lparr>st_draws := Suc (st_draws s1), st_db := (st_db s1)\<lparr>proposals := proposals (st_db s1) @ [?row]\<rparr>\<rparr>"
  have ins: "insert_proposal env actor project req ops dg at s1 = (Inr i, s2)"
    using new here
    by (simp add: insert_proposal_def tx_bind_def i(1) lift_def j statement_def proposal_insert_def
        ret_def s2_def submitted_row_def)
  obtain b s3 where plan: "start_planning project at s2 = (Inr b, s3)"
    by (simp add: start_planning_def Let_def)
  note s3 = start_planning_db [OF plan]
  let ?ev = "submitted_event project i req ops"
  have "has_project (st_db s3) (e_project ?ev)" "fresh_ids env (st_db s3)"
    using here fresh(1) s3
    by (simp_all add: has_project_def planned_ids s2_def s1_def submitted_event_def fresh_ids_def)
  from record_event_total [OF env this] obtain recorded s4 where
    rec: "record_event env actor ?ev at s3 = (Inr recorded, s4)" by blast
  from record_event_effect [OF rec] have "proposals (st_db s4) = proposals (st_db s1) @ [?row]"
    using s3 by (auto simp: s2_def)
  then have "read_proposal (st_db s4) project i = Some (reviewed (st_db s4) ?row)"
    using new find_append_new [of "proposals (st_db s1)" "\<lambda>p. pr_project p = project \<and> pr_id p = i" ?row]
    by (auto simp: read_proposal_def submitted_row_def)
  moreover obtain v where "proposal_to_view env (reviewed (st_db s4) ?row) = Inr v"
    using proposal_to_view_total [OF env] by (auto simp: reviewed_def)
  ultimately show ?thesis
    by (simp add: propose_write_def tx_bind_def reading_def lift_def ret_def ok_or_def row ok now ins plan rec)
qed

text \<open>What an applied submission did, from the receipt runner and the write.\<close>

lemma propose_applied:
  assumes run: "propose_execute env actor req s = (Inr r, s')"
    and keyed: "propose_keyed env req = Inr keyed"
    and fresh: "find_receipt (st_db s) (actor_type actor) (actor_id actor) (k_key keyed) = None"
  obtains project ops s1 receipt where "propose_validate env req = Inr (project, ops)"
    "propose_write env actor project req ops (k_digest keyed) (s\<lparr>st_txs := Suc (st_txs s)\<rparr>) = (Inr r, s1)"
    "st_db s' = (st_db s1)\<lparr>receipts := receipts (st_db s1) @ [receipt]\<rparr>"
    "rc_key receipt = k_key keyed" "rc_project receipt = project" "rc_digest receipt = k_digest keyed"
  using run
proof (cases rule: propose.exec_cases)
  case (replayed k c s1 x)
  then have "k = keyed" "s1 = s" using keyed by (cases c; simp add: propose_prepare_iff)+
  with receipt_run_replayed [OF replayed(3)] fresh show ?thesis by auto
next
  case (applied k c s1 x s2)
  obtain project ops dg where c: "c = (project, ops, dg)" by (cases c)
  have s1: "s1 = s" and k: "k = keyed" and v: "propose_validate env req = Inr (project, ops)"
    and dg: "dg = k_digest keyed"
    using applied(2) keyed by (simp_all add: c propose_prepare_iff)
  have x: "x = r" using applied(1) by simp
  from receipt_run_applied [OF applied(3)] obtain p s3 answer j at where
    eff: "propose_effect env actor req c (s\<lparr>st_txs := Suc (st_txs s)\<rparr>) = (Inr (r, p), s3)"
    and ins: "receipt_insert \<lparr>rc_id = j, rc_project = p, rc_principal_type = actor_type actor,
       rc_principal_id = actor_id actor, rc_key = k_key keyed, rc_command_type = k_command keyed,
       rc_digest = k_digest keyed, rc_response = answer, rc_created_at = at\<rparr> (st_db s3)
       = Inr (st_db s2)" by (auto simp: x k s1)
  from eff have "p = project"
    "propose_write env actor project req ops (k_digest keyed) (s\<lparr>st_txs := Suc (st_txs s)\<rparr>) = (Inr r, s3)"
    by (simp_all add: c dg propose_effect_Inr)
  then show ?thesis
    using that [OF v, of s3] receipt_insert_Inr [OF ins] applied(4) by simp
qed auto

lemma propose_runs:
  assumes env: "env_total env" and fresh: "fresh_ids env (st_db s)" "fresh_proposals env (st_db s)"
    and prep: "propose_prepare env actor req s = (Inr (keyed, project, ops, dg), s)"
    and free: "find_receipt (st_db s) (actor_type actor) (actor_id actor) (k_key keyed) = None"
    and row: "read_project (st_db s) project = Some row"
    and ok: "accepts_proposals row (po_base_plan_version req) = Inr ()"
  shows "\<exists>r s'. propose_execute env actor req s = (Inr r, s')"
proof -
  let ?s = "s\<lparr>st_txs := Suc (st_txs s)\<rparr>" and ?c = "(project, ops, dg)"
  have "fresh_ids env (st_db ?s)" "fresh_proposals env (st_db ?s)" "read_project (st_db ?s) project = Some row"
    using fresh row by simp_all
  from propose_write_total [OF env this ok] obtain r s1 where
    w: "propose_write env actor project req ops dg ?s = (Inr r, s1)" by blast
  then have eff: "propose_effect env actor req ?c ?s = (Inr (r, project), s1)"
    by (simp add: propose_effect_Inr)
  have "project \<in> p_id ` set (projects (st_db s))" using read_project_Some [OF row] by blast
  then have "receipts (st_db s1) = receipts (st_db s)" "has_project (st_db s1) project"
    using propose_write_Inr [OF w] by (auto simp: has_project_def planned_ids)
  from receipt_run_total [where effect = "propose_effect env actor req ?c", OF env free eff this fresh(1)]
  obtain s2 where "receipt_run env actor keyed propose_response_json propose_response_of_json
      (propose_effect env actor req ?c) s = (Inr (Applied r), s2)" by blast
  then show ?thesis by (simp add: propose_execute_def receipt_record_def tx_bind_def prep)
qed

section \<open>Properties\<close>


text \<open>C24. The answer to a proposal that no receipt holds is decided by the project's row alone: no row
  is \<open>project_not_found\<close> with the caller's id, an archived or closed project is
  \<open>invalid_transition\<close>, another plan version than the proposal was written against is
  \<open>proposal_stale\<close> with both versions, and every other proposal is stored; a refused one leaves
  the database as it was.\<close>

theorem propose_decides:
  assumes env: "env_total env" and fresh: "fresh_ids env (st_db s)" "fresh_proposals env (st_db s)"
    and prep: "propose_prepare env actor req s = (Inr (keyed, project, ops, dg), s)"
    and free: "find_receipt (st_db s) (actor_type actor) (actor_id actor) (k_key keyed) = None"
  shows "case read_project (st_db s) project of
     None \<Rightarrow> \<exists>s'. propose_execute env actor req s = (Inl (Project (ProjectNotFound (po_project_id req))), s') \<and>
                st_db s' = st_db s
   | Some row \<Rightarrow>
       if p_archived_at row \<noteq> None \<or> terminal_status (p_status row)
       then \<exists>reason s'. propose_execute env actor req s = (Inl (invalid_transition reason), s') \<and>
              st_db s' = st_db s
       else if p_plan_version row \<noteq> po_base_plan_version req
       then \<exists>s'. propose_execute env actor req s =
              (Inl (Project (ProposalStale (po_base_plan_version req) (p_plan_version row))), s') \<and>
              st_db s' = st_db s
       else \<exists>r s'. propose_execute env actor req s = (Inr r, s')"
proof -
  let ?s = "s\<lparr>st_txs := Suc (st_txs s)\<rparr>" and ?c = "(project, ops, dg)"
  have begins: "e_begin env (st_txs s) = Inr ()" using env by (simp add: env_total_def)
  have fails: "\<exists>s'. propose_execute env actor req s = (Inl e, s') \<and> st_db s' = st_db s"
    if "propose_effect env actor req ?c ?s = (Inl e, s1)" for e s1
    using receipt_run_effect_fails [where effect = "propose_effect env actor req ?c", OF free begins that]
    by (simp add: propose_execute_def receipt_record_def tx_bind_def prep)
  show ?thesis
  proof (cases "read_project (st_db s) project")
    case None
    have "propose_effect env actor req ?c ?s = (Inl (Project (ProjectNotFound (po_project_id req))), ?s)"
      by (simp add: propose_effect_def propose_write_def tx_bind_def reading_def ok_or_def None)
    from fails [OF this] None show ?thesis by simp
  next
    case (Some row)
    show ?thesis
    proof (cases "accepts_proposals row (po_base_plan_version req)")
      case (Inl e)
      have "propose_effect env actor req ?c ?s = (Inl e, ?s)"
        by (simp add: propose_effect_def propose_write_def tx_bind_def reading_def ok_or_def Some lift_def Inl)
      from fails [OF this] Some Inl show ?thesis
        by (auto simp: accepts_proposals_def split: if_splits)
    next
      case (Inr u)
      then have "\<exists>r s'. propose_execute env actor req s = (Inr r, s')"
        by (intro propose_runs [OF env fresh prep free Some]) simp
      with Some Inr show ?thesis by (simp add: accepts_proposals_def split: if_splits)
    qed
  qed
qed

section \<open>A submission on a concrete project\<close>

definition demo_proposal :: propose_request where
  "demo_proposal = \<lparr>po_project_id = demo_id, po_workspace_id = None, po_key = ''p1'',
     po_base_plan_version = 0, po_operations = [CriterionArchive demo_id], po_rationale = ''why'',
     po_assumptions = [], po_risks = []\<rparr>"

definition proposal_env :: env where
  "proposal_env = brief_env (operations_json [CriterionArchive demo_id])"

lemmas proposal_env_facts = brief_total [of "operations_json [CriterionArchive demo_id]", folded proposal_env_def]
  brief_codec [of "operations_json [CriterionArchive demo_id]", folded proposal_env_def]

lemma demo_proposal_checks:
  "text_limit ''idempotencyKey'' ''p1'' 1 idempotency_key_max = Inr ()"
  "text_limit ''rationale'' ''why'' 1 rationale_max = Inr ()"
  by code_simp+

lemma demo_propose_prepare:
  "\<exists>keyed. propose_keyed proposal_env demo_proposal = Inr keyed \<and>
     propose_prepare proposal_env demo_actor demo_proposal s =
       (Inr (keyed, demo_id, [CriterionArchive demo_id], k_digest keyed), s)"
proof -
  obtain keyed where k: "propose_keyed proposal_env demo_proposal = Inr keyed"
    using demo_proposal_checks(1)
    by (simp add: propose_keyed_def new_keyed_def demo_proposal_def proposal_env_def
        command_digest_def bytes_and_digest_def to_bytes_def)
  have "propose_validate proposal_env demo_proposal = Inr (demo_id, [CriterionArchive demo_id])"
    using demo_proposal_checks(2)
    by (simp add: propose_validate_def demo_proposal_def canonical_id_def ok_or_def
        validate_operations_def rule_id_def json_text_def proposal_env_def operations_max_def
        operations_bytes_max_def list_limit_def)
  with k show ?thesis by (simp add: propose_prepare_iff)
qed

lemma demo_fresh_proposals: "proposals d = [] \<Longrightarrow> fresh_proposals env d"
  by (simp add: fresh_proposals_def)

lemma demo_db_tables [simp]:
  "proposals demo_db = []" "approvals demo_db = []" "events demo_db = []" "receipts demo_db = []"
  by (simp_all add: demo_db_def empty_db_def)

theorem propose_decides_witness:
  "\<exists>r s'. propose_execute proposal_env demo_actor demo_proposal (st_of demo_db) = (Inr r, s')"
proof -
  obtain keyed where prep: "propose_prepare proposal_env demo_actor demo_proposal (st_of demo_db) =
       (Inr (keyed, demo_id, [CriterionArchive demo_id], k_digest keyed), st_of demo_db)"
    using demo_propose_prepare by blast
  have "fresh_ids proposal_env (st_db (st_of demo_db))" "fresh_proposals proposal_env (st_db (st_of demo_db))"
    by (simp_all add: fresh_ids_def demo_fresh_proposals)
  from propose_decides [OF proposal_env_facts(1) this prep] show ?thesis
    by (simp add: demo_project_def demo_proposal_def terminal_status_def)
qed

lemma demo_propose_runs:
  "\<exists>r s'. propose_execute proposal_env demo_actor demo_proposal (st_of demo_db) = (Inr r, s')"
proof -
  obtain keyed where "propose_prepare proposal_env demo_actor demo_proposal (st_of demo_db) =
       (Inr (keyed, demo_id, [CriterionArchive demo_id], k_digest keyed), st_of demo_db)"
    using demo_propose_prepare by blast
  from propose_runs [OF proposal_env_facts(1) _ _ this] show ?thesis
    by (simp add: fresh_ids_def demo_fresh_proposals accepts_proposals_def demo_project_def
        demo_proposal_def terminal_status_def)
qed


end
