(* ===== verification/Project_Evidence.thy ===== *)
theory Project_Evidence
  imports Project_Feed
begin

text \<open>
  Typed evidence: the kind and trust vocabularies, the claim shapes and the trust they earn
  (\<open>src/domains/projects/evidence.rs\<close>), the checks before any store access
  (\<open>evidence_check.rs\<close>), the attach command (\<open>evidence_add.rs\<close>), the page
  (\<open>evidence_page.rs\<close>) and the statements of \<open>src/store/project_evidence.rs\<close>. Parsing a URL
  (the crate \<open>url\<close>) is the parameter \<open>url_parses\<close>.
\<close>

section \<open>Claims and trust\<close>

definition evidence_kinds :: "string list" where
  "evidence_kinds = [''commit'', ''pull_request'', ''test_run'', ''deployment'', ''session'', ''decision'',
     ''memory'', ''external_url'']"

definition trusts :: "string list" where
  "trusts = [''verified'', ''self_reported'', ''pending'', ''invalid'']"

definition least_trusted :: string where "least_trusted = ''invalid''"
definition pending_reason :: string where "pending_reason = ''verification_pending''"

definition read_trust :: "string \<Rightarrow> string" where
  "read_trust stored = (if stored \<in> set trusts then stored else least_trusted)"

datatype trust_filter = Exactly string | NoneOf "string list"

definition trust_filter_of :: "string \<Rightarrow> trust_filter" where
  "trust_filter_of trust =
     (if trust = least_trusted then NoneOf (take (length trusts - 1) trusts) else Exactly trust)"

record claim =
  cl_kind :: string
  cl_repo :: "string option"
  cl_commit_sha :: "string option"
  cl_external_id :: "string option"

record initial =
  in_trust :: string
  in_reason :: "string option"

definition required_claim :: "string option \<Rightarrow> string \<Rightarrow> string \<Rightarrow> error + unit" where
  "required_claim v name reason =
     (case v of Some _ \<Rightarrow> Inr () | None \<Rightarrow> Inl (invariant_refusal name reason))"

text \<open>\<open>parse::<u64>\<close> of decimal digits, kept when positive.\<close>

definition pull_request_number :: "string \<Rightarrow> nat option" where
  "pull_request_number i =
     (if \<not> list_all is_digit i then None
      else if i = [] \<or> 2 ^ 64 \<le> parse_digits i then None
      else if 0 < parse_digits i then Some (parse_digits i) else None)"

definition check_shape :: "claim \<Rightarrow> error + unit" where
  "check_shape c =
     (let sha = required_claim (cl_commit_sha c) ''commitSha'' ''required_hex_sha''
      in if cl_kind c = ''commit''
         then and_then (required_claim (cl_repo c) ''repo'' ''required_for_commit'') (\<lambda>_. sha)
         else if cl_kind c = ''pull_request''
         then and_then (required_claim (cl_repo c) ''repo'' ''required_for_pull_request'') (\<lambda>_.
              required_claim (case cl_external_id c of
                  None \<Rightarrow> None | Some i \<Rightarrow> if pull_request_number i \<noteq> None then Some i else None)
                ''externalId'' ''required_pull_request_number'')
         else if cl_kind c = ''test_run'' \<and> cl_repo c \<noteq> None
         then and_then sha (\<lambda>_. required_claim (cl_external_id c) ''externalId'' ''required_check_run_name'')
         else if cl_kind c \<in> {''session'', ''decision'', ''memory''}
         then required_claim (cl_external_id c) ''externalId'' ''required_record_id''
         else Inr ())"

definition verifiable :: "claim \<Rightarrow> bool" where
  "verifiable c \<longleftrightarrow>
     (if cl_kind c \<in> {''commit'', ''pull_request'', ''session'', ''decision'', ''memory''} then True
      else if cl_kind c = ''test_run'' then cl_repo c \<noteq> None
      else False)"

definition initial_trust :: "claim \<Rightarrow> initial" where
  "initial_trust c =
     (if verifiable c then \<lparr>in_trust = ''pending'', in_reason = Some pending_reason\<rparr>
      else \<lparr>in_trust = ''self_reported'', in_reason = None\<rparr>)"

definition evidence_metadata_bytes_max :: nat where "evidence_metadata_bytes_max = 16 * 1024"
definition evidence_source_max :: nat where "evidence_source_max = 120"
definition evidence_external_id_max :: nat where "evidence_external_id_max = 256"
definition evidence_url_max :: nat where "evidence_url_max = 2048"
definition evidence_criteria_max :: nat where "evidence_criteria_max = 20"

lemmas [table_simps] = evidence_metadata_bytes_max_def evidence_source_max_def
  evidence_external_id_max_def evidence_url_max_def evidence_criteria_max_def

text \<open>\<open>StoredMetadata\<close> as JSON, and its encoded column under the cap; nothing has a provider yet.\<close>

definition stored_metadata ::
  "string option \<Rightarrow> string option \<Rightarrow> string option \<Rightarrow> (string \<times> json) list \<Rightarrow> json" where
  "stored_metadata repo sha reason claim_members = JObj
     [(''repo'', json_opt repo), (''commitSha'', json_opt sha), (''reason'', json_opt reason),
      (''claim'', JObj claim_members), (''provider'', JNull)]"

definition encode_metadata :: "env \<Rightarrow> json \<Rightarrow> error + string" where
  "encode_metadata env v =
     and_then (json_text env v) (\<lambda>encoded.
       if evidence_metadata_bytes_max < length encoded
       then Inl (Project (over_limit ''metadata'' ''too_large'' evidence_metadata_bytes_max))
       else Inr encoded)"

section \<open>The view\<close>

record evidence_view =
  ew_id :: string
  ew_work_item :: "string option"
  ew_execution :: "string option"
  ew_kind :: string
  ew_source :: string
  ew_external_id :: "string option"
  ew_url :: "string option"
  ew_trust :: string
  ew_metadata :: "(string \<times> json) list"
  ew_content_hash :: "string option"
  ew_verified_by :: "string option"
  ew_verified_at :: "string option"
  ew_creator_type :: string
  ew_creator_id :: string
  ew_created_at :: string

definition evidence_timestamp :: "env \<Rightarrow> string \<Rightarrow> string \<Rightarrow> int \<Rightarrow> error + string" where
  "evidence_timestamp env i column ms =
     ok_or (iso env ms) (Project (Invariant ''project_timestamp_range''
       (''project_evidence.'' @ column @ '' of '' @ i @ '' is outside the representable range'')))"

definition evidence_to_view :: "env \<Rightarrow> evidence_row \<Rightarrow> error + evidence_view" where
  "evidence_to_view env row =
     (let metadata = (case e_from_str env (evd_metadata row) of Inr (JObj kvs) \<Rightarrow> kvs | _ \<Rightarrow> [])
      in and_then (transpose_opt (evidence_timestamp env (evd_id row) ''verified_at'') (evd_verified_at row)) (\<lambda>verified_at.
         and_then (evidence_timestamp env (evd_id row) ''created_at'' (evd_created_at row)) (\<lambda>created_at.
         Inr \<lparr>ew_id = evd_id row, ew_work_item = evd_work_item row, ew_execution = evd_execution row,
              ew_kind = evd_kind row, ew_source = evd_source row,
              ew_external_id = evd_external_id row, ew_url = evd_url row,
              ew_trust = read_trust (evd_trust row), ew_metadata = metadata,
              ew_content_hash = evd_content_hash row, ew_verified_by = evd_verified_by row,
              ew_verified_at = verified_at, ew_creator_type = evd_creator_type row,
              ew_creator_id = evd_creator_id row, ew_created_at = created_at\<rparr>)))"

definition evidence_view_json :: "evidence_view \<Rightarrow> json" where
  "evidence_view_json v = JObj
     [(''id'', JStr (ew_id v)),
      (''workItemId'', json_opt (ew_work_item v)),
      (''executionId'', json_opt (ew_execution v)),
      (''kind'', JStr (ew_kind v)),
      (''source'', JStr (ew_source v)),
      (''externalId'', json_opt (ew_external_id v)),
      (''url'', json_opt (ew_url v)),
      (''trust'', JStr (ew_trust v)),
      (''metadata'', JObj (ew_metadata v)),
      (''contentHash'', json_opt (ew_content_hash v)),
      (''verifiedBy'', json_opt (ew_verified_by v)),
      (''verifiedAt'', json_opt (ew_verified_at v)),
      (''creatorPrincipalType'', JStr (ew_creator_type v)),
      (''creatorPrincipalId'', JStr (ew_creator_id v)),
      (''createdAt'', JStr (ew_created_at v))]"

fun json_members :: "json \<Rightarrow> (string \<times> json) list option" where
  "json_members (JObj kvs) = Some kvs"
| "json_members _ = None"

definition evidence_view_of_json :: "json \<Rightarrow> evidence_view option" where
  "evidence_view_of_json j =
     Option.bind (struct_fields [''id'', ''workItemId'', ''executionId'', ''kind'', ''source'', ''externalId'',
       ''url'', ''trust'', ''metadata'', ''contentHash'', ''verifiedBy'', ''verifiedAt'',
       ''creatorPrincipalType'', ''creatorPrincipalId'', ''createdAt''] j) (\<lambda>get.
     Option.bind (field json_str get ''id'') (\<lambda>i.
     Option.bind (opt_field json_str get ''workItemId'') (\<lambda>item.
     Option.bind (opt_field json_str get ''executionId'') (\<lambda>execution.
     Option.bind (field json_str get ''kind'') (\<lambda>kind.
     Option.bind (field json_str get ''source'') (\<lambda>source.
     Option.bind (opt_field json_str get ''externalId'') (\<lambda>external.
     Option.bind (opt_field json_str get ''url'') (\<lambda>url.
     Option.bind (field json_str get ''trust'') (\<lambda>trust.
     Option.bind (field json_members get ''metadata'') (\<lambda>metadata.
     Option.bind (opt_field json_str get ''contentHash'') (\<lambda>hash.
     Option.bind (opt_field json_str get ''verifiedBy'') (\<lambda>verified_by.
     Option.bind (opt_field json_str get ''verifiedAt'') (\<lambda>verified_at.
     Option.bind (field json_str get ''creatorPrincipalType'') (\<lambda>ctype.
     Option.bind (field json_str get ''creatorPrincipalId'') (\<lambda>cid.
     Option.bind (field json_str get ''createdAt'') (\<lambda>created_at.
     Some \<lparr>ew_id = i, ew_work_item = item, ew_execution = execution, ew_kind = kind,
           ew_source = source, ew_external_id = external, ew_url = url, ew_trust = trust,
           ew_metadata = metadata, ew_content_hash = hash, ew_verified_by = verified_by,
           ew_verified_at = verified_at, ew_creator_type = ctype, ew_creator_id = cid,
           ew_created_at = created_at\<rparr>))))))))))))))))"

section \<open>The checks that need no store\<close>

record evidence_request =
  er_project_id :: string
  er_key :: string
  er_work_item_id :: "string option"
  er_kind :: string
  er_source :: string
  er_external_id :: "string option"
  er_url :: "string option"
  er_repo :: "string option"
  er_commit_sha :: "string option"
  er_metadata :: "(string \<times> json) list option"
  er_criterion_ids :: "string list"

record valid_evidence =
  ve_raw_project_id :: string
  ve_project_id :: string
  ve_raw_work_item_id :: "string option"
  ve_work_item_id :: "string option"
  ve_kind :: string
  ve_source :: string
  ve_external_id :: "string option"
  ve_url :: "string option"
  ve_repo :: "string option"
  ve_commit_sha :: "string option"
  ve_metadata :: "(string \<times> json) list"
  ve_criterion_ids :: "string list"

definition check_url :: "(string \<Rightarrow> bool) \<Rightarrow> string \<Rightarrow> error + unit" where
  "check_url url_parses url =
     (if evidence_url_max < utf16_len url
      then Inl (Project (over_limit ''url'' ''too_long'' evidence_url_max))
      else if url_parses url \<and> trim url = url then Inr ()
      else Inl (Project (invalid_field ''url'' ''invalid'')))"

definition canonical_repo :: "string \<Rightarrow> error + string" where
  "canonical_repo raw =
     ok_or (canonical_github_name (trim raw)) (invariant_refusal ''repo'' ''invalid_format'')"

definition hex_sha :: "string \<Rightarrow> error + string" where
  "hex_sha raw =
     and_then (text_limit ''commitSha'' raw 1 evidence_external_id_max) (\<lambda>_.
       if list_all is_hexdigit raw then Inr (ascii_lower raw)
       else Inl (invariant_refusal ''commitSha'' ''invalid_format''))"

fun canonical_ids :: "nat \<Rightarrow> string list \<Rightarrow> error + string list" where
  "canonical_ids n [] = Inr []"
| "canonical_ids n (i # rest) =
     and_then (canonical_id (''criterionIds.'' @ show_nat n) i) (\<lambda>c.
     and_then (canonical_ids (Suc n) rest) (\<lambda>cs. Inr (c # cs)))"

definition check_criterion_ids :: "string list \<Rightarrow> error + string list" where
  "check_criterion_ids raw =
     (if evidence_criteria_max < length raw
      then Inl (Project (over_limit ''criterionIds'' ''too_many'' evidence_criteria_max))
      else canonical_ids 0 raw)"

definition optional_check :: "('a \<Rightarrow> error + unit) \<Rightarrow> 'a option \<Rightarrow> error + unit" where
  "optional_check f v = (case v of None \<Rightarrow> Inr () | Some x \<Rightarrow> f x)"

definition evidence_validate :: "(string \<Rightarrow> bool) \<Rightarrow> evidence_request \<Rightarrow> error + valid_evidence" where
  "evidence_validate url_parses req =
     and_then (canonical_id ''projectId'' (er_project_id req)) (\<lambda>project.
     and_then (transpose_opt (canonical_id ''workItemId'') (er_work_item_id req)) (\<lambda>item.
     and_then (check_vocabulary ''kind'' (Some (er_kind req)) evidence_kinds) (\<lambda>_.
     and_then (text_limit ''source'' (er_source req) 1 evidence_source_max) (\<lambda>_.
     and_then (optional_check (\<lambda>i. text_limit ''externalId'' i 1 evidence_external_id_max)
       (er_external_id req)) (\<lambda>_.
     and_then (optional_check (check_url url_parses) (er_url req)) (\<lambda>_.
     and_then (transpose_opt canonical_repo (er_repo req)) (\<lambda>repo.
     and_then (transpose_opt hex_sha (er_commit_sha req)) (\<lambda>sha.
     and_then (check_criterion_ids (er_criterion_ids req)) (\<lambda>ids.
     Inr \<lparr>ve_raw_project_id = er_project_id req, ve_project_id = project,
          ve_raw_work_item_id = er_work_item_id req, ve_work_item_id = item, ve_kind = er_kind req,
          ve_source = er_source req, ve_external_id = er_external_id req, ve_url = er_url req,
          ve_repo = repo, ve_commit_sha = sha,
          ve_metadata = (case er_metadata req of None \<Rightarrow> [] | Some m \<Rightarrow> m),
          ve_criterion_ids = ids\<rparr>)))))))))"

definition valid_claim :: "valid_evidence \<Rightarrow> claim" where
  "valid_claim v = \<lparr>cl_kind = ve_kind v, cl_repo = ve_repo v, cl_commit_sha = ve_commit_sha v,
     cl_external_id = ve_external_id v\<rparr>"

section \<open>The rows\<close>

definition has_work_item :: "db \<Rightarrow> string \<Rightarrow> string \<Rightarrow> bool" where
  "has_work_item d project i \<longleftrightarrow> (\<exists>w \<in> set (work_items d). wi_project w = project \<and> wi_id w = i)"

definition evidence_insert :: "evidence_row \<Rightarrow> db \<Rightarrow> error + db" where
  "evidence_insert row d =
     (if evd_id row \<in> evd_id ` set (evidence d)
      then Inl (unique_failed ext_primary_key ''project_evidence.id'')
      else if \<not> has_project d (evd_project row) then Inl foreign_key_failed
      else if (case evd_work_item row of None \<Rightarrow> False | Some i \<Rightarrow> \<not> has_work_item d (evd_project row) i)
      then Inl foreign_key_failed
      else Inr (d\<lparr>evidence := evidence d @ [row]\<rparr>))"

definition link_insert :: "string \<times> string \<Rightarrow> db \<Rightarrow> error + db" where
  "link_insert link d =
     (if link \<in> set (evidence_links d)
      then Inl (unique_failed ext_primary_key
             ''project_evidence_criteria.evidence_id, project_evidence_criteria.criterion_id'')
      else if fst link \<notin> evd_id ` set (evidence d) \<or> snd link \<notin> c_id ` set (criteria d)
      then Inl foreign_key_failed
      else Inr (d\<lparr>evidence_links := evidence_links d @ [link]\<rparr>))"

definition link_criteria :: "string \<Rightarrow> string list \<Rightarrow> unit tx" where
  "link_criteria i criterion_ids = execute_many link_insert (map (\<lambda>c. (i, c)) criterion_ids)"

record members =
  mb_work_item :: bool
  mb_criteria :: "string list"

definition read_members :: "db \<Rightarrow> string \<Rightarrow> string option \<Rightarrow> string list \<Rightarrow> members" where
  "read_members d project item ids = \<lparr>
     mb_work_item = (case item of None \<Rightarrow> False | Some i \<Rightarrow> has_work_item d project i),
     mb_criteria = (if ids = [] then []
       else map c_id (filter (\<lambda>c. c_project c = project \<and> c_id c \<in> set ids) (criteria d)))\<rparr>"

definition read_evidence :: "db \<Rightarrow> string \<Rightarrow> string \<Rightarrow> evidence_row option" where
  "read_evidence d project i =
     find (\<lambda>row. evd_project row = project \<and> evd_id row = i) (evidence d)"

record evidence_page =
  xp_project :: string
  xp_kind :: "string option"
  xp_trust :: "trust_filter option"
  xp_work_item :: "string option"
  xp_before :: "(int \<times> string) option"
  xp_limit :: int

fun trust_admits :: "trust_filter \<Rightarrow> string \<Rightarrow> bool" where
  "trust_admits (Exactly t) stored \<longleftrightarrow> stored = t"
| "trust_admits (NoneOf known) stored \<longleftrightarrow> stored \<notin> set known"

definition evidence_position :: "evidence_row \<Rightarrow> int \<times> string" where
  "evidence_position row = (evd_created_at row, evd_id row)"

definition evidence_admitted :: "evidence_page \<Rightarrow> evidence_row \<Rightarrow> bool" where
  "evidence_admitted page row \<longleftrightarrow>
     evd_project row = xp_project page \<and>
     (case xp_kind page of None \<Rightarrow> True | Some k \<Rightarrow> evd_kind row = k) \<and>
     (case xp_trust page of None \<Rightarrow> True | Some f \<Rightarrow> trust_admits f (evd_trust row)) \<and>
     (case xp_work_item page of None \<Rightarrow> True | Some i \<Rightarrow> evd_work_item row = Some i) \<and>
     (case xp_before page of
        None \<Rightarrow> True
      | Some (at, i) \<Rightarrow> evd_created_at row < at \<or> (evd_created_at row = at \<and> evd_id row < i))"

definition read_evidence_page :: "db \<Rightarrow> evidence_page \<Rightarrow> evidence_row list" where
  "read_evidence_page d page =
     take (nat (xp_limit page))
       (rev (sort_key evidence_position (filter (evidence_admitted page) (evidence d))))"

section \<open>Attaching\<close>

record evidence_response =
  eres_evidence :: evidence_view
  eres_warnings :: "local_only list"

definition evidence_response_json :: "evidence_response \<Rightarrow> json" where
  "evidence_response_json r =
     JObj ((''evidence'', evidence_view_json (eres_evidence r)) #
       (if eres_warnings r = [] then [] else [(''warnings'', JArr (map local_only_json (eres_warnings r)))]))"

definition evidence_response_of_json :: "json \<Rightarrow> evidence_response option" where
  "evidence_response_of_json j =
     Option.bind (case j of
         JArr [v] \<Rightarrow> struct_fields [''evidence''] j
       | _ \<Rightarrow> struct_fields [''evidence'', ''warnings''] j) (\<lambda>get.
     Option.bind (field evidence_view_of_json get ''evidence'') (\<lambda>view.
     Option.bind (case get ''warnings'' of
         None \<Rightarrow> Some [] | Some v \<Rightarrow> json_list local_only_of_json v) (\<lambda>warnings.
     Some \<lparr>eres_evidence = view, eres_warnings = warnings\<rparr>)))"

definition evidence_digest_body :: "evidence_request \<Rightarrow> json" where
  "evidence_digest_body req = JObj
     [(''projectId'', JStr (er_project_id req)),
      (''workItemId'', json_opt (er_work_item_id req)),
      (''executionId'', JNull),
      (''kind'', JStr (er_kind req)),
      (''source'', JStr (er_source req)),
      (''externalId'', json_opt (er_external_id req)),
      (''url'', json_opt (er_url req)),
      (''repo'', json_opt (er_repo req)),
      (''commitSha'', json_opt (er_commit_sha req)),
      (''metadata'', JObj (case er_metadata req of None \<Rightarrow> [] | Some m \<Rightarrow> m)),
      (''criterionIds'', json_ids (er_criterion_ids req))]"

definition in_project_scope :: "db \<Rightarrow> valid_evidence \<Rightarrow> error + unit" where
  "in_project_scope d v =
     (if read_project d (ve_project_id v) = None then Inl (Project (ProjectNotFound (ve_raw_project_id v)))
      else case ve_repo v of
             None \<Rightarrow> Inr ()
           | Some repo \<Rightarrow>
               if list_ex (\<lambda>r. snd r = repo) (rel_repositories (read_relations d [ve_project_id v]))
               then Inr () else Inl (Project (RepoNotAllowed repo)))"

definition criteria_in_project :: "string list \<Rightarrow> string list \<Rightarrow> error + unit" where
  "criteria_in_project ids found =
     (let unknown = filter (\<lambda>i. i \<notin> set found) ids
      in if unknown = [] then Inr ()
         else Inl (Project (push_detail
           (at_edge (invalid_field ''criterionIds'' ''unknown'') EdgeInvariant
              (Some ''One or more criteria do not belong to this project''))
           ''criterionIds'' (json_ids unknown))))"

definition evidence_row_of ::
  "actor \<Rightarrow> valid_evidence \<Rightarrow> initial \<Rightarrow> string \<Rightarrow> string \<Rightarrow> int \<Rightarrow> evidence_row" where
  "evidence_row_of actor v decided metadata i at = \<lparr>
     evd_id = i, evd_project = ve_project_id v, evd_work_item = ve_work_item_id v, evd_execution = None,
     evd_kind = ve_kind v, evd_source = ve_source v, evd_external_id = ve_external_id v,
     evd_url = ve_url v, evd_trust = in_trust decided, evd_metadata = metadata,
     evd_content_hash = None, evd_verified_by = None, evd_verified_at = None,
     evd_creator_type = actor_type actor, evd_creator_id = actor_id actor, evd_created_at = at\<rparr>"

definition evidence_event :: "valid_evidence \<Rightarrow> initial \<Rightarrow> string \<Rightarrow> event" where
  "evidence_event v decided i = \<lparr>
     e_project = ve_project_id v, e_type = ''project.evidence.recorded'', e_entity_type = ''evidence'',
     e_entity_id = i,
     e_payload = JObj [(''kind'', JStr (ve_kind v)), (''trust'', JStr (in_trust decided)),
       (''reason'', json_opt (in_reason decided)), (''workItemId'', json_opt (ve_work_item_id v)),
       (''executionId'', JNull), (''criterionIds'', json_ids (ve_criterion_ids v))]\<rparr>"

definition evidence_vanished :: "string \<Rightarrow> error" where
  "evidence_vanished i = Project (Invariant ''evidence_row_missing''
     (''evidence '' @ i @ '' vanished inside its own attach transaction''))"

definition evidence_write ::
  "env \<Rightarrow> actor \<Rightarrow> valid_evidence \<Rightarrow> initial \<Rightarrow> string \<Rightarrow> evidence_response tx" where
  "evidence_write env actor v decided metadata =
     (let linked = dedup_onto [] (ve_criterion_ids v)
      in tx_bind (reading (\<lambda>d. in_project_scope d v)) (\<lambda>_.
         tx_bind (reading (\<lambda>d. Inr (read_members d (ve_project_id v) (ve_work_item_id v) linked))) (\<lambda>mb.
         tx_bind (lift (criteria_in_project linked (mb_criteria mb))) (\<lambda>_.
         tx_bind (lift (if ve_work_item_id v \<noteq> None \<and> \<not> mb_work_item mb
             then Inl (Project (WorkItemNotFound
               (case ve_raw_work_item_id v of None \<Rightarrow> [] | Some raw \<Rightarrow> raw)))
             else Inr ())) (\<lambda>_.
         tx_bind (mint_uuid env) (\<lambda>i.
         tx_bind (now_ms env) (\<lambda>at.
         tx_bind (statement (evidence_insert (evidence_row_of actor v decided metadata i at))) (\<lambda>_.
         tx_bind (link_criteria i linked) (\<lambda>_.
         tx_bind (record_event env actor (evidence_event v decided i) at) (\<lambda>recorded.
         tx_bind (reading (\<lambda>d. ok_or (read_evidence d (ve_project_id v) i) (evidence_vanished i))) (\<lambda>row.
         tx_bind (lift (evidence_to_view env row)) (\<lambda>view.
         ret \<lparr>eres_evidence = view,
              eres_warnings = (case rec_local_only recorded of None \<Rightarrow> [] | Some w \<Rightarrow> [w])\<rparr>))))))))))))"

definition evidence_keyed :: "env \<Rightarrow> evidence_request \<Rightarrow> error + keyed" where
  "evidence_keyed env req =
     new_keyed env (er_key req) ''project.evidence.create'' (evidence_digest_body req)"

text \<open>What is decided before the store opens: the valid request, the trust its claim earns and
  its encoded metadata.\<close>

definition evidence_decide ::
  "env \<Rightarrow> (string \<Rightarrow> bool) \<Rightarrow> evidence_request \<Rightarrow> error + valid_evidence \<times> initial \<times> string" where
  "evidence_decide env url_parses req =
     and_then (evidence_validate url_parses req) (\<lambda>v.
     and_then (check_shape (valid_claim v)) (\<lambda>_.
     let decided = initial_trust (valid_claim v)
     in and_then (encode_metadata env
            (stored_metadata (ve_repo v) (ve_commit_sha v) (in_reason decided) (ve_metadata v))) (\<lambda>metadata.
        Inr (v, decided, metadata))))"

definition evidence_prepare ::
  "env \<Rightarrow> (string \<Rightarrow> bool) \<Rightarrow> actor \<Rightarrow> evidence_request \<Rightarrow>
   (keyed \<times> valid_evidence \<times> initial \<times> string) tx" where
  "evidence_prepare env url_parses actor req =
     tx_bind (lift (evidence_keyed env req)) (\<lambda>keyed.
     tx_bind (lift (evidence_decide env url_parses req)) (\<lambda>c.
     ret (keyed, c)))"

definition evidence_effect ::
  "env \<Rightarrow> actor \<Rightarrow> evidence_request \<Rightarrow> valid_evidence \<times> initial \<times> string \<Rightarrow>
   (evidence_response \<times> string) tx" where
  "evidence_effect env actor req = (\<lambda>(v, decided, metadata).
     tx_bind (evidence_write env actor v decided metadata) (\<lambda>response. ret (response, ve_project_id v)))"

definition evidence_summary :: "evidence_response \<Rightarrow> json" where
  "evidence_summary r = JObj
     [(''id'', JStr (ew_id (eres_evidence r))), (''kind'', JStr (ew_kind (eres_evidence r))),
      (''trust'', JStr (ew_trust (eres_evidence r)))]"

definition evidence_execute ::
  "env \<Rightarrow> (string \<Rightarrow> bool) \<Rightarrow> actor \<Rightarrow> evidence_request \<Rightarrow> evidence_response tx" where
  "evidence_execute env url_parses actor req =
     receipt_record ''project.evidence.add'' evidence_summary
       (tx_bind (evidence_prepare env url_parses actor req) (\<lambda>(keyed, c).
          receipt_run env actor keyed evidence_response_json evidence_response_of_json
            (evidence_effect env actor req c)))"

definition evidence_command ::
  "env \<Rightarrow> (string \<Rightarrow> bool) \<Rightarrow> evidence_request \<Rightarrow> (st, evidence_response) command" where
  "evidence_command env url_parses req = \<lparr>cmd_verb = EvidenceCreate,
     cmd_execute = (\<lambda>s actor. evidence_execute env url_parses actor req s)\<rparr>"

section \<open>The page\<close>

definition evidence_default_limit :: int where "evidence_default_limit = 50"

record evidence_list_request =
  xq_project_id :: string
  xq_limit :: "int option"
  xq_cursor :: "string option"
  xq_kind :: "string option"
  xq_trust :: "string option"
  xq_work_item_id :: "string option"

record evidence_list_response =
  xs_evidence :: "evidence_view list"
  xs_next_cursor :: "string option"

definition evidence_list_read :: "env \<Rightarrow> evidence_list_request \<Rightarrow> db \<Rightarrow> error + evidence_list_response" where
  "evidence_list_read env req d =
     and_then (canonical_id ''projectId'' (xq_project_id req)) (\<lambda>project.
     and_then (page_within (xq_limit req) evidence_default_limit page_max) (\<lambda>limit.
     and_then (transpose_opt decode_cursor (xq_cursor req)) (\<lambda>cursor.
     and_then (check_vocabulary ''kind'' (xq_kind req) evidence_kinds) (\<lambda>kind.
     and_then (check_vocabulary ''trust'' (xq_trust req) trusts) (\<lambda>trust.
     and_then (transpose_opt (canonical_id ''workItemId'') (xq_work_item_id req)) (\<lambda>item.
     if read_project d project = None then Inl (Project (ProjectNotFound (xq_project_id req)))
     else let (rows, next) = split_page evidence_position
                (read_evidence_page d \<lparr>xp_project = project, xp_kind = kind,
                   xp_trust = map_option trust_filter_of trust, xp_work_item = item,
                   xp_before = map_option (\<lambda>c. (at_ms c, cursor_id c)) cursor,
                   xp_limit = limit + 1\<rparr>) limit
          in and_then (traverse (evidence_to_view env) rows) (\<lambda>views.
             Inr \<lparr>xs_evidence = views, xs_next_cursor = next\<rparr>)))))))"

definition evidence_list_command ::
  "env \<Rightarrow> evidence_list_request \<Rightarrow> (st, evidence_list_response) command" where
  "evidence_list_command env req = \<lparr>cmd_verb = EvidenceRead,
     cmd_execute = (\<lambda>s actor. reading (evidence_list_read env req) s)\<rparr>"

section \<open>Round trips\<close>

lemma evidence_view_back [simp]: "evidence_view_of_json (evidence_view_json v) = Some v"
  by (simp add: evidence_view_of_json_def evidence_view_json_def struct_fields_def field_def opt_field_def)

lemma evidence_response_back [simp]:
  "evidence_response_of_json (evidence_response_json r) = Some r"
  by (simp add: evidence_response_of_json_def evidence_response_json_def struct_fields_def
      field_def those_map_inverse del: map_map)

section \<open>What the statements keep\<close>

lemma evidence_insert_Inr:
  "evidence_insert row d = Inr d' \<Longrightarrow>
     d' = d\<lparr>evidence := evidence d @ [row]\<rparr> \<and> evd_id row \<notin> evd_id ` set (evidence d) \<and>
     has_project d (evd_project row) \<and>
     (\<forall>i. evd_work_item row = Some i \<longrightarrow> has_work_item d (evd_project row) i)"
  by (auto simp: evidence_insert_def split: if_splits option.splits)

lemma evidence_insert_ok: "evidence_insert row d = Inr d' \<Longrightarrow> keeps_ok d d'"
  using evidence_insert_Inr [of row d d'] by (auto simp: ok_defs has_project_def)

lemma evidence_insert_appends: "evidence_insert row d = Inr d' \<Longrightarrow> appends d d'"
  using evidence_insert_Inr [of row d d'] by (auto simp: appends_def)

lemma link_insert_Inr:
  "link_insert link d = Inr d' \<Longrightarrow>
     d' = d\<lparr>evidence_links := evidence_links d @ [link]\<rparr> \<and> link \<notin> set (evidence_links d) \<and>
     fst link \<in> evd_id ` set (evidence d) \<and> snd link \<in> c_id ` set (criteria d)"
  by (auto simp: link_insert_def split: if_splits)

lemma link_insert_ok: "link_insert link d = Inr d' \<Longrightarrow> keeps_ok d d'"
  using link_insert_Inr [of link d d'] by (auto simp: ok_defs)

lemma link_insert_appends: "link_insert link d = Inr d' \<Longrightarrow> appends d d'"
  using link_insert_Inr [of link d d'] by (auto simp: appends_def)

lemma evidence_write_ok: "follows keeps_ok (evidence_write env actor v decided metadata)"
  unfolding evidence_write_def link_criteria_def Let_def
  by (intro okr.follows_basic okr.follows_statement okr.follows_execute_many record_event_ok)
     (auto intro: evidence_insert_ok link_insert_ok)

lemma evidence_write_appends: "follows appends (evidence_write env actor v decided metadata)"
  unfolding evidence_write_def link_criteria_def Let_def
  by (intro app.follows_basic app.follows_statement app.follows_execute_many record_event_appends)
     (auto intro: evidence_insert_appends link_insert_appends)

text \<open>Linking appends one row a criterion, in order, and touches nothing else.\<close>

lemma link_criteria_Inr:
  "execute_many link_insert links s = (Inr u, s') \<Longrightarrow>
     s' = s\<lparr>st_db := (st_db s)\<lparr>evidence_links := evidence_links (st_db s) @ links\<rparr>\<rparr>"
proof (induction links arbitrary: s)
  case (Cons l ls)
  then obtain d where d: "link_insert l (st_db s) = Inr d"
    and rest: "execute_many link_insert ls (s\<lparr>st_db := d\<rparr>) = (Inr u, s')"
    by (auto simp: tx_simps)
  with Cons.IH [OF rest] link_insert_Inr [OF d] show ?case by simp
qed (simp add: ret_iff)

lemma link_criteria_total:
  assumes "distinct links" "set links \<inter> set (evidence_links (st_db s)) = {}"
    and "fst ` set links \<subseteq> evd_id ` set (evidence (st_db s))"
    and "snd ` set links \<subseteq> c_id ` set (criteria (st_db s))"
  shows "execute_many link_insert links s =
     (Inr (), s\<lparr>st_db := (st_db s)\<lparr>evidence_links := evidence_links (st_db s) @ links\<rparr>\<rparr>)"
  using assms
proof (induction links arbitrary: s)
  case (Cons l ls)
  let ?d = "(st_db s)\<lparr>evidence_links := evidence_links (st_db s) @ [l]\<rparr>"
  have "link_insert l (st_db s) = Inr ?d" using Cons.prems by (auto simp: link_insert_def)
  moreover have "execute_many link_insert ls (s\<lparr>st_db := ?d\<rparr>) =
     (Inr (), s\<lparr>st_db := ?d\<lparr>evidence_links := evidence_links ?d @ ls\<rparr>\<rparr>)"
    using Cons.IH [of "s\<lparr>st_db := ?d\<rparr>"] Cons.prems by simp
  ultimately show ?case by (simp add: tx_bind_def statement_def)
qed (simp add: ret_def)

section \<open>What an accepted attach does\<close>

definition linked_rows :: "string \<Rightarrow> valid_evidence \<Rightarrow> (string \<times> string) list" where
  "linked_rows i v = map (\<lambda>c. (i, c)) (dedup_onto [] (ve_criterion_ids v))"

text \<open>The checks of \<open>write\<close> that read the store, and the work item's own.\<close>

definition attach_checks :: "db \<Rightarrow> valid_evidence \<Rightarrow> error + unit" where
  "attach_checks d v =
     (let linked = dedup_onto [] (ve_criterion_ids v);
          mb = read_members d (ve_project_id v) (ve_work_item_id v) linked
      in and_then (in_project_scope d v) (\<lambda>_.
         and_then (criteria_in_project linked (mb_criteria mb)) (\<lambda>_.
         if ve_work_item_id v \<noteq> None \<and> \<not> mb_work_item mb
         then Inl (Project (WorkItemNotFound (case ve_raw_work_item_id v of None \<Rightarrow> [] | Some raw \<Rightarrow> raw)))
         else Inr ())))"

text \<open>What they let through: the claim's repository is bound to the project, the work item and
  every criterion named are the project's own.\<close>

definition attach_in_scope :: "db \<Rightarrow> valid_evidence \<Rightarrow> bool" where
  "attach_in_scope d v \<longleftrightarrow>
     read_project d (ve_project_id v) \<noteq> None \<and>
     (case ve_repo v of None \<Rightarrow> True
      | Some repo \<Rightarrow> \<exists>r \<in> set (repositories d). r_project r = ve_project_id v \<and> r_repo r = repo) \<and>
     (\<forall>i \<in> set (ve_criterion_ids v). \<exists>c \<in> set (criteria d). c_project c = ve_project_id v \<and> c_id c = i) \<and>
     (case ve_work_item_id v of None \<Rightarrow> True | Some i \<Rightarrow> has_work_item d (ve_project_id v) i)"

lemma bound_repo_iff:
  "list_ex (\<lambda>r. snd r = repo) (rel_repositories (read_relations d [p])) \<longleftrightarrow>
     (\<exists>r \<in> set (repositories d). r_project r = p \<and> r_repo r = repo)"
  by (auto simp: read_relations_def list_ex_iff)

lemma criteria_in_project_iff:
  "criteria_in_project ids (mb_criteria (read_members d p item ids)) = Inr () \<longleftrightarrow>
     (\<forall>i \<in> set ids. \<exists>c \<in> set (criteria d). c_project c = p \<and> c_id c = i)"
proof -
  have "criteria_in_project ids found = Inr () \<longleftrightarrow> (\<forall>i \<in> set ids. i \<in> set found)" for found
    by (auto simp: criteria_in_project_def Let_def filter_empty_conv)
  moreover have "i \<in> set (mb_criteria (read_members d p item ids)) \<longleftrightarrow>
      (\<exists>c \<in> set (criteria d). c_project c = p \<and> c_id c = i)" if "i \<in> set ids" for i
    using that by (auto simp: read_members_def)
  ultimately show ?thesis by auto
qed

lemma read_members_item:
  "mb_work_item (read_members d p item ids) \<longleftrightarrow>
     (case item of None \<Rightarrow> False | Some i \<Rightarrow> has_work_item d p i)"
  by (simp add: read_members_def)

lemma in_project_scope_iff:
  "in_project_scope d v = Inr () \<longleftrightarrow> read_project d (ve_project_id v) \<noteq> None \<and>
     (case ve_repo v of None \<Rightarrow> True
      | Some repo \<Rightarrow> \<exists>r \<in> set (repositories d). r_project r = ve_project_id v \<and> r_repo r = repo)"
  by (auto simp: in_project_scope_def bound_repo_iff split: option.splits)

lemma attach_checks_iff: "attach_checks d v = Inr () \<longleftrightarrow> attach_in_scope d v"
  unfolding attach_checks_def attach_in_scope_def Let_def and_then_Inr_iff in_project_scope_iff
    criteria_in_project_iff read_members_item
  by (auto simp: in_project_scope_iff criteria_in_project_iff split: option.splits)

lemma lift_and_then: "lift (and_then r f) = tx_bind (lift r) (\<lambda>x. lift (f x))"
  by (cases r) (auto simp: lift_def tx_bind_def)

lemma evidence_write_checks:
  "evidence_write env actor v decided metadata =
     tx_bind (reading (\<lambda>d. attach_checks d v)) (\<lambda>_.
     tx_bind (mint_uuid env) (\<lambda>i.
     tx_bind (now_ms env) (\<lambda>at.
     tx_bind (statement (evidence_insert (evidence_row_of actor v decided metadata i at))) (\<lambda>_.
     tx_bind (execute_many link_insert (linked_rows i v)) (\<lambda>_.
     tx_bind (record_event env actor (evidence_event v decided i) at) (\<lambda>recorded.
     tx_bind (reading (\<lambda>d. ok_or (read_evidence d (ve_project_id v) i) (evidence_vanished i))) (\<lambda>row.
     tx_bind (lift (evidence_to_view env row)) (\<lambda>view.
     ret \<lparr>eres_evidence = view,
          eres_warnings = (case rec_local_only recorded of None \<Rightarrow> [] | Some w \<Rightarrow> [w])\<rparr>))))))))"
  by (rule ext) (auto simp: evidence_write_def attach_checks_def Let_def tx_bind_def reading_def lift_def
      link_criteria_def linked_rows_def split: sum.splits prod.splits)

lemma evidence_write_Inr:
  assumes "evidence_write env actor v decided metadata s = (Inr r, s')"
  shows "\<exists>i at payload eid.
     attach_in_scope (st_db s) v \<and> i \<notin> evd_id ` set (evidence (st_db s)) \<and>
     st_db s' = (st_db s)\<lparr>
       evidence := evidence (st_db s) @ [evidence_row_of actor v decided metadata i at],
       evidence_links := evidence_links (st_db s) @ linked_rows i v,
       events := events (st_db s) @ [\<lparr>ev_id = eid, ev_project = ve_project_id v,
         ev_actor_type = actor_type actor, ev_actor_id = actor_id actor,
         ev_type = ''project.evidence.recorded'', ev_entity_type = ''evidence'', ev_entity_id = i,
         ev_payload = payload, ev_created_at = at\<rparr>],
       last_seq := last_seq (st_db s) + 1,
       changes := changes (st_db s) @ [\<lparr>ch_seq = last_seq (st_db s) + 1, ch_project = ve_project_id v,
         ch_event = eid, ch_entity_type = ''evidence'', ch_op = op_changed, ch_created_at = at\<rparr>]\<rparr> \<and>
     evidence_to_view env (evidence_row_of actor v decided metadata i at) = Inr (eres_evidence r) \<and>
     st_log s' = st_log s"
proof -
  from assms obtain i s1 at s2 d s3 recorded row where
    ok: "attach_checks (st_db s) v = Inr ()"
    and mint: "mint_uuid env s = (Inr i, s1)" and now: "now_ms env s1 = (Inr at, s2)"
    and ins: "evidence_insert (evidence_row_of actor v decided metadata i at) (st_db s2) = Inr d"
    and links: "execute_many link_insert (linked_rows i v) (s2\<lparr>st_db := d\<rparr>) = (Inr (), s3)"
    and rec: "record_event env actor (evidence_event v decided i) at s3 = (Inr recorded, s')"
    and row: "read_evidence (st_db s') (ve_project_id v) i = Some row"
    and view: "evidence_to_view env row = Inr (eres_evidence r)"
    by (auto simp: evidence_write_checks tx_simps res_simps)
  let ?row = "evidence_row_of actor v decided metadata i at"
  have s2: "st_db s2 = st_db s" "st_log s2 = st_log s"
    using mint_frame [OF mint] now_ms_frame [OF now] by auto
  note d = evidence_insert_Inr [OF ins, unfolded s2]
  note s3 = link_criteria_Inr [OF links]
  from record_event_effect [OF rec] obtain payload where s': "st_db s' = (st_db s3)\<lparr>
       events := events (st_db s3) @ [\<lparr>ev_id = rec_id recorded, ev_project = ve_project_id v,
         ev_actor_type = actor_type actor, ev_actor_id = actor_id actor,
         ev_type = ''project.evidence.recorded'', ev_entity_type = ''evidence'', ev_entity_id = i,
         ev_payload = payload, ev_created_at = at\<rparr>],
       last_seq := last_seq (st_db s3) + 1,
       changes := changes (st_db s3) @ [\<lparr>ch_seq = last_seq (st_db s3) + 1, ch_project = ve_project_id v,
         ch_event = rec_id recorded, ch_entity_type = ''evidence'', ch_op = op_changed,
         ch_created_at = at\<rparr>]\<rparr>" "st_log s' = st_log s3"
    by (auto simp: evidence_event_def actor_type_def actor_id_def)
  have new: "i \<notin> evd_id ` set (evidence (st_db s))" using d by (simp add: evidence_row_of_def)
  have "find (\<lambda>e. evd_project e = ve_project_id v \<and> evd_id e = i) (evidence (st_db s) @ [?row]) = Some ?row"
    using new by (intro find_append_new) (auto simp: evidence_row_of_def)
  then have "row = ?row" using row d s3 s'(1) by (simp add: read_evidence_def)
  moreover have db: "st_db s' = (st_db s)\<lparr>
       evidence := evidence (st_db s) @ [?row],
       evidence_links := evidence_links (st_db s) @ linked_rows i v,
       events := events (st_db s) @ [\<lparr>ev_id = rec_id recorded, ev_project = ve_project_id v,
         ev_actor_type = actor_type actor, ev_actor_id = actor_id actor,
         ev_type = ''project.evidence.recorded'', ev_entity_type = ''evidence'', ev_entity_id = i,
         ev_payload = payload, ev_created_at = at\<rparr>],
       last_seq := last_seq (st_db s) + 1,
       changes := changes (st_db s) @ [\<lparr>ch_seq = last_seq (st_db s) + 1, ch_project = ve_project_id v,
         ch_event = rec_id recorded, ch_entity_type = ''evidence'', ch_op = op_changed,
         ch_created_at = at\<rparr>]\<rparr>"
    using d s3 by (simp add: s'(1))
  moreover have "st_log s' = st_log s" using s'(2) s3 s2 by simp
  ultimately show ?thesis using ok new view unfolding attach_checks_iff by blast
qed

lemma evidence_effect_Inr:
  "evidence_effect env actor req (v, decided, metadata) s = (Inr (r, p), s') \<longleftrightarrow>
     p = ve_project_id v \<and> evidence_write env actor v decided metadata s = (Inr r, s')"
  by (auto simp: evidence_effect_def tx_simps)

lemma evidence_prepare_iff:
  "evidence_prepare env url_parses actor req s = (Inr (keyed, c), s1) \<longleftrightarrow>
     s1 = s \<and> evidence_keyed env req = Inr keyed \<and> evidence_decide env url_parses req = Inr c"
  by (cases c) (auto simp: evidence_prepare_def tx_simps)

interpretation attach: receipted_command env "evidence_execute env url_parses"
  "evidence_prepare env url_parses" "evidence_keyed env" "evidence_effect env"
  evidence_response_json evidence_response_of_json "\<lambda>_. ''project.evidence.add''" evidence_summary
  for env url_parses
proof
  fix actor req s p s1 keyed and c :: "valid_evidence \<times> initial \<times> string" and r :: evidence_response
  show "evidence_execute env url_parses actor req = receipt_record ''project.evidence.add'' evidence_summary
      (tx_bind (evidence_prepare env url_parses actor req) (\<lambda>(keyed, c).
        receipt_run env actor keyed evidence_response_json evidence_response_of_json
          (evidence_effect env actor req c)))"
    by (simp add: evidence_execute_def)
  show "st_db s1 = st_db s \<and> st_log s1 = st_log s"
    if "evidence_prepare env url_parses actor req s = (p, s1)"
    using that by (cases p) (auto simp: evidence_prepare_def tx_simps tx_bind_Inl_iff)
  show "evidence_keyed env req = Inr keyed"
    if "evidence_prepare env url_parses actor req s = (Inr (keyed, c), s1)"
    using that by (simp add: evidence_prepare_iff)
  show "evidence_response_of_json (evidence_response_json r) = Some r" by simp
  show "follows keeps_ok (evidence_effect env actor req c)"
    unfolding evidence_effect_def by (cases c) (auto intro!: okr.follows_basic evidence_write_ok)
  show "follows appends (evidence_effect env actor req c)"
    unfolding evidence_effect_def by (cases c) (auto intro!: app.follows_basic evidence_write_appends)
  show "receipts (st_db s1) = receipts (st_db s) \<and> st_log s1 = st_log s"
    if "evidence_effect env actor req c s = (Inr x, s1)" for x
    using that by (cases c; cases x) (auto simp: evidence_effect_Inr dest!: evidence_write_Inr)
qed

lemma evidence_applied:
  assumes run: "evidence_execute env url_parses actor req s = (Inr r, s')"
    and keyed: "evidence_keyed env req = Inr keyed"
    and fresh: "find_receipt (st_db s) (actor_type actor) (actor_id actor) (k_key keyed) = None"
  obtains v decided metadata s1 receipt where
    "evidence_decide env url_parses req = Inr (v, decided, metadata)"
    "evidence_write env actor v decided metadata (s\<lparr>st_txs := Suc (st_txs s)\<rparr>) = (Inr r, s1)"
    "st_db s' = (st_db s1)\<lparr>receipts := receipts (st_db s1) @ [receipt]\<rparr>"
    "rc_key receipt = k_key keyed" "rc_project receipt = ve_project_id v"
  using run
proof (cases rule: attach.exec_cases)
  case (replayed k c s1 x)
  then have "k = keyed" "s1 = s" using keyed by (simp_all add: evidence_prepare_iff)
  with receipt_run_replayed [OF replayed(3)] fresh show ?thesis by auto
next
  case (applied k c s1 x s2)
  obtain v decided metadata where c: "c = (v, decided, metadata)" by (cases c)
  have s1: "s1 = s" and k: "k = keyed"
    and d: "evidence_decide env url_parses req = Inr (v, decided, metadata)"
    using applied(2) keyed by (simp_all add: c evidence_prepare_iff)
  have x: "x = r" using applied(1) by simp
  from receipt_run_applied [OF applied(3)] obtain p s3 answer j at where
    eff: "evidence_effect env actor req c (s\<lparr>st_txs := Suc (st_txs s)\<rparr>) = (Inr (r, p), s3)"
    and ins: "receipt_insert \<lparr>rc_id = j, rc_project = p, rc_principal_type = actor_type actor,
       rc_principal_id = actor_id actor, rc_key = k_key keyed, rc_command_type = k_command keyed,
       rc_digest = k_digest keyed, rc_response = answer, rc_created_at = at\<rparr> (st_db s3)
       = Inr (st_db s2)" by (auto simp: x k s1)
  from eff have "p = ve_project_id v"
    "evidence_write env actor v decided metadata (s\<lparr>st_txs := Suc (st_txs s)\<rparr>) = (Inr r, s3)"
    by (simp_all add: c evidence_effect_Inr)
  then show ?thesis
    using that [OF d, of s3] receipt_insert_Inr [OF ins] applied(4) by simp
qed auto

section \<open>When an attach succeeds\<close>

definition fresh_evidence :: "env \<Rightarrow> db \<Rightarrow> bool" where
  "fresh_evidence env d \<longleftrightarrow>
     (\<forall>k bytes. e_urandom env k 16 = Inr bytes \<longrightarrow> new_v4 (hex_of_bytes bytes) \<notin> evd_id ` set (evidence d))"

lemma evidence_timestamp_total: "env_total env \<Longrightarrow> \<exists>t. evidence_timestamp env i column ms = Inr t"
  unfolding env_total_def evidence_timestamp_def ok_or_def iso_def by (metis option.simps(5))

lemma evidence_to_view_total:
  assumes "env_total env"
  shows "\<exists>v. evidence_to_view env row = Inr v"
proof -
  obtain va where "transpose_opt (evidence_timestamp env (evd_id row) ''verified_at'') (evd_verified_at row) = Inr va"
  proof (cases "evd_verified_at row")
    case (Some ms)
    then show ?thesis
      using that evidence_timestamp_total [OF assms, of "evd_id row" "''verified_at''" ms]
      by (auto simp: transpose_opt_def)
  qed (use that in \<open>simp add: transpose_opt_def\<close>)
  moreover obtain ca where "evidence_timestamp env (evd_id row) ''created_at'' (evd_created_at row) = Inr ca"
    using evidence_timestamp_total [OF assms] by blast
  ultimately show ?thesis by (simp add: evidence_to_view_def Let_def)
qed

lemma attach_in_scope_project: "attach_in_scope d v \<Longrightarrow> ve_project_id v \<in> p_id ` set (projects d)"
proof -
  assume "attach_in_scope d v"
  then obtain row where "read_project d (ve_project_id v) = Some row" by (auto simp: attach_in_scope_def)
  from read_project_Some [OF this] have "ve_project_id v = p_id row" "row \<in> set (projects d)" by simp_all
  then show ?thesis by (rule image_eqI)
qed

lemma attach_in_scope_criteria:
  assumes "attach_in_scope d v"
  shows "set (ve_criterion_ids v) \<subseteq> c_id ` set (criteria d)"
proof
  fix i assume "i \<in> set (ve_criterion_ids v)"
  with assms have "\<exists>c \<in> set (criteria d). c_project c = ve_project_id v \<and> c_id c = i"
    by (simp add: attach_in_scope_def)
  then show "i \<in> c_id ` set (criteria d)" by auto
qed

lemma linked_rows_simps:
  "distinct (linked_rows i v)" "fst ` set (linked_rows i v) \<subseteq> {i}"
  "snd ` set (linked_rows i v) = set (ve_criterion_ids v)"
  by (auto simp: linked_rows_def distinct_map inj_on_def image_image)

lemma evidence_write_total:
  assumes env: "env_total env" and fresh: "fresh_ids env (st_db s)" "fresh_evidence env (st_db s)"
    and ok: "references_ok (st_db s)" and scope: "attach_in_scope (st_db s) v"
  shows "\<exists>r s'. evidence_write env actor v decided metadata s = (Inr r, s')"
proof -
  from mint_total [OF env, of s] obtain i bytes where
    i: "mint_uuid env s = (Inr i, s\<lparr>st_draws := Suc (st_draws s)\<rparr>)"
      "e_urandom env (st_draws s) 16 = Inr bytes" "i = new_v4 (hex_of_bytes bytes)" by blast
  define s1 where "s1 = s\<lparr>st_draws := Suc (st_draws s), st_ticks := Suc (st_ticks s)\<rparr>"
  define at where "at = e_clock env (st_ticks s) sdiv 1000000"
  have now: "now_ms env (s\<lparr>st_draws := Suc (st_draws s)\<rparr>) = (Inr at, s1)"
    by (simp add: now_ms_def at_def s1_def)
  have new: "i \<notin> evd_id ` set (evidence (st_db s))" using fresh(2) i by (auto simp: fresh_evidence_def)
  let ?row = "evidence_row_of actor v decided metadata i at"
  define d where "d = (st_db s)\<lparr>evidence := evidence (st_db s) @ [?row]\<rparr>"
  have here: "has_project (st_db s) (ve_project_id v)"
    using attach_in_scope_project [OF scope] by (simp add: has_project_def)
  have ins: "evidence_insert ?row (st_db s) = Inr d"
    using new here scope
    by (auto simp: evidence_insert_def evidence_row_of_def d_def attach_in_scope_def split: option.splits)
  define s2 where "s2 = s1\<lparr>st_db := d\<lparr>evidence_links := evidence_links d @ linked_rows i v\<rparr>\<rparr>"
  have "(i, c) \<notin> set (evidence_links (st_db s))" for c
  proof
    assume "(i, c) \<in> set (evidence_links (st_db s))"
    then have "fst (i, c) \<in> fst ` set (evidence_links (st_db s))" by (rule imageI)
    moreover have "fst ` set (evidence_links (st_db s)) \<subseteq> evd_id ` set (evidence (st_db s))"
      using ok unfolding references_ok_def by blast
    ultimately show False using new by (simp only: fst_conv subset_iff) blast
  qed
  then have "set (linked_rows i v) \<inter> set (evidence_links (st_db s)) = {}"
    by (auto simp: linked_rows_def)
  moreover have "set (ve_criterion_ids v) \<subseteq> c_id ` set (criteria (st_db s))"
    by (rule attach_in_scope_criteria [OF scope])
  moreover have "evd_id ?row = i" by (simp add: evidence_row_of_def)
  ultimately have links: "execute_many link_insert (linked_rows i v) (s1\<lparr>st_db := d\<rparr>) = (Inr (), s2)"
    using link_criteria_total [of "linked_rows i v" "s1\<lparr>st_db := d\<rparr>"] linked_rows_simps [of i v]
    by (simp add: d_def s2_def s1_def) blast
  let ?ev = "evidence_event v decided i"
  have "has_project (st_db s2) (e_project ?ev)" "fresh_ids env (st_db s2)"
    using here fresh(1) by (simp_all add: has_project_def s2_def d_def evidence_event_def fresh_ids_def)
  from record_event_total [OF env this] obtain recorded s3 where
    rec: "record_event env actor ?ev at s2 = (Inr recorded, s3)" by blast
  from record_event_effect [OF rec] have "evidence (st_db s3) = evidence (st_db s) @ [?row]"
    by (auto simp: s2_def d_def)
  then have "read_evidence (st_db s3) (ve_project_id v) i = Some ?row"
    using new find_append_new [of "evidence (st_db s)" "\<lambda>e. evd_project e = ve_project_id v \<and> evd_id e = i" ?row]
    by (auto simp: read_evidence_def evidence_row_of_def)
  moreover obtain view where "evidence_to_view env ?row = Inr view"
    using evidence_to_view_total [OF env] by blast
  moreover have "attach_checks (st_db s) v = Inr ()" using scope by (simp add: attach_checks_iff)
  moreover have "evidence_insert ?row (st_db s1) = Inr d" using ins by (simp add: s1_def)
  ultimately show ?thesis
    by (simp add: evidence_write_checks tx_bind_def reading_def lift_def ret_def ok_or_def i(1) now
        statement_def links rec)
qed

lemma evidence_runs:
  assumes env: "env_total env" and fresh: "fresh_ids env (st_db s)" "fresh_evidence env (st_db s)"
    and ok: "references_ok (st_db s)"
    and prep: "evidence_prepare env url_parses actor req s = (Inr (keyed, v, decided, metadata), s)"
    and free: "find_receipt (st_db s) (actor_type actor) (actor_id actor) (k_key keyed) = None"
    and scope: "attach_in_scope (st_db s) v"
  shows "\<exists>r s'. evidence_execute env url_parses actor req s = (Inr r, s')"
proof -
  let ?s = "s\<lparr>st_txs := Suc (st_txs s)\<rparr>" and ?c = "(v, decided, metadata)"
  have "fresh_ids env (st_db ?s)" "fresh_evidence env (st_db ?s)" "references_ok (st_db ?s)"
    "attach_in_scope (st_db ?s) v" using fresh ok scope by simp_all
  from evidence_write_total [OF env this] obtain r s1 where
    w: "evidence_write env actor v decided metadata ?s = (Inr r, s1)" by blast
  then have eff: "evidence_effect env actor req ?c ?s = (Inr (r, ve_project_id v), s1)"
    by (simp add: evidence_effect_Inr)
  have "ve_project_id v \<in> p_id ` set (projects (st_db s))"
    by (rule attach_in_scope_project [OF scope])
  then have "receipts (st_db s1) = receipts (st_db s)" "has_project (st_db s1) (ve_project_id v)"
    using evidence_write_Inr [OF w] by (auto simp: has_project_def)
  from receipt_run_total [where effect = "evidence_effect env actor req ?c", OF env free eff this fresh(1)]
  obtain s2 where "receipt_run env actor keyed evidence_response_json evidence_response_of_json
      (evidence_effect env actor req ?c) s = (Inr (Applied r), s2)" by blast
  then show ?thesis by (simp add: evidence_execute_def receipt_record_def tx_bind_def prep)
qed

lemma evidence_to_view_Inr:
  "evidence_to_view env row = Inr v \<Longrightarrow>
     ew_id v = evd_id row \<and> ew_work_item v = evd_work_item row \<and> ew_kind v = evd_kind row \<and>
     ew_trust v = read_trust (evd_trust row) \<and>
     ew_metadata v = (case e_from_str env (evd_metadata row) of Inr (JObj kvs) \<Rightarrow> kvs | _ \<Rightarrow> []) \<and>
     ew_creator_id v = evd_creator_id row \<and> (ew_verified_at v = None \<longleftrightarrow> evd_verified_at row = None)"
  by (auto simp: evidence_to_view_def Let_def res_simps transpose_opt_def split: option.splits)

lemma evidence_decide_Inr:
  assumes "evidence_decide env url_parses req = Inr (v, decided, metadata)"
  shows "evidence_validate url_parses req = Inr v \<and> check_shape (valid_claim v) = Inr () \<and>
     decided = initial_trust (valid_claim v) \<and>
     json_text env (stored_metadata (ve_repo v) (ve_commit_sha v) (in_reason decided) (ve_metadata v)) = Inr metadata \<and>
     length metadata \<le> evidence_metadata_bytes_max"
  using assms
  by (auto simp: evidence_decide_def Let_def res_simps encode_metadata_def split: if_splits)

section \<open>Properties\<close>


text \<open>C25. What decides an attach that no receipt holds, in this order: the project must exist, the
  claim's repository must be bound to it, every criterion named must be its own (the refusal
  lists each that is not), and so must the work item; each failure is its own error, carries the
  caller's spelling, and leaves the database as it was. Everything else is stored.\<close>

theorem evidence_add_decides:
  assumes env: "env_total env" and fresh: "fresh_ids env (st_db s)" "fresh_evidence env (st_db s)"
    and ok: "references_ok (st_db s)"
    and prep: "evidence_prepare env url_parses actor req s = (Inr (keyed, v, decided, metadata), s)"
    and free: "find_receipt (st_db s) (actor_type actor) (actor_id actor) (k_key keyed) = None"
  shows "let own = map c_id (filter (\<lambda>c. c_project c = ve_project_id v) (criteria (st_db s)));
             unknown = filter (\<lambda>i. i \<notin> set own) (dedup_onto [] (ve_criterion_ids v));
             bound = map r_repo (filter (\<lambda>r. r_project r = ve_project_id v) (repositories (st_db s)));
             refused = (\<lambda>e. \<exists>s'. evidence_execute env url_parses actor req s = (Inl (Project e), s') \<and>
                              st_db s' = st_db s)
         in if read_project (st_db s) (ve_project_id v) = None then refused (ProjectNotFound (er_project_id req))
            else if ve_repo v \<noteq> None \<and> the (ve_repo v) \<notin> set bound then refused (RepoNotAllowed (the (ve_repo v)))
            else if unknown \<noteq> [] then refused (push_detail
              (at_edge (invalid_field ''criterionIds'' ''unknown'') EdgeInvariant
                 (Some ''One or more criteria do not belong to this project''))
              ''criterionIds'' (json_ids unknown))
            else if ve_work_item_id v \<noteq> None \<and> \<not> has_work_item (st_db s) (ve_project_id v) (the (ve_work_item_id v))
            then refused (WorkItemNotFound (the (er_work_item_id req)))
            else \<exists>r s'. evidence_execute env url_parses actor req s = (Inr r, s')"
proof -
  let ?s = "s\<lparr>st_txs := Suc (st_txs s)\<rparr>" and ?c = "(v, decided, metadata)" and ?d = "st_db s"
  have begins: "e_begin env (st_txs s) = Inr ()" using env by (simp add: env_total_def)
  have raw: "ve_raw_project_id v = er_project_id req" "ve_raw_work_item_id v = er_work_item_id req"
    "ve_work_item_id v = None \<longleftrightarrow> er_work_item_id req = None"
    using prep by (auto simp: evidence_prepare_iff evidence_decide_def evidence_validate_def Let_def
        res_simps transpose_opt_def split: option.splits)
  have fails: "\<exists>s'. evidence_execute env url_parses actor req s = (Inl e, s') \<and> st_db s' = ?d"
    if h: "attach_checks ?d v = Inl e" for e
  proof -
    have "evidence_effect env actor req ?c ?s = (Inl e, ?s)"
      by (simp add: evidence_effect_def evidence_write_checks tx_bind_def reading_def h)
    from receipt_run_effect_fails [where effect = "evidence_effect env actor req ?c", OF free begins this]
    show ?thesis by (simp add: evidence_execute_def receipt_record_def tx_bind_def prep)
  qed
  have runs: "\<exists>r s'. evidence_execute env url_parses actor req s = (Inr r, s')"
    if h: "attach_checks ?d v = Inr ()"
    using evidence_runs [OF env fresh ok prep free] h by (simp add: attach_checks_iff)
  let ?own = "map c_id (filter (\<lambda>c. c_project c = ve_project_id v) (criteria ?d))"
  let ?unknown = "filter (\<lambda>i. i \<notin> set ?own) (dedup_onto [] (ve_criterion_ids v))"
  let ?linked = "dedup_onto [] (ve_criterion_ids v)"
  let ?found = "mb_criteria (read_members ?d (ve_project_id v) (ve_work_item_id v) ?linked)"
  have unknown: "filter (\<lambda>i. i \<notin> set ?found) ?linked = ?unknown"
  proof (cases "?linked = []")
    case False
    then show ?thesis by (intro filter_cong) (auto simp: read_members_def)
  qed simp
  have bound: "list_ex (\<lambda>r. snd r = repo) (rel_repositories (read_relations ?d [ve_project_id v])) \<longleftrightarrow>
      repo \<in> set (map r_repo (filter (\<lambda>r. r_project r = ve_project_id v) (repositories ?d)))" for repo
    by (auto simp: bound_repo_iff)
  note checks = attach_checks_def Let_def in_project_scope_def bound criteria_in_project_def unknown
    read_members_item raw(1,2)
  show ?thesis
  proof (cases "attach_checks ?d v")
    case (Inl e)
    from fails [OF Inl] obtain s' where
      run: "evidence_execute env url_parses actor req s = (Inl e, s')" "st_db s' = ?d" by blast
    show ?thesis using Inl run raw(3) unfolding checks
      by (auto split: if_splits option.splits)
  next
    case (Inr u)
    then have "attach_checks ?d v = Inr ()" by simp
    from runs [OF this] Inr raw(3) show ?thesis unfolding checks
      by (auto split: if_splits option.splits)
  qed
qed

section \<open>Reading evidence back\<close>

text \<open>A filter on the trust a row reads as, whatever text is stored.\<close>

lemma trust_filter_reads:
  "t \<in> set trusts \<Longrightarrow> trust_admits (trust_filter_of t) stored \<longleftrightarrow> read_trust stored = t"
  by (auto simp: trust_filter_of_def read_trust_def trusts_def least_trusted_def)

lemma evidence_position_distinct: "db_ok d \<Longrightarrow> distinct (map evidence_position (evidence d))"
  by (auto simp: db_ok_def unique_ok_def distinct_map inj_on_def evidence_position_def)

lemma traverse_evidence_ids:
  "traverse (evidence_to_view env) rows = Inr vs \<Longrightarrow>
     map ew_id vs = map evd_id rows \<and> map ew_trust vs = map (\<lambda>row. read_trust (evd_trust row)) rows"
  by (induction rows arbitrary: vs) (auto simp: res_simps dest: evidence_to_view_Inr)

text \<open>C32. The evidence page: it answers, newest first, the project's rows after the cursor that match
  every filter given, where the trust filter compares what a row reads as, so that a stored
  value outside the vocabulary is found under \<open>invalid\<close> and nowhere else; at most the page's
  limit of them, with a cursor to the last exactly when there are more.\<close>

theorem evidence_page_exact:
  assumes "evidence_list_read env req d = Inr resp"
  shows "\<exists>project item cursor limit rows.
     canonical_uuid (xq_project_id req) = Some project \<and> 1 \<le> limit \<and> limit \<le> nat page_max \<and>
     transpose_opt (canonical_id ''workItemId'') (xq_work_item_id req) = Inr item \<and>
     transpose_opt decode_cursor (xq_cursor req) = Inr cursor \<and>
     rows = rev (sort_key evidence_position (filter (\<lambda>row.
        evd_project row = project \<and>
        (xq_kind req = None \<or> xq_kind req = Some (evd_kind row)) \<and>
        (xq_trust req = None \<or> xq_trust req = Some (read_trust (evd_trust row))) \<and>
        (item = None \<or> item = evd_work_item row) \<and>
        (case cursor of None \<Rightarrow> True
         | Some c \<Rightarrow> evidence_position row < (at_ms c, cursor_id c))) (evidence d))) \<and>
     map ew_id (xs_evidence resp) = map evd_id (take limit rows) \<and>
     map ew_trust (xs_evidence resp) = map (\<lambda>row. read_trust (evd_trust row)) (take limit rows) \<and>
     xs_next_cursor resp = (if limit < length rows
       then Some (encode_cursor (evd_created_at (rows ! (limit - 1))) (evd_id (rows ! (limit - 1))))
       else None)"
proof -
  from assms obtain project limit cursor kind trust item views where
    project: "canonical_uuid (xq_project_id req) = Some project"
    and limit: "page_within (xq_limit req) evidence_default_limit page_max = Inr limit"
    and cursor: "transpose_opt decode_cursor (xq_cursor req) = Inr cursor"
    and kind: "check_vocabulary ''kind'' (xq_kind req) evidence_kinds = Inr kind"
    and trust: "check_vocabulary ''trust'' (xq_trust req) trusts = Inr trust"
    and item: "transpose_opt (canonical_id ''workItemId'') (xq_work_item_id req) = Inr item"
    and views: "traverse (evidence_to_view env) (fst (split_page evidence_position
        (read_evidence_page d \<lparr>xp_project = project, xp_kind = kind,
                   xp_trust = map_option trust_filter_of trust, xp_work_item = item,
                   xp_before = map_option (\<lambda>c. (at_ms c, cursor_id c)) cursor,
                   xp_limit = limit + 1\<rparr>) limit)) = Inr views" 
    and resp: "resp = \<lparr>xs_evidence = views, xs_next_cursor = snd (split_page evidence_position
        (read_evidence_page d \<lparr>xp_project = project, xp_kind = kind,
                   xp_trust = map_option trust_filter_of trust, xp_work_item = item,
                   xp_before = map_option (\<lambda>c. (at_ms c, cursor_id c)) cursor,
                   xp_limit = limit + 1\<rparr>) limit)\<rparr>"
    by (auto simp: evidence_list_read_def and_then_Inr_iff canonical_id_def ok_or_iff
        split: if_splits prod.splits)
  define R where "R = rev (sort_key evidence_position (filter (\<lambda>row.
        evd_project row = project \<and>
        (xq_kind req = None \<or> xq_kind req = Some (evd_kind row)) \<and>
        (xq_trust req = None \<or> xq_trust req = Some (read_trust (evd_trust row))) \<and>
        (item = None \<or> item = evd_work_item row) \<and>
        (case cursor of None \<Rightarrow> True
         | Some c \<Rightarrow> evidence_position row < (at_ms c, cursor_id c))) (evidence d)))"
  let ?page = "\<lparr>xp_project = project, xp_kind = kind, xp_trust = map_option trust_filter_of trust,
     xp_work_item = item, xp_before = map_option (\<lambda>c. (at_ms c, cursor_id c)) cursor, xp_limit = limit + 1\<rparr>"
  have bounds: "1 \<le> limit" "limit \<le> page_max"
    using page_within_bounds [OF limit] by (simp_all add: evidence_default_limit_def page_max_def)
  note same = check_vocabulary_ok [OF kind] check_vocabulary_ok [OF trust]
  have known: "t \<in> set trusts" if "xq_trust req = Some t" for t
    using trust that by (auto simp: check_vocabulary_def split: if_splits)
  have "evidence_admitted ?page row \<longleftrightarrow> evd_project row = project \<and>
        (xq_kind req = None \<or> xq_kind req = Some (evd_kind row)) \<and>
        (xq_trust req = None \<or> xq_trust req = Some (read_trust (evd_trust row))) \<and>
        (item = None \<or> item = evd_work_item row) \<and>
        (case cursor of None \<Rightarrow> True | Some c \<Rightarrow> evidence_position row < (at_ms c, cursor_id c))" for row
    using trust_filter_reads known
    by (cases "xq_kind req"; cases "xq_trust req"; cases item; cases cursor)
       (auto simp: evidence_admitted_def evidence_position_def same)
  then have "evidence_admitted ?page = (\<lambda>row. evd_project row = project \<and>
        (xq_kind req = None \<or> xq_kind req = Some (evd_kind row)) \<and>
        (xq_trust req = None \<or> xq_trust req = Some (read_trust (evd_trust row))) \<and>
        (item = None \<or> item = evd_work_item row) \<and>
        (case cursor of None \<Rightarrow> True | Some c \<Rightarrow> evidence_position row < (at_ms c, cursor_id c)))"
    by (rule ext)
  moreover have "nat (limit + 1) = nat limit + 1" using bounds by simp
  ultimately have page: "read_evidence_page d ?page = take (nat limit + 1) R"
    by (simp only: read_evidence_page_def evidence_page.simps R_def)
  have kept: "take (nat limit) (read_evidence_page d ?page) = take (nat limit) R"
    by (simp add: page)
  have "last (take (nat limit) R) = R ! (nat limit - 1)" if "nat limit < length R"
    using that bounds by (intro last_take_nth) auto
  then have more: "xs_next_cursor resp = (if nat limit < length R
       then Some (encode_cursor (evd_created_at (R ! (nat limit - 1))) (evd_id (R ! (nat limit - 1))))
       else None)"
    using bounds unfolding resp split_page_def Let_def kept
    by (auto simp: page evidence_position_def)
  have "traverse (evidence_to_view env) (take (nat limit) R) = Inr views"
    using views unfolding split_page_def Let_def kept by simp
  note ids = traverse_evidence_ids [OF this]
  have "xs_evidence resp = views" by (simp add: resp)
  with ids more project bounds cursor item show ?thesis
    by (intro exI [of _ project] exI [of _ item] exI [of _ cursor] exI [of _ "nat limit"]
        exI [of _ R] conjI) (simp_all add: nat_mono R_def [symmetric])
qed

section \<open>An attach on a concrete project\<close>

definition demo_evidence :: evidence_request where
  "demo_evidence = \<lparr>er_project_id = demo_id, er_key = ''e1'', er_work_item_id = None,
     er_kind = ''session'', er_source = ''cli'', er_external_id = Some ''s1'', er_url = None,
     er_repo = None, er_commit_sha = None, er_metadata = None, er_criterion_ids = []\<rparr>"

definition demo_metadata :: json where
  "demo_metadata = stored_metadata None None (Some pending_reason) []"

definition evidence_env :: env where "evidence_env = brief_env demo_metadata"

lemmas evidence_env_facts = brief_total [of demo_metadata, folded evidence_env_def]
  brief_codec [of demo_metadata, folded evidence_env_def]

definition demo_valid :: valid_evidence where
  "demo_valid = \<lparr>ve_raw_project_id = demo_id, ve_project_id = demo_id, ve_raw_work_item_id = None,
     ve_work_item_id = None, ve_kind = ''session'', ve_source = ''cli'', ve_external_id = Some ''s1'',
     ve_url = None, ve_repo = None, ve_commit_sha = None, ve_metadata = [], ve_criterion_ids = []\<rparr>"

lemma demo_evidence_checks:
  "text_limit ''idempotencyKey'' ''e1'' 1 idempotency_key_max = Inr ()"
  "text_limit ''source'' ''cli'' 1 evidence_source_max = Inr ()"
  "text_limit ''externalId'' ''s1'' 1 evidence_external_id_max = Inr ()"
  by code_simp+

lemma demo_evidence_prepare:
  "\<exists>keyed. evidence_keyed evidence_env demo_evidence = Inr keyed \<and>
     evidence_prepare evidence_env (\<lambda>_. True) demo_actor demo_evidence s =
       (Inr (keyed, demo_valid, initial_trust (valid_claim demo_valid), []), s)"
proof -
  obtain keyed where k: "evidence_keyed evidence_env demo_evidence = Inr keyed"
    using demo_evidence_checks(1)
    by (simp add: evidence_keyed_def new_keyed_def demo_evidence_def evidence_env_def
        command_digest_def bytes_and_digest_def to_bytes_def)
  have "evidence_validate (\<lambda>_. True) demo_evidence = Inr demo_valid"
    using demo_evidence_checks(2,3)
    by (simp add: evidence_validate_def demo_evidence_def demo_valid_def canonical_id_def ok_or_def
        transpose_opt_def check_vocabulary_def evidence_kinds_def optional_check_def check_criterion_ids_def)
  moreover have "check_shape (valid_claim demo_valid) = Inr ()"
    by (simp add: check_shape_def valid_claim_def demo_valid_def required_claim_def Let_def)
  moreover have "initial_trust (valid_claim demo_valid) = \<lparr>in_trust = ''pending'', in_reason = Some pending_reason\<rparr>"
    by (simp add: initial_trust_def verifiable_def valid_claim_def demo_valid_def)
  moreover have "stored_metadata (ve_repo demo_valid) (ve_commit_sha demo_valid) (Some pending_reason)
      (ve_metadata demo_valid) = demo_metadata"
    by (simp add: demo_metadata_def demo_valid_def)
  ultimately have "evidence_decide evidence_env (\<lambda>_. True) demo_evidence =
      Inr (demo_valid, initial_trust (valid_claim demo_valid), [])"
    by (simp add: evidence_decide_def Let_def encode_metadata_def json_text_def evidence_env_def)
  with k show ?thesis by (simp add: evidence_prepare_iff)
qed

lemma demo_evidence_tables [simp]: "evidence demo_db = []" "criteria demo_db = []"
  by (simp_all add: demo_db_def empty_db_def)

lemma demo_evidence_fresh:
  "fresh_ids evidence_env demo_db" "fresh_evidence evidence_env demo_db" "references_ok demo_db"
  using demo_db_ok by (simp_all add: fresh_ids_def fresh_evidence_def db_ok_def demo_db_def empty_db_def)

lemma demo_evidence_runs:
  "\<exists>r s'. evidence_execute evidence_env (\<lambda>_. True) demo_actor demo_evidence (st_of demo_db) = (Inr r, s')"
proof -
  obtain keyed where prep: "evidence_prepare evidence_env (\<lambda>_. True) demo_actor demo_evidence (st_of demo_db) =
       (Inr (keyed, demo_valid, initial_trust (valid_claim demo_valid), []), st_of demo_db)"
    using demo_evidence_prepare by blast
  have "find_receipt (st_db (st_of demo_db)) (actor_type demo_actor) (actor_id demo_actor) (k_key keyed) = None"
    by (simp add: find_receipt_def demo_db_def empty_db_def)
  moreover have "attach_in_scope (st_db (st_of demo_db)) demo_valid" by (simp add: attach_in_scope_def demo_valid_def)
  ultimately show ?thesis
    using evidence_runs [OF evidence_env_facts(1) _ _ _ prep] demo_evidence_fresh by simp
qed


theorem evidence_add_decides_witness:
  "\<exists>r s'. evidence_execute evidence_env (\<lambda>_. True) demo_actor demo_evidence (st_of demo_db) = (Inr r, s')"
proof -
  obtain keyed where prep: "evidence_prepare evidence_env (\<lambda>_. True) demo_actor demo_evidence (st_of demo_db) =
       (Inr (keyed, demo_valid, initial_trust (valid_claim demo_valid), []), st_of demo_db)"
    using demo_evidence_prepare by blast
  have "find_receipt (st_db (st_of demo_db)) (actor_type demo_actor) (actor_id demo_actor) (k_key keyed) = None"
    by (simp add: find_receipt_def demo_db_def empty_db_def)
  moreover have "fresh_ids evidence_env (st_db (st_of demo_db))"
    "fresh_evidence evidence_env (st_db (st_of demo_db))" "references_ok (st_db (st_of demo_db))"
    using demo_evidence_fresh by simp_all
  ultimately show ?thesis
    using evidence_add_decides [OF evidence_env_facts(1) _ _ _ prep] by (simp add: demo_valid_def)
qed

theorem evidence_page_exact_witness:
  "\<exists>resp. evidence_list_read demo_env \<lparr>xq_project_id = demo_id, xq_limit = Some 5, xq_cursor = None,
       xq_kind = None, xq_trust = Some ''pending'', xq_work_item_id = None\<rparr> demo_db = Inr resp \<and>
     map ew_id (xs_evidence resp) = []"
proof -
  let ?req = "\<lparr>xq_project_id = demo_id, xq_limit = Some 5, xq_cursor = None,
       xq_kind = None, xq_trust = Some ''pending'', xq_work_item_id = None\<rparr>"
  obtain resp where run: "evidence_list_read demo_env ?req demo_db = Inr resp"
    by (simp add: evidence_list_read_def canonical_id_def ok_or_def page_within_def page_max_def
        transpose_opt_def check_vocabulary_def trusts_def split_page_def read_evidence_page_def)
  from evidence_page_exact [OF run] run show ?thesis by auto
qed

end
