(* ===== verification/Project_Engine.thy ===== *)
theory Project_Engine
  imports Project_Create Project_Plan Project_Proposal Project_Evidence
begin

text \<open>
  The project commands together, as a server runs them: any caller, under any envelope, sends
  any of the commands in any order (\<open>run\<close> of \<open>src/domains/projects/authority.rs\<close> over the
  commands of \<open>create.rs\<close>, \<open>lifecycle.rs\<close>, \<open>list.rs\<close>, \<open>show.rs\<close>, \<open>activity_page.rs\<close>, \<open>changes.rs\<close>,
  \<open>plan.rs\<close>, \<open>propose.rs\<close>, \<open>proposals.rs\<close>, \<open>evidence_add.rs\<close> and \<open>evidence_page.rs\<close>).
  Here are the properties that hold of every such run: the database stays consistent, its logs
  only grow, a refusal changes nothing, a retried command answers as it did.
\<close>

section \<open>Calls\<close>

datatype call =
    CallCreate create_request
  | CallLifecycle lifecycle_request
  | CallList list_request
  | CallShow string
  | CallActivity activity_request
  | CallChanges changes_request
  | CallPlan string
  | CallPropose propose_request
  | CallProposals proposals_request
  | CallProposalShow string string
  | CallEvidence evidence_request
  | CallEvidenceList evidence_list_request

datatype answer =
    AnswerCreate create_response
  | AnswerLifecycle lifecycle_response
  | AnswerList list_response
  | AnswerShow show_response
  | AnswerActivity activity_response
  | AnswerChanges "change_frame list"
  | AnswerPlan plan_view
  | AnswerPropose propose_response
  | AnswerProposals proposals_response
  | AnswerProposal proposal_view
  | AnswerEvidence evidence_response
  | AnswerEvidenceList evidence_list_response

definition answered_as :: "('r \<Rightarrow> answer) \<Rightarrow> (error + 'r) \<times> st \<Rightarrow> (error + answer) \<times> st" where
  "answered_as f x = (map_sum id f (fst x), snd x)"

fun serve_call :: "env \<Rightarrow> (string \<Rightarrow> bool) \<Rightarrow> envelope \<Rightarrow> call \<Rightarrow> st \<Rightarrow> (error + answer) \<times> st" where
  "serve_call env url_parses who (CallCreate req) s =
     answered_as AnswerCreate (run_command s who (create_command env req))"
| "serve_call env url_parses who (CallLifecycle req) s =
     answered_as AnswerLifecycle (run_command s who (lifecycle_command env req))"
| "serve_call env url_parses who (CallList req) s =
     answered_as AnswerList (run_command s who (list_command env req))"
| "serve_call env url_parses who (CallShow i) s =
     answered_as AnswerShow (run_command s who (show_command env i))"
| "serve_call env url_parses who (CallActivity req) s =
     answered_as AnswerActivity (run_command s who (activity_command env req))"
| "serve_call env url_parses who (CallChanges req) s =
     answered_as AnswerChanges (run_command s who (changes_command req))"
| "serve_call env url_parses who (CallPlan i) s =
     answered_as AnswerPlan (run_command s who (plan_command env i))"
| "serve_call env url_parses who (CallPropose req) s =
     answered_as AnswerPropose (run_command s who (propose_command env req))"
| "serve_call env url_parses who (CallProposals req) s =
     answered_as AnswerProposals (run_command s who (proposals_command env req))"
| "serve_call env url_parses who (CallProposalShow i k) s =
     answered_as AnswerProposal (run_command s who (proposal_show_command env i k))"
| "serve_call env url_parses who (CallEvidence req) s =
     answered_as AnswerEvidence (run_command s who (evidence_command env url_parses req))"
| "serve_call env url_parses who (CallEvidenceList req) s =
     answered_as AnswerEvidenceList (run_command s who (evidence_list_command env req))"

fun call_verb :: "call \<Rightarrow> verb" where
  "call_verb (CallCreate _) = ProjectCreate"
| "call_verb (CallLifecycle req) = kind_verb (lr_kind req)"
| "call_verb (CallList _) = ProjectList"
| "call_verb (CallShow _) = ProjectShow"
| "call_verb (CallActivity _) = ActivityRead"
| "call_verb (CallChanges _) = ProjectChanges"
| "call_verb (CallPlan _) = PlanRead"
| "call_verb (CallPropose _) = ProposalCreate"
| "call_verb (CallProposals _) = ProposalRead"
| "call_verb (CallProposalShow _ _) = ProposalRead"
| "call_verb (CallEvidence _) = EvidenceCreate"
| "call_verb (CallEvidenceList _) = EvidenceRead"

inductive engine_steps :: "env \<Rightarrow> (string \<Rightarrow> bool) \<Rightarrow> st \<Rightarrow> st \<Rightarrow> bool" for env url_parses where
  engine_start: "engine_steps env url_parses s s"
| engine_step: "engine_steps env url_parses s t \<Longrightarrow>
     engine_steps env url_parses s (snd (serve_call env url_parses who c t))"

section \<open>One call\<close>

lemma run_command_cases:
  assumes "run_command st who c = (r, st')"
  obtains (refused) e where "authorize who (cmd_verb c) = Inl e" "r = Inl e" "st' = st"
  | (ran) "authorize who (cmd_verb c) = Inr ()"
      "cmd_execute c st \<lparr>actor_principal = env_principal who\<rparr> = (r, st')"
  using assms by (auto simp: run_command_def split: sum.splits)

text \<open>A command whose every execution follows a relation, and one whose failures write nothing;
  the reads do both.\<close>

definition command_follows :: "(db \<Rightarrow> db \<Rightarrow> bool) \<Rightarrow> (st, 'r) command \<Rightarrow> bool" where
  "command_follows R c \<longleftrightarrow> (\<forall>actor. follows R (\<lambda>s. cmd_execute c s actor))"

definition command_fails_clean :: "(st, 'r) command \<Rightarrow> bool" where
  "command_fails_clean c \<longleftrightarrow> (\<forall>s actor e t. cmd_execute c s actor = (Inl e, t) \<longrightarrow> st_db t = st_db s)"

lemma reading_command:
  "step_relation R \<Longrightarrow> command_follows R \<lparr>cmd_verb = v, cmd_execute = (\<lambda>s actor. reading f s)\<rparr>"
  "command_fails_clean \<lparr>cmd_verb = v, cmd_execute = (\<lambda>s actor. reading f s)\<rparr>"
  by (auto simp: command_follows_def command_fails_clean_def follows_def reading_def
      step_relation.R_refl)

lemmas read_commands = list_command_def show_command_def activity_command_def changes_command_def
  plan_command_def proposals_command_def proposal_show_command_def evidence_list_command_def

lemma executing_command:
  "(\<And>actor. follows R (f actor)) \<Longrightarrow>
     command_follows R \<lparr>cmd_verb = v, cmd_execute = (\<lambda>s actor. f actor s)\<rparr>"
  by (simp add: command_follows_def follows_def)

lemmas write_commands = create_command_def lifecycle_command_def propose_command_def evidence_command_def

lemma served_follows:
  assumes "step_relation R" "command_follows R c"
  shows "R (st_db s) (st_db (snd (answered_as f (run_command s who c))))"
proof -
  obtain r t where run: "run_command s who c = (r, t)" by (cases "run_command s who c")
  then show ?thesis
    using assms(2)
    by (cases rule: run_command_cases)
       (auto simp: answered_as_def run command_follows_def step_relation.R_refl [OF assms(1)] dest: followsD)
qed

text \<open>What the four writing commands must do for a relation to hold of every call.\<close>

definition writers_follow :: "env \<Rightarrow> (string \<Rightarrow> bool) \<Rightarrow> (db \<Rightarrow> db \<Rightarrow> bool) \<Rightarrow> bool" where
  "writers_follow env url_parses R \<longleftrightarrow>
     (\<forall>actor req. follows R (create_execute env actor req)) \<and>
     (\<forall>actor req. follows R (lifecycle_execute env actor req)) \<and>
     (\<forall>actor req. follows R (propose_execute env actor req)) \<and>
     (\<forall>actor req. follows R (evidence_execute env url_parses actor req))"

lemma serve_call_follows:
  assumes "step_relation R" "writers_follow env url_parses R"
  shows "R (st_db s) (st_db (snd (serve_call env url_parses who c s)))"
  using assms(2)
  by (cases c)
     (simp_all add: writers_follow_def read_commands write_commands
        served_follows [OF assms(1)] reading_command(1) [OF assms(1)] executing_command)

lemma engine_steps_follow:
  assumes R: "step_relation R" "writers_follow env url_parses R"
    and steps: "engine_steps env url_parses s t"
  shows "R (st_db s) (st_db t)"
  using steps
proof (induction rule: engine_steps.induct)
  case (engine_start s)
  then show ?case by (rule step_relation.R_refl [OF R(1)])
next
  case (engine_step s t who c)
  from engine_step.IH serve_call_follows [OF R] show ?case
    by (rule step_relation.R_trans [OF R(1)])
qed

lemma writers_keep: "writers_follow env url_parses appends" "writers_follow env url_parses keeps_ok"
  by (simp_all add: writers_follow_def create.exec_appends life.exec_appends propose.exec_appends
      attach.exec_appends create.exec_ok life.exec_ok propose.exec_ok attach.exec_ok)

lemma engine_appends: "engine_steps env url_parses s t \<Longrightarrow> appends (st_db s) (st_db t)"
  by (rule engine_steps_follow [OF app.step_relation_axioms writers_keep(1)])

lemma engine_keeps_ok: "engine_steps env url_parses s t \<Longrightarrow> keeps_ok (st_db s) (st_db t)"
  by (rule engine_steps_follow [OF okr.step_relation_axioms writers_keep(2)])

lemma authorize_refusal: "authorize who v = Inl e \<Longrightarrow> exit_code e = 70"
  by (auto split: reach.splits rule.splits if_splits)

lemma writers_fail_clean:
  "command_fails_clean (create_command env req1)" "command_fails_clean (lifecycle_command env req2)"
  "command_fails_clean (propose_command env req3)"
  "command_fails_clean (evidence_command env url_parses req4)"
  by (auto simp: command_fails_clean_def write_commands create.failure_changes_nothing
      life.failure_changes_nothing propose.failure_changes_nothing attach.failure_changes_nothing)

lemma readers_fail_clean:
  "command_fails_clean (list_command env req1)" "command_fails_clean (show_command env i)"
  "command_fails_clean (activity_command env req2)" "command_fails_clean (changes_command req3)"
  "command_fails_clean (plan_command env i)" "command_fails_clean (proposals_command env req4)"
  "command_fails_clean (proposal_show_command env i k)"
  "command_fails_clean (evidence_list_command env req5)"
  by (simp_all add: read_commands reading_command(2))

lemma command_verbs:
  "cmd_verb (create_command env req1) = ProjectCreate"
  "cmd_verb (lifecycle_command env req2) = kind_verb (lr_kind req2)"
  "cmd_verb (propose_command env req3) = ProposalCreate"
  "cmd_verb (evidence_command env url_parses req4) = EvidenceCreate"
  "cmd_verb (list_command env req5) = ProjectList" "cmd_verb (show_command env i) = ProjectShow"
  "cmd_verb (activity_command env req6) = ActivityRead" "cmd_verb (changes_command req7) = ProjectChanges"
  "cmd_verb (plan_command env i) = PlanRead" "cmd_verb (proposals_command env req8) = ProposalRead"
  "cmd_verb (proposal_show_command env i k) = ProposalRead"
  "cmd_verb (evidence_list_command env req9) = EvidenceRead"
  by (simp_all add: write_commands read_commands)

lemma served_refusal:
  assumes "answered_as f (run_command s who c) = (Inl e, t)" "command_fails_clean c"
  shows "st_db t = st_db s \<and> (authorize who (cmd_verb c) \<noteq> Inr () \<longrightarrow>
     t = s \<and> authorize who (cmd_verb c) = Inl e \<and> exit_code e = 70)"
proof -
  from assms(1) have r: "run_command s who c = (Inl e, t)"
    by (cases "run_command s who c"; cases "fst (run_command s who c)") (auto simp: answered_as_def)
  then show ?thesis
  proof (cases rule: run_command_cases)
    case (refused e')
    then show ?thesis using authorize_refusal [OF refused(1)] by auto
  next
    case ran
    then show ?thesis using assms(2) by (simp add: command_fails_clean_def)
  qed
qed

section \<open>Properties\<close>



text \<open>C19. A refusal changes nothing: a call that answers an error leaves the database exactly as
  it was; and when it is the authority that refuses, the command never ran at all (no
  transaction, no id drawn, no telemetry) and the process exits with 70.\<close>

theorem refused_call_changes_nothing:
  assumes "serve_call env url_parses who c s = (Inl e, t)"
  shows "st_db t = st_db s \<and>
     (authorize who (call_verb c) \<noteq> Inr () \<longrightarrow>
        t = s \<and> authorize who (call_verb c) = Inl e \<and> exit_code e = 70)"
  by (insert assms, (cases c; simp only: serve_call.simps; drule served_refusal;
      (rule writers_fail_clean readers_fail_clean | simp add: command_verbs del: authorize.simps)))

theorem refused_call_changes_nothing_witness:
  "\<exists>e. serve_call demo_env (\<lambda>_. True) local_agent (CallCreate demo_create) (st_of demo_db) = (Inl e, st_of demo_db) \<and>
     exit_code e = 70"
proof -
  obtain e where e: "authorize local_agent ProjectCreate = Inl e"
    by (simp add: local_agent_def agent_envelope_def)
  then have "serve_call demo_env (\<lambda>_. True) local_agent (CallCreate demo_create) (st_of demo_db) = (Inl e, st_of demo_db)"
    by (simp add: answered_as_def run_command_def create_command_def del: authorize.simps)
  moreover have "authorize local_agent (call_verb (CallCreate demo_create)) \<noteq> Inr ()" unfolding call_verb.simps e by simp
  ultimately show ?thesis using refused_call_changes_nothing by blast
qed

section \<open>Receipts over whole histories\<close>

text \<open>The calls that run under a key, the key and digest each runs under, and whether a call gets
  past the authority and its own checks.\<close>

fun call_keyed :: "env \<Rightarrow> call \<Rightarrow> (error + keyed) option" where
  "call_keyed env (CallCreate req) = Some (create_keyed env req)"
| "call_keyed env (CallLifecycle req) = Some (lifecycle_keyed env req)"
| "call_keyed env (CallPropose req) = Some (propose_keyed env req)"
| "call_keyed env (CallEvidence req) = Some (evidence_keyed env req)"
| "call_keyed env _ = None"

definition actor_of :: "envelope \<Rightarrow> actor" where
  "actor_of who = \<lparr>actor_principal = env_principal who\<rparr>"

fun call_passes :: "env \<Rightarrow> (string \<Rightarrow> bool) \<Rightarrow> envelope \<Rightarrow> call \<Rightarrow> st \<Rightarrow> bool" where
  "call_passes env url_parses who c s \<longleftrightarrow> authorize who (call_verb c) = Inr () \<and>
     (case c of
        CallCreate req \<Rightarrow> \<not> isl (fst (create_prepare env (actor_of who) req s))
      | CallLifecycle req \<Rightarrow> \<not> isl (fst (lifecycle_prepare env (actor_of who) req s))
      | CallPropose req \<Rightarrow> \<not> isl (fst (propose_prepare env (actor_of who) req s))
      | CallEvidence req \<Rightarrow> \<not> isl (fst (evidence_prepare env url_parses (actor_of who) req s))
      | _ \<Rightarrow> True)"

lemma create_prepare_again:
  assumes "env_total env" "create_prepare env actor req s = (Inr p, s1)"
  shows "\<exists>p' u1. create_prepare env actor req u = (Inr p', u1)"
proof -
  from assms(2) obtain keyed c s2 where k: "create_keyed env req = Inr keyed"
    and v: "charter_validate env req (actor_principal actor) s = (Inr c, s2)"
    by (auto simp: create_prepare_def tx_simps)
  from v obtain i s3 where i: "charter_id env req s = (Inr i, s3)"
    and ok: "charter_checks env req (actor_principal actor) i = Inr c"
    by (auto simp: charter_validate_def tx_simps)
  obtain i' u1 where i': "charter_id env req u = (Inr i', u1)"
    using i mint_total [OF assms(1), of u]
    by (cases "cr_id req") (auto simp: charter_id_def tx_simps)
  from ok obtain c' where "charter_checks env req (actor_principal actor) i' = Inr c'"
    by (auto simp: charter_checks_def res_simps)
  with k i' show ?thesis
    by (simp add: create_prepare_def charter_validate_def tx_bind_def lift_def ret_def)
qed

lemma pure_prepare_again:
  "lifecycle_prepare env actor req1 s = (Inr p1, s1) \<Longrightarrow> \<exists>p u1. lifecycle_prepare env actor req1 u = (Inr p, u1)"
  "propose_prepare env actor req2 s = (Inr p2, s1) \<Longrightarrow> \<exists>p u1. propose_prepare env actor req2 u = (Inr p, u1)"
  "evidence_prepare env url_parses actor req3 s = (Inr p3, s1) \<Longrightarrow>
     \<exists>p u1. evidence_prepare env url_parses actor req3 u = (Inr p, u1)"
  by (auto simp: lifecycle_prepare_def propose_prepare_def evidence_prepare_def tx_simps split: prod.splits)

lemma served_Inr:
  "answered_as f (run_command s who c) = (Inr x, t) \<longleftrightarrow>
     authorize who (cmd_verb c) = Inr () \<and>
     (\<exists>y. x = f y \<and> cmd_execute c s (actor_of who) = (Inr y, t))"
  by (cases "cmd_execute c s (actor_of who)"; cases "fst (cmd_execute c s (actor_of who))")
     (auto simp: answered_as_def run_command_def actor_of_def split: sum.splits)

text \<open>A call under a key that answered left a receipt of what it was.\<close>

lemma call_receipt:
  assumes "serve_call env url_parses who c s = (Inr x, t)" "codec_ok env"
    and "call_keyed env c = Some (Inr keyed)"
  shows "\<exists>row. find_receipt (st_db t) (actor_type (actor_of who)) (actor_id (actor_of who)) (k_key keyed) = Some row \<and>
     rc_command_type row = k_command keyed \<and> rc_digest row = k_digest keyed"
  using assms
  by (cases c)
     (auto simp: served_Inr write_commands simp del: authorize.simps
       dest!: create.receipt_kept [OF _ codec_okD [OF assms(2)]] life.receipt_kept [OF _ codec_okD [OF assms(2)]]
         propose.receipt_kept [OF _ codec_okD [OF assms(2)]] attach.receipt_kept [OF _ codec_okD [OF assms(2)]])


lemma demo_may [simp]:
  "authorize local_operator ProjectCreate = Inr ()" "actor_of local_operator = demo_actor"
  by (simp_all add: local_operator_def local_operator_id_def actor_of_def demo_actor_def user_envelope_def
      less_eq_tier_def)

lemma demo_create_call:
  "\<exists>x t. serve_call demo_env (\<lambda>_. True) local_operator (CallCreate demo_create) (st_of demo_db) = (Inr x, t)"
  using demo_create_runs
  by (auto simp: served_Inr create_command_def simp del: authorize.simps)


text \<open>C21. One key, one command: once a call answered under a key, another call of that caller under
  the same key that is not the same command with the same digest never runs, at any later
  time: it is refused with \<open>idempotency_conflict\<close> (or earlier, by the authority or its own
  checks) and changes nothing.\<close>

theorem key_answers_one_command:
  assumes first: "serve_call env url_parses who c s = (Inr x, t)" "call_keyed env c = Some (Inr k)"
    and env: "codec_ok env" "env_total env" and steps: "engine_steps env url_parses t u"
    and later: "call_keyed env c2 = Some (Inr k2)" "k_key k2 = k_key k"
      "k_command k2 \<noteq> k_command k \<or> k_digest k2 \<noteq> k_digest k" "env_principal who2 = env_principal who"
  shows "\<exists>e u'. serve_call env url_parses who2 c2 u = (Inl e, u') \<and> st_db u' = st_db u \<and>
     (call_passes env url_parses who2 c2 u \<longrightarrow> e = Project IdempotencyConflict)"
proof -
  have begins: "e_begin env j = Inr ()" for j using env(2) by (simp add: env_total_def)
  from call_receipt [OF first(1) env(1) first(2)] obtain row where
    row: "find_receipt (st_db t) (actor_type (actor_of who)) (actor_id (actor_of who)) (k_key k) = Some row"
      "rc_command_type row = k_command k" "rc_digest row = k_digest k" by blast
  have same: "actor_of who2 = actor_of who" using later(4) by (simp add: actor_of_def)
  have there: "find_receipt (st_db u) (actor_type (actor_of who2)) (actor_id (actor_of who2)) (k_key k2) = Some row"
    using row(1) engine_appends [OF steps] later(2) same
    by (auto simp: appends_def prefix_def find_receipt_append)
  have clash: "rc_command_type row \<noteq> k_command k2 \<or> rc_digest row \<noteq> k_digest k2"
    using later(3) row(2,3) by auto
  have refused: "\<exists>e u'. answered_as f (run_command u who2 cmd) = (Inl e, u') \<and> st_db u' = st_db u \<and>
      (authorize who2 (cmd_verb cmd) = Inr () \<and> ok \<longrightarrow> e = Project IdempotencyConflict)"
    if "\<exists>e u'. cmd_execute cmd u (actor_of who2) = (Inl e, u') \<and> st_db u' = st_db u \<and>
       (ok \<longrightarrow> e = Project IdempotencyConflict)" for f ok and cmd :: "(st, 'b) command"
    using that
    by (cases "authorize who2 (cmd_verb cmd)")
       (auto simp: answered_as_def run_command_def actor_of_def simp del: authorize.simps)
  note taken = create.key_taken [OF there clash _ begins] life.key_taken [OF there clash _ begins]
    propose.key_taken [OF there clash _ begins] attach.key_taken [OF there clash _ begins]
  show ?thesis
  proof (cases c2)
    case (CallCreate req)
    with later(1) have "create_keyed env req = Inr k2" by simp
    from refused [of "create_command env req"] taken(1) [OF this]
    show ?thesis by (simp add: CallCreate create_command_def del: authorize.simps)
  next
    case (CallLifecycle req)
    with later(1) have "lifecycle_keyed env req = Inr k2" by simp
    from refused [of "lifecycle_command env req"] taken(2) [OF this]
    show ?thesis by (simp add: CallLifecycle lifecycle_command_def del: authorize.simps)
  next
    case (CallPropose req)
    with later(1) have "propose_keyed env req = Inr k2" by simp
    from refused [of "propose_command env req"] taken(3) [OF this]
    show ?thesis by (simp add: CallPropose propose_command_def del: authorize.simps)
  next
    case (CallEvidence req)
    with later(1) have "evidence_keyed env req = Inr k2" by simp
    from refused [of "evidence_command env url_parses req"] taken(4) [OF this]
    show ?thesis by (simp add: CallEvidence evidence_command_def del: authorize.simps)
  qed (use later(1) in simp_all)
qed

definition demo_clash :: lifecycle_request where
  "demo_clash = \<lparr>lr_kind = KindPause, lr_id = demo_id,
     lr_body = \<lparr>lb_key = ''c1'', lb_expected_version = 3, lb_reason = Some ''waiting''\<rparr>\<rparr>"

lemma demo_clash_keyed:
  "\<exists>k k2. create_keyed demo_env demo_create = Inr k \<and> lifecycle_keyed demo_env demo_clash = Inr k2 \<and>
     k_key k2 = k_key k \<and> k_command k2 \<noteq> k_command k"
  using demo_create_checks(1)
  by (simp add: lifecycle_keyed_def create_keyed_def demo_clash_def demo_create_def canonical_id_def
      ok_or_def new_keyed_def command_digest_def bytes_and_digest_def to_bytes_def)

theorem key_answers_one_command_witness:
  "\<exists>t e u'. serve_call demo_env (\<lambda>_. True) local_operator (CallLifecycle demo_clash) t = (Inl e, u') \<and>
     st_db u' = st_db t \<and> receipts (st_db t) \<noteq> []"
proof -
  obtain x t where first:
    "serve_call demo_env (\<lambda>_. True) local_operator (CallCreate demo_create) (st_of demo_db) = (Inr x, t)"
    using demo_create_call by blast
  obtain k k2 where k: "create_keyed demo_env demo_create = Inr k" "lifecycle_keyed demo_env demo_clash = Inr k2"
    "k_key k2 = k_key k" "k_command k2 \<noteq> k_command k" using demo_clash_keyed by blast
  then have keyed: "call_keyed demo_env (CallCreate demo_create) = Some (Inr k)"
    "call_keyed demo_env (CallLifecycle demo_clash) = Some (Inr k2)" by simp_all
  from call_receipt [OF first demo_codec keyed(1)] have "receipts (st_db t) \<noteq> []"
    by (auto simp: find_receipt_def)
  moreover from key_answers_one_command [OF first keyed(1) demo_codec demo_total engine_start keyed(2)] k
  have "\<exists>e u'. serve_call demo_env (\<lambda>_. True) local_operator (CallLifecycle demo_clash) t = (Inl e, u') \<and>
     st_db u' = st_db t" by blast
  ultimately show ?thesis by blast
qed

text \<open>A proposal's key does not count the project: after one proposal was accepted, the same body
  sent under the same key to any other project is answered with the first project's proposal
  and stores nothing, whether or not the other project exists.\<close>

theorem proposal_key_forgets_project:
  assumes first: "serve_call env url_parses who (CallPropose req) s = (Inr (AnswerPropose r), t)"
    and env: "codec_ok env" "env_total env" and steps: "engine_steps env url_parses t u"
    and other: "canonical_uuid other \<noteq> None"
  shows "\<exists>u'. serve_call env url_parses who (CallPropose (req\<lparr>po_project_id := other\<rparr>)) u =
       (Inr (AnswerPropose r), u') \<and> st_db u' = st_db u"
proof -
  let ?req = "req\<lparr>po_project_id := other\<rparr>"
  have begins: "e_begin env k = Inr ()" for k using env(2) by (simp add: env_total_def)
  from first have ok: "authorize who ProposalCreate = Inr ()"
    and run: "propose_execute env (actor_of who) req s = (Inr r, t)"
    by (auto simp: served_Inr propose_command_def simp del: authorize.simps)
  have keyed: "propose_keyed env ?req = propose_keyed env req"
    by (simp add: propose_keyed_def propose_digest_body_def)
  from propose.prepared [OF run] obtain keyed i ops where
    k: "propose_keyed env req = Inr keyed" and v: "propose_validate env req = Inr (i, ops)"
    by (auto simp: propose_prepare_def tx_simps)
  obtain c where "canonical_uuid other = Some c" using other by blast
  with v have "propose_validate env ?req = Inr (c, ops)"
    by (auto simp: propose_validate_def canonical_id_def res_simps)
  with k keyed have "propose_prepare env (actor_of who) ?req u = (Inr (keyed, c, ops, k_digest keyed), u)"
    by (simp add: propose_prepare_iff)
  from propose.retry_as [OF run codec_okD [OF env(1)] engine_appends [OF steps] keyed this begins] ok
  show ?thesis by (auto simp: served_Inr propose_command_def simp del: authorize.simps)
qed

theorem proposal_key_forgets_project_witness:
  "\<exists>other r t u'. serve_call proposal_env (\<lambda>_. True) local_operator (CallPropose demo_proposal) (st_of demo_db)
       = (Inr (AnswerPropose r), t) \<and> read_project (st_db t) other = None \<and>
     serve_call proposal_env (\<lambda>_. True) local_operator (CallPropose (demo_proposal\<lparr>po_project_id := other\<rparr>)) t
       = (Inr (AnswerPropose r), u') \<and> st_db u' = st_db t"
proof -
  let ?other = "''0123abcd-0000-4000-8000-00000000000b''"
  obtain r t where run: "propose_execute proposal_env demo_actor demo_proposal (st_of demo_db) = (Inr r, t)"
    using demo_propose_runs by blast
  have "authorize local_operator ProposalCreate = Inr ()"
    by (simp add: local_operator_def user_envelope_def less_eq_tier_def)
  with run have first: "serve_call proposal_env (\<lambda>_. True) local_operator (CallPropose demo_proposal) (st_of demo_db)
       = (Inr (AnswerPropose r), t)"
    by (simp add: served_Inr propose_command_def del: authorize.simps)
  have canonical: "canonical_uuid ?other \<noteq> None" by code_simp
  obtain keyed where keyed: "propose_keyed proposal_env demo_proposal = Inr keyed"
    using demo_propose_prepare by blast
  have "find_receipt (st_db (st_of demo_db)) (actor_type demo_actor) (actor_id demo_actor) (k_key keyed) = None"
    by (simp add: find_receipt_def)
  from propose_applied [OF run keyed this] obtain project ops s1 receipt where
    w: "propose_write proposal_env demo_actor project demo_proposal ops (k_digest keyed)
      ((st_of demo_db)\<lparr>st_txs := Suc (st_txs (st_of demo_db))\<rparr>) = (Inr r, s1)"
    "st_db t = (st_db s1)\<lparr>receipts := receipts (st_db s1) @ [receipt]\<rparr>" .
  from propose_write_Inr [OF w(1)] obtain at where
    "projects (st_db s1) = planned_projects project at (projects demo_db)" by auto
  then have "p_id ` set (projects (st_db t)) = p_id ` set (projects demo_db)"
    using planned_ids [of project at "projects demo_db"] by (simp add: w(2))
  then have "?other \<notin> p_id ` set (projects (st_db t))"
    by (simp add: demo_db_def empty_db_def demo_project_def demo_id_def)
  then have "read_project (st_db t) ?other = None"
    using read_project_Some [of "st_db t" ?other] by (cases "read_project (st_db t) ?other") (auto, metis imageI)
  with first proposal_key_forgets_project [OF first proposal_env_facts(2,1) engine_start canonical]
  show ?thesis by blast
qed

text \<open>Who may run what: a person may run exactly the verbs at or below the tier held, and an
  agent, whose grant lists capability names, exactly the shared verbs whose capability is
  named in a list without an unknown name. So no grant whatever lets an agent run a command
  that only a signed-in human may run.\<close>

theorem authority_is_exact:
  "(authorize (user_envelope i held) v = Inr () \<longleftrightarrow> rule_tier (verb_rule v) \<le> held) \<and>
   (authorize (agent_envelope i (caps_parse names)) v = Inr () \<longleftrightarrow>
      (\<exists>t c. verb_rule v = Shared t c \<and> capability_str c \<in> set names) \<and>
      (\<exists>granted. names = map capability_str granted))"
proof -
  have known: "(\<exists>granted. names = map capability_str granted) \<longleftrightarrow>
      (\<forall>n \<in> set names. parse_capability n \<noteq> None)"
  proof
    assume all: "\<forall>n \<in> set names. parse_capability n \<noteq> None"
    have "map capability_str (map (\<lambda>n. the (parse_capability n)) names) = names"
      unfolding map_map
    proof (rule map_idI)
      fix n assume "n \<in> set names"
      with all obtain c where "parse_capability n = Some c" by auto
      then show "(capability_str \<circ> (\<lambda>n. the (parse_capability n))) n = n"
        by (simp add: cap.parse_Some_iff)
    qed
    then show "\<exists>granted. names = map capability_str granted" by metis
  qed auto
  have "caps_contains (caps_parse names) c \<longleftrightarrow>
      (\<forall>n \<in> set names. parse_capability n \<noteq> None) \<and> capability_str c \<in> set names" for c
    unfolding caps_parse_def
    using caps_parse_onto_known [of names caps_none c] caps_parse_onto_unknown [of names caps_none]
    by (cases "\<forall>n \<in> set names. parse_capability n \<noteq> None") auto
  then show ?thesis
    unfolding known
    by (auto simp: user_envelope_def agent_envelope_def split: rule.splits)
qed

end
