(* ===== verification/Job_Registry.thy ===== *)
theory Job_Registry
  imports Errors
begin

text \<open>
  The in-process job table of the HTTP server (\<open>src/serve/jobs.rs\<close>,
  \<open>src/serve/jobs/registry.rs\<close>). The \<open>HashMap\<close> of jobs is a list with at most one record
  per id (insertion replaces); the cancel flags, which a worker shares with the record by
  \<open>Arc\<close>, are a store addressed by the job's insertion counter, so a flag outlives an evicted
  record. Each operation is one hold of the table's lock. What the random source and the clock
  answered is an argument of the operations that read them.
\<close>

section \<open>Jobs\<close>

record job_error =
  je_code :: string
  je_message :: string

datatype job_status = Queued | Running | Done json | Failed job_error | StatusCancelled

fun status_slug :: "job_status \<Rightarrow> string" where
  "status_slug Queued = ''queued''"
| "status_slug Running = ''running''"
| "status_slug (Done _) = ''done''"
| "status_slug (Failed _) = ''error''"
| "status_slug StatusCancelled = ''cancelled''"

fun is_terminal :: "job_status \<Rightarrow> bool" where
  "is_terminal (Done _) = True"
| "is_terminal (Failed _) = True"
| "is_terminal StatusCancelled = True"
| "is_terminal _ = False"

fun status_result :: "job_status \<Rightarrow> json option" where
  "status_result (Done v) = Some v"
| "status_result _ = None"

fun status_error :: "job_status \<Rightarrow> job_error option" where
  "status_error (Failed e) = Some e"
| "status_error _ = None"

text \<open>\<open>JobError::from_error\<close>: the envelope's code and the error's text.\<close>

definition job_error_of :: "(sqlite_error \<Rightarrow> string) \<Rightarrow> error \<Rightarrow> job_error" where
  "job_error_of sqlite_text e =
     \<lparr>je_code = fst (classify e), je_message = error_message sqlite_text e\<rparr>"

definition internal_job_error :: "string \<Rightarrow> job_error" where
  "internal_job_error message = \<lparr>je_code = ''internal'', je_message = message\<rparr>"

record progress =
  pr_done :: "64 word"
  pr_total :: "64 word"
  pr_unit :: string

text \<open>\<open>j_tx\<close> and \<open>j_progress_tx\<close> are the values the \<open>watch\<close> channels hold, \<open>j_sent\<close> every
  line sent to the \<open>broadcast\<close> channel.\<close>

record job =
  j_id :: string
  j_command :: string
  j_repo :: "string option"
  j_status :: job_status
  j_started :: string
  j_finished :: "string option"
  j_seq :: nat
  j_tx :: job_status
  j_progress_tx :: "progress option"
  j_progress :: "progress option"
  j_log_tail :: "string list"
  j_sent :: "string list"

definition log_tail_cap :: nat where "log_tail_cap = 20"
definition max_finished :: nat where "max_finished = 100"

definition new_job :: "string \<Rightarrow> string \<Rightarrow> string option \<Rightarrow> string \<Rightarrow> nat \<Rightarrow> job" where
  "new_job i command repo started seq = \<lparr>
     j_id = i, j_command = command, j_repo = repo, j_status = Queued, j_started = started,
     j_finished = None, j_seq = seq, j_tx = Queued, j_progress_tx = None, j_progress = None,
     j_log_tail = [], j_sent = []\<rparr>"

text \<open>\<open>Job::push_log\<close>: the oldest line goes once the tail is full.\<close>

definition job_push_log :: "string \<Rightarrow> job \<Rightarrow> job" where
  "job_push_log line j =
     (let tail = (if log_tail_cap \<le> length (j_log_tail j) then tl (j_log_tail j) else j_log_tail j)
      in j\<lparr>j_sent := j_sent j @ [line], j_log_tail := tail @ [line]\<rparr>)"

record job_view =
  jv_id :: string
  jv_command :: string
  jv_repo :: "string option"
  jv_status :: string
  jv_started :: string
  jv_finished :: "string option"
  jv_result :: "json option"
  jv_error :: "job_error option"
  jv_progress :: "progress option"
  jv_log_tail :: "string list"

definition job_to_view :: "job \<Rightarrow> job_view" where
  "job_to_view j = \<lparr>
     jv_id = j_id j, jv_command = j_command j, jv_repo = j_repo j,
     jv_status = status_slug (j_status j), jv_started = j_started j, jv_finished = j_finished j,
     jv_result = status_result (j_status j), jv_error = status_error (j_status j),
     jv_progress = j_progress j, jv_log_tail = j_log_tail j\<rparr>"

section \<open>The registry\<close>

record registry =
  r_jobs :: "job list"
  r_next_seq :: nat
  r_flags :: "nat \<Rightarrow> bool"

definition new_registry :: registry where
  "new_registry = \<lparr>r_jobs = [], r_next_seq = 0, r_flags = (\<lambda>_. False)\<rparr>"

definition get_job :: "job list \<Rightarrow> string \<Rightarrow> job option" where
  "get_job jobs i = find (\<lambda>j. j_id j = i) jobs"

definition insert_job :: "job \<Rightarrow> job list \<Rightarrow> job list" where
  "insert_job j jobs = filter (\<lambda>x. j_id x \<noteq> j_id j) jobs @ [j]"

definition update_job :: "string \<Rightarrow> (job \<Rightarrow> job) \<Rightarrow> registry \<Rightarrow> registry" where
  "update_job i f r = r\<lparr>r_jobs := map (\<lambda>j. if j_id j = i then f j else j) (r_jobs r)\<rparr>"

definition job_not_found :: "string \<Rightarrow> error" where
  "job_not_found i = NotFound (''job not found: '' @ i)"

text \<open>\<open>evict_finished\<close>: the oldest finished jobs beyond the cap.\<close>

definition evict_finished :: "job list \<Rightarrow> job list" where
  "evict_finished jobs =
     (let finished = map (\<lambda>j. (j_seq j, j_id j)) (filter (\<lambda>j. is_terminal (j_status j)) jobs)
      in if length finished \<le> max_finished then jobs
         else let gone = map snd (take (length finished - max_finished) (sort_key fst finished))
              in filter (\<lambda>j. j_id j \<notin> set gone) jobs)"

definition live_for :: "string \<Rightarrow> string \<Rightarrow> job \<Rightarrow> bool" where
  "live_for command repo j \<longleftrightarrow>
     j_command j = command \<and> j_repo j = Some repo \<and> \<not> is_terminal (j_status j)"

text \<open>\<open>active_in\<close>: the live job of lowest counter.\<close>

definition active_in :: "job list \<Rightarrow> string \<Rightarrow> string \<Rightarrow> string option" where
  "active_in jobs command repo =
     (case sort_key j_seq (filter (live_for command repo) jobs) of
        [] \<Rightarrow> None | j # _ \<Rightarrow> Some (j_id j))"

definition refuse_active :: "job list \<Rightarrow> string \<Rightarrow> string \<Rightarrow> error + unit" where
  "refuse_active jobs command repo =
     (case active_in jobs command repo of
        Some i \<Rightarrow> Inl (IndexRunning repo i) | None \<Rightarrow> Inr ())"

text \<open>\<open>new_job\<close>: the id and the timestamp may fail before the counter is taken.\<close>

definition mint_job ::
  "error + string \<Rightarrow> error + string \<Rightarrow> string \<Rightarrow> string option \<Rightarrow> registry \<Rightarrow> (error + job) \<times> registry" where
  "mint_job draw stamp command repo r =
     (case and_then draw (\<lambda>i. and_then stamp (\<lambda>started. Inr (i, started))) of
        Inl e \<Rightarrow> (Inl e, r)
      | Inr (i, started) \<Rightarrow>
          (Inr (new_job i command repo started (r_next_seq r)),
           r\<lparr>r_next_seq := Suc (r_next_seq r),
             r_flags := (r_flags r)(r_next_seq r := False)\<rparr>))"

definition add_job :: "job \<Rightarrow> registry \<Rightarrow> registry" where
  "add_job j r = r\<lparr>r_jobs := evict_finished (insert_job j (r_jobs r))\<rparr>"

text \<open>\<open>Registry::insert\<close> and \<open>insert_for_unless_active\<close>, answering the accepted id and the
  address of its cancel flag.\<close>

definition registry_insert ::
  "error + string \<Rightarrow> error + string \<Rightarrow> string \<Rightarrow> registry \<Rightarrow> (error + string \<times> nat) \<times> registry" where
  "registry_insert draw stamp command r =
     (case mint_job draw stamp command None r of
        (Inl e, r') \<Rightarrow> (Inl e, r')
      | (Inr j, r') \<Rightarrow> (Inr (j_id j, j_seq j), add_job j r'))"

definition insert_for_unless_active ::
  "error + string \<Rightarrow> error + string \<Rightarrow> string \<Rightarrow> string \<Rightarrow> registry \<Rightarrow> (error + string \<times> nat) \<times> registry" where
  "insert_for_unless_active draw stamp command repo r =
     (case mint_job draw stamp command (Some repo) r of
        (Inl e, r') \<Rightarrow> (Inl e, r')
      | (Inr j, r') \<Rightarrow>
          (case refuse_active (r_jobs r') command repo of
             Inl e \<Rightarrow> (Inl e, r')
           | Inr _ \<Rightarrow> (Inr (j_id j, j_seq j), add_job j r')))"

definition active_for :: "registry \<Rightarrow> string \<Rightarrow> string \<Rightarrow> string option" where
  "active_for r command repo = active_in (r_jobs r) command repo"

definition refuse_if_active :: "registry \<Rightarrow> string \<Rightarrow> string \<Rightarrow> error + unit" where
  "refuse_if_active r command repo = refuse_active (r_jobs r) command repo"

datatype cancel_outcome = OutcomeCancelled | OutcomeRequested

definition cancel_job :: "error + string \<Rightarrow> string \<Rightarrow> registry \<Rightarrow> (error + cancel_outcome) \<times> registry" where
  "cancel_job stamp i r =
     (case get_job (r_jobs r) i of
        None \<Rightarrow> (Inl (job_not_found i), r)
      | Some j \<Rightarrow>
          if is_terminal (j_status j)
          then (Inl (BadRequest (''job '' @ i @ '' already finished ('' @ status_slug (j_status j) @ '')'')), r)
          else let r1 = r\<lparr>r_flags := (r_flags r)(j_seq j := True)\<rparr>
               in if j_status j = Queued
                  then (case stamp of
                          Inl e \<Rightarrow> (Inl e, r1)
                        | Inr at \<Rightarrow> (Inr OutcomeCancelled,
                            update_job i (\<lambda>j. j\<lparr>j_finished := Some at, j_status := StatusCancelled,
                                                j_tx := StatusCancelled\<rparr>) r1))
                  else (Inr OutcomeRequested, r1))"

definition try_start :: "string \<Rightarrow> registry \<Rightarrow> bool \<times> registry" where
  "try_start i r =
     (case get_job (r_jobs r) i of
        None \<Rightarrow> (False, r)
      | Some j \<Rightarrow>
          if j_status j \<noteq> Queued \<or> r_flags r (j_seq j) then (False, r)
          else (True, update_job i (\<lambda>j. j\<lparr>j_status := Running, j_tx := Running\<rparr>) r))"

definition is_cancelled :: "registry \<Rightarrow> string \<Rightarrow> bool" where
  "is_cancelled r i =
     (case get_job (r_jobs r) i of None \<Rightarrow> False | Some j \<Rightarrow> r_flags r (j_seq j))"

definition set_progress :: "string \<Rightarrow> progress \<Rightarrow> registry \<Rightarrow> (error + unit) \<times> registry" where
  "set_progress i p r =
     (case get_job (r_jobs r) i of
        None \<Rightarrow> (Inl (job_not_found i), r)
      | Some _ \<Rightarrow> (Inr (), update_job i (\<lambda>j. j\<lparr>j_progress := Some p, j_progress_tx := Some p\<rparr>) r))"

definition push_log :: "string \<Rightarrow> string \<Rightarrow> registry \<Rightarrow> (error + unit) \<times> registry" where
  "push_log i line r =
     (case get_job (r_jobs r) i of
        None \<Rightarrow> (Inl (job_not_found i), r)
      | Some _ \<Rightarrow> (Inr (), update_job i (job_push_log line) r))"

text \<open>\<open>set_status\<close>: the timestamp is read before the table is locked; a terminal status is
  never left.\<close>

definition set_status :: "error + string \<Rightarrow> string \<Rightarrow> job_status \<Rightarrow> registry \<Rightarrow> (error + unit) \<times> registry" where
  "set_status stamp i status r =
     (case (if is_terminal status then and_then stamp (\<lambda>at. Inr (Some at)) else Inr None) of
        Inl e \<Rightarrow> (Inl e, r)
      | Inr finished \<Rightarrow>
          (case get_job (r_jobs r) i of
             None \<Rightarrow> (Inl (job_not_found i), r)
           | Some j \<Rightarrow>
               if is_terminal (j_status j) then (Inr (), r)
               else (Inr (), update_job i (\<lambda>j. j\<lparr>j_finished := finished, j_status := status,
                                                 j_tx := status\<rparr>) r)))"

definition view_job :: "registry \<Rightarrow> string \<Rightarrow> job_view option" where
  "view_job r i = map_option job_to_view (get_job (r_jobs r) i)"

text \<open>Newest first.\<close>

definition list_jobs :: "registry \<Rightarrow> job_view list" where
  "list_jobs r = map job_to_view (rev (sort_key j_seq (r_jobs r)))"

section \<open>What every operation keeps\<close>

definition last_n :: "nat \<Rightarrow> 'a list \<Rightarrow> 'a list" where
  "last_n n xs = drop (length xs - n) xs"

text \<open>At most one live job works on a repository under one command.\<close>

definition one_live :: "job list \<Rightarrow> bool" where
  "one_live jobs \<longleftrightarrow>
     (\<forall>j \<in> set jobs. \<forall>k \<in> set jobs. \<forall>command repo.
        live_for command repo j \<longrightarrow> live_for command repo k \<longrightarrow> j = k)"

definition job_ok :: "job \<Rightarrow> bool" where
  "job_ok j \<longleftrightarrow>
     j_tx j = j_status j \<and> j_progress_tx j = j_progress j \<and>
     (j_finished j = None \<longleftrightarrow> \<not> is_terminal (j_status j)) \<and>
     j_log_tail j = last_n log_tail_cap (j_sent j)"

definition registry_ok :: "registry \<Rightarrow> bool" where
  "registry_ok r \<longleftrightarrow>
     distinct (map j_id (r_jobs r)) \<and> distinct (map j_seq (r_jobs r)) \<and>
     (\<forall>j \<in> set (r_jobs r). job_ok j \<and> j_seq j < r_next_seq r) \<and>
     one_live (r_jobs r)"

lemma last_n_snoc:
  "last_n n (xs @ [x]) =
     (if n \<le> length (last_n n xs) then tl (last_n n xs) else last_n n xs) @ [x]" if "0 < n"
  using that
  by (cases "length xs < n") (auto simp: last_n_def Suc_diff_le drop_Suc tl_drop not_less)

lemma push_log_ok: "job_ok j \<Longrightarrow> job_ok (job_push_log line j)"
  by (auto simp: job_ok_def job_push_log_def Let_def last_n_snoc log_tail_cap_def)

lemma get_job_Some: "get_job jobs i = Some j \<Longrightarrow> j \<in> set jobs \<and> j_id j = i"
  by (auto simp: get_job_def find_Some_iff)

lemma get_job_unique:
  "distinct (map j_id jobs) \<Longrightarrow> j \<in> set jobs \<Longrightarrow> get_job jobs (j_id j) = Some j"
  by (induction jobs) (auto simp: get_job_def)

lemma one_live_map:
  assumes "\<And>j c p. live_for c p (f j) \<Longrightarrow> live_for c p j" "one_live jobs"
  shows "one_live (map f jobs)"
  using assms unfolding one_live_def by (auto, metis)

lemma one_live_filter: "one_live jobs \<Longrightarrow> one_live (filter P jobs)"
  by (simp add: one_live_def)

text \<open>A record rewritten in place keeps the table sound, if it keeps its identity and never
  comes back to life.\<close>

lemma update_job_ok:
  assumes ok: "registry_ok r"
    and same: "\<And>j. j_id (f j) = j_id j \<and> j_seq (f j) = j_seq j \<and> j_command (f j) = j_command j \<and>
                  j_repo (f j) = j_repo j"
    and good: "\<And>j. get_job (r_jobs r) i = Some j \<Longrightarrow> job_ok (f j)"
    and dead: "\<And>j. get_job (r_jobs r) i = Some j \<Longrightarrow> is_terminal (j_status j) \<Longrightarrow> is_terminal (j_status (f j))"
  shows "registry_ok (update_job i f r)"
proof -
  define g where "g j = (if get_job (r_jobs r) i = Some j then f j else j)" for j
  have ids: "distinct (map j_id (r_jobs r))" using ok by (simp add: registry_ok_def)
  have eq: "map (\<lambda>j. if j_id j = i then f j else j) (r_jobs r) = map g (r_jobs r)"
    using get_job_unique [OF ids] get_job_Some by (intro map_cong) (auto simp: g_def)
  have "live_for c p (g j) \<Longrightarrow> live_for c p j" for j c p
    using same [of j] dead [of j] by (auto simp: g_def live_for_def split: if_splits)
  then have "one_live (map g (r_jobs r))"
    using ok by (intro one_live_map) (simp_all add: registry_ok_def)
  moreover have "map j_id (map g (r_jobs r)) = map j_id (r_jobs r)"
    "map j_seq (map g (r_jobs r)) = map j_seq (r_jobs r)"
    using same by (simp_all add: g_def)
  moreover have "\<forall>j \<in> set (map g (r_jobs r)). job_ok j \<and> j_seq j < r_next_seq r"
    using ok same good by (auto simp: g_def registry_ok_def)
  ultimately show ?thesis
    using ok unfolding registry_ok_def update_job_def eq by (simp del: map_map)
qed

lemma evict_finished_filter:
  "\<exists>P. evict_finished jobs = filter P jobs \<and>
     (distinct (map j_id jobs) \<longrightarrow> (\<forall>j \<in> set jobs. \<not> is_terminal (j_status j) \<longrightarrow> P j))"
proof (cases "length (filter (\<lambda>j. is_terminal (j_status j)) jobs) \<le> max_finished")
  case True
  then show ?thesis by (intro exI [of _ "\<lambda>_. True"]) (simp add: evict_finished_def)
next
  case False
  let ?fin = "map (\<lambda>j. (j_seq j, j_id j)) (filter (\<lambda>j. is_terminal (j_status j)) jobs)"
  let ?gone = "map snd (take (length ?fin - max_finished) (sort_key fst ?fin))"
  have "set ?gone \<subseteq> snd ` set ?fin" by (auto dest!: in_set_takeD)
  then have gone: "set ?gone \<subseteq> j_id ` {j \<in> set jobs. is_terminal (j_status j)}" by auto
  have "j_id j \<notin> set ?gone"
    if "distinct (map j_id jobs)" "j \<in> set jobs" "\<not> is_terminal (j_status j)" for j
  proof
    assume "j_id j \<in> set ?gone"
    with gone obtain j' where "j' \<in> set jobs" "is_terminal (j_status j')" "j_id j' = j_id j" by auto
    with that show False by (auto simp: distinct_map inj_on_def)
  qed
  with False show ?thesis
    by (intro exI [of _ "\<lambda>j. j_id j \<notin> set ?gone"]) (simp add: evict_finished_def Let_def)
qed

lemma add_job_ok:
  assumes ok: "registry_ok r" and j: "job_ok j" "j_seq j < r_next_seq r"
    and new: "j_seq j \<notin> j_seq ` set (r_jobs r)"
    and free: "j_repo j = None \<or> (\<forall>x \<in> set (r_jobs r). \<not> live_for (j_command j) (the (j_repo j)) x)"
  shows "registry_ok (add_job j r)"
proof -
  let ?rest = "filter (\<lambda>x. j_id x \<noteq> j_id j) (r_jobs r)"
  have "one_live ?rest" using ok one_live_filter by (auto simp: registry_ok_def)
  moreover have "\<not> live_for c p x" if "live_for c p j" "x \<in> set (r_jobs r)" for c p x
    using free that by (auto simp: live_for_def)
  ultimately have live: "one_live (?rest @ [j])" by (auto simp: one_live_def)
  have ids: "distinct (map j_id (?rest @ [j]))" and seqs: "distinct (map j_seq (?rest @ [j]))"
    using ok new by (auto simp: registry_ok_def distinct_map_filter)
  obtain P where P: "evict_finished (?rest @ [j]) = filter P (?rest @ [j])"
    using evict_finished_filter by blast
  show ?thesis
    unfolding registry_ok_def add_job_def insert_job_def registry.simps registry.select_convs P
    using one_live_filter [OF live] distinct_map_filter [OF ids] distinct_map_filter [OF seqs]
      ok j by (auto simp: registry_ok_def)
qed

lemma active_in_None: "active_in jobs c p = None \<longleftrightarrow> (\<forall>j \<in> set jobs. \<not> live_for c p j)"
proof -
  have "sort_key j_seq (filter (live_for c p) jobs) = [] \<longleftrightarrow> filter (live_for c p) jobs = []"
    by (metis mset_sort mset_zero_iff)
  then show ?thesis by (auto simp: active_in_def filter_empty_conv split: list.splits)
qed

lemma active_in_Some:
  "active_in jobs c p = Some i \<Longrightarrow> \<exists>j \<in> set jobs. live_for c p j \<and> j_id j = i"
proof -
  assume "active_in jobs c p = Some i"
  then obtain j js where "sort_key j_seq (filter (live_for c p) jobs) = j # js" "j_id j = i"
    by (auto simp: active_in_def split: list.splits)
  then have "j \<in> set (sort_key j_seq (filter (live_for c p) jobs))" "j_id j = i" by auto
  then show ?thesis by auto
qed

lemma mint_job_Inr:
  "mint_job draw stamp c p r = (Inr j, r') \<Longrightarrow>
     (\<exists>i at. draw = Inr i \<and> stamp = Inr at \<and> j = new_job i c p at (r_next_seq r)) \<and>
     r' = r\<lparr>r_next_seq := Suc (r_next_seq r), r_flags := (r_flags r)(r_next_seq r := False)\<rparr>"
  by (auto simp: mint_job_def res_simps split: sum.splits)

lemma mint_job_Inl: "mint_job draw stamp c p r = (Inl e, r') \<Longrightarrow> r' = r"
  by (auto simp: mint_job_def split: sum.splits)

lemma mint_job_ok:
  assumes "registry_ok r" "mint_job draw stamp c p r = (Inr j, r')"
  shows "registry_ok r' \<and> job_ok j \<and> j_seq j < r_next_seq r' \<and> j_seq j \<notin> j_seq ` set (r_jobs r') \<and>
     j_command j = c \<and> j_repo j = p"
  using assms mint_job_Inr [OF assms(2)]
  by (auto simp: registry_ok_def job_ok_def new_job_def last_n_def intro: less_SucI)

text \<open>Every operation of the registry keeps it sound.\<close>

lemma registry_insert_ok: "registry_ok r \<Longrightarrow> registry_ok (snd (registry_insert draw stamp c r))"
  by (auto simp: registry_insert_def split: prod.splits sum.splits
      dest: mint_job_Inl mint_job_ok intro!: add_job_ok)

lemma insert_for_ok: "registry_ok r \<Longrightarrow> registry_ok (snd (insert_for_unless_active draw stamp c p r))"
  by (auto simp: insert_for_unless_active_def refuse_active_def active_in_None
      split: prod.splits sum.splits option.splits
      dest: mint_job_Inl mint_job_ok intro!: add_job_ok)

lemma flags_ok [simp]: "registry_ok (r\<lparr>r_flags := f\<rparr>) = registry_ok r"
  by (simp add: registry_ok_def)

lemma get_job_ok: "registry_ok r \<Longrightarrow> get_job (r_jobs r) i = Some j \<Longrightarrow> job_ok j"
  using get_job_Some by (fastforce simp: registry_ok_def)

lemma cancel_job_ok: "registry_ok r \<Longrightarrow> registry_ok (snd (cancel_job stamp i r))"
  by (auto simp: cancel_job_def Let_def split: option.splits sum.splits intro!: update_job_ok)
     (auto simp: job_ok_def dest: get_job_ok)

lemma try_start_ok:
  assumes "registry_ok r"
  shows "registry_ok (snd (try_start i r))"
proof -
  have "registry_ok (update_job i (\<lambda>j. j\<lparr>j_status := Running, j_tx := Running\<rparr>) r)"
    if "get_job (r_jobs r) i = Some j" "j_status j = Queued" for j
    using assms that get_job_ok [OF assms that(1)]
    by (intro update_job_ok) (auto simp: job_ok_def)
  then show ?thesis using assms by (simp add: try_start_def split: option.splits)
qed

lemma set_progress_ok: "registry_ok r \<Longrightarrow> registry_ok (snd (set_progress i p r))"
  by (auto simp: set_progress_def split: option.splits intro!: update_job_ok)
     (auto simp: job_ok_def dest!: get_job_ok)

lemma push_log_registry_ok: "registry_ok r \<Longrightarrow> registry_ok (snd (push_log i line r))"
  by (auto simp: push_log_def split: option.splits intro!: update_job_ok push_log_ok dest: get_job_ok)
     (auto simp: job_push_log_def Let_def)

lemma set_status_ok:
  assumes "registry_ok r"
  shows "registry_ok (snd (set_status stamp i status r))"
proof -
  have "registry_ok (update_job i (\<lambda>j. j\<lparr>j_finished := finished, j_status := status, j_tx := status\<rparr>) r)"
    if "get_job (r_jobs r) i = Some j" "\<not> is_terminal (j_status j)"
      "finished = None \<longleftrightarrow> \<not> is_terminal status" for j finished
    using assms that get_job_ok [OF assms that(1)]
    by (intro update_job_ok) (auto simp: job_ok_def)
  then show ?thesis
    using assms by (auto simp: set_status_def res_simps split: sum.splits option.splits)
qed

section \<open>Eviction\<close>

lemma evict_finished_spec:
  assumes ids: "distinct (map j_id jobs)" and seqs: "distinct (map j_seq jobs)"
  shows "length (filter (\<lambda>j. is_terminal (j_status j)) (evict_finished jobs)) \<le> max_finished"
    "j \<in> set jobs \<Longrightarrow> j \<notin> set (evict_finished jobs) \<Longrightarrow>
       is_terminal (j_status j) \<and>
       (\<forall>k \<in> set (evict_finished jobs). is_terminal (j_status k) \<longrightarrow> j_seq j < j_seq k)"
proof -
  let ?fin = "filter (\<lambda>j. is_terminal (j_status j)) jobs"
  let ?key = "\<lambda>j. (j_seq j, j_id j)"
  define m where "m = length ?fin - max_finished"
  define S where "S = sort_key fst (map ?key ?fin)"
  let ?gone = "map snd (take m S)"
  show "length (filter (\<lambda>j. is_terminal (j_status j)) (evict_finished jobs)) \<le> max_finished"
  proof (cases "length ?fin \<le> max_finished")
    case True
    then show ?thesis by (simp add: evict_finished_def)
  next
    case False
    let ?kept = "filter (\<lambda>j. is_terminal (j_status j)) (filter (\<lambda>j. j_id j \<notin> set ?gone) jobs)"
    have "set (map j_id ?kept) \<subseteq> snd ` set (drop m S)"
    proof
      fix x assume "x \<in> set (map j_id ?kept)"
      then obtain j where j: "j \<in> set jobs" "is_terminal (j_status j)" "j_id j \<notin> set ?gone" "x = j_id j"
        by auto
      then have "?key j \<in> set S" by (simp add: S_def)
      moreover have "?key j \<notin> set (take m S)" using j(3) by (metis image_eqI list.set_map snd_conv)
      ultimately have "?key j \<in> set (drop m S)" by (metis append_take_drop_id set_append UnE)
      with j(4) show "x \<in> snd ` set (drop m S)" by force
    qed
    then have "card (set (map j_id ?kept)) \<le> card (snd ` set (drop m S))"
      by (intro card_mono) simp_all
    also have "\<dots> \<le> length (drop m S)" by (metis card_image_le card_length finite_set order_trans)
    also have "\<dots> = max_finished" using False by (simp add: S_def m_def)
    finally have "card (set (map j_id ?kept)) \<le> max_finished" .
    moreover have "distinct (map j_id ?kept)" using ids by (intro distinct_map_filter) 
    ultimately have "length ?kept \<le> max_finished" by (metis distinct_card length_map)
    with False show ?thesis by (simp add: evict_finished_def Let_def S_def m_def)
  qed
  assume j: "j \<in> set jobs" "j \<notin> set (evict_finished jobs)"
  then have evict: "evict_finished jobs = filter (\<lambda>j. j_id j \<notin> set ?gone) jobs"
    by (auto simp: evict_finished_def Let_def S_def m_def split: if_splits)
  with j have "j_id j \<in> set ?gone" by simp
  then obtain q where q: "(q, j_id j) \<in> set (take m S)" by auto
  then have "(q, j_id j) \<in> ?key ` set ?fin" by (auto dest!: in_set_takeD simp: S_def)
  then obtain j' where j': "j' \<in> set jobs" "is_terminal (j_status j')" "j_id j' = j_id j" "j_seq j' = q"
    by auto
  have inj: "inj_on j_id (set jobs)" "inj_on j_seq (set jobs)"
    using ids seqs by (simp_all add: distinct_map)
  have "j' = j" by (rule inj_onD [OF inj(1) j'(3) j'(1) j(1)])
  with j' have jq: "is_terminal (j_status j)" "j_seq j = q" by simp_all
  have "j_seq j < j_seq k" if k: "k \<in> set (evict_finished jobs)" "is_terminal (j_status k)" for k
  proof -
    have kS: "?key k \<in> set S" using k evict by (simp add: S_def)
    have "j_id k \<notin> set ?gone" using k(1) evict by simp
    then have "?key k \<notin> set (take m S)" by (metis image_eqI list.set_map snd_conv)
    with kS have "?key k \<in> set (drop m S)" by (metis append_take_drop_id set_append UnE)
    moreover have "sorted (map fst (take m S) @ map fst (drop m S))"
      unfolding map_append [symmetric] append_take_drop_id S_def by simp
    then have "\<forall>x \<in> set (take m S). \<forall>y \<in> set (drop m S). fst x \<le> fst y"
      unfolding sorted_append by auto
    ultimately have "q \<le> j_seq k" using q by (metis fst_conv)
    moreover have "j_seq k \<noteq> q"
    proof
      assume "j_seq k = q"
      then have "j_seq k = j_seq j" using jq by simp
      moreover have "k \<in> set jobs" using k(1) unfolding evict by simp
      ultimately have "k = j" using inj_onD [OF inj(2)] j(1) by blast
      with k(1) j(2) show False by simp
    qed
    ultimately show ?thesis using jq by simp
  qed
  with jq show "is_terminal (j_status j) \<and>
       (\<forall>k \<in> set (evict_finished jobs). is_terminal (j_status k) \<longrightarrow> j_seq j < j_seq k)" by blast
qed

section \<open>Properties\<close>



end
