(* ===== verification/Job_Worker.thy ===== *)
theory Job_Worker
  imports Job_Registry
begin

text \<open>
  The workers of the background jobs (\<open>src/serve/jobs/worker.rs\<close>) and how they interleave:
  every accepted job has a task that waits for the single write permit (if it mutates), flips
  its record to running, runs the body and records the outcome. The permit is
  \<open>Semaphore::new(1)\<close> of the server's state, which request handlers take as well
  (\<open>guard_mutating\<close> in \<open>src/serve/routes.rs\<close>); of the semaphore the model keeps only that
  its one permit has at most one holder, so the order in which it wakes waiting tasks is left
  open. A body is whatever result it hands back. One event is one hold of the registry's lock
  or one change of the permit, in any order the tasks may take them.
\<close>

section \<open>Tasks and the permit\<close>

datatype phase = Waiting | Ready | Working | Leaving | Ended

record worker =
  w_id :: string
  w_flag :: nat
  w_mutating :: bool
  w_phase :: phase

datatype holder = Free | Task nat | Request

record system =
  sys_registry :: registry
  sys_workers :: "worker list"
  sys_permit :: holder
  sys_ran :: "nat list"

definition started_server :: system where
  "started_server = \<lparr>sys_registry = new_registry, sys_workers = [], sys_permit = Free, sys_ran = []\<rparr>"

datatype body_result = Returned "error + json" | Panicked string

text \<open>The match of \<open>run\<close> on what the blocking task handed back.\<close>

fun outcome_status :: "(sqlite_error \<Rightarrow> string) \<Rightarrow> body_result \<Rightarrow> job_status" where
  "outcome_status sqlite_text (Returned (Inr v)) = Done v"
| "outcome_status sqlite_text (Returned (Inl e)) =
     (if e = Cancelled then StatusCancelled else Failed (job_error_of sqlite_text e))"
| "outcome_status sqlite_text (Panicked m) =
     Failed (internal_job_error (''job task panicked: '' @ m))"

definition in_phase :: "system \<Rightarrow> nat \<Rightarrow> phase \<Rightarrow> bool" where
  "in_phase s n p \<longleftrightarrow> n < length (sys_workers s) \<and> w_phase (sys_workers s ! n) = p"

definition move_to :: "phase \<Rightarrow> nat \<Rightarrow> system \<Rightarrow> system" where
  "move_to p n s = s\<lparr>sys_workers := (sys_workers s)[n := (sys_workers s ! n)\<lparr>w_phase := p\<rparr>]\<rparr>"

section \<open>The steps of a task\<close>

text \<open>\<open>spawn_job_for\<close> and \<open>spawn_registered\<close>: the job is registered, refused when the
  repository already has a live one, and its task starts with its own copy of the flag.\<close>

definition spawn_job_for ::
  "error + string \<Rightarrow> error + string \<Rightarrow> string \<Rightarrow> string option \<Rightarrow> bool \<Rightarrow> system \<Rightarrow> (error + string) \<times> system" where
  "spawn_job_for draw stamp command repo mutating s =
     (case (case repo of
              Some p \<Rightarrow> insert_for_unless_active draw stamp command p (sys_registry s)
            | None \<Rightarrow> registry_insert draw stamp command (sys_registry s)) of
        (Inl e, r) \<Rightarrow> (Inl e, s\<lparr>sys_registry := r\<rparr>)
      | (Inr (i, q), r) \<Rightarrow>
          (Inr i, s\<lparr>sys_registry := r,
                    sys_workers := sys_workers s @
                      [\<lparr>w_id = i, w_flag = q, w_mutating = mutating, w_phase = Waiting\<rparr>]\<rparr>))"

definition task_acquire :: "nat \<Rightarrow> system \<Rightarrow> system option" where
  "task_acquire n s =
     (if \<not> in_phase s n Waiting then None
      else if \<not> w_mutating (sys_workers s ! n) then Some (move_to Ready n s)
      else if sys_permit s = Free then Some ((move_to Ready n s)\<lparr>sys_permit := Task n\<rparr>)
      else None)"

definition task_permit_closed :: "nat \<Rightarrow> string \<Rightarrow> error + string \<Rightarrow> system \<Rightarrow> system option" where
  "task_permit_closed n why stamp s =
     (if in_phase s n Waiting \<and> w_mutating (sys_workers s ! n)
      then Some ((move_to Ended n s)\<lparr>sys_registry :=
             snd (set_status stamp (w_id (sys_workers s ! n))
                    (Failed (internal_job_error (''write permit unavailable: '' @ why)))
                    (sys_registry s))\<rparr>)
      else None)"

text \<open>The check before the body: the task's own flag, then \<open>try_start\<close>.\<close>

definition task_start :: "nat \<Rightarrow> system \<Rightarrow> system option" where
  "task_start n s =
     (if \<not> in_phase s n Ready then None
      else if r_flags (sys_registry s) (w_flag (sys_workers s ! n)) then Some (move_to Leaving n s)
      else (case try_start (w_id (sys_workers s ! n)) (sys_registry s) of
              (False, r) \<Rightarrow> Some ((move_to Leaving n s)\<lparr>sys_registry := r\<rparr>)
            | (True, r) \<Rightarrow> Some ((move_to Working n s)\<lparr>sys_registry := r, sys_ran := sys_ran s @ [n]\<rparr>)))"

definition task_finish ::
  "(sqlite_error \<Rightarrow> string) \<Rightarrow> nat \<Rightarrow> body_result \<Rightarrow> error + string \<Rightarrow> system \<Rightarrow> system option" where
  "task_finish sqlite_text n res stamp s =
     (if in_phase s n Working
      then Some ((move_to Leaving n s)\<lparr>sys_registry :=
             snd (set_status stamp (w_id (sys_workers s ! n)) (outcome_status sqlite_text res)
                    (sys_registry s))\<rparr>)
      else None)"

text \<open>\<open>run\<close> returns and drops its permit.\<close>

definition task_leave :: "nat \<Rightarrow> system \<Rightarrow> system option" where
  "task_leave n s =
     (if in_phase s n Leaving
      then Some ((move_to Ended n s)\<lparr>sys_permit :=
             (if w_mutating (sys_workers s ! n) then Free else sys_permit s)\<rparr>)
      else None)"

text \<open>\<open>RegistryProgressSink\<close>: the running body reports into its own record.\<close>

definition sink_progress :: "nat \<Rightarrow> 64 word \<Rightarrow> 64 word \<Rightarrow> system \<Rightarrow> system option" where
  "sink_progress n done_units all_units s =
     (if in_phase s n Working
      then Some (s\<lparr>sys_registry := snd (set_progress (w_id (sys_workers s ! n))
             \<lparr>pr_done = done_units, pr_total = all_units, pr_unit = ''files''\<rparr> (sys_registry s))\<rparr>)
      else None)"

definition sink_log :: "nat \<Rightarrow> string \<Rightarrow> system \<Rightarrow> system option" where
  "sink_log n line s =
     (if in_phase s n Working
      then Some (s\<lparr>sys_registry := snd (push_log (w_id (sys_workers s ! n)) line (sys_registry s))\<rparr>)
      else None)"

text \<open>\<open>guard_mutating\<close>: a request handler never waits for the permit.\<close>

definition request_acquire :: "system \<Rightarrow> system option" where
  "request_acquire s = (if sys_permit s = Free then Some (s\<lparr>sys_permit := Request\<rparr>) else None)"

definition request_release :: "system \<Rightarrow> system option" where
  "request_release s = (if sys_permit s = Request then Some (s\<lparr>sys_permit := Free\<rparr>) else None)"

datatype event =
    Spawn "error + string" "error + string" string "string option" bool
  | Acquire nat
  | PermitClosed nat string "error + string"
  | Start nat
  | Finish nat body_result "error + string"
  | Leave nat
  | Progressed nat "64 word" "64 word"
  | Logged nat string
  | CancelRequest string "error + string"
  | RequestTakes
  | RequestGives

fun sys_step :: "(sqlite_error \<Rightarrow> string) \<Rightarrow> event \<Rightarrow> system \<Rightarrow> system option" where
  "sys_step sqlite_text (Spawn draw stamp command repo mutating) s =
     Some (snd (spawn_job_for draw stamp command repo mutating s))"
| "sys_step sqlite_text (Acquire n) s = task_acquire n s"
| "sys_step sqlite_text (PermitClosed n why stamp) s = task_permit_closed n why stamp s"
| "sys_step sqlite_text (Start n) s = task_start n s"
| "sys_step sqlite_text (Finish n res stamp) s = task_finish sqlite_text n res stamp s"
| "sys_step sqlite_text (Leave n) s = task_leave n s"
| "sys_step sqlite_text (Progressed n done_units all_units) s = sink_progress n done_units all_units s"
| "sys_step sqlite_text (Logged n line) s = sink_log n line s"
| "sys_step sqlite_text (CancelRequest i stamp) s =
     Some (s\<lparr>sys_registry := snd (cancel_job stamp i (sys_registry s))\<rparr>)"
| "sys_step sqlite_text RequestTakes s = request_acquire s"
| "sys_step sqlite_text RequestGives s = request_release s"

text \<open>What a system may become, by any sequence of events.\<close>

inductive sys_steps :: "(sqlite_error \<Rightarrow> string) \<Rightarrow> system \<Rightarrow> system \<Rightarrow> bool" for sqlite_text where
  stay: "sys_steps sqlite_text s s"
| step: "sys_steps sqlite_text s t \<Longrightarrow> sys_step sqlite_text e t = Some u \<Longrightarrow> sys_steps sqlite_text s u"

lemma sys_steps_trans: "sys_steps tx s t \<Longrightarrow> sys_steps tx t u \<Longrightarrow> sys_steps tx s u"
  by (rotate_tac, induction rule: sys_steps.induct) (auto intro: sys_steps.step)

section \<open>How the registry's operations move the records\<close>

fun status_rank :: "job_status \<Rightarrow> nat" where
  "status_rank Queued = 0"
| "status_rank Running = 1"
| "status_rank _ = 2"

text \<open>A record keeps its identity, and its status only advances.\<close>

definition advances :: "job \<Rightarrow> job \<Rightarrow> bool" where
  "advances j k \<longleftrightarrow>
     j_id k = j_id j \<and> j_seq k = j_seq j \<and> j_command k = j_command j \<and> j_repo k = j_repo j \<and>
     j_started k = j_started j \<and>
     (j_status k = j_status j \<and> j_finished k = j_finished j \<or>
      status_rank (j_status j) < status_rank (j_status k))"

definition evolves :: "registry \<Rightarrow> registry \<Rightarrow> bool" where
  "evolves r r' \<longleftrightarrow>
     r_next_seq r \<le> r_next_seq r' \<and>
     (\<forall>q < r_next_seq r. r_flags r q \<longrightarrow> r_flags r' q) \<and>
     (\<forall>k \<in> set (r_jobs r'). j_seq k < r_next_seq r \<longrightarrow> (\<exists>j \<in> set (r_jobs r). advances j k))"

lemma advances_refl [simp]: "advances j j"
  by (simp add: advances_def)

lemma advances_trans: "advances j k \<Longrightarrow> advances k l \<Longrightarrow> advances j l"
  by (auto simp: advances_def)

lemma status_rank_terminal: "is_terminal st \<longleftrightarrow> status_rank st = 2"
  by (cases st) auto

lemma status_rank_le: "status_rank st \<le> 2"
  by (cases st) auto

lemma advances_terminal:
  "advances j k \<Longrightarrow> is_terminal (j_status j) \<Longrightarrow> j_status k = j_status j \<and> j_finished k = j_finished j"
  using status_rank_le [of "j_status k"] by (auto simp: advances_def status_rank_terminal)

lemma evolves_refl [simp]: "evolves r r"
  unfolding evolves_def using advances_refl by blast

lemma evolves_trans:
  assumes "evolves a b" "evolves b c"
  shows "evolves a c"
proof -
  have "\<exists>j \<in> set (r_jobs a). advances j l" if "l \<in> set (r_jobs c)" "j_seq l < r_next_seq a" for l
  proof -
    have "j_seq l < r_next_seq b" using that(2) assms(1) by (simp add: evolves_def)
    with that(1) assms(2) obtain k where k: "k \<in> set (r_jobs b)" "advances k l"
      by (auto simp: evolves_def)
    then have "j_seq k < r_next_seq a" using that(2) by (simp add: advances_def)
    with k(1) assms(1) obtain j where "j \<in> set (r_jobs a)" "advances j k" by (auto simp: evolves_def)
    with k(2) show ?thesis using advances_trans by blast
  qed
  then show ?thesis using assms by (auto simp: evolves_def)
qed

lemma evolves_same:
  assumes "r_next_seq r \<le> r_next_seq r'" "\<And>q. q < r_next_seq r \<Longrightarrow> r_flags r q \<Longrightarrow> r_flags r' q"
    "\<And>k. k \<in> set (r_jobs r') \<Longrightarrow> j_seq k < r_next_seq r \<Longrightarrow> k \<in> set (r_jobs r)"
  shows "evolves r r'"
  unfolding evolves_def using assms advances_refl by blast

lemma evolves_update:
  assumes "distinct (map j_id (r_jobs r))"
    "\<And>j. get_job (r_jobs r) i = Some j \<Longrightarrow> advances j (f j)"
  shows "evolves r (update_job i f r)"
proof -
  have "advances j (if j_id j = i then f j else j)" if "j \<in> set (r_jobs r)" for j
    using assms(2) [of j] get_job_unique [OF assms(1) that] by (cases "j_id j = i") auto
  then have "\<forall>k \<in> (\<lambda>j. if j_id j = i then f j else j) ` set (r_jobs r). \<exists>j \<in> set (r_jobs r). advances j k"
    by blast
  then show ?thesis unfolding evolves_def update_job_def by simp
qed

lemma evolves_cancel:
  assumes "distinct (map j_id (r_jobs r))"
  shows "evolves r (snd (cancel_job stamp i r))"
proof -
  let ?r = "\<lambda>j. r\<lparr>r_flags := (r_flags r)(j_seq j := True)\<rparr>"
  have flagged: "evolves r (?r j)" for j by (rule evolves_same) auto
  have "evolves (?r j) (update_job i (\<lambda>j. j\<lparr>j_finished := Some at, j_status := StatusCancelled,
          j_tx := StatusCancelled\<rparr>) (?r j))"
    if "get_job (r_jobs r) i = Some j" "j_status j = Queued" for j at
    using assms that by (intro evolves_update) (auto simp: advances_def)
  then have "evolves r (update_job i (\<lambda>j. j\<lparr>j_finished := Some at, j_status := StatusCancelled,
          j_tx := StatusCancelled\<rparr>) (?r j))"
    if "get_job (r_jobs r) i = Some j" "j_status j = Queued" for j at
    using that evolves_trans [OF flagged] by blast
  then show ?thesis
    using flagged by (auto simp: cancel_job_def Let_def split: option.splits sum.splits)
qed

lemma evolves_try_start:
  assumes "distinct (map j_id (r_jobs r))"
  shows "evolves r (snd (try_start i r))"
proof -
  have "evolves r (update_job i (\<lambda>j. j\<lparr>j_status := Running, j_tx := Running\<rparr>) r)"
    if "get_job (r_jobs r) i = Some j" "j_status j = Queued" for j
    using assms that by (intro evolves_update) (auto simp: advances_def)
  then show ?thesis by (auto simp: try_start_def split: option.splits)
qed

lemma evolves_set_status:
  assumes "distinct (map j_id (r_jobs r))" "is_terminal status"
  shows "evolves r (snd (set_status stamp i status r))"
proof -
  have "status_rank (j_status j) < status_rank status" if "\<not> is_terminal (j_status j)" for j
    using that assms(2) status_rank_le [of "j_status j"] by (simp add: status_rank_terminal)
  then have "evolves r (update_job i (\<lambda>j. j\<lparr>j_finished := at, j_status := status, j_tx := status\<rparr>) r)"
    if "get_job (r_jobs r) i = Some j" "\<not> is_terminal (j_status j)" for j at
    using assms that by (intro evolves_update) (auto simp: advances_def)
  then show ?thesis
    using assms by (auto simp: set_status_def res_simps split: sum.splits option.splits)
qed

lemma evolves_set_progress:
  assumes "distinct (map j_id (r_jobs r))"
  shows "evolves r (snd (set_progress i p r))"
  using evolves_update [OF assms, of i "\<lambda>j. j\<lparr>j_progress := Some p, j_progress_tx := Some p\<rparr>"]
  by (auto simp: set_progress_def advances_def split: option.splits)

lemma evolves_push_log:
  assumes "distinct (map j_id (r_jobs r))"
  shows "evolves r (snd (push_log i line r))"
  using evolves_update [OF assms, of i "job_push_log line"]
  by (auto simp: push_log_def job_push_log_def Let_def advances_def split: option.splits)

lemma evolves_add:
  assumes "mint_job draw stamp c p r = (Inr j, r')" "\<forall>x \<in> set (r_jobs r). j_seq x < r_next_seq r"
  shows "evolves r r' \<and> evolves r (add_job j r')"
proof -
  note new = conjunct1 [OF mint_job_Inr [OF assms(1)]] conjunct2 [OF mint_job_Inr [OF assms(1)]]
  have r': "evolves r r'" unfolding new(2) by (rule evolves_same) auto
  obtain P where P: "evict_finished (insert_job j (r_jobs r)) = filter P (insert_job j (r_jobs r))"
    using evict_finished_filter by blast
  have "k \<in> set (r_jobs r)" if "k \<in> set (r_jobs (add_job j r'))" "j_seq k < r_next_seq r" for k
  proof -
    have "r_jobs r' = r_jobs r" "j_seq j = r_next_seq r" using new by (auto simp: new_job_def)
    then have "k \<in> set (filter P (insert_job j (r_jobs r)))" "k \<noteq> j"
      using that P by (auto simp: add_job_def)
    then show ?thesis by (auto simp: insert_job_def split: if_splits)
  qed
  then have "evolves r (add_job j r')"
    using r' by (intro evolves_same) (auto simp: add_job_def evolves_def)
  with r' show ?thesis by blast
qed

section \<open>The invariant\<close>

lemma move_to_simps [simp]:
  "sys_registry (move_to p n s) = sys_registry s"
  "sys_permit (move_to p n s) = sys_permit s"
  "sys_ran (move_to p n s) = sys_ran s"
  "length (sys_workers (move_to p n s)) = length (sys_workers s)"
  by (simp_all add: move_to_def)

lemma move_to_fields [simp]:
  "m < length (sys_workers s) \<Longrightarrow> w_flag (sys_workers (move_to p n s) ! m) = w_flag (sys_workers s ! m)"
  "m < length (sys_workers s) \<Longrightarrow> w_id (sys_workers (move_to p n s) ! m) = w_id (sys_workers s ! m)"
  "m < length (sys_workers s) \<Longrightarrow> w_mutating (sys_workers (move_to p n s) ! m) = w_mutating (sys_workers s ! m)"
  "m < length (sys_workers s) \<Longrightarrow>
     w_phase (sys_workers (move_to p n s) ! m) = (if m = n then p else w_phase (sys_workers s ! m))"
  by (cases "m = n"; simp add: move_to_def)+

lemma move_to_maps [simp]:
  "map w_flag (sys_workers (move_to p n s)) = map w_flag (sys_workers s)"
  "map w_id (sys_workers (move_to p n s)) = map w_id (sys_workers s)"
  by (rule nth_equalityI; simp)+

text \<open>What a registration does to the table, refused or not.\<close>

lemma registered:
  assumes "registry_ok r" "x = registry_insert draw stamp c r \<or> x = insert_for_unless_active draw stamp c p r"
  shows "registry_ok (snd x) \<and> evolves r (snd x) \<and>
     (\<forall>i q. fst x = Inr (i, q) \<longrightarrow> q = r_next_seq r \<and> r_next_seq (snd x) = Suc q \<and>
        (\<forall>k \<in> set (r_jobs (snd x)). k \<in> set (r_jobs r) \<or> j_id k = i \<and> j_seq k = q)) \<and>
     (\<forall>e. fst x = Inl e \<longrightarrow> r_jobs (snd x) = r_jobs r)"
proof -
  have seqs: "\<forall>x \<in> set (r_jobs r). j_seq x < r_next_seq r" using assms(1) by (simp add: registry_ok_def)
  have add: "r_jobs (add_job j r') = filter P (insert_job j (r_jobs r)) \<Longrightarrow> r_jobs r' = r_jobs r \<Longrightarrow>
      \<forall>k \<in> set (r_jobs (add_job j r')). k \<in> set (r_jobs r) \<or> k = j" for j r' P
    by (auto simp: insert_job_def split: if_splits)
  have minted: "evolves r (add_job j r') \<and> evolves r r' \<and> r_jobs r' = r_jobs r \<and>
      r_next_seq r' = Suc (r_next_seq r) \<and> j_seq j = r_next_seq r \<and>
      (\<forall>k \<in> set (r_jobs (add_job j r')). k \<in> set (r_jobs r) \<or> k = j)"
    if m: "mint_job draw stamp c p r = (Inr j, r')" for j r' p
  proof -
    have same: "r_jobs r' = r_jobs r" "r_next_seq r' = Suc (r_next_seq r)" "j_seq j = r_next_seq r"
      using mint_job_Inr [OF m] by (auto simp: new_job_def)
    obtain P where "evict_finished (insert_job j (r_jobs r)) = filter P (insert_job j (r_jobs r))"
      using evict_finished_filter by blast
    then have "\<forall>k \<in> set (r_jobs (add_job j r')). k \<in> set (r_jobs r) \<or> k = j"
      using same by (intro add) (simp_all add: add_job_def)
    with evolves_add [OF m seqs] same show ?thesis by blast
  qed
  have next_same: "r_next_seq (add_job j r') = r_next_seq r'" for j r' by (simp add: add_job_def)
  have one: ?thesis if x: "x = registry_insert draw stamp c r"
  proof (cases "mint_job draw stamp c None r")
    case (Pair a r')
    show ?thesis
    proof (cases a)
      case (Inl e)
      with Pair x assms(1) mint_job_Inl [of draw stamp c None r e r'] show ?thesis
        by (auto simp: registry_insert_def)
    next
      case (Inr j)
      with Pair have m: "mint_job draw stamp c None r = (Inr j, r')" by simp
      have "registry_ok (snd x)" using registry_insert_ok [OF assms(1)] x by simp
      moreover have "x = (Inr (j_id j, j_seq j), add_job j r')" using x m by (simp add: registry_insert_def)
      ultimately show ?thesis using minted [OF m] next_same by fastforce
    qed
  qed
  have two: ?thesis if x: "x = insert_for_unless_active draw stamp c p r"
  proof (cases "mint_job draw stamp c (Some p) r")
    case (Pair a r')
    show ?thesis
    proof (cases a)
      case (Inl e)
      with Pair x assms(1) mint_job_Inl [of draw stamp c "Some p" r e r'] show ?thesis
        by (auto simp: insert_for_unless_active_def)
    next
      case (Inr j)
      with Pair have m: "mint_job draw stamp c (Some p) r = (Inr j, r')" by simp
      have "registry_ok (snd x)" using insert_for_ok [OF assms(1)] x by simp
      moreover have "x = (case refuse_active (r_jobs r') c p of
          Inl e \<Rightarrow> (Inl e, r') | Inr _ \<Rightarrow> (Inr (j_id j, j_seq j), add_job j r'))"
        using x m by (simp add: insert_for_unless_active_def)
      ultimately show ?thesis using minted [OF m] next_same
        by (cases "refuse_active (r_jobs r') c p") fastforce+
    qed
  qed
  from assms(2) one two show ?thesis by blast
qed

text \<open>The registry stays sound under every event, and its records only advance.\<close>

lemma registry_distinct: "registry_ok r \<Longrightarrow> distinct (map j_id (r_jobs r))"
  by (simp add: registry_ok_def)

lemma outcome_terminal [simp]: "is_terminal (outcome_status sqlite_text res)"
  by (cases "(sqlite_text, res)" rule: outcome_status.cases) auto

lemma spawn_cases:
  obtains (refused) e r where
    "spawn_job_for draw stamp c repo mut s = (Inl e, s\<lparr>sys_registry := r\<rparr>)"
    "registry_ok (sys_registry s) \<Longrightarrow> registry_ok r \<and> evolves (sys_registry s) r \<and>
       r_jobs r = r_jobs (sys_registry s)"
  | (accepted) i r where
    "spawn_job_for draw stamp c repo mut s = (Inr i, s\<lparr>sys_registry := r, sys_workers := sys_workers s @
       [\<lparr>w_id = i, w_flag = r_next_seq (sys_registry s), w_mutating = mut, w_phase = Waiting\<rparr>]\<rparr>)"
    "registry_ok (sys_registry s) \<Longrightarrow> registry_ok r \<and> evolves (sys_registry s) r \<and>
       r_next_seq r = Suc (r_next_seq (sys_registry s)) \<and>
       (\<forall>k \<in> set (r_jobs r). k \<in> set (r_jobs (sys_registry s)) \<or>
          j_id k = i \<and> j_seq k = r_next_seq (sys_registry s))"
proof -
  define x where "x = (case repo of
              Some p \<Rightarrow> insert_for_unless_active draw stamp c p (sys_registry s)
            | None \<Rightarrow> registry_insert draw stamp c (sys_registry s))"
  obtain y r where x: "x = (y, r)" by (cases x)
  have known: "registry_ok (sys_registry s) \<Longrightarrow> registry_ok r \<and> evolves (sys_registry s) r \<and>
     (\<forall>i q. y = Inr (i, q) \<longrightarrow> q = r_next_seq (sys_registry s) \<and> r_next_seq r = Suc q \<and>
        (\<forall>k \<in> set (r_jobs r). k \<in> set (r_jobs (sys_registry s)) \<or> j_id k = i \<and> j_seq k = q)) \<and>
     (\<forall>e. y = Inl e \<longrightarrow> r_jobs r = r_jobs (sys_registry s))"
    using registered [of "sys_registry s" x draw stamp c "the repo"] x
    by (cases repo) (auto simp: x_def)
  have seq: "q = r_next_seq (sys_registry s)" if "y = Inr (i, q)" for i q
    using x that by (auto simp: x_def registry_insert_def insert_for_unless_active_def
      split: option.splits prod.splits sum.splits dest!: mint_job_Inr simp: new_job_def)
  show thesis
  proof (cases y)
    case (Inl e)
    then show thesis using known x by (intro refused [of e r]) (auto simp: spawn_job_for_def x_def [symmetric])
  next
    case (Inr iq)
    obtain i q where iq: "iq = (i, q)" by (cases iq)
    then show thesis using known x Inr seq [of i q]
      by (intro accepted [of i r]) (auto simp: spawn_job_for_def x_def [symmetric])
  qed
qed

lemma step_registry:
  assumes ok: "registry_ok (sys_registry s)" and step: "sys_step sqlite_text e s = Some t"
  shows "registry_ok (sys_registry t) \<and> evolves (sys_registry s) (sys_registry t)"
proof -
  note d = registry_distinct [OF ok]
  show ?thesis
  proof (cases e)
    case (Spawn draw stamp c repo mut)
    with step have t: "t = snd (spawn_job_for draw stamp c repo mut s)" by simp
    show ?thesis using ok unfolding t
      by (cases rule: spawn_cases [of draw stamp c repo mut s]) simp_all
  next
    case (Start n)
    then show ?thesis
      using step try_start_ok [OF ok, of "w_id (sys_workers s ! n)"]
        evolves_try_start [OF d, of "w_id (sys_workers s ! n)"] ok
      by (auto simp: task_start_def split: if_splits prod.splits bool.splits)
  next
    case (CancelRequest i stamp)
    then show ?thesis using step cancel_job_ok [OF ok] evolves_cancel [OF d] by auto
  next
    case (Finish n res stamp)
    then show ?thesis using step set_status_ok [OF ok] evolves_set_status [OF d]
      by (auto simp: task_finish_def split: if_splits)
  next
    case (PermitClosed n why stamp)
    then show ?thesis using step set_status_ok [OF ok] evolves_set_status [OF d]
      by (auto simp: task_permit_closed_def split: if_splits)
  next
    case (Progressed n a b)
    then show ?thesis using step set_progress_ok [OF ok] evolves_set_progress [OF d]
      by (auto simp: sink_progress_def split: if_splits)
  next
    case (Logged n line)
    then show ?thesis using step push_log_registry_ok [OF ok] evolves_push_log [OF d]
      by (auto simp: sink_log_def split: if_splits)
  qed (use step ok in \<open>auto simp: task_acquire_def task_leave_def request_acquire_def
         request_release_def split: if_splits\<close>)
qed

lemma steps_registry:
  assumes "sys_steps sqlite_text s t" "registry_ok (sys_registry s)"
  shows "registry_ok (sys_registry t) \<and> evolves (sys_registry s) (sys_registry t)"
  using assms
proof (induction rule: sys_steps.induct)
  case (stay s)
  then show ?case by simp
next
  case (step s t e u)
  then show ?case using step_registry [OF _ step.hyps(2)] evolves_trans by blast
qed

lemma started_ok [simp]: "registry_ok (sys_registry started_server)"
  by (simp add: started_server_def new_registry_def registry_ok_def one_live_def)

definition permit_ok :: "system \<Rightarrow> bool" where
  "permit_ok s \<longleftrightarrow>
     (\<forall>n. sys_permit s = Task n \<longleftrightarrow>
        n < length (sys_workers s) \<and> w_mutating (sys_workers s ! n) \<and>
        w_phase (sys_workers s ! n) \<in> {Ready, Working, Leaving})"

definition ran_ok :: "system \<Rightarrow> bool" where
  "ran_ok s \<longleftrightarrow>
     distinct (sys_ran s) \<and>
     (\<forall>n \<in> set (sys_ran s). n < length (sys_workers s) \<and>
        w_phase (sys_workers s ! n) \<in> {Working, Leaving, Ended})"

text \<open>A record belongs to the task with its counter, and once the body of that task has run
  the record is not queued any more.\<close>

definition records_ok :: "system \<Rightarrow> bool" where
  "records_ok s \<longleftrightarrow>
     distinct (map w_flag (sys_workers s)) \<and>
     (\<forall>w \<in> set (sys_workers s). w_flag w < r_next_seq (sys_registry s)) \<and>
     (\<forall>j \<in> set (r_jobs (sys_registry s)). \<exists>n < length (sys_workers s).
        w_flag (sys_workers s ! n) = j_seq j \<and> w_id (sys_workers s ! n) = j_id j) \<and>
     (\<forall>n \<in> set (sys_ran s). \<forall>j \<in> set (r_jobs (sys_registry s)).
        j_seq j = w_flag (sys_workers s ! n) \<longrightarrow> j_status j \<noteq> Queued)"

definition sys_ok :: "system \<Rightarrow> bool" where
  "sys_ok s \<longleftrightarrow> registry_ok (sys_registry s) \<and> permit_ok s \<and> ran_ok s \<and> records_ok s"

lemmas task_defs = task_acquire_def task_permit_closed_def task_start_def task_finish_def
  task_leave_def sink_progress_def sink_log_def request_acquire_def request_release_def

lemma nth_snoc: "n < length (xs @ [x]) \<Longrightarrow> (xs @ [x]) ! n = (if n = length xs then x else xs ! n)"
  by (auto simp: nth_append)

lemma spawn_shape:
  obtains r where "snd (spawn_job_for draw stamp c repo mut s) = s\<lparr>sys_registry := r\<rparr>"
  | i q r where "snd (spawn_job_for draw stamp c repo mut s) = s\<lparr>sys_registry := r, sys_workers :=
       sys_workers s @ [\<lparr>w_id = i, w_flag = q, w_mutating = mut, w_phase = Waiting\<rparr>]\<rparr>"
  by (rule spawn_cases [of draw stamp c repo mut s]) auto

abbreviation in_run :: "phase \<Rightarrow> bool" where
  "in_run p \<equiv> p \<in> {Ready, Working, Leaving}"

lemma permit_ok_move:
  assumes ok: "permit_ok s" and at: "in_phase s n old"
    and t: "sys_workers t = sys_workers (move_to p n s)"
      "sys_permit t = (if \<not> w_mutating (sys_workers s ! n) \<or> in_run p = in_run old then sys_permit s
                       else if in_run p then Task n else Free)"
    and free: "w_mutating (sys_workers s ! n) \<Longrightarrow> in_run p \<Longrightarrow> \<not> in_run old \<Longrightarrow> sys_permit s = Free"
  shows "permit_ok t"
proof -
  have held: "sys_permit s = Task m \<longleftrightarrow> m < length (sys_workers s) \<and> w_mutating (sys_workers s ! m) \<and>
      in_run (w_phase (sys_workers s ! m))" for m using ok by (simp add: permit_ok_def)
  have n: "n < length (sys_workers s)" "w_phase (sys_workers s ! n) = old"
    using at by (simp_all add: in_phase_def)
  have len: "length (sys_workers t) = length (sys_workers s)" by (simp add: t)
  have "sys_permit t = Task m \<longleftrightarrow> m < length (sys_workers t) \<and> w_mutating (sys_workers t ! m) \<and>
      in_run (w_phase (sys_workers t ! m))" for m
  proof (cases "m < length (sys_workers s)")
    case False
    then have "sys_permit s \<noteq> Task m" "m \<noteq> n" using held n by auto
    then show ?thesis using False t by (simp add: len)
  next
    case True
    then have fields: "w_mutating (sys_workers t ! m) = w_mutating (sys_workers s ! m)"
      "w_phase (sys_workers t ! m) = (if m = n then p else w_phase (sys_workers s ! m))"
      by (simp_all only: t(1) move_to_fields)
    show ?thesis
    proof (cases "\<not> w_mutating (sys_workers s ! n) \<or> in_run p = in_run old")
      case same: True
      then have "sys_permit t = sys_permit s" using t(2) by simp
      then show ?thesis using held [of m] True n same unfolding len fields by auto
    next
      case False
      show ?thesis
      proof (cases "in_run p")
        case run: True
        then have "sys_permit t = Task n" "sys_permit s = Free" using False t(2) free by auto
        then show ?thesis using held [of m] True run False unfolding len fields by auto
      next
        case stop: False
        then have "sys_permit t = Free" "sys_permit s = Task n" using False t(2) held [of n] n by auto
        then show ?thesis using held [of m] True stop False unfolding len fields by auto
      qed
    qed
  qed
  then show ?thesis by (simp add: permit_ok_def)
qed

lemma ran_ok_move:
  assumes "ran_ok s" "in_phase s n old" "sys_workers t = sys_workers (move_to p n s)"
    "sys_ran t = sys_ran s \<or> sys_ran t = sys_ran s @ [n] \<and> old \<notin> {Working, Leaving, Ended}"
    "p \<in> {Working, Leaving, Ended} \<or> sys_ran t = sys_ran s \<and> old \<notin> {Working, Leaving, Ended}"
  shows "ran_ok t"
proof -
  have n: "n < length (sys_workers s)" "w_phase (sys_workers s ! n) = old"
    using assms(2) by (simp_all add: in_phase_def)
  have "distinct (sys_ran t)" using assms(1,4) n by (auto simp: ran_ok_def)
  moreover have "m < length (sys_workers t) \<and> w_phase (sys_workers t ! m) \<in> {Working, Leaving, Ended}"
    if m: "m \<in> set (sys_ran t)" for m
  proof (cases "m = n")
    case True
    then show ?thesis using assms m n unfolding assms(3) ran_ok_def by auto
  next
    case False
    then have "m \<in> set (sys_ran s)" using m assms(4) by auto
    then have "m < length (sys_workers s)" "w_phase (sys_workers s ! m) \<in> {Working, Leaving, Ended}"
      using assms(1) by (simp_all add: ran_ok_def)
    then show ?thesis using False unfolding assms(3) by simp
  qed
  ultimately show ?thesis by (simp add: ran_ok_def)
qed

text \<open>An event is a registration, a change of the table only, a move of one task or a change
  of the permit by a request.\<close>

lemma step_cases:
  assumes "sys_step sqlite_text e s = Some t"
  obtains (Spawned) draw stamp c repo mut where "e = Spawn draw stamp c repo mut"
      "t = snd (spawn_job_for draw stamp c repo mut s)"
  | (Table) r where "t = s\<lparr>sys_registry := r\<rparr>"
  | (Acquired) n where "in_phase s n Waiting" "\<not> w_mutating (sys_workers s ! n)" "t = move_to Ready n s"
  | (Granted) n where "in_phase s n Waiting" "w_mutating (sys_workers s ! n)" "sys_permit s = Free"
      "t = (move_to Ready n s)\<lparr>sys_permit := Task n\<rparr>"
  | (Closed) n r where "in_phase s n Waiting" "t = (move_to Ended n s)\<lparr>sys_registry := r\<rparr>"
  | (Skipped) n r where "in_phase s n Ready" "t = (move_to Leaving n s)\<lparr>sys_registry := r\<rparr>"
  | (Began) n r where "in_phase s n Ready" "\<not> r_flags (sys_registry s) (w_flag (sys_workers s ! n))"
      "try_start (w_id (sys_workers s ! n)) (sys_registry s) = (True, r)"
      "t = (move_to Working n s)\<lparr>sys_registry := r, sys_ran := sys_ran s @ [n]\<rparr>"
  | (Finished) n r where "in_phase s n Working" "t = (move_to Leaving n s)\<lparr>sys_registry := r\<rparr>"
  | (Left) n where "in_phase s n Leaving" "t = (move_to Ended n s)\<lparr>sys_permit :=
      (if w_mutating (sys_workers s ! n) then Free else sys_permit s)\<rparr>"
  | (Requests) "t = s\<lparr>sys_permit := Request\<rparr>" "sys_permit s = Free"
  | (Gives) "t = s\<lparr>sys_permit := Free\<rparr>" "sys_permit s = Request"
proof (cases e)
  case (Start n)
  have same: "(move_to Leaving n s)\<lparr>sys_registry := sys_registry s\<rparr> = move_to Leaving n s"
    by (simp add: move_to_def)
  have ready: "in_phase s n Ready" using assms Start by (auto simp: task_start_def split: if_splits)
  show thesis
  proof (cases "r_flags (sys_registry s) (w_flag (sys_workers s ! n))")
    case True
    then have "t = move_to Leaving n s" using assms Start ready by (simp add: task_start_def)
    then show thesis by (intro Skipped [OF ready, of "sys_registry s"]) (simp only: same)
  next
    case False
    then show thesis using assms Start ready Skipped [OF ready] Began [OF ready]
      by (cases "try_start (w_id (sys_workers s ! n)) (sys_registry s)")
         (auto simp: task_start_def split: bool.splits)
  qed
next
  case (Acquire n)
  then show thesis using assms Acquired [of n] Granted [of n]
    by (auto simp: task_acquire_def split: if_splits)
next
  case (PermitClosed n why stamp)
  then show thesis using assms Closed [of n] by (auto simp: task_permit_closed_def split: if_splits)
next
  case (Finish n res stamp)
  then show thesis using assms Finished [of n] by (auto simp: task_finish_def split: if_splits)
next
  case (Leave n)
  then show thesis using assms Left [of n] by (auto simp: task_leave_def split: if_splits)
qed (use assms Spawned Table Requests Gives in
      \<open>auto simp: sink_progress_def sink_log_def request_acquire_def request_release_def split: if_splits\<close>)

lemma step_permit:
  assumes ok: "permit_ok s" and step: "sys_step sqlite_text e s = Some t"
  shows "permit_ok t"
  using step
proof (cases rule: step_cases)
  case (Spawned draw stamp c repo mut)
  show ?thesis
  proof (cases rule: spawn_shape [of draw stamp c repo mut s])
    case (1 r)
    then show ?thesis using ok by (simp add: Spawned permit_ok_def)
  next
    case (2 i q r)
    have "sys_permit s = Task m \<longleftrightarrow> m < length (sys_workers s) \<and> w_mutating (sys_workers s ! m) \<and>
        in_run (w_phase (sys_workers s ! m))" for m using ok by (simp add: permit_ok_def)
    then have "sys_permit t = Task m \<longleftrightarrow> m < length (sys_workers t) \<and> w_mutating (sys_workers t ! m) \<and>
        in_run (w_phase (sys_workers t ! m))" for m
      unfolding Spawned 2
      by (cases "m < length (sys_workers s)"; cases "m = length (sys_workers s)") (simp_all add: nth_append)
    then show ?thesis by (simp add: permit_ok_def)
  qed
next
  case (Acquired n)
  then show ?thesis by (intro permit_ok_move [OF ok]) auto
next
  case (Granted n)
  then show ?thesis by (intro permit_ok_move [OF ok]) auto
next
  case (Closed n r)
  then show ?thesis by (intro permit_ok_move [OF ok]) auto
next
  case (Skipped n r)
  then show ?thesis by (intro permit_ok_move [OF ok]) auto
next
  case (Began n r)
  then show ?thesis by (intro permit_ok_move [OF ok Began(1), where p = Working]) auto
next
  case (Finished n r)
  then show ?thesis by (intro permit_ok_move [OF ok]) auto
next
  case (Left n)
  then show ?thesis by (intro permit_ok_move [OF ok]) auto
qed (use ok in \<open>auto simp: permit_ok_def\<close>)

lemma step_ran:
  assumes ok: "ran_ok s" and step: "sys_step sqlite_text e s = Some t"
  shows "ran_ok t"
  using step
proof (cases rule: step_cases)
  case (Spawned draw stamp c repo mut)
  show ?thesis
  proof (cases rule: spawn_shape [of draw stamp c repo mut s])
    case (1 r)
    then show ?thesis using ok by (simp add: Spawned ran_ok_def)
  next
    case (2 i q r)
    show ?thesis using ok unfolding Spawned 2 ran_ok_def by (auto simp: nth_snoc)
  qed
next
  case (Acquired n)
  then show ?thesis by (intro ran_ok_move [OF ok]) auto
next
  case (Granted n)
  then show ?thesis by (intro ran_ok_move [OF ok Granted(1), where p = Ready]) auto
next
  case (Closed n r)
  then show ?thesis by (intro ran_ok_move [OF ok]) auto
next
  case (Skipped n r)
  then show ?thesis by (intro ran_ok_move [OF ok]) auto
next
  case (Began n r)
  then show ?thesis by (intro ran_ok_move [OF ok Began(1), where p = Working]) auto
next
  case (Finished n r)
  then show ?thesis by (intro ran_ok_move [OF ok]) auto
next
  case (Left n)
  then show ?thesis by (intro ran_ok_move [OF ok Left(1), where p = Ended]) auto
qed (use ok in \<open>auto simp: ran_ok_def\<close>)

text \<open>The records under the events that leave the tasks' identities alone.\<close>

lemma records_ok_evolve:
  assumes ok: "records_ok s" and ev: "evolves (sys_registry s) (sys_registry t)"
    and seqs: "\<forall>k \<in> set (r_jobs (sys_registry t)). j_seq k < r_next_seq (sys_registry s)"
    and ws: "sys_workers t = sys_workers s \<or> (\<exists>n p. sys_workers t = sys_workers (move_to p n s))"
    and ran: "\<And>m k. m \<in> set (sys_ran t) \<Longrightarrow> m \<in> set (sys_ran s) \<or>
      (\<forall>k \<in> set (r_jobs (sys_registry t)). j_seq k = w_flag (sys_workers s ! m) \<longrightarrow> j_status k \<noteq> Queued)"
    and bound: "\<forall>m \<in> set (sys_ran t). m < length (sys_workers s)"
  shows "records_ok t"
proof -
  have len: "length (sys_workers t) = length (sys_workers s)" using ws by auto
  have fields: "w_flag (sys_workers t ! m) = w_flag (sys_workers s ! m)"
    "w_id (sys_workers t ! m) = w_id (sys_workers s ! m)" if "m < length (sys_workers s)" for m
    using ws that by auto
  have flags: "map w_flag (sys_workers t) = map w_flag (sys_workers s)" using ws by auto
  have "\<forall>q \<in> set (map w_flag (sys_workers s)). q < r_next_seq (sys_registry s)"
    using ok by (simp add: records_ok_def)
  then have "\<forall>q \<in> set (map w_flag (sys_workers t)). q < r_next_seq (sys_registry s)"
    unfolding flags .
  moreover have "r_next_seq (sys_registry s) \<le> r_next_seq (sys_registry t)" using ev by (simp add: evolves_def)
  ultimately have below: "\<forall>w \<in> set (sys_workers t). w_flag w < r_next_seq (sys_registry t)"
    by (auto dest: less_le_trans)
  have old: "\<exists>j \<in> set (r_jobs (sys_registry s)). advances j k" if "k \<in> set (r_jobs (sys_registry t))" for k
    using ev seqs that by (auto simp: evolves_def)
  have owner: "\<exists>n < length (sys_workers t). w_flag (sys_workers t ! n) = j_seq k \<and> w_id (sys_workers t ! n) = j_id k"
    if "k \<in> set (r_jobs (sys_registry t))" for k
  proof -
    from old [OF that] obtain j where j: "j \<in> set (r_jobs (sys_registry s))" "advances j k" ..
    with ok obtain n where "n < length (sys_workers s)" "w_flag (sys_workers s ! n) = j_seq j"
      "w_id (sys_workers s ! n) = j_id j" by (auto simp: records_ok_def)
    then show ?thesis using j(2) fields len by (intro exI [of _ n]) (simp add: advances_def)
  qed
  have started: "j_status k \<noteq> Queued"
    if m: "m \<in> set (sys_ran t)" and k: "k \<in> set (r_jobs (sys_registry t))" "j_seq k = w_flag (sys_workers t ! m)" for m k
  proof -
    have same: "w_flag (sys_workers t ! m) = w_flag (sys_workers s ! m)" using bound m fields by simp
    show ?thesis
    proof (cases "m \<in> set (sys_ran s)")
      case True
      from old [OF k(1)] obtain j where j: "j \<in> set (r_jobs (sys_registry s))" "advances j k" ..
      then have "j_status j \<noteq> Queued" using ok True k(2) same by (auto simp: records_ok_def advances_def)
      then show ?thesis using j(2) by (cases "j_status j") (auto simp: advances_def)
    next
      case False
      then show ?thesis using ran [OF m] k same by auto
    qed
  qed
  show ?thesis unfolding records_ok_def
  proof (intro conjI ballI impI)
    show "distinct (map w_flag (sys_workers t))" using ok unfolding flags records_ok_def by (rule conjunct1)
  qed (fact started | fact owner | rule bspec [OF below], assumption)+
qed

lemma try_start_True:
  assumes "try_start i r = (True, r')"
  shows "r' = update_job i (\<lambda>j. j\<lparr>j_status := Running, j_tx := Running\<rparr>) r \<and>
     (\<exists>j. get_job (r_jobs r) i = Some j \<and> j_status j = Queued \<and> \<not> r_flags r (j_seq j))"
  using assms by (auto simp: try_start_def split: option.splits if_splits)

lemma registered_seqs:
  "registry_ok r \<Longrightarrow> \<forall>k \<in> set (r_jobs r). j_seq k < r_next_seq r"
  by (simp add: registry_ok_def)

text \<open>No event but a registration takes a counter.\<close>

lemma next_seq_same [simp]:
  "r_next_seq (update_job i f r) = r_next_seq r"
  "r_next_seq (snd (cancel_job stamp i r)) = r_next_seq r"
  "r_next_seq (snd (try_start i r)) = r_next_seq r"
  "r_next_seq (snd (set_status stamp i status r)) = r_next_seq r"
  "r_next_seq (snd (set_progress i p r)) = r_next_seq r"
  "r_next_seq (snd (push_log i line r)) = r_next_seq r"
  by (simp_all add: update_job_def cancel_job_def try_start_def set_status_def set_progress_def
      push_log_def Let_def split: option.splits sum.splits)

lemma next_seq_step:
  assumes "sys_step sqlite_text e s = Some t" "\<And>draw stamp c repo mut. e \<noteq> Spawn draw stamp c repo mut"
  shows "r_next_seq (sys_registry t) = r_next_seq (sys_registry s)"
proof (cases e)
  case (Start n)
  then show ?thesis using assms(1) next_seq_same(3) [of "w_id (sys_workers s ! n)" "sys_registry s"]
    by (auto simp: task_start_def simp del: next_seq_same split: if_splits prod.splits bool.splits)
qed (use assms in \<open>auto simp: task_defs split: if_splits\<close>)

lemma step_records:
  assumes ok: "sys_ok s" and step: "sys_step sqlite_text e s = Some t"
  shows "records_ok t"
proof -
  have reg: "registry_ok (sys_registry s)" and rec: "records_ok s" and ran: "ran_ok s"
    using ok by (simp_all add: sys_ok_def)
  have reg': "registry_ok (sys_registry t)" and ev: "evolves (sys_registry s) (sys_registry t)"
    using step_registry [OF reg step] by simp_all
  have bound: "\<forall>m \<in> set (sys_ran s). m < length (sys_workers s)" using ran by (simp add: ran_ok_def)
  show ?thesis
  proof (cases "\<exists>draw stamp c repo mut. e = Spawn draw stamp c repo mut")
    case True
    then obtain draw stamp c repo mut where "e = Spawn draw stamp c repo mut" by blast
    with step have t: "t = snd (spawn_job_for draw stamp c repo mut s)" by simp
    show ?thesis
    proof (cases rule: spawn_cases [of draw stamp c repo mut s])
      case (refused e r)
      then show ?thesis using rec reg by (auto simp: t records_ok_def evolves_def)
    next
      case (accepted i r)
      let ?w = "\<lparr>w_id = i, w_flag = r_next_seq (sys_registry s), w_mutating = mut, w_phase = Waiting\<rparr>"
      have new: "r_next_seq r = Suc (r_next_seq (sys_registry s))"
        "\<And>k. k \<in> set (r_jobs r) \<Longrightarrow> k \<in> set (r_jobs (sys_registry s)) \<or>
            j_id k = i \<and> j_seq k = r_next_seq (sys_registry s)"
        using accepted(2) [OF reg] by blast+
      have t: "sys_registry t = r" "sys_workers t = sys_workers s @ [?w]" "sys_ran t = sys_ran s"
        by (simp_all add: t accepted(1))
      have below: "w_flag w < r_next_seq (sys_registry s)" if "w \<in> set (sys_workers s)" for w
        using rec that by (simp add: records_ok_def)
      have "distinct (map w_flag (sys_workers t))"
      proof -
        have "r_next_seq (sys_registry s) \<notin> w_flag ` set (sys_workers s)" using below by force
        then show ?thesis using rec by (simp add: t records_ok_def)
      qed
      moreover have "\<forall>w \<in> set (sys_workers t). w_flag w < r_next_seq r"
        using below by (auto simp: t new(1) less_SucI)
      moreover have "\<exists>n < length (sys_workers t). w_flag (sys_workers t ! n) = j_seq k \<and>
          w_id (sys_workers t ! n) = j_id k" if "k \<in> set (r_jobs r)" for k
      proof (cases "k \<in> set (r_jobs (sys_registry s))")
        case True
        with rec obtain n where "n < length (sys_workers s)" "w_flag (sys_workers s ! n) = j_seq k"
          "w_id (sys_workers s ! n) = j_id k" by (auto simp: records_ok_def)
        then show ?thesis by (intro exI [of _ n]) (simp add: t nth_append)
      next
        case False
        then show ?thesis using new(2) [OF that]
          by (intro exI [of _ "length (sys_workers s)"]) (simp add: t)
      qed
      moreover have "j_status k \<noteq> Queued"
        if m: "m \<in> set (sys_ran s)" "k \<in> set (r_jobs r)" "j_seq k = w_flag (sys_workers t ! m)" for m k
      proof -
        have "m < length (sys_workers s)" using bound m by blast
        then have same: "sys_workers t ! m = sys_workers s ! m" by (simp add: t nth_append)
        then have "j_seq k < r_next_seq (sys_registry s)"
          using below m \<open>m < length (sys_workers s)\<close> by simp
        then have "k \<in> set (r_jobs (sys_registry s))" using new(2) [OF m(2)] by auto
        then show ?thesis using rec m same by (auto simp: records_ok_def)
      qed
      ultimately show ?thesis unfolding records_ok_def t(1,3) by blast
    qed
  next
    case False
    then have seqs: "\<forall>k \<in> set (r_jobs (sys_registry t)). j_seq k < r_next_seq (sys_registry s)"
      using registered_seqs [OF reg'] next_seq_step [OF step] by auto
    note keep = records_ok_evolve [OF rec ev seqs]
    from step show ?thesis
    proof (cases rule: step_cases)
      case (Began n r)
      have "n < length (sys_workers s)" using Began(1) by (simp add: in_phase_def)
      have r: "r = update_job (w_id (sys_workers s ! n)) (\<lambda>j. j\<lparr>j_status := Running, j_tx := Running\<rparr>)
          (sys_registry s)"
        using try_start_True [OF Began(3)] by blast
      have "j_status k \<noteq> Queued"
        if k: "k \<in> set (r_jobs r)" "j_seq k = w_flag (sys_workers s ! n)" for k
      proof -
        from k(1) obtain j where j: "j \<in> set (r_jobs (sys_registry s))"
          "k = (if j_id j = w_id (sys_workers s ! n) then j\<lparr>j_status := Running, j_tx := Running\<rparr> else j)"
          by (auto simp: r update_job_def)
        then have seq: "j_seq j = w_flag (sys_workers s ! n)" using k(2) by (auto split: if_splits)
        from j(1) rec obtain m where m: "m < length (sys_workers s)" "w_flag (sys_workers s ! m) = j_seq j"
          "w_id (sys_workers s ! m) = j_id j" by (auto simp: records_ok_def)
        have "distinct (map w_flag (sys_workers s))" using rec by (simp add: records_ok_def)
        then have "m = n" using m seq \<open>n < length (sys_workers s)\<close>
          by (simp add: distinct_conv_nth) metis
        then show ?thesis using j(2) m by simp
      qed
      then show ?thesis using Began bound \<open>n < length (sys_workers s)\<close> by (intro keep) auto
    next
      case (Left n)
      then have "sys_workers t = sys_workers (move_to Ended n s)" by simp
      then show ?thesis using Left bound by (intro keep) auto
    qed (use False keep bound in auto)
  qed
qed

lemma step_ok: "sys_ok s \<Longrightarrow> sys_step sqlite_text e s = Some t \<Longrightarrow> sys_ok t"
  using step_registry step_permit step_ran step_records unfolding sys_ok_def by metis

lemma started_sys_ok [simp]: "sys_ok started_server"
  using started_ok by (simp add: sys_ok_def permit_ok_def ran_ok_def records_ok_def)
    (simp add: started_server_def new_registry_def)

lemma steps_ok: "sys_steps sqlite_text s t \<Longrightarrow> sys_ok s \<Longrightarrow> sys_ok t"
  by (induction rule: sys_steps.induct) (auto intro: step_ok)

section \<open>Whose record a task finds\<close>

lemma get_job_append: "get_job (xs @ ys) i = (case get_job xs i of None \<Rightarrow> get_job ys i | Some j \<Rightarrow> Some j)"
  by (induction xs) (auto simp: get_job_def)

lemma get_job_update:
  assumes "\<And>j. j_id (f j) = j_id j"
  shows "get_job (r_jobs (update_job i f r)) k =
     (if k = i then map_option f (get_job (r_jobs r) k) else get_job (r_jobs r) k)"
proof -
  have "get_job (map (\<lambda>j. if j_id j = i then f j else j) xs) k =
     (if k = i then map_option f (get_job xs k) else get_job xs k)" for xs
    using assms by (induction xs) (auto simp: get_job_def)
  then show ?thesis by (simp add: update_job_def)
qed

lemma get_job_filter:
  assumes "get_job xs i = Some j" "P j" "distinct (map j_id xs)"
  shows "get_job (filter P xs) i = Some j"
proof -
  have "j \<in> set (filter P xs)" "j_id j = i" using get_job_Some [OF assms(1)] assms(2) by simp_all
  moreover have "distinct (map j_id (filter P xs))" using assms(3) by (rule distinct_map_filter)
  ultimately show ?thesis using get_job_unique by blast
qed

lemma get_job_add_job:
  assumes ok: "registry_ok r" and fresh: "is_terminal (j_status j) = False"
  shows "get_job (r_jobs (add_job j r)) (j_id j) = Some j"
    "i \<noteq> j_id j \<Longrightarrow> get_job (r_jobs r) i = Some k \<Longrightarrow> \<not> is_terminal (j_status k) \<Longrightarrow>
       get_job (r_jobs (add_job j r)) i = Some k"
proof -
  let ?all = "insert_job j (r_jobs r)"
  have d: "distinct (map j_id ?all)"
    using ok by (auto simp: insert_job_def registry_ok_def distinct_map_filter)
  obtain P where P: "evict_finished ?all = filter P ?all"
    "\<And>x. x \<in> set ?all \<Longrightarrow> \<not> is_terminal (j_status x) \<Longrightarrow> P x"
    using evict_finished_filter [of ?all] d by blast
  have ids: "distinct (map j_id (r_jobs r))" using ok by (simp add: registry_ok_def)
  have "j \<in> set ?all" by (simp add: insert_job_def)
  then show "get_job (r_jobs (add_job j r)) (j_id j) = Some j"
    using get_job_filter [OF get_job_unique [OF d] P(2) d] fresh by (simp add: add_job_def P(1))
  assume i: "i \<noteq> j_id j" "get_job (r_jobs r) i = Some k" "\<not> is_terminal (j_status k)"
  then have k: "k \<in> set ?all" "j_id k = i" using get_job_Some [OF i(2)] by (simp_all add: insert_job_def)
  then have "get_job ?all i = Some k" using get_job_unique [OF d k(1)] by simp
  then show "get_job (r_jobs (add_job j r)) i = Some k"
    using get_job_filter [OF _ P(2) d] k i(3) by (simp add: add_job_def P(1))
qed

definition awaited :: "registry \<Rightarrow> worker \<Rightarrow> bool" where
  "awaited r w \<longleftrightarrow> r_flags r (w_flag w) \<or>
     (\<exists>j. get_job (r_jobs r) (w_id w) = Some j \<and> j_seq j = w_flag w \<and> j_status j = Queued)"

definition under_way :: "registry \<Rightarrow> worker \<Rightarrow> bool" where
  "under_way r w \<longleftrightarrow>
     (\<exists>j. get_job (r_jobs r) (w_id w) = Some j \<and> j_seq j = w_flag w \<and> j_status j = Running)"

text \<open>While the ids drawn do not collide, a task that has not started finds its record queued
  unless it was cancelled, and a task at work finds it running.\<close>

definition tracked :: "system \<Rightarrow> bool" where
  "tracked s \<longleftrightarrow> (distinct (map w_id (sys_workers s)) \<longrightarrow>
     (\<forall>w \<in> set (sys_workers s).
        (w_phase w \<in> {Waiting, Ready} \<longrightarrow> awaited (sys_registry s) w) \<and>
        (w_phase w = Working \<longrightarrow> under_way (sys_registry s) w)))"

text \<open>A task's view of the table survives an operation on another id.\<close>

definition undisturbed :: "string \<Rightarrow> registry \<Rightarrow> registry \<Rightarrow> bool" where
  "undisturbed i r r' \<longleftrightarrow>
     (\<forall>k j. k \<noteq> i \<longrightarrow> get_job (r_jobs r) k = Some j \<longrightarrow> \<not> is_terminal (j_status j) \<longrightarrow>
        get_job (r_jobs r') k = Some j)"

lemma undisturbed_awaited:
  "undisturbed i r r' \<Longrightarrow> w_id w \<noteq> i \<Longrightarrow> (r_flags r (w_flag w) \<longrightarrow> r_flags r' (w_flag w)) \<Longrightarrow>
     awaited r w \<Longrightarrow> awaited r' w"
  by (auto simp: undisturbed_def awaited_def)

lemma undisturbed_under_way:
  "undisturbed i r r' \<Longrightarrow> w_id w \<noteq> i \<Longrightarrow> under_way r w \<Longrightarrow> under_way r' w"
  by (auto simp: undisturbed_def under_way_def)

lemma undisturbed_update:
  "(\<And>j. j_id (f j) = j_id j) \<Longrightarrow> undisturbed i r (update_job i f r)"
  by (simp add: undisturbed_def get_job_update)

lemma undisturbed_refl [simp]: "undisturbed i r r"
  by (simp add: undisturbed_def)

lemma undisturbed_ops:
  "undisturbed i r (snd (cancel_job stamp i r))"
  "undisturbed i r (snd (try_start i r))"
  "undisturbed i r (snd (set_status stamp i status r))"
  "undisturbed i r (snd (set_progress i p r))"
  "undisturbed i r (snd (push_log i line r))"
proof -
  have flags: "undisturbed i (r\<lparr>r_flags := g\<rparr>) r' \<Longrightarrow> undisturbed i r r'" for g r'
    by (simp add: undisturbed_def)
  note u = undisturbed_update
  show "undisturbed i r (snd (cancel_job stamp i r))"
    by (auto simp: cancel_job_def Let_def split: option.splits sum.splits intro!: flags u)
       (simp_all add: undisturbed_def)
  show "undisturbed i r (snd (try_start i r))"
    by (auto simp: try_start_def split: option.splits intro!: u)
  show "undisturbed i r (snd (set_status stamp i status r))"
    by (auto simp: set_status_def split: option.splits sum.splits intro!: u)
  show "undisturbed i r (snd (set_progress i p r))"
    by (auto simp: set_progress_def split: option.splits intro!: u)
  show "undisturbed i r (snd (push_log i line r))"
    by (auto simp: push_log_def job_push_log_def Let_def split: option.splits intro!: u)
qed

lemma tracked_move:
  assumes tr: "tracked s" and n: "n < length (sys_workers s)"
    and ws: "sys_workers t = sys_workers (move_to p n s)"
    and und: "undisturbed (w_id (sys_workers s ! n)) (sys_registry s) (sys_registry t)"
    and flags: "\<And>m. m < length (sys_workers s) \<Longrightarrow> r_flags (sys_registry s) (w_flag (sys_workers s ! m)) \<Longrightarrow>
        r_flags (sys_registry t) (w_flag (sys_workers s ! m))"
    and own: "distinct (map w_id (sys_workers s)) \<Longrightarrow>
       (p \<in> {Waiting, Ready} \<longrightarrow> awaited (sys_registry t) (sys_workers s ! n)) \<and>
       (p = Working \<longrightarrow> under_way (sys_registry t) (sys_workers s ! n))"
  shows "tracked t"
  unfolding tracked_def
proof (intro impI ballI)
  fix w assume d: "distinct (map w_id (sys_workers t))" and w: "w \<in> set (sys_workers t)"
  have ids: "distinct (map w_id (sys_workers s))" using d by (simp add: ws)
  obtain m where m: "m < length (sys_workers s)" "w = sys_workers (move_to p n s) ! m"
    using w by (auto simp: ws in_set_conv_nth)
  show "(w_phase w \<in> {Waiting, Ready} \<longrightarrow> awaited (sys_registry t) w) \<and>
      (w_phase w = Working \<longrightarrow> under_way (sys_registry t) w)"
  proof (cases "m = n")
    case True
    then show ?thesis using own [OF ids] m by (simp add: awaited_def under_way_def)
  next
    case False
    then have other: "w_id (sys_workers s ! m) \<noteq> w_id (sys_workers s ! n)"
      using ids m(1) n by (simp add: distinct_conv_nth)
    have w: "w = sys_workers s ! m" using False m by (simp add: move_to_def)
    have "(w_phase w \<in> {Waiting, Ready} \<longrightarrow> awaited (sys_registry s) w) \<and>
      (w_phase w = Working \<longrightarrow> under_way (sys_registry s) w)"
      using tr ids m(1) by (simp add: tracked_def w)
    then show ?thesis
      using undisturbed_awaited [OF und] undisturbed_under_way [OF und] other flags [OF m(1)]
      unfolding w by blast
  qed
qed

lemma tracked_at:
  assumes "tracked s" "distinct (map w_id (sys_workers s))" "n < length (sys_workers s)"
  shows "w_phase (sys_workers s ! n) \<in> {Waiting, Ready} \<Longrightarrow> awaited (sys_registry s) (sys_workers s ! n)"
    "w_phase (sys_workers s ! n) = Working \<Longrightarrow> under_way (sys_registry s) (sys_workers s ! n)"
  using assms nth_mem [OF assms(3)] by (auto simp: tracked_def)

lemma flags_step:
  assumes "sys_ok s" "sys_step sqlite_text e s = Some t" "m < length (sys_workers s)"
    "r_flags (sys_registry s) (w_flag (sys_workers s ! m))"
  shows "r_flags (sys_registry t) (w_flag (sys_workers s ! m))"
proof -
  have "w_flag (sys_workers s ! m) < r_next_seq (sys_registry s)"
    using assms(1,3) by (simp add: sys_ok_def records_ok_def)
  then show ?thesis using step_registry [OF _ assms(2)] assms(1,4) by (simp add: sys_ok_def evolves_def)
qed

lemma move_to_same:
  "n < length (sys_workers s) \<Longrightarrow> sys_workers (move_to (w_phase (sys_workers s ! n)) n s) = sys_workers s"
  by (simp add: move_to_def)

lemma cancel_tracked:
  assumes "registry_ok r" "awaited r w"
  shows "awaited (snd (cancel_job stamp i r)) w"
proof (cases "w_id w = i")
  case False
  have "r_flags r q \<longrightarrow> r_flags (snd (cancel_job stamp i r)) q" for q
    by (simp add: cancel_job_def Let_def update_job_def split: option.splits sum.splits)
  then show ?thesis using undisturbed_awaited [OF undisturbed_ops(1) False] assms(2) by blast
next
  case True
  then show ?thesis using assms(2)
    by (auto simp: awaited_def cancel_job_def Let_def update_job_def split: option.splits sum.splits)
qed

lemma cancel_under_way:
  assumes "under_way r w"
  shows "under_way (snd (cancel_job stamp i r)) w"
proof (cases "w_id w = i")
  case False
  show ?thesis using undisturbed_under_way [OF undisturbed_ops(1) False assms] .
next
  case True
  then show ?thesis using assms
    by (auto simp: under_way_def cancel_job_def Let_def update_job_def split: option.splits sum.splits)
qed

lemma spawn_accepted:
  assumes ok: "registry_ok (sys_registry s)"
    and t: "spawn_job_for draw stamp c repo mut s = (Inr i, t)"
  shows "\<exists>r j q. t = s\<lparr>sys_registry := r, sys_workers := sys_workers s @
       [\<lparr>w_id = i, w_flag = q, w_mutating = mut, w_phase = Waiting\<rparr>]\<rparr> \<and>
     get_job (r_jobs r) i = Some j \<and> j_seq j = q \<and> j_status j = Queued \<and>
     undisturbed i (sys_registry s) r"
proof -
  let ?r = "sys_registry s"
  obtain j r p where m: "mint_job draw stamp c p ?r = (Inr j, r)" and i: "i = j_id j"
    and t': "t = s\<lparr>sys_registry := add_job j r, sys_workers := sys_workers s @
       [\<lparr>w_id = i, w_flag = j_seq j, w_mutating = mut, w_phase = Waiting\<rparr>]\<rparr>"
    using t by (auto simp: spawn_job_for_def registry_insert_def insert_for_unless_active_def
      split: option.splits prod.splits sum.splits)
  have j: "j_status j = Queued" and jobs: "r_jobs r = r_jobs ?r"
    using mint_job_Inr [OF m] by (auto simp: new_job_def)
  have "registry_ok r" using mint_job_ok [OF ok m] by simp
  note got = get_job_add_job [OF this, of j]
  have "undisturbed i ?r (add_job j r)"
    using got(2) j by (simp add: undisturbed_def jobs [symmetric] i)
  then show ?thesis using t' got(1) j i by auto
qed

lemma step_tracked:
  assumes ok: "sys_ok s" and tr: "tracked s" and step: "sys_step sqlite_text e s = Some t"
  shows "tracked t"
proof -
  have reg: "registry_ok (sys_registry s)" using ok by (simp add: sys_ok_def)
  note flags = flags_step [OF ok step]
  show ?thesis
  proof (cases e)
    case (Spawn draw stamp c repo mut)
    obtain y where y: "spawn_job_for draw stamp c repo mut s = (y, t)"
      using step Spawn by (cases "spawn_job_for draw stamp c repo mut s") simp
    show ?thesis
    proof (cases y)
      case (Inl e)
      obtain r where t: "t = s\<lparr>sys_registry := r\<rparr>" "r_jobs r = r_jobs (sys_registry s)"
        using spawn_cases [of draw stamp c repo mut s] reg y Inl by (metis Inl_not_Inr prod.inject)
      have "awaited r w" if "awaited (sys_registry s) w" "w \<in> set (sys_workers s)" for w
      proof -
        have "r_flags (sys_registry s) (w_flag w) \<longrightarrow> r_flags r (w_flag w)"
          using flags that(2) by (auto simp: t in_set_conv_nth)
        then show ?thesis using that(1) t(2) by (auto simp: awaited_def)
      qed
      then show ?thesis using tr by (simp add: tracked_def t under_way_def)
    next
      case (Inr i)
      with y have "spawn_job_for draw stamp c repo mut s = (Inr i, t)" by simp
      from spawn_accepted [OF reg this] obtain r j q where t: "t = s\<lparr>sys_registry := r, sys_workers :=
          sys_workers s @ [\<lparr>w_id = i, w_flag = q, w_mutating = mut, w_phase = Waiting\<rparr>]\<rparr>"
        and got: "get_job (r_jobs r) i = Some j" "j_seq j = q" "j_status j = Queued"
        and und: "undisturbed i (sys_registry s) r" by blast
      have old: "(w_phase w \<in> {Waiting, Ready} \<longrightarrow> awaited r w) \<and> (w_phase w = Working \<longrightarrow> under_way r w)"
        if d: "distinct (map w_id (sys_workers t))" and w: "w \<in> set (sys_workers s)" for w
      proof -
        have "w_id w \<noteq> i" using d w by (auto simp: t)
        moreover have "(w_phase w \<in> {Waiting, Ready} \<longrightarrow> awaited (sys_registry s) w) \<and>
            (w_phase w = Working \<longrightarrow> under_way (sys_registry s) w)"
          using tr d w by (simp add: tracked_def t)
        moreover have "r_flags (sys_registry s) (w_flag w) \<longrightarrow> r_flags r (w_flag w)"
          using flags w by (auto simp: t in_set_conv_nth)
        ultimately show ?thesis
          using undisturbed_awaited [OF und] undisturbed_under_way [OF und] by blast
      qed
      show ?thesis unfolding tracked_def
        using old got by (auto simp: t awaited_def)
    qed
  next
    case (CancelRequest i stamp)
    then show ?thesis using step tr cancel_tracked [OF reg] cancel_under_way
      by (auto simp: tracked_def)
  next
    case (Acquire n)
    then have n: "n < length (sys_workers s)" "w_phase (sys_workers s ! n) = Waiting"
      "sys_workers t = sys_workers (move_to Ready n s)" "sys_registry t = sys_registry s"
      using step by (auto simp: task_acquire_def in_phase_def split: if_splits)
    then show ?thesis using tracked_at [OF tr] by (intro tracked_move [OF tr n(1,3)]) auto
  next
    case (PermitClosed n why stamp)
    then show ?thesis using step undisturbed_ops flags
      by (intro tracked_move [OF tr, where p = Ended and n = n])
         (auto simp: task_permit_closed_def in_phase_def split: if_splits)
  next
    case (Finish n res stamp)
    then show ?thesis using step undisturbed_ops flags
      by (intro tracked_move [OF tr, where p = Leaving and n = n])
         (auto simp: task_finish_def in_phase_def split: if_splits)
  next
    case (Leave n)
    then show ?thesis using step flags
      by (intro tracked_move [OF tr, where p = Ended and n = n])
         (auto simp: task_leave_def in_phase_def split: if_splits)
  next
    case (Start n)
    then have n: "n < length (sys_workers s)" "w_phase (sys_workers s ! n) = Ready"
      using step by (auto simp: task_start_def in_phase_def split: if_splits)
    let ?i = "w_id (sys_workers s ! n)"
    show ?thesis
    proof (cases "r_flags (sys_registry s) (w_flag (sys_workers s ! n)) \<or>
        \<not> fst (try_start ?i (sys_registry s))")
      case True
      then have "sys_workers t = sys_workers (move_to Leaving n s)"
        "sys_registry t = sys_registry s \<or> sys_registry t = snd (try_start ?i (sys_registry s))"
        using step Start by (auto simp: task_start_def split: if_splits prod.splits bool.splits)
      then show ?thesis using undisturbed_ops flags by (intro tracked_move [OF tr n(1)]) auto
    next
      case False
      then obtain r where ts: "try_start ?i (sys_registry s) = (True, r)"
        by (cases "try_start ?i (sys_registry s)") auto
      then have t: "sys_workers t = sys_workers (move_to Working n s)" "sys_registry t = r"
        using step Start False by (auto simp: task_start_def split: if_splits)
      have "under_way r (sys_workers s ! n)" if "distinct (map w_id (sys_workers s))"
        using tracked_at(1) [OF tr that n(1)] n(2) False try_start_True [OF ts]
        by (auto simp: awaited_def under_way_def get_job_update)
      then show ?thesis using undisturbed_ops(2) [of ?i "sys_registry s"] ts flags t
        by (intro tracked_move [OF tr n(1)]) auto
    qed
  next
    case (Progressed n a b)
    then have n: "n < length (sys_workers s)" "w_phase (sys_workers s ! n) = Working"
      "sys_workers t = sys_workers (move_to Working n s)"
      using step move_to_same [of n s] by (auto simp: sink_progress_def in_phase_def split: if_splits)
    have "under_way (sys_registry t) (sys_workers s ! n)" if "distinct (map w_id (sys_workers s))"
      using tracked_at(2) [OF tr that n(1,2)] step Progressed
      by (auto simp: sink_progress_def set_progress_def under_way_def get_job_update split: if_splits)
    then show ?thesis using step Progressed undisturbed_ops flags
      by (intro tracked_move [OF tr n(1,3)]) (auto simp: sink_progress_def split: if_splits)
  next
    case (Logged n line)
    then have n: "n < length (sys_workers s)" "w_phase (sys_workers s ! n) = Working"
      "sys_workers t = sys_workers (move_to Working n s)"
      using step move_to_same [of n s] by (auto simp: sink_log_def in_phase_def split: if_splits)
    have "under_way (sys_registry t) (sys_workers s ! n)" if "distinct (map w_id (sys_workers s))"
      using tracked_at(2) [OF tr that n(1,2)] step Logged
      by (auto simp: sink_log_def push_log_def under_way_def get_job_update job_push_log_def Let_def
          split: if_splits)
    then show ?thesis using step Logged undisturbed_ops flags
      by (intro tracked_move [OF tr n(1,3)]) (auto simp: sink_log_def split: if_splits)
  qed (use step tr in \<open>auto simp: request_acquire_def request_release_def tracked_def split: if_splits\<close>)
qed

lemma reached_tracked:
  assumes "sys_steps sqlite_text started_server s"
  shows "sys_ok s \<and> tracked s"
proof -
  have "sys_ok a \<and> tracked a \<Longrightarrow> sys_steps sqlite_text a b \<Longrightarrow> sys_ok b \<and> tracked b" for a b
    by (rotate_tac, induction rule: sys_steps.induct) (auto intro: step_ok step_tracked)
  moreover have "tracked started_server" by (simp add: tracked_def started_server_def)
  ultimately show ?thesis using assms started_sys_ok by blast
qed

section \<open>Draining\<close>

fun phase_left :: "phase \<Rightarrow> nat" where
  "phase_left Waiting = 4"
| "phase_left Ready = 3"
| "phase_left Working = 2"
| "phase_left Leaving = 1"
| "phase_left Ended = 0"

definition work_left :: "system \<Rightarrow> nat" where
  "work_left s = (\<Sum>w \<leftarrow> sys_workers s. phase_left (w_phase w))"

lemma sum_list_update_less:
  "n < length xs \<Longrightarrow> f y < (f (xs ! n) :: nat) \<Longrightarrow>
     (\<Sum>x \<leftarrow> xs[n := y]. f x) < (\<Sum>x \<leftarrow> xs. f x)"
  by (induction xs arbitrary: n) (auto split: nat.splits)

lemma work_left_move:
  assumes "in_phase s n old" "phase_left p < phase_left old" "sys_workers t = sys_workers (move_to p n s)"
  shows "work_left t < work_left s"
  using assms sum_list_update_less [of n "sys_workers s" "\<lambda>w. phase_left (w_phase w)"
      "(sys_workers s ! n)\<lparr>w_phase := p\<rparr>"]
  by (simp add: work_left_def move_to_def in_phase_def)

text \<open>Some task can always go on, unless a request holds the permit.\<close>

lemma task_goes_on:
  assumes "in_phase s n p" "p \<in> {Ready, Working, Leaving}" "sys_permit s \<noteq> Request"
  shows "\<exists>e t. sys_step sqlite_text e s = Some t \<and> work_left t < work_left s \<and>
     sys_permit t \<noteq> Request \<and> length (sys_workers t) = length (sys_workers s)"
proof -
  have less: "work_left t < work_left s" if "sys_workers t = sys_workers (move_to p' n s)"
    "phase_left p' < phase_left p" for t p'
    using work_left_move [OF assms(1) that(2,1)] .
  from assms(2) consider "p = Ready" | "p = Working" | "p = Leaving" by auto
  then show ?thesis
  proof cases
    case 1
    have "\<exists>t. task_start n s = Some t \<and> sys_permit t = sys_permit s \<and>
        (sys_workers t = sys_workers (move_to Leaving n s) \<or> sys_workers t = sys_workers (move_to Working n s))"
      using assms(1) 1 by (auto simp: task_start_def split: prod.splits bool.splits)
    then obtain t p' where "task_start n s = Some t" "sys_workers t = sys_workers (move_to p' n s)"
      "p' \<in> {Leaving, Working}" "sys_permit t = sys_permit s" by blast
    then show ?thesis using 1 assms(3) less [of t p']
      by (intro exI [of _ "Start n"] exI [of _ t]) auto
  next
    case 2
    let ?e = "Finish n (Panicked []) (Inl Cancelled)"
    obtain t where "sys_step sqlite_text ?e s = Some t" "sys_workers t = sys_workers (move_to Leaving n s)"
      "sys_permit t = sys_permit s"
      using assms(1) 2 by (simp add: task_finish_def)
    then show ?thesis using 2 assms(3) less [of t Leaving] by (intro exI [of _ ?e] exI [of _ t]) auto
  next
    case 3
    obtain t where "sys_step sqlite_text (Leave n) s = Some t" "sys_workers t = sys_workers (move_to Ended n s)"
      "sys_permit t \<noteq> Request"
      using assms(1,3) 3 by (simp add: task_leave_def)
    then show ?thesis using 3 less [of t Ended] by (intro exI [of _ "Leave n"] exI [of _ t]) auto
  qed
qed

lemma permit_held:
  "sys_ok s \<Longrightarrow> sys_permit s = Task n \<longleftrightarrow>
     n < length (sys_workers s) \<and> w_mutating (sys_workers s ! n) \<and> in_run (w_phase (sys_workers s ! n))"
  unfolding sys_ok_def permit_ok_def by blast

lemma some_task_goes_on:
  assumes ok: "sys_ok s" and permit: "sys_permit s \<noteq> Request"
    and n: "n < length (sys_workers s)" "w_phase (sys_workers s ! n) \<noteq> Ended"
  shows "\<exists>e t. sys_step sqlite_text e s = Some t \<and> work_left t < work_left s \<and>
     sys_permit t \<noteq> Request \<and> length (sys_workers t) = length (sys_workers s)"
proof (cases "sys_permit s")
  case (Task m)
  then have "m < length (sys_workers s)" "in_run (w_phase (sys_workers s ! m))"
    using permit_held [OF ok] by blast+
  then show ?thesis using permit by (intro task_goes_on [of s m]) (simp_all add: in_phase_def)
next
  case Free
  show ?thesis
  proof (cases "w_phase (sys_workers s ! n) = Waiting")
    case True
    then have w: "in_phase s n Waiting" using n by (simp add: in_phase_def)
    then obtain t where "sys_step sqlite_text (Acquire n) s = Some t"
      "sys_workers t = sys_workers (move_to Ready n s)" "sys_permit t \<noteq> Request"
      using Free by (cases "w_mutating (sys_workers s ! n)") (simp_all add: task_acquire_def)
    then show ?thesis using work_left_move [OF w, of Ready t]
      by (intro exI [of _ "Acquire n"] exI [of _ t]) simp
  next
    case False
    then have "in_run (w_phase (sys_workers s ! n))" using n(2) by (cases "w_phase (sys_workers s ! n)") auto
    then show ?thesis using n permit by (intro task_goes_on [of s n]) (simp_all add: in_phase_def)
  qed
qed (use permit in simp)

lemma drains:
  "sys_ok s \<Longrightarrow> sys_permit s \<noteq> Request \<Longrightarrow>
     \<exists>t. sys_steps sqlite_text s t \<and> length (sys_workers t) = length (sys_workers s) \<and>
       (\<forall>w \<in> set (sys_workers t). w_phase w = Ended) \<and> sys_permit t = Free"
proof (induction "work_left s" arbitrary: s rule: less_induct)
  case less
  show ?case
  proof (cases "\<forall>w \<in> set (sys_workers s). w_phase w = Ended")
    case True
    have "sys_permit s = Free"
    proof (cases "sys_permit s")
      case (Task n)
      then have "n < length (sys_workers s)" "in_run (w_phase (sys_workers s ! n))"
        using permit_held [OF less.prems(1)] by blast+
      with True show ?thesis by auto
    qed (use less.prems in simp_all)
    with True show ?thesis using sys_steps.stay by blast
  next
    case False
    then obtain n where "n < length (sys_workers s)" "w_phase (sys_workers s ! n) \<noteq> Ended"
      by (auto simp: in_set_conv_nth)
    from some_task_goes_on [OF less.prems this] obtain e t where t: "sys_step sqlite_text e s = Some t"
      "work_left t < work_left s" "sys_permit t \<noteq> Request"
      "length (sys_workers t) = length (sys_workers s)" by blast
    from less.hyps [OF t(2) step_ok [OF less.prems(1) t(1)] t(3)] obtain u where
      u: "sys_steps sqlite_text t u" "length (sys_workers u) = length (sys_workers t)"
      "\<forall>w \<in> set (sys_workers u). w_phase w = Ended" "sys_permit u = Free" by blast
    have "sys_steps sqlite_text s u"
      using sys_steps_trans [OF sys_steps.step [OF sys_steps.stay t(1)] u(1)] .
    with u t(4) show ?thesis by auto
  qed
qed

section \<open>A run for the witnesses\<close>

fun run_events :: "(sqlite_error \<Rightarrow> string) \<Rightarrow> event list \<Rightarrow> system \<Rightarrow> system option" where
  "run_events sqlite_text [] s = Some s"
| "run_events sqlite_text (e # es) s =
     (case sys_step sqlite_text e s of None \<Rightarrow> None | Some t \<Rightarrow> run_events sqlite_text es t)"

lemma run_events_steps: "run_events sqlite_text es s = Some t \<Longrightarrow> sys_steps sqlite_text s t"
proof (induction es arbitrary: s)
  case Nil
  then show ?case by (simp add: sys_steps.stay)
next
  case (Cons e es)
  then obtain u where "sys_step sqlite_text e s = Some u" "run_events sqlite_text es u = Some t"
    by (auto split: option.splits)
  with Cons.IH show ?case using sys_steps_trans sys_steps.step [OF sys_steps.stay] by blast
qed

lemmas job_simps = insert_for_unless_active_def registry_insert_def mint_job_def new_job_def
  add_job_def insert_job_def evict_finished_def max_finished_def refuse_active_def active_in_def
  live_for_def get_job_def update_job_def try_start_def set_status_def cancel_job_def
  new_registry_def started_server_def spawn_job_for_def in_phase_def move_to_def task_defs

definition demo_events :: "event list" where
  "demo_events =
     [Spawn (Inr ''a1'') (Inr ''t0'') ''index-code'' (Some ''r'') True,
      Spawn (Inr ''b2'') (Inr ''t1'') ''reembed'' None True, Acquire 0, Start 0]"

definition demo_jobs :: "job list" where
  "demo_jobs =
     [(new_job ''a1'' ''index-code'' (Some ''r'') ''t0'' 0)\<lparr>j_status := Running, j_tx := Running\<rparr>,
      new_job ''b2'' ''reembed'' None ''t1'' 1]"

definition demo_system :: system where
  "demo_system = \<lparr>
     sys_registry = \<lparr>r_jobs = demo_jobs, r_next_seq = 2, r_flags = (\<lambda>_. False)\<rparr>,
     sys_workers = [\<lparr>w_id = ''a1'', w_flag = 0, w_mutating = True, w_phase = Working\<rparr>,
                    \<lparr>w_id = ''b2'', w_flag = 1, w_mutating = True, w_phase = Waiting\<rparr>],
     sys_permit = Task 0, sys_ran = [0]\<rparr>"

lemma demo_reached: "sys_steps sqlite_text started_server demo_system"
proof -
  have "run_events sqlite_text demo_events started_server = Some demo_system"
    by (simp add: demo_events_def demo_system_def demo_jobs_def job_simps fun_upd_idem)
  then show ?thesis by (rule run_events_steps)
qed

section \<open>Properties\<close>

text \<open>C2. The write permit: of the jobs that mutate the store at most one is at work at any
  moment, and none is while a request handler holds the permit.\<close>

theorem write_permit_exclusive:
  assumes "sys_steps sqlite_text started_server s"
    and "in_phase s m Working" "w_mutating (sys_workers s ! m)"
    and "in_phase s n Working" "w_mutating (sys_workers s ! n)"
  shows "m = n \<and> sys_permit s = Task n"
proof -
  have ok: "sys_ok s" using reached_tracked [OF assms(1)] by blast
  show ?thesis using permit_held [OF ok, of m] permit_held [OF ok, of n] assms
    by (auto simp: in_phase_def)
qed

theorem write_permit_exclusive_witness: "sys_permit demo_system = Task 0"
  using write_permit_exclusive [OF demo_reached, of 0 0]
  by (simp add: in_phase_def demo_system_def)

lemma cancelled_stays:
  "sys_steps sqlite_text s t \<Longrightarrow> sys_ok s \<Longrightarrow> n < length (sys_workers s) \<Longrightarrow>
     r_flags (sys_registry s) (w_flag (sys_workers s ! n)) \<Longrightarrow> n \<notin> set (sys_ran s) \<Longrightarrow>
     n < length (sys_workers t) \<and> w_flag (sys_workers t ! n) = w_flag (sys_workers s ! n) \<and>
     r_flags (sys_registry t) (w_flag (sys_workers s ! n)) \<and> n \<notin> set (sys_ran t)"
proof (induction rule: sys_steps.induct)
  case (stay s)
  then show ?case by simp
next
  case (step s t e u)
  then have t: "sys_ok t" "n < length (sys_workers t)" "w_flag (sys_workers t ! n) = w_flag (sys_workers s ! n)"
    "r_flags (sys_registry t) (w_flag (sys_workers t ! n))" "n \<notin> set (sys_ran t)"
    using steps_ok by auto
  have "r_flags (sys_registry u) (w_flag (sys_workers t ! n))"
    using flags_step [OF t(1) step.hyps(2) t(2,4)] .
  moreover from step.hyps(2) have "n < length (sys_workers u) \<and>
      w_flag (sys_workers u ! n) = w_flag (sys_workers t ! n) \<and> n \<notin> set (sys_ran u)"
  proof (cases rule: step_cases)
    case (Spawned draw stamp c repo mut)
    show ?thesis
      by (cases rule: spawn_shape [of draw stamp c repo mut t]) (use t in \<open>simp_all add: Spawned nth_append\<close>)
  next
    case (Began m r)
    then show ?thesis using t by auto
  qed (use t in auto)
  ultimately show ?case using t(3) by simp
qed

text \<open>C3. A cancel of a queued job is final: once it was answered \<open>Cancelled\<close>, the body of the
  job's task never runs, whatever happens next, even if the record is evicted before the task
  wakes.\<close>

theorem cancelled_body_never_runs:
  assumes "sys_steps sqlite_text started_server s"
    and "n < length (sys_workers s)"
    and "get_job (r_jobs (sys_registry s)) (w_id (sys_workers s ! n)) = Some j"
    and "j_seq j = w_flag (sys_workers s ! n)"
    and "cancel_job stamp (w_id (sys_workers s ! n)) (sys_registry s) = (Inr OutcomeCancelled, r)"
    and "sys_steps sqlite_text (s\<lparr>sys_registry := r\<rparr>) t"
  shows "n \<notin> set (sys_ran t)"
proof -
  have ok: "sys_ok s" using reached_tracked [OF assms(1)] by blast
  let ?e = "CancelRequest (w_id (sys_workers s ! n)) stamp"
  have "sys_step sqlite_text ?e s = Some (s\<lparr>sys_registry := r\<rparr>)" by (simp add: assms(5))
  from step_ok [OF ok this] have ok': "sys_ok (s\<lparr>sys_registry := r\<rparr>)" .
  have queued: "j_status j = Queued" and flag: "r_flags r (j_seq j)"
    using assms(3,5)
    by (auto simp: cancel_job_def Let_def update_job_def split: if_splits sum.splits)
  have "j \<in> set (r_jobs (sys_registry s))" using get_job_Some [OF assms(3)] by simp
  then have "n \<notin> set (sys_ran s)" using ok queued assms(4) by (auto simp: sys_ok_def records_ok_def)
  then show ?thesis using cancelled_stays [OF assms(6) ok', of n] assms(2,4) flag by simp
qed

theorem cancelled_body_never_runs_witness:
  "1 \<notin> set (sys_ran (demo_system\<lparr>sys_registry :=
     snd (cancel_job (Inr ''t2'') ''b2'' (sys_registry demo_system))\<rparr>))"
proof -
  let ?r = "snd (cancel_job (Inr ''t2'') ''b2'' (sys_registry demo_system))"
  have c: "cancel_job (Inr ''t2'') ''b2'' (sys_registry demo_system) = (Inr OutcomeCancelled, ?r)"
    by (simp add: demo_system_def demo_jobs_def job_simps)
  show ?thesis
    using cancelled_body_never_runs [OF demo_reached, of 1 "new_job ''b2'' ''reembed'' None ''t1'' 1"
        "Inr ''t2''" ?r, OF _ _ _ _ sys_steps.stay] c
    by (simp add: demo_system_def demo_jobs_def get_job_def new_job_def)
qed

text \<open>A body runs at most once, and only for a task that was granted its start.\<close>

theorem bodies_run_at_most_once:
  assumes "sys_steps sqlite_text started_server s"
  shows "distinct (sys_ran s) \<and>
     (\<forall>n \<in> set (sys_ran s). \<exists>p \<in> {Working, Leaving, Ended}. in_phase s n p)"
  using reached_tracked [OF assms] unfolding sys_ok_def ran_ok_def in_phase_def by blast

theorem bodies_run_at_most_once_witness: "distinct (sys_ran demo_system)"
  using bodies_run_at_most_once [OF demo_reached] by blast

text \<open>C35. A finished job is final: whatever happens afterwards, a record that is still in the
  table shows the same terminal status, result and finish time.\<close>

theorem terminal_is_final:
  assumes "sys_steps sqlite_text started_server s" "sys_steps sqlite_text s t"
    and "j \<in> set (r_jobs (sys_registry s))" "is_terminal (j_status j)"
    and "k \<in> set (r_jobs (sys_registry t))" "j_seq k = j_seq j"
  shows "j_id k = j_id j \<and> j_status k = j_status j \<and> j_finished k = j_finished j"
proof -
  have reg: "registry_ok (sys_registry s)" using reached_tracked [OF assms(1)] by (simp add: sys_ok_def)
  have "j_seq k < r_next_seq (sys_registry s)" using registered_seqs [OF reg] assms(3,6) by simp
  moreover have "evolves (sys_registry s) (sys_registry t)" using steps_registry [OF assms(2) reg] by blast
  ultimately obtain j' where j': "j' \<in> set (r_jobs (sys_registry s))" "advances j' k"
    using assms(5) by (auto simp: evolves_def)
  have "inj_on j_seq (set (r_jobs (sys_registry s)))"
    using reg by (simp add: registry_ok_def distinct_map)
  moreover have "j_seq j' = j_seq j" using j'(2) assms(6) by (simp add: advances_def)
  ultimately have "j' = j" using j'(1) assms(3) by (rule inj_onD)
  then have "advances j k" using j'(2) by simp
  moreover from this have "j_id k = j_id j" by (simp add: advances_def)
  ultimately show ?thesis using advances_terminal [OF _ assms(4), of k] by blast
qed

definition demo_done :: system where
  "demo_done = \<lparr>
     sys_registry = \<lparr>r_jobs =
       [(new_job ''a1'' ''index-code'' (Some ''r'') ''t0'' 0)
          \<lparr>j_status := Done JNull, j_tx := Done JNull, j_finished := Some ''t3''\<rparr>,
        new_job ''b2'' ''reembed'' None ''t1'' 1], r_next_seq = 2, r_flags = (\<lambda>_. False)\<rparr>,
     sys_workers = [\<lparr>w_id = ''a1'', w_flag = 0, w_mutating = True, w_phase = Leaving\<rparr>,
                    \<lparr>w_id = ''b2'', w_flag = 1, w_mutating = True, w_phase = Waiting\<rparr>],
     sys_permit = Task 0, sys_ran = [0]\<rparr>"

lemma demo_finish:
  "sys_step sqlite_text (Finish 0 (Returned (Inr JNull)) (Inr ''t3'')) demo_system = Some demo_done"
  by (simp add: demo_system_def demo_jobs_def demo_done_def job_simps)

theorem terminal_is_final_witness:
  "\<exists>k \<in> set (r_jobs (sys_registry demo_done)). j_seq k = 0 \<and> j_status k = Done JNull \<and> j_finished k = Some ''t3''"
proof -
  let ?j = "(new_job ''a1'' ''index-code'' (Some ''r'') ''t0'' 0)
          \<lparr>j_status := Done JNull, j_tx := Done JNull, j_finished := Some ''t3''\<rparr>"
  have j: "?j \<in> set (r_jobs (sys_registry demo_done))" "j_seq ?j = 0"
    by (simp_all add: demo_done_def new_job_def)
  have "sys_steps sqlite_text started_server demo_done" for sqlite_text
    using sys_steps.step [OF demo_reached demo_finish] .
  from terminal_is_final [OF this sys_steps.stay j(1) _ j(1)] j show ?thesis
    by (intro bexI [of _ ?j]) auto
qed

text \<open>C4. One job per repository: two queued or running jobs of one command never work on the
  same repository, and a request to start one is accepted exactly when none is live; otherwise
  it is refused with \<open>index_running\<close> naming the live job, and nothing is registered.\<close>

theorem one_live_job_per_repository:
  assumes "sys_steps sqlite_text started_server s"
  shows "(\<forall>j \<in> set (r_jobs (sys_registry s)). \<forall>k \<in> set (r_jobs (sys_registry s)).
       live_for c p j \<and> live_for c p k \<longrightarrow> j = k) \<and>
     (case active_for (sys_registry s) c p of
        None \<Rightarrow> fst (spawn_job_for (Inr i) (Inr at) c (Some p) mut s) = Inr i \<and>
          active_for (sys_registry (snd (spawn_job_for (Inr i) (Inr at) c (Some p) mut s))) c p = Some i
      | Some live \<Rightarrow>
          (\<exists>j \<in> set (r_jobs (sys_registry s)). live_for c p j \<and> j_id j = live) \<and>
          fst (spawn_job_for (Inr i) (Inr at) c (Some p) mut s) = Inl (IndexRunning p live) \<and>
          sys_workers (snd (spawn_job_for (Inr i) (Inr at) c (Some p) mut s)) = sys_workers s \<and>
          r_jobs (sys_registry (snd (spawn_job_for (Inr i) (Inr at) c (Some p) mut s))) =
            r_jobs (sys_registry s))"
proof -
  have ok: "sys_ok s" using reached_tracked [OF assms] by blast
  then have reg: "registry_ok (sys_registry s)" by (simp add: sys_ok_def)
  let ?x = "spawn_job_for (Inr i) (Inr at) c (Some p) mut s"
  have one: "\<forall>j \<in> set (r_jobs (sys_registry s)). \<forall>k \<in> set (r_jobs (sys_registry s)).
       live_for c p j \<and> live_for c p k \<longrightarrow> j = k"
    using reg unfolding registry_ok_def one_live_def by blast
  show ?thesis
  proof (cases "active_for (sys_registry s) c p")
    case (Some live)
    then have "?x = (Inl (IndexRunning p live), s\<lparr>sys_registry := (sys_registry s)
        \<lparr>r_next_seq := Suc (r_next_seq (sys_registry s)),
          r_flags := (r_flags (sys_registry s))(r_next_seq (sys_registry s) := False)\<rparr>\<rparr>)"
      by (simp add: spawn_job_for_def insert_for_unless_active_def mint_job_def refuse_active_def active_for_def)
    moreover have "\<exists>j \<in> set (r_jobs (sys_registry s)). live_for c p j \<and> j_id j = live"
      using active_in_Some [of "r_jobs (sys_registry s)" c p live] Some by (simp add: active_for_def)
    ultimately show ?thesis using one Some by simp
  next
    case None
    let ?j = "new_job i c (Some p) at (r_next_seq (sys_registry s))"
    have x: "?x = (Inr i, s\<lparr>sys_registry := add_job ?j ((sys_registry s)
        \<lparr>r_next_seq := Suc (r_next_seq (sys_registry s)),
          r_flags := (r_flags (sys_registry s))(r_next_seq (sys_registry s) := False)\<rparr>),
        sys_workers := sys_workers s @ [\<lparr>w_id = i, w_flag = r_next_seq (sys_registry s),
          w_mutating = mut, w_phase = Waiting\<rparr>]\<rparr>)"
      using None by (simp add: spawn_job_for_def insert_for_unless_active_def mint_job_def
          refuse_active_def active_for_def new_job_def)
    let ?r = "sys_registry (snd ?x)"
    have "registry_ok (sys_registry (snd ?x))"
      using step_ok [OF ok, of sqlite_text "Spawn (Inr i) (Inr at) c (Some p) mut" "snd ?x"]
      by (simp add: sys_ok_def)
    moreover have "registry_ok ((sys_registry s)\<lparr>r_next_seq := Suc (r_next_seq (sys_registry s)),
          r_flags := (r_flags (sys_registry s))(r_next_seq (sys_registry s) := False)\<rparr>)"
      using reg by (auto simp: registry_ok_def)
    from get_job_add_job(1) [OF this, of ?j] have "get_job (r_jobs ?r) i = Some ?j"
      by (simp add: x new_job_def)
    then have "?j \<in> set (r_jobs ?r)" using get_job_Some by fastforce
    moreover have "live_for c p ?j" by (simp add: live_for_def new_job_def)
    moreover have "active_in (r_jobs ?r) c p = Some i"
    proof (cases "active_in (r_jobs ?r) c p")
      case None
      then show ?thesis using calculation active_in_None by blast
    next
      case (Some l)
      from active_in_Some [OF this] obtain k where "k \<in> set (r_jobs ?r)" "live_for c p k" "j_id k = l" by blast
      moreover have "one_live (r_jobs ?r)" using \<open>registry_ok ?r\<close> by (simp add: registry_ok_def)
      ultimately have "k = ?j"
        using \<open>?j \<in> set (r_jobs ?r)\<close> \<open>live_for c p ?j\<close> unfolding one_live_def by blast
      then show ?thesis using Some \<open>j_id k = l\<close> by (simp add: new_job_def)
    qed
    ultimately show ?thesis using one None by (simp add: active_for_def x)
  qed
qed

theorem one_live_job_per_repository_witness:
  "fst (spawn_job_for (Inr ''c3'') (Inr ''t4'') ''index-code'' (Some ''r'') True demo_system) =
     Inl (IndexRunning ''r'' ''a1'')"
proof -
  have "active_for (sys_registry demo_system) ''index-code'' ''r'' = Some ''a1''"
    by (simp add: active_for_def active_in_def live_for_def demo_system_def demo_jobs_def new_job_def)
  then show ?thesis
    using one_live_job_per_repository [OF demo_reached, of "''index-code''" "''r''" "''c3''" "''t4''" True]
    by simp
qed

text \<open>C26. A job shows what its body did: while the ids drawn are distinct, when the body of a
  task hands back its result and the clock renders, the job's view carries exactly that
  outcome (\<open>done\<close> with the payload, \<open>cancelled\<close>, or \<open>error\<close> with the code and message of the
  crate error or of the panic) and its finish time.\<close>

theorem outcome_is_published:
  assumes "sys_steps sqlite_text started_server s" "distinct (map w_id (sys_workers s))"
    and "in_phase s n Working"
    and "sys_step sqlite_text (Finish n res (Inr at)) s = Some t"
  shows "\<exists>v. view_job (sys_registry t) (w_id (sys_workers s ! n)) = Some v \<and>
     jv_status v = status_slug (outcome_status sqlite_text res) \<and>
     jv_result v = status_result (outcome_status sqlite_text res) \<and>
     jv_error v = status_error (outcome_status sqlite_text res) \<and> jv_finished v = Some at"
proof -
  have "tracked s" using reached_tracked [OF assms(1)] by blast
  then have "under_way (sys_registry s) (sys_workers s ! n)"
    using tracked_at(2) assms(2,3) by (simp add: in_phase_def)
  then obtain j where j: "get_job (r_jobs (sys_registry s)) (w_id (sys_workers s ! n)) = Some j"
    "j_status j = Running" by (auto simp: under_way_def)
  have "sys_registry t = snd (set_status (Inr at) (w_id (sys_workers s ! n))
      (outcome_status sqlite_text res) (sys_registry s))"
    using assms(3,4) by (auto simp: task_finish_def)
  then have "get_job (r_jobs (sys_registry t)) (w_id (sys_workers s ! n)) =
      Some (j\<lparr>j_finished := Some at, j_status := outcome_status sqlite_text res,
              j_tx := outcome_status sqlite_text res\<rparr>)"
    using j by (simp add: set_status_def get_job_update)
  then show ?thesis by (simp add: view_job_def job_to_view_def)
qed

theorem outcome_is_published_witness:
  "\<exists>v. view_job (sys_registry demo_done) ''a1'' = Some v \<and> jv_status v = ''done'' \<and> jv_finished v = Some ''t3''"
proof -
  have "distinct (map w_id (sys_workers demo_system))" "in_phase demo_system 0 Working"
    "w_id (sys_workers demo_system ! 0) = ''a1''"
    by (simp_all add: demo_system_def in_phase_def)
  with outcome_is_published [OF demo_reached _ _ demo_finish] show ?thesis by auto
qed



text \<open>What a subscriber sees is what the record says: in every reached system a record's
  channels hold its current status and progress, it has a finish time exactly when it is
  terminal, and its log tail is the last twenty lines sent.\<close>

theorem records_mirror_channels:
  assumes "sys_steps sqlite_text started_server s" "j \<in> set (r_jobs (sys_registry s))"
  shows "j_tx j = j_status j \<and> j_progress_tx j = j_progress j \<and>
     (j_finished j = None) = (\<not> is_terminal (j_status j)) \<and>
     j_log_tail j = drop (length (j_sent j) - 20) (j_sent j)"
  using reached_tracked [OF assms(1)] assms(2)
  by (auto simp: sys_ok_def registry_ok_def job_ok_def last_n_def log_tail_cap_def)

theorem records_mirror_channels_witness:
  "list_all (\<lambda>j. j_tx j = j_status j) (r_jobs (sys_registry demo_system))"
  using records_mirror_channels [OF demo_reached] by (auto simp: list_all_iff)

end
