(* ===== verification/Table_Shape.thy ===== *)
theory Table_Shape
  imports Project_Store
begin

text \<open>
  The declarations of the project tables (\<open>src/store/schema_projects.rs\<close>,
  \<open>schema_project_work.rs\<close>, \<open>schema_project_record.rs\<close>): columns with their storage kind
  and nullability, keys, unique indexes, references and the one \<open>CHECK\<close>; the registry of the
  tables, the class that says which of them travel in a transfer bundle, and the shape the
  bundle reads off the declarations (\<open>project_table_shape.rs\<close>).

  A declaration is the value the attribute macros of the crate \<open>toolu_orm\<close> build from the
  struct. Column defaults are left out: a transfer writes every column. Indexes that are not
  unique hold no promise and are left out.
\<close>

section \<open>Declarations\<close>

record column_def =
  cd_name :: string
  cd_integer :: bool
  cd_not_null :: bool
  cd_primary :: bool
  cd_references :: "string option"

definition optional_text :: "string \<Rightarrow> column_def" where
  "optional_text name =
     \<lparr>cd_name = name, cd_integer = False, cd_not_null = False, cd_primary = False,
      cd_references = None\<rparr>"

definition optional_int :: "string \<Rightarrow> column_def" where
  "optional_int name = (optional_text name)\<lparr>cd_integer := True\<rparr>"

definition required_text :: "string \<Rightarrow> column_def" where
  "required_text name = (optional_text name)\<lparr>cd_not_null := True\<rparr>"

definition required_int :: "string \<Rightarrow> column_def" where
  "required_int name = (optional_int name)\<lparr>cd_not_null := True\<rparr>"

definition optional_ref :: "string \<Rightarrow> string \<Rightarrow> column_def" where
  "optional_ref name target = (optional_text name)\<lparr>cd_references := Some target\<rparr>"

definition required_ref :: "string \<Rightarrow> string \<Rightarrow> column_def" where
  "required_ref name target = (required_text name)\<lparr>cd_references := Some target\<rparr>"

definition key_col :: "string \<Rightarrow> column_def" where
  "key_col name = (optional_text name)\<lparr>cd_primary := True\<rparr>"

text \<open>A foreign key: \<open>Reference\<close> of the shape, and \<open>toolu_orm\<close>'s composite key.\<close>

record reference =
  rf_columns :: "string list"
  rf_table :: string
  rf_target :: "string list"

definition foreign_key :: "string list \<Rightarrow> string \<Rightarrow> string list \<Rightarrow> reference" where
  "foreign_key columns table target =
     \<lparr>rf_columns = columns, rf_table = table, rf_target = target\<rparr>"

text \<open>\<open>td_distinct\<close> lists the pairs of columns a \<open>CHECK (a != b)\<close> keeps apart.\<close>

record table_def =
  td_name :: string
  td_columns :: "column_def list"
  td_primary_key :: "string list"
  td_foreign_keys :: "reference list"
  td_unique :: "string list list"
  td_distinct :: "(string \<times> string) list"

lemmas column_defs = optional_text_def optional_int_def required_text_def required_int_def
  optional_ref_def required_ref_def key_col_def foreign_key_def

section \<open>The project tables\<close>

definition projects_table :: table_def where
  "projects_table = \<lparr>td_name = ''projects'', td_columns = [
     key_col ''id'', required_text ''slug'', required_text ''key_prefix'',
     required_text ''name'', required_text ''outcome'', required_text ''constraints'',
     required_text ''non_goals'', required_text ''status'', required_text ''health'',
     required_text ''lead_principal_type'', required_text ''lead_principal_id'',
     optional_int ''target_date'', required_int ''current_plan_version'',
     required_int ''version'', required_text ''completion_policy'',
     required_text ''creator_principal_type'', required_text ''creator_principal_id'',
     required_int ''created_at'', required_int ''updated_at'', optional_int ''archived_at''],
     td_primary_key = [],
     td_foreign_keys = [],
     td_unique = [[''slug''], [''key_prefix'']],
     td_distinct = []\<rparr>"

definition project_repositories_table :: table_def where
  "project_repositories_table = \<lparr>td_name = ''project_repositories'', td_columns = [
     required_ref ''project_id'' ''projects(id)'', required_text ''repo'',
     required_text ''creator_principal_type'', required_text ''creator_principal_id'',
     required_int ''created_at''],
     td_primary_key = [''project_id'', ''repo''],
     td_foreign_keys = [],
     td_unique = [],
     td_distinct = []\<rparr>"

definition project_milestones_table :: table_def where
  "project_milestones_table = \<lparr>td_name = ''project_milestones'', td_columns = [
     key_col ''id'', required_ref ''project_id'' ''projects(id)'', required_text ''name'',
     required_text ''description'', required_int ''target_date'', required_int ''position'',
     required_text ''status'', optional_int ''archived_at''],
     td_primary_key = [],
     td_foreign_keys = [],
     td_unique = [[''id'', ''project_id'']],
     td_distinct = []\<rparr>"

definition project_criteria_table :: table_def where
  "project_criteria_table = \<lparr>td_name = ''project_criteria'', td_columns = [
     key_col ''id'', required_ref ''project_id'' ''projects(id)'',
     optional_text ''work_item_id'', required_text ''description'',
     required_int ''required'', required_text ''evidence_requirement'',
     required_text ''resolution'', optional_text ''resolution_rationale'',
     optional_text ''resolver_principal_type'', optional_text ''resolver_principal_id'',
     required_int ''position'', optional_int ''archived_at''],
     td_primary_key = [],
     td_foreign_keys = [
       foreign_key [''work_item_id'', ''project_id''] ''project_work_items'' [''id'', ''project_id'']],
     td_unique = [],
     td_distinct = []\<rparr>"

definition project_transfer_bindings_table :: table_def where
  "project_transfer_bindings_table = \<lparr>td_name = ''project_transfer_bindings'', td_columns = [
     (key_col ''project_id'')\<lparr>cd_references := Some ''projects(id)''\<rparr>,
     required_text ''direction'', required_text ''remote'', required_text ''digest'',
     optional_text ''remapped_from_principal_type'',
     optional_text ''remapped_from_principal_id'', required_int ''transferred_at''],
     td_primary_key = [],
     td_foreign_keys = [],
     td_unique = [],
     td_distinct = []\<rparr>"

definition project_work_items_table :: table_def where
  "project_work_items_table = \<lparr>td_name = ''project_work_items'', td_columns = [
     key_col ''id'', required_ref ''project_id'' ''projects(id)'', required_int ''number'',
     optional_text ''parent_work_item_id'', optional_text ''milestone_id'',
     required_text ''kind'', required_text ''title'', required_text ''description'',
     required_text ''status'', required_text ''priority'', optional_int ''estimate'',
     optional_text ''assignee_principal_type'', optional_text ''assignee_principal_id'',
     optional_text ''repo'', required_int ''version'', required_int ''position'',
     optional_int ''archived_at'', required_int ''created_at'', required_int ''updated_at''],
     td_primary_key = [],
     td_foreign_keys = [
       foreign_key [''milestone_id'', ''project_id''] ''project_milestones'' [''id'', ''project_id''],
       foreign_key [''parent_work_item_id'', ''project_id''] ''project_work_items'' [''id'', ''project_id'']],
     td_unique = [[''project_id'', ''number''], [''id'', ''project_id'']],
     td_distinct = []\<rparr>"

definition project_work_item_dependencies_table :: table_def where
  "project_work_item_dependencies_table = \<lparr>td_name = ''project_work_item_dependencies'', td_columns = [
     required_ref ''project_id'' ''projects(id)'', required_text ''blocker_id'',
     required_text ''blocked_id''],
     td_primary_key = [''project_id'', ''blocker_id'', ''blocked_id''],
     td_foreign_keys = [
       foreign_key [''blocker_id'', ''project_id''] ''project_work_items'' [''id'', ''project_id''],
       foreign_key [''blocked_id'', ''project_id''] ''project_work_items'' [''id'', ''project_id'']],
     td_unique = [],
     td_distinct = [(''blocker_id'', ''blocked_id'')]\<rparr>"

definition project_executions_table :: table_def where
  "project_executions_table = \<lparr>td_name = ''project_executions'', td_columns = [
     key_col ''id'', required_ref ''project_id'' ''projects(id)'',
     required_text ''work_item_id'', required_text ''actor_principal_type'',
     required_text ''actor_principal_id'', required_text ''state'',
     required_int ''started_at'', optional_int ''heartbeat_at'',
     optional_int ''finished_at'', optional_text ''result_summary'',
     required_int ''version'',
     optional_ref ''superseded_by_execution_id'' ''project_executions(id)''],
     td_primary_key = [],
     td_foreign_keys = [
       foreign_key [''work_item_id'', ''project_id''] ''project_work_items'' [''id'', ''project_id'']],
     td_unique = [[''id'', ''project_id'']],
     td_distinct = []\<rparr>"

definition project_work_packets_table :: table_def where
  "project_work_packets_table = \<lparr>td_name = ''project_work_packets'', td_columns = [
     key_col ''id'', required_ref ''project_id'' ''projects(id)'',
     required_text ''execution_id'', required_text ''work_item_id'',
     required_int ''plan_version'', required_int ''work_item_version'',
     required_text ''engine_query_id'', required_text ''citations'',
     required_text ''requester_principal_type'', required_text ''requester_principal_id'',
     required_int ''created_at''],
     td_primary_key = [],
     td_foreign_keys = [
       foreign_key [''execution_id'', ''project_id''] ''project_executions'' [''id'', ''project_id''],
       foreign_key [''work_item_id'', ''project_id''] ''project_work_items'' [''id'', ''project_id'']],
     td_unique = [],
     td_distinct = []\<rparr>"

definition project_plan_proposals_table :: table_def where
  "project_plan_proposals_table = \<lparr>td_name = ''project_plan_proposals'', td_columns = [
     key_col ''id'', required_ref ''project_id'' ''projects(id)'',
     required_int ''base_plan_version'', required_text ''state'',
     required_text ''operations'', required_text ''assumptions'', required_text ''risks'',
     required_text ''rationale'', required_text ''proposer_principal_type'',
     required_text ''proposer_principal_id'', required_text ''request_digest'',
     required_int ''created_at'', required_int ''updated_at''],
     td_primary_key = [],
     td_foreign_keys = [],
     td_unique = [],
     td_distinct = []\<rparr>"

definition project_approvals_table :: table_def where
  "project_approvals_table = \<lparr>td_name = ''project_approvals'', td_columns = [
     key_col ''id'', required_ref ''project_id'' ''projects(id)'',
     required_ref ''proposal_id'' ''project_plan_proposals(id)'', required_text ''decision'',
     required_text ''reviewer_principal_type'', required_text ''reviewer_principal_id'',
     optional_text ''rationale'', required_int ''created_at''],
     td_primary_key = [],
     td_foreign_keys = [],
     td_unique = [[''proposal_id'']],
     td_distinct = []\<rparr>"

definition project_evidence_table :: table_def where
  "project_evidence_table = \<lparr>td_name = ''project_evidence'', td_columns = [
     key_col ''id'', required_ref ''project_id'' ''projects(id)'',
     optional_text ''work_item_id'', optional_text ''execution_id'', required_text ''kind'',
     required_text ''source'', optional_text ''external_id'', optional_text ''url'',
     required_text ''trust'', required_text ''metadata'', optional_text ''content_hash'',
     optional_text ''verified_by'', optional_int ''verified_at'',
     required_text ''creator_principal_type'', required_text ''creator_principal_id'',
     required_int ''created_at''],
     td_primary_key = [],
     td_foreign_keys = [
       foreign_key [''work_item_id'', ''project_id''] ''project_work_items'' [''id'', ''project_id''],
       foreign_key [''execution_id'', ''project_id''] ''project_executions'' [''id'', ''project_id'']],
     td_unique = [],
     td_distinct = []\<rparr>"

definition project_evidence_criteria_table :: table_def where
  "project_evidence_criteria_table = \<lparr>td_name = ''project_evidence_criteria'', td_columns = [
     required_ref ''evidence_id'' ''project_evidence(id)'',
     required_ref ''criterion_id'' ''project_criteria(id)''],
     td_primary_key = [''evidence_id'', ''criterion_id''],
     td_foreign_keys = [],
     td_unique = [],
     td_distinct = []\<rparr>"

definition project_activity_events_table :: table_def where
  "project_activity_events_table = \<lparr>td_name = ''project_activity_events'', td_columns = [
     key_col ''id'', required_ref ''project_id'' ''projects(id)'',
     required_text ''actor_principal_type'', required_text ''actor_principal_id'',
     required_text ''event_type'', required_text ''entity_type'',
     required_text ''entity_id'', required_text ''payload'', required_int ''created_at''],
     td_primary_key = [],
     td_foreign_keys = [],
     td_unique = [],
     td_distinct = []\<rparr>"

definition project_command_receipts_table :: table_def where
  "project_command_receipts_table = \<lparr>td_name = ''project_command_receipts'', td_columns = [
     key_col ''id'', required_ref ''project_id'' ''projects(id)'',
     required_text ''principal_type'', required_text ''principal_id'',
     required_text ''idempotency_key'', required_text ''command_type'',
     required_text ''request_digest'', required_text ''response'',
     required_int ''created_at''],
     td_primary_key = [],
     td_foreign_keys = [],
     td_unique = [[''principal_type'', ''principal_id'', ''idempotency_key'']],
     td_distinct = []\<rparr>"

section \<open>The registry\<close>

text \<open>\<open>PROJECT_TABLES\<close> and the declarations behind it: leaf first.\<close>

definition project_tables :: "string list" where
  "project_tables =
     [''project_transfer_bindings'', ''project_evidence_criteria'', ''project_evidence'',
      ''project_work_packets'', ''project_executions'', ''project_criteria'',
      ''project_work_item_dependencies'', ''project_work_items'', ''project_milestones'',
      ''project_approvals'', ''project_plan_proposals'', ''project_activity_events'',
      ''project_command_receipts'', ''project_repositories'', ''projects'']"

definition table_defs :: "table_def list" where
  "table_defs =
     [project_transfer_bindings_table, project_evidence_criteria_table, project_evidence_table,
      project_work_packets_table, project_executions_table, project_criteria_table,
      project_work_item_dependencies_table, project_work_items_table, project_milestones_table,
      project_approvals_table, project_plan_proposals_table, project_activity_events_table,
      project_command_receipts_table, project_repositories_table, projects_table]"

datatype transfer = Carried | Kept string

definition transfer_class :: "string \<Rightarrow> transfer option" where
  "transfer_class table =
     (if table \<in> set [''projects'', ''project_repositories'', ''project_milestones'',
                      ''project_criteria'', ''project_work_items'',
                      ''project_work_item_dependencies'', ''project_executions'',
                      ''project_work_packets'', ''project_plan_proposals'', ''project_approvals'',
                      ''project_evidence'', ''project_evidence_criteria'',
                      ''project_activity_events'']
      then Some Carried
      else if table = ''project_command_receipts''
      then Some (Kept ''a receipt replays a response only the engine that ran the command produced'')
      else if table = ''project_transfer_bindings''
      then Some (Kept ''a binding records this data directory's link to one remote; the other side records its own'')
      else None)"

definition unclassified :: "string list \<Rightarrow> string list" where
  "unclassified tables = filter (\<lambda>t. transfer_class t = None) tables"

section \<open>Shapes\<close>

record column_shape =
  cs_name :: string
  cs_integer :: bool
  cs_not_null :: bool

record table_shape =
  sh_name :: string
  sh_columns :: "column_shape list"
  sh_key :: "string list"
  sh_references :: "reference list"

text \<open>\<open>iter().position\<close>.\<close>

fun position_of :: "('a \<Rightarrow> bool) \<Rightarrow> 'a list \<Rightarrow> nat option" where
  "position_of P [] = None"
| "position_of P (x # xs) = (if P x then Some 0 else map_option Suc (position_of P xs))"

definition shape_position :: "table_shape \<Rightarrow> string \<Rightarrow> nat option" where
  "shape_position sh column = position_of (\<lambda>c. cs_name c = column) (sh_columns sh)"

definition shape_names :: "table_shape \<Rightarrow> string list" where
  "shape_names sh = map cs_name (sh_columns sh)"

text \<open>\<open>strip_suffix(')')\<close> on the text after the first parenthesis.\<close>

definition split_reference :: "string \<Rightarrow> (string \<times> string) option" where
  "split_reference reference =
     (case split_once CHR ''('' reference of
        None \<Rightarrow> None
      | Some (table, rest) \<Rightarrow>
          if rest \<noteq> [] \<and> last rest = CHR '')'' then Some (trim table, trim (butlast rest))
          else None)"

definition column_reference :: "column_def \<Rightarrow> reference option" where
  "column_reference c =
     Option.bind (cd_references c) (\<lambda>r.
     Option.bind (split_reference r) (\<lambda>(table, target).
     Some \<lparr>rf_columns = [cd_name c], rf_table = table, rf_target = [target]\<rparr>))"

definition shape_key :: "table_def \<Rightarrow> string list" where
  "shape_key d =
     (if td_primary_key d = [] then map cd_name (filter cd_primary (td_columns d))
      else td_primary_key d)"

definition shape :: "table_def \<Rightarrow> table_shape" where
  "shape d =
     \<lparr>sh_name = td_name d,
      sh_columns = map (\<lambda>c. \<lparr>cs_name = cd_name c, cs_integer = cd_integer c,
                             cs_not_null = cd_not_null c \<or> cd_name c \<in> set (shape_key d)\<rparr>)
                     (td_columns d),
      sh_key = shape_key d,
      sh_references = List.map_filter column_reference (td_columns d) @ td_foreign_keys d\<rparr>"

definition carried :: "table_shape list" where
  "carried =
     map shape (filter (\<lambda>d. transfer_class (td_name d) = Some Carried) (rev table_defs))"

section \<open>What the declarations promise\<close>

definition table_index :: "table_shape list \<Rightarrow> string \<Rightarrow> nat option" where
  "table_index shapes name = position_of (\<lambda>sh. sh_name sh = name) shapes"

definition find_table :: "string \<Rightarrow> table_def option" where
  "find_table name = find (\<lambda>d. td_name d = name) table_defs"

text \<open>A table's keys: its primary key and its unique indexes.\<close>

definition table_keys :: "table_def \<Rightarrow> string list list" where
  "table_keys d = shape_key d # td_unique d"

text \<open>Every reference of the table at \<open>i\<close> leads to a key of a table that is not after it.\<close>

definition reference_ok :: "table_shape list \<Rightarrow> nat \<Rightarrow> table_shape \<Rightarrow> reference \<Rightarrow> bool" where
  "reference_ok shapes i sh r \<longleftrightarrow>
     length (rf_columns r) = length (rf_target r) \<and> rf_columns r \<noteq> [] \<and>
     list_all (\<lambda>c. c \<in> set (shape_names sh)) (rf_columns r) \<and>
     (case table_index shapes (rf_table r) of
        None \<Rightarrow> False
      | Some j \<Rightarrow> j \<le> i \<and> list_all (\<lambda>c. c \<in> set (shape_names (shapes ! j))) (rf_target r)) \<and>
     (case find_table (rf_table r) of
        None \<Rightarrow> False
      | Some d \<Rightarrow> list_ex (\<lambda>k. set k = set (rf_target r)) (table_keys d))"

fun references_backward :: "table_shape list \<Rightarrow> nat \<Rightarrow> table_shape list \<Rightarrow> bool" where
  "references_backward shapes i [] = True"
| "references_backward shapes i (sh # rest) \<longleftrightarrow>
     list_all (reference_ok shapes i sh) (sh_references sh) \<and>
     references_backward shapes (Suc i) rest"

section \<open>Evaluation\<close>

lemmas table_declarations = projects_table_def project_repositories_table_def
  project_milestones_table_def project_criteria_table_def project_transfer_bindings_table_def
  project_work_items_table_def project_work_item_dependencies_table_def
  project_executions_table_def project_work_packets_table_def project_plan_proposals_table_def
  project_approvals_table_def project_evidence_table_def project_evidence_criteria_table_def
  project_activity_events_table_def project_command_receipts_table_def

lemma split_references [simp]:
  "split_reference ''projects(id)'' = Some (''projects'', ''id'')"
  "split_reference ''project_executions(id)'' = Some (''project_executions'', ''id'')"
  "split_reference ''project_plan_proposals(id)'' = Some (''project_plan_proposals'', ''id'')"
  "split_reference ''project_evidence(id)'' = Some (''project_evidence'', ''id'')"
  "split_reference ''project_criteria(id)'' = Some (''project_criteria'', ''id'')"
  by code_simp+

lemma column_simps [simp]:
  "cd_name (required_text n) = n" "cd_integer (required_text n) = False"
  "cd_not_null (required_text n) = True" "cd_primary (required_text n) = False"
  "cd_name (optional_text n) = n" "cd_integer (optional_text n) = False"
  "cd_not_null (optional_text n) = False" "cd_primary (optional_text n) = False"
  "cd_name (required_int n) = n" "cd_integer (required_int n) = True"
  "cd_not_null (required_int n) = True" "cd_primary (required_int n) = False"
  "cd_name (optional_int n) = n" "cd_integer (optional_int n) = True"
  "cd_not_null (optional_int n) = False" "cd_primary (optional_int n) = False"
  "cd_name (required_ref n r) = n" "cd_integer (required_ref n r) = False"
  "cd_not_null (required_ref n r) = True" "cd_primary (required_ref n r) = False"
  "cd_name (optional_ref n r) = n" "cd_integer (optional_ref n r) = False"
  "cd_not_null (optional_ref n r) = False" "cd_primary (optional_ref n r) = False"
  "cd_name (key_col n) = n" "cd_integer (key_col n) = False"
  "cd_not_null (key_col n) = False" "cd_primary (key_col n) = True"
  by (simp_all add: column_defs)

lemma column_reference_simps [simp]:
  "column_reference (required_text n) = None" "column_reference (optional_text n) = None"
  "column_reference (required_int n) = None" "column_reference (optional_int n) = None"
  "column_reference (key_col n) = None"
  "split_reference r = Some (t, c) \<Longrightarrow>
     column_reference (required_ref n r) = Some (foreign_key [n] t [c])"
  "split_reference r = Some (t, c) \<Longrightarrow>
     column_reference (optional_ref n r) = Some (foreign_key [n] t [c])"
  by (simp_all add: column_reference_def column_defs)

lemma foreign_key_simps [simp]:
  "rf_columns (foreign_key cs t ts) = cs" "rf_table (foreign_key cs t ts) = t"
  "rf_target (foreign_key cs t ts) = ts"
  by (simp_all add: foreign_key_def)

lemma shape_of:
  "d = d' \<Longrightarrow>
   shape d =
     (\<lambda>k. \<lparr>sh_name = td_name d',
          sh_columns = map (\<lambda>c. \<lparr>cs_name = cd_name c, cs_integer = cd_integer c,
                                 cs_not_null = cd_not_null c \<or> cd_name c \<in> set k\<rparr>) (td_columns d'),
          sh_key = k,
          sh_references = List.map_filter column_reference (td_columns d') @ td_foreign_keys d'\<rparr>)
       (if td_primary_key d' = [] then map cd_name (filter cd_primary (td_columns d'))
        else td_primary_key d')"
  by (simp add: shape_def shape_key_def)

lemma table_keys_of:
  "d = d' \<Longrightarrow>
   table_keys d =
     (if td_primary_key d' = [] then map cd_name (filter cd_primary (td_columns d'))
      else td_primary_key d') # td_unique d'"
  by (simp add: table_keys_def shape_key_def)

text \<open>The carried tables, parents first, and each one's shape worked out.\<close>

definition carried_tables :: "table_def list" where
  "carried_tables =
     [projects_table, project_repositories_table, project_activity_events_table,
      project_plan_proposals_table, project_approvals_table, project_milestones_table,
      project_work_items_table, project_work_item_dependencies_table, project_criteria_table,
      project_executions_table, project_work_packets_table, project_evidence_table,
      project_evidence_criteria_table]"

lemma filter_carried:
  "filter (\<lambda>d. transfer_class (td_name d) = Some Carried) (rev table_defs) = carried_tables"
  by (simp add: table_defs_def transfer_class_def table_declarations carried_tables_def)

lemma carried_eq: "carried = map shape carried_tables"
  by (simp only: carried_def filter_carried)

lemmas shape_projects =
  shape_of [OF projects_table_def, simplified]
lemmas shape_project_repositories =
  shape_of [OF project_repositories_table_def, simplified]
lemmas shape_project_activity_events =
  shape_of [OF project_activity_events_table_def, simplified]
lemmas shape_project_plan_proposals =
  shape_of [OF project_plan_proposals_table_def, simplified]
lemmas shape_project_approvals =
  shape_of [OF project_approvals_table_def, simplified]
lemmas shape_project_milestones =
  shape_of [OF project_milestones_table_def, simplified]
lemmas shape_project_work_items =
  shape_of [OF project_work_items_table_def, simplified]
lemmas shape_project_work_item_dependencies =
  shape_of [OF project_work_item_dependencies_table_def, simplified]
lemmas shape_project_criteria =
  shape_of [OF project_criteria_table_def, simplified]
lemmas shape_project_executions =
  shape_of [OF project_executions_table_def, simplified]
lemmas shape_project_work_packets =
  shape_of [OF project_work_packets_table_def, simplified]
lemmas shape_project_evidence =
  shape_of [OF project_evidence_table_def, simplified]
lemmas shape_project_evidence_criteria =
  shape_of [OF project_evidence_criteria_table_def, simplified]

lemmas shapes = shape_projects shape_project_repositories shape_project_activity_events
  shape_project_plan_proposals shape_project_approvals shape_project_milestones
  shape_project_work_items shape_project_work_item_dependencies shape_project_criteria
  shape_project_executions shape_project_work_packets shape_project_evidence
  shape_project_evidence_criteria

lemmas keys_projects =
  table_keys_of [OF projects_table_def, simplified]
lemmas keys_project_repositories =
  table_keys_of [OF project_repositories_table_def, simplified]
lemmas keys_project_activity_events =
  table_keys_of [OF project_activity_events_table_def, simplified]
lemmas keys_project_plan_proposals =
  table_keys_of [OF project_plan_proposals_table_def, simplified]
lemmas keys_project_approvals =
  table_keys_of [OF project_approvals_table_def, simplified]
lemmas keys_project_milestones =
  table_keys_of [OF project_milestones_table_def, simplified]
lemmas keys_project_work_items =
  table_keys_of [OF project_work_items_table_def, simplified]
lemmas keys_project_work_item_dependencies =
  table_keys_of [OF project_work_item_dependencies_table_def, simplified]
lemmas keys_project_criteria =
  table_keys_of [OF project_criteria_table_def, simplified]
lemmas keys_project_executions =
  table_keys_of [OF project_executions_table_def, simplified]
lemmas keys_project_work_packets =
  table_keys_of [OF project_work_packets_table_def, simplified]
lemmas keys_project_evidence =
  table_keys_of [OF project_evidence_table_def, simplified]
lemmas keys_project_evidence_criteria =
  table_keys_of [OF project_evidence_criteria_table_def, simplified]

lemmas keys = keys_projects keys_project_repositories keys_project_activity_events
  keys_project_plan_proposals keys_project_approvals keys_project_milestones
  keys_project_work_items keys_project_work_item_dependencies keys_project_criteria
  keys_project_executions keys_project_work_packets keys_project_evidence
  keys_project_evidence_criteria

lemma sh_name_shape [simp]: "sh_name (shape d) = td_name d"
  by (simp add: shape_def)

lemma td_name_tables [simp]:
  "td_name projects_table = ''projects''"
  "td_name project_repositories_table = ''project_repositories''"
  "td_name project_activity_events_table = ''project_activity_events''"
  "td_name project_plan_proposals_table = ''project_plan_proposals''"
  "td_name project_approvals_table = ''project_approvals''"
  "td_name project_milestones_table = ''project_milestones''"
  "td_name project_work_items_table = ''project_work_items''"
  "td_name project_work_item_dependencies_table = ''project_work_item_dependencies''"
  "td_name project_criteria_table = ''project_criteria''"
  "td_name project_executions_table = ''project_executions''"
  "td_name project_work_packets_table = ''project_work_packets''"
  "td_name project_evidence_table = ''project_evidence''"
  "td_name project_evidence_criteria_table = ''project_evidence_criteria''"
  by (simp_all add: table_declarations)

lemma table_index_carried [simp]:
  "table_index carried ''projects'' = Some 0"
  "table_index carried ''project_repositories'' = Some 1"
  "table_index carried ''project_activity_events'' = Some 2"
  "table_index carried ''project_plan_proposals'' = Some 3"
  "table_index carried ''project_approvals'' = Some 4"
  "table_index carried ''project_milestones'' = Some 5"
  "table_index carried ''project_work_items'' = Some 6"
  "table_index carried ''project_work_item_dependencies'' = Some 7"
  "table_index carried ''project_criteria'' = Some 8"
  "table_index carried ''project_executions'' = Some 9"
  "table_index carried ''project_work_packets'' = Some 10"
  "table_index carried ''project_evidence'' = Some 11"
  "table_index carried ''project_evidence_criteria'' = Some 12"
  by (simp_all add: table_index_def carried_eq carried_tables_def)

lemma carried_nth [simp]:
  "carried ! 0 = shape projects_table"
  "carried ! 1 = shape project_repositories_table"
  "carried ! 2 = shape project_activity_events_table"
  "carried ! 3 = shape project_plan_proposals_table"
  "carried ! 4 = shape project_approvals_table"
  "carried ! 5 = shape project_milestones_table"
  "carried ! 6 = shape project_work_items_table"
  "carried ! 7 = shape project_work_item_dependencies_table"
  "carried ! 8 = shape project_criteria_table"
  "carried ! 9 = shape project_executions_table"
  "carried ! 10 = shape project_work_packets_table"
  "carried ! 11 = shape project_evidence_table"
  "carried ! 12 = shape project_evidence_criteria_table"
  by (simp_all add: carried_eq carried_tables_def)

lemma find_table_carried [simp]:
  "find_table ''projects'' = Some projects_table"
  "find_table ''project_repositories'' = Some project_repositories_table"
  "find_table ''project_activity_events'' = Some project_activity_events_table"
  "find_table ''project_plan_proposals'' = Some project_plan_proposals_table"
  "find_table ''project_approvals'' = Some project_approvals_table"
  "find_table ''project_milestones'' = Some project_milestones_table"
  "find_table ''project_work_items'' = Some project_work_items_table"
  "find_table ''project_work_item_dependencies'' = Some project_work_item_dependencies_table"
  "find_table ''project_criteria'' = Some project_criteria_table"
  "find_table ''project_executions'' = Some project_executions_table"
  "find_table ''project_work_packets'' = Some project_work_packets_table"
  "find_table ''project_evidence'' = Some project_evidence_table"
  "find_table ''project_evidence_criteria'' = Some project_evidence_criteria_table"
  by (simp_all add: find_table_def table_defs_def project_transfer_bindings_table_def
      project_command_receipts_table_def)

lemma references_backward_carried: "references_backward carried 0 (map shape carried_tables)"
  by (simp add: carried_tables_def reference_ok_def shape_names_def shapes keys insert_commute)

text \<open>The registry of project tables is complete and ordered: it lists the declarations one for
  one and classifies each of them, and walking the carried tables in the order a transfer inserts
  them (parents first), every reference of a table leads to the primary key or a unique index of a
  carried table at or before it, column for column.\<close>

theorem carried_parents_first:
  "map td_name table_defs = project_tables \<and> distinct project_tables \<and>
   unclassified project_tables = [] \<and>
   map sh_name carried =
     rev (filter (\<lambda>t. transfer_class t = Some Carried) project_tables) \<and>
   references_backward carried 0 carried"
proof (intro conjI)
  show "map td_name table_defs = project_tables"
    by (simp add: table_defs_def table_declarations project_tables_def)
  show "distinct project_tables"
    by (simp add: project_tables_def)
  show "unclassified project_tables = []"
    by (simp add: unclassified_def project_tables_def transfer_class_def)
  show "map sh_name carried = rev (filter (\<lambda>t. transfer_class t = Some Carried) project_tables)"
    by (simp add: carried_eq carried_tables_def project_tables_def transfer_class_def)
  show "references_backward carried 0 carried"
    using references_backward_carried by (simp only: carried_eq [symmetric])
qed

end
