(* ===== verification/Project_Bundle.thy ===== *)
theory Project_Bundle
  imports Table_Shape Project_View Store_Progress
begin

text \<open>
  The transfer bundle (\<open>src/domains/projects/bundle.rs\<close>): one project's carried rows in a
  canonical order with their digest, its JSON form read and written, and the rewriting of one
  principal as another. \<open>sort_by\<close> is the standard library's stable sort; that the canonical
  form does not depend on the order rows were read in, and that a written bundle reads back,
  are shown here.
\<close>

section \<open>Data\<close>

record table_rows =
  tr_table :: string
  tr_columns :: "string list"
  tr_rows :: "json list list"

record project_bundle =
  bn_format :: string
  bn_version :: int
  bn_project_id :: string
  bn_digest :: string
  bn_tables :: "table_rows list"

record actor_remap =
  rm_from :: principal
  rm_to :: principal

definition bundle_format :: string where
  "bundle_format = ''comemory.project-bundle''"

definition bundle_version :: int where
  "bundle_version = 1"

definition not_a_bundle :: string where
  "not_a_bundle = ''bundle is not a comemory project bundle''"

definition unsupported_version :: string where
  "unsupported_version = ''bundle version is not supported by this engine (it reads version 1)''"

definition bundle_refusal :: "string \<Rightarrow> string \<Rightarrow> error" where
  "bundle_refusal reason message =
     Project (at_edge (invalid_field ''bundle'' reason) EdgeSchema (Some message))"

section \<open>Canonical order\<close>

datatype ordering = Less | Equal | Greater

definition cmp :: "'a :: linorder \<Rightarrow> 'a \<Rightarrow> ordering" where
  "cmp x y = (if x < y then Less else if x = y then Equal else Greater)"

text \<open>\<open>Value::as_i64\<close>, and the cell at a position of a row: \<open>row.get(i)\<close>.\<close>

fun as_i64 :: "json \<Rightarrow> int option" where
  "as_i64 (JInt i) = (if - (2 ^ 63) \<le> i \<and> i < 2 ^ 63 then Some i else None)"
| "as_i64 _ = None"

definition int_or_zero :: "json \<Rightarrow> int" where
  "int_or_zero v = (case as_i64 v of Some i \<Rightarrow> i | None \<Rightarrow> 0)"

definition cell_at :: "'a list \<Rightarrow> nat \<Rightarrow> 'a option" where
  "cell_at row i = (if i < length row then Some (row ! i) else None)"

fun is_number :: "json \<Rightarrow> bool" where
  "is_number (JInt _) = True"
| "is_number (JFloat _) = True"
| "is_number _ = False"

definition cell_rank :: "json option \<Rightarrow> nat" where
  "cell_rank v = (case v of None \<Rightarrow> 0 | Some JNull \<Rightarrow> 0 | Some x \<Rightarrow> if is_number x then 1 else 2)"

definition compare_cells :: "json option \<Rightarrow> json option \<Rightarrow> ordering" where
  "compare_cells a b =
     (case (a, b) of
        (Some (JStr x), Some (JStr y)) \<Rightarrow> cmp x y
      | (Some x, Some y) \<Rightarrow>
          if is_number x \<and> is_number y then cmp (int_or_zero x) (int_or_zero y)
          else cmp (cell_rank a) (cell_rank b)
      | _ \<Rightarrow> cmp (cell_rank a) (cell_rank b))"

text \<open>The first key column that tells two rows apart.\<close>

fun compare_rows :: "nat list \<Rightarrow> json list \<Rightarrow> json list \<Rightarrow> ordering" where
  "compare_rows [] a b = Equal"
| "compare_rows (i # rest) a b =
     (let d = compare_cells (cell_at a i) (cell_at b i)
      in if d \<noteq> Equal then d else compare_rows rest a b)"

text \<open>\<open>sort_by\<close>, a stable sort.\<close>

fun insert_by :: "('a \<Rightarrow> 'a \<Rightarrow> ordering) \<Rightarrow> 'a \<Rightarrow> 'a list \<Rightarrow> 'a list" where
  "insert_by c x [] = [x]"
| "insert_by c x (y # ys) = (if c x y = Greater then y # insert_by c x ys else x # y # ys)"

definition sort_by :: "('a \<Rightarrow> 'a \<Rightarrow> ordering) \<Rightarrow> 'a list \<Rightarrow> 'a list" where
  "sort_by c xs = foldr (insert_by c) xs []"

definition key_positions :: "table_shape \<Rightarrow> nat list" where
  "key_positions sh = List.map_filter (shape_position sh) (sh_key sh)"

text \<open>\<open>shaped\<close>: every table is paired with the first shape of its name, or left alone.\<close>

definition shape_named :: "table_shape list \<Rightarrow> string \<Rightarrow> table_shape option" where
  "shape_named shapes name = find (\<lambda>sh. sh_name sh = name) shapes"

definition on_shaped ::
  "table_shape list \<Rightarrow> (table_shape \<Rightarrow> json list list \<Rightarrow> json list list) \<Rightarrow> table_rows list \<Rightarrow>
   table_rows list" where
  "on_shaped shapes f tables =
     map (\<lambda>t. case shape_named shapes (tr_table t) of
                None \<Rightarrow> t | Some sh \<Rightarrow> t\<lparr>tr_rows := f sh (tr_rows t)\<rparr>) tables"

definition sort_rows :: "table_rows list \<Rightarrow> table_shape list \<Rightarrow> table_rows list" where
  "sort_rows tables shapes =
     on_shaped shapes (\<lambda>sh. sort_by (compare_rows (key_positions sh))) tables"

section \<open>Digest\<close>

text \<open>The derived \<open>Serialize\<close> of \<open>TableRows\<close> and \<open>Bundle\<close>.\<close>

definition table_rows_json :: "table_rows \<Rightarrow> json" where
  "table_rows_json t =
     JObj [(''table'', JStr (tr_table t)), (''columns'', json_ids (tr_columns t)),
           (''rows'', JArr (map JArr (tr_rows t)))]"

definition bundle_json :: "project_bundle \<Rightarrow> json" where
  "bundle_json b =
     JObj [(''format'', JStr (bn_format b)), (''version'', JInt (bn_version b)),
           (''projectId'', JStr (bn_project_id b)), (''digest'', JStr (bn_digest b)),
           (''tables'', JArr (map table_rows_json (bn_tables b)))]"

definition tables_digest :: "env \<Rightarrow> table_rows list \<Rightarrow> error + string" where
  "tables_digest env tables =
     and_then (bytes_and_digest Other (e_to_string env) (e_sha256 env)
                 (JArr (map table_rows_json tables)))
       (\<lambda>(_, digest). Inr digest)"

definition seal :: "env \<Rightarrow> string \<Rightarrow> table_rows list \<Rightarrow> table_shape list \<Rightarrow> error + project_bundle" where
  "seal env project_id tables shapes =
     (let tables = sort_rows tables shapes
      in and_then (tables_digest env tables) (\<lambda>digest.
         Inr \<lparr>bn_format = bundle_format, bn_version = bundle_version, bn_project_id = project_id,
              bn_digest = digest, bn_tables = tables\<rparr>))"

section \<open>Actor remap\<close>

definition strip_suffix :: "string \<Rightarrow> string \<Rightarrow> string option" where
  "strip_suffix suf s =
     (if length suf \<le> length s \<and> drop (length s - length suf) s = suf
      then Some (take (length s - length suf) s) else None)"

definition principal_pairs :: "table_shape \<Rightarrow> (nat \<times> nat) list" where
  "principal_pairs sh =
     List.map_filter (\<lambda>(kind, column).
       Option.bind (strip_suffix ''_principal_type'' (cs_name column)) (\<lambda>role.
       Option.bind (shape_position sh (role @ ''_principal_id'')) (\<lambda>i. Some (kind, i))))
       (List.enumerate 0 (sh_columns sh))"

definition cell_str :: "json list \<Rightarrow> nat \<Rightarrow> string option" where
  "cell_str row i = Option.bind (cell_at row i) json_str"

definition set_cell :: "json list \<Rightarrow> nat \<Rightarrow> string \<Rightarrow> json list" where
  "set_cell row i v = (if i < length row then row[i := JStr v] else row)"

definition remap_row ::
  "string \<times> string \<Rightarrow> string \<times> string \<Rightarrow> nat \<times> nat \<Rightarrow> json list \<Rightarrow> json list" where
  "remap_row from to pair row =
     (case pair of (kind, i) \<Rightarrow>
        if cell_str row kind = Some (fst from) \<and> cell_str row i = Some (snd from)
        then set_cell (set_cell row kind (fst to)) i (snd to) else row)"

definition principal_pair :: "principal \<Rightarrow> string \<times> string" where
  "principal_pair p = (principal_type_str (principal_type p), principal_id p)"

definition remap_actors ::
  "table_rows list \<Rightarrow> table_shape list \<Rightarrow> actor_remap \<Rightarrow> table_rows list" where
  "remap_actors tables shapes remap =
     (let from = principal_pair (rm_from remap); to = principal_pair (rm_to remap)
      in on_shaped shapes
           (\<lambda>sh rows. foldl (\<lambda>rows pair. map (remap_row from to pair) rows) rows (principal_pairs sh))
           tables)"

section \<open>Reading a bundle\<close>

text \<open>\<open>deny_unknown_fields\<close>, \<open>u64\<close>, and \<open>value.get(key)\<close>.\<close>

definition strict_fields :: "string list \<Rightarrow> json \<Rightarrow> (string \<Rightarrow> json option) option" where
  "strict_fields names v =
     (case v of
        JObj kvs \<Rightarrow> if list_all (\<lambda>k. k \<in> set names) (map fst kvs) then struct_fields names v else None
      | _ \<Rightarrow> struct_fields names v)"

fun as_u64 :: "json \<Rightarrow> int option" where
  "as_u64 (JInt i) = (if 0 \<le> i \<and> i < 2 ^ 64 then Some i else None)"
| "as_u64 _ = None"

fun json_get :: "json \<Rightarrow> string \<Rightarrow> json option" where
  "json_get (JObj kvs) k = map_of kvs k"
| "json_get _ k = None"

definition table_rows_of_json :: "json \<Rightarrow> table_rows option" where
  "table_rows_of_json v =
     Option.bind (strict_fields [''table'', ''columns'', ''rows''] v) (\<lambda>get.
     Option.bind (field json_str get ''table'') (\<lambda>table.
     Option.bind (field (json_list json_str) get ''columns'') (\<lambda>columns.
     Option.bind (field (json_list (json_list Some)) get ''rows'') (\<lambda>rows.
     Some \<lparr>tr_table = table, tr_columns = columns, tr_rows = rows\<rparr>))))"

definition bundle_of_json :: "json \<Rightarrow> project_bundle option" where
  "bundle_of_json v =
     Option.bind (strict_fields [''format'', ''version'', ''projectId'', ''digest'', ''tables''] v) (\<lambda>get.
     Option.bind (field json_str get ''format'') (\<lambda>format.
     Option.bind (field as_u64 get ''version'') (\<lambda>version.
     Option.bind (field json_str get ''projectId'') (\<lambda>project_id.
     Option.bind (field json_str get ''digest'') (\<lambda>digest.
     Option.bind (field (json_list table_rows_of_json) get ''tables'') (\<lambda>tables.
     Some \<lparr>bn_format = format, bn_version = version, bn_project_id = project_id,
           bn_digest = digest, bn_tables = tables\<rparr>))))))"

definition parse_bundle :: "env \<Rightarrow> string \<Rightarrow> error + project_bundle" where
  "parse_bundle env bytes =
     (case e_from_str env bytes of
        Inl _ \<Rightarrow> Inl (bundle_refusal ''invalid'' ''bundle is not JSON'')
      | Inr value \<Rightarrow>
          if Option.bind (json_get value ''format'') json_str \<noteq> Some bundle_format
          then Inl (bundle_refusal ''invalid'' not_a_bundle)
          else if Option.bind (json_get value ''version'') as_u64 \<noteq> Some bundle_version
          then Inl (bundle_refusal ''unsupported_version'' unsupported_version)
          else ok_or (bundle_of_json value)
                 (bundle_refusal ''invalid'' ''bundle does not match format version 1''))"

section \<open>Sorting\<close>

text \<open>Where the comparison is by a key, \<open>sort_by\<close> is the library's stable sort by that key.\<close>

lemma insert_by_key:
  assumes "\<And>y. y \<in> set ys \<Longrightarrow> c x y = cmp (f x) (f y)"
  shows "insert_by c x ys = insort_key f x ys"
  using assms by (induction ys) (auto simp: cmp_def)

lemma sort_by_key:
  assumes "\<And>x y. x \<in> set xs \<Longrightarrow> y \<in> set xs \<Longrightarrow> c x y = cmp (f x) (f y)"
  shows "sort_by c xs = sort_key f xs"
  using assms
proof (induction xs)
  case Nil
  then show ?case by (simp add: sort_by_def)
next
  case (Cons x xs)
  have "insert_by c x (sort_key f xs) = insort_key f x (sort_key f xs)"
    by (rule insert_by_key) (simp add: Cons.prems)
  with Cons show ?case by (simp add: sort_by_def)
qed

lemma sort_key_unique:
  assumes "mset xs = mset ys" "inj_on f (set xs)"
  shows "sort_key f xs = sort_key f ys"
proof (rule properties_for_sort_key)
  show "mset (sort_key f ys) = mset xs" using assms(1) by simp
  fix k assume "k \<in> set (sort_key f ys)"
  then have k: "k \<in> set xs" using mset_eq_setD [OF assms(1)] by simp
  have same: "filter (\<lambda>x. f k = f x) zs = replicate (count (mset zs) k) k" if "set zs = set xs" for zs
  proof -
    have "filter (\<lambda>x. f k = f x) zs = filter (\<lambda>x. x = k) zs"
      by (rule filter_cong) (use that k assms(2) in \<open>auto dest: inj_onD\<close>)
    also have "\<dots> = replicate (count (mset zs) k) k" by (induction zs) auto
    finally show ?thesis .
  qed
  have "set (sort_key f ys) = set xs" using mset_eq_setD [OF assms(1)] by simp
  then have "filter (\<lambda>x. f k = f x) (sort_key f ys) = replicate (count (mset xs) k) k"
    using assms(1) by (subst same) simp_all
  also have "\<dots> = filter (\<lambda>x. f k = f x) xs" by (subst same) simp_all
  finally show "filter (\<lambda>x. f k = f x) (sort_key f ys) = filter (\<lambda>x. f k = f x) xs" .
qed simp

text \<open>The key a row is sorted by; values the check lets pass are ordered by it.\<close>

definition cell_key :: "json option \<Rightarrow> nat \<times> int \<times> string" where
  "cell_key v =
     (case v of
        None \<Rightarrow> (0, 0, [])
      | Some JNull \<Rightarrow> (0, 0, [])
      | Some (JStr s) \<Rightarrow> (2, 0, s)
      | Some x \<Rightarrow> if is_number x then (1, int_or_zero x, []) else (2, 0, []))"

fun scalar_cell :: "json option \<Rightarrow> bool" where
  "scalar_cell (Some (JBool _)) = False"
| "scalar_cell (Some (JArr _)) = False"
| "scalar_cell (Some (JObj _)) = False"
| "scalar_cell _ = True"

definition row_key :: "nat list \<Rightarrow> json list \<Rightarrow> (nat \<times> int \<times> string) list" where
  "row_key key row = map (\<lambda>i. cell_key (cell_at row i)) key"

lemma compare_cells_key:
  assumes "scalar_cell a" "scalar_cell b"
  shows "compare_cells a b = cmp (cell_key a) (cell_key b)"
  using assms
  by (cases a rule: scalar_cell.cases; cases b rule: scalar_cell.cases)
    (simp_all add: compare_cells_def cell_key_def cell_rank_def cmp_def)

lemma compare_rows_key:
  assumes "\<forall>i \<in> set key. scalar_cell (cell_at a i) \<and> scalar_cell (cell_at b i)"
  shows "compare_rows key a b = cmp (row_key key a) (row_key key b)"
  using assms
  by (induction key) (auto simp: row_key_def compare_cells_key cmp_def Let_def)

definition scalar_rows :: "json list list \<Rightarrow> bool" where
  "scalar_rows rows \<longleftrightarrow> (\<forall>row \<in> set rows. \<forall>v \<in> set row. scalar_cell (Some v))"

lemma scalar_rows_cell:
  "scalar_rows rows \<Longrightarrow> row \<in> set rows \<Longrightarrow> scalar_cell (cell_at row i)"
  by (auto simp: scalar_rows_def cell_at_def)

lemma sort_rows_key:
  "scalar_rows rows \<Longrightarrow> sort_by (compare_rows key) rows = sort_key (row_key key) rows"
  by (rule sort_by_key) (simp add: compare_rows_key scalar_rows_cell)

text \<open>Rows told apart by their key have one canonical order, whatever order they came in.\<close>

definition keyed_rows :: "table_shape \<Rightarrow> json list list \<Rightarrow> bool" where
  "keyed_rows sh rows \<longleftrightarrow> scalar_rows rows \<and> inj_on (row_key (key_positions sh)) (set rows)"

lemma sort_rows_unique:
  assumes "keyed_rows sh rows" "mset rows = mset rows'"
  shows "sort_by (compare_rows (key_positions sh)) rows = sort_by (compare_rows (key_positions sh)) rows'"
proof -
  have "set rows' = set rows" using mset_eq_setD [OF assms(2)] by simp
  then have "scalar_rows rows'" using assms(1) by (simp add: keyed_rows_def scalar_rows_def)
  with assms show ?thesis
    by (simp add: keyed_rows_def sort_rows_key sort_key_unique)
qed

lemma mset_sort_by [simp]: "mset (sort_by c xs) = mset xs"
proof -
  have "mset (insert_by c x ys) = add_mset x (mset ys)" for x ys
    by (induction ys) auto
  then show ?thesis by (induction xs) (simp_all add: sort_by_def)
qed

lemma set_sort_by [simp]: "set (sort_by c xs) = set xs"
  by (metis mset_sort_by set_mset_mset)

lemma length_sort_by [simp]: "length (sort_by c xs) = length xs"
  by (metis mset_sort_by size_mset)

section \<open>Tables and their shapes\<close>

lemma on_shaped_names [simp]:
  "map tr_table (on_shaped shapes f tables) = map tr_table tables"
  "map tr_columns (on_shaped shapes f tables) = map tr_columns tables"
  "length (on_shaped shapes f tables) = length tables"
  by (auto simp: on_shaped_def split: option.splits)

lemma sort_rows_names [simp]:
  "map tr_table (sort_rows tables shapes) = map tr_table tables"
  "map tr_columns (sort_rows tables shapes) = map tr_columns tables"
  "length (sort_rows tables shapes) = length tables"
  by (simp_all add: sort_rows_def)

text \<open>Two readings of the same tables, each in its own row order.\<close>

definition same_rows :: "table_rows \<Rightarrow> table_rows \<Rightarrow> bool" where
  "same_rows t t' \<longleftrightarrow>
     tr_table t = tr_table t' \<and> tr_columns t = tr_columns t' \<and> mset (tr_rows t) = mset (tr_rows t')"

definition keyed_table :: "table_shape list \<Rightarrow> table_rows \<Rightarrow> bool" where
  "keyed_table shapes t \<longleftrightarrow>
     (case shape_named shapes (tr_table t) of None \<Rightarrow> False | Some sh \<Rightarrow> keyed_rows sh (tr_rows t))"

lemma sort_rows_order_free:
  assumes "list_all2 same_rows tables tables'" "list_all (keyed_table shapes) tables"
  shows "sort_rows tables shapes = sort_rows tables' shapes"
  using assms
proof (induction rule: list_all2_induct)
  case Nil
  then show ?case by simp
next
  case (Cons t ts t' ts')
  obtain sh where sh: "shape_named shapes (tr_table t) = Some sh" and keyed: "keyed_rows sh (tr_rows t)"
    using Cons.prems by (auto simp: keyed_table_def split: option.splits)
  have same: "tr_table t = tr_table t'" "tr_columns t = tr_columns t'"
    "mset (tr_rows t) = mset (tr_rows t')"
    using Cons.hyps(1) by (auto simp: same_rows_def)
  have
    "t\<lparr>tr_rows := sort_by (compare_rows (key_positions sh)) (tr_rows t)\<rparr> =
     t'\<lparr>tr_rows := sort_by (compare_rows (key_positions sh)) (tr_rows t')\<rparr>"
    using same(1,2)
    by (simp only: sort_rows_unique [OF keyed same(3)]) (simp add: table_rows.equality)
  moreover have "sort_rows ts shapes = sort_rows ts' shapes" using Cons by simp
  ultimately show ?case
    using sh same(1) by (simp add: sort_rows_def on_shaped_def)
qed

lemma seal_order_free_from:
  assumes "list_all2 same_rows tables tables'" "list_all (keyed_table shapes) tables"
  shows "seal env i tables shapes = seal env i tables' shapes"
  using sort_rows_order_free [OF assms] by (simp add: seal_def)

section \<open>Reading back what was written\<close>

lemma those_map_some: "(\<And>x. x \<in> set xs \<Longrightarrow> f (g x) = Some x) \<Longrightarrow> those (map f (map g xs)) = Some xs"
  by (induction xs) simp_all

lemma json_list_strs [simp]: "json_list json_str (json_ids cs) = Some cs"
  by (simp only: json_ids_def json_list.simps those_map_some json_str.simps)

lemma json_list_values [simp]: "json_list (json_list Some) (JArr (map JArr rows)) = Some rows"
proof -
  have "json_list Some (JArr vs) = Some vs" for vs by (induction vs) simp_all
  then show ?thesis by (simp only: json_list.simps those_map_some)
qed

lemma table_rows_json_back [simp]: "table_rows_of_json (table_rows_json t) = Some t"
  by (simp add: table_rows_of_json_def table_rows_json_def strict_fields_def struct_fields_def
      field_def del: json_list.simps)

lemma bundle_json_back:
  assumes "0 \<le> bn_version b" "bn_version b < 2 ^ 64"
  shows "bundle_of_json (bundle_json b) = Some b"
proof -
  have "json_list table_rows_of_json (JArr (map table_rows_json (bn_tables b))) = Some (bn_tables b)"
    by (simp only: json_list.simps those_map_some table_rows_json_back)
  with assms show ?thesis
    by (simp add: bundle_of_json_def bundle_json_def strict_fields_def struct_fields_def field_def
        del: json_list.simps)
qed

lemma parse_bundle_header:
  assumes "parse_bundle env text = Inr b"
  shows "bn_format b = bundle_format \<and> bn_version b = bundle_version"
proof -
  obtain v where v: "e_from_str env text = Inr v"
    "Option.bind (json_get v ''format'') json_str = Some bundle_format"
    "Option.bind (json_get v ''version'') as_u64 = Some bundle_version"
    "bundle_of_json v = Some b"
    using assms by (auto simp: parse_bundle_def res_simps split: sum.splits if_splits)
  then obtain kvs where kvs: "v = JObj kvs" by (cases v) auto
  then have "strict_fields names v = Some get \<Longrightarrow> get = map_of kvs" for names get
    by (auto simp: strict_fields_def struct_fields_def split: if_splits)
  with v kvs show ?thesis
    by (auto simp: bundle_of_json_def field_def bind_eq_Some_conv split: option.splits)
qed

end
