(* ===== verification/Bundle_Check.thy ===== *)
theory Bundle_Check
  imports Project_Bundle
begin

text \<open>
  A parsed bundle checked against this engine's carried tables before any store access
  (\<open>src/domains/projects/bundle_check.rs\<close>): every refusal with its message, and the bundles
  that pass, described without the walk: each carried table once with the declared columns,
  every row typed, owned and told apart by its key, every reference held by the bundle.

  \<open>Value::to_string\<close> is \<open>e_to_string\<close>, which never refuses a value; the \<open>Debug\<close> form of a
  name (\<open>{:?}\<close>, the quoted and escaped string) is the parameter \<open>debug\<close>. Sets and maps stand
  for the code's \<open>HashSet\<close> and \<open>HashMap\<close>: only membership is asked of them.
\<close>

section \<open>Refusals\<close>

definition mismatch :: "string \<Rightarrow> error" where
  "mismatch message = bundle_refusal ''schema_mismatch'' message"

definition malformed :: "string \<Rightarrow> error" where
  "malformed message = bundle_refusal ''malformed'' message"

section \<open>Tables and columns\<close>

text \<open>\<open>Vec::swap_remove\<close>: the last element takes the removed one's place.\<close>

definition swap_remove :: "nat \<Rightarrow> 'a list \<Rightarrow> 'a list" where
  "swap_remove i xs = butlast (xs[i := last xs])"

text \<open>The declared columns in order, then nothing more.\<close>

definition check_columns :: "table_shape \<Rightarrow> table_rows \<Rightarrow> error + unit" where
  "check_columns sh t =
     (case find (\<lambda>(i, name). cell_at (tr_columns t) i \<noteq> Some name)
             (List.enumerate 0 (shape_names sh)) of
        Some (i, expected) \<Rightarrow>
          Inl (mismatch (''bundle table '' @ sh_name sh @ '' column '' @ show_nat i @ '' must be '' @ expected))
      | None \<Rightarrow>
          ensure (length (tr_columns t) = length (sh_columns sh))
            (mismatch (''bundle table '' @ sh_name sh @ '' has columns this engine does not declare'')))"

fun in_shape_order ::
  "(string \<Rightarrow> string) \<Rightarrow> table_rows list \<Rightarrow> table_shape list \<Rightarrow> error + table_rows list" where
  "in_shape_order debug tables [] =
     (case tables of
        [] \<Rightarrow> Inr []
      | extra # _ \<Rightarrow>
          Inl (mismatch (''bundle table '' @ debug (concat (take 64 (chars (tr_table extra)))) @
                         '' is not carried by this engine'')))"
| "in_shape_order debug tables (sh # rest) =
     (case filter (\<lambda>i. tr_table (tables ! i) = sh_name sh) [0..<length tables] of
        [at] \<Rightarrow>
          and_then (check_columns sh (tables ! at)) (\<lambda>_.
          and_then (in_shape_order debug (swap_remove at tables) rest) (\<lambda>ordered.
          Inr (tables ! at # ordered)))
      | _ \<Rightarrow> Inl (mismatch (''bundle must list table '' @ sh_name sh @ '' exactly once'')))"

section \<open>Rows\<close>

text \<open>A value against its column: a JSON integer that is an \<open>i64\<close>, a string, or \<open>null\<close>.\<close>

fun value_fits :: "column_shape \<Rightarrow> json \<Rightarrow> bool" where
  "value_fits c JNull = (\<not> cs_not_null c)"
| "value_fits c (JStr _) = (\<not> cs_integer c)"
| "value_fits c (JInt i) = (cs_integer c \<and> as_i64 (JInt i) \<noteq> None)"
| "value_fits c _ = False"

definition value_text :: "env \<Rightarrow> json \<Rightarrow> string" where
  "value_text env v = (case e_to_string env v of Inl m \<Rightarrow> m | Inr t \<Rightarrow> t)"

text \<open>\<open>tuple\<close>: the values at some columns as one string, joined by the unit separator.\<close>

definition column_cell :: "table_shape \<Rightarrow> json list \<Rightarrow> string \<Rightarrow> json option" where
  "column_cell sh row column = Option.bind (shape_position sh column) (cell_at row)"

definition tuple :: "env \<Rightarrow> json list \<Rightarrow> table_shape \<Rightarrow> string list \<Rightarrow> string" where
  "tuple env row sh columns =
     join_with (CHR 0x1F)
       (map (\<lambda>c. case column_cell sh row c of None \<Rightarrow> ''null'' | Some v \<Rightarrow> value_text env v) columns)"

definition row_error :: "table_shape \<Rightarrow> nat \<Rightarrow> string \<Rightarrow> error" where
  "row_error sh n what =
     malformed (''bundle table '' @ sh_name sh @ '' row '' @ show_nat n @ '' '' @ what)"

definition owner_position :: "table_shape \<Rightarrow> nat option" where
  "owner_position sh =
     (if sh_name sh = ''projects'' then shape_position sh ''id''
      else shape_position sh ''project_id'')"

text \<open>One row: width, types, owner and self-edge; \<open>check_rows_from\<close> adds the key to those seen.\<close>

definition check_values :: "table_shape \<Rightarrow> nat \<Rightarrow> json list \<Rightarrow> error + unit" where
  "check_values sh n row =
     and_then (ensure (length row = length (sh_columns sh)) (row_error sh n ''has the wrong width'')) (\<lambda>_.
     (case find (\<lambda>(v, c). \<not> value_fits c v) (zip row (sh_columns sh)) of
        Some (_, c) \<Rightarrow> Inl (row_error sh n (''column '' @ cs_name c @ '' has the wrong type or is null''))
      | None \<Rightarrow> Inr ()))"

definition owned_by :: "table_shape \<Rightarrow> string \<Rightarrow> json list \<Rightarrow> bool" where
  "owned_by sh project_id row =
     (case Option.bind (owner_position sh) (cell_at row) of
        None \<Rightarrow> True | Some v \<Rightarrow> json_str v = Some project_id)"

definition blocks_itself :: "table_shape \<Rightarrow> json list \<Rightarrow> bool" where
  "blocks_itself sh row =
     (case (shape_position sh ''blocker_id'', shape_position sh ''blocked_id'') of
        (Some a, Some b) \<Rightarrow> cell_at row a = cell_at row b | _ \<Rightarrow> False)"

fun check_rows_from ::
  "env \<Rightarrow> table_shape \<Rightarrow> string \<Rightarrow> nat \<Rightarrow> string set \<Rightarrow> json list list \<Rightarrow> error + unit" where
  "check_rows_from env sh project_id n keys [] = Inr ()"
| "check_rows_from env sh project_id n keys (row # rows) =
     and_then (check_values sh n row) (\<lambda>_.
     and_then (ensure (owned_by sh project_id row)
                 (row_error sh n ''belongs to another project'')) (\<lambda>_.
     let key = tuple env row sh (sh_key sh)
     in and_then (ensure (key \<notin> keys) (row_error sh n ''repeats a key'')) (\<lambda>_.
        and_then (ensure (\<not> blocks_itself sh row) (row_error sh n ''blocks itself'')) (\<lambda>_.
        check_rows_from env sh project_id (Suc n) (insert key keys) rows))))"

definition check_rows :: "env \<Rightarrow> table_rows \<Rightarrow> table_shape \<Rightarrow> string \<Rightarrow> error + unit" where
  "check_rows env t sh project_id =
     and_then (ensure (\<not> (sh_name sh = ''projects'' \<and> length (tr_rows t) \<noteq> 1))
                 (malformed ''bundle table projects must hold exactly one row'')) (\<lambda>_.
     check_rows_from env sh project_id 0 {} (tr_rows t))"

section \<open>References\<close>

definition held_keys ::
  "env \<Rightarrow> (table_rows \<times> table_shape) list \<Rightarrow> string \<Rightarrow> string list \<Rightarrow> error + string set" where
  "held_keys env paired table columns =
     (case find (\<lambda>(_, sh). sh_name sh = table) paired of
        None \<Rightarrow> Inl (malformed (''bundle references table '' @ table @ '', which it cannot carry''))
      | Some (t, sh) \<Rightarrow> Inr (set (map (\<lambda>row. tuple env row sh columns) (tr_rows t))))"

text \<open>The keys already collected, by table and columns: the code's \<open>HashMap\<close> of \<open>HashSet\<close>s.\<close>

type_synonym targets = "string \<times> string list \<rightharpoonup> string set"

definition target_keys ::
  "env \<Rightarrow> (table_rows \<times> table_shape) list \<Rightarrow> reference \<Rightarrow> targets \<Rightarrow> error + string set \<times> targets"
where
  "target_keys env paired r targets =
     (let wanted = (rf_table r, rf_target r)
      in case targets wanted of
           Some held \<Rightarrow> Inr (held, targets)
         | None \<Rightarrow> and_then (held_keys env paired (rf_table r) (rf_target r)) (\<lambda>held.
                    Inr (held, targets(wanted \<mapsto> held))))"

definition reference_set :: "table_shape \<Rightarrow> reference \<Rightarrow> json list \<Rightarrow> bool" where
  "reference_set sh r row =
     list_all (\<lambda>c. case column_cell sh row c of None \<Rightarrow> False | Some v \<Rightarrow> v \<noteq> JNull) (rf_columns r)"

fun comma_join :: "string list \<Rightarrow> string" where
  "comma_join [] = []"
| "comma_join [c] = c"
| "comma_join (c # cs) = c @ '', '' @ comma_join cs"

definition check_reference ::
  "env \<Rightarrow> table_shape \<Rightarrow> reference \<Rightarrow> string set \<Rightarrow> json list list \<Rightarrow> error + unit" where
  "check_reference env sh r held rows =
     try_each 0 (\<lambda>n row.
       ensure (reference_set sh r row \<longrightarrow> tuple env row sh (rf_columns r) \<in> held)
         (row_error sh n (''('' @ comma_join (rf_columns r) @
            '') names a row the bundle does not hold''))) rows"

fun check_table_references ::
  "env \<Rightarrow> (table_rows \<times> table_shape) list \<Rightarrow> table_shape \<Rightarrow> json list list \<Rightarrow> targets \<Rightarrow>
   reference list \<Rightarrow> error + targets" where
  "check_table_references env paired sh rows targets [] = Inr targets"
| "check_table_references env paired sh rows targets (r # rs) =
     and_then (target_keys env paired r targets) (\<lambda>(held, targets).
     and_then (check_reference env sh r held rows) (\<lambda>_.
     check_table_references env paired sh rows targets rs))"

fun check_references_from ::
  "env \<Rightarrow> (table_rows \<times> table_shape) list \<Rightarrow> targets \<Rightarrow> (table_rows \<times> table_shape) list \<Rightarrow>
   error + unit" where
  "check_references_from env paired targets [] = Inr ()"
| "check_references_from env paired targets ((t, sh) # rest) =
     and_then (check_table_references env paired sh (tr_rows t) targets (sh_references sh)) (\<lambda>targets.
     check_references_from env paired targets rest)"

definition check_references :: "env \<Rightarrow> table_rows list \<Rightarrow> table_shape list \<Rightarrow> error + unit" where
  "check_references env tables shapes =
     check_references_from env (zip tables shapes) Map.empty (zip tables shapes)"

section \<open>The whole check\<close>

definition check_bundle ::
  "env \<Rightarrow> (string \<Rightarrow> string) \<Rightarrow> project_bundle \<Rightarrow> table_shape list \<Rightarrow> error + project_bundle" where
  "check_bundle env debug b shapes =
     and_then (ensure (bn_format b = bundle_format) (bundle_refusal ''invalid'' not_a_bundle)) (\<lambda>_.
     and_then (ensure (bn_version b = bundle_version)
                 (bundle_refusal ''unsupported_version'' unsupported_version)) (\<lambda>_.
     and_then (ensure (canonical_uuid (bn_project_id b) = Some (bn_project_id b))
                 (malformed ''bundle projectId is not a lowercase UUID'')) (\<lambda>_.
     and_then (in_shape_order debug (bn_tables b) shapes) (\<lambda>tables.
     and_then (try_each 0 (\<lambda>_ (t, sh). check_rows env t sh (bn_project_id b)) (zip tables shapes)) (\<lambda>_.
     and_then (check_references env tables shapes) (\<lambda>_.
     Inr (b\<lparr>bn_tables := tables\<rparr>)))))))"

section \<open>What the steps accept\<close>

lemma check_columns_iff [res_simps]:
  "check_columns sh t = Inr () \<longleftrightarrow> tr_columns t = shape_names sh"
proof -
  have len: "length (shape_names sh) = length (sh_columns sh)" by (simp add: shape_names_def)
  have "find (\<lambda>(i, name). cell_at (tr_columns t) i \<noteq> Some name) (List.enumerate 0 (shape_names sh)) = None \<longleftrightarrow>
     (\<forall>i < length (shape_names sh). cell_at (tr_columns t) i = Some (shape_names sh ! i))"
    by (auto simp: find_None_iff in_set_enumerate_eq)
  then show ?thesis
    by (auto simp: check_columns_def res_simps len cell_at_def list_eq_iff_nth_eq
        split: option.splits if_splits)
qed

lemma mset_swap_remove:
  assumes "i < length xs"
  shows "add_mset (xs ! i) (mset (swap_remove i xs)) = mset xs"
proof -
  let ?ys = "xs[i := last xs]"
  have "xs \<noteq> []" using assms by auto
  then have "?ys \<noteq> []" "last ?ys = last xs" by (auto simp: last_list_update)
  then have "?ys = swap_remove i xs @ [last xs]"
    by (metis append_butlast_last_id swap_remove_def)
  then have "mset ?ys = mset (swap_remove i xs @ [last xs])" by simp
  then have "mset ?ys = add_mset (last xs) (mset (swap_remove i xs))" by simp
  moreover have "mset ?ys = add_mset (last xs) (mset xs - {#xs ! i#})"
    using assms by (rule mset_update)
  ultimately have "mset (swap_remove i xs) = mset xs - {#xs ! i#}" by simp
  moreover have "xs ! i \<in># mset xs" using assms by simp
  ultimately show ?thesis by simp
qed

lemma filter_positions:
  "map ((!) xs) (filter (\<lambda>i. P (xs ! i)) [0..<length xs]) = filter P xs"
proof -
  have "filter P (map ((!) xs) [0..<length xs]) = map ((!) xs) (filter (P \<circ> (!) xs) [0..<length xs])"
    by (rule filter_map)
  then show ?thesis by (simp add: map_nth comp_def)
qed

definition table_matches :: "table_rows \<Rightarrow> table_shape \<Rightarrow> bool" where
  "table_matches t sh \<longleftrightarrow> tr_table t = sh_name sh \<and> tr_columns t = shape_names sh"

lemma list_all2_matches_names:
  "list_all2 table_matches ts shapes \<Longrightarrow> map tr_table ts = map sh_name shapes"
  by (induction rule: list_all2_induct) (auto simp: table_matches_def)

lemma in_shape_order_sound:
  "in_shape_order debug tables shapes = Inr ts \<Longrightarrow>
     mset ts = mset tables \<and> list_all2 table_matches ts shapes"
proof (induction shapes arbitrary: tables ts)
  case Nil
  then show ?case by (auto split: list.splits)
next
  case (Cons sh shapes)
  let ?P = "\<lambda>t. tr_table t = sh_name sh"
  obtain i us where i: "filter (\<lambda>i. ?P (tables ! i)) [0..<length tables] = [i]"
    and cols: "check_columns sh (tables ! i) = Inr ()"
    and us: "in_shape_order debug (swap_remove i tables) shapes = Inr us" "ts = tables ! i # us"
    using Cons.prems by (auto simp: res_simps split: list.splits)
  have "i \<in> set (filter (\<lambda>i. ?P (tables ! i)) [0..<length tables])" using i by simp
  then have "i < length tables" "?P (tables ! i)" by auto
  with Cons.IH [OF us(1)] us(2) cols show ?case
    using mset_swap_remove by (auto simp: table_matches_def res_simps)
qed

lemma in_shape_order_complete:
  assumes "distinct (map sh_name shapes)"
    "mset ts = mset tables" "list_all2 table_matches ts shapes"
  shows "in_shape_order debug tables shapes = Inr ts"
  using assms
proof (induction shapes arbitrary: tables ts)
  case Nil
  then show ?case by simp
next
  case (Cons sh shapes)
  let ?P = "\<lambda>t. tr_table t = sh_name sh"
  obtain t us where ts: "ts = t # us" and t: "table_matches t sh" and us: "list_all2 table_matches us shapes"
    using Cons.prems(3) by (auto simp: list_all2_Cons2)
  have "sh_name sh \<notin> tr_table ` set us"
    using list_all2_matches_names [OF us] Cons.prems(1) by (metis distinct.simps(2) list.set_map list.simps(9))
  then have "filter ?P us = []" unfolding filter_empty_conv by (metis imageI)
  then have "filter ?P ts = [t]" using ts t by (simp add: table_matches_def)
  then have "mset (filter ?P tables) = {#t#}"
    using Cons.prems(2) by (metis mset_filter mset_single_iff_right)
  then have "filter ?P tables = [t]" by (simp del: mset_filter)
  then have "map ((!) tables) (filter (\<lambda>i. ?P (tables ! i)) [0..<length tables]) = [t]"
    using filter_positions [of tables ?P] by simp
  then obtain i where i: "filter (\<lambda>i. ?P (tables ! i)) [0..<length tables] = [i]" "tables ! i = t"
    by (auto simp: map_eq_Cons_conv)
  then have "i \<in> set (filter (\<lambda>i. ?P (tables ! i)) [0..<length tables])" by simp
  then have "i < length tables" by auto
  from mset_swap_remove [OF this] have "add_mset t (mset us) = add_mset t (mset (swap_remove i tables))"
    using Cons.prems(2) ts i(2) by simp
  then have "mset us = mset (swap_remove i tables)" by (rule add_mset_add_mset_same_iff [THEN iffD1])
  with Cons.IH [OF _ this us] Cons.prems(1) i t ts show ?case
    by (simp add: table_matches_def res_simps check_columns_iff [THEN iffD2])
qed

text \<open>Rows.\<close>

definition row_ok :: "table_shape \<Rightarrow> string \<Rightarrow> json list \<Rightarrow> bool" where
  "row_ok sh project_id row \<longleftrightarrow>
     list_all2 value_fits (sh_columns sh) row \<and> owned_by sh project_id row \<and> \<not> blocks_itself sh row"

lemma check_values_iff [res_simps]:
  "check_values sh n row = Inr () \<longleftrightarrow> list_all2 value_fits (sh_columns sh) row"
proof -
  have "find (\<lambda>(v, c). \<not> value_fits c v) (zip row (sh_columns sh)) = None \<longleftrightarrow>
     (\<forall>(v, c) \<in> set (zip row (sh_columns sh)). value_fits c v)"
    by (auto simp: find_None_iff)
  then show ?thesis
    by (auto simp: check_values_def res_simps list_all2_iff set_zip split: option.splits)
qed

lemma check_rows_from_iff:
  "check_rows_from env sh pid n keys rows = Inr () \<longleftrightarrow>
     (\<forall>row \<in> set rows. row_ok sh pid row) \<and>
     distinct (map (\<lambda>row. tuple env row sh (sh_key sh)) rows) \<and>
     (\<forall>row \<in> set rows. tuple env row sh (sh_key sh) \<notin> keys)"
proof (induction rows arbitrary: n keys)
  case Nil
  then show ?case by simp
next
  case (Cons row rows)
  show ?case
    by (auto simp: res_simps Let_def row_ok_def Cons.IH image_iff)
qed

lemma check_rows_iff:
  "check_rows env t sh pid = Inr () \<longleftrightarrow>
     (sh_name sh = ''projects'' \<longrightarrow> length (tr_rows t) = 1) \<and>
     (\<forall>row \<in> set (tr_rows t). row_ok sh pid row) \<and>
     distinct (map (\<lambda>row. tuple env row sh (sh_key sh)) (tr_rows t))"
  by (auto simp: check_rows_def res_simps check_rows_from_iff)

lemma try_each_const_iff:
  "try_each n (\<lambda>_. f) xs = Inr () \<longleftrightarrow> (\<forall>x \<in> set xs. f x = Inr ())"
  by (induction xs arbitrary: n) (auto simp: res_simps)

text \<open>References: what the map of collected keys holds is what collecting them again would give.\<close>

definition targets_ok :: "env \<Rightarrow> (table_rows \<times> table_shape) list \<Rightarrow> targets \<Rightarrow> bool" where
  "targets_ok env paired targets \<longleftrightarrow>
     (\<forall>w held. targets w = Some held \<longrightarrow> held_keys env paired (fst w) (snd w) = Inr held)"

lemma target_keys_ok:
  assumes "targets_ok env paired targets"
  shows "target_keys env paired r targets =
     and_then (held_keys env paired (rf_table r) (rf_target r)) (\<lambda>held.
     Inr (held, if targets (rf_table r, rf_target r) = None
                then targets((rf_table r, rf_target r) \<mapsto> held) else targets))"
proof (cases "targets (rf_table r, rf_target r)")
  case None
  then show ?thesis by (simp add: target_keys_def)
next
  case (Some held)
  then have "held_keys env paired (rf_table r) (rf_target r) = Inr held"
    using assms unfolding targets_ok_def by fastforce
  with Some show ?thesis by (simp add: target_keys_def)
qed

lemma targets_ok_next:
  assumes "targets_ok env paired targets" "held_keys env paired (rf_table r) (rf_target r) = Inr held"
  shows "targets_ok env paired
     (if targets (rf_table r, rf_target r) = None
      then targets((rf_table r, rf_target r) \<mapsto> held) else targets)"
  using assms by (auto simp: targets_ok_def)

definition reference_held ::
  "env \<Rightarrow> (table_rows \<times> table_shape) list \<Rightarrow> table_shape \<Rightarrow> json list list \<Rightarrow> reference \<Rightarrow> bool" where
  "reference_held env paired sh rows r \<longleftrightarrow>
     (\<exists>held. held_keys env paired (rf_table r) (rf_target r) = Inr held \<and>
        (\<forall>row \<in> set rows. reference_set sh r row \<longrightarrow> tuple env row sh (rf_columns r) \<in> held))"

lemma check_reference_iff:
  "check_reference env sh r held rows = Inr () \<longleftrightarrow>
     (\<forall>row \<in> set rows. reference_set sh r row \<longrightarrow> tuple env row sh (rf_columns r) \<in> held)"
  by (auto simp: check_reference_def try_each_ok_iff res_simps all_set_conv_all_nth)

lemma check_table_references_ok:
  assumes "targets_ok env paired targets"
    and "check_table_references env paired sh rows targets rs = Inr targets'"
  shows "targets_ok env paired targets'"
  using assms
proof (induction rs arbitrary: targets)
  case Nil
  then show ?case by simp
next
  case (Cons r rs)
  then show ?case
    by (auto simp: target_keys_ok [OF Cons.prems(1)] res_simps simp del: if_split
        intro: targets_ok_next)
qed

lemma check_table_references_iff:
  assumes "targets_ok env paired targets"
  shows "(\<exists>targets'. check_table_references env paired sh rows targets rs = Inr targets') \<longleftrightarrow>
         (\<forall>r \<in> set rs. reference_held env paired sh rows r)"
  using assms
proof (induction rs arbitrary: targets)
  case Nil
  then show ?case by simp
next
  case (Cons r rs)
  note ok = Cons.prems
  show ?case
  proof (cases "held_keys env paired (rf_table r) (rf_target r)")
    case (Inl e)
    then show ?thesis by (simp add: target_keys_ok [OF ok] reference_held_def)
  next
    case (Inr held)
    from Cons.IH [OF targets_ok_next [OF ok Inr]] show ?thesis
      by (simp add: target_keys_ok [OF ok] Inr res_simps check_reference_iff reference_held_def)
  qed
qed

lemma check_references_from_iff:
  assumes "targets_ok env paired targets"
  shows "check_references_from env paired targets rest = Inr () \<longleftrightarrow>
     (\<forall>(t, sh) \<in> set rest. \<forall>r \<in> set (sh_references sh). reference_held env paired sh (tr_rows t) r)"
  using assms
proof (induction rest arbitrary: targets)
  case Nil
  then show ?case by simp
next
  case (Cons p rest)
  obtain t sh where p: "p = (t, sh)" by (cases p)
  note tab = check_table_references_iff [OF Cons.prems, of sh "tr_rows t" "sh_references sh"]
  show ?case
  proof (cases "check_table_references env paired sh (tr_rows t) targets (sh_references sh)")
    case (Inl e)
    then show ?thesis using tab by (auto simp: p)
  next
    case (Inr targets')
    from Cons.IH [OF check_table_references_ok [OF Cons.prems this]] show ?thesis
      using tab Inr by (simp add: p)
  qed
qed

lemma check_references_iff:
  "check_references env tables shapes = Inr () \<longleftrightarrow>
     (\<forall>(t, sh) \<in> set (zip tables shapes). \<forall>r \<in> set (sh_references sh).
        reference_held env (zip tables shapes) sh (tr_rows t) r)"
  by (simp add: check_references_def check_references_from_iff targets_ok_def)

section \<open>Tuples tell rows apart\<close>

text \<open>The documented contract of \<open>serde_json\<close>: a value always has a text, and control
  characters are escaped in it, so the unit separator never occurs.\<close>

definition text_plain :: "env \<Rightarrow> bool" where
  "text_plain env \<longleftrightarrow> (\<forall>v. \<exists>t. e_to_string env v = Inr t \<and> CHR 0x1F \<notin> set t)"

lemma value_text_inj:
  assumes "codec_ok env" "text_plain env"
  shows "value_text env v = value_text env w \<longleftrightarrow> v = w"
proof
  assume eq: "value_text env v = value_text env w"
  obtain s t where "e_to_string env v = Inr s" "e_to_string env w = Inr t"
    using assms(2) unfolding text_plain_def by metis
  moreover from this eq have "s = t" by (simp add: value_text_def)
  ultimately show "v = w" using codec_okD [OF assms(1)] by (metis Inr_inject)
qed simp

lemma value_text_plain: "text_plain env \<Longrightarrow> CHR 0x1F \<notin> set (value_text env v)"
  unfolding text_plain_def value_text_def by (metis old.sum.simps(6))

definition cells :: "table_shape \<Rightarrow> json list \<Rightarrow> string list \<Rightarrow> json option list" where
  "cells sh row columns = map (column_cell sh row) columns"

lemma tuple_eq_iff:
  assumes env: "codec_ok env" "text_plain env"
    and some: "None \<notin> set (cells sh row cs)" "None \<notin> set (cells sh' row' cs')"
    and ne: "cs \<noteq> []" "cs' \<noteq> []"
  shows "tuple env row sh cs = tuple env row' sh' cs' \<longleftrightarrow> cells sh row cs = cells sh' row' cs'"
proof -
  let ?text = "\<lambda>x. case x of None \<Rightarrow> ''null'' | Some v \<Rightarrow> value_text env v"
  have tuple: "tuple env row sh cs = join_with (CHR 0x1F) (map ?text (cells sh row cs))" for sh row cs
    by (simp add: tuple_def cells_def comp_def)
  have split: "split_on (CHR 0x1F) (tuple env row sh cs) = map ?text (cells sh row cs)"
    if "None \<notin> set (cells sh row cs)" "cs \<noteq> []" for sh row cs
    unfolding tuple
  proof (rule split_join)
    show "map ?text (cells sh row cs) \<noteq> []" using that(2) by (simp add: cells_def)
    show "\<forall>p \<in> set (map ?text (cells sh row cs)). CHR 0x1F \<notin> set p"
      using that(1) value_text_plain [OF env(2)] by (auto split: option.splits)
  qed
  have inj: "inj_on ?text (set (cells sh row cs) \<union> set (cells sh' row' cs'))"
    using some value_text_inj [OF env] by (auto simp: inj_on_def split: option.splits)
  show ?thesis
  proof
    assume "tuple env row sh cs = tuple env row' sh' cs'"
    then have "map ?text (cells sh row cs) = map ?text (cells sh' row' cs')"
      using split [OF some(1) ne(1)] split [OF some(2) ne(2)] by simp
    then show "cells sh row cs = cells sh' row' cs'" using map_inj_on inj by blast
  qed (simp add: tuple)
qed

section \<open>The carried shapes\<close>

lemma position_of_Some:
  "position_of P xs = Some i \<Longrightarrow> i < length xs \<and> P (xs ! i)"
  by (induction xs arbitrary: i) (auto split: if_splits)

lemma position_of_None: "position_of P xs = None \<longleftrightarrow> (\<forall>x \<in> set xs. \<not> P x)"
  by (induction xs) auto

lemma shape_position_name:
  "c \<in> set (shape_names sh) \<Longrightarrow> \<exists>i < length (sh_columns sh). shape_position sh c = Some i"
  unfolding shape_position_def shape_names_def
  using position_of_None [of "\<lambda>x. cs_name x = c" "sh_columns sh"] position_of_Some by fastforce

lemma references_backwardD:
  "references_backward shapes i rest \<Longrightarrow> sh \<in> set rest \<Longrightarrow> r \<in> set (sh_references sh) \<Longrightarrow>
     \<exists>j. reference_ok shapes j sh r"
  by (induction rest arbitrary: i) (auto simp: list_all_iff)

lemma carried_reference:
  assumes "sh \<in> set carried" "r \<in> set (sh_references sh)"
  shows "rf_columns r \<noteq> []" "rf_target r \<noteq> []" "set (rf_columns r) \<subseteq> set (shape_names sh)"
    and "\<exists>sh' \<in> set carried. sh_name sh' = rf_table r \<and> set (rf_target r) \<subseteq> set (shape_names sh')"
proof -
  have "references_backward carried 0 carried"
    using references_backward_carried by (simp only: carried_eq [symmetric])
  then obtain j where ok: "reference_ok carried j sh r"
    using references_backwardD assms by blast
  then show "rf_columns r \<noteq> []" "rf_target r \<noteq> []" "set (rf_columns r) \<subseteq> set (shape_names sh)"
    by (auto simp: reference_ok_def list_all_iff)
  obtain k where k: "table_index carried (rf_table r) = Some k"
    "list_all (\<lambda>c. c \<in> set (shape_names (carried ! k))) (rf_target r)"
    using ok by (auto simp: reference_ok_def split: option.splits)
  then have "k < length carried" "sh_name (carried ! k) = rf_table r"
    using position_of_Some unfolding table_index_def by blast+
  with k(2) show "\<exists>sh' \<in> set carried. sh_name sh' = rf_table r \<and> set (rf_target r) \<subseteq> set (shape_names sh')"
    by (auto simp: list_all_iff intro!: bexI [of _ "carried ! k"])
qed

lemma carried_names_distinct: "distinct (map sh_name carried)"
  by (simp add: carried_eq carried_tables_def)

lemma carried_keys:
  "sh \<in> set carried \<Longrightarrow> sh_key sh \<noteq> [] \<and> set (sh_key sh) \<subseteq> set (shape_names sh)"
proof -
  have "list_all (\<lambda>sh. sh_key sh \<noteq> [] \<and> set (sh_key sh) \<subseteq> set (shape_names sh)) carried"
    by (simp add: carried_eq carried_tables_def shapes shape_names_def)
  then show "sh \<in> set carried \<Longrightarrow> sh_key sh \<noteq> [] \<and> set (sh_key sh) \<subseteq> set (shape_names sh)"
    by (simp add: list_all_iff)
qed

lemma cells_some:
  assumes "length row = length (sh_columns sh)" "set cs \<subseteq> set (shape_names sh)"
  shows "None \<notin> set (cells sh row cs)"
proof
  assume "None \<in> set (cells sh row cs)"
  then obtain c where c: "c \<in> set cs" "column_cell sh row c = None" by (auto simp: cells_def)
  then obtain i where "i < length (sh_columns sh)" "shape_position sh c = Some i"
    using shape_position_name assms(2) by blast
  with c(2) assms(1) show False by (simp add: column_cell_def cell_at_def)
qed

section \<open>The bundles that pass\<close>

definition rows_ok :: "table_shape \<Rightarrow> string \<Rightarrow> json list list \<Rightarrow> bool" where
  "rows_ok sh project_id rows \<longleftrightarrow>
     (sh_name sh = ''projects'' \<longrightarrow> length rows = 1) \<and>
     (\<forall>row \<in> set rows. row_ok sh project_id row) \<and>
     distinct (map (\<lambda>row. cells sh row (sh_key sh)) rows)"

text \<open>Every reference that is set names a row of the bundle, cell for cell.\<close>

definition references_held :: "(table_rows \<times> table_shape) list \<Rightarrow> bool" where
  "references_held paired \<longleftrightarrow>
     (\<forall>(t, sh) \<in> set paired. \<forall>r \<in> set (sh_references sh). \<forall>row \<in> set (tr_rows t).
        reference_set sh r row \<longrightarrow>
        (\<exists>(t', sh') \<in> set paired. sh_name sh' = rf_table r \<and>
           (\<exists>row' \<in> set (tr_rows t'). cells sh row (rf_columns r) = cells sh' row' (rf_target r))))"

definition tables_ok :: "string \<Rightarrow> table_rows list \<Rightarrow> bool" where
  "tables_ok project_id tables \<longleftrightarrow>
     list_all2 (\<lambda>t sh. table_matches t sh \<and> rows_ok sh project_id (tr_rows t)) tables carried \<and>
     references_held (zip tables carried)"

definition header_ok :: "project_bundle \<Rightarrow> bool" where
  "header_ok b \<longleftrightarrow>
     bn_format b = bundle_format \<and> bn_version b = bundle_version \<and>
     canonical_uuid (bn_project_id b) = Some (bn_project_id b)"

lemma row_ok_width: "row_ok sh pid row \<Longrightarrow> length row = length (sh_columns sh)"
  by (auto simp: row_ok_def dest: list_all2_lengthD)

lemma distinct_tuples:
  assumes "codec_ok env" "text_plain env" "sh \<in> set carried" "\<forall>row \<in> set rows. row_ok sh pid row"
  shows "distinct (map (\<lambda>row. tuple env row sh (sh_key sh)) rows) \<longleftrightarrow>
     distinct (map (\<lambda>row. cells sh row (sh_key sh)) rows)"
proof -
  have "tuple env a sh (sh_key sh) = tuple env b sh (sh_key sh) \<longleftrightarrow>
     cells sh a (sh_key sh) = cells sh b (sh_key sh)" if "a \<in> set rows" "b \<in> set rows" for a b
    using that assms carried_keys [OF assms(3)] row_ok_width
    by (intro tuple_eq_iff cells_some) auto
  then show ?thesis by (simp add: distinct_map inj_on_def)
qed

lemma check_rows_ok:
  assumes "codec_ok env" "text_plain env" "sh \<in> set carried"
  shows "check_rows env t sh pid = Inr () \<longleftrightarrow> rows_ok sh pid (tr_rows t)"
  using distinct_tuples [OF assms] by (auto simp: check_rows_iff rows_ok_def)

lemma find_named:
  "distinct (map (sh_name \<circ> snd) paired) \<Longrightarrow> (t, sh) \<in> set paired \<Longrightarrow>
     find (\<lambda>(_, sh'). sh_name sh' = sh_name sh) paired = Some (t, sh)"
  by (induction paired) (auto simp: image_iff split: prod.splits)

lemma held_keys_carried:
  assumes "map snd paired = carried" "(t', sh') \<in> set paired"
  shows "held_keys env paired (sh_name sh') columns = Inr ((\<lambda>row. tuple env row sh' columns) ` set (tr_rows t'))"
proof -
  have "distinct (map (sh_name \<circ> snd) paired)"
    using assms(1) carried_names_distinct by (metis list.map_comp)
  from find_named [OF this assms(2)] show ?thesis by (simp add: held_keys_def)
qed

lemma reference_held_iff:
  assumes env: "codec_ok env" "text_plain env"
    and paired: "map snd paired = carried" "(t, sh) \<in> set paired" "r \<in> set (sh_references sh)"
    and rows: "\<forall>(t, sh) \<in> set paired. \<forall>row \<in> set (tr_rows t). row_ok sh pid row"
  shows "reference_held env paired sh (tr_rows t) r \<longleftrightarrow>
     (\<forall>row \<in> set (tr_rows t). reference_set sh r row \<longrightarrow>
        (\<exists>(t', sh') \<in> set paired. sh_name sh' = rf_table r \<and>
           (\<exists>row' \<in> set (tr_rows t'). cells sh row (rf_columns r) = cells sh' row' (rf_target r))))"
proof -
  have sh: "sh \<in> set carried" using paired(1,2) by (metis in_set_zipE set_map snd_conv image_eqI)
  note ref = carried_reference [OF sh paired(3)]
  obtain sh0 where sh0: "sh0 \<in> set carried" "sh_name sh0 = rf_table r"
    "set (rf_target r) \<subseteq> set (shape_names sh0)" using ref(4) by blast
  then obtain t0 where t0: "(t0, sh0) \<in> set paired" using paired(1) by (metis imageE list.set_map prod.collapse)
  have "distinct (map (sh_name \<circ> snd) paired)"
    using paired(1) carried_names_distinct by (metis list.map_comp)
  then have inj: "inj_on (sh_name \<circ> snd) (set paired)" by (simp add: distinct_map)
  have only: "sh' = sh0 \<and> t' = t0" if "(t', sh') \<in> set paired" "sh_name sh' = rf_table r" for t' sh'
    using inj_onD [OF inj _ that(1) t0] that(2) sh0(2) by simp
  have pick: "(\<exists>(t', sh') \<in> set paired. sh_name sh' = rf_table r \<and> Q t' sh') \<longleftrightarrow> Q t0 sh0" for Q
    using only t0 sh0(2) by blast
  have eq: "tuple env row sh (rf_columns r) = tuple env row' sh0 (rf_target r) \<longleftrightarrow>
     cells sh row (rf_columns r) = cells sh0 row' (rf_target r)"
    if "row \<in> set (tr_rows t)" "row' \<in> set (tr_rows t0)" for row row'
  proof -
    have "row_ok sh pid row" "row_ok sh0 pid row'" using rows paired(2) t0 that by blast+
    then have "None \<notin> set (cells sh row (rf_columns r))" "None \<notin> set (cells sh0 row' (rf_target r))"
      using cells_some ref(3) sh0(3) row_ok_width by metis+
    then show ?thesis using tuple_eq_iff [OF env] ref(1,2) by blast
  qed
  have "reference_held env paired sh (tr_rows t) r \<longleftrightarrow>
     (\<forall>row \<in> set (tr_rows t). reference_set sh r row \<longrightarrow>
        (\<exists>row' \<in> set (tr_rows t0). tuple env row sh (rf_columns r) = tuple env row' sh0 (rf_target r)))"
    using held_keys_carried [OF paired(1) t0, of env "rf_target r"] sh0(2)
    by (auto simp: reference_held_def image_iff)
  also have "\<dots> \<longleftrightarrow> (\<forall>row \<in> set (tr_rows t). reference_set sh r row \<longrightarrow>
        (\<exists>row' \<in> set (tr_rows t0). cells sh row (rf_columns r) = cells sh0 row' (rf_target r)))"
    using eq by blast
  also have "\<dots> \<longleftrightarrow> (\<forall>row \<in> set (tr_rows t). reference_set sh r row \<longrightarrow>
        (\<exists>(t', sh') \<in> set paired. sh_name sh' = rf_table r \<and>
           (\<exists>row' \<in> set (tr_rows t'). cells sh row (rf_columns r) = cells sh' row' (rf_target r))))"
    by (simp only: pick)
  finally show ?thesis .
qed

lemma check_tables_iff:
  assumes env: "codec_ok env" "text_plain env"
    and tables: "list_all2 table_matches tables carried"
  shows "try_each 0 (\<lambda>_ (t, sh). check_rows env t sh pid) (zip tables carried) = Inr () \<and>
       check_references env tables carried = Inr () \<longleftrightarrow> tables_ok pid tables"
proof -
  let ?paired = "zip tables carried"
  have len: "length tables = length carried" using tables by (rule list_all2_lengthD)
  then have snd: "map snd ?paired = carried" by simp
  have shs: "sh \<in> set carried" if "(t, sh) \<in> set ?paired" for t sh
    using that by (rule set_zip_rightD)
  have rows: "try_each 0 (\<lambda>_ (t, sh). check_rows env t sh pid) ?paired = Inr () \<longleftrightarrow>
     (\<forall>(t, sh) \<in> set ?paired. rows_ok sh pid (tr_rows t))"
    using check_rows_ok [OF env] shs by (fastforce simp: try_each_const_iff)
  have refs: "check_references env tables carried = Inr () \<longleftrightarrow> references_held ?paired"
    if "\<forall>(t, sh) \<in> set ?paired. rows_ok sh pid (tr_rows t)"
  proof -
    have "\<forall>(t, sh) \<in> set ?paired. \<forall>row \<in> set (tr_rows t). row_ok sh pid row"
      using that by (fastforce simp: rows_ok_def)
    from reference_held_iff [OF env snd _ _ this] show ?thesis
      by (fastforce simp: check_references_iff references_held_def)
  qed
  have "tables_ok pid tables \<longleftrightarrow>
     (\<forall>(t, sh) \<in> set ?paired. rows_ok sh pid (tr_rows t)) \<and> references_held ?paired"
    using tables len by (auto simp: tables_ok_def list_all2_iff)
  then show ?thesis using rows refs by blast
qed

lemma check_bundle_iff:
  assumes env: "codec_ok env" "text_plain env"
  shows "check_bundle env debug b carried = Inr b' \<longleftrightarrow>
     header_ok b \<and>
     (\<exists>tables. mset tables = mset (bn_tables b) \<and> tables_ok (bn_project_id b) tables \<and>
        b' = b\<lparr>bn_tables := tables\<rparr>)"
proof -
  have order: "in_shape_order debug (bn_tables b) carried = Inr ts \<longleftrightarrow>
     mset ts = mset (bn_tables b) \<and> list_all2 table_matches ts carried" for ts
    using in_shape_order_sound in_shape_order_complete [OF carried_names_distinct] by blast
  have match: "tables_ok pid ts \<Longrightarrow> list_all2 table_matches ts carried" for pid ts
    by (auto simp: tables_ok_def elim!: list_all2_mono)
  show ?thesis
    using check_tables_iff [OF env] match
    by (auto simp: check_bundle_def header_ok_def res_simps order) blast+
qed

section \<open>The refusals\<close>

definition bundle_refused :: "error \<Rightarrow> bool" where
  "bundle_refused e \<longleftrightarrow>
     (\<exists>reason \<in> {''invalid'', ''unsupported_version'', ''schema_mismatch'', ''malformed''}.
        \<exists>message. e = bundle_refusal reason message)"

lemma bundle_refused_simps [simp]:
  "bundle_refused (mismatch m)" "bundle_refused (malformed m)" "bundle_refused (row_error sh n m)"
  "bundle_refused (bundle_refusal ''invalid'' m)"
  "bundle_refused (bundle_refusal ''unsupported_version'' m)"
  by (auto simp: bundle_refused_def mismatch_def malformed_def row_error_def)

lemma bundle_refused_answer:
  "bundle_refused e \<Longrightarrow>
     fst (classify e) = ''invalid_request'' \<and> snd (classify e) = ClassBadRequest \<and> exit_code e = 64"
  by (auto simp: bundle_refused_def bundle_refusal_def invalid_field_def)

lemma check_columns_refused: "check_columns sh t = Inl e \<Longrightarrow> bundle_refused e"
  by (auto simp: check_columns_def res_simps split: option.splits)

lemma in_shape_order_refused: "in_shape_order debug tables shapes = Inl e \<Longrightarrow> bundle_refused e"
proof (induction shapes arbitrary: tables)
  case Nil
  then show ?case by (auto split: list.splits)
next
  case (Cons sh shapes)
  then show ?case
    by (auto simp: res_simps split: list.splits dest: check_columns_refused)
qed

lemma check_values_refused: "check_values sh n row = Inl e \<Longrightarrow> bundle_refused e"
  by (auto simp: check_values_def res_simps split: option.splits)

lemma check_rows_refused: "check_rows env t sh pid = Inl e \<Longrightarrow> bundle_refused e"
proof -
  have "check_rows_from env sh pid n keys rows = Inl e \<Longrightarrow> bundle_refused e" for n keys rows
    by (induction rows arbitrary: n keys) (auto simp: res_simps Let_def dest: check_values_refused)
  then show "check_rows env t sh pid = Inl e \<Longrightarrow> bundle_refused e"
    by (auto simp: check_rows_def res_simps)
qed

lemma check_table_references_refused:
  "check_table_references env paired sh rows targets rs = Inl e \<Longrightarrow> bundle_refused e"
proof (induction rs arbitrary: targets)
  case Nil
  then show ?case by simp
next
  case (Cons r rs)
  have "held_keys env paired table columns = Inl e \<Longrightarrow> bundle_refused e" for table columns
    by (auto simp: held_keys_def split: option.splits)
  moreover have "check_reference env sh r held rows = Inl e \<Longrightarrow> bundle_refused e" for held
    unfolding check_reference_def by (erule try_each_refused [rotated]) (auto simp: res_simps)
  ultimately show ?case
    using Cons by (auto simp: res_simps target_keys_def Let_def split: option.splits)
qed

lemma check_references_refused: "check_references env tables shapes = Inl e \<Longrightarrow> bundle_refused e"
proof -
  have "check_references_from env paired targets rest = Inl e \<Longrightarrow> bundle_refused e" for paired targets rest
    by (induction rest arbitrary: targets) (auto simp: res_simps dest: check_table_references_refused)
  then show "check_references env tables shapes = Inl e \<Longrightarrow> bundle_refused e"
    by (simp add: check_references_def)
qed

lemma check_bundle_refused: "check_bundle env debug b shapes = Inl e \<Longrightarrow> bundle_refused e"
proof -
  have "try_each 0 (\<lambda>_ (t, sh). check_rows env t sh pid) xs = Inl e \<Longrightarrow> bundle_refused e" for pid xs
    by (erule try_each_refused [rotated]) (auto dest: check_rows_refused)
  then show "check_bundle env debug b shapes = Inl e \<Longrightarrow> bundle_refused e"
    by (auto simp: check_bundle_def res_simps dest: in_shape_order_refused check_references_refused)
qed

section \<open>A small bundle\<close>

text \<open>A bundle that holds one draft project and nothing else.\<close>

definition demo_row :: "json list" where
  "demo_row =
     [JStr demo_id, JStr ''engine'', JStr ''ENG'', JStr ''Engine'', JStr ''Ship it'', JStr ''[]'',
      JStr ''[]'', JStr ''draft'', JStr ''unknown'', JStr ''user'', JStr ''u1'', JNull, JInt 0, JInt 1,
      JStr ''manual'', JStr ''user'', JStr ''u1'', JInt 5, JInt 5, JNull]"

definition demo_tables :: "table_rows list" where
  "demo_tables =
     map (\<lambda>sh. \<lparr>tr_table = sh_name sh, tr_columns = shape_names sh,
                tr_rows = (if sh_name sh = ''projects'' then [demo_row] else [])\<rparr>) carried"

definition demo_bundle :: project_bundle where
  "demo_bundle =
     \<lparr>bn_format = bundle_format, bn_version = bundle_version, bn_project_id = demo_id,
      bn_digest = (case tables_digest demo_env demo_tables of Inl _ \<Rightarrow> [] | Inr d \<Rightarrow> d),
      bn_tables = demo_tables\<rparr>"

lemma demo_plain: "text_plain demo_env"
  using show_nat_no_char [of "CHR 0x1F"]
  by (simp add: text_plain_def demo_text_def is_digit_def)

lemma demo_row_ok: "row_ok (shape projects_table) demo_id demo_row"
  by (simp add: row_ok_def demo_row_def shape_projects owned_by_def owner_position_def
      shape_position_def blocks_itself_def cell_at_def)

lemma demo_tables_ok: "tables_ok demo_id demo_tables"
proof -
  have row: "sh = shape projects_table" if "sh \<in> set carried" "sh_name sh = ''projects''" for sh
    using that by (auto simp: carried_eq carried_tables_def)
  have "list_all2 (\<lambda>t sh. table_matches t sh \<and> rows_ok sh demo_id (tr_rows t)) demo_tables carried"
    unfolding demo_tables_def list_all2_map1
    by (rule list_all2I) (auto simp: zip_same_conv_map table_matches_def rows_ok_def demo_row_ok dest!: row)
  moreover have "references_held (zip demo_tables carried)"
    by (auto simp: references_held_def demo_tables_def zip_map1 zip_same_conv_map shape_projects
        dest!: row split: if_splits)
  ultimately show ?thesis by (simp add: tables_ok_def)
qed

section \<open>Properties\<close>

text \<open>C29. The check is exact: a bundle passes when its header is this engine's and its tables, in some
  order, are the carried tables with the declared columns, each row of the declared width and
  types, owned by the bundle's project, told apart from its siblings by the primary key and never
  blocking itself, with one project row and every reference that is set naming a row of the
  bundle; what passes is that bundle with its tables put in order, parents first. Any other bundle
  is refused as an invalid request at the schema edge, exit code 64.\<close>

theorem bundle_check_exact:
  assumes "codec_ok env" "text_plain env"
  shows "(check_bundle env debug b carried = Inr b' \<longleftrightarrow>
       header_ok b \<and>
       (\<exists>tables. mset tables = mset (bn_tables b) \<and> tables_ok (bn_project_id b) tables \<and>
          b' = b\<lparr>bn_tables := tables\<rparr>)) \<and>
     (check_bundle env debug b carried = Inl e \<longrightarrow>
       fst (classify e) = ''invalid_request'' \<and> snd (classify e) = ClassBadRequest \<and> exit_code e = 64)"
  using check_bundle_iff [OF assms] bundle_refused_answer [OF check_bundle_refused] by blast

theorem bundle_check_exact_witness:
  "check_bundle demo_env (\<lambda>s. s) (demo_bundle\<lparr>bn_tables := rev demo_tables\<rparr>) carried = Inr demo_bundle"
proof -
  have "header_ok (demo_bundle\<lparr>bn_tables := rev demo_tables\<rparr>)"
    by (simp add: header_ok_def demo_bundle_def)
  then show ?thesis
    using bundle_check_exact [OF demo_codec demo_plain, of "\<lambda>s. s"
        "demo_bundle\<lparr>bn_tables := rev demo_tables\<rparr>" demo_bundle] demo_tables_ok
    by (simp add: demo_bundle_def)
qed

text \<open>What one engine writes another reads: the JSON of a bundle with this engine's header, parsed
  from its text, is that bundle again, and nothing that parses has any other header.\<close>

theorem bundle_round_trip:
  assumes "codec_ok env" "e_to_string env (bundle_json b) = Inr text"
    and "bn_format b = bundle_format" "bn_version b = bundle_version"
  shows "parse_bundle env text = Inr b \<and>
     (\<forall>other b'. parse_bundle env other = Inr b' \<longrightarrow>
        bn_format b' = bundle_format \<and> bn_version b' = bundle_version)"
proof -
  have "bundle_of_json (bundle_json b) = Some b"
    using assms(4) by (intro bundle_json_back) (simp_all add: bundle_version_def)
  moreover have "json_get (bundle_json b) ''format'' = Some (JStr bundle_format)"
    "json_get (bundle_json b) ''version'' = Some (JInt bundle_version)"
    using assms(3,4) by (simp_all add: bundle_json_def)
  ultimately have "parse_bundle env text = Inr b"
    using codec_okD [OF assms(1,2)] by (simp add: parse_bundle_def bundle_version_def ok_or_def)
  then show ?thesis using parse_bundle_header by blast
qed

theorem bundle_round_trip_witness:
  "parse_bundle demo_env (demo_text (bundle_json demo_bundle)) = Inr demo_bundle"
  using bundle_round_trip [OF demo_codec, of demo_bundle "demo_text (bundle_json demo_bundle)"]
  by (simp add: demo_bundle_def)

end
