(* ===== verification/Project_Transfer.thy ===== *)
theory Project_Transfer
  imports Bundle_Check
begin

text \<open>
  Moving a project between data directories: the reads and writes of any carried table
  (\<open>src/store/project_transfer.rs\<close>, \<open>project_transfer_write.rs\<close>), \<open>project export\<close>
  (\<open>src/domains/projects/export.rs\<close>) and \<open>project import\<close> (\<open>import.rs\<close>, \<open>binding.rs\<close>).

  A transfer works on every project table by its declaration, so the store here is the same
  database seen that way: the rows of each table as lists of SQLite values, positional with the
  declared columns, beside the transfer bindings and the change feed. SQLite's part is its
  constraints: \<open>NOT NULL\<close>, \<open>CHECK\<close>, the primary key and the unique indexes refuse a row, a
  \<open>NULL\<close> never equals another, and foreign keys wait for the explicit check. Values are stored
  as bound, which is so for text in a \<open>TEXT\<close> and an integer in an \<open>INTEGER\<close> column, all the check of
  a bundle lets pass.
\<close>

section \<open>The store by declaration\<close>

datatype sql_value = SqlNull | SqlInt int | SqlReal "64 word" | SqlText string | SqlBlob string

record tstore =
  t_rows :: "string \<Rightarrow> sql_value list list"
  t_bindings :: "binding_row list"
  t_changes :: "change_row list"
  t_last_seq :: int

datatype identity = KeyPrefix | Slug

definition value_at :: "table_shape \<Rightarrow> sql_value list \<Rightarrow> string \<Rightarrow> sql_value option" where
  "value_at sh row column = Option.bind (shape_position sh column) (cell_at row)"

subsection \<open>Reading\<close>

text \<open>\<open>json\<close>: one stored value. \<open>Number::from_f64\<close> refuses an infinity or NaN.\<close>

definition finite_f64 :: "64 word \<Rightarrow> bool" where
  "finite_f64 w \<longleftrightarrow> (unat w div 2 ^ 52) mod 2 ^ 11 \<noteq> 2047"

fun sql_json :: "string \<Rightarrow> sql_value \<Rightarrow> error + json" where
  "sql_json table SqlNull = Inr JNull"
| "sql_json table (SqlInt i) = Inr (JInt i)"
| "sql_json table (SqlText s) = Inr (JStr s)"
| "sql_json table (SqlReal w) =
     (if finite_f64 w then Inr (JFloat w) else Inl (Other (table @ '' holds a non-finite REAL'')))"
| "sql_json table (SqlBlob b) = Inl (Other (table @ '' holds a BLOB''))"

text \<open>The predicate that keeps a table's rows of one project.\<close>

datatype scope = ByColumn string | ByParent string string string

fun parent_scope :: "reference list \<Rightarrow> scope option" where
  "parent_scope [] = None"
| "parent_scope (r # rs) =
     (case (rf_columns r, rf_target r) of
        ([column], [key]) \<Rightarrow>
          if list_ex (\<lambda>d. td_name d = rf_table r \<and>
                         list_ex (\<lambda>c. cd_name c = ''project_id'') (td_columns d)) table_defs
          then Some (ByParent column (rf_table r) key) else parent_scope rs
      | _ \<Rightarrow> parent_scope rs)"

definition scope_of :: "table_shape \<Rightarrow> error + scope" where
  "scope_of sh =
     (if sh_name sh = ''projects'' then Inr (ByColumn ''id'')
      else if shape_position sh ''project_id'' \<noteq> None then Inr (ByColumn ''project_id'')
      else ok_or (parent_scope (sh_references sh))
             (Other (sh_name sh @ '' reaches no project: no project_id and no parent with one'')))"

definition table_value :: "string \<Rightarrow> sql_value list \<Rightarrow> string \<Rightarrow> sql_value option" where
  "table_value table row column =
     Option.bind (find_table table) (\<lambda>d. value_at (shape d) row column)"

fun in_scope :: "tstore \<Rightarrow> table_shape \<Rightarrow> string \<Rightarrow> scope \<Rightarrow> sql_value list \<Rightarrow> bool" where
  "in_scope d sh project_id (ByColumn column) row \<longleftrightarrow> value_at sh row column = Some (SqlText project_id)"
| "in_scope d sh project_id (ByParent column parent key) row \<longleftrightarrow>
     value_at sh row column \<notin> {None, Some SqlNull} \<and>
     list_ex (\<lambda>p. table_value parent p ''project_id'' = Some (SqlText project_id) \<and>
                  table_value parent p key = value_at sh row column) (t_rows d parent)"

definition transfer_rows :: "tstore \<Rightarrow> table_shape \<Rightarrow> string \<Rightarrow> error + json list list" where
  "transfer_rows d sh project_id =
     and_then (scope_of sh) (\<lambda>s.
     traverse (traverse (sql_json (sh_name sh)))
       (filter (in_scope d sh project_id s) (t_rows d (sh_name sh))))"

text \<open>The id column of the project holding a slug or key prefix, and \<open>project_read::project\<close>'s
  \<open>is_some\<close>.\<close>

definition identity_column :: "identity \<Rightarrow> string" where
  "identity_column i = (case i of KeyPrefix \<Rightarrow> ''key_prefix'' | Slug \<Rightarrow> ''slug'')"

definition identity_holder :: "tstore \<Rightarrow> identity \<Rightarrow> string \<Rightarrow> sql_value option" where
  "identity_holder d i v =
     Option.bind (find (\<lambda>row. table_value ''projects'' row (identity_column i) = Some (SqlText v))
                    (t_rows d ''projects''))
       (\<lambda>row. table_value ''projects'' row ''id'')"

definition holds_project :: "tstore \<Rightarrow> string \<Rightarrow> bool" where
  "holds_project d project_id =
     list_ex (\<lambda>row. table_value ''projects'' row ''id'' = Some (SqlText project_id))
       (t_rows d ''projects'')"

subsection \<open>Writing\<close>

datatype rows_insert = Inserted | Conflict

fun bind_json :: "json \<Rightarrow> sql_value" where
  "bind_json (JStr s) = SqlText s"
| "bind_json (JInt i) = (if as_i64 (JInt i) = None then SqlNull else SqlInt i)"
| "bind_json _ = SqlNull"

text \<open>What refuses a row: a missing value, a \<open>CHECK\<close>, a taken key.\<close>

definition same_key :: "table_shape \<Rightarrow> string list \<Rightarrow> sql_value list \<Rightarrow> sql_value list \<Rightarrow> bool" where
  "same_key sh columns row row' \<longleftrightarrow>
     list_all (\<lambda>c. value_at sh row c \<notin> {None, Some SqlNull} \<and> value_at sh row c = value_at sh row' c)
       columns"

definition row_refused :: "table_def \<Rightarrow> sql_value list list \<Rightarrow> sql_value list \<Rightarrow> bool" where
  "row_refused d held row \<longleftrightarrow>
     list_ex (\<lambda>c. cd_not_null c \<and> value_at (shape d) row (cd_name c) \<in> {None, Some SqlNull})
       (td_columns d) \<or>
     list_ex (\<lambda>(a, b). value_at (shape d) row a \<notin> {None, Some SqlNull} \<and>
                       value_at (shape d) row a = value_at (shape d) row b) (td_distinct d) \<or>
     list_ex (\<lambda>k. list_ex (same_key (shape d) k row) held) (table_keys d)"

fun insert_each ::
  "table_def \<Rightarrow> sql_value list list \<Rightarrow> sql_value list list \<Rightarrow> rows_insert \<times> sql_value list list" where
  "insert_each d held [] = (Inserted, held)"
| "insert_each d held (row # rows) =
     (if row_refused d held row then (Conflict, held) else insert_each d (held @ [row]) rows)"

definition no_such_table :: "string \<Rightarrow> error" where
  "no_such_table table =
     Sqlite (SqliteFailure SqliteCodeOther 1 (Some (''no such table: '' @ table)))"

definition insert_rows ::
  "tstore \<Rightarrow> table_shape \<Rightarrow> json list list \<Rightarrow> error + rows_insert \<times> tstore" where
  "insert_rows d sh rows =
     (case find_table (sh_name sh) of
        None \<Rightarrow> Inl (no_such_table (sh_name sh))
      | Some def \<Rightarrow>
          (case insert_each def (t_rows d (sh_name sh)) (map (map bind_json) rows) of
             (how, held) \<Rightarrow> Inr (how, d\<lparr>t_rows := (t_rows d)(sh_name sh := held)\<rparr>)))"

text \<open>\<open>PRAGMA foreign_key_check\<close> of one table: a row whose set key has no parent.\<close>

definition parent_found :: "tstore \<Rightarrow> table_shape \<Rightarrow> reference \<Rightarrow> sql_value list \<Rightarrow> bool" where
  "parent_found d sh r row \<longleftrightarrow>
     list_ex (\<lambda>p. map (table_value (rf_table r) p) (rf_target r) = map (value_at sh row) (rf_columns r))
       (t_rows d (rf_table r))"

definition key_set :: "table_shape \<Rightarrow> reference \<Rightarrow> sql_value list \<Rightarrow> bool" where
  "key_set sh r row \<longleftrightarrow> list_all (\<lambda>c. value_at sh row c \<notin> {None, Some SqlNull}) (rf_columns r)"

definition keys_resolve :: "tstore \<Rightarrow> table_shape \<Rightarrow> bool" where
  "keys_resolve d sh \<longleftrightarrow>
     list_all (\<lambda>row. list_all (\<lambda>r. key_set sh r row \<longrightarrow> parent_found d sh r row) (sh_references sh))
       (t_rows d (sh_name sh))"

definition first_key_violation :: "tstore \<Rightarrow> string list \<Rightarrow> string option" where
  "first_key_violation d tables =
     find (\<lambda>t. case find_table t of None \<Rightarrow> False | Some def \<Rightarrow> \<not> keys_resolve d (shape def)) tables"

section \<open>State and transactions\<close>

text \<open>\<open>ts_txs\<close> counts the transactions begun, \<open>ts_ticks\<close> the readings of the clock,
  \<open>ts_log\<close> is what is handed to the \<open>activity_log\<close> telemetry.\<close>

record tstate =
  ts_store :: tstore
  ts_txs :: nat
  ts_ticks :: nat
  ts_log :: "(string \<times> (error + json)) list"

type_synonym 'a transfer_step = "tstate \<Rightarrow> (error + 'a) \<times> tstate"

text \<open>A transaction whose body says whether it commits; dropped without a commit it rolls back.\<close>

definition transfer_transaction :: "env \<Rightarrow> (bool \<times> 'a) transfer_step \<Rightarrow> 'a transfer_step" where
  "transfer_transaction env body s =
     (let k = ts_txs s; s0 = s\<lparr>ts_txs := Suc k\<rparr>
      in case e_begin env k of
           Inl e \<Rightarrow> (Inl e, s0)
         | Inr _ \<Rightarrow>
             (case body s0 of
                (Inl e, s1) \<Rightarrow> (Inl e, s1\<lparr>ts_store := ts_store s\<rparr>)
              | (Inr (commits, x), s1) \<Rightarrow>
                  if \<not> commits then (Inr x, s1\<lparr>ts_store := ts_store s\<rparr>)
                  else (case e_commit env k of
                          Inl e \<Rightarrow> (Inl e, s1\<lparr>ts_store := ts_store s\<rparr>)
                        | Inr _ \<Rightarrow> (Inr x, s1))))"

text \<open>\<open>record_in\<close>: one telemetry row, whatever the answer.\<close>

definition transfer_record :: "string \<Rightarrow> ('a \<Rightarrow> json) \<Rightarrow> 'a transfer_step \<Rightarrow> 'a transfer_step" where
  "transfer_record command summary m s =
     (case m s of
        (Inr r, s') \<Rightarrow> (Inr r, s'\<lparr>ts_log := ts_log s' @ [(command, Inr (summary r))]\<rparr>)
      | (Inl e, s') \<Rightarrow> (Inl e, s'\<lparr>ts_log := ts_log s' @ [(command, Inl e)]\<rparr>))"

section \<open>Export\<close>

definition snapshot :: "env \<Rightarrow> tstore \<Rightarrow> string \<Rightarrow> error + project_bundle" where
  "snapshot env d project_id =
     and_then (traverse (\<lambda>sh.
         and_then (transfer_rows d sh project_id) (\<lambda>rows.
         Inr \<lparr>tr_table = sh_name sh, tr_columns = shape_names sh, tr_rows = rows\<rparr>)) carried)
       (\<lambda>tables. seal env project_id tables carried)"

definition export :: "env \<Rightarrow> string \<Rightarrow> project_bundle transfer_step" where
  "export env raw s =
     (case ok_or (canonical_uuid raw) (Project (invalid_field ''projectId'' ''invalid'')) of
        Inl e \<Rightarrow> (Inl e, s)
      | Inr project_id \<Rightarrow>
          transfer_transaction env (\<lambda>s.
            (and_then (ensure (holds_project (ts_store s) project_id) (Project (ProjectNotFound raw))) (\<lambda>_.
             and_then (snapshot env (ts_store s) project_id) (\<lambda>b. Inr (True, b))), s)) s)"

definition export_execute :: "env \<Rightarrow> string \<Rightarrow> project_bundle transfer_step" where
  "export_execute env raw =
     transfer_record ''project.export''
       (\<lambda>b. JObj [(''id'', JStr (bn_project_id b)), (''digest'', JStr (bn_digest b))]) (export env raw)"

section \<open>Import\<close>

record transfer_import =
  im_bundle :: project_bundle
  im_remote :: string
  im_remap :: "actor_remap option"

datatype import_outcome = Imported | Unchanged | Skipped

fun outcome_name :: "import_outcome \<Rightarrow> string" where
  "outcome_name Imported = ''imported''"
| "outcome_name Unchanged = ''unchanged''"
| "outcome_name Skipped = ''skipped''"

record import_response =
  ir_outcome :: import_outcome
  ir_project_id :: string
  ir_digest :: string
  ir_local_digest :: "string option"
  ir_rows :: nat

text \<open>The checked, sorted and remapped bundle, with the digest of what will be stored.\<close>

definition digest_mismatch :: error where
  "digest_mismatch =
     Project (at_edge (invalid_field ''digest'' ''mismatch'') EdgeSchema
       (Some ''bundle digest does not match its rows''))"

definition effective_digest ::
  "env \<Rightarrow> (string \<Rightarrow> string) \<Rightarrow> project_bundle \<Rightarrow> table_shape list \<Rightarrow> actor_remap option \<Rightarrow>
   error + project_bundle \<times> string" where
  "effective_digest env debug b shapes remap =
     and_then (check_bundle env debug b shapes) (\<lambda>b.
     let tables = sort_rows (bn_tables b) shapes
     in and_then (tables_digest env tables) (\<lambda>declared.
        and_then (ensure (declared = bn_digest b) digest_mismatch) (\<lambda>_.
        let tables = (case remap of None \<Rightarrow> tables | Some r \<Rightarrow> remap_actors tables shapes r)
        in and_then (tables_digest env tables) (\<lambda>digest.
           Inr (b\<lparr>bn_tables := tables\<rparr>, digest)))))"

text \<open>A key prefix or slug another project holds is refused, the prefix first.\<close>

definition taken_refusal :: "string \<Rightarrow> string \<Rightarrow> error" where
  "taken_refusal fld v =
     Project (push_detail
       (at_edge (invalid_field fld ''duplicate'') EdgeInvariant
         (Some (fld @ '' is already used in this workspace''))) ''value'' (JStr v))"

definition identity_value :: "table_shape \<Rightarrow> json list option \<Rightarrow> string \<Rightarrow> string" where
  "identity_value sh row column =
     (case Option.bind (shape_position sh column) (\<lambda>i.
             Option.bind row (\<lambda>r. Option.bind (cell_at r i) json_str)) of
        None \<Rightarrow> [] | Some v \<Rightarrow> v)"

definition refuse_taken_identity ::
  "tstore \<Rightarrow> project_bundle \<Rightarrow> table_shape list \<Rightarrow> error + unit" where
  "refuse_taken_identity d b shapes =
     (case (bn_tables b, shapes) of
        (project # _, sh # _) \<Rightarrow>
          (let row = (case tr_rows project of [] \<Rightarrow> None | r # _ \<Rightarrow> Some r)
           in try_each 0 (\<lambda>_ (identity, column, fld).
                let v = identity_value sh row column
                in ensure (identity_holder d identity v = None) (taken_refusal fld v))
              [(KeyPrefix, ''key_prefix'', ''keyPrefix''), (Slug, ''slug'', ''slug'')])
      | _ \<Rightarrow> Inr ())"

definition bundle_conflict :: "string \<Rightarrow> error" where
  "bundle_conflict table =
     Project (push_detail
       (at_edge (invalid_field ''bundle'' ''conflict'') EdgeInvariant
         (Some (''bundle rows of '' @ table @ '' collide with rows this data directory holds'')))
       ''table'' (JStr table))"

fun write_tables ::
  "tstore \<Rightarrow> (table_rows \<times> table_shape) list \<Rightarrow> error + tstore \<times> nat" where
  "write_tables d [] = Inr (d, 0)"
| "write_tables d ((t, sh) # rest) =
     and_then (insert_rows d sh (tr_rows t)) (\<lambda>(how, d').
       if how = Conflict then Inl (bundle_conflict (sh_name sh))
       else and_then (write_tables d' rest) (\<lambda>(d'', n). Inr (d'', length (tr_rows t) + n)))"

definition write_rows :: "tstore \<Rightarrow> project_bundle \<Rightarrow> table_shape list \<Rightarrow> error + tstore \<times> nat" where
  "write_rows d b shapes =
     and_then (write_tables d (zip (bn_tables b) shapes)) (\<lambda>(d', n).
     case first_key_violation d' (map sh_name shapes) of
       Some table \<Rightarrow> Inl (bundle_conflict table)
     | None \<Rightarrow> Inr (d', n))"

section \<open>Bindings\<close>

text \<open>\<open>binding::record\<close> with \<open>project_binding::upsert\<close>, which replaces an earlier binding of the
  project, and \<open>binding::find\<close>, what \<open>project show\<close> renders.\<close>

datatype direction = DirImported | DirExported

fun direction_str :: "direction \<Rightarrow> string" where
  "direction_str DirImported = ''imported''"
| "direction_str DirExported = ''exported''"

record new_binding =
  nb_project_id :: string
  nb_direction :: direction
  nb_remote :: string
  nb_digest :: string
  nb_remapped_from :: "principal option"
  nb_at :: int

definition record_binding :: "new_binding \<Rightarrow> tstore \<Rightarrow> tstore" where
  "record_binding nb d =
     d\<lparr>t_bindings := filter (\<lambda>b. b_project b \<noteq> nb_project_id nb) (t_bindings d) @
        [\<lparr>b_project = nb_project_id nb, b_direction = direction_str (nb_direction nb),
          b_remote = nb_remote nb, b_digest = nb_digest nb,
          b_remapped_from = map_option principal_pair (nb_remapped_from nb),
          b_transferred_at = nb_at nb\<rparr>]\<rparr>"

definition find_transfer :: "env \<Rightarrow> tstore \<Rightarrow> string \<Rightarrow> error + transfer_view option" where
  "find_transfer env d project_id =
     binding_view env project_id (find (\<lambda>b. b_project b = project_id) (t_bindings d))"

section \<open>Import in one transaction\<close>

text \<open>\<open>changes::record_change\<close> with the project's own id as the event.\<close>

definition record_import_change :: "string \<Rightarrow> int \<Rightarrow> tstore \<Rightarrow> tstore" where
  "record_import_change project_id stamp d =
     d\<lparr>t_last_seq := t_last_seq d + 1,
       t_changes := t_changes d @
         [\<lparr>ch_seq = t_last_seq d + 1, ch_project = project_id, ch_event = project_id,
           ch_entity_type = ''project'', ch_op = ''changed'', ch_created_at = stamp\<rparr>]\<rparr>"

definition transfer_now_ms :: "env \<Rightarrow> int transfer_step" where
  "transfer_now_ms env s = (Inr (e_clock env (ts_ticks s) sdiv 1000000), s\<lparr>ts_ticks := Suc (ts_ticks s)\<rparr>)"

definition import_binding ::
  "string \<Rightarrow> string \<Rightarrow> string \<Rightarrow> actor_remap option \<Rightarrow> int \<Rightarrow> new_binding" where
  "import_binding project_id remote digest remap stamp =
     \<lparr>nb_project_id = project_id, nb_direction = DirImported, nb_remote = remote,
      nb_digest = digest, nb_remapped_from = map_option rm_from remap, nb_at = stamp\<rparr>"

definition import_body ::
  "env \<Rightarrow> project_bundle \<Rightarrow> string \<Rightarrow> actor_remap option \<Rightarrow> string \<Rightarrow>
   (bool \<times> import_response) transfer_step" where
  "import_body env b remote remap digest s =
     (let project_id = bn_project_id b; d = ts_store s
      in if holds_project d project_id
         then (and_then (snapshot env d project_id) (\<lambda>held.
                 Inr (False, \<lparr>ir_outcome = (if bn_digest held = digest then Unchanged else Skipped),
                              ir_project_id = project_id, ir_digest = digest,
                              ir_local_digest = Some (bn_digest held), ir_rows = 0\<rparr>)), s)
         else case and_then (refuse_taken_identity d b carried) (\<lambda>_. write_rows d b carried) of
                Inl e \<Rightarrow> (Inl e, s)
              | Inr (d', n) \<Rightarrow>
                  (case transfer_now_ms env s of
                     (Inl e, s') \<Rightarrow> (Inl e, s')
                   | (Inr stamp, s') \<Rightarrow>
                       (Inr (True, \<lparr>ir_outcome = Imported, ir_project_id = project_id,
                                    ir_digest = digest, ir_local_digest = None, ir_rows = n\<rparr>),
                        s'\<lparr>ts_store := record_import_change project_id stamp
                             (record_binding (import_binding project_id remote digest remap stamp) d')\<rparr>)))"

definition import_apply ::
  "env \<Rightarrow> (string \<Rightarrow> string) \<Rightarrow> transfer_import \<Rightarrow> import_response transfer_step" where
  "import_apply env debug im s =
     (case effective_digest env debug (im_bundle im) carried (im_remap im) of
        Inl e \<Rightarrow> (Inl e, s)
      | Inr (b, digest) \<Rightarrow>
          transfer_transaction env (import_body env b (im_remote im) (im_remap im) digest) s)"

definition import_execute ::
  "env \<Rightarrow> (string \<Rightarrow> string) \<Rightarrow> transfer_import \<Rightarrow> import_response transfer_step" where
  "import_execute env debug im =
     transfer_record ''project.import''
       (\<lambda>r. JObj [(''id'', JStr (ir_project_id r)), (''outcome'', JStr (outcome_name (ir_outcome r))),
                 (''digest'', JStr (ir_digest r))])
       (import_apply env debug im)"

section \<open>The carried tables again\<close>

lemma carried_find:
  assumes "sh \<in> set carried"
  obtains def where "find_table (sh_name sh) = Some def" "shape def = sh"
proof -
  have "list_all (\<lambda>d. find_table (td_name d) = Some d) carried_tables"
    by (simp add: carried_tables_def)
  with assms that show thesis by (auto simp: carried_eq list_all_iff)
qed

definition owner_scope :: "table_shape \<Rightarrow> bool" where
  "owner_scope sh \<longleftrightarrow>
     (sh_name sh = ''projects'' \<and> scope_of sh = Inr (ByColumn ''id'') \<and>
        owner_position sh = shape_position sh ''id'') \<or>
     (sh_name sh \<noteq> ''projects'' \<and> scope_of sh = Inr (ByColumn ''project_id'') \<and>
        owner_position sh = shape_position sh ''project_id'' \<and>
        foreign_key [''project_id''] ''projects'' [''id''] \<in> set (sh_references sh))"

lemma criteria_scope:
  "scope_of (shape project_evidence_criteria_table) =
     Inr (ByParent ''evidence_id'' ''project_evidence'' ''id'')"
proof -
  have "list_ex (\<lambda>d. td_name d = ''project_evidence'' \<and>
      list_ex (\<lambda>c. cd_name c = ''project_id'') (td_columns d)) table_defs"
    by (simp add: table_defs_def table_declarations)
  then show ?thesis by (simp add: scope_of_def shapes shape_position_def ok_or_def)
qed

lemma carried_scope:
  assumes "sh \<in> set carried"
  shows "owner_scope sh \<or> sh = shape project_evidence_criteria_table"
proof -
  have "list_all (\<lambda>sh. owner_scope sh \<or> sh = shape project_evidence_criteria_table)
     (map shape carried_tables)"
    by (simp add: carried_tables_def owner_scope_def scope_of_def owner_position_def
        shape_position_def shapes)
  with assms show ?thesis by (auto simp: carried_eq list_all_iff)
qed

section \<open>Values through the store\<close>

lemma cell_at_map: "cell_at (map f row) i = map_option f (cell_at row i)"
  by (simp add: cell_at_def)

lemma value_at_bound:
  "value_at sh (map bind_json row) c = map_option bind_json (column_cell sh row c)"
  by (cases "shape_position sh c") (simp_all add: value_at_def column_cell_def cell_at_map)

lemma sql_json_bound: "value_fits c v \<Longrightarrow> sql_json table (bind_json v) = Inr v"
  by (cases v) (auto split: if_splits)

lemma bind_json_text [simp]: "bind_json v = SqlText s \<longleftrightarrow> v = JStr s"
  by (cases v) auto

lemma traverse_bound:
  "list_all2 value_fits cs row \<Longrightarrow> traverse (sql_json table) (map bind_json row) = Inr row"
  by (induction rule: list_all2_induct) (simp_all add: sql_json_bound)

lemma bound_set_iff:
  assumes "list_all2 value_fits (sh_columns sh) row"
  shows "value_at sh (map bind_json row) c \<notin> {None, Some SqlNull} \<longleftrightarrow>
     (\<exists>v. column_cell sh row c = Some v \<and> v \<noteq> JNull)"
proof -
  have "bind_json v = SqlNull \<longleftrightarrow> v = JNull" if cell: "column_cell sh row c = Some v" for v
  proof -
    obtain i where "i < length row" "v = row ! i"
      using cell by (auto simp: column_cell_def cell_at_def bind_eq_Some_conv split: if_splits)
    then have "value_fits (sh_columns sh ! i) v"
      using list_all2_nthD2 [OF assms] by simp
    then show ?thesis by (cases v) auto
  qed
  then show ?thesis by (auto simp: value_at_bound)
qed

section \<open>What was written\<close>

lemma insert_each_Inserted:
  "insert_each d held rows = (Inserted, held') \<Longrightarrow>
     held' = held @ rows \<and> (\<forall>i < length rows. \<not> row_refused d (held @ take i rows) (rows ! i))"
proof (induction rows arbitrary: held)
  case Nil
  then show ?case by simp
next
  case (Cons row rows)
  then have "\<not> row_refused d held row" and "insert_each d (held @ [row]) rows = (Inserted, held')"
    by (auto split: if_splits)
  with Cons.IH [OF this(2)] show ?case
    by (auto simp: nth_Cons take_Cons' split: nat.splits)
qed

lemma insert_rows_Inserted:
  assumes "insert_rows d sh rows = Inr (Inserted, d')"
  shows "\<exists>def. find_table (sh_name sh) = Some def \<and>
     d' = d\<lparr>t_rows := (t_rows d)(sh_name sh := t_rows d (sh_name sh) @ map (map bind_json) rows)\<rparr> \<and>
     insert_each def (t_rows d (sh_name sh)) (map (map bind_json) rows) =
       (Inserted, t_rows d (sh_name sh) @ map (map bind_json) rows)"
  using assms insert_each_Inserted
  by (fastforce simp: insert_rows_def split: option.splits prod.splits)

text \<open>The store after a bundle's rows went in: each table extended, all else as it was.\<close>

definition extended :: "tstore \<Rightarrow> (table_rows \<times> table_shape) list \<Rightarrow> tstore" where
  "extended d paired =
     d\<lparr>t_rows := (\<lambda>name. t_rows d name @
        (case find (\<lambda>(t, sh). sh_name sh = name) paired of
           None \<Rightarrow> [] | Some (t, sh) \<Rightarrow> map (map bind_json) (tr_rows t)))\<rparr>"

lemma write_tables_extended:
  assumes "write_tables d paired = Inr (d', n)" "distinct (map (sh_name \<circ> snd) paired)"
  shows "d' = extended d paired \<and> n = sum_list (map (length \<circ> tr_rows \<circ> fst) paired) \<and>
     (\<forall>(t, sh) \<in> set paired. \<exists>def held. find_table (sh_name sh) = Some def \<and>
        insert_each def (t_rows d (sh_name sh)) (map (map bind_json) (tr_rows t)) = (Inserted, held))"
  using assms
proof (induction paired arbitrary: d n)
  case Nil
  then show ?case by (simp add: extended_def)
next
  case (Cons p paired)
  obtain t sh where p: "p = (t, sh)" by (cases p)
  obtain d1 m where ins: "insert_rows d sh (tr_rows t) = Inr (Inserted, d1)"
    and rest: "write_tables d1 paired = Inr (d', m)" "n = length (tr_rows t) + m"
    using Cons.prems(1) by (auto simp: p res_simps split: if_splits rows_insert.splits) (metis rows_insert.exhaust)
  obtain def where def: "find_table (sh_name sh) = Some def"
    "d1 = d\<lparr>t_rows := (t_rows d)(sh_name sh := t_rows d (sh_name sh) @ map (map bind_json) (tr_rows t))\<rparr>"
    "insert_each def (t_rows d (sh_name sh)) (map (map bind_json) (tr_rows t)) =
       (Inserted, t_rows d (sh_name sh) @ map (map bind_json) (tr_rows t))"
    using insert_rows_Inserted [OF ins] by blast
  have new: "sh_name sh \<notin> (sh_name \<circ> snd) ` set paired" and dist: "distinct (map (sh_name \<circ> snd) paired)"
    using Cons.prems(2) by (simp_all add: p comp_def)
  note IH = Cons.IH [OF rest(1) dist]
  have find_new: "find (\<lambda>(t, sh'). sh_name sh' = sh_name sh) paired = None"
    using new by (force simp: find_None_iff)
  have "extended d1 paired = extended d (p # paired)"
    using find_new by (auto simp: extended_def def(2) p fun_eq_iff)
  moreover have "t_rows d1 (sh_name sh') = t_rows d (sh_name sh')" if "(t', sh') \<in> set paired" for t' sh'
    using new that by (force simp: def(2))
  ultimately show ?case using IH rest(2) def by (fastforce simp: p)
qed

section \<open>Whose rows are whose\<close>

definition keys_hold :: "tstore \<Rightarrow> bool" where
  "keys_hold d \<longleftrightarrow> list_all (keys_resolve d) carried"

text \<open>A checked bundle's tables met by a store that takes them.\<close>

definition arrives :: "tstore \<Rightarrow> string \<Rightarrow> table_rows list \<Rightarrow> bool" where
  "arrives d project_id tables \<longleftrightarrow>
     keys_hold d \<and> \<not> holds_project d project_id \<and>
     list_all2 (\<lambda>t sh. table_matches t sh \<and> (\<forall>row \<in> set (tr_rows t). row_ok sh project_id row))
       tables carried \<and>
     references_held (zip tables carried) \<and>
     (\<forall>(t, sh) \<in> set (zip tables carried). \<exists>def held. find_table (sh_name sh) = Some def \<and>
        insert_each def (t_rows d (sh_name sh)) (map (map bind_json) (tr_rows t)) = (Inserted, held))"

definition arrived :: "tstore \<Rightarrow> table_rows list \<Rightarrow> tstore" where
  "arrived d tables = extended d (zip tables carried)"

lemma table_value_carried [simp]:
  "table_value ''projects'' row c = value_at (shape projects_table) row c"
  "table_value ''project_evidence'' row c = value_at (shape project_evidence_table) row c"
  by (simp_all add: table_value_def)

lemma carried_named:
  "sh \<in> set carried \<Longrightarrow> find_table (sh_name sh) = Some def \<Longrightarrow> sh = shape def"
  by (metis carried_find option.inject)

lemma carried_projects: "sh \<in> set carried \<Longrightarrow> sh_name sh = ''projects'' \<Longrightarrow> sh = shape projects_table"
  using carried_named [of sh projects_table] by simp

lemma carried_evidence:
  "sh \<in> set carried \<Longrightarrow> sh_name sh = ''project_evidence'' \<Longrightarrow> sh = shape project_evidence_table"
  using carried_named [of sh project_evidence_table] by simp

lemma arrivesD:
  assumes "arrives d pid tables" "(t, sh) \<in> set (zip tables carried)"
  shows "sh \<in> set carried" "\<forall>row \<in> set (tr_rows t). row_ok sh pid row" "table_matches t sh"
    and "\<exists>def held. find_table (sh_name sh) = Some def \<and>
           insert_each def (t_rows d (sh_name sh)) (map (map bind_json) (tr_rows t)) = (Inserted, held)"
  using assms by (auto simp: arrives_def list_all2_iff dest: set_zip_rightD)

lemma arrived_rows:
  assumes "arrives d pid tables" "(t, sh) \<in> set (zip tables carried)"
  shows "t_rows (arrived d tables) (sh_name sh) = t_rows d (sh_name sh) @ map (map bind_json) (tr_rows t)"
proof -
  have len: "length tables = length carried"
    using assms(1) by (auto simp: arrives_def dest: list_all2_lengthD)
  then have "distinct (map (sh_name \<circ> snd) (zip tables carried))"
    using carried_names_distinct by (metis list.map_comp map_snd_zip)
  from find_named [OF this assms(2)] show ?thesis by (simp add: arrived_def extended_def)
qed

text \<open>The owner column of a table that has one.\<close>

definition owner_column :: "table_shape \<Rightarrow> string" where
  "owner_column sh = (if sh_name sh = ''projects'' then ''id'' else ''project_id'')"

lemma owner_scope_of: "owner_scope sh \<Longrightarrow> scope_of sh = Inr (ByColumn (owner_column sh))"
  by (auto simp: owner_scope_def owner_column_def)

lemma new_row_owner:
  assumes "sh \<in> set carried" "owner_scope sh" "row_ok sh pid row"
  shows "value_at sh (map bind_json row) (owner_column sh) = Some (SqlText pid)"
proof -
  have "list_all (\<lambda>sh. owner_scope sh \<longrightarrow> owner_column sh \<in> set (shape_names sh)) (map shape carried_tables)"
    by (simp add: carried_tables_def owner_column_def shape_names_def shapes owner_scope_def
        foreign_key_def)
  then have "owner_column sh \<in> set (shape_names sh)"
    using assms(1,2) by (auto simp: carried_eq list_all_iff)
  then obtain i where i: "i < length (sh_columns sh)" "shape_position sh (owner_column sh) = Some i"
    using shape_position_name by blast
  moreover have "owner_position sh = Some i"
    using assms(2) i(2) by (auto simp: owner_scope_def owner_column_def)
  moreover have "json_str v = Some pid \<longleftrightarrow> v = JStr pid" for v by (cases v) auto
  ultimately show ?thesis
    using assms(3) row_ok_width [OF assms(3)]
    by (simp add: row_ok_def owned_by_def cell_at_def value_at_bound column_cell_def)
qed

lemma old_row_owner:
  assumes "keys_hold d" "\<not> holds_project d pid"
    and "sh \<in> set carried" "owner_scope sh" "row \<in> set (t_rows d (sh_name sh))"
  shows "value_at sh row (owner_column sh) \<noteq> Some (SqlText pid)"
proof
  assume own: "value_at sh row (owner_column sh) = Some (SqlText pid)"
  show False
  proof (cases "sh_name sh = ''projects''")
    case True
    then show False
      using own assms(2,3,5) carried_projects [OF assms(3) True]
      by (auto simp: owner_column_def holds_project_def list_ex_iff)
  next
    case False
    let ?r = "foreign_key [''project_id''] ''projects'' [''id'']"
    have "?r \<in> set (sh_references sh)" using assms(4) False by (simp add: owner_scope_def)
    moreover have "key_set sh ?r row" using own False by (simp add: key_set_def owner_column_def)
    ultimately have "parent_found d sh ?r row"
      using assms(1,3,5) unfolding keys_hold_def keys_resolve_def list_all_iff by blast
    then show False
      using own False assms(2)
      by (auto simp: parent_found_def owner_column_def holds_project_def list_ex_iff)
  qed
qed

text \<open>An evidence row that was here and one that arrived never share an id: the primary key would
  have refused the second.\<close>

lemma evidence_ids_apart:
  assumes "arrives d pid tables" "(t, shape project_evidence_table) \<in> set (zip tables carried)"
    and "old \<in> set (t_rows d ''project_evidence'')" "row \<in> set (tr_rows t)"
    and "value_at (shape project_evidence_table) (map bind_json row) ''id'' \<notin> {None, Some SqlNull}"
  shows "value_at (shape project_evidence_table) old ''id'' \<noteq>
     value_at (shape project_evidence_table) (map bind_json row) ''id''"
proof
  let ?ev = "project_evidence_table"
  assume eq: "value_at (shape ?ev) old ''id'' = value_at (shape ?ev) (map bind_json row) ''id''"
  obtain held where "insert_each ?ev (t_rows d ''project_evidence'') (map (map bind_json) (tr_rows t)) = (Inserted, held)"
    using arrivesD(4) [OF assms(1,2)] by auto
  note ins = insert_each_Inserted [OF this, THEN conjunct2]
  obtain i where i: "i < length (tr_rows t)" "tr_rows t ! i = row" using assms(4) by (auto simp: in_set_conv_nth)
  let ?before = "t_rows d ''project_evidence'' @ take i (map (map bind_json) (tr_rows t))"
  have "\<not> row_refused ?ev ?before (map bind_json row)" using ins i by auto
  moreover have "same_key (shape ?ev) [''id''] (map bind_json row) old"
    using assms(5) eq by (simp add: same_key_def)
  moreover have "[''id''] \<in> set (table_keys ?ev)" by (simp add: keys)
  ultimately show False using assms(3) unfolding row_refused_def list_ex_iff by auto
qed

lemma evidence_shape_carried:
  assumes "arrives d pid tables"
  obtains t where "(t, shape project_evidence_table) \<in> set (zip tables carried)"
proof -
  have len: "length tables = length carried"
    using assms by (auto simp: arrives_def dest: list_all2_lengthD)
  have "shape project_evidence_table \<in> set carried" by (simp add: carried_eq carried_tables_def)
  then obtain i where "i < length carried" "carried ! i = shape project_evidence_table"
    by (auto simp: in_set_conv_nth)
  then have "(tables ! i, shape project_evidence_table) \<in> set (zip tables carried)"
    using len by (auto simp: in_set_zip)
  with that show thesis .
qed

text \<open>The criteria table reaches its project through the evidence it names.\<close>

abbreviation criteria_shape :: table_shape where
  "criteria_shape \<equiv> shape project_evidence_criteria_table"

abbreviation evidence_reference :: reference where
  "evidence_reference \<equiv> foreign_key [''evidence_id''] ''project_evidence'' [''id'']"

lemma criteria_facts:
  "sh_name criteria_shape = ''project_evidence_criteria''"
  "evidence_reference \<in> set (sh_references criteria_shape)"
  "owner_scope (shape project_evidence_table)"
  "owner_column (shape project_evidence_table) = ''project_id''"
  "sh_columns criteria_shape ! 0 = \<lparr>cs_name = ''evidence_id'', cs_integer = False, cs_not_null = True\<rparr>"
  "shape_position criteria_shape ''evidence_id'' = Some 0" "0 < length (sh_columns criteria_shape)"
  by (simp_all add: shapes owner_scope_def owner_column_def scope_of_def owner_position_def
      shape_position_def)

lemma new_criteria_parent:
  assumes "arrives d pid tables" "(t, criteria_shape) \<in> set (zip tables carried)" "row \<in> set (tr_rows t)"
  shows "\<exists>t' row'. (t', shape project_evidence_table) \<in> set (zip tables carried) \<and>
     row' \<in> set (tr_rows t') \<and>
     value_at criteria_shape (map bind_json row) ''evidence_id'' =
       value_at (shape project_evidence_table) (map bind_json row') ''id'' \<and>
     value_at criteria_shape (map bind_json row) ''evidence_id'' \<notin> {None, Some SqlNull}"
proof -
  let ?sh = criteria_shape
  have ok: "row_ok ?sh pid row" using arrivesD(2) [OF assms(1,2)] assms(3) by blast
  then have fits: "list_all2 value_fits (sh_columns ?sh) row" by (simp add: row_ok_def)
  then have v: "value_fits (sh_columns ?sh ! 0) (row ! 0)" "0 < length row"
    using criteria_facts(7) list_all2_nthD [of value_fits "sh_columns ?sh" row 0] list_all2_lengthD [OF fits]
    by auto
  then have cell: "column_cell ?sh row ''evidence_id'' = Some (row ! 0)" "row ! 0 \<noteq> JNull"
    by (auto simp: column_cell_def criteria_facts cell_at_def)
  then have "reference_set ?sh evidence_reference row" by (simp add: reference_set_def)
  then obtain t' sh' row' where found: "(t', sh') \<in> set (zip tables carried)" "sh_name sh' = ''project_evidence''"
    "row' \<in> set (tr_rows t')" "cells ?sh row [''evidence_id''] = cells sh' row' [''id'']"
    using assms criteria_facts(2) unfolding arrives_def references_held_def by fastforce
  have "sh' = shape project_evidence_table"
    using carried_evidence found(2) set_zip_rightD [OF found(1)] by blast
  moreover have "value_at ?sh (map bind_json row) ''evidence_id'' \<notin> {None, Some SqlNull}"
    using bound_set_iff [OF fits, of "''evidence_id''"] cell by blast
  ultimately show ?thesis
    using found by (auto simp: value_at_bound cells_def)
qed

lemma arrived_evidence:
  assumes "arrives d pid tables" "(t, shape project_evidence_table) \<in> set (zip tables carried)"
  shows "t_rows (arrived d tables) ''project_evidence'' =
     t_rows d ''project_evidence'' @ map (map bind_json) (tr_rows t)"
  using arrived_rows [OF assms] by simp

lemma new_row_scope:
  assumes "arrives d pid tables" "(t, sh) \<in> set (zip tables carried)" "row \<in> set (tr_rows t)"
    and "scope_of sh = Inr s"
  shows "in_scope (arrived d tables) sh pid' s (map bind_json row) \<longleftrightarrow> pid' = pid"
proof -
  note sh = arrivesD(1) [OF assms(1,2)]
  have ok: "row_ok sh pid row" using arrivesD(2) [OF assms(1,2)] assms(3) by blast
  from carried_scope [OF sh] show ?thesis
  proof
    assume own: "owner_scope sh"
    from new_row_owner [OF sh own ok] assms(4) show ?thesis
      by (auto simp: owner_scope_of [OF own])
  next
    assume crit: "sh = criteria_shape"
    let ?ev = "shape project_evidence_table"
    let ?v = "value_at sh (map bind_json row) ''evidence_id''"
    obtain t' row' where par: "(t', ?ev) \<in> set (zip tables carried)" "row' \<in> set (tr_rows t')"
      "?v = value_at ?ev (map bind_json row') ''id''" "?v \<notin> {None, Some SqlNull}"
      using new_criteria_parent [OF assms(1) _ assms(3)] assms(2) crit by blast
    have owner: "value_at ?ev (map bind_json r) ''project_id'' = Some (SqlText pid)"
      if "r \<in> set (tr_rows t')" for r
      using new_row_owner [OF arrivesD(1) [OF assms(1) par(1)] criteria_facts(3)]
        arrivesD(2) [OF assms(1) par(1)] that criteria_facts(4) by auto
    have scope: "s = ByParent ''evidence_id'' ''project_evidence'' ''id''"
      using assms(4) crit criteria_scope by simp
    have apart: "value_at ?ev old ''id'' \<noteq> ?v" if "old \<in> set (t_rows d ''project_evidence'')" for old
      using evidence_ids_apart [OF assms(1) par(1) that par(2)] par(3,4) by simp
    have "in_scope (arrived d tables) sh pid' s (map bind_json row) \<longleftrightarrow>
       (\<exists>p \<in> set (t_rows d ''project_evidence'' @ map (map bind_json) (tr_rows t')).
          value_at ?ev p ''project_id'' = Some (SqlText pid') \<and> value_at ?ev p ''id'' = ?v)"
      using par(4) by (simp add: scope arrived_evidence [OF assms(1) par(1)] list_ex_iff)
    also have "\<dots> \<longleftrightarrow> (\<exists>r \<in> set (tr_rows t'). value_at ?ev (map bind_json r) ''project_id'' = Some (SqlText pid') \<and>
          value_at ?ev (map bind_json r) ''id'' = ?v)"
      using apart by auto
    also have "\<dots> \<longleftrightarrow> pid' = pid" using owner par(2,3) by auto
    finally show ?thesis .
  qed
qed

lemma old_row_scope:
  assumes "arrives d pid tables" "sh \<in> set carried" "row \<in> set (t_rows d (sh_name sh))"
    and "scope_of sh = Inr s"
  shows "in_scope (arrived d tables) sh pid' s row \<longleftrightarrow> pid' \<noteq> pid \<and> in_scope d sh pid' s row"
proof -
  have hold: "keys_hold d" "\<not> holds_project d pid" using assms(1) by (simp_all add: arrives_def)
  from carried_scope [OF assms(2)] show ?thesis
  proof
    assume own: "owner_scope sh"
    from old_row_owner [OF hold assms(2) own assms(3)] assms(4) show ?thesis
      by (auto simp: owner_scope_of [OF own])
  next
    assume crit: "sh = criteria_shape"
    let ?ev = "shape project_evidence_table" and ?old = "t_rows d ''project_evidence''"
    let ?v = "value_at sh row ''evidence_id''"
    obtain t' where t': "(t', ?ev) \<in> set (zip tables carried)" by (rule evidence_shape_carried [OF assms(1)])
    have scope: "s = ByParent ''evidence_id'' ''project_evidence'' ''id''"
      using assms(4) crit criteria_scope by simp
    show ?thesis
    proof (cases "?v \<in> {None, Some SqlNull}")
      case True
      then show ?thesis by (auto simp: scope)
    next
      case set: False
      then have "key_set sh evidence_reference row" by (simp add: key_set_def)
      then have "parent_found d sh evidence_reference row"
        using hold(1) assms(2,3) criteria_facts(2) crit
        unfolding keys_hold_def keys_resolve_def list_all_iff by blast
      then obtain p0 where p0: "p0 \<in> set ?old" "value_at ?ev p0 ''id'' = ?v"
        by (auto simp: parent_found_def list_ex_iff)
      have new: "value_at ?ev (map bind_json r) ''id'' \<noteq> ?v" if "r \<in> set (tr_rows t')" for r
        using evidence_ids_apart [OF assms(1) t' p0(1) that] p0(2) set by auto
      have mine: "value_at ?ev p ''project_id'' \<noteq> Some (SqlText pid)" if "p \<in> set ?old" for p
        using old_row_owner [OF hold arrivesD(1) [OF assms(1) t'] criteria_facts(3)] that criteria_facts(4)
        by simp
      have "in_scope (arrived d tables) sh pid' s row \<longleftrightarrow>
         (\<exists>p \<in> set ?old. value_at ?ev p ''project_id'' = Some (SqlText pid') \<and> value_at ?ev p ''id'' = ?v)"
        using set new by (auto simp: scope arrived_evidence [OF assms(1) t'] list_ex_iff)
      also have "\<dots> \<longleftrightarrow> in_scope d sh pid' s row"
        using set by (simp add: scope list_ex_iff)
      finally show ?thesis using mine set by (auto simp: scope list_ex_iff)
    qed
  qed
qed

text \<open>So the rows of the project that arrived are those that came, and every other project's are
  what they were.\<close>

lemma arrived_transfer_rows:
  assumes "arrives d pid tables" "(t, sh) \<in> set (zip tables carried)"
  shows "transfer_rows (arrived d tables) sh pid = Inr (tr_rows t)"
    and "pid' \<noteq> pid \<Longrightarrow> transfer_rows (arrived d tables) sh pid' = transfer_rows d sh pid'"
proof -
  note sh = arrivesD(1) [OF assms]
  obtain s where s: "scope_of sh = Inr s"
    using carried_scope [OF sh] owner_scope_of criteria_scope by metis
  have rows: "filter (in_scope (arrived d tables) sh p s) (t_rows (arrived d tables) (sh_name sh)) =
     (if p = pid then map (map bind_json) (tr_rows t)
      else filter (in_scope d sh p s) (t_rows d (sh_name sh)))" for p
    using new_row_scope [OF assms _ s] old_row_scope [OF assms(1) sh _ s]
    by (auto simp: arrived_rows [OF assms] filter_map comp_def intro!: filter_cong filter_True
        simp: filter_empty_conv)
  have "traverse (traverse (sql_json (sh_name sh))) (map (map bind_json) (tr_rows t)) = Inr (tr_rows t)"
    unfolding traverse_Inr_iff [of "traverse (sql_json (sh_name sh))"] list_all2_map1
    by (rule list.rel_refl_strong) (use arrivesD(2) [OF assms] traverse_bound in \<open>auto simp: row_ok_def\<close>)
  then show "transfer_rows (arrived d tables) sh pid = Inr (tr_rows t)"
    by (simp add: transfer_rows_def s rows)
  show "pid' \<noteq> pid \<Longrightarrow> transfer_rows (arrived d tables) sh pid' = transfer_rows d sh pid'"
    by (simp add: transfer_rows_def s rows)
qed

section \<open>Settled tables\<close>

text \<open>Tables that passed the check, in canonical order: what an import writes.\<close>

definition settled :: "string \<Rightarrow> table_rows list \<Rightarrow> bool" where
  "settled project_id tables \<longleftrightarrow>
     list_all2 (\<lambda>t sh. table_matches t sh \<and> (\<forall>row \<in> set (tr_rows t). row_ok sh project_id row))
       tables carried \<and>
     references_held (zip tables carried) \<and> sort_rows tables carried = tables"

lemma shape_named_carried: "sh \<in> set carried \<Longrightarrow> shape_named carried (sh_name sh) = Some sh"
proof -
  have "distinct (map sh_name xs) \<Longrightarrow> sh \<in> set xs \<Longrightarrow>
      find (\<lambda>sh'. sh_name sh' = sh_name sh) xs = Some sh" for xs
    by (induction xs) (auto simp: image_iff)
  then show "sh \<in> set carried \<Longrightarrow> shape_named carried (sh_name sh) = Some sh"
    using carried_names_distinct by (simp add: shape_named_def)
qed

lemma on_shaped_carried:
  assumes "list_all2 table_matches ts carried"
  shows "on_shaped carried f ts = map (\<lambda>(t, sh). t\<lparr>tr_rows := f sh (tr_rows t)\<rparr>) (zip ts carried)"
    and "zip (on_shaped carried f ts) carried =
       map (\<lambda>(t, sh). (t\<lparr>tr_rows := f sh (tr_rows t)\<rparr>, sh)) (zip ts carried)"
proof -
  have len: "length ts = length carried" using assms by (rule list_all2_lengthD)
  have "shape_named carried (tr_table (ts ! i)) = Some (carried ! i)" if "i < length carried" for i
    using list_all2_nthD2 [OF assms that] shape_named_carried [of "carried ! i"] that
    by (simp add: table_matches_def)
  then show *: "on_shaped carried f ts = map (\<lambda>(t, sh). t\<lparr>tr_rows := f sh (tr_rows t)\<rparr>) (zip ts carried)"
    using len by (intro nth_equalityI) (simp_all add: on_shaped_def)
  show "zip (on_shaped carried f ts) carried =
       map (\<lambda>(t, sh). (t\<lparr>tr_rows := f sh (tr_rows t)\<rparr>, sh)) (zip ts carried)"
    using len by (intro nth_equalityI) (simp_all add: *)
qed

lemma matched_rows_map:
  assumes "list_all2 (\<lambda>t sh. table_matches t sh \<and> (\<forall>row \<in> set (tr_rows t). Q sh row)) ts carried"
    and "\<And>sh rows. \<forall>row \<in> set rows. Q sh row \<Longrightarrow> \<forall>row \<in> set (f sh rows). Q sh row"
  shows "list_all2 (\<lambda>t sh. table_matches t sh \<and> (\<forall>row \<in> set (tr_rows t). Q sh row))
     (on_shaped carried f ts) carried"
proof -
  have "list_all2 table_matches ts carried" using assms(1) by (auto elim!: list_all2_mono)
  note shaped = on_shaped_carried(1) [OF this, of f]
  have "\<forall>row \<in> set (f sh (tr_rows t)). Q sh row" if "\<forall>row \<in> set (tr_rows t). Q sh row" for t sh
    using assms(2) that by blast
  then show ?thesis
    using assms(1) by (auto simp: list_all2_conv_all_nth table_matches_def shaped) blast
qed

lemma scalar_fits: "row_ok sh pid row \<Longrightarrow> v \<in> set row \<Longrightarrow> scalar_cell (Some v)"
proof -
  assume "row_ok sh pid row" "v \<in> set row"
  then obtain c where "value_fits c v"
    by (auto simp: row_ok_def in_set_conv_nth list_all2_conv_all_nth)
  then show "scalar_cell (Some v)" by (cases v) auto
qed

text \<open>The order of one table's rows.\<close>

lemma sorted_rows_iff:
  assumes "\<forall>row \<in> set rows. row_ok sh pid row"
  shows "sort_by (compare_rows (key_positions sh)) rows = rows \<longleftrightarrow>
     sorted (map (row_key (key_positions sh)) rows)"
proof -
  have "scalar_rows rows" using assms scalar_fits by (auto simp: scalar_rows_def)
  then have "sort_by (compare_rows (key_positions sh)) rows = sort_key (row_key (key_positions sh)) rows"
    by (rule sort_rows_key)
  then show ?thesis by (metis sorted_sort_key sort_key_id_if_sorted)
qed

lemma rows_update_same: "t\<lparr>tr_rows := rows\<rparr> = t \<longleftrightarrow> rows = tr_rows t"
  by (cases t) auto

lemma sort_rows_fixed_iff:
  assumes "list_all2 (\<lambda>t sh. table_matches t sh \<and> (\<forall>row \<in> set (tr_rows t). row_ok sh pid row)) ts carried"
  shows "sort_rows ts carried = ts \<longleftrightarrow>
     (\<forall>(t, sh) \<in> set (zip ts carried). sorted (map (row_key (key_positions sh)) (tr_rows t)))"
proof -
  have m: "list_all2 table_matches ts carried" using assms by (auto elim!: list_all2_mono)
  then have len: "length ts = length carried" by (rule list_all2_lengthD)
  have "sort_rows ts carried = ts \<longleftrightarrow>
     (\<forall>(t, sh) \<in> set (zip ts carried). t\<lparr>tr_rows := sort_by (compare_rows (key_positions sh)) (tr_rows t)\<rparr> = t)"
    unfolding sort_rows_def on_shaped_carried(1) [OF m]
    using len by (auto simp: list_eq_iff_nth_eq set_zip)
  also have "\<dots> \<longleftrightarrow>
     (\<forall>(t, sh) \<in> set (zip ts carried). sort_by (compare_rows (key_positions sh)) (tr_rows t) = tr_rows t)"
    by (simp only: rows_update_same)
  also have "\<dots> \<longleftrightarrow> (\<forall>(t, sh) \<in> set (zip ts carried). sorted (map (row_key (key_positions sh)) (tr_rows t)))"
    using assms sorted_rows_iff by (fastforce simp: list_all2_iff)
  finally show ?thesis .
qed

text \<open>Rewriting rows one by one keeps the references held, when the columns they go by stay.\<close>

lemma references_held_map:
  assumes held: "references_held paired"
    and rows: "\<And>t sh. (t, sh) \<in> set paired \<Longrightarrow> set (f sh (tr_rows t)) = g sh ` set (tr_rows t)"
    and src: "\<And>t sh r row. (t, sh) \<in> set paired \<Longrightarrow> r \<in> set (sh_references sh) \<Longrightarrow> row \<in> set (tr_rows t) \<Longrightarrow>
      cells sh (g sh row) (rf_columns r) = cells sh row (rf_columns r)"
    and dst: "\<And>t sh r t' sh' row. (t, sh) \<in> set paired \<Longrightarrow> r \<in> set (sh_references sh) \<Longrightarrow> (t', sh') \<in> set paired \<Longrightarrow>
      sh_name sh' = rf_table r \<Longrightarrow> row \<in> set (tr_rows t') \<Longrightarrow>
      cells sh' (g sh' row) (rf_target r) = cells sh' row (rf_target r)"
  shows "references_held (map (\<lambda>(t, sh). (t\<lparr>tr_rows := f sh (tr_rows t)\<rparr>, sh)) paired)"
proof -
  let ?new = "map (\<lambda>(t, sh). (t\<lparr>tr_rows := f sh (tr_rows t)\<rparr>, sh)) paired"
  have ref: "reference_set sh r x =
      list_all (\<lambda>c. case c of None \<Rightarrow> False | Some v \<Rightarrow> v \<noteq> JNull) (cells sh x (rf_columns r))" for sh r x
    by (auto simp: reference_set_def cells_def list_all_iff)
  have "\<exists>(t', sh') \<in> set ?new. sh_name sh' = rf_table r \<and>
      (\<exists>row' \<in> set (tr_rows t'). cells sh row1 (rf_columns r) = cells sh' row' (rf_target r))"
    if new: "(t1, sh) \<in> set ?new" and r: "r \<in> set (sh_references sh)" and row1: "row1 \<in> set (tr_rows t1)"
      and set: "reference_set sh r row1" for t1 sh r row1
  proof -
    obtain t where p: "(t, sh) \<in> set paired" and t1: "t1 = t\<lparr>tr_rows := f sh (tr_rows t)\<rparr>" using new by auto
    obtain row where row: "row \<in> set (tr_rows t)" "row1 = g sh row" using row1 rows [OF p] by (auto simp: t1)
    have "reference_set sh r row" using set src [OF p r row(1)] by (simp add: ref row(2))
    then obtain t' sh' row' where f: "(t', sh') \<in> set paired" "sh_name sh' = rf_table r"
      "row' \<in> set (tr_rows t')" "cells sh row (rf_columns r) = cells sh' row' (rf_target r)"
      using held p r row(1) unfolding references_held_def by fastforce
    have "cells sh row1 (rf_columns r) = cells sh' (g sh' row') (rf_target r)"
      using src [OF p r row(1)] dst [OF p r f(1,2,3)] f(4) row(2) by simp
    moreover have "(t'\<lparr>tr_rows := f sh' (tr_rows t')\<rparr>, sh') \<in> set ?new" using f(1) by force
    moreover have "g sh' row' \<in> set (f sh' (tr_rows t'))" using f(3) rows [OF f(1)] by simp
    ultimately show ?thesis using f(2) by (intro bexI) auto
  qed
  then show ?thesis unfolding references_held_def by blast
qed

lemma settled_sorted:
  assumes "tables_ok pid ts"
  shows "settled pid (sort_rows ts carried)"
proof -
  let ?f = "\<lambda>sh. sort_by (compare_rows (key_positions sh))"
  have all: "list_all2 (\<lambda>t sh. table_matches t sh \<and> (\<forall>row \<in> set (tr_rows t). row_ok sh pid row)) ts carried"
    using assms by (auto simp: tables_ok_def rows_ok_def elim!: list_all2_mono)
  then have m: "list_all2 table_matches ts carried" by (auto elim!: list_all2_mono)
  note zip = on_shaped_carried(2) [OF m, of ?f, folded sort_rows_def]
  have len: "length ts = length carried" using m by (rule list_all2_lengthD)
  have new: "list_all2 (\<lambda>t sh. table_matches t sh \<and> (\<forall>row \<in> set (tr_rows t). row_ok sh pid row))
      (sort_rows ts carried) carried"
    unfolding sort_rows_def by (rule matched_rows_map [OF all]) simp
  have sorted: "sorted (map (row_key (key_positions sh)) (?f sh (tr_rows t)))"
    if "(t, sh) \<in> set (zip ts carried)" for t sh
  proof -
    have "\<forall>row \<in> set (tr_rows t). row_ok sh pid row" using all that by (fastforce simp: list_all2_iff)
    then have "scalar_rows (tr_rows t)" using scalar_fits by (auto simp: scalar_rows_def)
    then show ?thesis by (simp add: sort_rows_key)
  qed
  have "references_held (zip ts carried)" using assms by (simp add: tables_ok_def)
  then have "references_held (zip (sort_rows ts carried) carried)"
    unfolding zip by (rule references_held_map [where g = "\<lambda>_ row. row"]) simp_all
  moreover have "sort_rows (sort_rows ts carried) carried = sort_rows ts carried"
    using sorted by (auto simp: sort_rows_fixed_iff [OF new] zip)
  ultimately show ?thesis using new by (simp add: settled_def)
qed

section \<open>Remapping an actor\<close>

definition plain_name :: "string \<Rightarrow> bool" where
  "plain_name c \<longleftrightarrow>
     strip_suffix ''_principal_type'' c = None \<and> strip_suffix ''_principal_id'' c = None"

lemma strip_suffix_append [simp]: "strip_suffix suf (s @ suf) = Some s"
  by (simp add: strip_suffix_def)

lemma principal_pairs_names:
  assumes "(k, i) \<in> set (principal_pairs sh)"
  shows "k < length (sh_columns sh)" "\<not> plain_name (cs_name (sh_columns sh ! k))"
    and "i < length (sh_columns sh)" "\<not> plain_name (cs_name (sh_columns sh ! i))"
proof -
  obtain column role where *: "(k, column) \<in> set (List.enumerate 0 (sh_columns sh))"
    "strip_suffix ''_principal_type'' (cs_name column) = Some role"
    "shape_position sh (role @ ''_principal_id'') = Some i"
    using assms by (auto simp: principal_pairs_def List.map_filter_def bind_eq_Some_conv)
  then show "k < length (sh_columns sh)" "\<not> plain_name (cs_name (sh_columns sh ! k))"
    by (auto simp: in_set_enumerate_eq plain_name_def)
  have "i < length (sh_columns sh)" "cs_name (sh_columns sh ! i) = role @ ''_principal_id''"
    using position_of_Some [OF *(3) [unfolded shape_position_def]] by auto
  then show "i < length (sh_columns sh)" "\<not> plain_name (cs_name (sh_columns sh ! i))"
    using strip_suffix_append [of "''_principal_id''" role] by (simp_all add: plain_name_def)
qed

definition remap_one :: "string \<times> string \<Rightarrow> string \<times> string \<Rightarrow> table_shape \<Rightarrow> json list \<Rightarrow> json list" where
  "remap_one a b sh row = foldl (\<lambda>row pair. remap_row a b pair row) row (principal_pairs sh)"

lemma foldl_map_rows:
  "foldl (\<lambda>rows pair. map (f pair) rows) rows ps = map (\<lambda>row. foldl (\<lambda>row pair. f pair row) row ps) rows"
  by (induction ps arbitrary: rows) simp_all

lemma remap_actors_one:
  "remap_actors tables shapes r =
     on_shaped shapes (\<lambda>sh. map (remap_one (principal_pair (rm_from r)) (principal_pair (rm_to r)) sh)) tables"
  by (simp add: remap_actors_def foldl_map_rows remap_one_def [abs_def] Let_def)

text \<open>A cell changes only under a principal column, from a string to a string.\<close>

definition same_but :: "nat set \<Rightarrow> json list \<Rightarrow> json list \<Rightarrow> bool" where
  "same_but ps row row' \<longleftrightarrow>
     length row' = length row \<and>
     (\<forall>j < length row. row' ! j = row ! j \<or>
        j \<in> ps \<and> (\<exists>s s'. row ! j = JStr s \<and> row' ! j = JStr s'))"

lemma same_but_trans: "same_but ps x y \<Longrightarrow> same_but ps y z \<Longrightarrow> same_but ps x z"
  by (fastforce simp: same_but_def)

lemma json_str_Some: "json_str v = Some s \<longleftrightarrow> v = JStr s"
  by (cases v) auto

lemma remap_row_same_but:
  assumes "k \<in> ps" "i \<in> ps"
  shows "same_but ps row (remap_row a b (k, i) row)"
  using assms
  by (auto simp: same_but_def remap_row_def set_cell_def cell_str_def cell_at_def bind_eq_Some_conv
      json_str_Some nth_list_update split: if_splits)

lemma remap_one_same_but:
  "same_but {j. j < length (sh_columns sh) \<and> \<not> plain_name (cs_name (sh_columns sh ! j))}
     row (remap_one a b sh row)"
proof -
  let ?ps = "{j. j < length (sh_columns sh) \<and> \<not> plain_name (cs_name (sh_columns sh ! j))}"
  have "set pairs \<subseteq> set (principal_pairs sh) \<Longrightarrow>
      same_but ?ps row (foldl (\<lambda>row pair. remap_row a b pair row) row pairs)" for pairs
  proof (induction pairs rule: rev_induct)
    case Nil
    then show ?case by (simp add: same_but_def)
  next
    case (snoc p pairs)
    obtain k i where p: "p = (k, i)" by (cases p)
    then have "k \<in> ?ps" "i \<in> ?ps" using snoc.prems principal_pairs_names by auto
    from same_but_trans [OF snoc.IH remap_row_same_but [OF this]] snoc.prems show ?case by (simp add: p)
  qed
  then show ?thesis by (simp add: remap_one_def)
qed

lemma remap_one_cell:
  assumes "plain_name c"
  shows "column_cell sh (remap_one a b sh row) c = column_cell sh row c"
proof (cases "shape_position sh c")
  case None
  then show ?thesis by (simp add: column_cell_def)
next
  case (Some j)
  then have "j < length (sh_columns sh)" "cs_name (sh_columns sh ! j) = c"
    using position_of_Some unfolding shape_position_def by blast+
  with assms remap_one_same_but [of sh row a b] Some show ?thesis
    by (auto simp: column_cell_def cell_at_def same_but_def)
qed

lemma remap_one_cells:
  "\<forall>c \<in> set cs. plain_name c \<Longrightarrow> cells sh (remap_one a b sh row) cs = cells sh row cs"
  by (simp add: cells_def remap_one_cell)

text \<open>Keys, references, owners and the dependency's two ends are never principals.\<close>

lemma plain_names [simp]:
  "plain_name ''id''" "plain_name ''project_id''" "plain_name ''repo''" "plain_name ''blocker_id''"
  "plain_name ''blocked_id''" "plain_name ''evidence_id''" "plain_name ''criterion_id''"
  "plain_name ''work_item_id''" "plain_name ''milestone_id''" "plain_name ''parent_work_item_id''"
  "plain_name ''execution_id''" "plain_name ''superseded_by_execution_id''" "plain_name ''proposal_id''"
  by (simp_all add: plain_name_def strip_suffix_def)

lemma carried_plain:
  assumes "sh \<in> set carried"
  shows "\<forall>c \<in> set (sh_key sh). plain_name c"
    and "r \<in> set (sh_references sh) \<Longrightarrow> \<forall>c \<in> set (rf_columns r). plain_name c"
    and "r \<in> set (sh_references sh) \<Longrightarrow> \<forall>c \<in> set (rf_target r). plain_name c"
proof -
  have "list_all (\<lambda>sh. list_all plain_name (sh_key sh) \<and>
      list_all (\<lambda>r. list_all plain_name (rf_columns r) \<and> list_all plain_name (rf_target r)) (sh_references sh))
     (map shape carried_tables)"
    by (simp add: carried_tables_def shapes)
  with assms show "\<forall>c \<in> set (sh_key sh). plain_name c"
    "r \<in> set (sh_references sh) \<Longrightarrow> \<forall>c \<in> set (rf_columns r). plain_name c"
    "r \<in> set (sh_references sh) \<Longrightarrow> \<forall>c \<in> set (rf_target r). plain_name c"
    by (auto simp: carried_eq list_all_iff)
qed

lemma remap_one_row_ok:
  assumes "row_ok sh pid row"
  shows "row_ok sh pid (remap_one a b sh row)"
proof -
  let ?row = "remap_one a b sh row"
  have cell: "Option.bind (shape_position sh c) (cell_at ?row) = Option.bind (shape_position sh c) (cell_at row)"
    if "plain_name c" for c
    using remap_one_cell [OF that, of sh a b row] by (simp add: column_cell_def)
  have "list_all2 value_fits (sh_columns sh) ?row"
  proof -
    have fits: "list_all2 value_fits (sh_columns sh) row" using assms by (simp add: row_ok_def)
    have "value_fits c (JStr s) = value_fits c (JStr s')" for c s s' by simp
    with fits remap_one_same_but [of sh row a b] show ?thesis
      unfolding list_all2_conv_all_nth same_but_def by (metis (no_types, lifting))
  qed
  moreover have "owned_by sh pid ?row"
    using assms cell [of "''id''"] cell [of "''project_id''"]
    by (auto simp: row_ok_def owned_by_def owner_position_def split: if_splits)
  moreover have "\<not> blocks_itself sh ?row"
    using assms cell [of "''blocker_id''"] cell [of "''blocked_id''"]
    by (auto simp: row_ok_def blocks_itself_def split: option.splits)
  ultimately show ?thesis by (simp add: row_ok_def)
qed

lemma remap_one_row_key:
  assumes "sh \<in> set carried"
  shows "row_key (key_positions sh) (remap_one a b sh row) = row_key (key_positions sh) row"
proof -
  have "cell_at (remap_one a b sh row) i = cell_at row i" if "i \<in> set (key_positions sh)" for i
  proof -
    obtain c where "c \<in> set (sh_key sh)" "shape_position sh c = Some i"
      using \<open>i \<in> set (key_positions sh)\<close> by (auto simp: key_positions_def List.map_filter_def)
    with remap_one_cell [of c sh a b row] carried_plain(1) [OF assms] show ?thesis
      by (simp add: column_cell_def)
  qed
  then show ?thesis by (simp add: row_key_def)
qed

lemma settled_remapped:
  assumes "settled pid ts"
  shows "settled pid (remap_actors ts carried r)"
proof -
  let ?g = "remap_one (principal_pair (rm_from r)) (principal_pair (rm_to r))"
  have all: "list_all2 (\<lambda>t sh. table_matches t sh \<and> (\<forall>row \<in> set (tr_rows t). row_ok sh pid row)) ts carried"
    and fixed: "sort_rows ts carried = ts" and held: "references_held (zip ts carried)"
    using assms by (simp_all add: settled_def)
  then have m: "list_all2 table_matches ts carried" by (auto elim!: list_all2_mono)
  note zip = on_shaped_carried(2) [OF m, of "\<lambda>sh. map (?g sh)", folded remap_actors_one]
  have len: "length ts = length carried" using m by (rule list_all2_lengthD)
  have new: "list_all2 (\<lambda>t sh. table_matches t sh \<and> (\<forall>row \<in> set (tr_rows t). row_ok sh pid row))
      (remap_actors ts carried r) carried"
    unfolding remap_actors_one by (rule matched_rows_map [OF all]) (simp add: remap_one_row_ok)
  have "references_held (zip (remap_actors ts carried r) carried)"
    unfolding zip
  proof (rule references_held_map [OF held, where g = ?g])
    fix t sh f row assume p: "(t, sh) \<in> set (zip ts carried)" and f: "f \<in> set (sh_references sh)"
    note sh = set_zip_rightD [OF p]
    show "cells sh (?g sh row) (rf_columns f) = cells sh row (rf_columns f)"
      by (rule remap_one_cells [OF carried_plain(2) [OF sh f]])
    show "cells sh' (?g sh' row) (rf_target f) = cells sh' row (rf_target f)" for sh'
      by (rule remap_one_cells [OF carried_plain(3) [OF sh f]])
  qed simp
  moreover have "sort_rows (remap_actors ts carried r) carried = remap_actors ts carried r"
  proof -
    have "sorted (map (row_key (key_positions sh)) (tr_rows t))" if "(t, sh) \<in> set (zip ts carried)" for t sh
      using fixed that unfolding sort_rows_fixed_iff [OF all] by blast
    moreover have "map (row_key (key_positions sh)) (map (?g sh) rows) = map (row_key (key_positions sh)) rows"
      if "(t, sh) \<in> set (zip ts carried)" for t sh rows
      using remap_one_row_key [OF set_zip_rightD [OF that]] by simp
    ultimately show ?thesis by (auto simp: sort_rows_fixed_iff [OF new] zip simp del: map_map)
  qed
  ultimately show ?thesis using new by (simp add: settled_def)
qed

end
