(* ===== verification/Transfer_Properties.thy ===== *)
theory Transfer_Properties
  imports Project_Transfer
begin

text \<open>
  What a transfer does as a whole: an import writes the bundle it was given and nothing else,
  what it wrote exports as the bundle again, doing it twice changes nothing, and whatever does
  not succeed leaves the store as it was.
\<close>

section \<open>Canonical tables\<close>

lemma matches_unique:
  assumes "list_all2 table_matches ts carried" "list_all2 table_matches us carried" "mset ts = mset us"
  shows "ts = us"
proof -
  have "in_shape_order id us carried = Inr ts"
    by (rule in_shape_order_complete [OF carried_names_distinct assms(3,1)])
  moreover have "in_shape_order id us carried = Inr us"
    by (rule in_shape_order_complete [OF carried_names_distinct refl assms(2)])
  ultimately show ?thesis by simp
qed

lemma sort_rows_idem:
  assumes "list_all2 (\<lambda>t sh. table_matches t sh \<and> (\<forall>row \<in> set (tr_rows t). row_ok sh pid row)) ts carried"
  shows "sort_rows (sort_rows ts carried) carried = sort_rows ts carried"
proof -
  have m: "list_all2 table_matches ts carried" using assms by (auto elim!: list_all2_mono)
  let ?f = "\<lambda>sh. sort_by (compare_rows (key_positions sh))"
  have new: "list_all2 (\<lambda>t sh. table_matches t sh \<and> (\<forall>row \<in> set (tr_rows t). row_ok sh pid row))
      (sort_rows ts carried) carried"
    unfolding sort_rows_def by (rule matched_rows_map [OF assms]) simp
  have "sorted (map (row_key (key_positions sh)) (?f sh (tr_rows t)))"
    if "(t, sh) \<in> set (zip ts carried)" for t sh
  proof -
    have "\<forall>row \<in> set (tr_rows t). row_ok sh pid row" using assms that by (fastforce simp: list_all2_iff)
    then have "scalar_rows (tr_rows t)" using scalar_fits by (auto simp: scalar_rows_def)
    then show ?thesis by (simp add: sort_rows_key)
  qed
  then show ?thesis
    by (auto simp: sort_rows_fixed_iff [OF new] on_shaped_carried(2) [OF m, of ?f, folded sort_rows_def])
qed

lemma sort_rows_matches:
  "list_all2 table_matches ts carried \<Longrightarrow> list_all2 table_matches (sort_rows ts carried) carried"
  using on_shaped_carried(1) [of ts "\<lambda>sh. sort_by (compare_rows (key_positions sh))", folded sort_rows_def]
  by (simp add: list_all2_conv_all_nth table_matches_def)

text \<open>The project row a passing bundle has is there afterwards.\<close>

definition has_project :: "table_rows list \<Rightarrow> bool" where
  "has_project ts \<longleftrightarrow>
     (\<exists>t row. (t, shape projects_table) \<in> set (zip ts carried) \<and> row \<in> set (tr_rows t))"

lemma has_project_shaped:
  assumes "list_all2 table_matches ts carried" "has_project ts"
    and "\<And>sh rows. rows \<noteq> [] \<Longrightarrow> f sh rows \<noteq> []"
  shows "has_project (on_shaped carried f ts)"
proof -
  obtain t row where t: "(t, shape projects_table) \<in> set (zip ts carried)" "row \<in> set (tr_rows t)"
    using assms(2) by (auto simp: has_project_def)
  then have "f (shape projects_table) (tr_rows t) \<noteq> []" by (intro assms(3)) auto
  then obtain row' where "row' \<in> set (f (shape projects_table) (tr_rows t))"
    by (cases "f (shape projects_table) (tr_rows t)") auto
  with t(1) show ?thesis unfolding has_project_def on_shaped_carried(2) [OF assms(1)] by force
qed

lemma tables_ok_has_project:
  assumes "tables_ok pid ts"
  shows "has_project ts"
proof -
  have len: "length ts = length carried" using assms by (auto simp: tables_ok_def dest: list_all2_lengthD)
  have "0 < length carried" by (simp add: carried_eq carried_tables_def)
  then have t: "(ts ! 0, shape projects_table) \<in> set (zip ts carried)"
    using len carried_nth(1) by (auto simp: in_set_zip)
  then have "rows_ok (shape projects_table) pid (tr_rows (ts ! 0))"
    using assms by (fastforce simp: tables_ok_def list_all2_iff)
  then have "length (tr_rows (ts ! 0)) = 1" by (simp add: rows_ok_def)
  then obtain row where "row \<in> set (tr_rows (ts ! 0))" by (cases "tr_rows (ts ! 0)") auto
  with t show ?thesis unfolding has_project_def by blast
qed

section \<open>The digest of what will be stored\<close>

lemma effective_digest_Inr:
  assumes env: "codec_ok env" "text_plain env"
    and eff: "effective_digest env debug b carried remap = Inr (c, digest)"
  shows "settled (bn_project_id b) (bn_tables c)" "tables_digest env (bn_tables c) = Inr digest"
    and "bn_project_id c = bn_project_id b" "header_ok b"
    and "has_project (bn_tables c)"
    and "remap = None \<Longrightarrow> digest = bn_digest b \<and>
       (\<exists>tables. mset tables = mset (bn_tables b) \<and> list_all2 table_matches tables carried \<and>
          tables_ok (bn_project_id b) tables \<and> bn_tables c = sort_rows tables carried)"
proof -
  obtain b' declared where check: "check_bundle env debug b carried = Inr b'"
    and dig: "tables_digest env (sort_rows (bn_tables b') carried) = Inr declared"
    and same: "declared = bn_digest b'"
    and tables: "bn_tables c = (case remap of None \<Rightarrow> sort_rows (bn_tables b') carried
        | Some r \<Rightarrow> remap_actors (sort_rows (bn_tables b') carried) carried r)"
    and stored: "tables_digest env (bn_tables c) = Inr digest" and c: "c = b'\<lparr>bn_tables := bn_tables c\<rparr>"
    using eff by (auto simp: effective_digest_def res_simps Let_def)
  obtain ts where ts: "mset ts = mset (bn_tables b)" "tables_ok (bn_project_id b) ts"
    "b' = b\<lparr>bn_tables := ts\<rparr>" and head: "header_ok b"
    using check by (auto simp: check_bundle_iff [OF env])
  have "settled (bn_project_id b) (sort_rows ts carried)" by (rule settled_sorted [OF ts(2)])
  then show "settled (bn_project_id b) (bn_tables c)"
    using tables settled_remapped by (auto simp: ts(3) split: option.splits)
  show "tables_digest env (bn_tables c) = Inr digest" by (rule stored)
  show "bn_project_id c = bn_project_id b" using c ts(3)
    by (metis project_bundle.select_convs(3) project_bundle.surjective project_bundle.update_convs(5))
  show "header_ok b" by (rule head)
  have m: "list_all2 table_matches ts carried" using ts(2) by (auto simp: tables_ok_def elim!: list_all2_mono)
  have nonempty: "sort_by c rows \<noteq> []" if "rows \<noteq> []" for c and rows :: "json list list"
    using that by (metis length_sort_by length_0_conv)
  have "has_project (sort_rows ts carried)"
    unfolding sort_rows_def by (rule has_project_shaped [OF m tables_ok_has_project [OF ts(2)] nonempty])
  then show "has_project (bn_tables c)"
    using tables has_project_shaped [OF sort_rows_matches [OF m]]
    by (auto simp: ts(3) remap_actors_one split: option.splits)
  show "remap = None \<Longrightarrow> digest = bn_digest b \<and>
       (\<exists>tables. mset tables = mset (bn_tables b) \<and> list_all2 table_matches tables carried \<and>
          tables_ok (bn_project_id b) tables \<and> bn_tables c = sort_rows tables carried)"
    using ts dig same stored tables m by auto
qed

section \<open>The write\<close>

lemma traverse_same: "(\<And>x. x \<in> set xs \<Longrightarrow> f x = g x) \<Longrightarrow> traverse f xs = traverse g xs"
  by (induction xs) simp_all

lemma snapshot_rows_only:
  assumes "t_rows d = t_rows d'"
  shows "snapshot env d = snapshot env d'"
proof -
  have "in_scope d sh p s = in_scope d' sh p s" for sh p s using assms by (cases s) (simp_all add: fun_eq_iff)
  then have "transfer_rows d sh p = transfer_rows d' sh p" for sh p using assms by (simp add: transfer_rows_def)
  then show ?thesis by (simp add: snapshot_def fun_eq_iff)
qed

lemma write_rows_arrives:
  assumes "write_rows d b carried = Inr (d', n)" "settled pid (bn_tables b)" "keys_hold d" "\<not> holds_project d pid"
  shows "arrives d pid (bn_tables b)" "d' = arrived d (bn_tables b)" "keys_hold d'"
proof -
  have len: "length (bn_tables b) = length carried"
    using assms(2) by (auto simp: settled_def dest: list_all2_lengthD)
  then have dist: "distinct (map (sh_name \<circ> snd) (zip (bn_tables b) carried))"
    using carried_names_distinct by (metis list.map_comp map_snd_zip)
  have w: "write_tables d (zip (bn_tables b) carried) = Inr (d', n)"
    and keys: "first_key_violation d' (map sh_name carried) = None"
    using assms(1) by (auto simp: write_rows_def res_simps split: option.splits)
  note ext = write_tables_extended [OF w dist]
  show "arrives d pid (bn_tables b)" using assms(2-4) ext by (simp add: arrives_def settled_def)
  show "d' = arrived d (bn_tables b)" using ext by (simp add: arrived_def)
  have "keys_resolve d' sh" if sh: "sh \<in> set carried" for sh
  proof -
    obtain def where "find_table (sh_name sh) = Some def" "shape def = sh" by (rule carried_find [OF sh])
    moreover have "\<not> (case find_table (sh_name sh) of None \<Rightarrow> False | Some def \<Rightarrow> \<not> keys_resolve d' (shape def))"
      using keys sh by (auto simp: first_key_violation_def find_None_iff)
    ultimately show ?thesis by simp
  qed
  then show "keys_hold d'" by (simp add: keys_hold_def list_all_iff)
qed

lemma snapshot_arrived:
  assumes "arrives d pid ts" "settled pid ts" "tables_digest env ts = Inr digest"
    and "t_rows d' = t_rows (arrived d ts)"
  shows "snapshot env d' pid =
      Inr \<lparr>bn_format = bundle_format, bn_version = bundle_version, bn_project_id = pid,
           bn_digest = digest, bn_tables = ts\<rparr>"
    and "pid' \<noteq> pid \<Longrightarrow> snapshot env d' pid' = snapshot env d pid'"
proof -
  let ?read = "\<lambda>d p sh. and_then (transfer_rows d sh p) (\<lambda>rows.
         Inr \<lparr>tr_table = sh_name sh, tr_columns = shape_names sh, tr_rows = rows\<rparr>)"
  have len: "length ts = length carried" using assms(2) by (auto simp: settled_def dest: list_all2_lengthD)
  have pair: "(ts ! i, carried ! i) \<in> set (zip ts carried)" if "i < length carried" for i
    using that len by (auto simp: in_set_zip)
  have "?read (arrived d ts) pid (carried ! i) = Inr (ts ! i)" if "i < length carried" for i
    using arrived_transfer_rows(1) [OF assms(1) pair [OF that]] arrivesD(3) [OF assms(1) pair [OF that]]
    by (simp add: table_matches_def)
  then have "traverse (?read (arrived d ts) pid) carried = Inr ts"
    using len by (simp add: traverse_Inr_iff list_all2_conv_all_nth)
  then have "snapshot env (arrived d ts) pid = seal env pid ts carried" by (simp add: snapshot_def)
  then show "snapshot env d' pid = Inr \<lparr>bn_format = bundle_format, bn_version = bundle_version,
      bn_project_id = pid, bn_digest = digest, bn_tables = ts\<rparr>"
    using assms(2,3) snapshot_rows_only [OF assms(4)] by (simp add: seal_def settled_def)
  show "snapshot env d' pid' = snapshot env d pid'" if "pid' \<noteq> pid"
  proof -
    have same: "?read (arrived d ts) pid' sh = ?read d pid' sh" if sh: "sh \<in> set carried" for sh
    proof -
      obtain i where "i < length carried" "carried ! i = sh" using sh by (auto simp: in_set_conv_nth)
      then show ?thesis
        using arrived_transfer_rows(2) [OF assms(1) pair, of i pid'] \<open>pid' \<noteq> pid\<close> by simp
    qed
    have "traverse (?read (arrived d ts) pid') carried = traverse (?read d pid') carried"
      by (rule traverse_same [OF same])
    then show ?thesis using snapshot_rows_only [OF assms(4)] by (simp add: snapshot_def)
  qed
qed

lemma arrived_holds_project:
  assumes "arrives d pid ts" "has_project ts" "t_rows d' = t_rows (arrived d ts)"
  shows "holds_project d' pid"
proof -
  obtain t row where t: "(t, shape projects_table) \<in> set (zip ts carried)" "row \<in> set (tr_rows t)"
    using assms(2) by (auto simp: has_project_def)
  have "owner_scope (shape projects_table)"
    by (simp add: owner_scope_def scope_of_def owner_position_def)
  then have "value_at (shape projects_table) (map bind_json row) ''id'' = Some (SqlText pid)"
    using new_row_owner [OF arrivesD(1) [OF assms(1) t(1)]] arrivesD(2) [OF assms(1) t(1)] t(2)
    by (auto simp: owner_column_def)
  moreover have "map bind_json row \<in> set (t_rows d' ''projects'')"
    using arrived_rows [OF assms(1) t(1)] t(2) assms(3) by auto
  ultimately show ?thesis by (auto simp: holds_project_def list_ex_iff)
qed

section \<open>Import, step by step\<close>

definition import_frame :: "tstore \<Rightarrow> string \<Rightarrow> int \<Rightarrow> change_row" where
  "import_frame d project_id stamp =
     \<lparr>ch_seq = t_last_seq d + 1, ch_project = project_id, ch_event = project_id,
      ch_entity_type = ''project'', ch_op = ''changed'', ch_created_at = stamp\<rparr>"

lemma import_body_store:
  assumes "import_body env b remote remap digest s = (Inr (commits, r), s')"
  shows "(commits \<longleftrightarrow> ir_outcome r = Imported) \<and> (ir_outcome r = Imported \<longleftrightarrow> \<not> holds_project (ts_store s) (bn_project_id b)) \<and>
     ir_project_id r = bn_project_id b \<and> ir_digest r = digest"
  using assms
  by (auto simp: import_body_def Let_def res_simps transfer_now_ms_def split: if_splits sum.splits prod.splits)

lemma import_body_Imported:
  assumes "import_body env b remote remap digest s = (Inr (commits, r), s')" "ir_outcome r = Imported"
  shows "\<exists>d' n stamp. \<not> holds_project (ts_store s) (bn_project_id b) \<and> write_rows (ts_store s) b carried = Inr (d', n) \<and>
     ir_rows r = n \<and> ts_txs s' = ts_txs s \<and>
     ts_store s' = record_import_change (bn_project_id b) stamp
       (record_binding (import_binding (bn_project_id b) remote digest remap stamp) d')"
  using assms
  by (fastforce simp: import_body_def Let_def res_simps transfer_now_ms_def split: if_splits sum.splits prod.splits)

lemma transfer_transaction_Inr:
  assumes "transfer_transaction env body s = (Inr x, s')"
  shows "\<exists>commits s1. e_begin env (ts_txs s) = Inr () \<and> body (s\<lparr>ts_txs := Suc (ts_txs s)\<rparr>) = (Inr (commits, x), s1) \<and>
     (if commits then s' = s1 else s' = s1\<lparr>ts_store := ts_store s\<rparr>)"
  using assms by (auto simp: transfer_transaction_def Let_def split: sum.splits prod.splits if_splits)

lemma transfer_transaction_Inl:
  "transfer_transaction env body s = (Inl e, s') \<Longrightarrow> ts_store s' = ts_store s"
  by (auto simp: transfer_transaction_def Let_def split: sum.splits prod.splits if_splits)

lemma import_apply_Inr:
  assumes "import_apply env debug im s = (Inr r, s')"
  shows "\<exists>c commits s1. effective_digest env debug (im_bundle im) carried (im_remap im) = Inr (c, ir_digest r) \<and>
     import_body env c (im_remote im) (im_remap im) (ir_digest r) (s\<lparr>ts_txs := Suc (ts_txs s)\<rparr>) = (Inr (commits, r), s1) \<and>
     (if commits then s' = s1 else s' = s1\<lparr>ts_store := ts_store s\<rparr>)"
proof -
  obtain c dg where eff: "effective_digest env debug (im_bundle im) carried (im_remap im) = Inr (c, dg)"
    and run: "transfer_transaction env (import_body env c (im_remote im) (im_remap im) dg) s = (Inr r, s')"
    using assms by (auto simp: import_apply_def split: sum.splits prod.splits)
  from transfer_transaction_Inr [OF run] obtain commits s1 where
    *: "import_body env c (im_remote im) (im_remap im) dg (s\<lparr>ts_txs := Suc (ts_txs s)\<rparr>) = (Inr (commits, r), s1)"
      "if commits then s' = s1 else s' = s1\<lparr>ts_store := ts_store s\<rparr>" by blast
  with import_body_store [OF *(1)] eff show ?thesis by auto
qed

lemma import_apply_unwritten:
  assumes "import_apply env debug im s = (res, s')" "\<And>r. res = Inr r \<Longrightarrow> ir_outcome r \<noteq> Imported"
  shows "ts_store s' = ts_store s"
proof (cases res)
  case (Inl e)
  with assms(1) show ?thesis
    by (auto simp: import_apply_def transfer_transaction_Inl split: sum.splits prod.splits)
next
  case (Inr r)
  from import_apply_Inr [OF assms(1) [unfolded Inr]] obtain c commits s1 where
    *: "import_body env c (im_remote im) (im_remap im) (ir_digest r) (s\<lparr>ts_txs := Suc (ts_txs s)\<rparr>) = (Inr (commits, r), s1)"
      "if commits then s' = s1 else s' = s1\<lparr>ts_store := ts_store s\<rparr>" by blast
  have "\<not> commits" using import_body_store [OF *(1)] assms(2) [OF Inr] by simp
  with *(2) show ?thesis by simp
qed

text \<open>Everything an import that wrote did.\<close>

lemma import_imported:
  assumes env: "codec_ok env" "text_plain env" and hold: "keys_hold (ts_store s)"
    and run: "import_apply env debug im s = (Inr r, s')" "ir_outcome r = Imported"
  shows "\<exists>c stamp. effective_digest env debug (im_bundle im) carried (im_remap im) = Inr (c, ir_digest r) \<and>
     ir_project_id r = bn_project_id (im_bundle im) \<and>
     \<not> holds_project (ts_store s) (ir_project_id r) \<and> holds_project (ts_store s') (ir_project_id r) \<and>
     snapshot env (ts_store s') (ir_project_id r) =
       Inr \<lparr>bn_format = bundle_format, bn_version = bundle_version, bn_project_id = ir_project_id r,
            bn_digest = ir_digest r, bn_tables = bn_tables c\<rparr> \<and>
     (\<forall>other. other \<noteq> ir_project_id r \<longrightarrow> snapshot env (ts_store s') other = snapshot env (ts_store s) other) \<and>
     keys_hold (ts_store s') \<and>
     t_bindings (ts_store s') =
       filter (\<lambda>b. b_project b \<noteq> ir_project_id r) (t_bindings (ts_store s)) @
       [\<lparr>b_project = ir_project_id r, b_direction = ''imported'', b_remote = im_remote im,
         b_digest = ir_digest r,
         b_remapped_from = map_option principal_pair (map_option rm_from (im_remap im)),
         b_transferred_at = stamp\<rparr>] \<and>
     t_changes (ts_store s') = t_changes (ts_store s) @ [import_frame (ts_store s) (ir_project_id r) stamp]"
proof -
  let ?d = "ts_store s" and ?d' = "ts_store s'"
  obtain c commits s1 where eff: "effective_digest env debug (im_bundle im) carried (im_remap im) = Inr (c, ir_digest r)"
    and body: "import_body env c (im_remote im) (im_remap im) (ir_digest r) (s\<lparr>ts_txs := Suc (ts_txs s)\<rparr>) = (Inr (commits, r), s1)"
    and s': "if commits then s' = s1 else s' = s1\<lparr>ts_store := ts_store s\<rparr>"
    using import_apply_Inr [OF run(1)] by blast
  note eff' = effective_digest_Inr [OF env eff]
  have s1: "s' = s1" and pid: "ir_project_id r = bn_project_id c"
    using s' import_body_store [OF body] run(2) by simp_all
  let ?pid = "bn_project_id c"
  obtain d1 n stamp where fresh: "\<not> holds_project ?d ?pid" and wr: "write_rows ?d c carried = Inr (d1, n)"
    and store: "?d' = record_import_change ?pid stamp
       (record_binding (import_binding ?pid (im_remote im) (ir_digest r) (im_remap im) stamp) d1)"
    using import_body_Imported [OF body run(2)] s1 by auto
  have settled: "settled ?pid (bn_tables c)" using eff'(1,3) by simp
  note w = write_rows_arrives [OF wr settled hold fresh]
  have rows: "t_rows ?d' = t_rows (arrived ?d (bn_tables c))"
    using w(2) by (simp add: store record_import_change_def record_binding_def import_binding_def)
  have d1: "t_bindings d1 = t_bindings ?d" "t_changes d1 = t_changes ?d" "t_last_seq d1 = t_last_seq ?d"
    using w(2) by (simp_all add: arrived_def extended_def)
  note snap = snapshot_arrived [OF w(1) settled eff'(2) rows]
  have "keys_hold ?d'"
    using w(3) by (simp add: keys_hold_def keys_resolve_def parent_found_def store record_import_change_def
        record_binding_def import_binding_def list_all_iff)
  with eff eff'(3) pid fresh arrived_holds_project [OF w(1) eff'(5) rows] snap d1 show ?thesis
    by (intro exI [of _ c] exI [of _ stamp])
      (simp add: store record_import_change_def record_binding_def import_binding_def import_frame_def)
qed

section \<open>Export of what was exported\<close>

lemma read_matches:
  assumes "traverse (\<lambda>sh. and_then (transfer_rows d sh pid) (\<lambda>rows.
         Inr \<lparr>tr_table = sh_name sh, tr_columns = shape_names sh, tr_rows = rows\<rparr>)) carried = Inr ts"
  shows "list_all2 table_matches ts carried"
proof -
  have "list_all2 (\<lambda>sh t. table_matches t sh) carried ts"
    using assms by (auto simp: traverse_Inr_iff res_simps table_matches_def elim!: list_all2_mono)
  then show ?thesis using list_all2_conv_all_nth by (metis (no_types, lifting))
qed

lemma snapshot_sealed:
  assumes "snapshot env d pid = Inr b"
  shows "\<exists>ts. list_all2 table_matches ts carried \<and> bn_tables b = sort_rows ts carried \<and>
     tables_digest env (bn_tables b) = Inr (bn_digest b) \<and> bn_project_id b = pid \<and>
     bn_format b = bundle_format \<and> bn_version b = bundle_version"
proof -
  obtain ts where read: "traverse (\<lambda>sh. and_then (transfer_rows d sh pid) (\<lambda>rows.
         Inr \<lparr>tr_table = sh_name sh, tr_columns = shape_names sh, tr_rows = rows\<rparr>)) carried = Inr ts"
    and sealed: "seal env pid ts carried = Inr b"
    using assms by (auto simp: snapshot_def res_simps)
  from read_matches [OF read] sealed show ?thesis by (auto simp: seal_def res_simps Let_def)
qed

lemma import_of_export:
  assumes env: "codec_ok env" "text_plain env"
    and eff: "effective_digest env debug b carried None = Inr (c, digest)"
    and snap: "snapshot env d pid = Inr b"
  shows "bn_tables c = bn_tables b \<and> digest = bn_digest b \<and> bn_project_id b = pid"
proof -
  obtain ts where ts: "list_all2 table_matches ts carried" "bn_tables b = sort_rows ts carried"
    "bn_project_id b = pid" using snapshot_sealed [OF snap] by blast
  obtain us where us: "mset us = mset (bn_tables b)" "list_all2 table_matches us carried"
    "tables_ok (bn_project_id b) us" "bn_tables c = sort_rows us carried" and dig: "digest = bn_digest b"
    using effective_digest_Inr(6) [OF env eff] by blast
  have eq: "us = bn_tables b"
    using matches_unique [OF us(2) _ us(1)] sort_rows_matches [OF ts(1)] ts(2) by simp
  let ?f = "\<lambda>sh. sort_by (compare_rows (key_positions sh))"
  have zip: "zip (bn_tables b) carried = map (\<lambda>(t, sh). (t\<lparr>tr_rows := ?f sh (tr_rows t)\<rparr>, sh)) (zip ts carried)"
    unfolding ts(2) sort_rows_def by (rule on_shaped_carried(2) [OF ts(1)])
  have "list_all2 (\<lambda>t sh. table_matches t sh \<and> (\<forall>row \<in> set (tr_rows t). row_ok sh pid row)) ts carried"
  proof -
    have "\<forall>row \<in> set (tr_rows t). row_ok sh pid row" if p: "(t, sh) \<in> set (zip ts carried)" for t sh
    proof -
      have "(t\<lparr>tr_rows := ?f sh (tr_rows t)\<rparr>, sh) \<in> set (zip us carried)" using p unfolding eq zip by force
      then have "rows_ok sh pid (?f sh (tr_rows t))"
        using us(3) ts(3) by (fastforce simp: tables_ok_def list_all2_iff)
      then show ?thesis by (simp add: rows_ok_def)
    qed
    then show ?thesis using ts(1) by (auto simp: list_all2_iff)
  qed
  from sort_rows_idem [OF this] have "sort_rows us carried = bn_tables b" by (simp add: eq ts(2))
  with us(4) dig ts(3) show ?thesis by simp
qed

section \<open>Row order\<close>

lemma cell_key_inj:
  assumes "value_fits c v" "value_fits c' w" "cell_key (Some v) = cell_key (Some w)"
  shows "v = w"
  using assms by (cases v; cases w) (auto simp: cell_key_def int_or_zero_def split: if_splits)

lemma row_key_cells:
  assumes "sh \<in> set carried"
  shows "row_key (key_positions sh) row = map cell_key (cells sh row (sh_key sh))"
proof -
  have "\<forall>c \<in> set (sh_key sh). \<exists>i. shape_position sh c = Some i"
    using carried_keys [OF assms] shape_position_name by blast
  then have "map (\<lambda>i. cell_key (cell_at row i)) (List.map_filter (shape_position sh) ks) =
      map (\<lambda>c. cell_key (column_cell sh row c)) ks" if "set ks \<subseteq> set (sh_key sh)" for ks
    using that by (induction ks) (auto simp: column_cell_def)
  then show ?thesis by (simp add: row_key_def key_positions_def cells_def)
qed

lemma rows_ok_keyed:
  assumes "rows_ok sh pid rows" "sh \<in> set carried"
  shows "keyed_rows sh rows"
proof -
  have ok: "row_ok sh pid row" if "row \<in> set rows" for row using assms(1) that by (simp add: rows_ok_def)
  have "a = b" if a: "a \<in> set rows" and b: "b \<in> set rows"
    and key: "row_key (key_positions sh) a = row_key (key_positions sh) b" for a b
  proof -
    have "column_cell sh a c = column_cell sh b c" if c: "c \<in> set (sh_key sh)" for c
    proof -
      obtain i where i: "i < length (sh_columns sh)" "shape_position sh c = Some i"
        using carried_keys [OF assms(2)] shape_position_name c by blast
      have fits: "value_fits (sh_columns sh ! i) (a ! i)" "value_fits (sh_columns sh ! i) (b ! i)"
        using ok [OF a] ok [OF b] i(1) by (auto simp: row_ok_def list_all2_conv_all_nth)
      have "cell_key (column_cell sh a c) = cell_key (column_cell sh b c)"
        using key c by (auto simp: row_key_cells [OF assms(2)] cells_def)
      then show ?thesis
        using cell_key_inj [OF fits] i row_ok_width [OF ok [OF a]] row_ok_width [OF ok [OF b]]
        by (simp add: column_cell_def cell_at_def)
    qed
    then have "cells sh a (sh_key sh) = cells sh b (sh_key sh)" by (simp add: cells_def)
    moreover have "inj_on (\<lambda>row. cells sh row (sh_key sh)) (set rows)"
      using assms(1) by (simp add: rows_ok_def distinct_map)
    ultimately show "a = b" using a b by (auto dest: inj_onD)
  qed
  moreover have "scalar_rows rows" unfolding scalar_rows_def using ok scalar_fits by blast
  ultimately show ?thesis by (auto simp: keyed_rows_def inj_on_def)
qed

text \<open>The same store, its rows in another order.\<close>

definition same_store :: "tstore \<Rightarrow> tstore \<Rightarrow> bool" where
  "same_store d d' \<longleftrightarrow> (\<forall>name. mset (t_rows d name) = mset (t_rows d' name))"

lemma traverse_mset:
  "traverse f xs = Inr ys \<Longrightarrow> mset xs = mset xs' \<Longrightarrow> \<exists>ys'. traverse f xs' = Inr ys' \<and> mset ys' = mset ys"
proof -
  assume run: "traverse f xs = Inr ys" and same: "mset xs = mset xs'"
  let ?g = "\<lambda>x. case f x of Inr y \<Rightarrow> y"
  have all: "\<forall>x \<in> set xs. f x = Inr (?g x)" and ys: "ys = map ?g xs"
    using run by (auto simp: traverse_Inr_iff list_all2_conv_all_nth in_set_conv_nth intro!: nth_equalityI)
  have "traverse f xs' = Inr (map ?g xs')"
    using all mset_eq_setD [OF same] by (auto simp: traverse_Inr_iff list_all2_map2 intro!: list.rel_refl_strong)
  then show ?thesis using same ys by (metis mset_map)
qed

lemma transfer_rows_same_store:
  assumes "same_store d d'" "transfer_rows d sh p = Inr rows"
  shows "\<exists>rows'. transfer_rows d' sh p = Inr rows' \<and> mset rows' = mset rows"
proof -
  have sets: "set (t_rows d name) = set (t_rows d' name)" for name
    using assms(1) mset_eq_setD unfolding same_store_def by blast
  have scope: "in_scope d' sh p s = in_scope d sh p s" for s
    using sets by (cases s) (auto simp: fun_eq_iff list_ex_iff)
  obtain s where s: "scope_of sh = Inr s" using assms(2) by (auto simp: transfer_rows_def res_simps)
  have "mset (filter (in_scope d sh p s) (t_rows d (sh_name sh))) = mset (filter (in_scope d sh p s) (t_rows d' (sh_name sh)))"
    using assms(1) by (simp add: same_store_def)
  from traverse_mset [OF _ this] assms(2) show ?thesis by (simp add: transfer_rows_def s scope)
qed

lemma snapshot_same_store:
  assumes "same_store d d'" "snapshot env d pid = Inr b" "tables_ok pid (bn_tables b)"
  shows "snapshot env d' pid = Inr b"
proof -
  let ?read = "\<lambda>d sh. and_then (transfer_rows d sh pid) (\<lambda>rows.
         Inr \<lparr>tr_table = sh_name sh, tr_columns = shape_names sh, tr_rows = rows\<rparr>)"
  obtain ts where ts: "traverse (?read d) carried = Inr ts" and sealed: "seal env pid ts carried = Inr b"
    using assms(2) by (auto simp: snapshot_def res_simps)
  then have pairs: "list_all2 (\<lambda>sh t. ?read d sh = Inr t) carried ts" by (simp add: traverse_Inr_iff)
  define us where "us = map (\<lambda>sh. case ?read d' sh of Inr t \<Rightarrow> t) carried"
  have each: "?read d' sh = Inr u \<Longrightarrow> same_rows t u"
    if "?read d sh = Inr t" for sh t u
    using that transfer_rows_same_store [OF assms(1)] by (fastforce simp: res_simps same_rows_def)
  have ok: "\<exists>u. ?read d' sh = Inr u" if "?read d sh = Inr t" for sh t
    using that transfer_rows_same_store [OF assms(1)] by (fastforce simp: res_simps)
  have us: "list_all2 (\<lambda>sh u. ?read d' sh = Inr u) carried us"
    unfolding us_def list_all2_map2
  proof (rule list.rel_refl_strong)
    fix sh assume "sh \<in> set carried"
    then obtain t where "?read d sh = Inr t" using pairs by (auto simp: in_set_conv_nth list_all2_conv_all_nth)
    from ok [OF this] show "?read d' sh = Inr (case ?read d' sh of Inr t \<Rightarrow> t)" by auto
  qed
  have same: "list_all2 same_rows ts us"
    using pairs us each by (auto simp: list_all2_conv_all_nth)
  have m: "list_all2 table_matches ts carried" by (rule read_matches [OF ts])
  let ?f = "\<lambda>sh. sort_by (compare_rows (key_positions sh))"
  have b: "bn_tables b = sort_rows ts carried" using sealed by (auto simp: seal_def res_simps Let_def)
  have "keyed_table carried t" if t: "t \<in> set ts" for t
  proof -
    obtain i where "i < length ts" "t = ts ! i" using t by (auto simp: in_set_conv_nth)
    then have "(t, carried ! i) \<in> set (zip ts carried)"
      using list_all2_lengthD [OF m] by (auto simp: in_set_zip)
    then obtain sh where p: "(t, sh) \<in> set (zip ts carried)" ..
    then have "(t\<lparr>tr_rows := ?f sh (tr_rows t)\<rparr>, sh) \<in> set (zip (bn_tables b) carried)"
      unfolding b sort_rows_def on_shaped_carried(2) [OF m] by force
    then have "rows_ok sh pid (?f sh (tr_rows t))"
      using assms(3) by (fastforce simp: tables_ok_def list_all2_iff)
    then have "keyed_rows sh (?f sh (tr_rows t))" using rows_ok_keyed set_zip_rightD [OF p] by blast
    then have "keyed_rows sh (tr_rows t)" by (simp add: keyed_rows_def scalar_rows_def)
    moreover have "shape_named carried (tr_table t) = Some sh"
      using p m shape_named_carried set_zip_rightD [OF p] by (fastforce simp: list_all2_iff table_matches_def)
    ultimately show ?thesis by (simp add: keyed_table_def)
  qed
  then have "seal env pid ts carried = seal env pid us carried"
    by (intro seal_order_free_from [OF same]) (simp add: list_all_iff)
  with sealed us show ?thesis by (simp add: snapshot_def traverse_Inr_iff [THEN iffD2])
qed

section \<open>A store that holds another project\<close>

definition demo_other :: "sql_value list" where
  "demo_other =
     [SqlText ''other'', SqlText ''other'', SqlText ''OTH'', SqlText ''Other'', SqlText ''x'', SqlText ''[]'',
      SqlText ''[]'', SqlText ''draft'', SqlText ''unknown'', SqlText ''user'', SqlText ''u1'', SqlNull,
      SqlInt 0, SqlInt 1, SqlText ''manual'', SqlText ''user'', SqlText ''u1'', SqlInt 5, SqlInt 5, SqlNull]"

definition demo_store :: tstore where
  "demo_store =
     \<lparr>t_rows = (\<lambda>_. [])(''projects'' := [demo_other]), t_bindings = [], t_changes = [], t_last_seq = 0\<rparr>"

definition demo_tstate :: tstate where
  "demo_tstate = \<lparr>ts_store = demo_store, ts_txs = 0, ts_ticks = 0, ts_log = []\<rparr>"

definition demo_import :: transfer_import where
  "demo_import = \<lparr>im_bundle = demo_bundle, im_remote = ''file:/b'', im_remap = None\<rparr>"

definition demo_digest :: string where
  "demo_digest = (case tables_digest demo_env demo_tables of Inl _ \<Rightarrow> [] | Inr d \<Rightarrow> d)"

lemma demo_tables_digest: "tables_digest demo_env demo_tables = Inr demo_digest"
  by (simp add: demo_digest_def tables_digest_def bytes_and_digest_def to_bytes_def)

lemma demo_bundle_fields [simp]:
  "bn_digest demo_bundle = demo_digest" "bn_tables demo_bundle = demo_tables"
  "bn_project_id demo_bundle = demo_id" "demo_bundle\<lparr>bn_tables := demo_tables\<rparr> = demo_bundle"
  "header_ok demo_bundle"
  by (simp_all add: demo_bundle_def demo_digest_def header_ok_def)

lemma demo_matches: "list_all2 table_matches demo_tables carried"
  using demo_tables_ok by (auto simp: tables_ok_def elim!: list_all2_mono)

lemma demo_sorted: "sort_rows demo_tables carried = demo_tables"
proof -
  have "list_all2 (\<lambda>t sh. table_matches t sh \<and> (\<forall>row \<in> set (tr_rows t). row_ok sh demo_id row)) demo_tables carried"
    using demo_tables_ok by (auto simp: tables_ok_def rows_ok_def elim!: list_all2_mono)
  moreover have "sorted (map f (tr_rows t))" if "t \<in> set demo_tables" for t and f :: "json list \<Rightarrow> (nat \<times> int \<times> string) list"
    using that by (auto simp: demo_tables_def)
  ultimately show ?thesis by (auto simp: sort_rows_fixed_iff dest: set_zip_leftD)
qed

lemma demo_check: "check_bundle demo_env debug demo_bundle carried = Inr demo_bundle"
  unfolding check_bundle_iff [OF demo_codec demo_plain]
  using demo_tables_ok by (intro conjI exI [of _ demo_tables]) simp_all

lemma demo_effective:
  "effective_digest demo_env debug demo_bundle carried None = Inr (demo_bundle, demo_digest)"
  by (simp add: effective_digest_def demo_check demo_sorted demo_tables_digest Let_def ensure_def)

lemma write_tables_empty:
  assumes "\<forall>(t, sh) \<in> set paired. tr_rows t = [] \<and> sh \<in> set carried"
  shows "write_tables d paired = Inr (d, 0)"
  using assms
proof (induction paired)
  case Nil
  then show ?case by simp
next
  case (Cons p paired)
  obtain t sh where p: "p = (t, sh)" by (cases p)
  obtain def where "find_table (sh_name sh) = Some def"
    using Cons.prems p carried_find [of sh] by auto
  with Cons p show ?case by (simp add: insert_rows_def)
qed

lemma carried_head:
  obtains rest where "carried = shape projects_table # rest"
    and "\<forall>sh \<in> set rest. sh_name sh \<noteq> ''projects''"
proof -
  obtain sh rest where c: "carried = sh # rest" by (cases carried) (simp_all add: carried_eq carried_tables_def)
  have "carried ! 0 = sh" by (simp add: c)
  then have "sh = shape projects_table" using carried_nth(1) by metis
  moreover have "sh_name sh \<notin> sh_name ` set rest" using carried_names_distinct unfolding c by simp
  ultimately show thesis using that [of rest] c by force
qed

lemmas projects_columns = arg_cong [OF projects_table_def, of td_columns, simplified]

lemma demo_row_taken:
  "\<not> row_refused projects_table [demo_other] (map bind_json demo_row)"
proof -
  have "\<not> same_key (shape projects_table) k (map bind_json demo_row) demo_other"
    if "k \<in> set (table_keys projects_table)" for k
    using that
    by (auto simp: keys same_key_def shapes value_at_def shape_position_def cell_at_def demo_row_def
        demo_other_def demo_id_def)
  moreover have "list_all (\<lambda>c. cd_not_null c \<longrightarrow>
      value_at (shape projects_table) (map bind_json demo_row) (cd_name c) \<notin> {None, Some SqlNull})
     (td_columns projects_table)"
    by (simp add: projects_columns shape_projects value_at_def shape_position_def cell_at_def demo_row_def)
  moreover have "td_distinct projects_table = []" by (simp add: projects_table_def)
  ultimately show ?thesis by (auto simp: row_refused_def list_ex_iff list_all_iff)
qed

lemma demo_write:
  "\<exists>d'. write_rows demo_store demo_bundle carried = Inr (d', 1) \<and> length (t_rows d' ''projects'') = 2"
proof -
  obtain rest where c: "carried = shape projects_table # rest"
    and rest: "\<forall>sh \<in> set rest. sh_name sh \<noteq> ''projects''" by (rule carried_head)
  let ?t = "\<lambda>sh. \<lparr>tr_table = sh_name sh, tr_columns = shape_names sh,
                tr_rows = (if sh_name sh = ''projects'' then [demo_row] else [])\<rparr>"
  let ?d = "demo_store\<lparr>t_rows := (t_rows demo_store)(''projects'' := [demo_other, map bind_json demo_row])\<rparr>"
  have paired: "zip demo_tables carried = (?t (shape projects_table), shape projects_table) # map (\<lambda>sh. (?t sh, sh)) rest"
    by (simp add: demo_tables_def c zip_map1 zip_same_conv_map)
  have "\<forall>(t, sh) \<in> set (map (\<lambda>sh. (?t sh, sh)) rest). tr_rows t = [] \<and> sh \<in> set carried"
    using rest by (auto simp: c)
  from write_tables_empty [OF this, of ?d]
  have w: "write_tables demo_store (zip demo_tables carried) = Inr (?d, 1)"
    using demo_row_taken unfolding paired by (simp add: insert_rows_def demo_store_def)
  have "keys_resolve ?d (shape projects_table)" by (simp add: keys_resolve_def shape_projects)
  moreover have "keys_resolve ?d sh" if "sh \<in> set rest" for sh
    using rest that by (simp add: keys_resolve_def demo_store_def)
  ultimately have resolve: "keys_resolve ?d sh" if "sh \<in> set carried" for sh using that by (auto simp: c)
  have "\<not> (case find_table (sh_name sh) of None \<Rightarrow> False | Some def \<Rightarrow> \<not> keys_resolve ?d (shape def))"
    if sh: "sh \<in> set carried" for sh
  proof -
    obtain def where "find_table (sh_name sh) = Some def" "shape def = sh" by (rule carried_find [OF sh])
    with resolve [OF sh] show ?thesis by simp
  qed
  then have "first_key_violation ?d (map sh_name carried) = None"
    by (auto simp: first_key_violation_def find_None_iff simp del: fun_upd_apply)
  with w have "write_rows demo_store demo_bundle carried = Inr (?d, 1)" by (simp add: write_rows_def)
  then show ?thesis by (intro exI [of _ ?d]) simp
qed

lemma demo_keys_hold: "keys_hold demo_store"
proof -
  have "keys_resolve demo_store sh" if "sh \<in> set carried" for sh
    using that carried_projects [of sh]
    by (cases "sh_name sh = ''projects''") (auto simp: keys_resolve_def demo_store_def shape_projects)
  then show ?thesis by (simp add: keys_hold_def list_all_iff)
qed

lemma demo_identity:
  "\<not> holds_project demo_store demo_id" "refuse_taken_identity demo_store demo_bundle carried = Inr ()"
proof -
  show "\<not> holds_project demo_store demo_id"
    by (simp add: holds_project_def demo_store_def demo_other_def shape_projects value_at_def
        shape_position_def cell_at_def demo_id_def)
  obtain rest where c: "carried = shape projects_table # rest" by (rule carried_head)
  have "identity_value (shape projects_table) (Some demo_row) ''key_prefix'' = ''ENG''"
    "identity_value (shape projects_table) (Some demo_row) ''slug'' = ''engine''"
    by (simp_all add: identity_value_def shape_projects shape_position_def cell_at_def demo_row_def)
  moreover have "identity_holder demo_store KeyPrefix ''ENG'' = None" "identity_holder demo_store Slug ''engine'' = None"
    by (simp_all add: identity_holder_def demo_store_def demo_other_def shape_projects value_at_def
        shape_position_def cell_at_def identity_column_def)
  moreover obtain us where first: "demo_tables = \<lparr>tr_table = ''projects'',
      tr_columns = shape_names (shape projects_table), tr_rows = [demo_row]\<rparr> # us"
    by (simp add: demo_tables_def c)
  ultimately show "refuse_taken_identity demo_store demo_bundle carried = Inr ()"
    by (simp add: refuse_taken_identity_def c ensure_def first Let_def)
qed

lemma demo_import_runs:
  assumes "ts_store s = demo_store"
  shows "\<exists>r s'. import_apply demo_env debug demo_import s = (Inr r, s') \<and> ir_outcome r = Imported \<and>
     ir_project_id r = demo_id \<and> length (t_rows (ts_store s') ''projects'') = 2"
proof -
  obtain d' where "write_rows demo_store demo_bundle carried = Inr (d', 1)"
    "length (t_rows d' ''projects'') = 2" using demo_write by blast
  moreover have "e_begin demo_env k = Inr ()" "e_commit demo_env k = Inr ()" for k
    by (simp_all add: demo_env_def)
  ultimately show ?thesis
    using assms demo_identity
    by (simp add: import_apply_def demo_import_def demo_effective transfer_transaction_def Let_def
        import_body_def transfer_now_ms_def record_import_change_def record_binding_def import_binding_def)
qed

section \<open>Properties\<close>



text \<open>C27. Moving a project and back is the identity: a bundle one data directory exports, once imported
  into another without a remap, exports from there as the same bundle, digest, rows and order,
  under the digest the import answered.\<close>

theorem export_import_round_trip:
  assumes "codec_ok env" "text_plain env" "keys_hold (ts_store s)"
    and "export env raw s0 = (Inr b, s1)"
    and "import_apply env debug \<lparr>im_bundle = b, im_remote = remote, im_remap = None\<rparr> s = (Inr r, s')"
    and "ir_outcome r = Imported"
    and "e_begin env (ts_txs s') = Inr ()" "e_commit env (ts_txs s') = Inr ()"
  shows "fst (export env raw s') = Inr b \<and> ir_digest r = bn_digest b"
proof -
  obtain pid where pid: "canonical_uuid raw = Some pid"
    and run: "transfer_transaction env (\<lambda>s.
            (and_then (ensure (holds_project (ts_store s) pid) (Project (ProjectNotFound raw))) (\<lambda>_.
             and_then (snapshot env (ts_store s) pid) (\<lambda>b. Inr (True, b))), s)) s0 = (Inr b, s1)"
    using assms(4) by (auto simp: export_def ok_or_def split: option.splits)
  have snap: "snapshot env (ts_store s0) pid = Inr b"
    using transfer_transaction_Inr [OF run] by (auto simp: res_simps)
  obtain c where eff: "effective_digest env debug b carried None = Inr (c, ir_digest r)"
    and p: "ir_project_id r = bn_project_id b" and here: "holds_project (ts_store s') (ir_project_id r)"
    and new: "snapshot env (ts_store s') (ir_project_id r) =
       Inr \<lparr>bn_format = bundle_format, bn_version = bundle_version, bn_project_id = ir_project_id r,
            bn_digest = ir_digest r, bn_tables = bn_tables c\<rparr>"
    using import_imported [OF assms(1-3,5,6)] by auto
  note same = import_of_export [OF assms(1,2) eff snap]
  obtain ts where "bn_format b = bundle_format" "bn_version b = bundle_version"
    using snapshot_sealed [OF snap] by blast
  then have "\<lparr>bn_format = bundle_format, bn_version = bundle_version, bn_project_id = ir_project_id r,
            bn_digest = ir_digest r, bn_tables = bn_tables c\<rparr> = b"
    using same p by (intro project_bundle.equality) simp_all
  then have "snapshot env (ts_store s') pid = Inr b" "holds_project (ts_store s') pid"
    using new here p same by simp_all
  then have "fst (export env raw s') = Inr b"
    using assms(7,8) by (simp add: export_def ok_or_def pid transfer_transaction_def Let_def ensure_def)
  with same show ?thesis by simp
qed

theorem export_import_round_trip_witness:
  "\<exists>r s' b. import_apply demo_env (\<lambda>n. n) demo_import demo_tstate = (Inr r, s') \<and>
     fst (export demo_env demo_id s') = Inr b \<and>
     (\<exists>r2 s2. import_apply demo_env (\<lambda>n. n) \<lparr>im_bundle = b, im_remote = ''a'', im_remap = None\<rparr> demo_tstate = (Inr r2, s2) \<and>
        fst (export demo_env demo_id s2) = Inr b \<and> ir_digest r2 = bn_digest b)"
proof -
  have answers: "e_begin demo_env k = Inr ()" "e_commit demo_env k = Inr ()" for k
    by (simp_all add: demo_env_def)
  have store: "ts_store demo_tstate = demo_store" by (simp add: demo_tstate_def)
  then have hold: "keys_hold (ts_store demo_tstate)" using demo_keys_hold by simp
  obtain r s' where run: "import_apply demo_env (\<lambda>n. n) demo_import demo_tstate = (Inr r, s')"
    "ir_outcome r = Imported" "ir_project_id r = demo_id"
    using demo_import_runs [OF store] by blast
  obtain c where eff: "effective_digest demo_env (\<lambda>n. n) demo_bundle carried None = Inr (c, ir_digest r)"
    and here: "holds_project (ts_store s') demo_id"
    and snap: "snapshot demo_env (ts_store s') demo_id =
       Inr \<lparr>bn_format = bundle_format, bn_version = bundle_version, bn_project_id = demo_id,
            bn_digest = ir_digest r, bn_tables = bn_tables c\<rparr>"
    using import_imported [OF demo_codec demo_plain hold run(1,2)] run(3) by (auto simp: demo_import_def)
  have "c = demo_bundle" "ir_digest r = demo_digest" using eff demo_effective by auto
  then have "snapshot demo_env (ts_store s') demo_id = Inr demo_bundle"
    using snap by (simp add: demo_bundle_def demo_digest_def)
  then have ex: "export demo_env demo_id s' = (Inr demo_bundle, snd (export demo_env demo_id s'))"
    using here answers by (simp add: export_def ok_or_def transfer_transaction_def Let_def ensure_def)
  let ?im = "\<lparr>im_bundle = demo_bundle, im_remote = ''a'', im_remap = None\<rparr>"
  obtain d' where "write_rows demo_store demo_bundle carried = Inr (d', 1)" using demo_write by blast
  then have "\<exists>r2 s2. import_apply demo_env (\<lambda>n. n) ?im demo_tstate = (Inr r2, s2) \<and> ir_outcome r2 = Imported"
    using store demo_identity answers
    by (simp add: import_apply_def demo_effective transfer_transaction_def Let_def import_body_def transfer_now_ms_def)
  then obtain r2 s2 where again: "import_apply demo_env (\<lambda>n. n) ?im demo_tstate = (Inr r2, s2)" "ir_outcome r2 = Imported"
    by blast
  from export_import_round_trip [OF demo_codec demo_plain hold ex again answers] ex run(1) again(1)
  show ?thesis by (metis fst_conv)
qed

text \<open>C30. Importing the same bundle a second time changes nothing: the answer is \<open>unchanged\<close> with the
  digest of the first import, and the store stays as it is.\<close>

theorem reimport_unchanged:
  assumes "codec_ok env" "text_plain env" "keys_hold (ts_store s)"
    and "import_apply env debug im s = (Inr r, s')" "ir_outcome r = Imported"
    and "ts_store s2 = ts_store s'" "e_begin env (ts_txs s2) = Inr ()"
  shows "\<exists>r2 s3. import_apply env debug im s2 = (Inr r2, s3) \<and> ir_outcome r2 = Unchanged \<and>
     ir_digest r2 = ir_digest r \<and> ir_local_digest r2 = Some (ir_digest r) \<and> ir_rows r2 = 0 \<and>
     ts_store s3 = ts_store s2"
proof -
  obtain c where eff: "effective_digest env debug (im_bundle im) carried (im_remap im) = Inr (c, ir_digest r)"
    and p: "ir_project_id r = bn_project_id (im_bundle im)"
    and here: "holds_project (ts_store s') (ir_project_id r)"
    and snap: "snapshot env (ts_store s') (ir_project_id r) =
       Inr \<lparr>bn_format = bundle_format, bn_version = bundle_version, bn_project_id = ir_project_id r,
            bn_digest = ir_digest r, bn_tables = bn_tables c\<rparr>"
    using import_imported [OF assms(1-5)] by auto
  have "bn_project_id c = ir_project_id r" using effective_digest_Inr(3) [OF assms(1,2) eff] p by simp
  then show ?thesis
    using eff here snap assms(6,7)
    by (simp add: import_apply_def transfer_transaction_def Let_def import_body_def)
qed

theorem reimport_unchanged_witness:
  "\<exists>r s'. import_apply demo_env (\<lambda>n. n) demo_import demo_tstate = (Inr r, s') \<and> ir_outcome r = Imported \<and>
     (\<exists>r2 s3. import_apply demo_env (\<lambda>n. n) demo_import s' = (Inr r2, s3) \<and> ir_outcome r2 = Unchanged \<and>
        ts_store s3 = ts_store s')"
proof -
  have store: "ts_store demo_tstate = demo_store" by (simp add: demo_tstate_def)
  then have hold: "keys_hold (ts_store demo_tstate)" using demo_keys_hold by simp
  obtain r s' where run: "import_apply demo_env (\<lambda>n. n) demo_import demo_tstate = (Inr r, s')"
    "ir_outcome r = Imported" using demo_import_runs [OF store] by blast
  have "e_begin demo_env (ts_txs s') = Inr ()" by (simp add: demo_env_def)
  from reimport_unchanged [OF demo_codec demo_plain hold run refl this] run show ?thesis by blast
qed



text \<open>C34. A bundle does not depend on the order rows lie in: two stores that hold the same rows of every
  table export a project whose bundle passes the check as the same bundle, digest included.\<close>

theorem export_order_free:
  assumes "codec_ok env" "text_plain env" "same_store d d'"
    and "snapshot env d pid = Inr b" "check_bundle env debug b carried = Inr b'"
  shows "snapshot env d' pid = Inr b"
proof -
  obtain ts where ts: "mset ts = mset (bn_tables b)" "tables_ok (bn_project_id b) ts"
    using assms(5) by (auto simp: check_bundle_iff [OF assms(1,2)])
  obtain us where "list_all2 table_matches us carried" "bn_tables b = sort_rows us carried" "bn_project_id b = pid"
    using snapshot_sealed [OF assms(4)] by blast
  moreover have "list_all2 table_matches ts carried" using ts(2) by (auto simp: tables_ok_def elim!: list_all2_mono)
  ultimately have "tables_ok pid (bn_tables b)"
    using matches_unique [OF _ _ ts(1)] sort_rows_matches ts(2) by metis
  then show ?thesis by (rule snapshot_same_store [OF assms(3,4)])
qed

theorem export_order_free_witness:
  "\<exists>d b. length (t_rows d ''projects'') = 2 \<and> snapshot demo_env d demo_id = Inr b \<and>
     snapshot demo_env (d\<lparr>t_rows := (\<lambda>name. rev (t_rows d name))\<rparr>) demo_id = Inr b"
proof -
  have store: "ts_store demo_tstate = demo_store" by (simp add: demo_tstate_def)
  then have hold: "keys_hold (ts_store demo_tstate)" using demo_keys_hold by simp
  obtain r s' where run: "import_apply demo_env (\<lambda>n. n) demo_import demo_tstate = (Inr r, s')"
    "ir_outcome r = Imported" "ir_project_id r = demo_id" "length (t_rows (ts_store s') ''projects'') = 2"
    using demo_import_runs [OF store] by blast
  obtain c where eff: "effective_digest demo_env (\<lambda>n. n) demo_bundle carried None = Inr (c, ir_digest r)"
    and snap: "snapshot demo_env (ts_store s') demo_id =
       Inr \<lparr>bn_format = bundle_format, bn_version = bundle_version, bn_project_id = demo_id,
            bn_digest = ir_digest r, bn_tables = bn_tables c\<rparr>"
    using import_imported [OF demo_codec demo_plain hold run(1,2)] run(3) by (auto simp: demo_import_def)
  have "c = demo_bundle" "ir_digest r = demo_digest" using eff demo_effective by auto
  then have "snapshot demo_env (ts_store s') demo_id = Inr demo_bundle"
    using snap by (simp add: demo_bundle_def demo_digest_def)
  moreover have "check_bundle demo_env (\<lambda>n. n) demo_bundle carried = Inr demo_bundle" by (rule demo_check)
  moreover have "same_store d (d\<lparr>t_rows := (\<lambda>name. rev (t_rows d name))\<rparr>)" for d
    by (simp add: same_store_def)
  ultimately have "snapshot demo_env ((ts_store s')\<lparr>t_rows := (\<lambda>name. rev (t_rows (ts_store s') name))\<rparr>) demo_id =
      Inr demo_bundle"
    using export_order_free [OF demo_codec demo_plain] by blast
  with \<open>snapshot demo_env (ts_store s') demo_id = Inr demo_bundle\<close> run(4) show ?thesis by blast
qed

end
