(* ===== verification/Replica_Contract.thy ===== *)
theory Replica_Contract
  imports Errors Serde Identifiers
begin

text \<open>
  The \<open>replica-v1\<close> wire contract (\<open>src/domains/sync/replica/contract.rs\<close>,
  \<open>contract_views.rs\<close>): operations, decisions and feed entries, with the literals they are
  stored under; and the checks on an envelope that read no state (\<open>check_envelope\<close> of
  \<open>accept.rs\<close>, \<open>check_cursor\<close>, \<open>check_position\<close> and the refusal reasons of
  \<open>validate.rs\<close>).
\<close>

section \<open>Literals\<close>

text \<open>\<open>SyncOp\<close> and \<open>SyncOrigin\<close> of \<open>store/sync_log.rs\<close>.\<close>

datatype replica_op = Upsert | Tombstone | Revive

datatype replica_origin = FromHere | FromPeer

fun op_str :: "replica_op \<Rightarrow> string" where
  "op_str Upsert = ''upsert''"
| "op_str Tombstone = ''tombstone''"
| "op_str Revive = ''restore''"

fun origin_str :: "replica_origin \<Rightarrow> string" where
  "origin_str FromHere = ''local''"
| "origin_str FromPeer = ''sync''"

definition parse_op :: "string \<Rightarrow> error + replica_op" where
  "parse_op raw =
     (if raw = ''upsert'' then Inr Upsert
      else if raw = ''tombstone'' then Inr Tombstone
      else if raw = ''restore'' then Inr Revive
      else Inl (Other (''unknown sync_log op: '' @ raw)))"

definition parse_origin :: "string \<Rightarrow> error + replica_origin" where
  "parse_origin raw =
     (if raw = ''local'' then Inr FromHere
      else if raw = ''sync'' then Inr FromPeer
      else Inl (Other (''unknown sync_log origin: '' @ raw)))"

datatype disposition =
    Accepted
  | Duplicate
  | RejectedStale
  | RejectedConflict
  | RejectedUnsupported
  | RejectedInvalid
  | RejectedNotAllowed
  | PayloadExpired
  | PayloadErased

fun disposition_str :: "disposition \<Rightarrow> string" where
  "disposition_str Accepted = ''accepted''"
| "disposition_str Duplicate = ''duplicate''"
| "disposition_str RejectedStale = ''rejected_stale''"
| "disposition_str RejectedConflict = ''rejected_conflict''"
| "disposition_str RejectedUnsupported = ''rejected_unsupported''"
| "disposition_str RejectedInvalid = ''rejected_invalid''"
| "disposition_str RejectedNotAllowed = ''rejected_not_allowed''"
| "disposition_str PayloadExpired = ''payload_expired''"
| "disposition_str PayloadErased = ''payload_erased''"

text \<open>A literal a newer engine stored reads as invalid.\<close>

definition parse_disposition :: "string \<Rightarrow> disposition" where
  "parse_disposition raw =
     (if raw = ''accepted'' then Accepted
      else if raw = ''duplicate'' then Duplicate
      else if raw = ''rejected_stale'' then RejectedStale
      else if raw = ''rejected_conflict'' then RejectedConflict
      else if raw = ''rejected_unsupported'' then RejectedUnsupported
      else if raw = ''rejected_not_allowed'' then RejectedNotAllowed
      else if raw = ''payload_expired'' then PayloadExpired
      else if raw = ''payload_erased'' then PayloadErased
      else RejectedInvalid)"

fun disposition_reason :: "disposition \<Rightarrow> string option" where
  "disposition_reason RejectedStale = Some
     (''the observed revision is behind this entity's deletion, or this '' @
      ''machine still owes an unpushed change to it'')"
| "disposition_reason RejectedUnsupported = Some ''unknown entity kind or payload schema version''"
| "disposition_reason RejectedInvalid = Some ''payload failed validation''"
| "disposition_reason PayloadErased =
     Some ''payload bytes were permanently erased; the barrier stands''"
| "disposition_reason PayloadExpired = Some ''payload bytes are past retention''"
| "disposition_reason RejectedNotAllowed = Some ''policy does not allow this entity''"
| "disposition_reason RejectedConflict =
     Some ''operation id already answered for different payload bytes''"
| "disposition_reason Accepted = None"
| "disposition_reason Duplicate = None"

text \<open>\<open>Redaction\<close> of \<open>store/replica_read.rs\<close>: why a payload row has no bytes.\<close>

datatype redaction = Erased | Expired

fun redaction_str :: "redaction \<Rightarrow> string" where
  "redaction_str Erased = ''erased''"
| "redaction_str Expired = ''expired''"

definition redaction_of_columns :: "string option \<Rightarrow> string option \<Rightarrow> redaction option" where
  "redaction_of_columns redacted_at reason =
     (case redacted_at of
        None \<Rightarrow> None
      | Some _ \<Rightarrow> Some (if reason = Some ''expired'' then Expired else Erased))"

section \<open>Operations and decisions\<close>

record cursor_ref =
  cu_epoch :: string
  cu_sequence :: int

text \<open>\<open>SyncVector\<close> of \<open>exchange/types.rs\<close>.\<close>

record sync_vector =
  sv_model :: string
  sv_dims :: int
  sv_f32 :: string

record replica_operation =
  o_id :: string
  o_kind :: string
  o_key :: string
  o_op :: replica_op
  o_schema :: int
  o_digest :: "string option"
  o_payload :: "json option"
  o_observed :: "int option"
  o_repository :: "string option"
  o_vector :: "sync_vector option"

record import_request =
  im_protocol :: string
  im_cursor :: "cursor_ref option"
  im_operations :: "replica_operation list"
  im_workspace :: "string option"

record operation_result =
  or_id :: string
  or_disposition :: disposition
  or_sequence :: "int option"
  or_digest :: "string option"
  or_reason :: "string option"

record envelope_response =
  ir_protocol :: string
  ir_epoch :: string
  ir_head :: int
  ir_results :: "operation_result list"

datatype payload_state = Present | Absent | StateErased | StateExpired

record change_entry =
  ce_sequence :: int
  ce_id :: string
  ce_kind :: string
  ce_key :: string
  ce_op :: replica_op
  ce_schema :: int
  ce_digest :: "string option"
  ce_payload :: "json option"
  ce_state :: payload_state
  ce_repository :: "string option"
  ce_at :: string

record changes_response =
  cr_protocol :: string
  cr_epoch :: string
  cr_head :: int
  cr_next :: "int option"
  cr_entries :: "change_entry list"

definition protocol :: string where "protocol = ''replica-v1''"

definition max_operations :: nat where "max_operations = 500"

definition max_envelope_bytes :: nat where "max_envelope_bytes = 5 * 1024 * 1024"

text \<open>The entity kinds and their payload versions, as the payload modules declare them.\<close>

definition memory_kind :: string where "memory_kind = ''memory''"
definition code_kind :: string where "code_kind = ''code_generation''"
definition document_kind :: string where "document_kind = ''document_revision''"
definition feedback_kind :: string where "feedback_kind = ''feedback_event''"
definition activity_kind :: string where "activity_kind = ''activity_event''"

lemmas kind_defs [table_simps] =
  memory_kind_def code_kind_def document_kind_def feedback_kind_def activity_kind_def

text \<open>Each payload module's \<open>*_PAYLOAD_VERSION\<close>.\<close>

definition payload_version :: int where "payload_version = 1"

section \<open>Checks that read no state\<close>

definition check_cursor :: "cursor_ref option \<Rightarrow> string \<Rightarrow> error + unit" where
  "check_cursor cursor epoch =
     (case cursor of
        Some c \<Rightarrow>
          if cu_epoch c \<noteq> epoch
          then Inl (EpochMismatch (''cursor is for stream '' @ cu_epoch c @
                 '', this stream is '' @ epoch))
          else Inr ()
      | None \<Rightarrow> Inr ())"

definition check_position :: "int \<Rightarrow> int \<Rightarrow> error + unit" where
  "check_position since head =
     (if head < since
      then Inl (Conflict (''cursor_ahead: cursor is at '' @ show_int since @
             '', this stream's head is '' @ show_int head))
      else Inr ())"

definition wrong_protocol :: "string \<Rightarrow> error" where
  "wrong_protocol p = BadRequest (''unsupported protocol '' @ p @ '', expected '' @ protocol)"

definition check_envelope :: "import_request \<Rightarrow> error + unit" where
  "check_envelope request =
     (if im_protocol request \<noteq> protocol then Inl (wrong_protocol (im_protocol request))
      else if im_workspace request \<noteq> None
      then Inl (BadRequest ''workspace comes from the authenticated credential; remove workspace_id'')
      else if max_operations < length (im_operations request)
      then Inl (BadRequest (''envelope accepts at most '' @ show_nat max_operations @
             '' operations, got '' @ show_nat (length (im_operations request))))
      else Inr ())"

text \<open>\<open>needs_payload\<close> of \<open>accept.rs\<close>, \<open>is_event_kind\<close> of \<open>validate_events.rs\<close>.\<close>

definition needs_payload :: "replica_op \<Rightarrow> bool" where
  "needs_payload op \<longleftrightarrow> op = Upsert \<or> op = Revive"

definition is_event_kind :: "string \<Rightarrow> bool" where
  "is_event_kind kind \<longleftrightarrow> kind = feedback_kind \<or> kind = activity_kind"

text \<open>\<open>manifest::advertised\<close>.\<close>

definition advertised :: "string list" where
  "advertised = protocol #
     map (\<lambda>kind. kind @ ''@'' @ show_int payload_version)
       [memory_kind, code_kind, document_kind, feedback_kind, activity_kind]"

section \<open>The literals read back\<close>

lemma parse_op_str [simp]: "parse_op (op_str op) = Inr op"
  by (cases op) (simp_all add: parse_op_def)

lemma parse_origin_str [simp]: "parse_origin (origin_str r) = Inr r"
  by (cases r) (simp_all add: parse_origin_def)

lemma parse_disposition_str [simp]: "parse_disposition (disposition_str d) = d"
  by (cases d) (simp_all add: parse_disposition_def)

lemma disposition_str_inj [simp]: "disposition_str d = disposition_str d' \<longleftrightarrow> d = d'"
  by (metis parse_disposition_str)

lemma redaction_back [simp]:
  "redaction_of_columns (Some at) (Some (redaction_str r)) = Some r"
  by (cases r) (simp_all add: redaction_of_columns_def)

lemma check_cursor_ok:
  "check_cursor c epoch = Inr u \<longleftrightarrow> (\<forall>r. c = Some r \<longrightarrow> cu_epoch r = epoch)"
  by (auto simp: check_cursor_def split: option.splits)

lemma needs_payload_iff [simp]: "needs_payload op \<longleftrightarrow> op \<noteq> Tombstone"
  by (cases op) (simp_all add: needs_payload_def)

end
