(* ===== verification/Replica_Payloads.thy ===== *)
theory Replica_Payloads
  imports Replica_Contract
begin

text \<open>
  What each replicated entity carries on the wire (\<open>replica_payload.rs\<close> of \<open>memories\<close>, \<open>code\<close>,
  \<open>documents\<close> and \<open>learning\<close> under \<open>src/domains\<close>, and \<open>sync/replica/activity_payload.rs\<close>): the
  five payloads, their derived \<open>Serialize\<close> and \<open>Deserialize\<close>, the content-derived ids, and the
  rule each payload keeps under its entity key (the \<open>Identity\<close> implementations of
  \<open>sync/replica/validate.rs\<close> and \<open>validate_events.rs\<close>).

  SHA-256, the text form of JSON and ISO-8601 are third-party; they are fields of
  \<open>replica_env\<close>, with the clock, the transactions of the connection and the two display
  settings of \<open>activity\<close>. \<open>n_decode_error\<close> is the text for a value of another shape than the
  type asked for, \<open>n_debug_id\<close> Rust's \<open>Debug\<close> of an optional id. A \<open>date_time\<close> is a time in nanoseconds and its UTC offset.
\<close>

section \<open>The environment\<close>

type_synonym date_time = "int \<times> int"

record replica_env =
  n_clock :: "nat \<Rightarrow> date_time"
  n_iso_format :: "date_time \<Rightarrow> string + string"
  n_iso_parse :: "string \<Rightarrow> string + date_time"
  n_to_string :: "json \<Rightarrow> string + string"
  n_from_str :: "string \<Rightarrow> string + json"
  n_decode_error :: "json \<Rightarrow> string"
  n_debug_id :: "string option \<Rightarrow> string"
  n_sha256 :: "string \<Rightarrow> string"
  n_begin :: "nat \<Rightarrow> error + unit"
  n_commit :: "nat \<Rightarrow> error + unit"
  n_activity_enabled :: bool
  n_activity_summaries :: bool

definition canonical_bytes :: "replica_env \<Rightarrow> json \<Rightarrow> error + string \<times> string" where
  "canonical_bytes env value = bytes_and_digest Other (n_to_string env) (n_sha256 env) value"

definition iso_parses :: "replica_env \<Rightarrow> string \<Rightarrow> bool" where
  "iso_parses env s \<longleftrightarrow> (case n_iso_parse env s of Inl _ \<Rightarrow> False | Inr _ \<Rightarrow> True)"

section \<open>Memories\<close>

datatype memory_kinds = Decision | Bug | Convention | Discovery | Pattern | Note

fun memory_kind_str :: "memory_kinds \<Rightarrow> string" where
  "memory_kind_str Decision = ''decision''"
| "memory_kind_str Bug = ''bug''"
| "memory_kind_str Convention = ''convention''"
| "memory_kind_str Discovery = ''discovery''"
| "memory_kind_str Pattern = ''pattern''"
| "memory_kind_str Note = ''note''"

definition memory_kind_of_json :: "json \<Rightarrow> memory_kinds option" where
  "memory_kind_of_json = named_of_json
     (map (\<lambda>k. (memory_kind_str k, k)) [Decision, Bug, Convention, Discovery, Pattern, Note])"

text \<open>\<open>Ref\<close> of \<open>references.rs\<close>: a bare string without an anchor, a map with one.\<close>

record code_ref =
  cref_id :: string
  cref_blob :: "string option"
  cref_commit :: "string option"
  cref_branch :: "string option"

definition is_bare :: "code_ref \<Rightarrow> bool" where
  "is_bare r \<longleftrightarrow> cref_blob r = None \<and> cref_commit r = None \<and> cref_branch r = None"

definition code_ref_json :: "code_ref \<Rightarrow> json" where
  "code_ref_json r =
     (if is_bare r then JStr (cref_id r)
      else struct_json
        [(''id'', Some (JStr (cref_id r))),
         (''blob'', map_option JStr (cref_blob r)),
         (''commit'', map_option JStr (cref_commit r)),
         (''branch'', map_option JStr (cref_branch r))])"

text \<open>\<open>visit_map\<close> reads the members in turn, the last mention of a key winning.\<close>

fun ref_members :: "code_ref \<Rightarrow> bool \<Rightarrow> (string \<times> json) list \<Rightarrow> (code_ref \<times> bool) option" where
  "ref_members r seen [] = Some (r, seen)"
| "ref_members r seen ((k, v) # kvs) =
     (if k = ''id'' then
        Option.bind (json_str v) (\<lambda>s. ref_members (r\<lparr>cref_id := s\<rparr>) True kvs)
      else if k = ''blob'' then
        Option.bind (json_option json_str v) (\<lambda>s. ref_members (r\<lparr>cref_blob := s\<rparr>) seen kvs)
      else if k = ''commit'' then
        Option.bind (json_option json_str v) (\<lambda>s. ref_members (r\<lparr>cref_commit := s\<rparr>) seen kvs)
      else if k = ''branch'' then
        Option.bind (json_option json_str v) (\<lambda>s. ref_members (r\<lparr>cref_branch := s\<rparr>) seen kvs)
      else ref_members r seen kvs)"

definition bare_ref :: "string \<Rightarrow> code_ref" where
  "bare_ref i = \<lparr>cref_id = i, cref_blob = None, cref_commit = None, cref_branch = None\<rparr>"

fun code_ref_of_json :: "json \<Rightarrow> code_ref option" where
  "code_ref_of_json (JStr s) = Some (bare_ref s)"
| "code_ref_of_json (JObj kvs) =
     (case ref_members (bare_ref []) False kvs of
        Some (r, True) \<Rightarrow> Some r
      | _ \<Rightarrow> None)"
| "code_ref_of_json _ = None"

record code_references =
  rf_symbols :: "code_ref list"
  rf_files :: "code_ref list"

record memory_relations =
  rl_supersedes :: "string list"
  rl_conflicts :: "string list"
  rl_derived :: "string list"

definition references_json :: "code_references \<Rightarrow> json" where
  "references_json r = JObj
     [(''symbols'', JArr (map code_ref_json (rf_symbols r))),
      (''files'', JArr (map code_ref_json (rf_files r)))]"

definition relations_json :: "memory_relations \<Rightarrow> json" where
  "relations_json r = JObj
     [(''supersedes'', json_ids (rl_supersedes r)),
      (''conflicts_with'', json_ids (rl_conflicts r)),
      (''derived_from'', json_ids (rl_derived r))]"

definition references_of_json :: "json \<Rightarrow> code_references option" where
  "references_of_json j =
     Option.bind (open_fields [''symbols'', ''files''] j) (\<lambda>get.
     Option.bind (default_field [] (json_list code_ref_of_json) get ''symbols'') (\<lambda>symbols.
     Option.bind (default_field [] (json_list code_ref_of_json) get ''files'') (\<lambda>files.
     Some \<lparr>rf_symbols = symbols, rf_files = files\<rparr>)))"

definition relations_of_json :: "json \<Rightarrow> memory_relations option" where
  "relations_of_json j =
     Option.bind (open_fields [''supersedes'', ''conflicts_with'', ''derived_from''] j) (\<lambda>get.
     Option.bind (default_field [] (json_list json_str) get ''supersedes'') (\<lambda>supersedes.
     Option.bind (default_field [] (json_list json_str) get ''conflicts_with'') (\<lambda>conflicts.
     Option.bind (default_field [] (json_list json_str) get ''derived_from'') (\<lambda>derived.
     Some \<lparr>rl_supersedes = supersedes, rl_conflicts = conflicts, rl_derived = derived\<rparr>))))"

record memory_payload =
  mp_id :: string
  mp_kind :: memory_kinds
  mp_repo :: string
  mp_tags :: "string list"
  mp_created :: string
  mp_quality :: int
  mp_schema :: int
  mp_hash :: string
  mp_references :: code_references
  mp_relations :: memory_relations
  mp_body :: string

definition memory_payload_fields :: "string list" where
  "memory_payload_fields =
     [''id'', ''kind'', ''repo'', ''tags'', ''created'', ''quality'', ''schema'', ''content_hash'',
      ''references'', ''relations'', ''body'']"

definition memory_payload_json :: "memory_payload \<Rightarrow> json" where
  "memory_payload_json m = JObj
     [(''id'', JStr (mp_id m)), (''kind'', JStr (memory_kind_str (mp_kind m))),
      (''repo'', JStr (mp_repo m)), (''tags'', json_ids (mp_tags m)),
      (''created'', JStr (mp_created m)), (''quality'', JInt (mp_quality m)),
      (''schema'', JInt (mp_schema m)), (''content_hash'', JStr (mp_hash m)),
      (''references'', references_json (mp_references m)),
      (''relations'', relations_json (mp_relations m)), (''body'', JStr (mp_body m))]"

definition memory_payload_of_json :: "json \<Rightarrow> memory_payload option" where
  "memory_payload_of_json j =
     Option.bind (known_fields memory_payload_fields j) (\<lambda>get.
     Option.bind (field json_str get ''id'') (\<lambda>i.
     Option.bind (field memory_kind_of_json get ''kind'') (\<lambda>kind.
     Option.bind (field json_str get ''repo'') (\<lambda>repo.
     Option.bind (default_field [] (json_list json_str) get ''tags'') (\<lambda>tags.
     Option.bind (field json_str get ''created'') (\<lambda>created.
     Option.bind (field json_u8 get ''quality'') (\<lambda>quality.
     Option.bind (field json_u32 get ''schema'') (\<lambda>schema.
     Option.bind (field json_str get ''content_hash'') (\<lambda>hash.
     Option.bind (default_field \<lparr>rf_symbols = [], rf_files = []\<rparr> references_of_json get ''references'')
       (\<lambda>refs.
     Option.bind (default_field \<lparr>rl_supersedes = [], rl_conflicts = [], rl_derived = []\<rparr>
         relations_of_json get ''relations'') (\<lambda>rels.
     Option.bind (field json_str get ''body'') (\<lambda>body.
     Some \<lparr>mp_id = i, mp_kind = kind, mp_repo = repo, mp_tags = tags, mp_created = created,
           mp_quality = quality, mp_schema = schema, mp_hash = hash, mp_references = refs,
           mp_relations = rels, mp_body = body\<rparr>))))))))))))"

text \<open>\<open>memories/id.rs\<close>: the first four bytes of the digest, as hex.\<close>

definition memory_id :: "(string \<Rightarrow> string) \<Rightarrow> string \<Rightarrow> string" where
  "memory_id sha256_hex body = take 8 (sha256_hex (trim_end body))"

definition memory_holds :: "replica_env \<Rightarrow> memory_payload \<Rightarrow> string \<Rightarrow> bool" where
  "memory_holds env m key \<longleftrightarrow>
     key = mp_id m \<and> is_valid_memory_id (mp_id m) \<and>
     mp_id m = memory_id (n_sha256 env) (mp_body m) \<and>
     mp_hash m = n_sha256 env (trim_end (mp_body m)) \<and>
     1 \<le> mp_quality m \<and> mp_quality m \<le> 5 \<and> iso_parses env (mp_created m)"

section \<open>Code generations\<close>

record file_wire =
  fw_path :: string
  fw_blob :: string

record symbol_wire =
  sw_path :: string
  sw_symbol :: string
  sw_kind :: string
  sw_lang :: string
  sw_line_start :: int
  sw_line_end :: int

record edge_wire =
  ew_rel :: string
  ew_src :: string
  ew_dst :: string
  ew_weight :: int
  ew_anchor :: "string option"

record code_generation =
  cg_id :: string
  cg_parent :: "string option"
  cg_head :: string
  cg_mined :: "string option"
  cg_files :: "file_wire list"
  cg_symbols :: "symbol_wire list"
  cg_edges :: "edge_wire list"

definition file_json :: "file_wire \<Rightarrow> json" where
  "file_json f = JObj [(''path'', JStr (fw_path f)), (''blob_oid'', JStr (fw_blob f))]"

definition symbol_json :: "symbol_wire \<Rightarrow> json" where
  "symbol_json s = JObj
     [(''path'', JStr (sw_path s)), (''symbol'', JStr (sw_symbol s)), (''kind'', JStr (sw_kind s)),
      (''lang'', JStr (sw_lang s)), (''line_start'', JInt (sw_line_start s)),
      (''line_end'', JInt (sw_line_end s))]"

definition edge_json :: "edge_wire \<Rightarrow> json" where
  "edge_json e = struct_json
     [(''rel'', Some (JStr (ew_rel e))), (''src_path'', Some (JStr (ew_src e))),
      (''dst_path'', Some (JStr (ew_dst e))), (''weight'', Some (JInt (ew_weight e))),
      (''anchor'', map_option JStr (ew_anchor e))]"

definition code_json :: "code_generation \<Rightarrow> json" where
  "code_json c = struct_json
     [(''generation_id'', Some (JStr (cg_id c))), (''parent_id'', map_option JStr (cg_parent c)),
      (''head'', Some (JStr (cg_head c))), (''mined_commit'', map_option JStr (cg_mined c)),
      (''files'', Some (JArr (map file_json (cg_files c)))),
      (''symbols'', Some (JArr (map symbol_json (cg_symbols c)))),
      (''edges'', Some (JArr (map edge_json (cg_edges c))))]"

definition file_of_json :: "json \<Rightarrow> file_wire option" where
  "file_of_json j =
     Option.bind (known_fields [''path'', ''blob_oid''] j) (\<lambda>get.
     Option.bind (field json_str get ''path'') (\<lambda>path.
     Option.bind (field json_str get ''blob_oid'') (\<lambda>blob.
     Some \<lparr>fw_path = path, fw_blob = blob\<rparr>)))"

definition symbol_of_json :: "json \<Rightarrow> symbol_wire option" where
  "symbol_of_json j =
     Option.bind (known_fields [''path'', ''symbol'', ''kind'', ''lang'', ''line_start'', ''line_end''] j)
       (\<lambda>get.
     Option.bind (field json_str get ''path'') (\<lambda>path.
     Option.bind (field json_str get ''symbol'') (\<lambda>symbol.
     Option.bind (field json_str get ''kind'') (\<lambda>kind.
     Option.bind (field json_str get ''lang'') (\<lambda>lang.
     Option.bind (field json_i64 get ''line_start'') (\<lambda>line_start.
     Option.bind (field json_i64 get ''line_end'') (\<lambda>line_end.
     Some \<lparr>sw_path = path, sw_symbol = symbol, sw_kind = kind, sw_lang = lang,
           sw_line_start = line_start, sw_line_end = line_end\<rparr>)))))))"

definition edge_of_json :: "json \<Rightarrow> edge_wire option" where
  "edge_of_json j =
     Option.bind (known_fields [''rel'', ''src_path'', ''dst_path'', ''weight'', ''anchor''] j) (\<lambda>get.
     Option.bind (field json_str get ''rel'') (\<lambda>rel.
     Option.bind (field json_str get ''src_path'') (\<lambda>src.
     Option.bind (field json_str get ''dst_path'') (\<lambda>dst.
     Option.bind (field json_i64 get ''weight'') (\<lambda>weight.
     Option.bind (opt_field json_str get ''anchor'') (\<lambda>anchor.
     Some \<lparr>ew_rel = rel, ew_src = src, ew_dst = dst, ew_weight = weight, ew_anchor = anchor\<rparr>))))))"

definition code_of_json :: "json \<Rightarrow> code_generation option" where
  "code_of_json j =
     Option.bind (known_fields [''generation_id'', ''parent_id'', ''head'', ''mined_commit'', ''files'',
       ''symbols'', ''edges''] j) (\<lambda>get.
     Option.bind (field json_str get ''generation_id'') (\<lambda>i.
     Option.bind (opt_field json_str get ''parent_id'') (\<lambda>parent.
     Option.bind (field json_str get ''head'') (\<lambda>head.
     Option.bind (opt_field json_str get ''mined_commit'') (\<lambda>mined.
     Option.bind (field (json_list file_of_json) get ''files'') (\<lambda>files.
     Option.bind (field (json_list symbol_of_json) get ''symbols'') (\<lambda>symbols.
     Option.bind (field (json_list edge_of_json) get ''edges'') (\<lambda>edges.
     Some \<lparr>cg_id = i, cg_parent = parent, cg_head = head, cg_mined = mined, cg_files = files,
           cg_symbols = symbols, cg_edges = edges\<rparr>))))))))"

definition code_canonical :: "replica_env \<Rightarrow> code_generation \<Rightarrow> error + string \<times> string" where
  "code_canonical env c = canonical_bytes env (code_json c)"

text \<open>The id is the digest's prefix, taken with the id left blank.\<close>

definition code_id_len :: nat where "code_id_len = 32"

definition code_mint_id :: "replica_env \<Rightarrow> code_generation \<Rightarrow> error + string" where
  "code_mint_id env c =
     and_then (code_canonical env (c\<lparr>cg_id := []\<rparr>)) (\<lambda>(_, digest). Inr (take code_id_len digest))"

definition code_owns_id :: "replica_env \<Rightarrow> code_generation \<Rightarrow> error + bool" where
  "code_owns_id env c =
     (if length (cg_id c) = code_id_len
      then and_then (code_mint_id env c) (\<lambda>i. Inr (i = cg_id c)) else Inr False)"

definition code_holds :: "replica_env \<Rightarrow> code_generation \<Rightarrow> string \<Rightarrow> bool" where
  "code_holds env c key \<longleftrightarrow> code_owns_id env c = Inr True \<and> key \<noteq> []"

section \<open>Document revisions\<close>

record chunk_wire =
  ch_ordinal :: int
  ch_heading :: string
  ch_char_start :: int
  ch_char_end :: int
  ch_line_start :: int
  ch_line_end :: int
  ch_simhash :: int
  ch_text :: string

record link_wire =
  lk_ordinal :: int
  lk_target :: string

record document_revision =
  dr_shared_id :: string
  dr_repo :: string
  dr_path :: string
  dr_title :: string
  dr_format :: string
  dr_hash :: string
  dr_chunks :: "chunk_wire list"
  dr_links :: "link_wire list"

definition chunk_json :: "chunk_wire \<Rightarrow> json" where
  "chunk_json c = JObj
     [(''ordinal'', JInt (ch_ordinal c)), (''heading_path'', JStr (ch_heading c)),
      (''char_start'', JInt (ch_char_start c)), (''char_end'', JInt (ch_char_end c)),
      (''line_start'', JInt (ch_line_start c)), (''line_end'', JInt (ch_line_end c)),
      (''simhash'', JInt (ch_simhash c)), (''text'', JStr (ch_text c))]"

definition link_json :: "link_wire \<Rightarrow> json" where
  "link_json l = JObj [(''ordinal'', JInt (lk_ordinal l)), (''target'', JStr (lk_target l))]"

definition document_json :: "document_revision \<Rightarrow> json" where
  "document_json d = JObj
     [(''shared_id'', JStr (dr_shared_id d)), (''repo'', JStr (dr_repo d)),
      (''path'', JStr (dr_path d)), (''title'', JStr (dr_title d)),
      (''format'', JStr (dr_format d)), (''revision_hash'', JStr (dr_hash d)),
      (''chunks'', JArr (map chunk_json (dr_chunks d))),
      (''links'', JArr (map link_json (dr_links d)))]"

definition chunk_of_json :: "json \<Rightarrow> chunk_wire option" where
  "chunk_of_json j =
     Option.bind (known_fields [''ordinal'', ''heading_path'', ''char_start'', ''char_end'',
       ''line_start'', ''line_end'', ''simhash'', ''text''] j) (\<lambda>get.
     Option.bind (field json_i64 get ''ordinal'') (\<lambda>ordinal.
     Option.bind (field json_str get ''heading_path'') (\<lambda>heading.
     Option.bind (field json_i64 get ''char_start'') (\<lambda>char_start.
     Option.bind (field json_i64 get ''char_end'') (\<lambda>char_end.
     Option.bind (field json_i64 get ''line_start'') (\<lambda>line_start.
     Option.bind (field json_i64 get ''line_end'') (\<lambda>line_end.
     Option.bind (field json_i64 get ''simhash'') (\<lambda>simhash.
     Option.bind (field json_str get ''text'') (\<lambda>body.
     Some \<lparr>ch_ordinal = ordinal, ch_heading = heading, ch_char_start = char_start,
           ch_char_end = char_end, ch_line_start = line_start, ch_line_end = line_end,
           ch_simhash = simhash, ch_text = body\<rparr>)))))))))"

definition link_of_json :: "json \<Rightarrow> link_wire option" where
  "link_of_json j =
     Option.bind (known_fields [''ordinal'', ''target''] j) (\<lambda>get.
     Option.bind (field json_i64 get ''ordinal'') (\<lambda>ordinal.
     Option.bind (field json_str get ''target'') (\<lambda>target.
     Some \<lparr>lk_ordinal = ordinal, lk_target = target\<rparr>)))"

definition document_of_json :: "json \<Rightarrow> document_revision option" where
  "document_of_json j =
     Option.bind (known_fields [''shared_id'', ''repo'', ''path'', ''title'', ''format'',
       ''revision_hash'', ''chunks'', ''links''] j) (\<lambda>get.
     Option.bind (field json_str get ''shared_id'') (\<lambda>i.
     Option.bind (field json_str get ''repo'') (\<lambda>repo.
     Option.bind (field json_str get ''path'') (\<lambda>path.
     Option.bind (field json_str get ''title'') (\<lambda>title.
     Option.bind (field json_str get ''format'') (\<lambda>fmt.
     Option.bind (field json_str get ''revision_hash'') (\<lambda>hash.
     Option.bind (field (json_list chunk_of_json) get ''chunks'') (\<lambda>chunks.
     Option.bind (field (json_list link_of_json) get ''links'') (\<lambda>links.
     Some \<lparr>dr_shared_id = i, dr_repo = repo, dr_path = path, dr_title = title, dr_format = fmt,
           dr_hash = hash, dr_chunks = chunks, dr_links = links\<rparr>)))))))))"

definition document_canonical :: "replica_env \<Rightarrow> document_revision \<Rightarrow> error + string \<times> string" where
  "document_canonical env d = canonical_bytes env (document_json d)"

text \<open>\<open>share::shared_id\<close>: sixteen bytes of the digest over both inputs, a NUL between them.\<close>

definition document_id_len :: nat where "document_id_len = 32"

definition shared_id :: "(string \<Rightarrow> string) \<Rightarrow> string \<Rightarrow> string \<Rightarrow> string" where
  "shared_id sha256_hex repo path = take 32 (sha256_hex (repo @ [char_of (0 :: nat)] @ path))"

definition document_owns_id :: "replica_env \<Rightarrow> document_revision \<Rightarrow> bool" where
  "document_owns_id env d \<longleftrightarrow>
     length (dr_shared_id d) = document_id_len \<and>
     shared_id (n_sha256 env) (dr_repo d) (dr_path d) = dr_shared_id d"

definition chunks_contiguous :: "document_revision \<Rightarrow> bool" where
  "chunks_contiguous d \<longleftrightarrow>
     list_all (\<lambda>(i, c). int i = ch_ordinal c) (zip [0..<length (dr_chunks d)] (dr_chunks d))"

definition links_resolve :: "document_revision \<Rightarrow> bool" where
  "links_resolve d \<longleftrightarrow>
     list_all (\<lambda>l. 0 \<le> lk_ordinal l \<and> lk_ordinal l < int (length (dr_chunks d))) (dr_links d)"

definition document_holds :: "replica_env \<Rightarrow> document_revision \<Rightarrow> string \<Rightarrow> bool" where
  "document_holds env d key \<longleftrightarrow>
     key = dr_shared_id d \<and> document_owns_id env d \<and> chunks_contiguous d \<and> links_resolve d"

section \<open>Events\<close>

text \<open>\<open>is_minted_id\<close>: the prefix, then 32 lowercase hex characters.\<close>

definition is_minted_id :: "string \<Rightarrow> string \<Rightarrow> bool" where
  "is_minted_id v prefix =
     (case strip_prefix prefix v of None \<Rightarrow> False | Some hex \<Rightarrow> is_lower_hex hex 32)"

definition event_id_prefix :: string where "event_id_prefix = ''ev-''"

datatype feedback_target =
    TargetMemory string
  | TargetCode string string string "string option"

record feedback_event =
  fe_id :: string
  fe_device :: string
  fe_at :: string
  fe_verdict :: string
  fe_provenance :: string
  fe_surface :: "string option"
  fe_actor :: "string option"
  fe_query :: string
  fe_target :: feedback_target

fun target_json :: "feedback_target \<Rightarrow> json" where
  "target_json (TargetMemory i) = JObj [(''kind'', JStr ''memory''), (''id'', JStr i)]"
| "target_json (TargetCode repo path symbol version) = JObj
     [(''kind'', JStr ''code''), (''repo'', JStr repo), (''path'', JStr path),
      (''symbol'', JStr symbol), (''version'', json_opt version)]"

definition target_of_json :: "json \<Rightarrow> feedback_target option" where
  "target_of_json j =
     Option.bind (tagged_content ''kind'' j) (\<lambda>(tag, content).
     if tag = ''memory'' then
       Option.bind (known_fields [''id''] content) (\<lambda>get.
       map_option TargetMemory (field json_str get ''id''))
     else if tag = ''code'' then
       Option.bind (known_fields [''repo'', ''path'', ''symbol'', ''version''] content) (\<lambda>get.
       Option.bind (field json_str get ''repo'') (\<lambda>repo.
       Option.bind (field json_str get ''path'') (\<lambda>path.
       Option.bind (field json_str get ''symbol'') (\<lambda>symbol.
       Option.bind (opt_field json_str get ''version'') (\<lambda>version.
       Some (TargetCode repo path symbol version))))))
     else None)"

definition feedback_json :: "feedback_event \<Rightarrow> json" where
  "feedback_json e = JObj
     [(''event_id'', JStr (fe_id e)), (''device'', JStr (fe_device e)), (''at'', JStr (fe_at e)),
      (''verdict'', JStr (fe_verdict e)), (''provenance'', JStr (fe_provenance e)),
      (''surface'', json_opt (fe_surface e)), (''actor'', json_opt (fe_actor e)),
      (''origin_query_id'', JStr (fe_query e)), (''target'', target_json (fe_target e))]"

definition feedback_of_json :: "json \<Rightarrow> feedback_event option" where
  "feedback_of_json j =
     Option.bind (known_fields [''event_id'', ''device'', ''at'', ''verdict'', ''provenance'',
       ''surface'', ''actor'', ''origin_query_id'', ''target''] j) (\<lambda>get.
     Option.bind (field json_str get ''event_id'') (\<lambda>i.
     Option.bind (field json_str get ''device'') (\<lambda>device.
     Option.bind (field json_str get ''at'') (\<lambda>at.
     Option.bind (field json_str get ''verdict'') (\<lambda>verdict.
     Option.bind (field json_str get ''provenance'') (\<lambda>provenance.
     Option.bind (opt_field json_str get ''surface'') (\<lambda>surface.
     Option.bind (opt_field json_str get ''actor'') (\<lambda>actor.
     Option.bind (field json_str get ''origin_query_id'') (\<lambda>query.
     Option.bind (field target_of_json get ''target'') (\<lambda>target.
     Some \<lparr>fe_id = i, fe_device = device, fe_at = at, fe_verdict = verdict,
           fe_provenance = provenance, fe_surface = surface, fe_actor = actor,
           fe_query = query, fe_target = target\<rparr>))))))))))"

definition feedback_canonical :: "replica_env \<Rightarrow> feedback_event \<Rightarrow> error + string \<times> string" where
  "feedback_canonical env e = canonical_bytes env (feedback_json e)"

definition shareable_provenance :: "string list" where
  "shareable_provenance = [''manual'', ''implicit'', ''auto_search_edit'']"

definition known_surface :: "string \<Rightarrow> bool" where
  "known_surface s \<longleftrightarrow> s = ''cli'' \<or> s = ''http'' \<or> s = ''mcp''"

text \<open>\<open><device>:<query id>\<close>, the query id not empty.\<close>

definition namespaced_query :: "string \<Rightarrow> string \<Rightarrow> bool" where
  "namespaced_query device query =
     (case Option.bind (strip_prefix device query) (strip_prefix '':'') of
        None \<Rightarrow> False
      | Some q \<Rightarrow> q \<noteq> [])"

fun target_named :: "feedback_target \<Rightarrow> bool" where
  "target_named (TargetMemory i) \<longleftrightarrow> i \<noteq> []"
| "target_named (TargetCode repo path symbol _) \<longleftrightarrow> repo \<noteq> [] \<and> path \<noteq> [] \<and> symbol \<noteq> []"

fun target_memory_valid :: "feedback_target \<Rightarrow> bool" where
  "target_memory_valid (TargetMemory i) \<longleftrightarrow> is_valid_memory_id i"
| "target_memory_valid (TargetCode _ _ _ _) \<longleftrightarrow> True"

text \<open>The payload's own rules.\<close>

definition feedback_well_formed :: "replica_env \<Rightarrow> feedback_event \<Rightarrow> string \<Rightarrow> bool" where
  "feedback_well_formed env e key \<longleftrightarrow>
     key = fe_id e \<and> is_minted_id (fe_id e) event_id_prefix \<and> is_minted_id (fe_device e) [] \<and>
     (fe_verdict e = ''used'' \<or> fe_verdict e = ''irrelevant'') \<and>
     fe_provenance e \<in> set shareable_provenance \<and>
     (case fe_surface e of None \<Rightarrow> True | Some s \<Rightarrow> known_surface s) \<and>
     iso_parses env (fe_at e) \<and> namespaced_query (fe_device e) (fe_query e) \<and>
     target_named (fe_target e)"

text \<open>And what acceptance adds: the memory-id shape the memories capability owns.\<close>

definition feedback_holds :: "replica_env \<Rightarrow> feedback_event \<Rightarrow> string \<Rightarrow> bool" where
  "feedback_holds env e key \<longleftrightarrow>
     feedback_well_formed env e key \<and> target_memory_valid (fe_target e)"

record activity_event =
  ae_id :: string
  ae_device :: string
  ae_at :: string
  ae_command :: string
  ae_source :: string
  ae_actor :: "string option"
  ae_repo :: string
  ae_duration :: int
  ae_ok :: bool
  ae_error :: "string option"
  ae_summary :: "json option"

definition opt_json :: "json option \<Rightarrow> json" where
  "opt_json v = (case v of None \<Rightarrow> JNull | Some j \<Rightarrow> j)"

definition activity_json :: "activity_event \<Rightarrow> json" where
  "activity_json e = JObj
     [(''event_id'', JStr (ae_id e)), (''device'', JStr (ae_device e)), (''at'', JStr (ae_at e)),
      (''command'', JStr (ae_command e)), (''source'', JStr (ae_source e)),
      (''actor'', json_opt (ae_actor e)), (''repo'', JStr (ae_repo e)),
      (''duration_ms'', JInt (ae_duration e)), (''ok'', JBool (ae_ok e)),
      (''error_code'', json_opt (ae_error e)), (''summary'', opt_json (ae_summary e))]"

definition activity_of_json :: "json \<Rightarrow> activity_event option" where
  "activity_of_json j =
     Option.bind (known_fields [''event_id'', ''device'', ''at'', ''command'', ''source'', ''actor'',
       ''repo'', ''duration_ms'', ''ok'', ''error_code'', ''summary''] j) (\<lambda>get.
     Option.bind (field json_str get ''event_id'') (\<lambda>i.
     Option.bind (field json_str get ''device'') (\<lambda>device.
     Option.bind (field json_str get ''at'') (\<lambda>at.
     Option.bind (field json_str get ''command'') (\<lambda>command.
     Option.bind (field json_str get ''source'') (\<lambda>source.
     Option.bind (opt_field json_str get ''actor'') (\<lambda>actor.
     Option.bind (field json_str get ''repo'') (\<lambda>repo.
     Option.bind (field json_i64 get ''duration_ms'') (\<lambda>duration.
     Option.bind (field json_bool get ''ok'') (\<lambda>ok.
     Option.bind (opt_field json_str get ''error_code'') (\<lambda>err.
     Option.bind (opt_field Some get ''summary'') (\<lambda>summary.
     Some \<lparr>ae_id = i, ae_device = device, ae_at = at, ae_command = command, ae_source = source,
           ae_actor = actor, ae_repo = repo, ae_duration = duration, ae_ok = ok,
           ae_error = err, ae_summary = summary\<rparr>))))))))))))"

definition activity_canonical :: "replica_env \<Rightarrow> activity_event \<Rightarrow> error + string \<times> string" where
  "activity_canonical env e = canonical_bytes env (activity_json e)"

text \<open>The allowlist of what a shared run's summary may carry, by command.\<close>

definition shared_key_table :: "(string \<times> string list) list" where
  "shared_key_table =
     [(''save'', [''id'', ''kind'', ''tags'', ''supersedes'']), (''update'', [''id'', ''fields'']),
      (''delete'', [''id'']), (''restore'', [''id'']),
      (''search'', [''query'', ''hits'']), (''context'', [''query'', ''hits'']),
      (''find'', [''query'', ''hits'', ''total'']), (''search-code'', [''query'', ''hits'', ''lang'']),
      (''feedback'', [''used'', ''irrelevant'', ''used_code'', ''irrelevant_code'', ''provenance'']),
      (''index-code'', [''files'', ''mode''])]"

definition shared_keys :: "string \<Rightarrow> string list option" where
  "shared_keys command = map_of shared_key_table command"

definition query_withheld :: string where "query_withheld = ''query_withheld''"

fun summary_allowed :: "string list \<Rightarrow> json option \<Rightarrow> bool" where
  "summary_allowed keys None \<longleftrightarrow> True"
| "summary_allowed keys (Some (JObj kvs)) \<longleftrightarrow>
     list_all (\<lambda>kv. fst kv \<in> set keys \<or> fst kv = query_withheld) kvs"
| "summary_allowed keys (Some _) \<longleftrightarrow> False"

definition activity_holds :: "replica_env \<Rightarrow> activity_event \<Rightarrow> string \<Rightarrow> bool" where
  "activity_holds env e key =
     (case shared_keys (ae_command e) of
        None \<Rightarrow> False
      | Some keys \<Rightarrow>
          key = ae_id e \<and> is_minted_id (ae_id e) event_id_prefix \<and> is_minted_id (ae_device e) [] \<and>
          known_surface (ae_source e) \<and> ae_repo e \<noteq> [] \<and> 0 \<le> ae_duration e \<and>
          iso_parses env (ae_at e) \<and> summary_allowed keys (ae_summary e))"

section \<open>Round trips\<close>

text \<open>The numbers of a payload fit the fields' types.\<close>

definition fits_i64 :: "int \<Rightarrow> bool" where
  "fits_i64 i \<longleftrightarrow> - (2 ^ 63) \<le> i \<and> i \<le> 2 ^ 63 - 1"

definition memory_fits :: "memory_payload \<Rightarrow> bool" where
  "memory_fits m \<longleftrightarrow> 0 \<le> mp_quality m \<and> mp_quality m \<le> 255 \<and>
     0 \<le> mp_schema m \<and> mp_schema m \<le> 2 ^ 32 - 1"

definition code_fits :: "code_generation \<Rightarrow> bool" where
  "code_fits c \<longleftrightarrow>
     (\<forall>s \<in> set (cg_symbols c). fits_i64 (sw_line_start s) \<and> fits_i64 (sw_line_end s)) \<and>
     (\<forall>e \<in> set (cg_edges c). fits_i64 (ew_weight e))"

definition document_fits :: "document_revision \<Rightarrow> bool" where
  "document_fits d \<longleftrightarrow>
     (\<forall>c \<in> set (dr_chunks d). list_all fits_i64
        [ch_ordinal c, ch_char_start c, ch_char_end c, ch_line_start c, ch_line_end c, ch_simhash c]) \<and>
     (\<forall>l \<in> set (dr_links d). fits_i64 (lk_ordinal l))"

lemma list_back:
  "(\<And>x. x \<in> set xs \<Longrightarrow> g (f x) = Some x) \<Longrightarrow> json_list g (JArr (map f xs)) = Some xs"
  by (simp add: those_map_inverse del: map_map)

lemma opt_field_back [simp]:
  "get k = map_option g x \<Longrightarrow> (\<And>y. f (g y) = Some y) \<Longrightarrow> (\<And>y. g y \<noteq> JNull) \<Longrightarrow>
   opt_field f get k = Some x"
proof (cases x)
  case (Some y)
  assume a: "get k = map_option g x" "\<And>y. f (g y) = Some y" "\<And>y. g y \<noteq> JNull"
  have "json_option f j = map_option Some (f j)" if "j \<noteq> JNull" for j
    using that by (cases j) auto
  with a Some show ?thesis by (simp add: opt_field_def)
qed (simp add: opt_field_def)

lemma code_ref_back [simp]: "code_ref_of_json (code_ref_json r) = Some r"
proof (cases r)
  case (fields i blob commit branch)
  then show ?thesis
    by (cases blob; cases commit; cases branch)
       (simp_all add: code_ref_json_def is_bare_def bare_ref_def struct_json_def)
qed

lemma references_back [simp]: "references_of_json (references_json r) = Some r"
  by (simp add: references_of_json_def references_json_def open_fields_def default_field_def
      those_map_inverse del: map_map)

lemma relations_back [simp]: "relations_of_json (relations_json r) = Some r"
  by (simp add: relations_of_json_def relations_json_def open_fields_def default_field_def)

lemma memory_kind_back [simp]: "memory_kind_of_json (JStr (memory_kind_str k)) = Some k"
  by (cases k) (simp_all add: memory_kind_of_json_def named_of_json_def)

lemma memory_payload_back:
  "memory_fits m \<Longrightarrow> memory_payload_of_json (memory_payload_json m) = Some m"
  by (simp add: memory_payload_of_json_def memory_payload_json_def known_fields_def
      memory_payload_fields_def field_def default_field_def memory_fits_def)

lemma file_back [simp]: "file_of_json (file_json f) = Some f"
  by (simp add: file_of_json_def file_json_def known_fields_def field_def)

lemma symbol_back:
  "fits_i64 (sw_line_start s) \<Longrightarrow> fits_i64 (sw_line_end s) \<Longrightarrow> symbol_of_json (symbol_json s) = Some s"
  by (simp add: symbol_of_json_def symbol_json_def known_fields_def field_def fits_i64_def)

lemma edge_back: "fits_i64 (ew_weight e) \<Longrightarrow> edge_of_json (edge_json e) = Some e"
  unfolding edge_of_json_def edge_json_def
  by (subst known_fields_struct) (simp_all add: field_def fits_i64_def)

lemma code_back:
  assumes "code_fits c"
  shows "code_of_json (code_json c) = Some c"
proof -
  have "json_list symbol_of_json (JArr (map symbol_json (cg_symbols c))) = Some (cg_symbols c)"
    using assms by (intro list_back symbol_back) (auto simp: code_fits_def)
  moreover have "json_list edge_of_json (JArr (map edge_json (cg_edges c))) = Some (cg_edges c)"
    using assms by (intro list_back edge_back) (auto simp: code_fits_def)
  moreover have "json_list file_of_json (JArr (map file_json (cg_files c))) = Some (cg_files c)"
    by (rule list_back) simp
  ultimately show ?thesis
    unfolding code_of_json_def code_json_def
    by (subst known_fields_struct) (simp_all del: json_list.simps add: field_def)
qed

lemma chunk_back:
  "list_all fits_i64
     [ch_ordinal c, ch_char_start c, ch_char_end c, ch_line_start c, ch_line_end c, ch_simhash c] \<Longrightarrow>
   chunk_of_json (chunk_json c) = Some c"
  by (simp add: chunk_of_json_def chunk_json_def known_fields_def field_def fits_i64_def)

lemma link_back: "fits_i64 (lk_ordinal l) \<Longrightarrow> link_of_json (link_json l) = Some l"
  by (simp add: link_of_json_def link_json_def known_fields_def field_def fits_i64_def)

lemma document_back:
  assumes "document_fits d"
  shows "document_of_json (document_json d) = Some d"
proof -
  have "json_list chunk_of_json (JArr (map chunk_json (dr_chunks d))) = Some (dr_chunks d)"
    using assms by (intro list_back chunk_back) (auto simp: document_fits_def)
  moreover have "json_list link_of_json (JArr (map link_json (dr_links d))) = Some (dr_links d)"
    using assms by (intro list_back link_back) (auto simp: document_fits_def)
  ultimately show ?thesis
    by (simp del: json_list.simps add: document_of_json_def document_json_def known_fields_def field_def)
qed

lemma target_back [simp]: "target_of_json (target_json t) = Some t"
  by (cases t) (simp_all add: target_of_json_def known_fields_def field_def opt_field_def)

lemma feedback_back [simp]: "feedback_of_json (feedback_json e) = Some e"
  by (simp add: feedback_of_json_def feedback_json_def known_fields_def field_def opt_field_def)

lemma activity_back:
  assumes "fits_i64 (ae_duration e)" "ae_summary e \<noteq> Some JNull"
  shows "activity_of_json (activity_json e) = Some e"
proof -
  have "json_option Some (opt_json (ae_summary e)) = Some (ae_summary e)"
    using assms(2) by (cases "ae_summary e"; cases "the (ae_summary e)") (auto simp: opt_json_def)
  with assms(1) show ?thesis
    by (simp add: activity_of_json_def activity_json_def known_fields_def field_def opt_field_def
        fits_i64_def)
qed

end
