(* ===== verification/Replica_Store.thy ===== *)
theory Replica_Store
  imports Replica_Payloads
begin

text \<open>
  The tables of the \<open>replica-v1\<close> journal (\<open>src/store/schema_replica.rs\<close>) and the statements on
  them: payloads, feed and revisions (\<open>replica_journal.rs\<close>, \<open>replica_read.rs\<close>), receipts
  (\<open>replica_receipt.rs\<close>), the outbox (\<open>replica_outbox.rs\<close>), redaction
  (\<open>replica_redaction.rs\<close>), staged parts (\<open>replica_staging.rs\<close>), the legacy feed
  (\<open>sync_log.rs\<close>) and the exchange state (\<open>sync_exchange.rs\<close>); and the rows an accepted
  operation materializes, whose statements are in \<open>Replica_Projection\<close>.

  A statement takes the database to an answer and the database after it, or fails and leaves no
  database: a failing statement is rolled back with its transaction. Each table is the list of
  its rows in insertion order. \<open>rd_mirror\<close> is the mirror of the memories (\<open>memories\<close> and its tag,
  edge, text and vector tables), which is not modelled here: the type \<open>'m\<close> is left open.
\<close>

section \<open>Rows\<close>

record payload_row =
  pl_digest :: string
  pl_kind :: string
  pl_schema :: int
  pl_bytes :: "string option"
  pl_len :: int
  pl_created :: string
  pl_redacted_at :: "string option"
  pl_redaction :: "string option"

record feed_row =
  fd_sequence :: int
  fd_epoch :: string
  fd_kind :: string
  fd_key :: string
  fd_op :: string
  fd_digest :: "string option"
  fd_schema :: int
  fd_operation :: string
  fd_origin :: string
  fd_repository :: "string option"
  fd_at :: string

record revision_row =
  rv_kind :: string
  rv_key :: string
  rv_sequence :: int
  rv_digest :: "string option"
  rv_deleted :: int
  rv_deleted_sequence :: "int option"
  rv_updated :: string

record outbox_row =
  ob_operation :: string
  ob_kind :: string
  ob_key :: string
  ob_op :: string
  ob_digest :: "string option"
  ob_schema :: int
  ob_repository :: "string option"
  ob_observed :: "int option"
  ob_state :: string
  ob_upstream_sequence :: "int option"
  ob_disposition :: "string option"
  ob_attempts :: int
  ob_last_error :: "string option"
  ob_created :: string
  ob_updated :: string
  ob_api_url :: "string option"
  ob_hold_detail :: "string option"
  ob_hold_reason :: "string option"
  ob_upstream_epoch :: "string option"
  ob_wire_repository :: "string option"
  ob_workspace :: "string option"

record answer_row =
  an_operation :: string
  an_epoch :: string
  an_sequence :: "int option"
  an_disposition :: string
  an_digest :: "string option"
  an_reason :: "string option"
  an_at :: string

record staged_row =
  sp_staging :: string
  sp_index :: int
  sp_count :: int
  sp_bytes :: string
  sp_created :: string

record sync_log_row =
  sl_seq :: int
  sl_op :: string
  sl_memory :: string
  sl_hash :: string
  sl_at :: string
  sl_origin :: string

text \<open>A key and its exchange state (\<open>ExchangeKey\<close>, \<open>ExchangeRow\<close>).\<close>

record exchange_key =
  xk_api_url :: string
  xk_workspace :: string

record exchange_row =
  xr_key :: exchange_key
  xr_protocol :: "string option"
  xr_coverage_reason :: "string option"
  xr_selected_at :: "string option"
  xr_upgrade_through :: "int option"
  xr_replay_kind :: "string option"
  xr_replay_state :: "string option"
  xr_replay_scan_through :: "int option"
  xr_replay_target :: "int option"
  xr_network_state :: string
  xr_retry_at :: "string option"
  xr_failures :: int
  xr_last_error :: "string option"
  xr_suspended :: "string option"
  xr_upstream_head :: "int option"
  xr_stall_sequence :: "int option"
  xr_stall_reason :: "string option"
  xr_last_session_at :: "string option"
  xr_last_ok_at :: "string option"

text \<open>The pulled document cache (\<open>schema_document_revision.rs\<close>).\<close>

record remote_document_row =
  rdoc_repo :: string
  rdoc_id :: string
  rdoc_path :: string
  rdoc_title :: string
  rdoc_format :: string
  rdoc_hash :: string
  rdoc_chunks :: int
  rdoc_accepted :: string

record remote_chunk_row =
  rch_repo :: string
  rch_id :: string
  rch_chunk :: chunk_wire

record remote_link_row =
  rlk_repo :: string
  rlk_id :: string
  rlk_link :: link_wire

record remote_text_row =
  rft_repo :: string
  rft_id :: string
  rft_ordinal :: string
  rft_title :: string
  rft_headings :: string
  rft_passage :: string
  rft_path :: string

text \<open>The code generations and their projection (\<open>schema_code_generation.rs\<close>).\<close>

record generation_row =
  gn_repo :: string
  gn_id :: string
  gn_parent :: "string option"
  gn_head :: string
  gn_mined :: "string option"
  gn_origin :: string
  gn_state :: string
  gn_files :: int
  gn_digest :: string
  gn_created :: string
  gn_activated :: "string option"

record 'a generation_part =
  gp_repo :: string
  gp_id :: string
  gp_row :: 'a

text \<open>Verdicts, their counters and the activity log (\<open>schema_learning.rs\<close>,
  \<open>schema_history.rs\<close>), and the approved labels (\<open>schema_sync.rs\<close>).\<close>

record verdict_row =
  vd_id :: int
  vd_query :: string
  vd_memory :: string
  vd_verdict :: string
  vd_at :: string
  vd_target_kind :: string
  vd_provenance :: string
  vd_actor :: "string option"
  vd_device :: "string option"
  vd_event :: "string option"
  vd_surface :: "string option"

record counter_row =
  ct_used :: int
  ct_irrelevant :: int
  ct_last_used :: "string option"

record activity_row =
  al_id :: int
  al_at :: string
  al_command :: string
  al_source :: string
  al_actor :: "string option"
  al_repo :: "string option"
  al_duration :: int
  al_ok :: int
  al_error :: "string option"
  al_summary :: "string option"
  al_device :: "string option"
  al_event :: "string option"

text \<open>The client's side: bindings, cursors and held positions (\<open>replica_binding.rs\<close>,
  \<open>replica_cursor.rs\<close>, \<open>replica_pull_hold.rs\<close>).\<close>

record sync_binding_row =
  sb_key :: exchange_key
  sb_kind :: string
  sb_entity :: string
  sb_digest :: "string option"
  sb_deleted :: int
  sb_sequence :: "int option"
  sb_epoch :: "string option"
  sb_updated :: string

record cursor_row =
  cw_key :: exchange_key
  cw_epoch :: string
  cw_applied :: int
  cw_anchor :: "(int \<times> string) option"
  cw_updated :: string

record hold_row =
  hd_key :: exchange_key
  hd_epoch :: string
  hd_from :: int
  hd_to :: int
  hd_reason :: string
  hd_kind :: "string option"
  hd_entity :: "string option"
  hd_repository :: "string option"
  hd_policy_revision :: "int option"
  hd_recorded :: string

record 'm rdb =
  rd_stream :: "(string \<times> string) option"
  rd_device :: "string option"
  rd_payloads :: "payload_row list"
  rd_feed :: "feed_row list"
  rd_feed_counter :: int
  rd_revisions :: "revision_row list"
  rd_outbox :: "outbox_row list"
  rd_answers :: "answer_row list"
  rd_staged :: "staged_row list"
  rd_sync_log :: "sync_log_row list"
  rd_log_counter :: int
  rd_exchange :: "exchange_row list"
  rd_documents :: "remote_document_row list"
  rd_chunks :: "remote_chunk_row list"
  rd_links :: "remote_link_row list"
  rd_texts :: "remote_text_row list"
  rd_generations :: "generation_row list"
  rd_code_files :: "file_wire generation_part list"
  rd_code_symbols :: "symbol_wire generation_part list"
  rd_code_edges :: "edge_wire generation_part list"
  rd_verdicts :: "verdict_row list"
  rd_feedback :: "(string \<times> counter_row) list"
  rd_code_feedback :: "((string \<times> string \<times> string) \<times> counter_row) list"
  rd_activity :: "activity_row list"
  rd_activity_counter :: int
  rd_approvals :: "(string \<times> string) list"
  rd_bindings :: "sync_binding_row list"
  rd_cursors :: "cursor_row list"
  rd_holds :: "hold_row list"
  rd_mirror :: 'm

section \<open>Statements\<close>

type_synonym ('d, 'a) stmt = "'d \<Rightarrow> error + 'a \<times> 'd"

definition done_with :: "'a \<Rightarrow> ('d, 'a) stmt" where
  "done_with x d = Inr (x, d)"

definition seq :: "('d, 'a) stmt \<Rightarrow> ('a \<Rightarrow> ('d, 'b) stmt) \<Rightarrow> ('d, 'b) stmt" where
  "seq m f d = and_then (m d) (\<lambda>(x, d'). f x d')"

definition query :: "('d \<Rightarrow> error + 'a) \<Rightarrow> ('d, 'a) stmt" where
  "query f d = and_then (f d) (\<lambda>x. Inr (x, d))"

definition pure :: "error + 'a \<Rightarrow> ('d, 'a) stmt" where
  "pure r = query (\<lambda>_. r)"

definition change :: "('d \<Rightarrow> 'd) \<Rightarrow> ('d, unit) stmt" where
  "change f d = Inr ((), f d)"

text \<open>A statement refused by a constraint, tested first.\<close>

definition guarded :: "('d \<Rightarrow> bool) \<Rightarrow> error \<Rightarrow> ('d, 'a) stmt \<Rightarrow> ('d, 'a) stmt" where
  "guarded ok e m d = (if ok d then m d else Inl e)"

fun each :: "('a \<Rightarrow> ('d, unit) stmt) \<Rightarrow> 'a list \<Rightarrow> ('d, unit) stmt" where
  "each f [] = done_with ()"
| "each f (x # xs) = seq (f x) (\<lambda>_. each f xs)"

named_theorems stmt_simps \<open>how a sequence of statements succeeds\<close>

lemma stmt_Inr_iff [stmt_simps]:
  "done_with x d = Inr r \<longleftrightarrow> r = (x, d)"
  "seq m f d = Inr r \<longleftrightarrow> (\<exists>y d'. m d = Inr (y, d') \<and> f y d' = Inr r)"
  "query g d = Inr r \<longleftrightarrow> (\<exists>y. g d = Inr y \<and> r = (y, d))"
  "pure e d = Inr r \<longleftrightarrow> (\<exists>y. e = Inr y \<and> r = (y, d))"
  "guarded ok err m' d = Inr r \<longleftrightarrow> ok d \<and> m' d = Inr r"
  by (auto simp: done_with_def seq_def query_def pure_def guarded_def res_simps)

lemma change_iff [stmt_simps]: "change h d = Inr r \<longleftrightarrow> r = ((), h d)"
  by (auto simp: change_def)

text \<open>Every success of a statement relates the databases before and after.\<close>

definition moves :: "('d \<Rightarrow> 'd \<Rightarrow> bool) \<Rightarrow> ('d, 'a) stmt \<Rightarrow> bool" where
  "moves R m \<longleftrightarrow> (\<forall>d x d'. m d = Inr (x, d') \<longrightarrow> R d d')"

lemma movesI: "(\<And>d x d'. m d = Inr (x, d') \<Longrightarrow> R d d') \<Longrightarrow> moves R m"
  by (auto simp: moves_def)

lemma movesD: "moves R m \<Longrightarrow> m d = Inr (x, d') \<Longrightarrow> R d d'"
  by (auto simp: moves_def)

lemma moves_done [simp]: "reflp R \<Longrightarrow> moves R (done_with x)"
  by (auto simp: moves_def stmt_simps dest: reflpD)

lemma moves_query [simp]: "reflp R \<Longrightarrow> moves R (query f)"
  by (auto simp: moves_def stmt_simps dest: reflpD)

lemma moves_pure [simp]: "reflp R \<Longrightarrow> moves R (pure r)"
  by (simp add: pure_def)

lemma moves_change: "(\<And>d. R d (f d)) \<Longrightarrow> moves R (change f)"
  by (auto simp: moves_def stmt_simps)

lemma moves_guarded: "moves R m \<Longrightarrow> moves R (guarded ok e m)"
  by (auto simp: moves_def stmt_simps)

lemma moves_seq:
  assumes "transp R" "moves R m" "\<And>x. moves R (f x)"
  shows "moves R (seq m f)"
  using assms by (auto simp: moves_def stmt_simps) (metis transpD)

lemma moves_each:
  assumes "reflp R" "transp R" "\<And>x. moves R (f x)"
  shows "moves R (each f xs)"
  by (induction xs) (auto intro: moves_seq simp: assms)

end
