(* ===== verification/Replica_Journal.thy ===== *)
theory Replica_Journal
  imports Replica_Store
begin

text \<open>
  The statements of the journal: \<open>append\<close> with its payload, feed row and revision, the stream's
  identity and the blanking of payload bytes (\<open>src/store/replica_journal.rs\<close>); the feed pages,
  positions and digests (\<open>replica_read.rs\<close>); receipts (\<open>replica_receipt.rs\<close>); the outbox
  (\<open>replica_outbox.rs\<close>); redaction (\<open>replica_redaction.rs\<close>); staged parts
  (\<open>replica_staging.rs\<close>); the legacy feed's \<open>append\<close> (\<open>sync_log.rs\<close>). What these
  statements keep is proved in \<open>Replica_Invariants\<close>.
\<close>

section \<open>Appending\<close>

text \<open>\<open>NewOperation\<close>; the payload is its digest and its bytes.\<close>

record new_operation =
  no_id :: string
  no_kind :: string
  no_key :: string
  no_op :: replica_op
  no_payload :: "(string \<times> string) option"
  no_schema :: int
  no_repository :: "string option"
  no_origin :: replica_origin
  no_at :: string

definition store_payload :: "new_operation \<Rightarrow> string \<times> string \<Rightarrow> ('m rdb, unit) stmt" where
  "store_payload new payload =
     (case payload of (digest, bytes) \<Rightarrow>
       guarded (\<lambda>_. int (length bytes) < 2 ^ 63) (Other ''payload larger than i64 bytes'')
         (change (\<lambda>d.
            if digest \<in> pl_digest ` set (rd_payloads d) then d
            else d\<lparr>rd_payloads := rd_payloads d @ [\<lparr>
              pl_digest = digest, pl_kind = no_kind new, pl_schema = no_schema new,
              pl_bytes = Some bytes, pl_len = int (length bytes), pl_created = no_at new,
              pl_redacted_at = None, pl_redaction = None\<rparr>]\<rparr>)))"

definition new_feed_row :: "string \<Rightarrow> new_operation \<Rightarrow> int \<Rightarrow> feed_row" where
  "new_feed_row epoch new n = \<lparr>
     fd_sequence = n, fd_epoch = epoch, fd_kind = no_kind new, fd_key = no_key new,
     fd_op = op_str (no_op new), fd_digest = map_option fst (no_payload new),
     fd_schema = no_schema new, fd_operation = no_id new, fd_origin = origin_str (no_origin new),
     fd_repository = no_repository new, fd_at = no_at new\<rparr>"

definition append_feed :: "string \<Rightarrow> new_operation \<Rightarrow> ('m rdb, int) stmt" where
  "append_feed epoch new =
     guarded (\<lambda>d. no_id new \<notin> fd_operation ` set (rd_feed d))
       (unique_failed ext_unique ''replica_feed.operation_id'')
       (\<lambda>d. let n = rd_feed_counter d + 1
            in Inr (n, d\<lparr>rd_feed := rd_feed d @ [new_feed_row epoch new n], rd_feed_counter := n\<rparr>))"

definition is_revision :: "string \<Rightarrow> string \<Rightarrow> revision_row \<Rightarrow> bool" where
  "is_revision kind key r \<longleftrightarrow> rv_kind r = kind \<and> rv_key r = key"

definition new_revision :: "new_operation \<Rightarrow> int \<Rightarrow> revision_row" where
  "new_revision new n = \<lparr>
     rv_kind = no_kind new, rv_key = no_key new, rv_sequence = n,
     rv_digest = map_option fst (no_payload new),
     rv_deleted = (if no_op new = Tombstone then 1 else 0),
     rv_deleted_sequence = (if no_op new = Tombstone then Some n else None),
     rv_updated = no_at new\<rparr>"

definition update_revision :: "new_operation \<Rightarrow> int \<Rightarrow> ('m rdb, unit) stmt" where
  "update_revision new n = change (\<lambda>d.
     let hit = is_revision (no_kind new) (no_key new)
     in if \<exists>r \<in> set (rd_revisions d). hit r
        then d\<lparr>rd_revisions := map (\<lambda>r. if hit r then new_revision new n else r) (rd_revisions d)\<rparr>
        else d\<lparr>rd_revisions := rd_revisions d @ [new_revision new n]\<rparr>)"

definition append_op :: "string \<Rightarrow> new_operation \<Rightarrow> ('m rdb, int) stmt" where
  "append_op epoch new =
     seq (case no_payload new of None \<Rightarrow> done_with () | Some p \<Rightarrow> store_payload new p) (\<lambda>_.
     seq (append_feed epoch new) (\<lambda>n.
     seq (update_revision new n) (\<lambda>_. done_with n)))"

text \<open>\<open>redact_payload\<close>, \<open>stream_epoch\<close> and \<open>set_identity\<close>.\<close>

definition redact_payload :: "string \<Rightarrow> string \<Rightarrow> ('m rdb, nat) stmt" where
  "redact_payload digest at d =
     (let hit = (\<lambda>p. pl_digest p = digest \<and> pl_redacted_at p = None)
      in Inr (length (filter hit (rd_payloads d)),
          d\<lparr>rd_payloads := map (\<lambda>p. if hit p
              then p\<lparr>pl_bytes := None, pl_redacted_at := Some at, pl_redaction := Some ''erased''\<rparr>
              else p) (rd_payloads d)\<rparr>))"

definition stream_epoch :: "'m rdb \<Rightarrow> error + string" where
  "stream_epoch d = ok_or (map_option fst (rd_stream d)) (Other ''replica_stream has no epoch row'')"

definition set_identity :: "string \<Rightarrow> string \<Rightarrow> string \<Rightarrow> ('m rdb, unit) stmt" where
  "set_identity epoch device at =
     guarded (\<lambda>d. rd_stream d \<noteq> None \<and> rd_device d \<noteq> None)
       (Other ''replica_stream or replica_device has no row to carry the identity'')
       (change (\<lambda>d. d\<lparr>rd_stream := Some (epoch, at), rd_device := Some device\<rparr>))"

section \<open>Reading\<close>

text \<open>A feed row with its payload's bytes and redaction: the left join on the digest.\<close>

record feed_view =
  fv_sequence :: int
  fv_operation :: string
  fv_kind :: string
  fv_key :: string
  fv_op :: replica_op
  fv_digest :: "string option"
  fv_schema :: int
  fv_payload :: "string option"
  fv_redaction :: "redaction option"
  fv_origin :: replica_origin
  fv_repository :: "string option"
  fv_at :: string

definition find_payload :: "'m rdb \<Rightarrow> string \<Rightarrow> payload_row option" where
  "find_payload d digest = find (\<lambda>p. pl_digest p = digest) (rd_payloads d)"

definition payload_redaction :: "payload_row \<Rightarrow> redaction option" where
  "payload_redaction p = redaction_of_columns (pl_redacted_at p) (pl_redaction p)"

definition joined_payload :: "'m rdb \<Rightarrow> feed_row \<Rightarrow> payload_row option" where
  "joined_payload d r = Option.bind (fd_digest r) (find_payload d)"

definition decode_feed_row :: "'m rdb \<Rightarrow> feed_row \<Rightarrow> error + feed_view" where
  "decode_feed_row d r =
     and_then (parse_op (fd_op r)) (\<lambda>op.
     and_then (parse_origin (fd_origin r)) (\<lambda>origin.
     let p = joined_payload d r
     in Inr \<lparr>fv_sequence = fd_sequence r, fv_operation = fd_operation r, fv_kind = fd_kind r,
          fv_key = fd_key r, fv_op = op, fv_digest = fd_digest r, fv_schema = fd_schema r,
          fv_payload = Option.bind p pl_bytes, fv_redaction = Option.bind p payload_redaction,
          fv_origin = origin, fv_repository = fd_repository r, fv_at = fd_at r\<rparr>))"

definition feed_page :: "'m rdb \<Rightarrow> int \<Rightarrow> nat \<Rightarrow> string option \<Rightarrow> error + feed_view list" where
  "feed_page d since limit kind =
     (if 2 ^ 63 \<le> int limit then Inl (Other (''page limit not representable: '' @ show_nat limit))
      else traverse (decode_feed_row d) (take limit (sort_key fd_sequence (filter (\<lambda>r.
             since < fd_sequence r \<and> (case kind of None \<Rightarrow> True | Some k \<Rightarrow> fd_kind r = k))
             (rd_feed d)))))"

definition feed_scan ::
  "'m rdb \<Rightarrow> int \<Rightarrow> nat \<Rightarrow> string option \<Rightarrow> error + feed_view list \<times> int option" where
  "feed_scan d since limit kind =
     and_then (feed_page d since limit None) (\<lambda>raw.
     Inr (filter (\<lambda>r. case kind of None \<Rightarrow> True | Some k \<Rightarrow> fv_kind r = k) raw,
          if raw = [] then None else Some (fv_sequence (last raw))))"

definition feed_position_of :: "'m rdb \<Rightarrow> string \<Rightarrow> int option" where
  "feed_position_of d operation =
     map_option fd_sequence (find (\<lambda>r. fd_operation r = operation) (rd_feed d))"

definition feed_head :: "'m rdb \<Rightarrow> int" where
  "feed_head d = (if rd_feed d = [] then 0 else Max (fd_sequence ` set (rd_feed d)))"

text \<open>\<open>RevisionRow\<close>.\<close>

record revision_view =
  rw_sequence :: int
  rw_digest :: "string option"
  rw_deleted :: bool
  rw_deleted_sequence :: "int option"

definition to_revision_view :: "revision_row \<Rightarrow> revision_view" where
  "to_revision_view r = \<lparr>rw_sequence = rv_sequence r, rw_digest = rv_digest r,
     rw_deleted = (rv_deleted r \<noteq> 0), rw_deleted_sequence = rv_deleted_sequence r\<rparr>"

definition find_revision :: "'m rdb \<Rightarrow> string \<Rightarrow> string \<Rightarrow> revision_view option" where
  "find_revision d kind key =
     map_option to_revision_view (find (is_revision kind key) (rd_revisions d))"

text \<open>\<open>kind_digests\<close>: one ordered scan, grouped as it goes.\<close>

fun group_digests ::
  "(string \<times> string list) list \<Rightarrow> revision_row list \<Rightarrow> (string \<times> string list) list" where
  "group_digests grouped [] = grouped"
| "group_digests grouped (r # rs) =
     (let live = (if rv_deleted r = 0 then (case rv_digest r of None \<Rightarrow> [] | Some g \<Rightarrow> [g]) else [])
      in if grouped \<noteq> [] \<and> fst (last grouped) = rv_kind r
         then group_digests (butlast grouped @ [(rv_kind r, snd (last grouped) @ live)]) rs
         else group_digests (grouped @ [(rv_kind r, live)]) rs)"

definition kind_digests :: "'m rdb \<Rightarrow> (string \<times> string list) list" where
  "kind_digests d = group_digests [] (sort_key rv_kind (rd_revisions d))"

definition payload_bytes :: "'m rdb \<Rightarrow> string \<Rightarrow> string option" where
  "payload_bytes d digest = Option.bind (find_payload d digest) pl_bytes"

definition redaction_of :: "'m rdb \<Rightarrow> string \<Rightarrow> redaction option" where
  "redaction_of d digest = Option.bind (find_payload d digest) payload_redaction"

section \<open>Receipts\<close>

text \<open>\<open>Receipt\<close>, the stored decision without its time.\<close>

record receipt =
  rp_operation :: string
  rp_epoch :: string
  rp_sequence :: "int option"
  rp_disposition :: string
  rp_digest :: "string option"
  rp_reason :: "string option"

definition record_answer :: "receipt \<Rightarrow> string \<Rightarrow> ('m rdb, unit) stmt" where
  "record_answer r at =
     guarded (\<lambda>d. rp_operation r \<notin> an_operation ` set (rd_answers d))
       (unique_failed ext_primary_key ''replica_receipt.operation_id'')
       (change (\<lambda>d. d\<lparr>rd_answers := rd_answers d @ [\<lparr>
          an_operation = rp_operation r, an_epoch = rp_epoch r, an_sequence = rp_sequence r,
          an_disposition = rp_disposition r, an_digest = rp_digest r, an_reason = rp_reason r,
          an_at = at\<rparr>]\<rparr>))"

definition lookup_answer :: "'m rdb \<Rightarrow> string \<Rightarrow> receipt option" where
  "lookup_answer d operation =
     map_option (\<lambda>a. \<lparr>rp_operation = operation, rp_epoch = an_epoch a,
         rp_sequence = an_sequence a, rp_disposition = an_disposition a,
         rp_digest = an_digest a, rp_reason = an_reason a\<rparr>)
       (find (\<lambda>a. an_operation a = operation) (rd_answers d))"

section \<open>The outbox\<close>

definition enqueue :: "new_operation \<Rightarrow> int option \<Rightarrow> ('m rdb, unit) stmt" where
  "enqueue new observed =
     guarded (\<lambda>d. no_id new \<notin> ob_operation ` set (rd_outbox d))
       (unique_failed ext_primary_key ''replica_operation.operation_id'')
       (change (\<lambda>d. d\<lparr>rd_outbox := rd_outbox d @ [\<lparr>
          ob_operation = no_id new, ob_kind = no_kind new, ob_key = no_key new,
          ob_op = op_str (no_op new), ob_digest = map_option fst (no_payload new),
          ob_schema = no_schema new, ob_repository = no_repository new, ob_observed = observed,
          ob_state = ''pending'', ob_upstream_sequence = None, ob_disposition = None,
          ob_attempts = 0, ob_last_error = None, ob_created = no_at new, ob_updated = no_at new,
          ob_api_url = None, ob_hold_detail = None, ob_hold_reason = None,
          ob_upstream_epoch = None, ob_wire_repository = None, ob_workspace = None\<rparr>]\<rparr>))"

datatype outbox_scope =
    ScopeAll
  | ScopeEligible
  | ScopeEntity string string
  | ScopeOperation string

fun in_outbox_scope :: "outbox_scope \<Rightarrow> outbox_row \<Rightarrow> bool" where
  "in_outbox_scope ScopeAll r \<longleftrightarrow> ob_state r = ''pending''"
| "in_outbox_scope ScopeEligible r \<longleftrightarrow> ob_state r = ''pending'' \<and> ob_hold_reason r = None"
| "in_outbox_scope (ScopeEntity kind key) r \<longleftrightarrow>
     ob_state r = ''pending'' \<and> ob_kind r = kind \<and> ob_key r = key"
| "in_outbox_scope (ScopeOperation i) r \<longleftrightarrow> ob_operation r = i"

text \<open>The read decodes the stored literal of each row it answers.\<close>

definition read_outbox :: "'m rdb \<Rightarrow> outbox_scope \<Rightarrow> nat \<Rightarrow> error + (outbox_row \<times> replica_op) list" where
  "read_outbox d scope limit =
     traverse (\<lambda>r. case parse_op (ob_op r) of
         Inl _ \<Rightarrow> Inl (Sqlite (SqliteOther (''Conversion error from type Text at index: 3, unknown sync_log op: '' @ ob_op r)))
       | Inr op \<Rightarrow> Inr (r, op))
       (take limit (sort_key ob_created (filter (in_outbox_scope scope) (rd_outbox d))))"

definition has_pending_for :: "'m rdb \<Rightarrow> string \<Rightarrow> string \<Rightarrow> bool" where
  "has_pending_for d kind key \<longleftrightarrow> (\<exists>r \<in> set (rd_outbox d). in_outbox_scope (ScopeEntity kind key) r)"

definition has_any_for :: "'m rdb \<Rightarrow> string \<Rightarrow> string \<Rightarrow> bool" where
  "has_any_for d kind key \<longleftrightarrow> (\<exists>r \<in> set (rd_outbox d). ob_kind r = kind \<and> ob_key r = key)"

definition count_state :: "'m rdb \<Rightarrow> string \<Rightarrow> nat" where
  "count_state d state = length (filter (\<lambda>r. ob_state r = state) (rd_outbox d))"

definition discard_operation :: "string \<Rightarrow> ('m rdb, nat) stmt" where
  "discard_operation i d =
     Inr (length (filter (\<lambda>r. ob_operation r = i) (rd_outbox d)),
          d\<lparr>rd_outbox := filter (\<lambda>r. ob_operation r \<noteq> i) (rd_outbox d)\<rparr>)"

datatype upload_outcome =
    UploadAccepted "int option" string "string option"
  | UploadRejected string
  | UploadFailed string

fun with_outcome :: "upload_outcome \<Rightarrow> string \<Rightarrow> outbox_row \<Rightarrow> outbox_row" where
  "with_outcome (UploadAccepted n disposition epoch) at r =
     r\<lparr>ob_state := ''accepted'', ob_upstream_sequence := n, ob_upstream_epoch := epoch,
       ob_disposition := Some disposition, ob_hold_reason := None, ob_hold_detail := None,
       ob_updated := at\<rparr>"
| "with_outcome (UploadRejected disposition) at r =
     r\<lparr>ob_state := ''rejected'', ob_disposition := Some disposition, ob_updated := at\<rparr>"
| "with_outcome (UploadFailed err) at r =
     r\<lparr>ob_attempts := ob_attempts r + 1, ob_last_error := Some err, ob_updated := at\<rparr>"

definition record_outcome :: "string \<Rightarrow> upload_outcome \<Rightarrow> string \<Rightarrow> ('m rdb, nat) stmt" where
  "record_outcome i outcome at d =
     Inr (length (filter (\<lambda>r. ob_operation r = i) (rd_outbox d)),
          d\<lparr>rd_outbox := map (\<lambda>r. if ob_operation r = i then with_outcome outcome at r else r)
                          (rd_outbox d)\<rparr>)"

section \<open>Redaction\<close>

text \<open>\<open>Reach\<close>: which journal copies one redaction selects. \<open>json_text_at path\<close> stands for SQLite's
  \<open>json_extract\<close> behind its \<open>json_valid\<close>: the text at the path, when it is a string.\<close>

datatype redaction_reach =
    PastRetention string
  | VerdictsOn string
  | EntityPayloads string string
  | RunsNaming string
  | Listed "string list"

type_synonym json_reader = "string list \<Rightarrow> string \<Rightarrow> string option"

definition revision_digests :: "'m rdb \<Rightarrow> (revision_row \<Rightarrow> bool) \<Rightarrow> string set" where
  "revision_digests d P = set (List.map_filter (\<lambda>r. if P r then rv_digest r else None) (rd_revisions d))"

definition feed_digests :: "'m rdb \<Rightarrow> (feed_row \<Rightarrow> bool) \<Rightarrow> string set" where
  "feed_digests d P = set (List.map_filter (\<lambda>r. if P r then fd_digest r else None) (rd_feed d))"

definition outbox_digests :: "'m rdb \<Rightarrow> (outbox_row \<Rightarrow> bool) \<Rightarrow> string set" where
  "outbox_digests d P = set (List.map_filter (\<lambda>r. if P r then ob_digest r else None) (rd_outbox d))"

fun selected :: "json_reader \<Rightarrow> 'm rdb \<Rightarrow> redaction_reach \<Rightarrow> payload_row \<Rightarrow> bool" where
  "selected json_text_at d (PastRetention cutoff) p \<longleftrightarrow>
     pl_digest p \<in> feed_digests d (\<lambda>r. is_event_kind (fd_kind r) \<and> fd_at r < cutoff) \<or>
     pl_digest p \<in> revision_digests d (\<lambda>r. rv_kind r = feedback_kind \<and>
       (\<exists>v \<in> set (rd_verdicts d). vd_at v < cutoff \<and> vd_event v = Some (rv_key r))) \<or>
     pl_digest p \<in> revision_digests d (\<lambda>r. rv_kind r = activity_kind \<and>
       (\<exists>a \<in> set (rd_activity d). al_at a < cutoff \<and> al_event a = Some (rv_key r)))"
| "selected json_text_at d (VerdictsOn memory) p \<longleftrightarrow>
     pl_digest p \<in> revision_digests d (\<lambda>r. rv_kind r = feedback_kind \<and>
       (\<exists>v \<in> set (rd_verdicts d). vd_memory v = memory \<and> vd_target_kind v = ''memory'' \<and>
          vd_event v = Some (rv_key r)))"
| "selected json_text_at d (EntityPayloads kind key) p \<longleftrightarrow>
     pl_digest p \<in> feed_digests d (\<lambda>r. fd_kind r = kind \<and> fd_key r = key) \<or>
     pl_digest p \<in> revision_digests d (\<lambda>r. rv_kind r = kind \<and> rv_key r = key) \<or>
     pl_digest p \<in> outbox_digests d (\<lambda>r. ob_kind r = kind \<and> ob_key r = key)"
| "selected json_text_at d (RunsNaming memory) p \<longleftrightarrow>
     pl_digest p \<in> revision_digests d (\<lambda>r. rv_kind r = activity_kind \<and>
       (\<exists>a \<in> set (rd_activity d). al_event a = Some (rv_key r) \<and>
          Option.bind (al_summary a) (json_text_at [''id'']) = Some memory)) \<or>
     (pl_kind p = activity_kind \<and>
      Option.bind (pl_bytes p) (json_text_at [''summary'', ''id'']) = Some memory)"
| "selected json_text_at d (Listed digests) p \<longleftrightarrow> pl_digest p \<in> set digests"

fun reach_redaction :: "redaction_reach \<Rightarrow> redaction" where
  "reach_redaction (PastRetention _) = Expired"
| "reach_redaction (VerdictsOn _) = Erased"
| "reach_redaction (EntityPayloads _ _) = Erased"
| "reach_redaction (RunsNaming _) = Erased"
| "reach_redaction (Listed _) = Erased"

text \<open>The erasing arms reach a copy that has its bytes or is only expired; retention leaves every
  redacted copy and whatever a pending operation still owes.\<close>

definition redactable :: "'m rdb \<Rightarrow> redaction_reach \<Rightarrow> payload_row \<Rightarrow> bool" where
  "redactable d reach p \<longleftrightarrow>
     (if reach_redaction reach = Expired
      then pl_redacted_at p = None \<and> pl_digest p \<notin> outbox_digests d (\<lambda>r. ob_state r = ''pending'')
      else pl_redacted_at p = None \<or> pl_redaction p = Some ''expired'')"

definition redacted_row :: "redaction \<Rightarrow> string \<Rightarrow> payload_row \<Rightarrow> payload_row" where
  "redacted_row r at p = p\<lparr>pl_bytes := None,
     pl_redacted_at := (case pl_redacted_at p of None \<Rightarrow> Some at | Some t \<Rightarrow> Some t),
     pl_redaction := Some (redaction_str r)\<rparr>"

definition redact :: "json_reader \<Rightarrow> redaction_reach \<Rightarrow> string \<Rightarrow> ('m rdb, string list) stmt" where
  "redact json_text_at reach at d =
     (let hit = (\<lambda>p. redactable d reach p \<and> selected json_text_at d reach p)
      in Inr (map pl_digest (filter hit (rd_payloads d)),
          d\<lparr>rd_payloads := map (\<lambda>p. if hit p then redacted_row (reach_redaction reach) at p else p)
             (rd_payloads d)\<rparr>))"

text \<open>\<open>bar\<close>: a row without bytes for every listed digest never stored, then the redaction.\<close>

definition barrier_row :: "string \<Rightarrow> string \<Rightarrow> string \<Rightarrow> payload_row" where
  "barrier_row kind at digest = \<lparr>pl_digest = digest, pl_kind = kind, pl_schema = 0, pl_bytes = None,
     pl_len = 0, pl_created = at, pl_redacted_at = Some at, pl_redaction = Some ''erased''\<rparr>"

definition bar :: "json_reader \<Rightarrow> string list \<Rightarrow> string \<Rightarrow> string \<Rightarrow> ('m rdb, nat) stmt" where
  "bar json_text_at digests kind at =
     (if digests = [] then done_with 0
      else seq (\<lambda>d. let fresh = filter (\<lambda>g. g \<notin> pl_digest ` set (rd_payloads d)) (remdups digests)
                  in Inr (length fresh,
                       d\<lparr>rd_payloads := rd_payloads d @ map (barrier_row kind at) fresh\<rparr>)) (\<lambda>barred.
           seq (redact json_text_at (Listed digests) at) (\<lambda>gone. done_with (barred + length gone))))"

section \<open>Staged parts\<close>

record staging_state =
  ss_received :: nat
  ss_declared :: int

definition staging_complete :: "staging_state \<Rightarrow> bool" where
  "staging_complete s \<longleftrightarrow> 0 < ss_declared s \<and> int (ss_received s) = ss_declared s"

definition put_part :: "string \<Rightarrow> int \<Rightarrow> int \<Rightarrow> string \<Rightarrow> string \<Rightarrow> ('m rdb, staging_state) stmt" where
  "put_part staging index n bytes at d =
     (let hit = (\<lambda>p. sp_staging p = staging \<and> sp_index p = index);
          row = \<lparr>sp_staging = staging, sp_index = index, sp_count = n, sp_bytes = bytes,
                 sp_created = at\<rparr>;
          parts = (if \<exists>p \<in> set (rd_staged d). hit p
                   then map (\<lambda>p. if hit p then row else p) (rd_staged d)
                   else rd_staged d @ [row])
      in Inr (\<lparr>ss_received = length (filter (\<lambda>p. sp_staging p = staging) parts),
               ss_declared = n\<rparr>, d\<lparr>rd_staged := parts\<rparr>))"

definition assemble :: "'m rdb \<Rightarrow> string \<Rightarrow> string option" where
  "assemble d staging =
     (let parts = sort_key sp_index (filter (\<lambda>p. sp_staging p = staging) (rd_staged d));
          declared = (if parts = [] then 0 else Max (sp_count ` set parts))
      in if declared < 1 \<or> int (length parts) \<noteq> declared then None
         else Some (concat (map sp_bytes parts)))"

definition discard_staged :: "string \<Rightarrow> ('m rdb, nat) stmt" where
  "discard_staged staging d =
     Inr (length (filter (\<lambda>p. sp_staging p = staging) (rd_staged d)),
          d\<lparr>rd_staged := filter (\<lambda>p. sp_staging p \<noteq> staging) (rd_staged d)\<rparr>)"

section \<open>The legacy feed and the exchange state\<close>

definition append_sync_log ::
  "replica_op \<Rightarrow> string \<Rightarrow> string \<Rightarrow> string \<Rightarrow> replica_origin \<Rightarrow> ('m rdb, int) stmt" where
  "append_sync_log op memory hash at origin d =
     (let n = rd_log_counter d + 1
      in Inr (n, d\<lparr>rd_sync_log := rd_sync_log d @ [\<lparr>
           sl_seq = n, sl_op = op_str op, sl_memory = memory, sl_hash = hash, sl_at = at,
           sl_origin = origin_str origin\<rparr>], rd_log_counter := n\<rparr>))"

definition has_replica_upstream :: "'m rdb \<Rightarrow> bool" where
  "has_replica_upstream d \<longleftrightarrow> (\<exists>r \<in> set (rd_exchange d). xr_protocol r = Some ''replica-v1'')"

end
