(* ===== verification/Replica_Projection.thy ===== *)
theory Replica_Projection
  imports Replica_Journal "HOL-Library.Product_Lexorder"
begin

text \<open>
  The rows an accepted operation materializes, and the statements on them: the pulled document
  cache (\<open>src/store/remote_document.rs\<close>), code generations and their projection
  (\<open>code_generation.rs\<close>, \<open>remote_code.rs\<close>), verdicts and their counters (\<open>feedback.rs\<close>,
  \<open>code_feedback.rs\<close>), the activity log's insert (\<open>activity.rs\<close>) and the approved labels
  (\<open>repository_approval.rs\<close>). The unique keys and \<open>CHECK\<close>s are those of the schema.
\<close>

section \<open>The pulled document cache\<close>

definition purge_document :: "string \<Rightarrow> string \<Rightarrow> ('m rdb, unit) stmt" where
  "purge_document repo i = change (\<lambda>d. d\<lparr>
     rd_texts := filter (\<lambda>r. \<not> (rft_repo r = repo \<and> rft_id r = i)) (rd_texts d),
     rd_chunks := filter (\<lambda>r. \<not> (rch_repo r = repo \<and> rch_id r = i)) (rd_chunks d),
     rd_links := filter (\<lambda>r. \<not> (rlk_repo r = repo \<and> rlk_id r = i)) (rd_links d),
     rd_documents := filter (\<lambda>r. \<not> (rdoc_repo r = repo \<and> rdoc_id r = i)) (rd_documents d)\<rparr>)"

definition document_formats :: "string list" where
  "document_formats = [''txt'', ''markdown'', ''html'', ''delimited'']"

definition insert_document :: "document_revision \<Rightarrow> string \<Rightarrow> ('m rdb, unit) stmt" where
  "insert_document r at =
     guarded (\<lambda>_. dr_format r \<in> set document_formats)
       (check_failed ''format IN ('txt', 'markdown', 'html', 'delimited')'')
     (guarded (\<lambda>d. \<forall>x \<in> set (rd_documents d). \<not> (rdoc_repo x = dr_repo r \<and> rdoc_id x = dr_shared_id r))
       (unique_failed ext_primary_key ''remote_document.repo, remote_document.shared_id'')
     (change (\<lambda>d. d\<lparr>rd_documents := rd_documents d @ [\<lparr>
        rdoc_repo = dr_repo r, rdoc_id = dr_shared_id r, rdoc_path = dr_path r,
        rdoc_title = dr_title r, rdoc_format = dr_format r, rdoc_hash = dr_hash r,
        rdoc_chunks = int (length (dr_chunks r)), rdoc_accepted = at\<rparr>]\<rparr>)))"

text \<open>\<open>write_passage\<close>: the chunk and the row that makes it searchable.\<close>

definition write_passage :: "document_revision \<Rightarrow> chunk_wire \<Rightarrow> ('m rdb, unit) stmt" where
  "write_passage r c =
     guarded (\<lambda>d. \<forall>x \<in> set (rd_chunks d). \<not> (rch_repo x = dr_repo r \<and> rch_id x = dr_shared_id r \<and>
                  ch_ordinal (rch_chunk x) = ch_ordinal c))
       (unique_failed ext_primary_key
          ''remote_document_chunk.repo, remote_document_chunk.shared_id, remote_document_chunk.ordinal'')
     (change (\<lambda>d. d\<lparr>
        rd_chunks := rd_chunks d @ [\<lparr>rch_repo = dr_repo r, rch_id = dr_shared_id r, rch_chunk = c\<rparr>],
        rd_texts := rd_texts d @ [\<lparr>rft_repo = dr_repo r, rft_id = dr_shared_id r,
          rft_ordinal = show_int (ch_ordinal c), rft_title = dr_title r,
          rft_headings = ch_heading c, rft_passage = ch_text c, rft_path = dr_path r\<rparr>]\<rparr>))"

definition write_link :: "document_revision \<Rightarrow> link_wire \<Rightarrow> ('m rdb, unit) stmt" where
  "write_link r l =
     guarded (\<lambda>d. \<forall>x \<in> set (rd_links d). \<not> (rlk_repo x = dr_repo r \<and> rlk_id x = dr_shared_id r \<and>
                  rlk_link x = l))
       (unique_failed ext_primary_key (''remote_document_link.repo, remote_document_link.shared_id, '' @
          ''remote_document_link.ordinal, remote_document_link.target''))
     (change (\<lambda>d. d\<lparr>rd_links := rd_links d @
        [\<lparr>rlk_repo = dr_repo r, rlk_id = dr_shared_id r, rlk_link = l\<rparr>]\<rparr>))"

definition replace_revision :: "document_revision \<Rightarrow> string \<Rightarrow> ('m rdb, unit) stmt" where
  "replace_revision r at =
     seq (purge_document (dr_repo r) (dr_shared_id r)) (\<lambda>_.
     seq (insert_document r at) (\<lambda>_.
     seq (each (write_passage r) (dr_chunks r)) (\<lambda>_.
     each (write_link r) (dr_links r))))"

text \<open>\<open>revision\<close>, \<open>all::<Chunk>\<close> and \<open>all::<Link>\<close>.\<close>

definition held_document :: "'m rdb \<Rightarrow> string \<Rightarrow> string \<Rightarrow> remote_document_row option" where
  "held_document d repo i = find (\<lambda>r. rdoc_repo r = repo \<and> rdoc_id r = i) (rd_documents d)"

definition held_chunks :: "'m rdb \<Rightarrow> string \<Rightarrow> string \<Rightarrow> chunk_wire list" where
  "held_chunks d repo i = sort_key ch_ordinal
     (map rch_chunk (filter (\<lambda>r. rch_repo r = repo \<and> rch_id r = i) (rd_chunks d)))"

definition held_links :: "'m rdb \<Rightarrow> string \<Rightarrow> string \<Rightarrow> link_wire list" where
  "held_links d repo i = sort_key (\<lambda>l. (lk_ordinal l, lk_target l))
     (map rlk_link (filter (\<lambda>r. rlk_repo r = repo \<and> rlk_id r = i) (rd_links d)))"

section \<open>Code generations\<close>

datatype generation_state = Staged | Active | Superseded

fun state_str :: "generation_state \<Rightarrow> string" where
  "state_str Staged = ''staged''"
| "state_str Active = ''active''"
| "state_str Superseded = ''superseded''"

definition parse_state :: "string \<Rightarrow> error + generation_state" where
  "parse_state v =
     (if v = ''staged'' then Inr Staged
      else if v = ''active'' then Inr Active
      else if v = ''superseded'' then Inr Superseded
      else Inl (Other (''code_generation.state holds an unknown value: '' @ v)))"

definition is_generation :: "string \<Rightarrow> string \<Rightarrow> generation_row \<Rightarrow> bool" where
  "is_generation repo i g \<longleftrightarrow> gn_repo g = repo \<and> gn_id g = i"

text \<open>\<open>record\<close>: an upsert that refreshes what the contents determine only.\<close>

definition record_generation :: "generation_row \<Rightarrow> ('m rdb, unit) stmt" where
  "record_generation g = change (\<lambda>d.
     if \<exists>x \<in> set (rd_generations d). is_generation (gn_repo g) (gn_id g) x
     then d\<lparr>rd_generations := map (\<lambda>x. if is_generation (gn_repo g) (gn_id g) x
            then x\<lparr>gn_parent := gn_parent g, gn_head := gn_head g, gn_mined := gn_mined g,
                   gn_files := gn_files g, gn_digest := gn_digest g\<rparr> else x) (rd_generations d)\<rparr>
     else d\<lparr>rd_generations := rd_generations d @ [g]\<rparr>)"

text \<open>Every read decodes the two stored literals of each row.\<close>

definition decoded :: "generation_row list \<Rightarrow> error + generation_row list" where
  "decoded gs = traverse (\<lambda>g.
     and_then (parse_origin (gn_origin g)) (\<lambda>_.
     and_then (parse_state (gn_state g)) (\<lambda>_. Inr g))) gs"

definition first_decoded :: "generation_row list \<Rightarrow> error + generation_row option" where
  "first_decoded gs = and_then (decoded gs) (\<lambda>xs. Inr (case xs of [] \<Rightarrow> None | x # _ \<Rightarrow> Some x))"

definition active_generation :: "string \<Rightarrow> 'm rdb \<Rightarrow> error + generation_row option" where
  "active_generation repo d =
     first_decoded (filter (\<lambda>g. gn_repo g = repo \<and> gn_state g = ''active'') (rd_generations d))"

definition generation_by_id :: "string \<Rightarrow> string \<Rightarrow> 'm rdb \<Rightarrow> error + generation_row option" where
  "generation_by_id repo i d = first_decoded (filter (is_generation repo i) (rd_generations d))"

definition all_generations :: "string \<Rightarrow> 'm rdb \<Rightarrow> error + generation_row list" where
  "all_generations repo d =
     decoded (rev (sort_key gn_created (rev (filter (\<lambda>g. gn_repo g = repo) (rd_generations d)))))"

definition set_generation_state ::
  "string \<Rightarrow> string \<Rightarrow> generation_state \<Rightarrow> string option \<Rightarrow> ('m rdb, unit) stmt" where
  "set_generation_state repo i state at = change (\<lambda>d.
     d\<lparr>rd_generations := map (\<lambda>x. if is_generation repo i x
         then x\<lparr>gn_state := state_str state, gn_activated := at\<rparr> else x) (rd_generations d)\<rparr>)"

definition target_generation :: "string \<Rightarrow> string \<Rightarrow> 'm rdb \<Rightarrow> error + generation_row" where
  "target_generation repo i d =
     and_then (generation_by_id repo i d) (\<lambda>g.
     ok_or g (NotFound (''code generation '' @ i @ '' for '' @ repo)))"

text \<open>\<open>extends\<close>: a generation extends exactly what the repo is at.\<close>

definition extends_current :: "string option \<Rightarrow> string \<Rightarrow> string option \<Rightarrow> bool" where
  "extends_current parent i current \<longleftrightarrow> parent = current \<or> current = Some i"

definition may_activate :: "string \<Rightarrow> string option \<Rightarrow> string \<Rightarrow> 'm rdb \<Rightarrow> error + bool" where
  "may_activate repo parent i d =
     and_then (active_generation repo d) (\<lambda>current.
     Inr (map_option gn_id current = Some i \<or> extends_current parent i (map_option gn_id current)))"

definition activate_following :: "string \<Rightarrow> string \<Rightarrow> string \<Rightarrow> ('m rdb, unit) stmt" where
  "activate_following repo i at =
     seq (query (target_generation repo i)) (\<lambda>_.
     seq (query (active_generation repo)) (\<lambda>current.
     case current of
       None \<Rightarrow> set_generation_state repo i Active (Some at)
     | Some c \<Rightarrow>
         if gn_id c = i then done_with ()
         else seq (set_generation_state repo (gn_id c) Superseded None) (\<lambda>_.
              set_generation_state repo i Active (Some at))))"

text \<open>The refusal's text has both ids through Rust's \<open>Debug\<close>, \<open>debug_id\<close>.\<close>

definition activate_generation ::
  "(string option \<Rightarrow> string) \<Rightarrow> string \<Rightarrow> string \<Rightarrow> string \<Rightarrow> ('m rdb, unit) stmt" where
  "activate_generation debug_id repo i at =
     seq (query (target_generation repo i)) (\<lambda>target.
     seq (query (active_generation repo)) (\<lambda>current.
     if \<not> extends_current (gn_parent target) i (map_option gn_id current)
     then pure (Inl (Conflict (''code generation '' @ i @ '' was planned against '' @
            debug_id (gn_parent target) @ '', but '' @ repo @ '' is at '' @
            debug_id (map_option gn_id current))))
     else activate_following repo i at))"

definition purge_generation :: "string \<Rightarrow> string \<Rightarrow> ('m rdb, unit) stmt" where
  "purge_generation repo i = change (\<lambda>d. d\<lparr>
     rd_code_files := filter (\<lambda>p. \<not> (gp_repo p = repo \<and> gp_id p = i)) (rd_code_files d),
     rd_code_symbols := filter (\<lambda>p. \<not> (gp_repo p = repo \<and> gp_id p = i)) (rd_code_symbols d),
     rd_code_edges := filter (\<lambda>p. \<not> (gp_repo p = repo \<and> gp_id p = i)) (rd_code_edges d)\<rparr>)"

definition part_of :: "string \<Rightarrow> string \<Rightarrow> 'a \<Rightarrow> 'a generation_part" where
  "part_of repo i x = \<lparr>gp_repo = repo, gp_id = i, gp_row = x\<rparr>"

definition part_free :: "string \<Rightarrow> string \<Rightarrow> ('a \<Rightarrow> 'k) \<Rightarrow> 'a \<Rightarrow> 'a generation_part list \<Rightarrow> bool" where
  "part_free repo i key x ps \<longleftrightarrow>
     (\<forall>p \<in> set ps. \<not> (gp_repo p = repo \<and> gp_id p = i \<and> key (gp_row p) = key x))"

definition insert_code_file :: "string \<Rightarrow> string \<Rightarrow> file_wire \<Rightarrow> ('m rdb, unit) stmt" where
  "insert_code_file repo i f =
     guarded (\<lambda>d. part_free repo i fw_path f (rd_code_files d))
       (unique_failed ext_primary_key
          ''remote_code_file.repo, remote_code_file.generation_id, remote_code_file.path'')
       (change (\<lambda>d. d\<lparr>rd_code_files := rd_code_files d @ [part_of repo i f]\<rparr>))"

definition insert_code_symbol :: "string \<Rightarrow> string \<Rightarrow> symbol_wire \<Rightarrow> ('m rdb, unit) stmt" where
  "insert_code_symbol repo i s =
     guarded (\<lambda>d. part_free repo i (\<lambda>s. (sw_path s, sw_symbol s, sw_line_start s)) s (rd_code_symbols d))
       (unique_failed ext_primary_key (''remote_code_symbol.repo, remote_code_symbol.generation_id, '' @
          ''remote_code_symbol.path, remote_code_symbol.symbol, remote_code_symbol.line_start''))
       (change (\<lambda>d. d\<lparr>rd_code_symbols := rd_code_symbols d @ [part_of repo i s]\<rparr>))"

definition insert_code_edge :: "string \<Rightarrow> string \<Rightarrow> edge_wire \<Rightarrow> ('m rdb, unit) stmt" where
  "insert_code_edge repo i e =
     guarded (\<lambda>_. ew_rel e = ''imports'' \<or> ew_rel e = ''co_changed'')
       (check_failed ''rel IN ('imports', 'co_changed')'')
     (guarded (\<lambda>d. part_free repo i (\<lambda>e. (ew_rel e, ew_src e, ew_dst e)) e (rd_code_edges d))
       (unique_failed ext_primary_key (''remote_code_edge.repo, remote_code_edge.generation_id, '' @
          ''remote_code_edge.rel, remote_code_edge.src_path, remote_code_edge.dst_path''))
       (change (\<lambda>d. d\<lparr>rd_code_edges := rd_code_edges d @ [part_of repo i e]\<rparr>)))"

definition replace_generation :: "string \<Rightarrow> code_generation \<Rightarrow> ('m rdb, unit) stmt" where
  "replace_generation repo c =
     seq (purge_generation repo (cg_id c)) (\<lambda>_.
     seq (each (insert_code_file repo (cg_id c)) (cg_files c)) (\<lambda>_.
     seq (each (insert_code_symbol repo (cg_id c)) (cg_symbols c)) (\<lambda>_.
     each (insert_code_edge repo (cg_id c)) (cg_edges c))))"

text \<open>\<open>projection\<close>: everything one generation holds.\<close>

definition held_parts :: "string \<Rightarrow> string \<Rightarrow> 'a generation_part list \<Rightarrow> 'a list" where
  "held_parts repo i ps = map gp_row (filter (\<lambda>p. gp_repo p = repo \<and> gp_id p = i) ps)"

definition held_projection ::
  "'m rdb \<Rightarrow> string \<Rightarrow> string \<Rightarrow> file_wire list \<times> symbol_wire list \<times> edge_wire list" where
  "held_projection d repo i =
     (sort_key fw_path (held_parts repo i (rd_code_files d)),
      sort_key (\<lambda>s. (sw_path s, sw_line_start s)) (held_parts repo i (rd_code_symbols d)),
      sort_key (\<lambda>e. (ew_rel e, ew_src e)) (held_parts repo i (rd_code_edges d)))"

section \<open>Verdicts, runs and labels\<close>

text \<open>\<open>last_used\<close> only moves forward: the later of the stored and the offered stamp.\<close>

fun later_stamp :: "string option \<Rightarrow> string option \<Rightarrow> string option" where
  "later_stamp (Some a) (Some b) = Some (if a < b then b else a)"
| "later_stamp (Some a) None = Some a"
| "later_stamp None b = b"

definition bump :: "int \<Rightarrow> int \<Rightarrow> string option \<Rightarrow> counter_row \<Rightarrow> counter_row" where
  "bump used irrelevant stamp c = \<lparr>
     ct_used = ct_used c + used, ct_irrelevant = ct_irrelevant c + irrelevant,
     ct_last_used = later_stamp (ct_last_used c) stamp\<rparr>"

definition upsert_counts ::
  "int \<Rightarrow> int \<Rightarrow> string option \<Rightarrow> 'k \<Rightarrow> ('k \<times> counter_row) list \<Rightarrow> ('k \<times> counter_row) list" where
  "upsert_counts used irrelevant stamp k cs =
     (if k \<in> fst ` set cs
      then map (\<lambda>(k', c). if k' = k then (k', bump used irrelevant stamp c) else (k', c)) cs
      else cs @ [(k, \<lparr>ct_used = used, ct_irrelevant = irrelevant, ct_last_used = stamp\<rparr>)])"

definition count_memory :: "string \<Rightarrow> bool \<Rightarrow> string \<Rightarrow> ('m rdb, unit) stmt" where
  "count_memory i used at = change (\<lambda>d. d\<lparr>rd_feedback :=
     (if used then upsert_counts 1 0 (Some at) i (rd_feedback d)
      else upsert_counts 0 1 None i (rd_feedback d))\<rparr>)"

definition count_symbol :: "string \<times> string \<times> string \<Rightarrow> bool \<Rightarrow> string \<Rightarrow> ('m rdb, unit) stmt" where
  "count_symbol k used at = change (\<lambda>d. d\<lparr>rd_code_feedback :=
     (if used then upsert_counts 1 0 (Some at) k (rd_code_feedback d)
      else upsert_counts 0 1 None k (rd_code_feedback d))\<rparr>)"

definition insert_verdict :: "verdict_row \<Rightarrow> ('m rdb, unit) stmt" where
  "insert_verdict v =
     guarded (\<lambda>_. vd_verdict v = ''used'' \<or> vd_verdict v = ''irrelevant'')
       (check_failed ''verdict IN ('used','irrelevant')'')
     (guarded (\<lambda>_. case vd_surface v of None \<Rightarrow> True | Some s \<Rightarrow> known_surface s)
       (check_failed ''surface IN ('cli', 'http', 'mcp')'')
     (guarded (\<lambda>d. vd_event v = None \<or> vd_event v \<notin> vd_event ` set (rd_verdicts d))
       (unique_failed ext_unique ''feedback_events.event_id'')
     (change (\<lambda>d. d\<lparr>rd_verdicts := rd_verdicts d @
        [v\<lparr>vd_id := (if rd_verdicts d = [] then 1 else Max (vd_id ` set (rd_verdicts d)) + 1)\<rparr>]\<rparr>))))"

definition insert_activity :: "activity_row \<Rightarrow> ('m rdb, unit) stmt" where
  "insert_activity a =
     guarded (\<lambda>_. known_surface (al_source a)) (check_failed ''source IN ('cli', 'http', 'mcp')'')
     (guarded (\<lambda>d. al_event a = None \<or> al_event a \<notin> al_event ` set (rd_activity d))
       (unique_failed ext_unique ''activity_log.event_id'')
     (change (\<lambda>d. let n = rd_activity_counter d + 1
                 in d\<lparr>rd_activity := rd_activity d @ [a\<lparr>al_id := n\<rparr>], rd_activity_counter := n\<rparr>)))"

text \<open>\<open>label_for\<close>: the smallest approved label that resolves to the name.\<close>

definition label_for :: "'m rdb \<Rightarrow> string \<Rightarrow> string option" where
  "label_for d canonical =
     (let ls = map fst (filter (\<lambda>(_, c). c = canonical) (rd_approvals d))
      in if ls = [] then None else Some (Min (set ls)))"

definition local_label :: "'m rdb \<Rightarrow> string \<Rightarrow> string" where
  "local_label d canonical = (case label_for d canonical of None \<Rightarrow> canonical | Some l \<Rightarrow> l)"

end
