(* ===== verification/Replica_Accept.thy ===== *)
theory Replica_Accept
  imports Replica_Projection
begin

text \<open>
  Accepting one replicated operation: the decision (\<open>src/domains/sync/replica/validate.rs\<close>,
  \<open>validate_events.rs\<close>), the replay of an answer, the refusal and the import loop
  (\<open>accept.rs\<close>), the write of an accepted operation with its feed row and its receipt in one
  transaction (\<open>materialize.rs\<close>, \<open>code_accept.rs\<close>, \<open>document_accept.rs\<close>,
  \<open>event_accept.rs\<close>, and \<open>memories/journal.rs\<close>), and the staged upload (\<open>staging.rs\<close>).

  The markdown tree and the mirror of the memories are reached through the record
  \<open>memory_store\<close>, one field per operation of \<open>MemoryStore\<close>, \<open>mirror\<close>, \<open>vector_rule\<close> and
  \<open>memory_purge\<close> the code calls; their bodies are not modelled here. The refresh of the derived
  graph after a batch, whose result the code drops, is left out.
\<close>

section \<open>State\<close>

record ('f, 'm) rst =
  rs_db :: "'m rdb"
  rs_files :: 'f
  rs_ticks :: nat
  rs_txs :: nat

type_synonym ('f, 'm, 'a) run = "('f, 'm) rst \<Rightarrow> (error + 'a) \<times> ('f, 'm) rst"

definition finish :: "'a \<Rightarrow> ('f, 'm, 'a) run" where
  "finish x s = (Inr x, s)"

definition raise :: "error \<Rightarrow> ('f, 'm, 'a) run" where
  "raise e s = (Inl e, s)"

definition andthen :: "('f, 'm, 'a) run \<Rightarrow> ('a \<Rightarrow> ('f, 'm, 'b) run) \<Rightarrow> ('f, 'm, 'b) run" where
  "andthen m f s = (case m s of (Inl e, s') \<Rightarrow> (Inl e, s') | (Inr x, s') \<Rightarrow> f x s')"

definition reads :: "('m rdb \<Rightarrow> error + 'a) \<Rightarrow> ('f, 'm, 'a) run" where
  "reads f s = (f (rs_db s), s)"

definition known :: "error + 'a \<Rightarrow> ('f, 'm, 'a) run" where
  "known r s = (r, s)"

text \<open>\<open>conn.transaction()\<close> to \<open>commit\<close>: dropped without a commit, it rolls back.\<close>

definition in_transaction :: "replica_env \<Rightarrow> ('m rdb, 'a) stmt \<Rightarrow> ('f, 'm, 'a) run" where
  "in_transaction env body s =
     (let k = rs_txs s; s0 = s\<lparr>rs_txs := Suc k\<rparr>
      in case n_begin env k of
           Inl e \<Rightarrow> (Inl e, s0)
         | Inr _ \<Rightarrow>
             (case body (rs_db s) of
                Inl e \<Rightarrow> (Inl e, s0)
              | Inr (x, d) \<Rightarrow>
                  (case n_commit env k of
                     Inl e \<Rightarrow> (Inl e, s0)
                   | Inr _ \<Rightarrow> (Inr x, s0\<lparr>rs_db := d\<rparr>))))"

text \<open>A statement outside a transaction commits by itself.\<close>

definition autocommit :: "('m rdb, 'a) stmt \<Rightarrow> ('f, 'm, 'a) run" where
  "autocommit m s = (case m (rs_db s) of Inl e \<Rightarrow> (Inl e, s) | Inr (x, d) \<Rightarrow> (Inr x, s\<lparr>rs_db := d\<rparr>))"

definition iso_now :: "replica_env \<Rightarrow> ('f, 'm, string) run" where
  "iso_now env s =
     ((case n_iso_format env (n_clock env (rs_ticks s)) of
         Inl e \<Rightarrow> Inl (Other (''iso8601 format: '' @ e))
       | Inr t \<Rightarrow> Inr t), s\<lparr>rs_ticks := Suc (rs_ticks s)\<rparr>)"

section \<open>The decision\<close>

definition canonical_text :: "replica_env \<Rightarrow> replica_operation \<Rightarrow> disposition + string" where
  "canonical_text env op =
     (case (o_payload op, o_digest op) of
        (Some payload, Some digest) \<Rightarrow>
          (case canonical_bytes env payload of
             Inl _ \<Rightarrow> Inl RejectedInvalid
           | Inr (bytes, computed) \<Rightarrow> if computed \<noteq> digest then Inl RejectedInvalid else Inr bytes)
      | _ \<Rightarrow> Inl RejectedInvalid)"

text \<open>Bytes this build cannot read are unsupported; a payload that does not hold together is
  invalid.\<close>

definition identity_check ::
  "replica_env \<Rightarrow> (json \<Rightarrow> 'p option) \<Rightarrow> ('p \<Rightarrow> string \<Rightarrow> bool) \<Rightarrow> replica_operation \<Rightarrow> string \<Rightarrow>
   disposition option" where
  "identity_check env read holds op bytes =
     (case n_from_str env bytes of
        Inl _ \<Rightarrow> Some RejectedUnsupported
      | Inr v \<Rightarrow>
          (case read v of
             None \<Rightarrow> Some RejectedUnsupported
           | Some p \<Rightarrow> if holds p (o_key op) then None else Some RejectedInvalid))"

definition op_shape ::
  "replica_env \<Rightarrow> (json \<Rightarrow> 'p option) \<Rightarrow> ('p \<Rightarrow> string \<Rightarrow> bool) \<Rightarrow> replica_operation \<Rightarrow>
   disposition option" where
  "op_shape env read holds op =
     (if \<not> needs_payload (o_op op)
      then (if o_payload op \<noteq> None then Some RejectedInvalid else None)
      else (case canonical_text env op of
              Inl problem \<Rightarrow> Some problem
            | Inr bytes \<Rightarrow> identity_check env read holds op bytes))"

definition event_shape ::
  "replica_env \<Rightarrow> (json \<Rightarrow> 'p option) \<Rightarrow> ('p \<Rightarrow> string \<Rightarrow> bool) \<Rightarrow> replica_operation \<Rightarrow>
   disposition option" where
  "event_shape env read holds op =
     (if o_op op \<noteq> Upsert then Some RejectedInvalid
      else if o_payload op = None
      then Some (if o_digest op \<noteq> None then PayloadExpired else RejectedInvalid)
      else (case canonical_text env op of
              Inl problem \<Rightarrow> Some problem
            | Inr bytes \<Rightarrow> identity_check env read holds op bytes))"

definition kind_and_shape :: "replica_env \<Rightarrow> replica_operation \<Rightarrow> disposition option" where
  "kind_and_shape env op =
     (if o_schema op \<noteq> payload_version then Some RejectedUnsupported
      else if o_kind op = memory_kind then op_shape env memory_payload_of_json (memory_holds env) op
      else if o_kind op = code_kind then op_shape env code_of_json (code_holds env) op
      else if o_kind op = document_kind then op_shape env document_of_json (document_holds env) op
      else if o_kind op = feedback_kind then event_shape env feedback_of_json (feedback_holds env) op
      else if o_kind op = activity_kind then event_shape env activity_of_json (activity_holds env) op
      else Some RejectedUnsupported)"

definition known_event :: "'m rdb \<Rightarrow> replica_operation \<Rightarrow> disposition option" where
  "known_event d op =
     (if \<not> is_event_kind (o_kind op) then None
      else case find_revision d (o_kind op) (o_key op) of
             None \<Rightarrow> None
           | Some r \<Rightarrow>
               Some (if rw_digest r \<noteq> None \<and> rw_digest r = o_digest op then Duplicate
                     else RejectedConflict))"

definition order_decision :: "replica_operation \<Rightarrow> revision_view option \<Rightarrow> disposition" where
  "order_decision op revision =
     (case revision of
        None \<Rightarrow> if o_op op = Revive then RejectedStale else Accepted
      | Some r \<Rightarrow>
          (case o_op op of
             Upsert \<Rightarrow> if rw_deleted r then RejectedStale else Accepted
           | Revive \<Rightarrow>
               if rw_deleted r \<and> o_observed op = rw_deleted_sequence r then Accepted
               else RejectedStale
           | Tombstone \<Rightarrow> Accepted))"

definition decide :: "replica_env \<Rightarrow> 'm rdb \<Rightarrow> replica_operation \<Rightarrow> disposition" where
  "decide env d op =
     (case kind_and_shape env op of
        Some problem \<Rightarrow> problem
      | None \<Rightarrow>
          (case Option.bind (o_digest op) (redaction_of d) of
             Some Erased \<Rightarrow> PayloadErased
           | Some Expired \<Rightarrow> PayloadExpired
           | None \<Rightarrow>
               if has_pending_for d (o_kind op) (o_key op) \<and> has_replica_upstream d
               then RejectedStale
               else (case known_event d op of
                       Some decision \<Rightarrow> decision
                     | None \<Rightarrow> order_decision op (find_revision d (o_kind op) (o_key op)))))"

section \<open>Answers\<close>

definition answer :: "replica_operation \<Rightarrow> disposition \<Rightarrow> int option \<Rightarrow> string option \<Rightarrow> operation_result" where
  "answer op disposition n reason = \<lparr>or_id = o_id op, or_disposition = disposition,
     or_sequence = n, or_digest = o_digest op, or_reason = reason\<rparr>"

definition arrived_digest :: "replica_env \<Rightarrow> replica_operation \<Rightarrow> string option" where
  "arrived_digest env op =
     Option.bind (o_payload op) (\<lambda>payload.
       case canonical_bytes env payload of Inl _ \<Rightarrow> None | Inr (_, digest) \<Rightarrow> Some digest)"

definition is_erased :: "'m rdb \<Rightarrow> string option \<Rightarrow> bool" where
  "is_erased d digest \<longleftrightarrow> Option.bind digest (redaction_of d) = Some Erased"

definition replayed :: "replica_env \<Rightarrow> 'm rdb \<Rightarrow> replica_operation \<Rightarrow> operation_result option" where
  "replayed env d op =
     (case lookup_answer d (o_id op) of
        None \<Rightarrow> None
      | Some r \<Rightarrow> Some (
          if rp_digest r \<noteq> arrived_digest env op
          then answer op RejectedConflict None (disposition_reason RejectedConflict)
          else if rp_disposition r = disposition_str Accepted
          then (if is_erased d (rp_digest r)
                then \<lparr>or_id = o_id op, or_disposition = PayloadErased, or_sequence = None,
                      or_digest = rp_digest r, or_reason = disposition_reason PayloadErased\<rparr>
                else \<lparr>or_id = o_id op, or_disposition = Duplicate, or_sequence = rp_sequence r,
                      or_digest = rp_digest r, or_reason = rp_reason r\<rparr>)
          else \<lparr>or_id = o_id op, or_disposition = parse_disposition (rp_disposition r),
                or_sequence = rp_sequence r, or_digest = rp_digest r, or_reason = rp_reason r\<rparr>))"

definition receipt_of ::
  "replica_operation \<Rightarrow> string \<Rightarrow> disposition \<Rightarrow> int option \<Rightarrow> string option \<Rightarrow> string option \<Rightarrow> receipt"
where
  "receipt_of op epoch disposition n digest reason = \<lparr>rp_operation = o_id op, rp_epoch = epoch,
     rp_sequence = n, rp_disposition = disposition_str disposition, rp_digest = digest,
     rp_reason = reason\<rparr>"

definition record_refusal ::
  "replica_env \<Rightarrow> string \<Rightarrow> replica_operation \<Rightarrow> disposition \<Rightarrow> string option \<Rightarrow> int option \<Rightarrow>
   ('f, 'm, operation_result) run" where
  "record_refusal env epoch op disposition reason n =
     andthen (iso_now env) (\<lambda>at.
     andthen (in_transaction env (record_answer
         (receipt_of op epoch disposition n (arrived_digest env op) reason) at)) (\<lambda>_.
     finish (answer op disposition n reason)))"

text \<open>The receipt an acceptance writes, in its own transaction (\<open>accept\<close>, \<open>accepted\<close>).\<close>

definition accept_answer ::
  "replica_operation \<Rightarrow> string \<Rightarrow> int \<Rightarrow> string \<Rightarrow> ('m rdb, operation_result) stmt" where
  "accept_answer op epoch n at =
     seq (record_answer (receipt_of op epoch Accepted (Some n) (o_digest op) None) at) (\<lambda>_.
     done_with (answer op Accepted (Some n) None))"

section \<open>The memory store\<close>

record frontmatter =
  fmt_id :: string
  fmt_kind :: memory_kinds
  fmt_repo :: string
  fmt_tags :: "string list"
  fmt_author :: string
  fmt_created :: date_time
  fmt_quality :: int
  fmt_schema :: int
  fmt_hash :: string
  fmt_references :: code_references
  fmt_relations :: memory_relations

record memory_record =
  mr_front :: frontmatter
  mr_body :: string
  mr_path :: string
  mr_slug :: string

text \<open>\<open>SaveParams\<close>.\<close>

record save_params =
  sv_body :: string
  sv_kind :: memory_kinds
  sv_repo :: string
  sv_tags :: "string list"
  sv_author :: string
  sv_quality :: int
  sv_relations :: memory_relations
  sv_references :: code_references
  sv_created :: "date_time option"

text \<open>\<open>Verdict\<close> of \<open>vector_rule.rs\<close>; a vector is kept as it arrived.\<close>

datatype vector_verdict =
    StoreVector sync_vector
  | RefuseVector string "string option" "int option"

record ('f, 'm) memory_store =
  ms_lock :: "'f \<Rightarrow> error + unit"
  ms_load :: "string \<Rightarrow> 'f \<Rightarrow> error + memory_record"
  ms_rewrite :: "memory_record \<Rightarrow> 'f \<Rightarrow> (error + unit) \<times> 'f"
  ms_save :: "save_params \<Rightarrow> 'f \<Rightarrow> (error + memory_record) \<times> 'f"
  ms_delete :: "string \<Rightarrow> 'f \<Rightarrow> (error + memory_record) \<times> 'f"
  ms_judge_vector :: "sync_vector option \<Rightarrow> 'm \<Rightarrow> error + vector_verdict"
  ms_mirror :: "memory_record \<Rightarrow> 'm \<Rightarrow> error + 'm"
  ms_apply_vector :: "string \<Rightarrow> vector_verdict \<Rightarrow> string \<Rightarrow> 'm \<Rightarrow> error + 'm"
  ms_soft_delete :: "string \<Rightarrow> string \<Rightarrow> 'm \<Rightarrow> error + 'm"

definition on_files :: "('f \<Rightarrow> (error + 'a) \<times> 'f) \<Rightarrow> ('f, 'm, 'a) run" where
  "on_files f s = (case f (rs_files s) of (r, fs) \<Rightarrow> (r, s\<lparr>rs_files := fs\<rparr>))"

definition on_mirror :: "('m \<Rightarrow> error + 'm) \<Rightarrow> ('m rdb, unit) stmt" where
  "on_mirror f d = and_then (f (rd_mirror d)) (\<lambda>m. Inr ((), d\<lparr>rd_mirror := m\<rparr>))"

section \<open>Journalling a memory (\<open>memories/journal.rs\<close>)\<close>

text \<open>\<open>MemoryPayloadV1::new\<close> and \<open>canonical\<close>.\<close>

definition memory_payload_of :: "replica_env \<Rightarrow> frontmatter \<Rightarrow> string \<Rightarrow> error + memory_payload" where
  "memory_payload_of env fm body =
     (case n_iso_format env (fmt_created fm) of
        Inl e \<Rightarrow> Inl (Other (''created timestamp: '' @ e))
      | Inr created \<Rightarrow> Inr \<lparr>
          mp_id = fmt_id fm, mp_kind = fmt_kind fm, mp_repo = fmt_repo fm, mp_tags = fmt_tags fm,
          mp_created = created, mp_quality = fmt_quality fm, mp_schema = fmt_schema fm,
          mp_hash = fmt_hash fm, mp_references = fmt_references fm,
          mp_relations = fmt_relations fm, mp_body = body\<rparr>)"

definition memory_canonical :: "replica_env \<Rightarrow> memory_payload \<Rightarrow> error + string \<times> string" where
  "memory_canonical env m = canonical_bytes env (memory_payload_json m)"

text \<open>\<open>journal\<close>: the feed row, and for a local mutation the upload it owes.\<close>

definition journal_memory :: "int \<Rightarrow> new_operation \<Rightarrow> ('m rdb, int \<times> int) stmt" where
  "journal_memory legacy new =
     seq (query stream_epoch) (\<lambda>epoch.
     seq (append_op epoch new) (\<lambda>n.
     seq (if no_origin new = FromHere then enqueue new None else done_with ()) (\<lambda>_.
     done_with (legacy, n))))"

definition label_option :: "string \<Rightarrow> string option" where
  "label_option repo = (if repo = [] then None else Some repo)"

definition record_write ::
  "replica_env \<Rightarrow> replica_op \<Rightarrow> frontmatter \<Rightarrow> string \<Rightarrow> string \<Rightarrow> replica_origin \<Rightarrow> string \<Rightarrow>
   ('m rdb, int \<times> int) stmt" where
  "record_write env op fm body at origin operation_id =
     seq (pure (and_then (memory_payload_of env fm body) (memory_canonical env))) (\<lambda>(bytes, digest).
     seq (append_sync_log op (fmt_id fm) (fmt_hash fm) at origin) (\<lambda>legacy.
     journal_memory legacy \<lparr>no_id = operation_id, no_kind = memory_kind, no_key = fmt_id fm,
       no_op = op, no_payload = Some (digest, bytes), no_schema = payload_version,
       no_repository = label_option (fmt_repo fm), no_origin = origin, no_at = at\<rparr>))"

definition record_tombstone ::
  "string \<Rightarrow> string \<Rightarrow> string option \<Rightarrow> string \<Rightarrow> replica_origin \<Rightarrow> string \<Rightarrow>
   ('m rdb, int \<times> int) stmt" where
  "record_tombstone memory hash repository at origin operation_id =
     seq (append_sync_log Tombstone memory hash at origin) (\<lambda>legacy.
     journal_memory legacy \<lparr>no_id = operation_id, no_kind = memory_kind, no_key = memory,
       no_op = Tombstone, no_payload = None, no_schema = payload_version,
       no_repository = repository, no_origin = origin, no_at = at\<rparr>)"

section \<open>Materializing a memory (\<open>materialize.rs\<close>)\<close>

datatype prepared =
    Written memory_record
  | Removed string "string option"

text \<open>A decoded payload, or the refusal \<open>serde_json\<close> words.\<close>

definition decode_as :: "replica_env \<Rightarrow> string \<Rightarrow> (json \<Rightarrow> 'p option) \<Rightarrow> string \<Rightarrow> error + 'p" where
  "decode_as env what read bytes =
     (case n_from_str env bytes of
        Inl e \<Rightarrow> Inl (BadRequest (what @ '': '' @ e))
      | Inr v \<Rightarrow> ok_or (read v) (BadRequest (what @ '': '' @ n_decode_error env v)))"

definition decode_memory :: "replica_env \<Rightarrow> replica_operation \<Rightarrow> error + memory_payload" where
  "decode_memory env op =
     and_then (ok_or (o_payload op) (BadRequest ''operation carries no payload'')) (\<lambda>payload.
     and_then (canonical_bytes env payload) (\<lambda>(bytes, _).
     decode_as env ''memory payload v1'' memory_payload_of_json bytes))"

definition created_at :: "replica_env \<Rightarrow> memory_payload \<Rightarrow> error + date_time" where
  "created_at env m =
     (case n_iso_parse env (mp_created m) of
        Inl e \<Rightarrow> Inl (BadRequest (''created timestamp: '' @ e))
      | Inr t \<Rightarrow> Inr t)"

definition updated_record :: "memory_payload \<Rightarrow> date_time \<Rightarrow> memory_record \<Rightarrow> memory_record" where
  "updated_record m created old = old\<lparr>
     mr_front := (mr_front old)\<lparr>fmt_kind := mp_kind m, fmt_repo := mp_repo m, fmt_tags := mp_tags m,
       fmt_quality := mp_quality m, fmt_references := mp_references m,
       fmt_relations := mp_relations m, fmt_hash := mp_hash m, fmt_schema := mp_schema m,
       fmt_created := created\<rparr>,
     mr_body := mp_body m\<rparr>"

definition write_markdown ::
  "replica_env \<Rightarrow> ('f, 'm) memory_store \<Rightarrow> memory_payload \<Rightarrow> ('f, 'm, memory_record) run" where
  "write_markdown env store m s =
     (case ms_load store (mp_id m) (rs_files s) of
        Inr existing \<Rightarrow>
          andthen (known (created_at env m)) (\<lambda>created.
          andthen (on_files (ms_rewrite store (updated_record m created existing))) (\<lambda>_.
          finish (updated_record m created existing))) s
      | Inl (NotFound _) \<Rightarrow>
          andthen (known (created_at env m)) (\<lambda>created.
          on_files (ms_save store \<lparr>sv_body = mp_body m, sv_kind = mp_kind m, sv_repo = mp_repo m,
            sv_tags = mp_tags m, sv_author = [], sv_quality = mp_quality m,
            sv_relations = mp_relations m, sv_references = mp_references m,
            sv_created = Some created\<rparr>)) s
      | Inl e \<Rightarrow> (Inl e, s))"

definition prepare_markdown ::
  "replica_env \<Rightarrow> ('f, 'm) memory_store \<Rightarrow> replica_operation \<Rightarrow> ('f, 'm, prepared) run" where
  "prepare_markdown env store op =
     andthen (\<lambda>s. (ms_lock store (rs_files s), s)) (\<lambda>_.
     if o_op op = Tombstone
     then (\<lambda>s. case on_files (ms_delete store (o_key op)) s of
             (Inr r, s') \<Rightarrow> (Inr (Removed (fmt_hash (mr_front r)) (label_option (fmt_repo (mr_front r)))), s')
           | (Inl (NotFound _), s') \<Rightarrow> (Inr (Removed [] None), s')
           | (Inl e, s') \<Rightarrow> (Inl e, s'))
     else andthen (known (decode_memory env op)) (\<lambda>m.
          andthen (write_markdown env store m) (\<lambda>r. finish (Written r))))"

text \<open>\<open>commit_acceptance\<close>: the state and the receipt it earns in one transaction.\<close>

definition commit_acceptance ::
  "replica_env \<Rightarrow> string \<Rightarrow> replica_operation \<Rightarrow> string \<Rightarrow> ('m rdb, int) stmt \<Rightarrow> ('f, 'm, int) run" where
  "commit_acceptance env epoch op at body =
     in_transaction env (
       seq body (\<lambda>n.
       seq (record_answer (receipt_of op epoch Accepted (Some n) (o_digest op) None) at) (\<lambda>_.
       done_with n)))"

fun write_memory ::
  "replica_env \<Rightarrow> ('f, 'm) memory_store \<Rightarrow> replica_operation \<Rightarrow> string \<Rightarrow> vector_verdict \<Rightarrow> prepared \<Rightarrow>
   ('m rdb, int) stmt" where
  "write_memory env store op at verdict (Written r) =
     seq (on_mirror (ms_mirror store r)) (\<lambda>_.
     seq (on_mirror (ms_apply_vector store (fmt_id (mr_front r)) verdict at)) (\<lambda>_.
     seq (record_write env (o_op op) (mr_front r) (mr_body r) at FromPeer (o_id op)) (\<lambda>(_, n).
     done_with n)))"
| "write_memory env store op at verdict (Removed hash repository) =
     seq (on_mirror (ms_soft_delete store (o_key op) at)) (\<lambda>_.
     seq (record_tombstone (o_key op) hash repository at FromPeer (o_id op)) (\<lambda>(_, n).
     done_with n))"

definition apply_memory ::
  "replica_env \<Rightarrow> ('f, 'm) memory_store \<Rightarrow> string \<Rightarrow> replica_operation \<Rightarrow> string \<Rightarrow>
   ('f, 'm, operation_result) run" where
  "apply_memory env store epoch op at =
     andthen (prepare_markdown env store op) (\<lambda>prepared.
     andthen (reads (\<lambda>d. ms_judge_vector store (o_vector op) (rd_mirror d))) (\<lambda>verdict.
     andthen (commit_acceptance env epoch op at (write_memory env store op at verdict prepared)) (\<lambda>n.
     finish (answer op Accepted (Some n) None))))"

section \<open>Materializing a code generation (\<open>code_accept.rs\<close>)\<close>

text \<open>Who ordered the operation: this engine, or the upstream it follows.\<close>

datatype ordered_by = Decided | Upstream

definition write_text :: "replica_env \<Rightarrow> string \<Rightarrow> json \<Rightarrow> error + string" where
  "write_text env what v =
     (case n_to_string env v of Inl e \<Rightarrow> Inl (Other (what @ '': '' @ e)) | Inr t \<Rightarrow> Inr t)"

definition decode_code :: "replica_env \<Rightarrow> replica_operation \<Rightarrow> error + code_generation option" where
  "decode_code env op =
     (if o_op op = Tombstone then Inr None
      else and_then (ok_or (o_payload op) (BadRequest ''a code generation upsert carries a payload''))
        (\<lambda>v.
      and_then (write_text env ''code generation payload'' v) (\<lambda>bytes.
      and_then (decode_as env ''code generation payload v1'' code_of_json bytes) (\<lambda>c. Inr (Some c)))))"

definition generation_row_of :: "replica_env \<Rightarrow> string \<Rightarrow> code_generation \<Rightarrow> string \<Rightarrow> error + generation_row" where
  "generation_row_of env repo c at =
     and_then (code_canonical env c) (\<lambda>(_, digest). Inr \<lparr>
       gn_repo = repo, gn_id = cg_id c, gn_parent = cg_parent c, gn_head = cg_head c,
       gn_mined = cg_mined c, gn_origin = origin_str FromPeer, gn_state = state_str Staged,
       gn_files = int (length (cg_files c)), gn_digest = digest, gn_created = at,
       gn_activated = None\<rparr>)"

definition activate_accepted ::
  "replica_env \<Rightarrow> string \<Rightarrow> code_generation \<Rightarrow> string \<Rightarrow> ordered_by \<Rightarrow> ('m rdb, unit) stmt" where
  "activate_accepted env repo c at ord =
     seq (pure (generation_row_of env repo c at)) (\<lambda>g.
     seq (record_generation g) (\<lambda>_.
     seq (replace_generation repo c) (\<lambda>_.
     case ord of
       Decided \<Rightarrow> activate_generation (n_debug_id env) repo (cg_id c) at
     | Upstream \<Rightarrow> activate_following repo (cg_id c) at)))"

definition clear_projection :: "string \<Rightarrow> ('m rdb, unit) stmt" where
  "clear_projection repo =
     seq (query (all_generations repo)) (\<lambda>gs. each (\<lambda>g. purge_generation repo (gn_id g)) gs)"

definition accept_new ::
  "replica_operation \<Rightarrow> string \<Rightarrow> string option \<Rightarrow> (string \<times> string) option \<Rightarrow> string \<Rightarrow> new_operation"
where
  "accept_new op key repository payload at = \<lparr>no_id = o_id op, no_kind = o_kind op, no_key = key,
     no_op = o_op op, no_payload = payload, no_schema = o_schema op, no_repository = repository,
     no_origin = FromPeer, no_at = at\<rparr>"

definition stale_plan :: string where
  "stale_plan = ''code generation was planned against a parent this repo has moved past''"

definition write_code ::
  "replica_env \<Rightarrow> string \<Rightarrow> replica_operation \<Rightarrow> string \<Rightarrow> ordered_by \<Rightarrow>
   (code_generation \<times> string \<times> string) option \<Rightarrow> ('m rdb, operation_result) stmt" where
  "write_code env epoch op at ord found =
     (case found of
        None \<Rightarrow>
          seq (clear_projection (o_key op)) (\<lambda>_.
          seq (append_op epoch (accept_new op (o_key op) (Some (o_key op)) None at)) (\<lambda>n.
          accept_answer op epoch n at))
      | Some (c, bytes, digest) \<Rightarrow>
          seq (if ord = Decided
               then seq (pure (generation_row_of env (o_key op) c at)) (\<lambda>g.
                    query (may_activate (o_key op) (gn_parent g) (gn_id g)))
               else done_with True) (\<lambda>fresh.
          if \<not> fresh
          then seq (record_answer (receipt_of op epoch RejectedStale None (o_digest op) (Some stale_plan)) at)
                 (\<lambda>_. done_with (answer op RejectedStale None (Some stale_plan)))
          else seq (activate_accepted env (o_key op) c at ord) (\<lambda>_.
               seq (append_op epoch (accept_new op (o_key op) (Some (o_key op)) (Some (digest, bytes)) at))
                 (\<lambda>n.
               accept_answer op epoch n at))))"

definition apply_code ::
  "replica_env \<Rightarrow> string \<Rightarrow> replica_operation \<Rightarrow> string \<Rightarrow> ordered_by \<Rightarrow>
   ('f, 'm, operation_result) run" where
  "apply_code env epoch op at ord =
     andthen (known (and_then (decode_code env op) (transpose_opt (\<lambda>c.
         and_then (code_canonical env c) (\<lambda>(bytes, digest). Inr (c, bytes, digest)))))) (\<lambda>found.
     in_transaction env (write_code env epoch op at ord found))"

section \<open>Materializing a document revision (\<open>document_accept.rs\<close>)\<close>

definition decode_document :: "replica_env \<Rightarrow> replica_operation \<Rightarrow> error + document_revision option" where
  "decode_document env op =
     (if o_op op = Tombstone then Inr None
      else and_then (ok_or (o_payload op) (BadRequest ''a document revision upsert carries a payload''))
        (\<lambda>v.
      and_then (write_text env ''document revision payload'' v) (\<lambda>bytes.
      and_then (decode_as env ''document revision payload v1'' document_of_json bytes) (\<lambda>r.
      Inr (Some r)))))"

definition write_document ::
  "replica_env \<Rightarrow> string \<Rightarrow> replica_operation \<Rightarrow> string \<Rightarrow> document_revision option \<Rightarrow>
   ('m rdb, operation_result) stmt" where
  "write_document env epoch op at found =
     (case found of
        None \<Rightarrow>
          (let repo = (case o_repository op of None \<Rightarrow> [] | Some r \<Rightarrow> r)
           in seq (purge_document repo (o_key op)) (\<lambda>_.
              seq (append_op epoch (accept_new op (o_key op) (Some repo) None at)) (\<lambda>n.
              accept_answer op epoch n at)))
      | Some r \<Rightarrow>
          seq (pure (document_canonical env r)) (\<lambda>(bytes, digest).
          seq (replace_revision r at) (\<lambda>_.
          seq (append_op epoch (accept_new op (o_key op) (Some (dr_repo r)) (Some (digest, bytes)) at))
            (\<lambda>n.
          accept_answer op epoch n at))))"

definition apply_document ::
  "replica_env \<Rightarrow> string \<Rightarrow> replica_operation \<Rightarrow> string \<Rightarrow> ('f, 'm, operation_result) run" where
  "apply_document env epoch op at =
     andthen (known (decode_document env op)) (\<lambda>found.
     in_transaction env (write_document env epoch op at found))"

section \<open>Materializing an event (\<open>event_accept.rs\<close>)\<close>

fun judged :: "feedback_target \<Rightarrow> string \<times> string" where
  "judged (TargetMemory i) = (i, ''memory'')"
| "judged (TargetCode repo path symbol _) = (repo @ ''//'' @ path @ ''#'' @ symbol, ''code'')"

fun target_repository :: "feedback_target \<Rightarrow> string option" where
  "target_repository (TargetCode repo _ _ _) = Some repo"
| "target_repository (TargetMemory _) = None"

definition verdict_of :: "feedback_event \<Rightarrow> verdict_row" where
  "verdict_of e = \<lparr>vd_id = 0, vd_query = fe_query e, vd_memory = fst (judged (fe_target e)),
     vd_verdict = fe_verdict e, vd_at = fe_at e, vd_target_kind = snd (judged (fe_target e)),
     vd_provenance = fe_provenance e, vd_actor = fe_actor e, vd_device = Some (fe_device e),
     vd_event = Some (fe_id e), vd_surface = fe_surface e\<rparr>"

definition count_target :: "feedback_event \<Rightarrow> ('m rdb, unit) stmt" where
  "count_target e =
     (case fe_target e of
        TargetMemory i \<Rightarrow> count_memory i (fe_verdict e = ''used'') (fe_at e)
      | TargetCode repo path symbol version \<Rightarrow>
          (\<lambda>d. count_symbol (local_label d repo, path, symbol) (fe_verdict e = ''used'') (fe_at e) d))"

definition materialize_verdict :: "feedback_event \<Rightarrow> ('m rdb, unit) stmt" where
  "materialize_verdict e = seq (insert_verdict (verdict_of e)) (\<lambda>_. count_target e)"

definition activity_row_of :: "activity_event \<Rightarrow> string \<Rightarrow> string option \<Rightarrow> activity_row" where
  "activity_row_of e repo summary = \<lparr>al_id = 0, al_at = ae_at e, al_command = ae_command e,
     al_source = ae_source e, al_actor = ae_actor e, al_repo = Some repo,
     al_duration = ae_duration e, al_ok = (if ae_ok e then 1 else 0), al_error = ae_error e,
     al_summary = summary, al_device = Some (ae_device e), al_event = Some (ae_id e)\<rparr>"

definition materialize_run :: "replica_env \<Rightarrow> activity_event \<Rightarrow> ('m rdb, unit) stmt" where
  "materialize_run env e =
     (if \<not> n_activity_enabled env then done_with ()
      else seq (pure (if n_activity_summaries env
                      then transpose_opt (write_text env ''activity summary'') (ae_summary e)
                      else Inr None)) (\<lambda>summary d.
           insert_activity (activity_row_of e (local_label d (ae_repo e)) summary) d))"

definition write_event ::
  "replica_env \<Rightarrow> replica_operation \<Rightarrow> string \<Rightarrow> ('m rdb, string option \<times> string) stmt" where
  "write_event env op bytes =
     (if o_kind op = activity_kind
      then seq (pure (decode_as env ''event payload'' activity_of_json bytes)) (\<lambda>e.
           seq (materialize_run env e) (\<lambda>_. done_with (Some (ae_repo e), ae_at e)))
      else seq (pure (decode_as env ''event payload'' feedback_of_json bytes)) (\<lambda>e.
           seq (materialize_verdict e) (\<lambda>_.
           done_with ((case target_repository (fe_target e) of
               None \<Rightarrow> o_repository op | Some r \<Rightarrow> Some r), fe_at e))))"

definition apply_event ::
  "replica_env \<Rightarrow> string \<Rightarrow> replica_operation \<Rightarrow> string \<Rightarrow> ('f, 'm, operation_result) run" where
  "apply_event env epoch op at =
     andthen (known (and_then (ok_or (o_payload op) (BadRequest ''an event upsert must carry a payload''))
         (canonical_bytes env))) (\<lambda>(bytes, digest).
     in_transaction env (
       seq (write_event env op bytes) (\<lambda>(repository, event_at).
       seq (append_op epoch \<lparr>no_id = o_id op, no_kind = o_kind op, no_key = o_key op,
              no_op = Upsert, no_payload = Some (digest, bytes), no_schema = o_schema op,
              no_repository = repository, no_origin = FromPeer, no_at = event_at\<rparr>) (\<lambda>n.
       accept_answer op epoch n at))))"

section \<open>One operation, an envelope, a staged upload\<close>

definition materialize ::
  "replica_env \<Rightarrow> ('f, 'm) memory_store \<Rightarrow> string \<Rightarrow> replica_operation \<Rightarrow> ordered_by \<Rightarrow>
   ('f, 'm, operation_result) run" where
  "materialize env store epoch op ord =
     andthen (iso_now env) (\<lambda>at.
     if o_kind op = code_kind then apply_code env epoch op at ord
     else if o_kind op = document_kind then apply_document env epoch op at
     else if is_event_kind (o_kind op) then apply_event env epoch op at
     else apply_memory env store epoch op at)"

definition apply_one ::
  "replica_env \<Rightarrow> ('f, 'm) memory_store \<Rightarrow> string \<Rightarrow> replica_operation \<Rightarrow>
   ('f, 'm, operation_result) run" where
  "apply_one env store epoch op =
     andthen (reads (\<lambda>d. Inr (replayed env d op))) (\<lambda>answered.
     case answered of
       Some r \<Rightarrow> finish r
     | None \<Rightarrow>
         andthen (reads (\<lambda>d. Inr (decide env d op))) (\<lambda>decision.
         if decision = Accepted then materialize env store epoch op Decided
         else andthen (reads (\<lambda>d. Inr (if decision = Duplicate
                 then map_option rw_sequence (find_revision d (o_kind op) (o_key op)) else None))) (\<lambda>n.
              record_refusal env epoch op decision (disposition_reason decision) n)))"

fun apply_all ::
  "replica_env \<Rightarrow> ('f, 'm) memory_store \<Rightarrow> string \<Rightarrow> replica_operation list \<Rightarrow>
   ('f, 'm, operation_result list) run" where
  "apply_all env store epoch [] = finish []"
| "apply_all env store epoch (op # ops) =
     andthen (apply_one env store epoch op) (\<lambda>r.
     andthen (apply_all env store epoch ops) (\<lambda>rs. finish (r # rs)))"

definition import_run ::
  "replica_env \<Rightarrow> ('f, 'm) memory_store \<Rightarrow> import_request \<Rightarrow> ('f, 'm, envelope_response) run" where
  "import_run env store request =
     andthen (known (check_envelope request)) (\<lambda>_.
     andthen (reads stream_epoch) (\<lambda>epoch.
     andthen (known (check_cursor (im_cursor request) epoch)) (\<lambda>_.
     andthen (apply_all env store epoch (im_operations request)) (\<lambda>results.
     andthen (reads (\<lambda>d. Inr (feed_head d))) (\<lambda>head.
     finish \<lparr>ir_protocol = protocol, ir_epoch = epoch, ir_head = head, ir_results = results\<rparr>)))))"

record stage_request =
  sr_protocol :: string
  sr_staging :: string
  sr_index :: int
  sr_count :: int
  sr_bytes :: string

record stage_response =
  sq_staging :: string
  sq_received :: nat
  sq_declared :: int
  sq_complete :: bool

definition stage :: "replica_env \<Rightarrow> stage_request \<Rightarrow> ('f, 'm, stage_response) run" where
  "stage env r =
     (if sr_protocol r \<noteq> protocol then raise (wrong_protocol (sr_protocol r))
      else if sr_count r < 1 \<or> sr_index r < 0 \<or> sr_count r \<le> sr_index r
      then raise (BadRequest (''part '' @ show_int (sr_index r) @ '' is outside a '' @
             show_int (sr_count r) @ ''-part upload''))
      else if max_envelope_bytes < length (sr_bytes r)
      then raise (BadRequest (''part is '' @ show_nat (length (sr_bytes r)) @ '' bytes, over the '' @
             show_nat max_envelope_bytes @ '' cap''))
      else andthen (iso_now env) (\<lambda>at.
           andthen (autocommit (put_part (sr_staging r) (sr_index r) (sr_count r) (sr_bytes r) at)) (\<lambda>state.
           finish \<lparr>sq_staging = sr_staging r, sq_received = ss_received state,
                   sq_declared = ss_declared state, sq_complete = staging_complete state\<rparr>)))"

record activate_request =
  aq_protocol :: string
  aq_staging :: string
  aq_operation :: replica_operation
  aq_cursor :: "cursor_ref option"

definition with_payload :: "replica_env \<Rightarrow> replica_operation \<Rightarrow> string \<Rightarrow> error + replica_operation" where
  "with_payload env op bytes =
     (case n_from_str env bytes of
        Inl e \<Rightarrow> Inl (BadRequest (''assembled payload is not json: '' @ e))
      | Inr v \<Rightarrow>
          and_then (canonical_bytes env v) (\<lambda>(_, digest).
          Inr (op\<lparr>o_payload := Some v,
                  o_digest := (case o_digest op of None \<Rightarrow> Some digest | Some g \<Rightarrow> Some g)\<rparr>)))"

definition activate_staged ::
  "replica_env \<Rightarrow> ('f, 'm) memory_store \<Rightarrow> activate_request \<Rightarrow> ('f, 'm, operation_result) run" where
  "activate_staged env store r =
     (if aq_protocol r \<noteq> protocol then raise (wrong_protocol (aq_protocol r))
      else if o_payload (aq_operation r) \<noteq> None
      then raise (BadRequest ''an activated operation carries its payload in the staged parts'')
      else andthen (reads stream_epoch) (\<lambda>epoch.
           andthen (known (check_cursor (aq_cursor r) epoch)) (\<lambda>_.
           andthen (reads (\<lambda>d. ok_or (assemble d (aq_staging r))
             (Conflict (''staging_incomplete: upload '' @ aq_staging r @ '' is missing a part''))))
             (\<lambda>bytes.
           andthen (known (with_payload env (aq_operation r) bytes)) (\<lambda>op.
           andthen (apply_one env store epoch op) (\<lambda>result.
           andthen (autocommit (discard_staged (aq_staging r))) (\<lambda>_.
           finish result)))))))"

end
