(* ===== verification/Replica_Invariants.thy ===== *)
theory Replica_Invariants
  imports Replica_Accept "HOL-Library.Sublist"
begin

text \<open>
  What the statements of the replica journal keep. \<open>journal_ok\<close> is the invariant of the tables:
  the feed's positions ascend, an operation is journalled once, the revisions are exactly the
  fold of the feed, every digest the feed names has its payload row, and a payload's digest is
  the hash of its bytes. \<open>extends\<close> is how they may change: the feed and the answers only grow
  at their end, a payload only loses its bytes, and an erased one stays erased. The statements
  that materialize an operation touch neither (\<open>same_journal\<close>).
\<close>

section \<open>What an append writes\<close>

definition store_new :: "new_operation \<Rightarrow> payload_row list \<Rightarrow> payload_row list" where
  "store_new new ps =
     (case no_payload new of
        None \<Rightarrow> ps
      | Some (digest, bytes) \<Rightarrow>
          if digest \<in> pl_digest ` set ps then ps
          else ps @ [\<lparr>pl_digest = digest, pl_kind = no_kind new, pl_schema = no_schema new,
              pl_bytes = Some bytes, pl_len = int (length bytes), pl_created = no_at new,
              pl_redacted_at = None, pl_redaction = None\<rparr>])"

definition revise :: "new_operation \<Rightarrow> int \<Rightarrow> revision_row list \<Rightarrow> revision_row list" where
  "revise new n rs =
     (let hit = is_revision (no_kind new) (no_key new)
      in if \<exists>r \<in> set rs. hit r then map (\<lambda>r. if hit r then new_revision new n else r) rs
         else rs @ [new_revision new n])"

definition appended :: "string \<Rightarrow> new_operation \<Rightarrow> 'm rdb \<Rightarrow> 'm rdb" where
  "appended epoch new d =
     (let n = rd_feed_counter d + 1
      in d\<lparr>rd_payloads := store_new new (rd_payloads d),
           rd_feed := rd_feed d @ [new_feed_row epoch new n], rd_feed_counter := n,
           rd_revisions := revise new n (rd_revisions d)\<rparr>)"

definition payload_storable :: "new_operation \<Rightarrow> bool" where
  "payload_storable new \<longleftrightarrow> (\<forall>digest bytes. no_payload new = Some (digest, bytes) \<longrightarrow> int (length bytes) < 2 ^ 63)"

lemma append_op_eq:
  "append_op epoch new d =
     (if \<not> payload_storable new then Inl (Other ''payload larger than i64 bytes'')
      else if no_id new \<in> fd_operation ` set (rd_feed d)
      then Inl (unique_failed ext_unique ''replica_feed.operation_id'')
      else Inr (rd_feed_counter d + 1, appended epoch new d))"
proof (cases "no_payload new")
  case None
  then show ?thesis
    by (simp add: append_op_def append_feed_def update_revision_def seq_def done_with_def
        guarded_def change_def payload_storable_def appended_def store_new_def revise_def Let_def)
next
  case (Some p)
  then show ?thesis
    by (cases p) (simp add: append_op_def store_payload_def append_feed_def update_revision_def
        seq_def done_with_def guarded_def change_def payload_storable_def appended_def
        store_new_def revise_def Let_def)
qed

lemma append_op_iff [stmt_simps]:
  "append_op epoch new d = Inr r \<longleftrightarrow>
     no_id new \<notin> fd_operation ` set (rd_feed d) \<and> payload_storable new \<and>
     r = (rd_feed_counter d + 1, appended epoch new d)"
  by (auto simp: append_op_eq)

section \<open>The invariant\<close>

text \<open>The last feed row of an entity, and the revision it makes.\<close>

definition latest :: "feed_row list \<Rightarrow> string \<Rightarrow> string \<Rightarrow> feed_row option" where
  "latest rows kind key = find (\<lambda>r. fd_kind r = kind \<and> fd_key r = key) (rev rows)"

definition revision_from :: "feed_row \<Rightarrow> revision_row" where
  "revision_from r = \<lparr>
     rv_kind = fd_kind r, rv_key = fd_key r, rv_sequence = fd_sequence r, rv_digest = fd_digest r,
     rv_deleted = (if fd_op r = op_str Tombstone then 1 else 0),
     rv_deleted_sequence = (if fd_op r = op_str Tombstone then Some (fd_sequence r) else None),
     rv_updated = fd_at r\<rparr>"

definition feed_ordered :: "'m rdb \<Rightarrow> bool" where
  "feed_ordered d \<longleftrightarrow> sorted_wrt (<) (map fd_sequence (rd_feed d)) \<and> 0 \<le> rd_feed_counter d \<and>
     (\<forall>r \<in> set (rd_feed d). 0 < fd_sequence r \<and> fd_sequence r \<le> rd_feed_counter d)"

definition feed_literal :: "feed_row \<Rightarrow> bool" where
  "feed_literal r \<longleftrightarrow> fd_op r \<in> range op_str \<and> fd_origin r \<in> range origin_str"

definition revisions_follow :: "'m rdb \<Rightarrow> bool" where
  "revisions_follow d \<longleftrightarrow>
     (\<forall>kind key. find (is_revision kind key) (rd_revisions d) =
        map_option revision_from (latest (rd_feed d) kind key))"

definition payload_sound :: "(string \<Rightarrow> string) \<Rightarrow> payload_row \<Rightarrow> bool" where
  "payload_sound sha256_hex p \<longleftrightarrow>
     (case pl_bytes p of
        Some bytes \<Rightarrow> pl_digest p = sha256_hex bytes \<and> pl_redacted_at p = None \<and> pl_redaction p = None
      | None \<Rightarrow> pl_redacted_at p \<noteq> None \<and>
          (pl_redaction p = Some (redaction_str Erased) \<or> pl_redaction p = Some (redaction_str Expired)))"

definition payloads_held :: "'m rdb \<Rightarrow> bool" where
  "payloads_held d \<longleftrightarrow> distinct (map pl_digest (rd_payloads d)) \<and>
     (\<forall>r \<in> set (rd_feed d). \<forall>g. fd_digest r = Some g \<longrightarrow> g \<in> pl_digest ` set (rd_payloads d))"

definition journal_ok :: "(string \<Rightarrow> string) \<Rightarrow> 'm rdb \<Rightarrow> bool" where
  "journal_ok sha256_hex d \<longleftrightarrow>
     feed_ordered d \<and> distinct (map fd_operation (rd_feed d)) \<and>
     (\<forall>r \<in> set (rd_feed d). feed_literal r) \<and> revisions_follow d \<and> payloads_held d \<and>
     (\<forall>p \<in> set (rd_payloads d). payload_sound sha256_hex p) \<and>
     distinct (map an_operation (rd_answers d)) \<and> distinct (map ob_operation (rd_outbox d))"

text \<open>The receipts agree with the feed: an accepted answer names the position at which its
  operation, sent by a peer, is journalled.\<close>

definition receipts_agree :: "'m rdb \<Rightarrow> bool" where
  "receipts_agree d \<longleftrightarrow>
     (\<forall>a \<in> set (rd_answers d). an_disposition a = disposition_str Accepted \<longrightarrow>
        (\<exists>r \<in> set (rd_feed d). fd_operation r = an_operation a \<and> fd_origin r = origin_str FromPeer \<and>
           an_sequence a = Some (fd_sequence r)))"

section \<open>How the journal grows\<close>

definition ages :: "payload_row \<Rightarrow> payload_row \<Rightarrow> bool" where
  "ages p p' \<longleftrightarrow> pl_digest p' = pl_digest p \<and> pl_kind p' = pl_kind p \<and>
     (pl_bytes p' = pl_bytes p \<or> pl_bytes p' = None) \<and>
     (payload_redaction p = Some Erased \<longrightarrow> payload_redaction p' = Some Erased) \<and>
     (pl_redacted_at p \<noteq> None \<longrightarrow> pl_redacted_at p' = pl_redacted_at p)"

definition extends :: "'m rdb \<Rightarrow> 'm rdb \<Rightarrow> bool" where
  "extends d d' \<longleftrightarrow> prefix (rd_feed d) (rd_feed d') \<and> prefix (rd_answers d) (rd_answers d') \<and>
     rd_feed_counter d \<le> rd_feed_counter d' \<and>
     (\<forall>p \<in> set (rd_payloads d). \<exists>p' \<in> set (rd_payloads d'). ages p p')"

definition keeps :: "(string \<Rightarrow> string) \<Rightarrow> 'm rdb \<Rightarrow> 'm rdb \<Rightarrow> bool" where
  "keeps sha256_hex d d' \<longleftrightarrow> (journal_ok sha256_hex d \<longrightarrow> journal_ok sha256_hex d' \<and> extends d d')"

lemma ages_refl [simp]: "ages p p"
  by (simp add: ages_def)

lemma ages_trans: "ages p q \<Longrightarrow> ages q r \<Longrightarrow> ages p r"
  by (auto simp: ages_def)

lemma extends_refl [simp]: "extends d d"
  by (auto simp: extends_def intro: ages_refl)

lemma extends_trans: "extends d e \<Longrightarrow> extends e f \<Longrightarrow> extends d f"
  unfolding extends_def by (meson ages_trans order_trans prefix_order.trans)

lemma keeps_reflp [simp]: "reflp (keeps sha)"
  by (auto simp: reflp_def keeps_def)

lemma keeps_transp [simp]: "transp (keeps sha)"
  by (auto simp: transp_def keeps_def intro: extends_trans)

section \<open>Each statement of the journal\<close>

lemma latest_snoc [simp]:
  "latest (rows @ [r]) kind key =
     (if fd_kind r = kind \<and> fd_key r = key then Some r else latest rows kind key)"
  by (simp add: latest_def)

lemma latest_None: "latest rows kind key = None \<longleftrightarrow> (\<forall>r \<in> set rows. \<not> (fd_kind r = kind \<and> fd_key r = key))"
  by (auto simp: latest_def find_None_iff)

lemma latest_SomeD:
  "latest rows kind key = Some r \<Longrightarrow> r \<in> set rows \<and> fd_kind r = kind \<and> fd_key r = key"
  by (auto simp: latest_def find_Some_iff in_set_conv_nth) (metis length_rev nth_mem set_rev in_set_conv_nth)

lemma op_str_inj [simp]: "op_str a = op_str b \<longleftrightarrow> a = b"
  by (cases a; cases b) simp_all

lemma origin_str_inj [simp]: "origin_str a = origin_str b \<longleftrightarrow> a = b"
  by (cases a; cases b) simp_all

lemma find_upsert_same:
  "\<exists>r \<in> set rs. P r \<Longrightarrow> P x \<Longrightarrow> find P (map (\<lambda>r. if P r then x else r) rs) = Some x"
  by (induction rs) auto

lemma find_upsert_other:
  "(\<And>r. P r \<Longrightarrow> \<not> Q r) \<Longrightarrow> \<not> Q x \<Longrightarrow> find Q (map (\<lambda>r. if P r then x else r) rs) = find Q rs"
  by (induction rs) auto

lemma find_snoc_other: "\<not> Q x \<Longrightarrow> find Q (rs @ [x]) = find Q rs"
  by (induction rs) auto

lemma revision_of_new_row:
  "revision_from (new_feed_row epoch new n) = new_revision new n"
  using op_str_inj [of "no_op new" Tombstone]
  by (simp add: revision_from_def new_feed_row_def new_revision_def del: op_str_inj op_str.simps)

lemma find_revise:
  "find (is_revision kind key) (revise new n rs) =
     (if no_kind new = kind \<and> no_key new = key then Some (new_revision new n)
      else find (is_revision kind key) rs)"
proof (cases "no_kind new = kind \<and> no_key new = key")
  case True
  then have "is_revision kind key (new_revision new n)" by (simp add: is_revision_def new_revision_def)
  with True show ?thesis
    by (cases "\<exists>r \<in> set rs. is_revision kind key r")
      (auto simp: revise_def Let_def find_upsert_same find_append_new)
next
  case False
  then have other: "\<not> is_revision kind key (new_revision new n)"
    "is_revision (no_kind new) (no_key new) r \<Longrightarrow> \<not> is_revision kind key r" for r
    by (auto simp: is_revision_def new_revision_def)
  show ?thesis unfolding revise_def Let_def
    using False other by (simp add: find_upsert_other find_snoc_other del: de_Morgan_conj)
qed

definition content_addressed :: "(string \<Rightarrow> string) \<Rightarrow> new_operation \<Rightarrow> bool" where
  "content_addressed sha256_hex new \<longleftrightarrow>
     (\<forall>digest bytes. no_payload new = Some (digest, bytes) \<longrightarrow> digest = sha256_hex bytes)"

lemma digests_store_new:
  "pl_digest ` set (store_new new ps) = pl_digest ` set ps \<union> fst ` set_option (no_payload new)"
  by (auto simp: store_new_def split: option.splits)

lemma set_store_new: "set ps \<subseteq> set (store_new new ps)"
  by (auto simp: store_new_def split: option.splits)

lemma append_keeps:
  assumes "content_addressed sha new" "no_id new \<notin> fd_operation ` set (rd_feed d)"
  shows "keeps sha d (appended epoch new d)"
proof -
  have "extends d (appended epoch new d)"
    using set_store_new [of "rd_payloads d" new]
    by (auto simp: extends_def appended_def Let_def intro: ages_refl)
  moreover have "journal_ok sha (appended epoch new d)" if ok: "journal_ok sha d"
  proof -
    have "feed_ordered (appended epoch new d)"
      using ok by (fastforce simp: journal_ok_def feed_ordered_def appended_def Let_def
          sorted_wrt_append new_feed_row_def)
    moreover have "revisions_follow (appended epoch new d)"
      using ok by (auto simp: journal_ok_def revisions_follow_def appended_def Let_def find_revise
          revision_of_new_row) (auto simp: new_feed_row_def)
    moreover have "payloads_held (appended epoch new d)"
      using ok digests_store_new [of new "rd_payloads d"]
      by (auto simp: journal_ok_def payloads_held_def appended_def Let_def new_feed_row_def
          store_new_def split: option.splits)
    moreover have "\<forall>p \<in> set (rd_payloads (appended epoch new d)). payload_sound sha p"
      using ok assms(1)
      by (auto simp: journal_ok_def appended_def Let_def store_new_def payload_sound_def
          content_addressed_def split: option.splits)
    ultimately show ?thesis
      using ok assms(2) by (auto simp: journal_ok_def appended_def Let_def new_feed_row_def
          feed_literal_def)
  qed
  ultimately show ?thesis by (simp add: keeps_def)
qed

lemma append_op_keeps: "content_addressed sha new \<Longrightarrow> moves (keeps sha) (append_op epoch new)"
  by (auto simp: moves_def stmt_simps intro: append_keeps)

lemma record_answer_keeps: "moves (keeps sha) (record_answer r at)"
  unfolding record_answer_def
  by (auto simp: moves_def stmt_simps keeps_def journal_ok_def extends_def feed_ordered_def
      revisions_follow_def payloads_held_def intro: ages_refl)

lemma enqueue_keeps: "moves (keeps sha) (enqueue new observed)"
  unfolding enqueue_def
  by (auto simp: moves_def stmt_simps keeps_def journal_ok_def extends_def feed_ordered_def
      revisions_follow_def payloads_held_def intro: ages_refl)

text \<open>Redaction takes bytes away and nothing else; a barrier adds a row that never had any.\<close>

definition blanked :: "(payload_row \<Rightarrow> bool) \<Rightarrow> redaction \<Rightarrow> string \<Rightarrow> 'm rdb \<Rightarrow> 'm rdb" where
  "blanked hit why at d = d\<lparr>rd_payloads :=
     map (\<lambda>p. if hit p then redacted_row why at p else p) (rd_payloads d)\<rparr>"

lemma redacted_row_fields [simp]:
  "pl_digest (redacted_row why at p) = pl_digest p" "pl_kind (redacted_row why at p) = pl_kind p"
  "pl_bytes (redacted_row why at p) = None"
  "payload_redaction (redacted_row why at p) = Some why"
  by (auto simp: redacted_row_def payload_redaction_def split: option.splits)

lemma redacted_row_sound: "payload_sound sha (redacted_row why at p)"
  by (cases why) (auto simp: payload_sound_def redacted_row_def split: option.splits)

lemma redacted_row_ages: "why = Erased \<or> pl_redacted_at p = None \<Longrightarrow> ages p (redacted_row why at p)"
  by (auto simp: ages_def payload_redaction_def redaction_of_columns_def redacted_row_def
      split: option.splits)

lemma payloads_keep:
  assumes "journal_ok sha d" "distinct (map pl_digest ps)" "\<forall>p \<in> set ps. payload_sound sha p"
    "\<forall>p \<in> set (rd_payloads d). \<exists>p' \<in> set ps. ages p p'"
  shows "journal_ok sha (d\<lparr>rd_payloads := ps\<rparr>) \<and> extends d (d\<lparr>rd_payloads := ps\<rparr>)"
proof -
  have "pl_digest ` set (rd_payloads d) \<subseteq> pl_digest ` set ps"
  proof
    fix g assume "g \<in> pl_digest ` set (rd_payloads d)"
    then obtain p where "p \<in> set (rd_payloads d)" "g = pl_digest p" by blast
    with assms(4) obtain p' where "p' \<in> set ps" "ages p p'" by blast
    then show "g \<in> pl_digest ` set ps" using \<open>g = pl_digest p\<close> by (intro image_eqI) (simp_all add: ages_def)
  qed
  then have "payloads_held (d\<lparr>rd_payloads := ps\<rparr>)"
    using assms(1,2) unfolding journal_ok_def payloads_held_def by (simp, blast)
  with assms show ?thesis
    by (simp add: journal_ok_def extends_def feed_ordered_def revisions_follow_def)
qed

lemma blanked_keeps:
  assumes "\<And>p. hit p \<Longrightarrow> why = Erased \<or> pl_redacted_at p = None"
  shows "keeps sha d (blanked hit why at d)"
  unfolding keeps_def blanked_def
proof (intro impI payloads_keep)
  let ?f = "\<lambda>p. if hit p then redacted_row why at p else p"
  assume ok: "journal_ok sha d"
  have "map pl_digest (map ?f (rd_payloads d)) = map pl_digest (rd_payloads d)" by simp
  then show "distinct (map pl_digest (map ?f (rd_payloads d)))"
    using ok unfolding journal_ok_def payloads_held_def by metis
  show "\<forall>p \<in> set (map ?f (rd_payloads d)). payload_sound sha p"
    using ok by (auto simp: journal_ok_def redacted_row_sound)
  have "ages p (?f p)" for p using assms redacted_row_ages by simp
  then show "\<forall>p \<in> set (rd_payloads d). \<exists>p' \<in> set (map ?f (rd_payloads d)). ages p p'"
    unfolding set_map by blast
qed

lemma redact_eq:
  "redact json_text_at reach at d =
     Inr (map pl_digest (filter (\<lambda>p. redactable d reach p \<and> selected json_text_at d reach p) (rd_payloads d)),
       blanked (\<lambda>p. redactable d reach p \<and> selected json_text_at d reach p) (reach_redaction reach) at d)"
  by (simp add: redact_def blanked_def Let_def)

lemma reach_redaction_cases: "reach_redaction reach = Expired \<or> reach_redaction reach = Erased"
  by (cases reach) simp_all

lemma redact_keeps: "moves (keeps sha) (redact json_text_at reach at)"
  using reach_redaction_cases [of reach]
  by (auto simp: moves_def redact_eq redactable_def intro!: blanked_keeps split: if_splits)

lemma redact_payload_eq:
  "redact_payload digest at d =
     Inr (length (filter (\<lambda>p. pl_digest p = digest \<and> pl_redacted_at p = None) (rd_payloads d)),
       blanked (\<lambda>p. pl_digest p = digest \<and> pl_redacted_at p = None) Erased at d)"
  by (simp add: redact_payload_def blanked_def redacted_row_def Let_def)

lemma redact_payload_keeps: "moves (keeps sha) (redact_payload digest at)"
  by (auto simp: moves_def redact_payload_eq intro: blanked_keeps)

definition barred :: "string list \<Rightarrow> string \<Rightarrow> string \<Rightarrow> ('m rdb, nat) stmt" where
  "barred digests kind at d =
     (let fresh = filter (\<lambda>g. g \<notin> pl_digest ` set (rd_payloads d)) (remdups digests)
      in Inr (length fresh, d\<lparr>rd_payloads := rd_payloads d @ map (barrier_row kind at) fresh\<rparr>))"

lemma barred_keeps: "moves (keeps sha) (barred digests kind at)"
proof (rule movesI)
  fix d :: "'a rdb" and n d'
  assume "barred digests kind at d = Inr (n, d')"
  moreover define fresh where
    "fresh = filter (\<lambda>g. g \<notin> pl_digest ` set (rd_payloads d)) (remdups digests)"
  ultimately have d': "d' = d\<lparr>rd_payloads := rd_payloads d @ map (barrier_row kind at) fresh\<rparr>"
    by (simp add: barred_def Let_def)
  have fresh: "distinct fresh" "set fresh \<inter> pl_digest ` set (rd_payloads d) = {}"
    by (auto simp: fresh_def)
  have digests: "map pl_digest (map (barrier_row kind at) fresh) = fresh"
    by (induction fresh) (simp_all add: barrier_row_def)
  show "keeps sha d d'" unfolding keeps_def d'
  proof (intro impI payloads_keep)
    assume ok: "journal_ok sha d"
    have "pl_digest ` set (map (barrier_row kind at) fresh) = set fresh"
      using digests by (metis list.set_map)
    then show "distinct (map pl_digest (rd_payloads d @ map (barrier_row kind at) fresh))"
      using ok fresh digests by (simp add: journal_ok_def payloads_held_def Int_commute)
    show "\<forall>p \<in> set (rd_payloads d @ map (barrier_row kind at) fresh). payload_sound sha p"
      using ok by (auto simp: journal_ok_def payload_sound_def barrier_row_def)
    show "\<forall>p \<in> set (rd_payloads d).
        \<exists>p' \<in> set (rd_payloads d @ map (barrier_row kind at) fresh). ages p p'"
      by (auto intro: ages_refl)
  qed
qed

lemma bar_eq:
  "bar json_text_at digests kind at =
     (if digests = [] then done_with 0
      else seq (barred digests kind at) (\<lambda>n. seq (redact json_text_at (Listed digests) at)
        (\<lambda>gone. done_with (n + length gone))))"
  unfolding bar_def barred_def [abs_def] ..

lemma bar_keeps: "moves (keeps sha) (bar json_text_at digests kind at)"
  unfolding bar_eq by (simp add: moves_seq barred_keeps redact_keeps)

section \<open>Materializing leaves the journal alone\<close>

definition same_journal :: "'m rdb \<Rightarrow> 'm rdb \<Rightarrow> bool" where
  "same_journal d d' \<longleftrightarrow>
     rd_stream d' = rd_stream d \<and> rd_payloads d' = rd_payloads d \<and> rd_feed d' = rd_feed d \<and>
     rd_feed_counter d' = rd_feed_counter d \<and> rd_revisions d' = rd_revisions d \<and>
     rd_answers d' = rd_answers d \<and> rd_outbox d' = rd_outbox d \<and> rd_exchange d' = rd_exchange d \<and>
     rd_bindings d' = rd_bindings d \<and> rd_cursors d' = rd_cursors d \<and> rd_holds d' = rd_holds d"

lemma same_journal_order [simp]: "reflp same_journal" "transp same_journal"
  by (auto simp: reflp_def transp_def same_journal_def)

lemma same_journal_keeps: "same_journal d d' \<Longrightarrow> keeps sha d d'"
  by (auto simp: same_journal_def keeps_def journal_ok_def extends_def feed_ordered_def
      revisions_follow_def payloads_held_def intro: ages_refl)

named_theorems frame \<open>statements that leave the journal alone\<close>

lemmas moves_rules = moves_seq moves_each moves_guarded moves_change

lemma document_frame [frame]:
  "moves same_journal (purge_document repo i)" "moves same_journal (insert_document r at)"
  "moves same_journal (write_passage r c)" "moves same_journal (write_link r l)"
  unfolding purge_document_def insert_document_def write_passage_def write_link_def
  by (intro moves_rules; simp add: same_journal_def)+

lemma replace_revision_frame [frame]: "moves same_journal (replace_revision r at)"
  unfolding replace_revision_def by (intro moves_rules frame) simp_all

lemma generation_frame [frame]:
  "moves same_journal (record_generation g)" "moves same_journal (set_generation_state repo i state at)"
  "moves same_journal (purge_generation repo i)" "moves same_journal (insert_code_file repo i f)"
  "moves same_journal (insert_code_symbol repo i s)" "moves same_journal (insert_code_edge repo i e)"
  unfolding record_generation_def set_generation_state_def purge_generation_def insert_code_file_def
    insert_code_symbol_def insert_code_edge_def
  by (intro moves_rules; simp add: same_journal_def)+

lemma activate_frame [frame]:
  "moves same_journal (activate_following repo i at)"
  "moves same_journal (activate_generation debug_id repo i at)"
  "moves same_journal (replace_generation repo c)" "moves same_journal (clear_projection repo)"
proof -
  show following: "moves same_journal (activate_following repo i at)"
    unfolding activate_following_def
    by (intro moves_rules) (auto split: option.splits intro!: moves_rules frame)
  show "moves same_journal (activate_generation debug_id repo i at)"
    unfolding activate_generation_def by (intro moves_rules) (auto intro: following)
  show "moves same_journal (replace_generation repo c)"
    unfolding replace_generation_def by (intro moves_rules frame) simp_all
  show "moves same_journal (clear_projection repo)"
    unfolding clear_projection_def by (intro moves_rules frame) simp_all
qed

lemma event_frame [frame]:
  "moves same_journal (count_memory k used at)" "moves same_journal (count_symbol s used at)"
  "moves same_journal (insert_verdict v)" "moves same_journal (insert_activity a)"
  unfolding count_memory_def count_symbol_def insert_verdict_def insert_activity_def
  by (intro moves_rules; simp add: same_journal_def Let_def)+

lemma count_target_frame [frame]: "moves same_journal (count_target e)"
proof (cases "fe_target e")
  case (TargetMemory i)
  then show ?thesis by (simp add: count_target_def frame)
next
  case (TargetCode repo path symbol version)
  then show ?thesis
    by (auto simp: count_target_def intro!: movesI dest: movesD [OF event_frame(2)])
qed

lemma materialize_frame [frame]:
  "moves same_journal (materialize_verdict e)" "moves same_journal (materialize_run env a)"
proof -
  show "moves same_journal (materialize_verdict e)"
    unfolding materialize_verdict_def by (intro moves_rules frame) simp_all
  have "moves same_journal (\<lambda>d. insert_activity (activity_row_of a (local_label d (ae_repo a)) s) d)" for s
    by (rule movesI) (metis event_frame(4) movesD)
  then show "moves same_journal (materialize_run env a)"
    unfolding materialize_run_def by (auto intro!: moves_seq)
qed

lemma write_event_frame [frame]: "moves same_journal (write_event env op bytes)"
  unfolding write_event_def by (auto intro!: moves_rules frame)

lemma activate_accepted_frame [frame]: "moves same_journal (activate_accepted env repo c at ord)"
  unfolding activate_accepted_def by (intro moves_rules frame) (auto split: ordered_by.splits intro: frame)

lemma mirror_frame [frame]:
  "moves same_journal (on_mirror f)" "moves same_journal (append_sync_log op memory hash at origin)"
  by (auto simp: moves_def on_mirror_def append_sync_log_def same_journal_def Let_def res_simps)

lemma frame_keeps: "moves same_journal m \<Longrightarrow> moves (keeps sha) m"
  by (auto simp: moves_def intro: same_journal_keeps)

end
