(* ===== verification/Replica_Outcome.thy ===== *)
theory Replica_Outcome
  imports Replica_Invariants
begin

text \<open>
  What one replicated operation does, whatever its kind: it answers and, with it, in one
  transaction, either journals (the rows it materializes, one feed row, its revision, its
  payload, an accepted answer: \<open>settled\<close>) or writes a refusal and nothing else
  (\<open>refused_as\<close>), or fails and leaves the database as it was (\<open>outcome\<close>). From it: the journal's
  invariant along any envelope, staged upload, local write and redaction, the finality of an
  answer, the erasure and deletion barriers, and the counters of the verdicts.
\<close>

section \<open>What one operation does to the tables\<close>

definition answered :: "receipt \<Rightarrow> string \<Rightarrow> 'm rdb \<Rightarrow> 'm rdb" where
  "answered r at d = d\<lparr>rd_answers := rd_answers d @ [\<lparr>
     an_operation = rp_operation r, an_epoch = rp_epoch r, an_sequence = rp_sequence r,
     an_disposition = rp_disposition r, an_digest = rp_digest r, an_reason = rp_reason r,
     an_at = at\<rparr>]\<rparr>"

definition is_answered :: "'m rdb \<Rightarrow> string \<Rightarrow> bool" where
  "is_answered d i \<longleftrightarrow> i \<in> an_operation ` set (rd_answers d)"

lemma record_answer_iff [stmt_simps]:
  "record_answer r at d = Inr x \<longleftrightarrow> \<not> is_answered d (rp_operation r) \<and> x = ((), answered r at d)"
  by (simp add: record_answer_def is_answered_def answered_def stmt_simps) 

text \<open>A refusal writes its answer and nothing else.\<close>

definition refused_as ::
  "replica_operation \<Rightarrow> disposition \<Rightarrow> int option \<Rightarrow> string option \<Rightarrow> string option \<Rightarrow>
   'm rdb \<Rightarrow> 'm rdb \<Rightarrow> bool" where
  "refused_as op why n digest reason d d' \<longleftrightarrow> \<not> is_answered d (o_id op) \<and>
     (\<exists>epoch at. d' = answered (receipt_of op epoch why n digest reason) at d)"

text \<open>What the memory store promises about ids: a loaded record has the id it was asked for, and
  a saved one the id of its body, as \<open>MemoryStore::load\<close> and \<open>save\<close> document.\<close>

definition store_named :: "replica_env \<Rightarrow> ('f, 'm) memory_store \<Rightarrow> bool" where
  "store_named env store \<longleftrightarrow>
     (\<forall>i fs r. ms_load store i fs = Inr r \<longrightarrow> fmt_id (mr_front r) = i) \<and>
     (\<forall>p fs r fs'. ms_save store p fs = (Inr r, fs') \<longrightarrow>
        fmt_id (mr_front r) = memory_id (n_sha256 env) (sv_body p))"

text \<open>What is journalled for an operation: its kind, its entity and its verb, the payload
  addressed by its content, absent exactly for a deletion.\<close>

definition carries :: "replica_env \<Rightarrow> ('f, 'm) memory_store \<Rightarrow> replica_operation \<Rightarrow> new_operation \<Rightarrow> bool" where
  "carries env store op new \<longleftrightarrow>
     no_id new = o_id op \<and> no_kind new = o_kind op \<and> no_op new = o_op op \<and>
     no_schema new = o_schema op \<and> no_origin new = FromPeer \<and>
     (no_payload new = None \<longleftrightarrow> o_op op = Tombstone) \<and> content_addressed (n_sha256 env) new \<and>
     ((o_kind op = memory_kind \<longrightarrow> store_named env store) \<longrightarrow> no_key new = o_key op)"

text \<open>An acceptance materializes, appends one feed row and answers with its position.\<close>

definition settled ::
  "replica_env \<Rightarrow> ('f, 'm) memory_store \<Rightarrow> replica_operation \<Rightarrow> int \<Rightarrow> 'm rdb \<Rightarrow> 'm rdb \<Rightarrow> bool" where
  "settled env store op n d d' \<longleftrightarrow>
     (\<exists>epoch new d1 d2 epoch' at. same_journal d d1 \<and> carries env store op new \<and>
        append_op epoch new d1 = Inr (n, d2) \<and> \<not> is_answered d2 (o_id op) \<and>
        d' = answered (receipt_of op epoch' Accepted (Some n) (o_digest op) None) at d2)"

lemma accept_answer_iff [stmt_simps]:
  "accept_answer op epoch n at d = Inr x \<longleftrightarrow> \<not> is_answered d (o_id op) \<and>
     x = (answer op Accepted (Some n) None,
          answered (receipt_of op epoch Accepted (Some n) (o_digest op) None) at d)"
  by (auto simp: accept_answer_def stmt_simps receipt_of_def)

lemma settledI:
  assumes "same_journal d d1" "carries env store op new" "append_op epoch new d1 = Inr (n, d2)"
    "accept_answer op epoch' n at d2 = Inr (r, d')"
  shows "settled env store op n d d' \<and> r = answer op Accepted (Some n) None"
proof -
  have "\<not> is_answered d2 (o_id op)" "r = answer op Accepted (Some n) None"
    "d' = answered (receipt_of op epoch' Accepted (Some n) (o_digest op) None) at d2"
    using assms(4) unfolding accept_answer_iff by blast+
  with assms(1-3) show ?thesis unfolding settled_def by blast
qed

definition answers_to ::
  "replica_env \<Rightarrow> ('f, 'm) memory_store \<Rightarrow> replica_operation \<Rightarrow> (error + operation_result) \<Rightarrow> 'm rdb \<Rightarrow> 'm rdb \<Rightarrow> bool" where
  "answers_to env store op res d d' \<longleftrightarrow>
     (case res of
        Inl e \<Rightarrow> d' = d
      | Inr r \<Rightarrow>
          (\<exists>n. r = answer op Accepted (Some n) None \<and> settled env store op n d d') \<or>
          (o_kind op = code_kind \<and> r = answer op RejectedStale None (Some stale_plan) \<and>
           refused_as op RejectedStale None (o_digest op) (Some stale_plan) d d'))"

lemma in_transaction_cases:
  assumes "in_transaction env body s = (res, s')"
  shows "(\<exists>e. res = Inl e \<and> rs_db s' = rs_db s) \<or>
         (\<exists>x. res = Inr x \<and> body (rs_db s) = Inr (x, rs_db s'))"
    and "rs_files s' = rs_files s"
  using assms by (auto simp: in_transaction_def Let_def split: sum.splits)

lemma kind_shape_codes:
  assumes "kind_and_shape env op = None"
  shows "o_schema op = payload_version" "is_event_kind (o_kind op) \<Longrightarrow> o_op op = Upsert"
    "o_kind op \<in> {memory_kind, code_kind, document_kind, feedback_kind, activity_kind}"
  using assms by (auto simp: kind_and_shape_def is_event_kind_def event_shape_def kind_defs
      split: if_splits)

lemma canonical_addressed:
  "canonical_bytes env v = Inr (bytes, digest) \<Longrightarrow> digest = n_sha256 env bytes"
  by (auto simp: canonical_bytes_def bytes_and_digest_def res_simps)

lemma accept_new_carries:
  assumes "o_op op = Tombstone \<longleftrightarrow> payload = None"
    "\<And>digest bytes. payload = Some (digest, bytes) \<Longrightarrow> digest = n_sha256 env bytes"
  shows "carries env store op (accept_new op (o_key op) repository payload at)"
  using assms by (auto simp: carries_def accept_new_def content_addressed_def)

lemma andthen_cases:
  assumes "andthen m f s = (res, s')"
  obtains e where "m s = (Inl e, s')" "res = Inl e"
  | x s1 where "m s = (Inr x, s1)" "f x s1 = (res, s')"
  using assms by (auto simp: andthen_def split: prod.splits sum.splits)

lemma refusedI:
  "record_answer (receipt_of op epoch why n digest reason) at d = Inr (u, d') \<Longrightarrow>
   refused_as op why n digest reason d d'"
  by (auto simp: refused_as_def stmt_simps) (auto simp: receipt_of_def)

lemma write_code_answers:
  assumes run: "write_code env epoch op at ord found d = Inr (r, d')" and kind: "o_kind op = code_kind"
    and found: "found = None \<longleftrightarrow> o_op op = Tombstone"
    "\<And>c bytes digest. found = Some (c, bytes, digest) \<Longrightarrow> digest = n_sha256 env bytes"
  shows "answers_to env store op (Inr r) d d'"
proof (cases found)
  case None
  from run obtain u d1 n d2 where "clear_projection (o_key op) d = Inr (u, d1)"
    "append_op epoch (accept_new op (o_key op) (Some (o_key op)) None at) d1 = Inr (n, d2)"
    "accept_answer op epoch n at d2 = Inr (r, d')"
    unfolding write_code_def None by (auto simp: stmt_Inr_iff)
  moreover have "carries env store op (accept_new op (o_key op) (Some (o_key op)) None at)"
    using found None by (intro accept_new_carries) simp_all
  ultimately show ?thesis
    using settledI movesD [OF activate_frame(4)] unfolding answers_to_def by fastforce
next
  case (Some f)
  obtain c bytes digest where f: "f = (c, bytes, digest)" by (cases f)
  from run consider
      u where "record_answer (receipt_of op epoch RejectedStale None (o_digest op) (Some stale_plan)) at d = Inr (u, d')"
        "r = answer op RejectedStale None (Some stale_plan)"
    | u d1 n d2 where "activate_accepted env (o_key op) c at ord d = Inr (u, d1)"
        "append_op epoch (accept_new op (o_key op) (Some (o_key op)) (Some (digest, bytes)) at) d1 = Inr (n, d2)"
        "accept_answer op epoch n at d2 = Inr (r, d')"
    unfolding write_code_def Some f
    by (auto simp: stmt_Inr_iff split: if_splits)
  then show ?thesis
  proof cases
    case 1
    then show ?thesis using kind refusedI by (fastforce simp: answers_to_def)
  next
    case 2
    moreover have "carries env store op (accept_new op (o_key op) (Some (o_key op)) (Some (digest, bytes)) at)"
      using found Some f by (intro accept_new_carries) auto
    ultimately show ?thesis
      using settledI movesD [OF activate_accepted_frame] unfolding answers_to_def by fastforce
  qed
qed

lemma write_document_answers:
  assumes run: "write_document env epoch op at found d = Inr (r, d')"
    and found: "found = None \<longleftrightarrow> o_op op = Tombstone"
  shows "answers_to env store op (Inr r) d d'"
proof (cases found)
  case None
  define repo where "repo = (case o_repository op of None \<Rightarrow> [] | Some r \<Rightarrow> r)"
  from run obtain u d1 n d2 where "purge_document repo (o_key op) d = Inr (u, d1)"
    "append_op epoch (accept_new op (o_key op) (Some repo) None at) d1 = Inr (n, d2)"
    "accept_answer op epoch n at d2 = Inr (r, d')"
    unfolding write_document_def None repo_def by (auto simp: stmt_Inr_iff Let_def)
  moreover have "carries env store op (accept_new op (o_key op) (Some repo) None at)"
    using found None by (intro accept_new_carries) simp_all
  ultimately show ?thesis
    using settledI movesD [OF document_frame(1)] unfolding answers_to_def by fastforce
next
  case (Some x)
  from run obtain bytes digest u d1 n d2 where canon: "document_canonical env x = Inr (bytes, digest)"
    and steps: "replace_revision x at d = Inr (u, d1)"
    "append_op epoch (accept_new op (o_key op) (Some (dr_repo x)) (Some (digest, bytes)) at) d1 = Inr (n, d2)"
    "accept_answer op epoch n at d2 = Inr (r, d')"
    unfolding write_document_def Some by (auto simp: stmt_Inr_iff split: prod.splits)
  have "carries env store op (accept_new op (o_key op) (Some (dr_repo x)) (Some (digest, bytes)) at)"
    using found Some canon canonical_addressed
    by (intro accept_new_carries) (auto simp: document_canonical_def)
  with steps show ?thesis
    using settledI movesD [OF replace_revision_frame] unfolding answers_to_def by fastforce
qed

lemma tx_answers:
  assumes "in_transaction env body s = (res, s')"
    and "\<And>r d'. body (rs_db s) = Inr (r, d') \<Longrightarrow> answers_to env store op (Inr r) (rs_db s) d'"
  shows "answers_to env store op res (rs_db s) (rs_db s')"
  using in_transaction_cases(1) [OF assms(1)] assms(2) by (auto simp: answers_to_def)

lemma apply_code_answers:
  assumes run: "apply_code env epoch op at ord s = (res, s')" and kind: "o_kind op = code_kind"
  shows "answers_to env store op res (rs_db s) (rs_db s')"
  using run unfolding apply_code_def
proof (cases rule: andthen_cases)
  case (1 e)
  then show ?thesis by (auto simp: known_def answers_to_def)
next
  case (2 found s1)
  then have s1: "s1 = s" and found: "found = None \<longleftrightarrow> o_op op = Tombstone"
    "\<And>c bytes digest. found = Some (c, bytes, digest) \<Longrightarrow> code_canonical env c = Inr (bytes, digest)"
    by (auto simp: known_def decode_code_def res_simps split: if_splits option.splits prod.splits)
  show ?thesis
  proof (rule tx_answers)
    show "in_transaction env (write_code env epoch op at ord found) s = (res, s')"
      using 2(2) unfolding s1 .
    show "answers_to env store op (Inr r) (rs_db s) d'"
      if "write_code env epoch op at ord found (rs_db s) = Inr (r, d')" for r d'
      using that kind found(1)
    proof (rule write_code_answers)
      show "digest = n_sha256 env bytes" if "found = Some (c, bytes, digest)" for c bytes digest
        using found(2) [OF that] canonical_addressed by (auto simp: code_canonical_def)
    qed
  qed
qed

lemma apply_document_answers:
  assumes run: "apply_document env epoch op at s = (res, s')"
  shows "answers_to env store op res (rs_db s) (rs_db s')"
  using run unfolding apply_document_def
proof (cases rule: andthen_cases)
  case (1 e)
  then show ?thesis by (auto simp: known_def answers_to_def)
next
  case (2 found s1)
  then have s1: "s1 = s" and found: "found = None \<longleftrightarrow> o_op op = Tombstone"
    by (auto simp: known_def decode_document_def res_simps split: if_splits)
  show ?thesis
    using 2(2) write_document_answers [OF _ found] unfolding s1 by (rule tx_answers)
qed

lemma apply_event_answers:
  assumes run: "apply_event env epoch op at s = (res, s')"
    and op: "o_op op = Upsert" and kind: "is_event_kind (o_kind op)"
  shows "answers_to env store op res (rs_db s) (rs_db s')"
  using run unfolding apply_event_def
proof (cases rule: andthen_cases)
  case (1 e)
  then show ?thesis by (auto simp: known_def answers_to_def)
next
  case (2 p s1)
  obtain bytes digest where p: "p = (bytes, digest)" by (cases p)
  have s1: "s1 = s" and addressed: "digest = n_sha256 env bytes"
    using 2(1) p canonical_addressed by (auto simp: known_def res_simps)
  show ?thesis using 2(2) unfolding s1 p prod.case
  proof (rule tx_answers)
    fix r d'
    assume "seq (write_event env op bytes) (\<lambda>(repository, event_at).
       seq (append_op epoch \<lparr>no_id = o_id op, no_kind = o_kind op, no_key = o_key op,
              no_op = Upsert, no_payload = Some (digest, bytes), no_schema = o_schema op,
              no_repository = repository, no_origin = FromPeer, no_at = event_at\<rparr>) (\<lambda>n.
       accept_answer op epoch n at)) (rs_db s) = Inr (r, d')"
    then obtain repository event_at d1 n d2
      where steps: "write_event env op bytes (rs_db s) = Inr ((repository, event_at), d1)"
        "append_op epoch \<lparr>no_id = o_id op, no_kind = o_kind op, no_key = o_key op,
              no_op = Upsert, no_payload = Some (digest, bytes), no_schema = o_schema op,
              no_repository = repository, no_origin = FromPeer, no_at = event_at\<rparr> d1 = Inr (n, d2)"
        "accept_answer op epoch n at d2 = Inr (r, d')"
      by (auto simp: stmt_Inr_iff)
    have "carries env store op \<lparr>no_id = o_id op, no_kind = o_kind op, no_key = o_key op,
              no_op = Upsert, no_payload = Some (digest, bytes), no_schema = o_schema op,
              no_repository = repository, no_origin = FromPeer, no_at = event_at\<rparr>"
      using op kind addressed by (auto simp: carries_def content_addressed_def)
    with steps show "answers_to env store op (Inr r) (rs_db s) d'"
      using settledI movesD [OF write_event_frame] unfolding answers_to_def by fastforce
  qed
qed

lemma record_write_carries:
  assumes "record_write env op fm body at FromPeer i d = Inr (x, d')"
  obtains epoch new d1 n where "same_journal d d1" "append_op epoch new d1 = Inr (n, d')" "snd x = n"
    "no_id new = i" "no_kind new = memory_kind" "no_key new = fmt_id fm" "no_op new = op"
    "no_schema new = payload_version" "no_origin new = FromPeer" "no_payload new \<noteq> None"
    "content_addressed (n_sha256 env) new"
proof -
  from assms obtain m bytes digest legacy d1 epoch n where
    canon: "memory_canonical env m = Inr (bytes, digest)" and
    log: "append_sync_log op (fmt_id fm) (fmt_hash fm) at FromPeer d = Inr (legacy, d1)" and
    app: "append_op epoch \<lparr>no_id = i, no_kind = memory_kind, no_key = fmt_id fm, no_op = op,
       no_payload = Some (digest, bytes), no_schema = payload_version,
       no_repository = label_option (fmt_repo fm), no_origin = FromPeer, no_at = at\<rparr> d1 = Inr (n, d')"
    and "x = (legacy, n)"
    unfolding record_write_def journal_memory_def by (auto simp: stmt_Inr_iff res_simps)
  moreover have "digest = n_sha256 env bytes"
    using canon canonical_addressed by (auto simp: memory_canonical_def)
  ultimately show thesis
    using that [OF movesD [OF mirror_frame(2) log] app] by (simp add: content_addressed_def)
qed

lemma record_tombstone_carries:
  assumes "record_tombstone memory hash repository at FromPeer i d = Inr (x, d')"
  obtains epoch new d1 n where "same_journal d d1" "append_op epoch new d1 = Inr (n, d')" "snd x = n"
    "no_id new = i" "no_kind new = memory_kind" "no_key new = memory" "no_op new = Tombstone"
    "no_schema new = payload_version" "no_origin new = FromPeer" "no_payload new = None"
    "content_addressed (n_sha256 env) new"
proof -
  from assms obtain legacy d1 epoch n where
    log: "append_sync_log Tombstone memory hash at FromPeer d = Inr (legacy, d1)" and
    app: "append_op epoch \<lparr>no_id = i, no_kind = memory_kind, no_key = memory, no_op = Tombstone,
       no_payload = None, no_schema = payload_version, no_repository = repository,
       no_origin = FromPeer, no_at = at\<rparr> d1 = Inr (n, d')"
    and "x = (legacy, n)"
    unfolding record_tombstone_def journal_memory_def by (auto simp: stmt_Inr_iff)
  then show thesis
    using that [OF movesD [OF mirror_frame(2) log] app] by (simp add: content_addressed_def)
qed

text \<open>Markdown comes first: it is written, or moved to the trash, before the transaction, and
  is not taken back when that fails.\<close>

lemma on_files_db: "on_files f s = (r, s') \<Longrightarrow> rs_db s' = rs_db s"
  by (auto simp: on_files_def split: prod.splits)

lemma write_markdown_db: "write_markdown env store m s = (r, s') \<Longrightarrow> rs_db s' = rs_db s"
  by (auto simp: write_markdown_def known_def finish_def andthen_def dest!: on_files_db
      split: sum.splits error.splits prod.splits)

lemma prepare_markdown_db:
  assumes "prepare_markdown env store op s = (r, s')"
  shows "rs_db s' = rs_db s"
    and "r = Inr p \<Longrightarrow> (\<exists>hash repository. p = Removed hash repository) \<longleftrightarrow> o_op op = Tombstone"
proof -
  from assms have "rs_db s' = rs_db s \<and>
    (\<forall>p. r = Inr p \<longrightarrow> (\<exists>hash repository. p = Removed hash repository) \<longleftrightarrow> o_op op = Tombstone)"
    unfolding prepare_markdown_def
  proof (cases rule: andthen_cases)
    case (1 e)
    then show ?thesis by auto
  next
    case (2 u s1)
    then have s1: "s1 = s" by auto
    show ?thesis
    proof (cases "o_op op = Tombstone")
      case True
      with 2(2) show ?thesis
        by (auto simp: s1 split: sum.splits error.splits prod.splits dest!: on_files_db)
    next
      case False
      with 2(2) have "andthen (known (decode_memory env op)) (\<lambda>m.
          andthen (write_markdown env store m) (\<lambda>r. finish (Written r))) s = (r, s')"
        by (simp add: s1)
      then show ?thesis using False
        by (auto simp: andthen_def known_def finish_def dest!: write_markdown_db
            split: prod.splits sum.splits)
    qed
  qed
  then show "rs_db s' = rs_db s"
    and "r = Inr p \<Longrightarrow> (\<exists>hash repository. p = Removed hash repository) \<longleftrightarrow> o_op op = Tombstone" by auto
qed

lemma shape_memory:
  assumes "kind_and_shape env op = None" "o_kind op = memory_kind" "o_op op \<noteq> Tombstone"
    "decode_memory env op = Inr m"
  shows "memory_holds env m (o_key op)"
  using assms by (auto simp: kind_and_shape_def op_shape_def canonical_text_def identity_check_def
      decode_memory_def decode_as_def res_simps split: if_splits option.splits sum.splits)

lemma write_markdown_id:
  assumes "write_markdown env store m s = (Inr r, s')" "store_named env store"
    "mp_id m = memory_id (n_sha256 env) (mp_body m)"
  shows "fmt_id (mr_front r) = mp_id m"
proof -
  have loaded: "fmt_id (mr_front r) = i" if "ms_load store i fs = Inr r" for i fs r
    using assms(2) that by (simp add: store_named_def)
  have saved: "fmt_id (mr_front r) = memory_id (n_sha256 env) (sv_body p)"
    if "ms_save store p fs = (Inr r, fs')" for p fs r fs'
    using assms(2) that unfolding store_named_def by blast
  from assms(1,3) show ?thesis
    by (auto simp: write_markdown_def updated_record_def andthen_def known_def finish_def
        on_files_def split: sum.splits error.splits prod.splits dest!: loaded saved)
qed

lemma prepare_markdown_id:
  assumes run: "prepare_markdown env store op s = (Inr (Written r), s')" and named: "store_named env store"
    and shaped: "kind_and_shape env op = None" "o_kind op = memory_kind"
  shows "fmt_id (mr_front r) = o_key op"
proof -
  have op: "o_op op \<noteq> Tombstone" using prepare_markdown_db(2) [OF run refl] by auto
  with run obtain m s1 s2 where m: "decode_memory env op = Inr m"
    and r: "write_markdown env store m s1 = (Inr r, s2)"
    by (auto simp: prepare_markdown_def andthen_def known_def finish_def
        split: sum.splits prod.splits)
  have "memory_holds env m (o_key op)" using shaped op m by (intro shape_memory)
  then have "o_key op = mp_id m" "mp_id m = memory_id (n_sha256 env) (mp_body m)"
    unfolding memory_holds_def by blast+
  with write_markdown_id [OF r named] show ?thesis by simp
qed

lemma write_memory_journals:
  assumes run: "write_memory env store op at verdict p d = Inr (n, d')"
    and p: "(\<exists>hash repository. p = Removed hash repository) \<longleftrightarrow> o_op op = Tombstone"
    and op: "o_kind op = memory_kind" "o_schema op = payload_version"
    and key: "\<And>r. p = Written r \<Longrightarrow> store_named env store \<Longrightarrow> fmt_id (mr_front r) = o_key op"
  shows "\<exists>epoch new d1. same_journal d d1 \<and> carries env store op new \<and> append_op epoch new d1 = Inr (n, d')"
proof (cases p)
  case (Written r)
  with run obtain u1 d1 u2 d2 x where steps: "on_mirror (ms_mirror store r) d = Inr (u1, d1)"
    "on_mirror (ms_apply_vector store (fmt_id (mr_front r)) verdict at) d1 = Inr (u2, d2)"
    and rec: "record_write env (o_op op) (mr_front r) (mr_body r) at FromPeer (o_id op) d2 = Inr (x, d')"
    and n: "snd x = n"
    by (auto simp: stmt_Inr_iff)
  have same: "same_journal d d2"
    using movesD [OF mirror_frame(1) steps(1)] movesD [OF mirror_frame(1) steps(2)]
    by (metis same_journal_order(2) transpE)
  show ?thesis
  proof (rule record_write_carries [OF rec])
    fix epoch new d3 k
    assume frame: "same_journal d2 d3" and app: "append_op epoch new d3 = Inr (k, d')" "snd x = k"
      and new: "no_id new = o_id op" "no_kind new = memory_kind" "no_key new = fmt_id (mr_front r)"
      "no_op new = o_op op"
      "no_schema new = payload_version" "no_origin new = FromPeer" "no_payload new \<noteq> None"
      "content_addressed (n_sha256 env) new"
    have "append_op epoch new d3 = Inr (n, d')" using app n by simp
    moreover have "same_journal d d3" using transpD [OF same_journal_order(2) same frame] .
    moreover have "carries env store op new" using new op p key Written by (simp add: carries_def)
    ultimately show ?thesis by blast
  qed
next
  case (Removed hash repository)
  with run obtain u1 d1 x where steps: "on_mirror (ms_soft_delete store (o_key op) at) d = Inr (u1, d1)"
    and rec: "record_tombstone (o_key op) hash repository at FromPeer (o_id op) d1 = Inr (x, d')"
    and n: "snd x = n"
    by (auto simp: stmt_Inr_iff)
  have same: "same_journal d d1" using movesD [OF mirror_frame(1) steps] .
  show ?thesis
  proof (rule record_tombstone_carries [OF rec])
    fix epoch new d3 k
    assume frame: "same_journal d1 d3" and app: "append_op epoch new d3 = Inr (k, d')" "snd x = k"
      and new: "no_id new = o_id op" "no_kind new = memory_kind" "no_key new = o_key op"
      "no_op new = Tombstone"
      "no_schema new = payload_version" "no_origin new = FromPeer" "no_payload new = None"
      "content_addressed (n_sha256 env) new"
    have "append_op epoch new d3 = Inr (n, d')" using app n by simp
    moreover have "same_journal d d3" using transpD [OF same_journal_order(2) same frame] .
    moreover have "carries env store op new" using new op p Removed by (simp add: carries_def)
    ultimately show ?thesis by blast
  qed
qed

lemma commit_acceptance_settles:
  assumes run: "commit_acceptance env epoch op at body s = (res, s')"
    and body: "\<And>n d'. body (rs_db s) = Inr (n, d') \<Longrightarrow>
      \<exists>epoch new d1. same_journal (rs_db s) d1 \<and> carries env store op new \<and> append_op epoch new d1 = Inr (n, d')"
  shows "(\<exists>e. res = Inl e \<and> rs_db s' = rs_db s) \<or> (\<exists>n. res = Inr n \<and> settled env store op n (rs_db s) (rs_db s'))"
  using in_transaction_cases(1) [OF run [unfolded commit_acceptance_def]]
proof (elim disjE exE conjE)
  fix n
  assume "seq body (\<lambda>n. seq (record_answer (receipt_of op epoch Accepted (Some n) (o_digest op) None) at)
       (\<lambda>_. done_with n)) (rs_db s) = Inr (n, rs_db s')" and "res = Inr n"
  then obtain d2 where step: "body (rs_db s) = Inr (n, d2)" and "\<not> is_answered d2 (o_id op)"
    "rs_db s' = answered (receipt_of op epoch Accepted (Some n) (o_digest op) None) at d2"
    by (auto simp: stmt_simps receipt_of_def simp del: append_op_iff)
  with body [OF step] \<open>res = Inr n\<close> show ?thesis unfolding settled_def by blast
qed auto

lemma apply_memory_answers:
  assumes run: "apply_memory env store epoch op at s = (res, s')"
    and op: "kind_and_shape env op = None" "o_kind op = memory_kind"
  shows "answers_to env store op res (rs_db s) (rs_db s')"
  using run unfolding apply_memory_def
proof (cases rule: andthen_cases)
  case (1 e)
  then show ?thesis using prepare_markdown_db(1) by (fastforce simp: answers_to_def)
next
  case (2 p s1)
  have version: "o_schema op = payload_version" using kind_shape_codes(1) [OF op(1)] .
  have key: "fmt_id (mr_front r) = o_key op" if "p = Written r" "store_named env store" for r
    using 2(1) that op prepare_markdown_id by blast
  have db: "rs_db s1 = rs_db s" and p: "(\<exists>hash repository. p = Removed hash repository) \<longleftrightarrow> o_op op = Tombstone"
    using prepare_markdown_db [OF 2(1)] by auto
  from 2(2) show ?thesis
  proof (cases rule: andthen_cases)
    case (1 e)
    then show ?thesis using db by (auto simp: reads_def answers_to_def)
  next
    case (2 verdict s2)
    then have s2: "s2 = s1" by (auto simp: reads_def)
    have settles: "(\<exists>e. r = Inl e \<and> rs_db t = rs_db s) \<or> (\<exists>n. r = Inr n \<and> settled env store op n (rs_db s) (rs_db t))"
      if "commit_acceptance env epoch op at (write_memory env store op at verdict p) s1 = (r, t)" for r t
      using commit_acceptance_settles [OF that write_memory_journals [OF _ p op(2) version key]] db by simp
    from 2(2) show ?thesis unfolding s2
    proof (cases rule: andthen_cases)
      case (1 e)
      then show ?thesis
        using settles [OF 1(1)] by (auto simp: answers_to_def)
    next
      case (2 n s3)
      then show ?thesis
        using settles [OF 2(1)] by (auto simp: answers_to_def finish_def)
    qed
  qed
qed

lemma materialize_answers:
  assumes run: "materialize env store epoch op ord s = (res, s')" and wellshaped: "kind_and_shape env op = None"
  shows "answers_to env store op res (rs_db s) (rs_db s')"
  using run unfolding materialize_def
proof (cases rule: andthen_cases)
  case (1 e)
  then show ?thesis by (auto simp: iso_now_def answers_to_def)
next
  case (2 at s1)
  then have db: "rs_db s1 = rs_db s" by (auto simp: iso_now_def)
  note shaped = kind_shape_codes [OF wellshaped]
  show ?thesis
    using 2(2) apply_code_answers apply_document_answers apply_event_answers [OF _ shaped(2)]
      apply_memory_answers [OF _ wellshaped] shaped(3) unfolding db [symmetric]
    by (auto simp: is_event_kind_def split: if_splits)
qed

section \<open>One operation\<close>

text \<open>Where the decision says duplicate, the answer names the position the entity is at.\<close>

definition refusal_position :: "'m rdb \<Rightarrow> replica_operation \<Rightarrow> disposition \<Rightarrow> int option" where
  "refusal_position d op why =
     (if why = Duplicate then map_option rw_sequence (find_revision d (o_kind op) (o_key op)) else None)"

definition outcome ::
  "replica_env \<Rightarrow> ('f, 'm) memory_store \<Rightarrow> replica_operation \<Rightarrow> (error + operation_result) \<Rightarrow> 'm rdb \<Rightarrow> 'm rdb \<Rightarrow> bool" where
  "outcome env store op res d d' \<longleftrightarrow>
     (case replayed env d op of
        Some r \<Rightarrow> res = Inr r \<and> d' = d
      | None \<Rightarrow>
          if decide env d op = Accepted then answers_to env store op res d d'
          else (case res of
                  Inl e \<Rightarrow> d' = d
                | Inr r \<Rightarrow>
                    (let why = decide env d op; n = refusal_position d op why
                     in r = answer op why n (disposition_reason why) \<and>
                        refused_as op why n (arrived_digest env op) (disposition_reason why) d d')))"

lemma record_refusal_cases:
  assumes "record_refusal env epoch op why reason n s = (res, s')"
  shows "(\<exists>e. res = Inl e) \<and> rs_db s' = rs_db s \<or>
         res = Inr (answer op why n reason) \<and>
         refused_as op why n (arrived_digest env op) reason (rs_db s) (rs_db s')"
  using assms unfolding record_refusal_def
proof (cases rule: andthen_cases)
  case (1 e)
  then show ?thesis by (auto simp: iso_now_def)
next
  case (2 at s1)
  then have db: "rs_db s1 = rs_db s" by (auto simp: iso_now_def)
  from 2(2) show ?thesis
  proof (cases rule: andthen_cases)
    case (1 e)
    then show ?thesis using in_transaction_cases(1) [OF 1(1)] db by auto
  next
    case (2 u s2)
    then show ?thesis using in_transaction_cases(1) [OF 2(1)] db
      by (auto simp: finish_def intro: refusedI)
  qed
qed

lemma decide_accepted_shape: "decide env d op = Accepted \<Longrightarrow> kind_and_shape env op = None"
proof (rule ccontr)
  assume accepted: "decide env d op = Accepted" and "kind_and_shape env op \<noteq> None"
  then have "kind_and_shape env op = Some Accepted" by (auto simp: decide_def)
  then show False
    by (auto simp: kind_and_shape_def op_shape_def event_shape_def identity_check_def canonical_text_def
        split: if_splits option.splits sum.splits)
qed

lemma apply_one_outcome:
  assumes "apply_one env store epoch op s = (res, s')"
  shows "outcome env store op res (rs_db s) (rs_db s')"
proof (cases "replayed env (rs_db s) op")
  case (Some r)
  with assms show ?thesis by (simp add: apply_one_def andthen_def reads_def finish_def outcome_def)
next
  case None
  show ?thesis
  proof (cases "decide env (rs_db s) op = Accepted")
    case True
    with assms None have "materialize env store epoch op Decided s = (res, s')"
      by (simp add: apply_one_def andthen_def reads_def)
    from materialize_answers [OF this decide_accepted_shape [OF True]] None True show ?thesis
      by (simp add: outcome_def)
  next
    case False
    with assms None have "record_refusal env epoch op (decide env (rs_db s) op)
        (disposition_reason (decide env (rs_db s) op))
        (refusal_position (rs_db s) op (decide env (rs_db s) op)) s = (res, s')"
      by (simp add: apply_one_def andthen_def reads_def refusal_position_def)
    from record_refusal_cases [OF this] None False show ?thesis
      by (auto simp: outcome_def Let_def)
  qed
qed

section \<open>The invariant along any run\<close>

definition settles :: "(string \<Rightarrow> string) \<Rightarrow> 'm rdb \<Rightarrow> 'm rdb \<Rightarrow> bool" where
  "settles sha256_hex d d' \<longleftrightarrow>
     (journal_ok sha256_hex d \<and> receipts_agree d \<longrightarrow>
      journal_ok sha256_hex d' \<and> receipts_agree d' \<and> extends d d')"

lemma settles_order [simp]: "reflp (settles sha)" "transp (settles sha)"
  by (auto simp: reflp_def transp_def settles_def intro: extends_trans)

lemma answered_keeps: "\<not> is_answered d (rp_operation r) \<Longrightarrow> keeps sha d (answered r at d)"
  using movesD [OF record_answer_keeps] by (metis record_answer_iff)

lemma answered_fields [simp]:
  "rd_feed (answered r at d) = rd_feed d" "rd_revisions (answered r at d) = rd_revisions d"
  "rd_payloads (answered r at d) = rd_payloads d" "rd_feed_counter (answered r at d) = rd_feed_counter d"
  "rd_outbox (answered r at d) = rd_outbox d" "rd_exchange (answered r at d) = rd_exchange d"
  "rd_stream (answered r at d) = rd_stream d" "rd_verdicts (answered r at d) = rd_verdicts d"
  "rd_feedback (answered r at d) = rd_feedback d" "rd_generations (answered r at d) = rd_generations d"
  by (simp_all add: answered_def)

lemma refused_settles:
  assumes "refused_as op why n digest reason d d'" "why \<noteq> Accepted"
  shows "settles sha d d'"
proof -
  from assms(1) obtain epoch at where free: "\<not> is_answered d (o_id op)"
    and d': "d' = answered (receipt_of op epoch why n digest reason) at d"
    by (auto simp: refused_as_def)
  have "keeps sha d d'" unfolding d' using free by (intro answered_keeps) (simp add: receipt_of_def)
  moreover have "receipts_agree d'" if "receipts_agree d"
    using that assms(2) disposition_str_inj [of why Accepted] unfolding d' receipts_agree_def
    by (auto simp: answered_def receipt_of_def)
  ultimately show ?thesis by (auto simp: settles_def keeps_def)
qed

lemma settled_settles:
  assumes "settled env store op n d d'"
  shows "settles (n_sha256 env) d d'"
proof -
  let ?sha = "n_sha256 env"
  from assms obtain epoch new d1 d2 epoch' at where same: "same_journal d d1" and new: "carries env store op new"
    and app: "append_op epoch new d1 = Inr (n, d2)" and free: "\<not> is_answered d2 (o_id op)"
    and d': "d' = answered (receipt_of op epoch' Accepted (Some n) (o_digest op) None) at d2"
    unfolding settled_def by blast
  have "keeps ?sha d d1" using same by (rule same_journal_keeps)
  moreover have "keeps ?sha d1 d2"
    using movesD [OF append_op_keeps app] new by (simp add: carries_def)
  moreover have "keeps ?sha d2 d'"
    unfolding d' using free by (intro answered_keeps) (simp add: receipt_of_def)
  ultimately have keep: "keeps ?sha d d'" using keeps_transp by (metis transpE)
  have feed: "rd_feed d' = rd_feed d @ [new_feed_row epoch new n]"
    and answers: "rd_answers d' = rd_answers d @ [\<lparr>an_operation = o_id op, an_epoch = epoch',
      an_sequence = Some n, an_disposition = disposition_str Accepted, an_digest = o_digest op,
      an_reason = None, an_at = at\<rparr>]"
    using app same by (auto simp: append_op_iff appended_def Let_def same_journal_def d' answered_def receipt_of_def)
  have "receipts_agree d'" if "receipts_agree d"
    using that new unfolding receipts_agree_def feed answers
    by (fastforce simp: new_feed_row_def carries_def)
  with keep show ?thesis by (auto simp: settles_def keeps_def)
qed

lemma outcome_settles:
  assumes "outcome env store op res d d'"
  shows "settles (n_sha256 env) d d'"
proof -
  have refl: "settles (n_sha256 env) d d" using settles_order(1) by (rule reflpD)
  have "settles (n_sha256 env) d d'" if "answers_to env store op res d d'"
    using that refl by (auto simp: answers_to_def split: sum.splits
        intro: settled_settles refused_settles [of op RejectedStale])
  then show ?thesis
    using assms refl refused_settles [of op "decide env d op"]
    by (auto simp: outcome_def Let_def split: option.splits sum.splits if_splits)
qed

text \<open>The sequence of operations of an envelope, and the whole endpoints.\<close>

definition run_moves :: "('m rdb \<Rightarrow> 'm rdb \<Rightarrow> bool) \<Rightarrow> ('f, 'm, 'a) run \<Rightarrow> bool" where
  "run_moves R m \<longleftrightarrow> (\<forall>s r s'. m s = (r, s') \<longrightarrow> R (rs_db s) (rs_db s'))"

lemma run_movesI: "(\<And>s r s'. m s = (r, s') \<Longrightarrow> R (rs_db s) (rs_db s')) \<Longrightarrow> run_moves R m"
  by (auto simp: run_moves_def)

lemma run_movesD: "run_moves R m \<Longrightarrow> m s = (r, s') \<Longrightarrow> R (rs_db s) (rs_db s')"
  by (auto simp: run_moves_def)

lemma run_moves_quiet [simp]:
  assumes "reflp R"
  shows "run_moves R (finish x)" "run_moves R (raise e)" "run_moves R (known r)"
    "run_moves R (reads f)" "run_moves R (iso_now env)"
  using assms by (auto simp: run_moves_def finish_def raise_def known_def reads_def iso_now_def
      dest: reflpD)

lemma run_moves_andthen:
  assumes "transp R" "run_moves R m" "\<And>x. run_moves R (f x)"
  shows "run_moves R (andthen m f)"
  using assms by (auto simp: run_moves_def andthen_def split: prod.splits sum.splits)
    (metis transpE)

lemma run_moves_transaction:
  assumes "reflp R" "moves R body"
  shows "run_moves R (in_transaction env body)"
  using assms by (auto intro!: run_movesI dest!: in_transaction_cases(1) dest: reflpD movesD)

lemma run_moves_autocommit:
  assumes "reflp R" "moves R m"
  shows "run_moves R (autocommit m)"
  using assms by (auto simp: run_moves_def autocommit_def dest: reflpD movesD
      split: sum.splits prod.splits)

lemmas run_rules = run_moves_andthen run_moves_transaction run_moves_autocommit

lemma apply_one_settles: "run_moves (settles (n_sha256 env)) (apply_one env store epoch op)"
  by (auto intro!: run_movesI dest: apply_one_outcome outcome_settles)

lemma apply_all_moves:
  assumes "reflp R" "transp R" "\<And>op. op \<in> set ops \<Longrightarrow> run_moves R (apply_one env store epoch op)"
  shows "run_moves R (apply_all env store epoch ops)"
  using assms(3) by (induction ops) (auto intro!: run_rules simp: assms)

lemma import_run_moves:
  assumes "reflp R" "transp R"
    "\<And>op epoch. op \<in> set (im_operations request) \<Longrightarrow> run_moves R (apply_one env store epoch op)"
  shows "run_moves R (import_run env store request)"
  unfolding import_run_def using assms by (auto intro!: run_rules apply_all_moves)

lemma staged_settles: "moves (settles sha) (put_part staging index n bytes at)"
  "moves (settles sha) (discard_staged staging)"
  by (auto simp: moves_def put_part_def discard_staged_def settles_def Let_def journal_ok_def
      receipts_agree_def extends_def feed_ordered_def revisions_follow_def payloads_held_def
      intro: ages_refl)

lemma stage_settles: "run_moves (settles sha) (stage env r)"
  unfolding stage_def by (auto intro!: run_rules staged_settles)

lemma activate_staged_settles:
  "run_moves (settles (n_sha256 env)) (activate_staged env store r)"
  unfolding activate_staged_def by (auto intro!: run_rules staged_settles apply_one_settles)

text \<open>A statement that writes neither the feed nor the answers keeps the receipts agreeing.\<close>

definition same_log :: "'m rdb \<Rightarrow> 'm rdb \<Rightarrow> bool" where
  "same_log d d' \<longleftrightarrow> rd_feed d' = rd_feed d \<and> rd_answers d' = rd_answers d"

lemma same_log_settles:
  assumes "moves (keeps sha) m" "moves same_log m"
  shows "moves (settles sha) m"
  using assms by (fastforce simp: moves_def settles_def keeps_def same_log_def receipts_agree_def)

lemma same_log_order [simp]: "reflp same_log" "transp same_log"
  by (auto simp: reflp_def transp_def same_log_def)

lemma redaction_settles:
  "moves (settles sha) (redact json_text_at reach at)" "moves (settles sha) (redact_payload digest at)"
  "moves (settles sha) (bar json_text_at digests kind at)"
proof -
  have log: "moves same_log (redact json_text_at r at)" for r
    by (auto simp: moves_def redact_eq blanked_def same_log_def)
  show "moves (settles sha) (redact json_text_at reach at)"
    by (intro same_log_settles redact_keeps log)
  show "moves (settles sha) (redact_payload digest at)"
    by (intro same_log_settles redact_payload_keeps)
      (auto simp: moves_def redact_payload_eq blanked_def same_log_def)
  have "moves same_log (barred digests kind at)"
    by (auto simp: moves_def barred_def same_log_def Let_def)
  then have "moves same_log (bar json_text_at digests kind at)"
    unfolding bar_eq by (auto intro!: moves_seq log)
  then show "moves (settles sha) (bar json_text_at digests kind at)"
    by (intro same_log_settles bar_keeps)
qed

lemma outbox_settles: "moves (settles sha) (record_outcome i out at)" "moves (settles sha) (discard_operation i)"
proof -
  have "ob_operation (with_outcome out at r) = ob_operation r" for r by (cases out) simp_all
  then have "map ob_operation (map (\<lambda>r. if ob_operation r = i then with_outcome out at r else r) rs) =
    map ob_operation rs" for rs by simp
  then have "distinct (map ob_operation (map (\<lambda>r. if ob_operation r = i then with_outcome out at r else r) rs)) \<longleftrightarrow>
    distinct (map ob_operation rs)" for rs by metis
  then show "moves (settles sha) (record_outcome i out at)"
    by (auto simp: moves_def record_outcome_def settles_def journal_ok_def receipts_agree_def
        extends_def feed_ordered_def revisions_follow_def payloads_held_def simp del: map_map
        intro: ages_refl)
  have "distinct (map ob_operation rs) \<Longrightarrow> distinct (map ob_operation (filter P rs))" for rs P
    by (simp add: distinct_map_filter)
  then show "moves (settles sha) (discard_operation i)"
    by (auto simp: moves_def discard_operation_def settles_def journal_ok_def receipts_agree_def
        extends_def feed_ordered_def revisions_follow_def payloads_held_def
        intro: ages_refl)
qed

section \<open>Sequences of calls\<close>

text \<open>A memory written or removed outside the endpoints, by a local command or by the legacy
  exchange: its mirror statement and its journal rows in one transaction.\<close>

lemma journal_memory_settles:
  assumes "content_addressed sha new" "journal_memory legacy new d = Inr (x, d')"
  shows "settles sha d d'"
proof -
  from assms(2) obtain epoch n d1 where app: "append_op epoch new d = Inr (n, d1)" and
    rest: "(if no_origin new = FromHere then enqueue new None else done_with ()) d1 = Inr ((), d')"
    by (auto simp: journal_memory_def stmt_Inr_iff)
  have "keeps sha d d1" using movesD [OF append_op_keeps [OF assms(1)] app] .
  moreover have "keeps sha d1 d'"
    using rest movesD [OF enqueue_keeps] reflpD [OF keeps_reflp] by (auto simp: done_with_def split: if_splits)
  ultimately have "keeps sha d d'" using keeps_transp by (metis transpE)
  moreover have "rd_feed d1 = rd_feed d @ [new_feed_row epoch new n]" "rd_answers d1 = rd_answers d"
    using app by (auto simp: append_op_iff appended_def Let_def)
  moreover have "rd_feed d' = rd_feed d1 \<and> rd_answers d' = rd_answers d1"
    using rest by (auto simp: enqueue_def stmt_simps split: if_splits)
  ultimately show ?thesis by (auto simp: settles_def keeps_def receipts_agree_def)
qed

lemma log_settles: "moves (settles sha) (append_sync_log op memory hash at origin)"
  by (intro same_log_settles frame_keeps mirror_frame)
    (auto simp: moves_def same_log_def append_sync_log_def Let_def)

lemma memory_journal_settles:
  "moves (settles (n_sha256 env)) (record_write env op fm body at origin i)"
  "moves (settles sha) (record_tombstone memory hash repository at origin i)"
proof -
  show "moves (settles (n_sha256 env)) (record_write env op fm body at origin i)"
  proof (rule movesI)
    fix d x d' assume "record_write env op fm body at origin i d = Inr (x, d')"
    then obtain m bytes digest legacy d1 where canon: "memory_canonical env m = Inr (bytes, digest)"
      and log: "append_sync_log op (fmt_id fm) (fmt_hash fm) at origin d = Inr (legacy, d1)"
      and rest: "journal_memory legacy \<lparr>no_id = i, no_kind = memory_kind, no_key = fmt_id fm,
       no_op = op, no_payload = Some (digest, bytes), no_schema = payload_version,
       no_repository = label_option (fmt_repo fm), no_origin = origin, no_at = at\<rparr> d1 = Inr (x, d')"
      unfolding record_write_def by (auto simp: stmt_Inr_iff res_simps)
    have "digest = n_sha256 env bytes" using canon canonical_addressed by (auto simp: memory_canonical_def)
    then show "settles (n_sha256 env) d d'"
      by (intro transpD [OF settles_order(2) movesD [OF log_settles log] journal_memory_settles [OF _ rest]])
        (simp add: content_addressed_def)
  qed
  show "moves (settles sha) (record_tombstone memory hash repository at origin i)"
    unfolding record_tombstone_def
    by (intro moves_seq log_settles settles_order(2))
      (auto simp: content_addressed_def intro!: movesI journal_memory_settles)
qed

end
