(* ===== verification/Replica_Client.thy ===== *)
theory Replica_Client
  imports Replica_Outcome
begin

text \<open>
  The tables a client of an upstream keeps, and the statements on them: what the upstream last
  held of each entity (\<open>src/store/replica_binding.rs\<close>), how far its feed was applied
  (\<open>replica_cursor.rs\<close>), which positions were passed without being applied
  (\<open>replica_pull_hold.rs\<close>), why a pending operation is not sent (\<open>replica_outbox_hold.rs\<close>);
  the repository policy's lookup (\<open>domains/sync/repository_policy.rs\<close>), the session key a row
  belongs to (\<open>drain/keying.rs\<close>) and the activation of an accepted generation
  (\<open>drain/code_capture.rs\<close>).
\<close>

section \<open>Bindings\<close>

record binding =
  bd_kind :: string
  bd_entity :: string
  bd_digest :: "string option"
  bd_deleted :: bool
  bd_sequence :: "int option"
  bd_epoch :: "string option"

definition binds :: "exchange_key \<Rightarrow> string \<Rightarrow> string \<Rightarrow> sync_binding_row \<Rightarrow> bool" where
  "binds key kind entity r \<longleftrightarrow> sb_key r = key \<and> sb_kind r = kind \<and> sb_entity r = entity"

definition binding_row_of :: "exchange_key \<Rightarrow> binding \<Rightarrow> string \<Rightarrow> sync_binding_row" where
  "binding_row_of key b at = \<lparr>sb_key = key, sb_kind = bd_kind b, sb_entity = bd_entity b,
     sb_digest = bd_digest b, sb_deleted = (if bd_deleted b then 1 else 0),
     sb_sequence = bd_sequence b, sb_epoch = bd_epoch b, sb_updated = at\<rparr>"

definition upsert_binding :: "exchange_key \<Rightarrow> binding \<Rightarrow> string \<Rightarrow> ('m rdb, unit) stmt" where
  "upsert_binding key b at = change (\<lambda>d. d\<lparr>rd_bindings :=
     (if \<exists>r \<in> set (rd_bindings d). binds key (bd_kind b) (bd_entity b) r
      then map (\<lambda>r. if binds key (bd_kind b) (bd_entity b) r then binding_row_of key b at else r)
             (rd_bindings d)
      else rd_bindings d @ [binding_row_of key b at])\<rparr>)"

definition decode_binding :: "sync_binding_row \<Rightarrow> binding" where
  "decode_binding r = \<lparr>bd_kind = sb_kind r, bd_entity = sb_entity r, bd_digest = sb_digest r,
     bd_deleted = (sb_deleted r \<noteq> 0), bd_sequence = sb_sequence r, bd_epoch = sb_epoch r\<rparr>"

definition select_bindings ::
  "'m rdb \<Rightarrow> exchange_key \<Rightarrow> (string \<times> string) option \<Rightarrow> binding list" where
  "select_bindings d key entity =
     map decode_binding (sort_key (\<lambda>r. (sb_kind r, sb_entity r)) (filter (\<lambda>r.
       sb_key r = key \<and>
       (case entity of None \<Rightarrow> True | Some (kind, i) \<Rightarrow> sb_kind r = kind \<and> sb_entity r = i))
       (rd_bindings d)))"

definition synced_binding :: "'m rdb \<Rightarrow> exchange_key \<Rightarrow> string \<Rightarrow> string \<Rightarrow> binding option" where
  "synced_binding d key kind entity =
     (let bs = select_bindings d key (Some (kind, entity)) in if bs = [] then None else Some (last bs))"

definition all_bindings :: "'m rdb \<Rightarrow> exchange_key \<Rightarrow> binding list" where
  "all_bindings d key = select_bindings d key None"

text \<open>Most recently bound first; of rows of one time, the later row first.\<close>

definition keys_for :: "'m rdb \<Rightarrow> string \<Rightarrow> string \<Rightarrow> exchange_key list" where
  "keys_for d kind entity =
     map sb_key (rev (sort_key sb_updated (filter (\<lambda>r. sb_kind r = kind \<and> sb_entity r = entity)
       (rd_bindings d))))"

definition clear_sequences :: "exchange_key \<Rightarrow> ('m rdb, nat) stmt" where
  "clear_sequences key d =
     Inr (length (filter (\<lambda>r. sb_key r = key) (rd_bindings d)),
          d\<lparr>rd_bindings := map (\<lambda>r. if sb_key r = key
              then r\<lparr>sb_sequence := None, sb_epoch := None\<rparr> else r) (rd_bindings d)\<rparr>)"

section \<open>The cursor\<close>

text \<open>\<open>Cursor\<close> with its \<open>Anchor\<close>, the entry at the position.\<close>

record pull_cursor =
  pc_key :: exchange_key
  pc_epoch :: string
  pc_applied :: int
  pc_anchor :: "(int \<times> string) option"

definition load_cursor :: "'m rdb \<Rightarrow> exchange_key \<Rightarrow> pull_cursor option" where
  "load_cursor d key =
     map_option (\<lambda>r. \<lparr>pc_key = key, pc_epoch = cw_epoch r, pc_applied = cw_applied r,
         pc_anchor = cw_anchor r\<rparr>)
       (find (\<lambda>r. cw_key r = key) (rd_cursors d))"

definition cursor_row_of :: "pull_cursor \<Rightarrow> string \<Rightarrow> cursor_row" where
  "cursor_row_of c at = \<lparr>cw_key = pc_key c, cw_epoch = pc_epoch c, cw_applied = pc_applied c,
     cw_anchor = pc_anchor c, cw_updated = at\<rparr>"

definition save_cursor :: "pull_cursor \<Rightarrow> string \<Rightarrow> ('m rdb, unit) stmt" where
  "save_cursor c at = change (\<lambda>d. d\<lparr>rd_cursors :=
     (if \<exists>r \<in> set (rd_cursors d). cw_key r = pc_key c
      then map (\<lambda>r. if cw_key r = pc_key c then cursor_row_of c at else r) (rd_cursors d)
      else rd_cursors d @ [cursor_row_of c at])\<rparr>)"

section \<open>Held positions\<close>

record pull_hold =
  ph_from :: int
  ph_to :: int
  ph_reason :: string
  ph_kind :: "string option"
  ph_entity :: "string option"
  ph_repository :: "string option"
  ph_revision :: "int option"

text \<open>\<open>LEGACY_EPOCH\<close>, and the literals of the column's \<open>CHECK\<close>.\<close>

definition legacy_epoch :: string where "legacy_epoch = ''legacy''"

definition hold_reasons :: "string list" where
  "hold_reasons = [''policy'', ''pending_local'', ''server_withheld'', ''secret'', ''id_collision'']"

definition hold_at :: "exchange_key \<Rightarrow> string \<Rightarrow> int \<Rightarrow> hold_row \<Rightarrow> bool" where
  "hold_at key epoch from r \<longleftrightarrow> hd_key r = key \<and> hd_epoch r = epoch \<and> hd_from r = from"

definition record_hold :: "exchange_key \<Rightarrow> string \<Rightarrow> pull_hold \<Rightarrow> string \<Rightarrow> ('m rdb, unit) stmt" where
  "record_hold key epoch h at =
     guarded (\<lambda>_. ph_reason h \<in> set hold_reasons)
       (check_failed (''reason IN ('policy', 'pending_local', 'server_withheld', '' @
          [CHR 0x27] @ ''secret', 'id_collision')''))
       (change (\<lambda>d. d\<lparr>rd_holds := filter (\<lambda>r. \<not> hold_at key epoch (ph_from h) r) (rd_holds d) @ [\<lparr>
          hd_key = key, hd_epoch = epoch, hd_from = ph_from h, hd_to = ph_to h,
          hd_reason = ph_reason h, hd_kind = ph_kind h, hd_entity = ph_entity h,
          hd_repository = ph_repository h, hd_policy_revision = ph_revision h,
          hd_recorded = at\<rparr>]\<rparr>))"

definition decode_hold :: "hold_row \<Rightarrow> pull_hold" where
  "decode_hold r = \<lparr>ph_from = hd_from r, ph_to = hd_to r, ph_reason = hd_reason r,
     ph_kind = hd_kind r, ph_entity = hd_entity r, ph_repository = hd_repository r,
     ph_revision = hd_policy_revision r\<rparr>"

definition list_holds :: "'m rdb \<Rightarrow> exchange_key \<Rightarrow> string \<Rightarrow> pull_hold list" where
  "list_holds d key epoch = map decode_hold (sort_key hd_from
     (filter (\<lambda>r. hd_key r = key \<and> hd_epoch r = epoch) (rd_holds d)))"

datatype which_holds =
    HoldAt string int
  | HoldsReplica

fun named_hold :: "which_holds \<Rightarrow> hold_row \<Rightarrow> bool" where
  "named_hold (HoldAt epoch from) r \<longleftrightarrow> hd_epoch r = epoch \<and> hd_from r = from"
| "named_hold HoldsReplica r \<longleftrightarrow> hd_epoch r \<noteq> legacy_epoch"

definition drop_holds :: "exchange_key \<Rightarrow> which_holds \<Rightarrow> ('m rdb, nat) stmt" where
  "drop_holds key which d =
     (let named = (\<lambda>r. hd_key r = key \<and> named_hold which r)
      in Inr (length (filter named (rd_holds d)), d\<lparr>rd_holds := filter (\<lambda>r. \<not> named r) (rd_holds d)\<rparr>))"

text \<open>\<open>counts\<close>: positions per reason, in \<open>i64\<close> that saturates.\<close>

definition saturated :: "int \<Rightarrow> int" where
  "saturated n = max (- (2 ^ 63)) (min (2 ^ 63 - 1) n)"

fun add_count :: "string \<Rightarrow> int \<Rightarrow> (string \<times> int) list \<Rightarrow> (string \<times> int) list" where
  "add_count reason n [] = [(reason, n)]"
| "add_count reason n ((r, k) # cs) =
     (if r = reason then (r, saturated (k + n)) # cs else (r, k) # add_count reason n cs)"

definition hold_counts :: "'m rdb \<Rightarrow> exchange_key \<Rightarrow> (string \<times> int) list" where
  "hold_counts d key =
     sort (fold (\<lambda>r. add_count (hd_reason r) (saturated (saturated (hd_to r - hd_from r) + 1)))
       (filter (\<lambda>r. hd_key r = key) (rd_holds d)) [])"

section \<open>Why a pending operation is not sent\<close>

datatype outbox_hold =
    HoldPolicy | HoldSecret | HoldSkipRepos | HoldWorkspace | HoldIncompatible | HoldOrder | HoldUpgrade

fun hold_str :: "outbox_hold \<Rightarrow> string" where
  "hold_str HoldPolicy = ''policy''"
| "hold_str HoldSecret = ''secret''"
| "hold_str HoldSkipRepos = ''skip_repos''"
| "hold_str HoldWorkspace = ''workspace''"
| "hold_str HoldIncompatible = ''incompatible''"
| "hold_str HoldOrder = ''order''"
| "hold_str HoldUpgrade = ''upgrade''"

definition all_outbox_holds :: "outbox_hold list" where
  "all_outbox_holds = [HoldPolicy, HoldSecret, HoldSkipRepos, HoldWorkspace, HoldIncompatible,
     HoldOrder, HoldUpgrade]"

definition parse_hold :: "string \<Rightarrow> error + outbox_hold" where
  "parse_hold raw =
     ok_or (find (\<lambda>h. hold_str h = raw) all_outbox_holds) (Other (''unknown outbox hold: '' @ raw))"

datatype hold_target =
    OneOperation string
  | Unstamped "string option"

datatype hold_change =
    SetHold "(outbox_hold \<times> string) option"
  | StampKey exchange_key
  | WireFields "string option" "int option"

fun targeted :: "hold_target \<Rightarrow> outbox_row \<Rightarrow> bool" where
  "targeted (OneOperation i) r \<longleftrightarrow> ob_operation r = i"
| "targeted (Unstamped through) r \<longleftrightarrow> ob_state r = ''pending'' \<and> ob_api_url r = None \<and>
     (case through of None \<Rightarrow> True | Some t \<Rightarrow> ob_created r \<le> t)"

fun with_change :: "hold_change \<Rightarrow> string \<Rightarrow> outbox_row \<Rightarrow> outbox_row" where
  "with_change (SetHold h) at r =
     r\<lparr>ob_hold_reason := map_option (\<lambda>(h, _). hold_str h) h, ob_hold_detail := map_option snd h,
       ob_updated := at\<rparr>"
| "with_change (StampKey key) at r =
     r\<lparr>ob_api_url := Some (xk_api_url key), ob_workspace := Some (xk_workspace key), ob_updated := at\<rparr>"
| "with_change (WireFields repository observed) at r =
     r\<lparr>ob_wire_repository := repository, ob_observed := observed, ob_updated := at\<rparr>"

definition update_outbox :: "hold_target \<Rightarrow> hold_change \<Rightarrow> string \<Rightarrow> ('m rdb, nat) stmt" where
  "update_outbox target c at d =
     Inr (length (filter (targeted target) (rd_outbox d)),
          d\<lparr>rd_outbox := map (\<lambda>r. if targeted target r then with_change c at r else r) (rd_outbox d)\<rparr>)"

record outbox_counts =
  oc_pending :: int
  oc_retryable :: int
  oc_held :: "(outbox_hold \<times> int) list"
  oc_rejected :: int

definition count_row :: "outbox_row \<Rightarrow> outbox_counts \<Rightarrow> error + outbox_counts" where
  "count_row r c =
     (if ob_state r = ''rejected'' then Inr (c\<lparr>oc_rejected := oc_rejected c + 1\<rparr>)
      else case ob_hold_reason r of
        Some raw \<Rightarrow> and_then (parse_hold raw) (\<lambda>h.
          Inr (c\<lparr>oc_held := map (\<lambda>(h', n). (h', if h' = h then n + 1 else n)) (oc_held c)\<rparr>))
      | None \<Rightarrow>
          if 0 < ob_attempts r then Inr (c\<lparr>oc_retryable := oc_retryable c + 1\<rparr>)
          else Inr (c\<lparr>oc_pending := oc_pending c + 1\<rparr>))"

fun count_rows :: "outbox_row list \<Rightarrow> outbox_counts \<Rightarrow> error + outbox_counts" where
  "count_rows [] c = Inr c"
| "count_rows (r # rs) c = and_then (count_row r c) (count_rows rs)"

definition count_outbox :: "'m rdb \<Rightarrow> error + outbox_counts" where
  "count_outbox d =
     count_rows (filter (\<lambda>r. ob_state r \<noteq> ''accepted'') (rd_outbox d))
       \<lparr>oc_pending = 0, oc_retryable = 0, oc_held = map (\<lambda>h. (h, 0)) all_outbox_holds, oc_rejected = 0\<rparr>"

section \<open>The repository policy\<close>

text \<open>\<open>RepositoryPolicy\<close>; \<open>lower\<close> is \<open>str::to_lowercase\<close>, whose Unicode tables are not
  modelled. The maps are association lists with one entry per label.\<close>

record repository_policy =
  pol_workspace :: string
  pol_revision :: int
  pol_allowed :: "string list"
  pol_mappings :: "(string \<times> string) list"
  pol_identities :: "(string \<times> string) list"

definition normalize_label :: "(string \<Rightarrow> string) \<Rightarrow> string \<Rightarrow> string" where
  "normalize_label lower label = lower (trim label)"

definition memory_repository :: "(string \<Rightarrow> string) \<Rightarrow> repository_policy \<Rightarrow> string \<Rightarrow> string option" where
  "memory_repository lower p raw =
     (let label = normalize_label lower raw;
          canonical = canonical_github_name label
      in if label = [] then None
         else if (case canonical of None \<Rightarrow> False | Some c \<Rightarrow> c \<in> set (pol_allowed p)) then canonical
         else (case (case map_of (pol_mappings p) label of
                       None \<Rightarrow> map_of (pol_identities p) label
                     | Some c \<Rightarrow> Some c) of
                 None \<Rightarrow> None
               | Some c \<Rightarrow> if c \<in> set (pol_allowed p) then Some c else None))"

definition code_repository :: "(string \<Rightarrow> string) \<Rightarrow> repository_policy \<Rightarrow> string \<Rightarrow> string option" where
  "code_repository lower p label =
     (case map_of (pol_identities p) (normalize_label lower label) of
        None \<Rightarrow> None
      | Some c \<Rightarrow> if c \<in> set (pol_allowed p) then Some c else None)"

section \<open>Whose an operation is (\<open>drain/keying.rs\<close>)\<close>

definition stamp_outgoing :: "exchange_key \<Rightarrow> string \<Rightarrow> ('m rdb, nat) stmt" where
  "stamp_outgoing key at = update_outbox (Unstamped None) (StampKey key) at"

text \<open>The last session that ended, the greater key first among equal times.\<close>

definition last_used :: "'m rdb \<Rightarrow> (string \<times> exchange_key) option" where
  "last_used d =
     (let ended = List.map_filter (\<lambda>r. map_option (\<lambda>t. (t, xr_key r)) (xr_last_session_at r)) (rd_exchange d);
          rank = (\<lambda>(t, k). (t, xk_api_url k, xk_workspace k))
      in if ended = [] then None else Some (last (sort_key rank ended)))"

definition apply_last_used_rule :: "exchange_key \<Rightarrow> string \<Rightarrow> ('m rdb, nat) stmt" where
  "apply_last_used_rule current at d =
     (case last_used d of
        Some (ended, key) \<Rightarrow>
          if key \<noteq> current then update_outbox (Unstamped (Some ended)) (StampKey key) at d
          else Inr (0, d)
      | None \<Rightarrow> Inr (0, d))"

definition foreign_owner :: "'m rdb \<Rightarrow> exchange_key \<Rightarrow> string \<Rightarrow> string \<Rightarrow> exchange_key option" where
  "foreign_owner d current kind entity =
     (case keys_for d kind entity of
        [] \<Rightarrow> None
      | k # ks \<Rightarrow> if current \<in> set (k # ks) then None else Some k)"

section \<open>Activating an accepted generation (\<open>drain/code_capture.rs\<close>)\<close>

definition capture_activate :: "string \<Rightarrow> string \<Rightarrow> string \<Rightarrow> ('m rdb, unit) stmt" where
  "capture_activate canonical digest at =
     seq (query (all_generations canonical)) (\<lambda>gs.
     case find (\<lambda>g. gn_digest g = digest) gs of
       None \<Rightarrow> done_with ()
     | Some g \<Rightarrow> activate_following canonical (gn_id g) at)"

end
