(* ===== verification/Replica_Pull.thy ===== *)
theory Replica_Pull
  imports Replica_Client
begin

text \<open>
  Following an upstream: the page of changes an engine serves
  (\<open>src/domains/sync/replica/changes.rs\<close>), one pulled entry applied in the upstream's order
  (\<open>pulled.rs\<close>), what an entry deserves (\<open>drain/pull_rules.rs\<close>), a page resolved and the
  cursor moved (\<open>drain/pull.rs\<close>), and the rewind for held positions (\<open>drain/holds.rs\<close>).

  The answer of the upstream and the stored policy are arguments. The seeding that precedes a
  served page, which journals rows older versions never journalled, is an argument too; the
  refresh of the derived graph, whose result the code drops, is left out.
\<close>

section \<open>Serving a page\<close>

definition payload_state_of :: "redaction option \<Rightarrow> string option \<Rightarrow> payload_state" where
  "payload_state_of redaction payload =
     (case (redaction, payload) of
        (Some Erased, _) \<Rightarrow> StateErased
      | (Some Expired, _) \<Rightarrow> StateExpired
      | (None, Some _) \<Rightarrow> Present
      | (None, None) \<Rightarrow> Absent)"

definition stored_json :: "replica_env \<Rightarrow> string \<Rightarrow> error + json" where
  "stored_json env text =
     (case n_from_str env text of
        Inl e \<Rightarrow> Inl (Other (''stored payload is not json: '' @ e))
      | Inr v \<Rightarrow> Inr v)"

definition change_entry_of :: "replica_env \<Rightarrow> feed_view \<Rightarrow> error + change_entry" where
  "change_entry_of env v =
     and_then (transpose_opt (stored_json env) (fv_payload v)) (\<lambda>payload. Inr \<lparr>
       ce_sequence = fv_sequence v, ce_id = fv_operation v, ce_kind = fv_kind v, ce_key = fv_key v,
       ce_op = fv_op v, ce_schema = fv_schema v, ce_digest = fv_digest v, ce_payload = payload,
       ce_state = payload_state_of (fv_redaction v) (fv_payload v),
       ce_repository = fv_repository v, ce_at = fv_at v\<rparr>)"

definition page_limits :: "nat \<times> nat" where "page_limits = (1, 500)"

definition serve_changes ::
  "replica_env \<Rightarrow> ('f, 'm, unit) run \<Rightarrow> int \<Rightarrow> nat \<Rightarrow> string option \<Rightarrow> string option \<Rightarrow>
   ('f, 'm, changes_response) run" where
  "serve_changes env seed since limit kind epoch =
     andthen (reads stream_epoch) (\<lambda>stream.
     andthen (known (check_cursor
         (map_option (\<lambda>e. \<lparr>cu_epoch = e, cu_sequence = since\<rparr>) epoch) stream)) (\<lambda>_.
     andthen seed (\<lambda>_.
     andthen (reads (\<lambda>d. Inr (feed_head d))) (\<lambda>head.
     andthen (known (check_position since head)) (\<lambda>_.
     andthen (reads (\<lambda>d. feed_scan d since
         (max (fst page_limits) (min (snd page_limits) limit)) kind)) (\<lambda>(rows, next_sequence).
     andthen (known (traverse (change_entry_of env) rows)) (\<lambda>entries.
     finish \<lparr>cr_protocol = protocol, cr_epoch = stream, cr_head = head, cr_next = next_sequence,
             cr_entries = entries\<rparr>)))))))"

section \<open>Applying one pulled entry\<close>

datatype pulled =
    PulledApplied
  | PulledDuplicate
  | PulledRefused disposition

definition operation_of :: "change_entry \<Rightarrow> replica_operation" where
  "operation_of e = \<lparr>o_id = ce_id e, o_kind = ce_kind e, o_key = ce_key e, o_op = ce_op e,
     o_schema = ce_schema e, o_digest = ce_digest e, o_payload = ce_payload e, o_observed = None,
     o_repository = ce_repository e, o_vector = None\<rparr>"

text \<open>\<open>Landing\<close>; a rewrite is journalled under the id \<open>operation_id::mint\<close> answers.\<close>

datatype landing =
    Received
  | Rewrite string

fun landed :: "landing \<Rightarrow> replica_operation \<Rightarrow> replica_operation" where
  "landed Received op = op"
| "landed (Rewrite minted) op = op\<lparr>o_id := minted\<rparr>"

definition apply_pulled ::
  "replica_env \<Rightarrow> ('f, 'm) memory_store \<Rightarrow> change_entry \<Rightarrow> landing \<Rightarrow> ('f, 'm, pulled) run" where
  "apply_pulled env store entry way =
     (let op = landed way (operation_of entry)
      in andthen (reads (\<lambda>d. Inr (replayed env d op))) (\<lambda>answered.
         if way = Received \<and> answered \<noteq> None then finish PulledDuplicate
         else case kind_and_shape env op of
           Some refusal \<Rightarrow> finish (PulledRefused refusal)
         | None \<Rightarrow>
             andthen (reads (\<lambda>d. Inr (Option.bind (o_digest op) (redaction_of d)))) (\<lambda>redaction.
             if ce_state entry = StateErased \<or> redaction = Some Erased
             then finish (PulledRefused PayloadErased)
             else if ce_state entry = StateExpired \<or> redaction = Some Expired
             then finish (PulledRefused PayloadExpired)
             else andthen (reads (\<lambda>d. Inr (known_event d op))) (\<lambda>held.
               case held of
                 Some Duplicate \<Rightarrow> finish PulledDuplicate
               | Some other \<Rightarrow> finish (PulledRefused other)
               | None \<Rightarrow>
                   andthen (reads stream_epoch) (\<lambda>epoch.
                   andthen (materialize env store epoch op Upstream) (\<lambda>_.
                   finish PulledApplied))))))"

section \<open>What an entry deserves\<close>

datatype pull_rule =
    RuleOwn
  | RuleUnreadable string
  | RuleSuperseded
  | RuleUnapproved string
  | RuleAlreadyUpstream "string list"
  | RulePendingLocal
  | RulePayloadGone
  | RuleApply

text \<open>The session a pull runs under: \<open>Pull\<close> and \<open>Step\<close>. \<open>pu_sqlite\<close> is the text of a
  \<open>rusqlite\<close> error.\<close>

record pull_context =
  pu_key :: exchange_key
  pu_policy :: repository_policy
  pu_lower :: "string \<Rightarrow> string"
  pu_managed :: "int option"
  pu_sqlite :: "sqlite_error \<Rightarrow> string"
  pu_at :: string

definition same_bytes :: "change_entry \<Rightarrow> outbox_row \<times> replica_op \<Rightarrow> bool" where
  "same_bytes entry p \<longleftrightarrow>
     (if ce_op entry = Tombstone then snd p = Tombstone
      else snd p \<noteq> Tombstone \<and> ob_digest (fst p) = ce_digest entry)"

text \<open>The oldest pending operation with these bytes, and every one older.\<close>

fun already_upstream :: "(outbox_row \<times> replica_op) list \<Rightarrow> change_entry \<Rightarrow> string list option" where
  "already_upstream [] entry = None"
| "already_upstream (p # ps) entry =
     (if same_bytes entry p then Some [ob_operation (fst p)]
      else map_option ((#) (ob_operation (fst p))) (already_upstream ps entry))"

definition is_superseded :: "'m rdb \<Rightarrow> exchange_key \<Rightarrow> string \<Rightarrow> change_entry \<Rightarrow> bool" where
  "is_superseded d key epoch entry \<longleftrightarrow>
     (case synced_binding d key (ce_kind entry) (ce_key entry) of
        None \<Rightarrow> False
      | Some b \<Rightarrow> bd_epoch b = Some epoch \<and>
          (case bd_sequence b of None \<Rightarrow> False | Some n \<Rightarrow> ce_sequence entry \<le> n))"

text \<open>\<open>usize::MAX\<close> rows are all rows.\<close>

definition pending_of :: "'m rdb \<Rightarrow> string \<Rightarrow> string \<Rightarrow> error + (outbox_row \<times> replica_op) list" where
  "pending_of d kind key = read_outbox d (ScopeEntity kind key) (length (rd_outbox d))"

definition classify_entry ::
  "'m rdb \<Rightarrow> pull_context \<Rightarrow> string \<Rightarrow> change_entry \<Rightarrow> error + pull_rule" where
  "classify_entry d cx epoch entry =
     and_then (read_outbox d (ScopeOperation (ce_id entry)) 1) (\<lambda>own.
     let kind = ce_kind entry @ ''@'' @ show_int (ce_schema entry);
         repository = (case ce_repository entry of None \<Rightarrow> [] | Some r \<Rightarrow> r);
         gone = (ce_op entry \<noteq> Tombstone \<and> ce_state entry \<noteq> Present)
     in if own \<noteq> [] then Inr RuleOwn
        else if kind \<notin> set advertised then Inr (RuleUnreadable kind)
        else if is_superseded d (pu_key cx) epoch entry then Inr RuleSuperseded
        else if memory_repository (pu_lower cx) (pu_policy cx) repository = None
        then Inr (RuleUnapproved repository)
        else if ce_kind entry = memory_kind
        then and_then (pending_of d (ce_kind entry) (ce_key entry)) (\<lambda>pending.
             case already_upstream pending entry of
               Some ids \<Rightarrow> Inr (RuleAlreadyUpstream ids)
             | None \<Rightarrow>
                 if pending \<noteq> [] then Inr RulePendingLocal
                 else if gone then Inr RulePayloadGone else Inr RuleApply)
        else if gone then Inr RulePayloadGone else Inr RuleApply)"

section \<open>Resolving one entry\<close>

datatype transport_failure =
    FailAuth int
  | FailRateLimited "int option"
  | FailUnavailable string
  | FailRestoreUnverified string
  | FailNotFound
  | FailConflict string
  | FailRefused string
  | FailProtocol string

fun replaced_stream :: "transport_failure \<Rightarrow> bool" where
  "replaced_stream (FailConflict code) \<longleftrightarrow> code = ''epoch_mismatch'' \<or> code = ''cursor_ahead''"
| "replaced_stream _ \<longleftrightarrow> False"

record paged =
  pg_applied :: int
  pg_held :: int
  pg_settled :: int
  pg_skipped :: int
  pg_advanced :: bool
  pg_stalled :: "(int \<times> string) option"
  pg_head :: int
  pg_rebootstrap :: bool
  pg_failure :: "transport_failure option"

definition no_page :: paged where
  "no_page = \<lparr>pg_applied = 0, pg_held = 0, pg_settled = 0, pg_skipped = 0, pg_advanced = False,
     pg_stalled = None, pg_head = 0, pg_rebootstrap = False, pg_failure = None\<rparr>"

fun each_run :: "('a \<Rightarrow> ('f, 'm, unit) run) \<Rightarrow> 'a list \<Rightarrow> ('f, 'm, unit) run" where
  "each_run f [] = finish ()"
| "each_run f (x # xs) = andthen (f x) (\<lambda>_. each_run f xs)"

definition settle_entry ::
  "pull_context \<Rightarrow> string \<Rightarrow> change_entry \<Rightarrow> string list \<Rightarrow> string \<Rightarrow> ('f, 'm, unit) run" where
  "settle_entry cx epoch entry ids disposition =
     andthen (each_run (\<lambda>i. andthen (autocommit (record_outcome i
         (UploadAccepted (Some (ce_sequence entry)) disposition (Some epoch)) (pu_at cx)))
         (\<lambda>_. finish ())) ids) (\<lambda>_.
     case ce_digest entry of
       Some digest \<Rightarrow>
         if ce_kind entry = code_kind then autocommit (capture_activate (ce_key entry) digest (pu_at cx))
         else finish ()
     | None \<Rightarrow> finish ())"

definition hold_entry ::
  "pull_context \<Rightarrow> string \<Rightarrow> change_entry \<Rightarrow> string \<Rightarrow> string option \<Rightarrow> ('f, 'm, unit) run" where
  "hold_entry cx epoch entry reason repository =
     autocommit (record_hold (pu_key cx) epoch \<lparr>ph_from = ce_sequence entry, ph_to = ce_sequence entry,
       ph_reason = reason, ph_kind = Some (ce_kind entry), ph_entity = Some (ce_key entry),
       ph_repository = repository, ph_revision = pu_managed cx\<rparr> (pu_at cx))"

definition entry_binding :: "string \<Rightarrow> change_entry \<Rightarrow> binding" where
  "entry_binding epoch entry = \<lparr>bd_kind = ce_kind entry, bd_entity = ce_key entry,
     bd_digest = ce_digest entry, bd_deleted = (ce_op entry = Tombstone),
     bd_sequence = Some (ce_sequence entry), bd_epoch = Some epoch\<rparr>"

definition bind_entry :: "pull_context \<Rightarrow> string \<Rightarrow> change_entry \<Rightarrow> ('f, 'm, unit) run" where
  "bind_entry cx epoch entry = autocommit (upsert_binding (pu_key cx) (entry_binding epoch entry) (pu_at cx))"

text \<open>Rules 8 and 9: why the pull stalls on the entry, if it does.\<close>

definition apply_entry ::
  "replica_env \<Rightarrow> ('f, 'm) memory_store \<Rightarrow> pull_context \<Rightarrow> change_entry \<Rightarrow>
   ('f, 'm, string option) run" where
  "apply_entry env store cx entry s =
     (case apply_pulled env store entry Received s of
        (Inr (PulledRefused why), s') \<Rightarrow> (Inr (Some (disposition_str why)), s')
      | (Inr _, s') \<Rightarrow> (Inr None, s')
      | (Inl e, s') \<Rightarrow> (Inr (Some (error_message (pu_sqlite cx) e)), s'))"

definition resolve_entry ::
  "replica_env \<Rightarrow> ('f, 'm) memory_store \<Rightarrow> pull_context \<Rightarrow> string \<Rightarrow> change_entry \<Rightarrow> paged \<Rightarrow>
   ('f, 'm, string option \<times> paged) run" where
  "resolve_entry env store cx epoch entry p =
     (let bound = (\<lambda>p'. andthen (bind_entry cx epoch entry) (\<lambda>_. finish (None, p')));
          skipped = finish (None, p\<lparr>pg_skipped := pg_skipped p + 1\<rparr>);
          held = (\<lambda>reason repository. andthen (hold_entry cx epoch entry reason repository)
            (\<lambda>_. finish (None, p\<lparr>pg_held := pg_held p + 1\<rparr>)))
      in andthen (reads (\<lambda>d. classify_entry d cx epoch entry)) (\<lambda>rule.
         case rule of
           RuleOwn \<Rightarrow>
             andthen (settle_entry cx epoch entry [ce_id entry] ''accepted'') (\<lambda>_.
             bound (p\<lparr>pg_settled := pg_settled p + 1\<rparr>))
         | RuleAlreadyUpstream ids \<Rightarrow>
             andthen (settle_entry cx epoch entry ids ''already_upstream'') (\<lambda>_.
             bound (p\<lparr>pg_settled := pg_settled p + min (int (length ids)) (2 ^ 32 - 1)\<rparr>))
         | RuleUnreadable _ \<Rightarrow> finish (Some ''incompatible_version'', p)
         | RuleSuperseded \<Rightarrow> skipped
         | RulePayloadGone \<Rightarrow> skipped
         | RuleUnapproved repository \<Rightarrow> held ''policy'' (Some repository)
         | RulePendingLocal \<Rightarrow> held ''pending_local'' None
         | RuleApply \<Rightarrow>
             andthen (apply_entry env store cx entry) (\<lambda>stall.
             case stall of
               Some reason \<Rightarrow> finish (Some reason, p)
             | None \<Rightarrow> bound (p\<lparr>pg_applied := pg_applied p + 1\<rparr>))))"

section \<open>One page\<close>

text \<open>The positions a managed server skipped between the cursor and \<open>through\<close>.\<close>

definition record_gap :: "pull_context \<Rightarrow> pull_cursor \<Rightarrow> int \<Rightarrow> ('f, 'm, unit) run" where
  "record_gap cx c through =
     (case pu_managed cx of
        None \<Rightarrow> finish ()
      | Some revision \<Rightarrow>
          if through < pc_applied c + 1 then finish ()
          else autocommit (record_hold (pu_key cx) (pc_epoch c) \<lparr>ph_from = pc_applied c + 1,
            ph_to = through, ph_reason = ''server_withheld'', ph_kind = None, ph_entity = None,
            ph_repository = None, ph_revision = Some revision\<rparr> (pu_at cx)))"

fun walk_entries ::
  "replica_env \<Rightarrow> ('f, 'm) memory_store \<Rightarrow> pull_context \<Rightarrow> change_entry list \<Rightarrow> pull_cursor \<Rightarrow> paged \<Rightarrow>
   ('f, 'm, pull_cursor \<times> paged) run" where
  "walk_entries env store cx [] c p = finish (c, p)"
| "walk_entries env store cx (e # es) c p =
     andthen (record_gap cx c (ce_sequence e - 1)) (\<lambda>_.
     andthen (resolve_entry env store cx (pc_epoch c) e p) (\<lambda>(stall, p1).
     case stall of
       Some reason \<Rightarrow> finish (c, p1\<lparr>pg_stalled := Some (ce_sequence e, reason)\<rparr>)
     | None \<Rightarrow>
         let c1 = c\<lparr>pc_applied := ce_sequence e, pc_anchor := Some (ce_sequence e, ce_id e)\<rparr>
         in andthen (autocommit (save_cursor c1 (pu_at cx))) (\<lambda>_.
            walk_entries env store cx es c1 (p1\<lparr>pg_advanced := True\<rparr>))))"

definition walk_page ::
  "replica_env \<Rightarrow> ('f, 'm) memory_store \<Rightarrow> pull_context \<Rightarrow> changes_response \<Rightarrow> pull_cursor \<Rightarrow> paged \<Rightarrow>
   ('f, 'm, pull_cursor \<times> paged) run" where
  "walk_page env store cx response c p =
     andthen (walk_entries env store cx (cr_entries response) c p) (\<lambda>(c1, p1).
     if pg_stalled p1 \<noteq> None then finish (c1, p1)
     else case cr_next response of
       None \<Rightarrow> finish (c1, p1)
     | Some n \<Rightarrow>
         if n \<le> pc_applied c1 then finish (c1, p1)
         else let c2 = c1\<lparr>pc_applied := n, pc_anchor := None\<rparr>
              in andthen (record_gap cx c1 n) (\<lambda>_.
                 andthen (autocommit (save_cursor c2 (pu_at cx))) (\<lambda>_.
                 finish (c2, p1\<lparr>pg_advanced := True\<rparr>))))"

definition pull_page ::
  "replica_env \<Rightarrow> ('f, 'm) memory_store \<Rightarrow> pull_context \<Rightarrow> transport_failure + changes_response \<Rightarrow>
   pull_cursor \<Rightarrow> ('f, 'm, pull_cursor \<times> paged) run" where
  "pull_page env store cx got c =
     (case got of
        Inl failure \<Rightarrow>
          if replaced_stream failure then finish (c, no_page\<lparr>pg_rebootstrap := True\<rparr>)
          else finish (c, no_page\<lparr>pg_failure := Some failure\<rparr>)
      | Inr response \<Rightarrow>
          let p = no_page\<lparr>pg_head := cr_head response\<rparr>
          in if pc_epoch c = [] then walk_page env store cx response (c\<lparr>pc_epoch := cr_epoch response\<rparr>) p
             else if pc_epoch c \<noteq> cr_epoch response then finish (c, p\<lparr>pg_rebootstrap := True\<rparr>)
             else walk_page env store cx response c p)"

section \<open>Coming back for held positions (\<open>drain/holds.rs\<close>)\<close>

definition hold_is_due :: "'m rdb \<Rightarrow> pull_context \<Rightarrow> pull_hold \<Rightarrow> error + bool" where
  "hold_is_due d cx h =
     (if ph_reason h = ''policy''
      then Inr (case ph_repository h of
             None \<Rightarrow> False
           | Some r \<Rightarrow> memory_repository (pu_lower cx) (pu_policy cx) r \<noteq> None)
      else if ph_reason h = ''server_withheld''
      then Inr (ph_revision h \<noteq> Some (pol_revision (pu_policy cx)))
      else if ph_reason h = ''pending_local''
      then (case (ph_kind h, ph_entity h) of
              (Some kind, Some entity) \<Rightarrow>
                and_then (read_outbox d (ScopeEntity kind entity) 1) (\<lambda>pending. Inr (pending = []))
            | _ \<Rightarrow> Inr True)
      else Inr False)"

fun due_holds :: "'m rdb \<Rightarrow> pull_context \<Rightarrow> pull_hold list \<Rightarrow> error + pull_hold list" where
  "due_holds d cx [] = Inr []"
| "due_holds d cx (h # hs) =
     and_then (hold_is_due d cx h) (\<lambda>due.
     and_then (due_holds d cx hs) (\<lambda>rest. Inr (if due then h # rest else rest)))"

definition reconsider_holds ::
  "pull_context \<Rightarrow> pull_cursor \<Rightarrow> ('f, 'm, nat \<times> pull_cursor) run" where
  "reconsider_holds cx c =
     (if pc_epoch c = [] then finish (0, c)
      else andthen (reads (\<lambda>d. due_holds d cx (list_holds d (pu_key cx) (pc_epoch c)))) (\<lambda>due.
        if due = [] then finish (0, c)
        else let earliest = Min (ph_from ` set due);
                 c1 = c\<lparr>pc_applied := earliest - 1, pc_anchor := None\<rparr>
             in andthen (each_run (\<lambda>h. andthen (autocommit (drop_holds (pu_key cx)
                    (HoldAt (pc_epoch c) (ph_from h)))) (\<lambda>_. finish ())) due) (\<lambda>_.
                if earliest \<le> pc_applied c
                then andthen (autocommit (save_cursor c1 (pu_at cx))) (\<lambda>_. finish (length due, c1))
                else finish (length due, c))))"

end
