(* ===== verification/Replica_Properties.thy ===== *)
theory Replica_Properties
  imports Replica_Outcome
begin

text \<open>
  The properties of the replica engine. A \<open>replica_call\<close> is one use of it: an import, an
  upload in parts, a memory written or removed by a local command or by the legacy exchange, a
  redaction, an erasure barrier, or the bookkeeping of an upload; \<open>calls_run\<close> runs a list of
  them, and the properties hold along any such list. The demonstration environment below is
  what their witnesses run in.
\<close>

section \<open>Calls\<close>

datatype 'm replica_call =
    Imports import_request
  | Stages stage_request
  | ActivatesStaged activate_request
  | Saves "'m \<Rightarrow> error + 'm" replica_op frontmatter string string replica_origin string
  | Removes "'m \<Rightarrow> error + 'm" string string "string option" string replica_origin string
  | Redacts redaction_reach string
  | Forgets string string
  | Bars "string list" string string
  | Uploads string upload_outcome string
  | Discards string

definition quietly :: "('f, 'm, 'a) run \<Rightarrow> ('f, 'm, unit) run" where
  "quietly m = andthen m (\<lambda>_. finish ())"

fun call_run ::
  "replica_env \<Rightarrow> ('f, 'm) memory_store \<Rightarrow> json_reader \<Rightarrow> 'm replica_call \<Rightarrow> ('f, 'm, unit) run" where
  "call_run env store jr (Imports r) = quietly (import_run env store r)"
| "call_run env store jr (Stages r) = quietly (stage env r)"
| "call_run env store jr (ActivatesStaged r) = quietly (activate_staged env store r)"
| "call_run env store jr (Saves mirror op fm body at origin i) =
     quietly (in_transaction env (seq (on_mirror mirror) (\<lambda>_.
       record_write env op fm body at origin i)))"
| "call_run env store jr (Removes mirror memory hash repository at origin i) =
     quietly (in_transaction env (seq (on_mirror mirror) (\<lambda>_.
       record_tombstone memory hash repository at origin i)))"
| "call_run env store jr (Redacts reach at) = quietly (in_transaction env (redact jr reach at))"
| "call_run env store jr (Forgets digest at) = quietly (in_transaction env (redact_payload digest at))"
| "call_run env store jr (Bars digests kind at) = quietly (in_transaction env (bar jr digests kind at))"
| "call_run env store jr (Uploads i out at) = quietly (in_transaction env (record_outcome i out at))"
| "call_run env store jr (Discards i) = quietly (in_transaction env (discard_operation i))"

fun calls_run ::
  "replica_env \<Rightarrow> ('f, 'm) memory_store \<Rightarrow> json_reader \<Rightarrow> 'm replica_call list \<Rightarrow>
   ('f, 'm) rst \<Rightarrow> ('f, 'm) rst" where
  "calls_run env store jr [] s = s"
| "calls_run env store jr (c # cs) s = calls_run env store jr cs (snd (call_run env store jr c s))"

text \<open>A database as the schema creates it, its stream's epoch and device drawn.\<close>

definition fresh_rdb :: "string \<Rightarrow> string \<Rightarrow> string \<Rightarrow> 'm \<Rightarrow> 'm rdb" where
  "fresh_rdb epoch device at m = \<lparr>
     rd_stream = Some (epoch, at), rd_device = Some device, rd_payloads = [], rd_feed = [],
     rd_feed_counter = 0, rd_revisions = [], rd_outbox = [], rd_answers = [], rd_staged = [],
     rd_sync_log = [], rd_log_counter = 0, rd_exchange = [], rd_documents = [], rd_chunks = [],
     rd_links = [], rd_texts = [], rd_generations = [], rd_code_files = [], rd_code_symbols = [],
     rd_code_edges = [], rd_verdicts = [], rd_feedback = [], rd_code_feedback = [],
     rd_activity = [], rd_activity_counter = 0, rd_approvals = [], rd_bindings = [],
     rd_cursors = [], rd_holds = [], rd_mirror = m\<rparr>"

lemma fresh_ok: "journal_ok sha (fresh_rdb epoch device at m)" "receipts_agree (fresh_rdb epoch device at m)"
  by (auto simp: fresh_rdb_def journal_ok_def feed_ordered_def revisions_follow_def latest_def
      payloads_held_def receipts_agree_def)

lemma quietly_moves: "reflp R \<Longrightarrow> transp R \<Longrightarrow> run_moves R m \<Longrightarrow> run_moves R (quietly m)"
  unfolding quietly_def by (auto intro!: run_rules)

lemma mirror_settles: "moves (settles sha) (on_mirror f)"
  by (intro same_log_settles frame_keeps mirror_frame)
    (auto simp: moves_def same_log_def on_mirror_def res_simps)

lemma tx_call: "moves (settles sha) m \<Longrightarrow> run_moves (settles sha) (quietly (in_transaction env m))"
  by (intro quietly_moves run_moves_transaction) simp_all

lemma call_settles: "run_moves (settles (n_sha256 env)) (call_run env store jr c)"
proof (cases c)
  case (Imports r)
  then show ?thesis by (simp add: quietly_moves import_run_moves apply_one_settles)
next
  case (Stages r)
  then show ?thesis by (simp add: quietly_moves stage_settles)
next
  case (ActivatesStaged r)
  then show ?thesis by (simp add: quietly_moves activate_staged_settles)
next
  case (Saves mirror op fm body at origin i)
  then show ?thesis by (simp add: tx_call moves_seq mirror_settles memory_journal_settles)
next
  case (Removes mirror memory hash repository at origin i)
  then show ?thesis by (simp add: tx_call moves_seq mirror_settles memory_journal_settles)
qed (simp_all add: tx_call redaction_settles outbox_settles)

lemma calls_move:
  assumes "reflp R" "transp R" "\<And>c. c \<in> set cs \<Longrightarrow> run_moves R (call_run env store jr c)"
  shows "R (rs_db s) (rs_db (calls_run env store jr cs s))"
  using assms(3)
proof (induction cs arbitrary: s)
  case Nil
  with assms(1) show ?case by (auto dest: reflpD)
next
  case (Cons c cs)
  have "R (rs_db s) (rs_db (snd (call_run env store jr c s)))"
  proof (rule run_movesD)
    show "run_moves R (call_run env store jr c)" using Cons.prems by simp
    show "call_run env store jr c s = (fst (call_run env store jr c s), snd (call_run env store jr c s))"
      by simp
  qed
  moreover have "R (rs_db (snd (call_run env store jr c s)))
      (rs_db (calls_run env store jr cs (snd (call_run env store jr c s))))"
    using Cons by simp
  ultimately show ?case using assms(2) by (auto dest: transpD)
qed

lemma calls_settle:
  "settles (n_sha256 env) (rs_db s) (rs_db (calls_run env store jr cs s))"
  by (rule calls_move [where R = "settles (n_sha256 env)"]) (simp_all add: call_settles)

section \<open>Answers and payloads as they age\<close>

lemma lookup_answer_prefix:
  assumes "prefix (rd_answers d) (rd_answers d')" "lookup_answer d i = Some r"
  shows "lookup_answer d' i = Some r"
proof -
  from assms(1) obtain zs where "rd_answers d' = rd_answers d @ zs" by (auto simp: prefix_def)
  moreover have "find P xs = Some x \<Longrightarrow> find P (xs @ zs) = Some x" for P xs and x :: answer_row
    by (induction xs) (auto split: if_splits)
  ultimately show ?thesis using assms(2) by (auto simp: lookup_answer_def)
qed

lemma lookup_answered [simp]:
  "\<not> is_answered d (rp_operation r) \<Longrightarrow> lookup_answer (answered r at d) (rp_operation r) = Some r"
  by (cases r) (force simp: lookup_answer_def answered_def is_answered_def intro: find_append_new)

lemma is_answered_lookup: "is_answered d i \<longleftrightarrow> lookup_answer d i \<noteq> None"
  by (auto simp: is_answered_def lookup_answer_def find_None_iff)

lemma find_distinct:
  "distinct (map k xs) \<Longrightarrow> x \<in> set xs \<Longrightarrow> find (\<lambda>y. k y = k x) xs = Some x"
  by (induction xs) (auto simp: image_iff)

lemma find_payload_ages:
  assumes "journal_ok sha d'" "extends d d'" "find_payload d g = Some p"
  shows "\<exists>p'. find_payload d' g = Some p' \<and> ages p p' \<and> payload_sound sha p'"
proof -
  from assms(3) have p: "p \<in> set (rd_payloads d)" "pl_digest p = g"
    by (auto simp: find_payload_def find_Some_iff in_set_conv_nth)
  with assms(2) obtain p' where p': "p' \<in> set (rd_payloads d')" "ages p p'"
    by (auto simp: extends_def)
  have "pl_digest p' = g" using p' p by (simp add: ages_def)
  moreover have "distinct (map pl_digest (rd_payloads d'))"
    using assms(1) by (simp add: journal_ok_def payloads_held_def)
  ultimately have "find (\<lambda>q. pl_digest q = g) (rd_payloads d') = Some p'"
    using p'(1) find_distinct by metis
  with p' assms(1) show ?thesis by (auto simp: find_payload_def journal_ok_def)
qed

lemma erased_stays:
  assumes "journal_ok sha d'" "extends d d'" "redaction_of d g = Some Erased"
  shows "redaction_of d' g = Some Erased" "payload_bytes d' g = None"
proof -
  from assms(3) obtain p where p: "find_payload d g = Some p" "payload_redaction p = Some Erased"
    by (auto simp: redaction_of_def bind_eq_Some_conv)
  then obtain p' where p': "find_payload d' g = Some p'" "ages p p'" "payload_sound sha p'"
    using find_payload_ages [OF assms(1,2)] by blast
  then have "payload_redaction p' = Some Erased" using p(2) by (simp add: ages_def)
  with p' show "redaction_of d' g = Some Erased" "payload_bytes d' g = None"
    by (auto simp: redaction_of_def payload_bytes_def payload_sound_def payload_redaction_def
        redaction_of_columns_def split: option.splits)
qed

section \<open>A demonstration environment\<close>

text \<open>Its parser knows one value and its hash is constant; its memory tree is empty.\<close>

definition demo_replica :: "json \<Rightarrow> replica_env" where
  "demo_replica v = \<lparr>
     n_clock = \<lambda>_. (0, 0), n_iso_format = \<lambda>_. Inr ''2026-01-01T00:00:00Z'',
     n_iso_parse = \<lambda>_. Inr (0, 0), n_to_string = \<lambda>_. Inr ''p'', n_from_str = \<lambda>_. Inr v,
     n_decode_error = \<lambda>_. [], n_debug_id = \<lambda>_. [], n_sha256 = \<lambda>_. replicate 64 CHR ''0'',
     n_begin = \<lambda>_. Inr (), n_commit = \<lambda>_. Inr (), n_activity_enabled = True,
     n_activity_summaries = True\<rparr>"

definition demo_store :: "(unit, unit) memory_store" where
  "demo_store = \<lparr>
     ms_lock = \<lambda>_. Inr (), ms_load = \<lambda>_ _. Inl (NotFound []), ms_rewrite = \<lambda>_ fs. (Inr (), fs),
     ms_save = \<lambda>_ fs. (Inl (Other []), fs), ms_delete = \<lambda>_ fs. (Inl (NotFound []), fs),
     ms_judge_vector = \<lambda>_ _. Inr (RefuseVector [] None None), ms_mirror = \<lambda>_ m. Inr m,
     ms_apply_vector = \<lambda>_ _ _ m. Inr m, ms_soft_delete = \<lambda>_ _ m. Inr m\<rparr>"

definition demo_replica_start :: "(unit, unit) rst" where
  "demo_replica_start = \<lparr>rs_db = fresh_rdb ''e'' ''d'' ''t'' (), rs_files = (), rs_ticks = 0, rs_txs = 0\<rparr>"

definition demo_removal :: "string \<Rightarrow> string option \<Rightarrow> replica_operation" where
  "demo_removal i digest = \<lparr>o_id = i, o_kind = code_kind, o_key = ''r'', o_op = Tombstone,
     o_schema = 1, o_digest = digest, o_payload = None, o_observed = None, o_repository = None,
     o_vector = None\<rparr>"

lemma demo_removal_fields [simp]:
  "o_id (demo_removal i g) = i" "o_kind (demo_removal i g) = code_kind" "o_key (demo_removal i g) = ''r''"
  "o_op (demo_removal i g) = Tombstone" "o_digest (demo_removal i g) = g"
  by (simp_all add: demo_removal_def)

definition demo_import :: "replica_operation list \<Rightarrow> import_request" where
  "demo_import ops = \<lparr>im_protocol = protocol, im_cursor = None, im_operations = ops, im_workspace = None\<rparr>"

definition demo_no_text :: json_reader where "demo_no_text _ _ = None"

definition demo_calls :: "unit replica_call list" where
  "demo_calls =
     [Imports (demo_import [demo_removal ''a'' None, demo_removal ''a'' None, demo_removal ''b'' None]),
        Bars [''g''] code_kind ''t'', Imports (demo_import [demo_removal ''c'' (Some ''g'')])]"

lemma demo_store_named [simp]: "store_named env demo_store"
  by (simp add: store_named_def demo_store_def)

section \<open>The journal\<close>

text \<open>C9. The journal stays whole under any sequence of imports, staged uploads, local memory
  writes and removals, redactions, erasure barriers and upload bookkeeping. If the tables are
  well formed to begin with (feed positions strictly ascend, an operation id is journalled and
  answered at most once, the revision of every entity is exactly what its last feed row says,
  every digest the feed names has a payload row whose stored bytes hash to it, a blanked payload
  says why, and every accepted answer names the position its operation stands at), they are so
  at the end; and the feed and the answers have only grown at their end, while a payload at most
  lost its bytes.\<close>

theorem replica_journal_keeps:
  assumes "journal_ok (n_sha256 env) (rs_db s)" "receipts_agree (rs_db s)"
  shows "journal_ok (n_sha256 env) (rs_db (calls_run env store jr cs s)) \<and>
    receipts_agree (rs_db (calls_run env store jr cs s)) \<and>
    extends (rs_db s) (rs_db (calls_run env store jr cs s))"
  using calls_settle assms unfolding settles_def by blast

theorem replica_journal_keeps_witness:
  "let env = demo_replica JNull; s = demo_replica_start;
     s' = calls_run env demo_store demo_no_text
       demo_calls s
   in journal_ok (n_sha256 env) (rs_db s') \<and> receipts_agree (rs_db s') \<and> extends (rs_db s) (rs_db s') \<and>
      map fd_sequence (rd_feed (rs_db s')) = [1, 2] \<and>
      map an_disposition (rd_answers (rs_db s')) = [''accepted'', ''accepted'', ''payload_erased'']"
proof -
  have ok: "journal_ok sha (rs_db demo_replica_start)" "receipts_agree (rs_db demo_replica_start)" for sha
    by (simp_all add: demo_replica_start_def fresh_ok)
  have "map fd_sequence (rd_feed (rs_db (calls_run (demo_replica JNull) demo_store demo_no_text
       demo_calls demo_replica_start))) = [1, 2]"
    by code_simp
  moreover have "map an_disposition (rd_answers (rs_db (calls_run (demo_replica JNull) demo_store demo_no_text
       demo_calls demo_replica_start))) = [''accepted'', ''accepted'', ''payload_erased'']"
    by code_simp
  ultimately show ?thesis using replica_journal_keeps [OF ok] by (simp add: Let_def)
qed

section \<open>One operation, and its answer\<close>

lemma settled_effect:
  assumes "settled env store op n d d'" "store_named env store"
  obtains row at epoch where "rd_feed d' = rd_feed d @ [row]" "fd_sequence row = n"
    "n = rd_feed_counter d + 1" "fd_operation row = o_id op" "fd_kind row = o_kind op"
    "fd_key row = o_key op" "fd_op row = op_str (o_op op)" "fd_origin row = origin_str FromPeer"
    "find (is_revision (o_kind op) (o_key op)) (rd_revisions d') = Some (revision_from row)"
    "lookup_answer d' (o_id op) = Some (receipt_of op epoch Accepted (Some n) (o_digest op) None)"
    "\<not> is_answered d (o_id op)" "o_id op \<notin> fd_operation ` set (rd_feed d)"
    "rd_answers d' = rd_answers d @ [\<lparr>an_operation = o_id op, an_epoch = epoch, an_sequence = Some n,
       an_disposition = disposition_str Accepted, an_digest = o_digest op, an_reason = None, an_at = at\<rparr>]"
proof -
  from assms(1) obtain epoch new d1 d2 epoch' at where same: "same_journal d d1"
    and new: "carries env store op new" and app: "append_op epoch new d1 = Inr (n, d2)"
    and free: "\<not> is_answered d2 (o_id op)"
    and d': "d' = answered (receipt_of op epoch' Accepted (Some n) (o_digest op) None) at d2"
    unfolding settled_def by blast
  have key: "no_key new = o_key op" and ids: "no_id new = o_id op" "no_kind new = o_kind op"
    "no_op new = o_op op" "no_origin new = FromPeer"
    using new assms(2) by (simp_all add: carries_def)
  have n: "n = rd_feed_counter d + 1" and d2: "d2 = appended epoch new d1"
    and fresh: "o_id op \<notin> fd_operation ` set (rd_feed d)"
    using app same ids by (auto simp: append_op_iff same_journal_def)
  have "find (is_revision (o_kind op) (o_key op)) (rd_revisions d') = Some (revision_from (new_feed_row epoch new n))"
    using n same key ids by (simp add: d' d2 appended_def Let_def find_revise revision_of_new_row same_journal_def)
  moreover have "lookup_answer d' (o_id op) = Some (receipt_of op epoch' Accepted (Some n) (o_digest op) None)"
    using lookup_answered [of d2 "receipt_of op epoch' Accepted (Some n) (o_digest op) None" at] free
    by (simp add: d' receipt_of_def)
  moreover have "\<not> is_answered d (o_id op)"
    using free same by (simp add: d2 is_answered_def appended_def Let_def same_journal_def)
  moreover have "rd_feed d' = rd_feed d @ [new_feed_row epoch new n]"
    using n same by (simp add: d' d2 appended_def Let_def same_journal_def)
  moreover have "rd_answers d' = rd_answers d @ [\<lparr>an_operation = o_id op, an_epoch = epoch', an_sequence = Some n,
       an_disposition = disposition_str Accepted, an_digest = o_digest op, an_reason = None, an_at = at\<rparr>]"
    using same by (simp add: d' d2 appended_def answered_def receipt_of_def Let_def same_journal_def)
  ultimately show thesis
    using n fresh key ids by (intro that [of "new_feed_row epoch new n" epoch' at]) (simp_all add: new_feed_row_def)
qed

lemma refused_effect:
  assumes "refused_as op why n digest reason d d'"
  obtains row epoch where "d' = d\<lparr>rd_answers := rd_answers d @ [row]\<rparr>" "an_operation row = o_id op"
    "an_disposition row = disposition_str why" "an_sequence row = n" "\<not> is_answered d (o_id op)"
    "lookup_answer d' (o_id op) = Some (receipt_of op epoch why n digest reason)"
proof -
  from assms obtain epoch at where free: "\<not> is_answered d (o_id op)"
    and d': "d' = answered (receipt_of op epoch why n digest reason) at d"
    by (auto simp: refused_as_def)
  then have "lookup_answer d' (o_id op) = Some (receipt_of op epoch why n digest reason)"
    using lookup_answered [of d "receipt_of op epoch why n digest reason" at] by (simp add: receipt_of_def)
  with free show thesis
    by (intro that [OF _ _ _ _ free]) (auto simp: d' answered_def receipt_of_def)
qed

lemma replayed_None: "replayed env d op = None \<longleftrightarrow> \<not> is_answered d (o_id op)"
  by (auto simp: replayed_def is_answered_lookup split: option.splits)

text \<open>C8. What one operation that was not answered before does. If it fails, no row of the
  database has changed. If it is answered accepted, the engine had decided to accept it, the
  feed has grown by exactly one row, at the next position, that carries the operation, its kind,
  its entity and its verb and the origin of a peer, the entity's revision is that row, and the
  stored answer names the row's position. Any other answer has written that answer and not one
  other row, and is the engine's decision, or for a code generation the refusal of one planned
  against a parent the repository has moved past.\<close>

theorem one_operation_exact:
  assumes run: "apply_one env store epoch op s = (res, s')"
    and fresh: "\<not> is_answered (rs_db s) (o_id op)" and named: "store_named env store"
  shows "case res of
      Inl e \<Rightarrow> rs_db s' = rs_db s
    | Inr r \<Rightarrow>
        if or_disposition r = Accepted
        then decide env (rs_db s) op = Accepted \<and>
          (\<exists>row. rd_feed (rs_db s') = rd_feed (rs_db s) @ [row] \<and>
             fd_sequence row = rd_feed_counter (rs_db s) + 1 \<and> fd_operation row = o_id op \<and>
             fd_kind row = o_kind op \<and> fd_key row = o_key op \<and> fd_op row = op_str (o_op op) \<and>
             fd_origin row = origin_str FromPeer \<and> or_sequence r = Some (fd_sequence row) \<and>
             find (is_revision (o_kind op) (o_key op)) (rd_revisions (rs_db s')) = Some (revision_from row) \<and>
             map_option rp_sequence (lookup_answer (rs_db s') (o_id op)) = Some (Some (fd_sequence row)))
        else (or_disposition r = decide env (rs_db s) op \<or>
              o_kind op = code_kind \<and> r = answer op RejectedStale None (Some stale_plan)) \<and>
          (\<exists>row. rs_db s' = (rs_db s)\<lparr>rd_answers := rd_answers (rs_db s) @ [row]\<rparr> \<and>
             an_operation row = o_id op \<and> an_disposition row = disposition_str (or_disposition r) \<and>
             an_sequence row = or_sequence r)"
proof -
  have unanswered: "replayed env (rs_db s) op = None" using fresh by (simp add: replayed_None)
  show ?thesis
  proof (cases res)
    case (Inl e)
    with apply_one_outcome [OF run] unanswered show ?thesis
      by (simp add: outcome_def answers_to_def split: if_splits)
  next
    case (Inr r)
    have out: "if decide env (rs_db s) op = Accepted then answers_to env store op (Inr r) (rs_db s) (rs_db s')
      else let why = decide env (rs_db s) op; n = refusal_position (rs_db s) op why
        in r = answer op why n (disposition_reason why) \<and>
          refused_as op why n (arrived_digest env op) (disposition_reason why) (rs_db s) (rs_db s')"
      using apply_one_outcome [OF run] unanswered Inr by (simp add: outcome_def split: if_splits)
    consider (taken) n where "decide env (rs_db s) op = Accepted" "r = answer op Accepted (Some n) None"
        "settled env store op n (rs_db s) (rs_db s')"
      | (stale) "o_kind op = code_kind" "r = answer op RejectedStale None (Some stale_plan)"
        "refused_as op RejectedStale None (o_digest op) (Some stale_plan) (rs_db s) (rs_db s')"
      | (refused) why n where "why = decide env (rs_db s) op" "why \<noteq> Accepted"
        "r = answer op why n (disposition_reason why)"
        "refused_as op why n (arrived_digest env op) (disposition_reason why) (rs_db s) (rs_db s')"
      using out by (auto simp: answers_to_def Let_def split: if_splits)
    then show ?thesis
    proof cases
      case taken
      from taken(3) named show ?thesis
      proof (cases rule: settled_effect)
        case (1 row at epoch')
        then have "map_option rp_sequence (lookup_answer (rs_db s') (o_id op)) = Some (Some (fd_sequence row))"
          by (simp add: receipt_of_def)
        with 1 show ?thesis using taken(1,2) Inr by (auto simp: answer_def)
      qed
    next
      case stale
      from stale(3) show ?thesis
      proof (cases rule: refused_effect)
        case (1 row epoch')
        with stale(1,2) Inr show ?thesis by (auto simp: answer_def)
      qed
    next
      case refused
      from refused(4) show ?thesis
      proof (cases rule: refused_effect)
        case (1 row epoch')
        with refused(1-3) Inr show ?thesis by (auto simp: answer_def)
      qed
    qed
  qed
qed

theorem one_operation_exact_witness:
  "case apply_one (demo_replica JNull) demo_store ''e'' (demo_removal ''a'' None) demo_replica_start of
     (res, s') \<Rightarrow> (\<exists>row. rd_feed (rs_db s') = [row] \<and> fd_sequence row = 1 \<and> fd_operation row = ''a'' \<and>
       find (is_revision code_kind ''r'') (rd_revisions (rs_db s')) = Some (revision_from row))"
proof -
  obtain res s' where run: "apply_one (demo_replica JNull) demo_store ''e'' (demo_removal ''a'' None)
    demo_replica_start = (res, s')" by fastforce
  have "map_sum (\<lambda>_. ()) or_disposition (fst (apply_one (demo_replica JNull) demo_store ''e''
      (demo_removal ''a'' None) demo_replica_start)) = Inr Accepted" by code_simp
  then obtain r where res: "res = Inr r" "or_disposition r = Accepted"
    by (cases res) (simp_all add: run)
  have start: "rd_feed (rs_db demo_replica_start) = []" "rd_feed_counter (rs_db demo_replica_start) = 0"
    "\<not> is_answered (rs_db demo_replica_start) (o_id (demo_removal ''a'' None))"
    by (simp_all add: demo_replica_start_def fresh_rdb_def is_answered_def)
  show ?thesis
    using one_operation_exact [OF run start(3) demo_store_named] res start(1,2)
    by (auto simp: run)
qed

lemma arrived_is_stated:
  assumes "kind_and_shape env op = None" "o_op op = Tombstone \<longrightarrow> o_digest op = None"
  shows "arrived_digest env op = o_digest op"
  using assms
  by (auto simp: kind_and_shape_def op_shape_def event_shape_def canonical_text_def arrived_digest_def
      split: if_splits option.splits sum.splits)


lemma demo_start_ok:
  "journal_ok sha (rs_db demo_replica_start)" "receipts_agree (rs_db demo_replica_start)"
  "\<not> is_answered (rs_db demo_replica_start) i"
  by (simp_all add: demo_replica_start_def fresh_ok) (simp add: fresh_rdb_def is_answered_def)

lemma demo_removal_accepted:
  obtains r s1 where "apply_one (demo_replica JNull) demo_store ''e'' (demo_removal ''a'' None)
      demo_replica_start = (Inr r, s1)" "or_disposition r = Accepted" "or_sequence r = Some 1"
proof -
  have "map_sum (\<lambda>_. ()) (\<lambda>r. (or_disposition r, or_sequence r)) (fst (apply_one (demo_replica JNull)
      demo_store ''e'' (demo_removal ''a'' None) demo_replica_start)) = Inr (Accepted, Some 1)"
    by code_simp
  then show thesis
    using that by (cases "apply_one (demo_replica JNull) demo_store ''e''
      (demo_removal ''a'' None) demo_replica_start", cases "fst (apply_one (demo_replica JNull) demo_store ''e''
      (demo_removal ''a'' None) demo_replica_start)") auto
qed


text \<open>A deletion that states a payload digest passes validation and is accepted, but its receipt
  keeps the stated digest while a retry is compared by the digest of the bytes that arrived,
  which a deletion has none of: every retry is refused as a conflict.\<close>

lemma digest_deletion_retry_conflicts:
  assumes run: "apply_one env store epoch op s = (Inr r, s1)" and "\<not> is_answered (rs_db s) (o_id op)"
    and taken: "or_disposition r = Accepted" and named: "store_named env store"
    and op: "o_op op = Tombstone" "o_digest op = Some g"
  shows "\<exists>r'. apply_one env store epoch' op s1 = (Inr r', s1) \<and> or_disposition r' = RejectedConflict"
proof -
  have fresh: "replayed env (rs_db s) op = None" using assms(2) by (simp add: replayed_None)
  have out: "outcome env store op (Inr r) (rs_db s) (rs_db s1)" using apply_one_outcome [OF run] .
  have decided: "decide env (rs_db s) op = Accepted"
    using out fresh taken by (auto simp: outcome_def Let_def answer_def split: if_splits)
  then obtain n where "settled env store op n (rs_db s) (rs_db s1)"
    using out fresh taken by (auto simp: outcome_def answers_to_def answer_def)
  then obtain epoch0 where stored: "lookup_answer (rs_db s1) (o_id op) =
      Some (receipt_of op epoch0 Accepted (Some n) (o_digest op) None)"
    using named by (cases rule: settled_effect)
  have "arrived_digest env op = None"
    using decide_accepted_shape [OF decided] op(1)
    by (auto simp: kind_and_shape_def op_shape_def event_shape_def arrived_digest_def split: if_splits)
  then have "replayed env (rs_db s1) op =
      Some (answer op RejectedConflict None (disposition_reason RejectedConflict))"
    using stored op(2) by (simp add: replayed_def receipt_of_def)
  then show ?thesis by (simp add: apply_one_def andthen_def reads_def finish_def answer_def)
qed

section \<open>The erasure barrier\<close>

text \<open>C11. What is erased stays erased. Once the payload of a digest has been erased, after any
  calls its bytes are gone and the row still says erased; and an operation that states the
  digest and was not answered before is then never accepted, journalled or materialized: it is
  answered payload-erased (or refused as malformed) and writes that answer only.\<close>

theorem erased_stays_erased:
  assumes ok: "journal_ok (n_sha256 env) (rs_db s)" "receipts_agree (rs_db s)"
    and erased: "redaction_of (rs_db s) g = Some Erased"
    and s2: "s2 = calls_run env store jr cs s"
    and op: "o_digest op = Some g" and fresh: "\<not> is_answered (rs_db s2) (o_id op)"
    and run: "apply_one env store epoch op s2 = (res, s3)"
  shows "redaction_of (rs_db s2) g = Some Erased \<and> payload_bytes (rs_db s2) g = None \<and>
    rd_feed (rs_db s3) = rd_feed (rs_db s2) \<and> same_journal (rs_db s2) ((rs_db s3)\<lparr>rd_answers := rd_answers (rs_db s2)\<rparr>) \<and>
    (\<forall>r. res = Inr r \<longrightarrow> or_disposition r =
       (case kind_and_shape env op of None \<Rightarrow> PayloadErased | Some problem \<Rightarrow> problem))"
proof -
  have "journal_ok (n_sha256 env) (rs_db s2)" "extends (rs_db s) (rs_db s2)"
    using calls_settle [of env s store jr cs] ok by (auto simp: settles_def s2)
  note gone = erased_stays [OF this erased]
  have decided: "decide env (rs_db s2) op =
      (case kind_and_shape env op of None \<Rightarrow> PayloadErased | Some problem \<Rightarrow> problem)"
    using op gone by (auto simp: decide_def split: option.splits)
  have "decide env (rs_db s2) op \<noteq> Accepted"
  proof
    assume accepted: "decide env (rs_db s2) op = Accepted"
    with decided decide_accepted_shape [OF accepted] show False by simp
  qed
  moreover have "replayed env (rs_db s2) op = None" using fresh by (simp add: replayed_None)
  ultimately have "(\<exists>e. res = Inl e) \<and> rs_db s3 = rs_db s2 \<or>
    (\<exists>r n. res = Inr r \<and> or_disposition r = decide env (rs_db s2) op \<and>
       refused_as op (decide env (rs_db s2) op) n (arrived_digest env op)
         (disposition_reason (decide env (rs_db s2) op)) (rs_db s2) (rs_db s3))"
    using apply_one_outcome [OF run]
    by (auto simp: outcome_def Let_def answer_def split: sum.splits)
  then show ?thesis
    using gone decided by (auto simp: refused_as_def same_journal_def answered_def)
qed

lemma demo_erasure:
  "redaction_of (rs_db (calls_run (demo_replica JNull) demo_store demo_no_text
     [Bars [''g''] code_kind ''t''] demo_replica_start)) ''g'' = Some Erased"
  by code_simp

theorem erased_stays_erased_witness:
  "let env = demo_replica JNull; op = demo_removal ''c'' (Some ''g'');
     s = calls_run env demo_store demo_no_text [Bars [''g''] code_kind ''t''] demo_replica_start;
     s2 = calls_run env demo_store demo_no_text
       [Imports (demo_import [demo_removal ''a'' None]), Discards ''x''] s
   in redaction_of (rs_db s2) ''g'' = Some Erased \<and> payload_bytes (rs_db s2) ''g'' = None \<and>
      map_sum (\<lambda>_. ()) or_disposition (fst (apply_one env demo_store ''e'' op s2)) = Inr PayloadErased"
proof -
  let ?env = "demo_replica JNull" and ?op = "demo_removal ''c'' (Some ''g'')"
  define s where "s = calls_run ?env demo_store demo_no_text [Bars [''g''] code_kind ''t''] demo_replica_start"
  define s2 where "s2 = calls_run ?env demo_store demo_no_text
       [Imports (demo_import [demo_removal ''a'' None]), Discards ''x''] s"
  obtain res s3 where run: "apply_one ?env demo_store ''e'' ?op s2 = (res, s3)" by fastforce
  have "journal_ok (n_sha256 ?env) (rs_db s)" "receipts_agree (rs_db s)"
    using calls_settle [of ?env demo_replica_start demo_store demo_no_text "[Bars [''g''] code_kind ''t'']"]
      demo_start_ok by (auto simp: settles_def s_def)
  moreover have "redaction_of (rs_db s) ''g'' = Some Erased" unfolding s_def by (rule demo_erasure)
  moreover have "\<not> is_answered (rs_db s2) (o_id ?op)" unfolding s2_def s_def by code_simp
  moreover have "kind_and_shape ?env ?op = None" by code_simp
  moreover have "\<exists>r. res = Inr r"
  proof -
    have "map_sum (\<lambda>_. ()) (\<lambda>_. ()) (fst (apply_one ?env demo_store ''e'' ?op s2)) = Inr ()"
      unfolding s2_def s_def by code_simp
    then show ?thesis by (cases res) (simp_all add: run)
  qed
  ultimately have "redaction_of (rs_db s2) ''g'' = Some Erased \<and> payload_bytes (rs_db s2) ''g'' = None \<and>
      map_sum (\<lambda>_. ()) or_disposition (fst (apply_one ?env demo_store ''e'' ?op s2)) = Inr PayloadErased"
    using erased_stays_erased [OF _ _ _ s2_def _ _ run, of "''g''"] by (auto simp: run)
  then show ?thesis unfolding Let_def s2_def s_def .
qed

section \<open>The deletion barrier\<close>

lemma settled_other:
  assumes "settled env store op n d d'" "store_named env store" "\<not> (o_kind op = kind \<and> o_key op = key)"
  shows "find_revision d' kind key = find_revision d kind key"
proof -
  from assms(1) obtain epoch new d1 d2 epoch' at where same: "same_journal d d1"
    and new: "carries env store op new" and app: "append_op epoch new d1 = Inr (n, d2)"
    and d': "d' = answered (receipt_of op epoch' Accepted (Some n) (o_digest op) None) at d2"
    unfolding settled_def by blast
  then show ?thesis using assms(2,3)
    by (auto simp: find_revision_def append_op_iff appended_def Let_def find_revise carries_def
        same_journal_def)
qed

lemma find_revision_from:
  "find_revision d kind key = Some rv \<longleftrightarrow>
     (\<exists>r. find (is_revision kind key) (rd_revisions d) = Some r \<and> rv = to_revision_view r)"
  by (auto simp: find_revision_def)

text \<open>The entity is deleted, at a position not before the one given.\<close>

definition dead_since :: "string \<Rightarrow> string \<Rightarrow> int \<Rightarrow> 'm rdb \<Rightarrow> bool" where
  "dead_since kind key n d \<longleftrightarrow> n \<le> rd_feed_counter d \<and>
     (\<exists>rv m. find_revision d kind key = Some rv \<and> rw_deleted rv \<and>
        rw_deleted_sequence rv = Some m \<and> n \<le> m)"

definition only_deletes :: "string \<Rightarrow> string \<Rightarrow> 'm rdb \<Rightarrow> 'm rdb \<Rightarrow> bool" where
  "only_deletes kind key d d' \<longleftrightarrow>
     (\<exists>rows. rd_feed d' = rd_feed d @ rows \<and>
        (\<forall>row \<in> set rows. fd_kind row = kind \<and> fd_key row = key \<longrightarrow> fd_op row = op_str Tombstone))"

definition stays_dead :: "string \<Rightarrow> string \<Rightarrow> int \<Rightarrow> 'm rdb \<Rightarrow> 'm rdb \<Rightarrow> bool" where
  "stays_dead kind key n d d' \<longleftrightarrow>
     (dead_since kind key n d \<longrightarrow> dead_since kind key n d' \<and> only_deletes kind key d d')"

lemma only_deletes_trans:
  "only_deletes kind key d e \<Longrightarrow> only_deletes kind key e f \<Longrightarrow> only_deletes kind key d f"
  by (fastforce simp: only_deletes_def)

lemma stays_dead_order [simp]: "reflp (stays_dead kind key n)" "transp (stays_dead kind key n)"
  by (auto simp: reflp_def transp_def stays_dead_def only_deletes_def [of _ _ x x for x]
      intro: only_deletes_trans)

text \<open>A restore that observed an older position than the deletion's does not lift it.\<close>

definition restores_since :: "string \<Rightarrow> string \<Rightarrow> int \<Rightarrow> replica_operation \<Rightarrow> bool" where
  "restores_since kind key n op \<longleftrightarrow> o_kind op = kind \<and> o_key op = key \<and> o_op op = Revive \<and>
     (\<exists>m. o_observed op = Some m \<and> n \<le> m)"

lemma dead_accepts_deletions:
  assumes "dead_since (o_kind op) (o_key op) n d" "decide env d op = Accepted"
    "\<not> restores_since (o_kind op) (o_key op) n op"
  shows "o_op op = Tombstone"
proof -
  from assms(1) obtain rv m where rv: "find_revision d (o_kind op) (o_key op) = Some rv"
    "rw_deleted rv" "rw_deleted_sequence rv = Some m" "n \<le> m"
    by (auto simp: dead_since_def)
  have "order_decision op (Some rv) = Accepted"
    using assms(2) rv(1) decide_accepted_shape [OF assms(2)]
    by (auto simp: decide_def known_event_def split: option.splits redaction.splits if_splits)
  then show ?thesis
    using rv assms(3) by (cases "o_op op") (auto simp: order_decision_def restores_since_def split: if_splits)
qed

lemma apply_one_stays_dead:
  assumes named: "store_named env store" and op: "\<not> restores_since kind key n op"
  shows "run_moves (stays_dead kind key n) (apply_one env store epoch op)"
proof (rule run_movesI)
  fix s res s'
  assume "apply_one env store epoch op s = (res, s')"
  then have out: "outcome env store op res (rs_db s) (rs_db s')" by (rule apply_one_outcome)
  let ?d = "rs_db s" and ?d' = "rs_db s'"
  have same: "stays_dead kind key n ?d ?d'" if "?d' = ?d"
    unfolding that using stays_dead_order(1) by (rule reflpD)
  have refused: "stays_dead kind key n ?d ?d'" if "refused_as op why m digest reason ?d ?d'" for why m digest reason
    using that by (auto simp: refused_as_def stays_dead_def dead_since_def find_revision_def only_deletes_def)
  have settled: "stays_dead kind key n ?d ?d'" if set: "settled env store op m ?d ?d'"
    and taken: "decide env ?d op = Accepted" for m
    unfolding stays_dead_def
  proof (intro impI)
    assume dead: "dead_since kind key n ?d"
    from set named obtain row where row: "rd_feed ?d' = rd_feed ?d @ [row]" "fd_sequence row = m"
      "m = rd_feed_counter ?d + 1" "fd_kind row = o_kind op" "fd_key row = o_key op"
      "fd_op row = op_str (o_op op)"
      "find (is_revision (o_kind op) (o_key op)) (rd_revisions ?d') = Some (revision_from row)"
      by (cases rule: settled_effect)
    have counter: "rd_feed_counter ?d' = rd_feed_counter ?d + 1"
      using set by (auto simp: settled_def append_op_iff appended_def Let_def same_journal_def)
    show "dead_since kind key n ?d' \<and> only_deletes kind key ?d ?d'"
    proof (cases "o_kind op = kind \<and> o_key op = key")
      case True
      then have "o_op op = Tombstone"
        using dead_accepts_deletions [OF _ taken] dead op by blast
      then show ?thesis
        using True row counter dead
        by (auto simp: dead_since_def only_deletes_def find_revision_def to_revision_view_def revision_from_def)
    next
      case False
      then show ?thesis
        using settled_other [OF set named False] row counter dead
        by (auto simp: dead_since_def only_deletes_def)
    qed
  qed
  show "stays_dead kind key n ?d ?d'"
    using out same refused settled
    by (auto simp: outcome_def answers_to_def Let_def split: option.splits sum.splits if_splits)
qed

text \<open>C12. What is deleted stays deleted until it is restored from that deletion. When an entity's
  revision is a deletion at position \<open>n\<close>, an import in which no restore of the entity names a
  position from \<open>n\<close> on leaves it deleted, whatever else the envelope holds and whether or not
  the import fails half way; and of the rows the feed has gained, those of the entity are
  further deletions: no write and no outdated restore of it was accepted.\<close>

theorem deleted_until_restored:
  assumes ok: "journal_ok (n_sha256 env) (rs_db s)" and named: "store_named env store"
    and dead: "find_revision (rs_db s) kind key = Some rv" "rw_deleted rv"
    and ops: "\<forall>op \<in> set (im_operations request). \<not> restores_since kind key (rw_sequence rv) op"
    and run: "import_run env store request s = (res, s')"
  shows "(\<exists>rv'. find_revision (rs_db s') kind key = Some rv' \<and> rw_deleted rv') \<and>
    (\<exists>rows. rd_feed (rs_db s') = rd_feed (rs_db s) @ rows \<and>
       (\<forall>row \<in> set rows. fd_kind row = kind \<and> fd_key row = key \<longrightarrow> fd_op row = ''tombstone''))"
proof -
  obtain r where r: "latest (rd_feed (rs_db s)) kind key = Some r" "rv = to_revision_view (revision_from r)"
    using dead(1) ok by (auto simp: find_revision_def journal_ok_def revisions_follow_def)
  then have "r \<in> set (rd_feed (rs_db s))" using latest_SomeD by blast
  then have "fd_sequence r \<le> rd_feed_counter (rs_db s)" using ok by (simp add: journal_ok_def feed_ordered_def)
  then have "dead_since kind key (rw_sequence rv) (rs_db s)"
    using dead r(2) by (auto simp: dead_since_def to_revision_view_def revision_from_def split: if_splits)
  moreover have "run_moves (stays_dead kind key (rw_sequence rv)) (import_run env store request)"
    using ops by (intro import_run_moves apply_one_stays_dead named) auto
  from run_movesD [OF this run] have "stays_dead kind key (rw_sequence rv) (rs_db s) (rs_db s')" .
  ultimately have "dead_since kind key (rw_sequence rv) (rs_db s')"
    "only_deletes kind key (rs_db s) (rs_db s')"
    unfolding stays_dead_def by blast+
  then show ?thesis by (auto simp: dead_since_def only_deletes_def)
qed

definition demo_generation :: code_generation where
  "demo_generation = \<lparr>cg_id = replicate 32 CHR ''0'', cg_parent = None, cg_head = ''h'',
     cg_mined = None, cg_files = [\<lparr>fw_path = ''f'', fw_blob = ''b''\<rparr>], cg_symbols = [], cg_edges = []\<rparr>"

definition demo_indexing :: "string \<Rightarrow> replica_op \<Rightarrow> int option \<Rightarrow> replica_operation" where
  "demo_indexing i op observed = \<lparr>o_id = i, o_kind = code_kind, o_key = ''r'', o_op = op,
     o_schema = 1, o_digest = Some (replicate 64 CHR ''0''), o_payload = Some (code_json demo_generation),
     o_observed = observed, o_repository = None, o_vector = None\<rparr>"

definition demo_code_env :: replica_env where
  "demo_code_env = demo_replica (code_json demo_generation)"

definition demo_deleted :: "(unit, unit) rst" where
  "demo_deleted = snd (import_run demo_code_env demo_store (demo_import [demo_removal ''a'' None]) demo_replica_start)"

lemma demo_deleted_ok: "journal_ok (n_sha256 demo_code_env) (rs_db demo_deleted)"
proof -
  have "run_moves (settles (n_sha256 demo_code_env))
      (import_run demo_code_env demo_store (demo_import [demo_removal ''a'' None]))"
    by (intro import_run_moves apply_one_settles) simp_all
  then have "settles (n_sha256 demo_code_env) (rs_db demo_replica_start) (rs_db demo_deleted)"
    unfolding demo_deleted_def by (rule run_movesD) (rule prod.collapse [symmetric])
  then show ?thesis using demo_start_ok by (simp add: settles_def)
qed

theorem deleted_until_restored_witness:
  "case import_run demo_code_env demo_store
     (demo_import [demo_indexing ''u'' Upsert None, demo_indexing ''v'' Revive (Some 0)]) demo_deleted of
     (res, s') \<Rightarrow> map_sum (\<lambda>_. ()) (\<lambda>r. map or_disposition (ir_results r)) res =
         Inr [RejectedStale, RejectedStale] \<and>
       (\<exists>rv. find_revision (rs_db s') code_kind ''r'' = Some rv \<and> rw_deleted rv)"
proof -
  let ?request = "demo_import [demo_indexing ''u'' Upsert None, demo_indexing ''v'' Revive (Some 0)]"
  obtain res s' where run: "import_run demo_code_env demo_store ?request demo_deleted = (res, s')"
    by fastforce
  have "find_revision (rs_db demo_deleted) code_kind ''r'' =
      Some \<lparr>rw_sequence = 1, rw_digest = None, rw_deleted = True, rw_deleted_sequence = Some 1\<rparr>"
    by code_simp
  from deleted_until_restored [OF demo_deleted_ok demo_store_named this _ _ run]
  have dead: "\<exists>rv. find_revision (rs_db s') code_kind ''r'' = Some rv \<and> rw_deleted rv"
    by (simp add: demo_import_def demo_indexing_def restores_since_def)
  have "map_sum (\<lambda>_. ()) (\<lambda>r. map or_disposition (ir_results r))
      (fst (import_run demo_code_env demo_store ?request demo_deleted)) = Inr [RejectedStale, RejectedStale]"
    by code_simp
  with dead show ?thesis by (simp add: run)
qed

end
