(* ===== verification/Replica_Rows.thy ===== *)
theory Replica_Rows
  imports Replica_Properties
begin

text \<open>
  What holds of the rows an operation materializes: the verdict counters are the tallies of the
  verdict log, a repository has at most one active code generation, and the pulled document
  cache holds together. Each is a relation between the databases before and after that the
  statements of one projection keep and that the journal's statements do not touch; the locale
  \<open>kept_rows\<close> lifts such a relation from the statements to whole calls, once for all three.
  Then what accepting a document and a code generation leaves behind, exactly.
\<close>

section \<open>From statements to calls\<close>

definition same_rows :: "'m rdb \<Rightarrow> 'm rdb \<Rightarrow> bool" where
  "same_rows d d' \<longleftrightarrow>
     rd_documents d' = rd_documents d \<and> rd_chunks d' = rd_chunks d \<and> rd_links d' = rd_links d \<and>
     rd_texts d' = rd_texts d \<and> rd_generations d' = rd_generations d \<and>
     rd_code_files d' = rd_code_files d \<and> rd_code_symbols d' = rd_code_symbols d \<and>
     rd_code_edges d' = rd_code_edges d \<and> rd_verdicts d' = rd_verdicts d \<and>
     rd_feedback d' = rd_feedback d"

lemma same_rows_order [simp]: "reflp same_rows" "transp same_rows"
  by (auto simp: reflp_def transp_def same_rows_def)

named_theorems row_frame \<open>statements that leave the materialized rows alone\<close>

lemma append_op_rows [row_frame]: "moves same_rows (append_op epoch new)"
  by (auto simp: moves_def append_op_iff appended_def Let_def same_rows_def)

lemma record_answer_rows [row_frame]: "moves same_rows (record_answer r at)"
  by (auto simp: moves_def record_answer_iff answered_def same_rows_def)

lemma accept_answer_rows [row_frame]: "moves same_rows (accept_answer op epoch n at)"
  unfolding accept_answer_def by (intro moves_seq row_frame) simp_all

lemma journal_rows [row_frame]:
  "moves same_rows (append_sync_log op memory hash at origin)" "moves same_rows (enqueue new observed)"
  "moves same_rows (on_mirror f)" "moves same_rows (put_part staging index k bytes at)"
  "moves same_rows (discard_staged staging)" "moves same_rows (record_outcome i out at)"
  "moves same_rows (discard_operation i)" "moves same_rows (redact_payload digest at)"
  by (auto simp: moves_def append_sync_log_def enqueue_def on_mirror_def put_part_def
      discard_staged_def record_outcome_def discard_operation_def redact_payload_eq blanked_def
      stmt_simps res_simps same_rows_def Let_def)

lemma redact_rows [row_frame]: "moves same_rows (redact jr reach at)"
  by (auto simp: moves_def redact_eq blanked_def same_rows_def)

lemma barred_rows [row_frame]: "moves same_rows (barred digests kind at)"
  by (auto simp: moves_def barred_def Let_def same_rows_def)

lemma bar_rows [row_frame]: "moves same_rows (bar jr digests kind at)"
  unfolding bar_eq by (auto intro!: moves_seq row_frame)

lemma journal_memory_rows [row_frame]: "moves same_rows (journal_memory legacy new)"
  unfolding journal_memory_def by (auto intro!: moves_seq row_frame)

lemma memory_rows [row_frame]:
  "moves same_rows (record_write env op fm body at origin i)"
  "moves same_rows (record_tombstone memory hash repository at origin i)"
  unfolding record_write_def record_tombstone_def by (auto intro!: moves_seq row_frame)

lemma write_memory_rows [row_frame]: "moves same_rows (write_memory env store op at verdict p)"
  by (cases p) (auto intro!: moves_seq row_frame)

text \<open>The interface: what each projection promises of its rows.\<close>

locale kept_rows =
  fixes R :: "'m rdb \<Rightarrow> 'm rdb \<Rightarrow> bool"
  assumes order: "reflp R" "transp R"
    and journal: "same_rows d d' \<Longrightarrow> R d d'"
    and documents: "moves R (replace_revision r at)" "moves R (purge_document repo i)"
    and code: "moves R (activate_accepted env repo c at ord)" "moves R (clear_projection repo)"
    and events: "moves R (materialize_verdict e)" "moves R (materialize_run env a)"
begin

lemma quiet: "moves same_rows m \<Longrightarrow> moves R m"
  by (auto simp: moves_def intro: journal)

lemmas quiet_frame = row_frame [THEN quiet]

lemma same: "R d d"
  using order(1) by (rule reflpD)

lemma order_rules [simp]: "reflp R" "transp R"
  by (fact order)+

lemma write_code_kept: "moves R (write_code env epoch op at ord found)"
  unfolding write_code_def
  by (auto split: option.splits intro!: moves_seq code quiet_frame)

lemma write_document_kept: "moves R (write_document env epoch op at found)"
  unfolding write_document_def Let_def
  by (auto split: option.splits intro!: moves_seq documents quiet_frame)

lemma write_event_kept: "moves R (write_event env op bytes)"
  unfolding write_event_def by (auto intro!: moves_seq events)

lemma files_kept: "run_moves R (on_files f)"
  by (auto simp: run_moves_def on_files_def same split: prod.splits)

lemma prepare_kept: "run_moves R (prepare_markdown env store op)"
  by (auto simp: run_moves_def same dest!: prepare_markdown_db(1))

lemma materialize_kept: "run_moves R (materialize env store epoch op ord)"
proof -
  have "run_moves R (apply_code env epoch op at ord)" for at
    unfolding apply_code_def by (intro run_rules write_code_kept) simp_all
  moreover have "run_moves R (apply_document env epoch op at)" for at
    unfolding apply_document_def by (intro run_rules write_document_kept) simp_all
  moreover have "run_moves R (apply_event env epoch op at)" for at
    unfolding apply_event_def
    by (auto intro!: run_rules moves_seq write_event_kept quiet_frame)
  moreover have "run_moves R (apply_memory env store epoch op at)" for at
    unfolding apply_memory_def commit_acceptance_def
    by (intro run_rules prepare_kept moves_seq quiet_frame) simp_all
  ultimately show ?thesis unfolding materialize_def by (auto intro!: run_rules)
qed

lemma apply_one_kept: "run_moves R (apply_one env store epoch op)"
  unfolding apply_one_def record_refusal_def
  by (auto intro!: run_rules materialize_kept quiet_frame split: option.splits)

lemma calls_kept: "R (rs_db s) (rs_db (calls_run env store jr cs s))"
proof (rule calls_move [OF order])
  fix c assume "c \<in> set cs"
  show "run_moves R (call_run env store jr c)"
    by (cases c) (auto simp: stage_def activate_staged_def intro!: quietly_moves run_rules moves_seq
        import_run_moves apply_one_kept quiet_frame)
qed

end

section \<open>The verdict counters\<close>

definition verdicts_for :: "'m rdb \<Rightarrow> string \<Rightarrow> string \<Rightarrow> int" where
  "verdicts_for d i verdict = int (length (filter (\<lambda>v. vd_target_kind v = ''memory'' \<and>
     vd_memory v = i \<and> vd_verdict v = verdict) (rd_verdicts d)))"

definition tally :: "'m rdb \<Rightarrow> string \<Rightarrow> int \<times> int" where
  "tally d i = (case map_of (rd_feedback d) i of
     None \<Rightarrow> (0, 0) | Some c \<Rightarrow> (ct_used c, ct_irrelevant c))"

definition learning_ok :: "'m rdb \<Rightarrow> bool" where
  "learning_ok d \<longleftrightarrow>
     (\<forall>i. tally d i = (verdicts_for d i ''used'', verdicts_for d i ''irrelevant'')) \<and>
     distinct (List.map_filter vd_event (rd_verdicts d))"

lemma map_of_upsert_counts:
  "map_of (upsert_counts used irrelevant stamp k cs) j =
     (if j = k then Some (case map_of cs k of
          None \<Rightarrow> \<lparr>ct_used = used, ct_irrelevant = irrelevant, ct_last_used = stamp\<rparr>
        | Some c \<Rightarrow> bump used irrelevant stamp c)
      else map_of cs j)"
proof (cases "k \<in> fst ` set cs")
  case True
  have "map_of (map (\<lambda>(k', c). if k' = k then (k', bump used irrelevant stamp c) else (k', c)) xs) j =
    (if j = k then map_option (bump used irrelevant stamp) (map_of xs k) else map_of xs j)" for xs
    by (induction xs) auto
  moreover obtain c where "map_of cs k = Some c"
    using True by (metis map_of_eq_None_iff option.exhaust)
  ultimately show ?thesis using True by (simp add: upsert_counts_def)
next
  case False
  then have "map_of cs k = None" by (simp add: map_of_eq_None_iff)
  then show ?thesis using False by (auto simp: upsert_counts_def map_add_def split: option.splits)
qed

lemma insert_verdict_iff [stmt_simps]:
  "insert_verdict v d = Inr r \<longleftrightarrow>
     (vd_verdict v = ''used'' \<or> vd_verdict v = ''irrelevant'') \<and>
     (case vd_surface v of None \<Rightarrow> True | Some s \<Rightarrow> known_surface s) \<and>
     (vd_event v = None \<or> vd_event v \<notin> vd_event ` set (rd_verdicts d)) \<and>
     r = ((), d\<lparr>rd_verdicts := rd_verdicts d @
        [v\<lparr>vd_id := (if rd_verdicts d = [] then 1 else Max (vd_id ` set (rd_verdicts d)) + 1)\<rparr>]\<rparr>)"
  unfolding insert_verdict_def by (simp only: stmt_Inr_iff change_iff conj_assoc)

lemma map_filter_snoc: "List.map_filter f (xs @ [x]) = List.map_filter f xs @ (case f x of None \<Rightarrow> [] | Some y \<Rightarrow> [y])"
  by (simp add: List.map_filter_def split: option.splits)

lemma set_map_filter_Some: "y \<in> set (List.map_filter f xs) \<longleftrightarrow> Some y \<in> f ` set xs"
  by (induction xs) (auto simp: List.map_filter_simps split: option.splits)

lemma materialize_verdict_learns:
  assumes run: "materialize_verdict e d = Inr (u, d')" and ok: "learning_ok d"
  shows "learning_ok d'"
proof -
  from run obtain d1 where ins: "insert_verdict (verdict_of e) d = Inr ((), d1)"
    and cnt: "count_target e d1 = Inr (u, d')"
    by (auto simp: materialize_verdict_def stmt_Inr_iff)
  obtain v where v: "rd_verdicts d1 = rd_verdicts d @ [v]" "rd_feedback d1 = rd_feedback d"
    "vd_memory v = fst (judged (fe_target e))" "vd_target_kind v = snd (judged (fe_target e))"
    "vd_verdict v = fe_verdict e" "vd_event v = Some (fe_id e)"
    and kind: "fe_verdict e = ''used'' \<or> fe_verdict e = ''irrelevant''"
    and new: "Some (fe_id e) \<notin> vd_event ` set (rd_verdicts d)"
    using ins by (auto simp: insert_verdict_iff verdict_of_def)
  have rows: "rd_verdicts d' = rd_verdicts d @ [v]"
    and counts: "rd_feedback d' = (case fe_target e of
      TargetMemory i \<Rightarrow> (if fe_verdict e = ''used'' then upsert_counts 1 0 (Some (fe_at e)) i (rd_feedback d)
         else upsert_counts 0 1 None i (rd_feedback d))
    | TargetCode _ _ _ _ \<Rightarrow> rd_feedback d)"
    using cnt v by (auto simp: count_target_def count_memory_def count_symbol_def change_def
        split: feedback_target.splits if_splits)
  have "distinct (List.map_filter vd_event (rd_verdicts d'))"
    using ok new by (simp add: rows map_filter_snoc v learning_ok_def set_map_filter_Some)
  moreover have "tally d' i = (verdicts_for d' i ''used'', verdicts_for d' i ''irrelevant'')" for i
  proof -
    have "tally d i = (verdicts_for d i ''used'', verdicts_for d i ''irrelevant'')"
      using ok by (simp add: learning_ok_def)
    then show ?thesis using kind v(3-5)
      by (cases "fe_target e") (auto simp: tally_def counts verdicts_for_def rows map_of_upsert_counts
          bump_def split: option.splits)
  qed
  ultimately show ?thesis by (simp add: learning_ok_def)
qed

definition same_learning :: "'m rdb \<Rightarrow> 'm rdb \<Rightarrow> bool" where
  "same_learning d d' \<longleftrightarrow> rd_verdicts d' = rd_verdicts d \<and> rd_feedback d' = rd_feedback d"

lemma same_learning_order [simp]: "reflp same_learning" "transp same_learning"
  by (auto simp: reflp_def transp_def same_learning_def)

lemma document_learning:
  "moves same_learning (replace_revision r at)" "moves same_learning (purge_document repo i)"
  unfolding replace_revision_def purge_document_def insert_document_def write_passage_def write_link_def
  by (auto intro!: moves_rules simp: same_learning_def)

lemma generation_learning:
  "moves same_learning (record_generation g)" "moves same_learning (set_generation_state repo i state at)"
  "moves same_learning (purge_generation repo i)" "moves same_learning (replace_generation repo c)"
  unfolding record_generation_def set_generation_state_def purge_generation_def replace_generation_def
    insert_code_file_def insert_code_symbol_def insert_code_edge_def
  by (auto intro!: moves_rules simp: same_learning_def)

lemma activate_learning:
  "moves same_learning (activate_accepted env repo c at ord)" "moves same_learning (clear_projection repo)"
  unfolding activate_accepted_def activate_generation_def activate_following_def clear_projection_def
  by (auto intro!: moves_rules generation_learning split: option.splits ordered_by.splits)

text \<open>A run's row is written under the label its repository has when it is written.\<close>

lemma run_moves_rows:
  assumes "reflp R" "transp R" "\<And>a. moves R (insert_activity a)"
  shows "moves R (materialize_run env a)"
proof -
  have "moves R (\<lambda>d. insert_activity (activity_row_of a (local_label d (ae_repo a)) x) d)" for x
    using assms(3) by (auto intro!: movesI dest: movesD)
  then show ?thesis unfolding materialize_run_def using assms(1,2) by (auto intro!: moves_seq)
qed

lemma run_learning: "moves same_learning (materialize_run env a)"
  by (rule run_moves_rows) (auto simp: insert_activity_def Let_def same_learning_def intro!: moves_rules)

interpretation learning: kept_rows "\<lambda>d d'. learning_ok d \<longrightarrow> learning_ok d'"
proof
  show "reflp (\<lambda>d d'. learning_ok d \<longrightarrow> learning_ok d')" "transp (\<lambda>d d'. learning_ok d \<longrightarrow> learning_ok d')"
    by (auto simp: reflp_def transp_def)
  have keep: "learning_ok d'" if "same_learning d d'" "learning_ok d" for d d' :: "'b rdb"
    using that by (simp add: same_learning_def learning_ok_def tally_def verdicts_for_def)
  have lift: "moves (\<lambda>d d'. learning_ok d \<longrightarrow> learning_ok d') m"
    if "moves same_learning m" for m :: "('b rdb, 'x) stmt"
    by (rule movesI) (use keep movesD [OF that] in blast)
  show "same_rows d d' \<Longrightarrow> learning_ok d \<longrightarrow> learning_ok d'" for d d' :: "'b rdb"
    using keep by (auto simp: same_rows_def same_learning_def)
  show "moves (\<lambda>d d'. learning_ok d \<longrightarrow> learning_ok d') (materialize_verdict e)" for e
    using materialize_verdict_learns by (auto simp: moves_def)
  show "moves (\<lambda>d d'. learning_ok d \<longrightarrow> learning_ok d') (replace_revision r at)"
    "moves (\<lambda>d d'. learning_ok d \<longrightarrow> learning_ok d') (purge_document repo i)"
    "moves (\<lambda>d d'. learning_ok d \<longrightarrow> learning_ok d') (activate_accepted env repo c at ord)"
    "moves (\<lambda>d d'. learning_ok d \<longrightarrow> learning_ok d') (clear_projection repo)"
    "moves (\<lambda>d d'. learning_ok d \<longrightarrow> learning_ok d') (materialize_run env a)"
    for r at repo i env c ord a
    by (intro lift document_learning activate_learning run_learning)+
qed


definition demo_event_id :: string where "demo_event_id = ''ev-'' @ replicate 32 CHR ''0''"

definition demo_verdict :: feedback_event where
  "demo_verdict = \<lparr>fe_id = demo_event_id, fe_device = replicate 32 CHR ''0'', fe_at = ''t'',
     fe_verdict = ''used'', fe_provenance = ''manual'', fe_surface = None, fe_actor = None,
     fe_query = replicate 32 CHR ''0'' @ '':q'', fe_target = TargetMemory ''abcdef01''\<rparr>"

definition demo_judging :: "string \<Rightarrow> replica_operation" where
  "demo_judging i = \<lparr>o_id = i, o_kind = feedback_kind, o_key = demo_event_id, o_op = Upsert,
     o_schema = 1, o_digest = Some (replicate 64 CHR ''0''), o_payload = Some (feedback_json demo_verdict),
     o_observed = None, o_repository = None, o_vector = None\<rparr>"

definition demo_judgements :: "unit replica_call list" where
  "demo_judgements = [Imports (demo_import [demo_judging ''a'', demo_judging ''a'', demo_judging ''b''])]"


section \<open>Code generations\<close>

definition is_active :: "generation_row \<Rightarrow> bool" where
  "is_active g \<longleftrightarrow> gn_state g = ''active''"

definition generations_ok :: "'m rdb \<Rightarrow> bool" where
  "generations_ok d \<longleftrightarrow>
     distinct (map (\<lambda>g. (gn_repo g, gn_id g)) (rd_generations d)) \<and>
     (\<forall>g \<in> set (rd_generations d). \<forall>h \<in> set (rd_generations d).
        gn_repo g = gn_repo h \<and> is_active g \<and> is_active h \<longrightarrow> gn_id g = gn_id h)"

lemma first_decoded_Some: "first_decoded gs = Inr (Some g) \<Longrightarrow> g \<in> set gs"
proof -
  assume "first_decoded gs = Inr (Some g)"
  then obtain xs where "decoded gs = Inr xs" and "(case xs of [] \<Rightarrow> None | x # _ \<Rightarrow> Some x) = Some g"
    by (auto simp: first_decoded_def res_simps)
  then obtain ys where "decoded gs = Inr (g # ys)" by (cases xs) auto
  then show "g \<in> set gs" by (auto simp: decoded_def res_simps list_all2_Cons2)
qed

lemma first_decoded_None: "first_decoded gs = Inr None \<longleftrightarrow> gs = []"
proof
  assume "first_decoded gs = Inr None"
  then obtain xs where "decoded gs = Inr xs" and "(case xs of [] \<Rightarrow> None | x # _ \<Rightarrow> Some x) = None"
    by (auto simp: first_decoded_def res_simps)
  then have "decoded gs = Inr []" by (cases xs) auto
  then show "gs = []" by (auto simp: decoded_def res_simps)
qed (simp add: first_decoded_def decoded_def)

lemma active_generation_Some:
  "active_generation repo d = Inr (Some g) \<Longrightarrow>
     g \<in> set (rd_generations d) \<and> gn_repo g = repo \<and> is_active g"
  unfolding active_generation_def by (auto dest!: first_decoded_Some simp: is_active_def)

lemma active_generation_None:
  "active_generation repo d = Inr None \<longleftrightarrow> (\<forall>g \<in> set (rd_generations d). gn_repo g = repo \<longrightarrow> \<not> is_active g)"
  by (auto simp: active_generation_def first_decoded_None filter_empty_conv is_active_def)

lemma target_generation_Inr:
  "target_generation repo i d = Inr g \<Longrightarrow> g \<in> set (rd_generations d) \<and> gn_repo g = repo \<and> gn_id g = i"
  by (auto simp: target_generation_def generation_by_id_def res_simps is_generation_def
      dest!: first_decoded_Some)

text \<open>The rows after one has taken over its repository.\<close>

definition taken_over :: "string \<Rightarrow> string \<Rightarrow> generation_row list \<Rightarrow> generation_row list \<Rightarrow> bool" where
  "taken_over repo i gs gs' \<longleftrightarrow>
     map (\<lambda>g. (gn_repo g, gn_id g)) gs' = map (\<lambda>g. (gn_repo g, gn_id g)) gs \<and>
     filter (\<lambda>g. gn_repo g \<noteq> repo) gs' = filter (\<lambda>g. gn_repo g \<noteq> repo) gs \<and>
     (\<forall>g \<in> set gs'. gn_repo g = repo \<longrightarrow> (is_active g \<longleftrightarrow> gn_id g = i))"

lemma distinct_key_eq:
  "distinct (map k xs) \<Longrightarrow> x \<in> set xs \<Longrightarrow> y \<in> set xs \<Longrightarrow> k x = k y \<Longrightarrow> x = y"
  by (metis find_distinct option.inject)

lemma filter_map_other:
  "(\<And>x. P x \<Longrightarrow> f x = x) \<Longrightarrow> (\<And>x. P (f x) = P x) \<Longrightarrow> filter P (map f xs) = filter P xs"
  by (induction xs) auto

lemma taken_over_ok:
  assumes "generations_ok d" "taken_over repo i (rd_generations d) (rd_generations d')"
  shows "generations_ok d'"
proof -
  have other: "g \<in> set (rd_generations d)" if "g \<in> set (rd_generations d')" "gn_repo g \<noteq> repo" for g
  proof -
    have "g \<in> set (filter (\<lambda>g. gn_repo g \<noteq> repo) (rd_generations d'))" using that by simp
    moreover have "filter (\<lambda>g. gn_repo g \<noteq> repo) (rd_generations d') =
        filter (\<lambda>g. gn_repo g \<noteq> repo) (rd_generations d)"
      using assms(2) by (simp only: taken_over_def)
    ultimately show ?thesis by (metis filter_is_subset subsetD)
  qed
  show ?thesis
    using assms other unfolding generations_ok_def taken_over_def by metis
qed

lemma set_generation_state_iff [stmt_simps]:
  "set_generation_state repo i state at d = Inr x \<longleftrightarrow>
     x = ((), d\<lparr>rd_generations := map (\<lambda>g. if is_generation repo i g
         then g\<lparr>gn_state := state_str state, gn_activated := at\<rparr> else g) (rd_generations d)\<rparr>)"
  by (simp add: set_generation_state_def stmt_simps)

lemma activate_following_takes:
  assumes ok: "generations_ok d" and run: "activate_following repo i at d = Inr (u, d')"
  shows "taken_over repo i (rd_generations d) (rd_generations d') \<and>
    d' = d\<lparr>rd_generations := rd_generations d'\<rparr> \<and>
    (\<exists>g \<in> set (rd_generations d). gn_repo g = repo \<and> gn_id g = i)"
proof -
  from run obtain t current where t: "target_generation repo i d = Inr t"
    and current: "active_generation repo d = Inr current" and rest: "(case current of
       None \<Rightarrow> set_generation_state repo i Active (Some at)
     | Some c \<Rightarrow>
         if gn_id c = i then done_with ()
         else seq (set_generation_state repo (gn_id c) Superseded None) (\<lambda>_.
              set_generation_state repo i Active (Some at))) d = Inr (u, d')"
    unfolding activate_following_def by (auto simp: stmt_Inr_iff)
  have target: "\<exists>g \<in> set (rd_generations d). gn_repo g = repo \<and> gn_id g = i"
    using target_generation_Inr [OF t] by blast
  show ?thesis
  proof (cases current)
    case None
    with current have "\<forall>g \<in> set (rd_generations d). gn_repo g = repo \<longrightarrow> \<not> is_active g"
      by (simp add: active_generation_None)
    with rest None target show ?thesis
      by (auto simp: stmt_simps taken_over_def is_generation_def is_active_def o_def
          intro!: filter_map_other split: if_splits)
  next
    case (Some c)
    with current have c: "c \<in> set (rd_generations d)" "gn_repo c = repo" "is_active c"
      using active_generation_Some by blast+
    have only: "is_active g \<longleftrightarrow> gn_id g = gn_id c" if "g \<in> set (rd_generations d)" "gn_repo g = repo" for g
    proof
      show "is_active g \<Longrightarrow> gn_id g = gn_id c" using ok c that unfolding generations_ok_def by blast
      assume "gn_id g = gn_id c"
      then have "(gn_repo g, gn_id g) = (gn_repo c, gn_id c)" using c that by simp
      then have "g = c" using ok c(1) that(1) distinct_key_eq unfolding generations_ok_def by fastforce
      then show "is_active g" using c by simp
    qed
    show ?thesis
    proof (cases "gn_id c = i")
      case True
      with rest Some target only show ?thesis by (auto simp: stmt_simps taken_over_def)
    next
      case False
      define step :: "string \<Rightarrow> generation_state \<Rightarrow> string option \<Rightarrow> generation_row \<Rightarrow> generation_row"
        where "step j state t g = (if is_generation repo j g
          then g\<lparr>gn_state := state_str state, gn_activated := t\<rparr> else g)" for j state t g
      define f where "f = step i Active (Some at) \<circ> step (gn_id c) Superseded None"
      have d': "d' = d\<lparr>rd_generations := map f (rd_generations d)\<rparr>"
        using rest Some False by (simp add: stmt_simps f_def step_def [abs_def] o_def)
      have f: "gn_repo (f g) = gn_repo g" "gn_id (f g) = gn_id g" "gn_repo g \<noteq> repo \<Longrightarrow> f g = g" for g
        by (simp_all add: f_def step_def is_generation_def)
      have "is_active (f g) \<longleftrightarrow> gn_id (f g) = i" if "g \<in> set (rd_generations d)" "gn_repo g = repo" for g
        using only [OF that] that(2) by (simp add: f_def step_def is_generation_def is_active_def)
      then show ?thesis
        using target by (simp add: d' taken_over_def f o_def filter_map_other)
    qed
  qed
qed

definition replaced_parts :: "string \<Rightarrow> string \<Rightarrow> 'a list \<Rightarrow> 'a generation_part list \<Rightarrow> 'a generation_part list" where
  "replaced_parts repo i xs ps =
     filter (\<lambda>p. \<not> (gp_repo p = repo \<and> gp_id p = i)) ps @ map (part_of repo i) xs"

lemma held_replaced_parts:
  "held_parts repo' i' (replaced_parts repo i xs ps) =
     (if repo' = repo \<and> i' = i then xs else held_parts repo' i' ps)"
proof -
  have "filter (\<lambda>p. gp_repo p = repo' \<and> gp_id p = i') (map (part_of repo i) xs) =
    (if repo' = repo \<and> i' = i then map (part_of repo i) xs else [])"
    by (auto simp: filter_map o_def part_of_def)
  moreover have "map gp_row (map (part_of repo i) xs) = xs" by (induction xs) (simp_all add: part_of_def)
  moreover have "filter (\<lambda>p. gp_repo p = repo' \<and> gp_id p = i') (filter (\<lambda>p. \<not> (gp_repo p = repo \<and> gp_id p = i)) ps) =
    (if repo' = repo \<and> i' = i then [] else filter (\<lambda>p. gp_repo p = repo' \<and> gp_id p = i') ps)"
    by (auto simp: filter_empty_conv intro: filter_cong)
  ultimately show ?thesis by (auto simp: held_parts_def replaced_parts_def)
qed

lemma insert_files:
  "each (insert_code_file repo i) fs d = Inr (u, d') \<Longrightarrow>
     d' = d\<lparr>rd_code_files := rd_code_files d @ map (part_of repo i) fs\<rparr>"
  by (induction fs arbitrary: d) (fastforce simp: stmt_simps insert_code_file_def)+

lemma insert_symbols:
  "each (insert_code_symbol repo i) ss d = Inr (u, d') \<Longrightarrow>
     d' = d\<lparr>rd_code_symbols := rd_code_symbols d @ map (part_of repo i) ss\<rparr>"
  by (induction ss arbitrary: d) (fastforce simp: stmt_simps insert_code_symbol_def)+

lemma insert_edges:
  "each (insert_code_edge repo i) es d = Inr (u, d') \<Longrightarrow>
     d' = d\<lparr>rd_code_edges := rd_code_edges d @ map (part_of repo i) es\<rparr>"
  by (induction es arbitrary: d) (fastforce simp: stmt_simps insert_code_edge_def)+

lemma replace_generation_effect:
  assumes "replace_generation repo c d = Inr (u, d')"
  shows "d' = d\<lparr>
    rd_code_files := replaced_parts repo (cg_id c) (cg_files c) (rd_code_files d),
    rd_code_symbols := replaced_parts repo (cg_id c) (cg_symbols c) (rd_code_symbols d),
    rd_code_edges := replaced_parts repo (cg_id c) (cg_edges c) (rd_code_edges d)\<rparr>"
proof -
  from assms obtain d1 d2 d3 where d1: "purge_generation repo (cg_id c) d = Inr ((), d1)"
    and "each (insert_code_file repo (cg_id c)) (cg_files c) d1 = Inr ((), d2)"
    "each (insert_code_symbol repo (cg_id c)) (cg_symbols c) d2 = Inr ((), d3)"
    "each (insert_code_edge repo (cg_id c)) (cg_edges c) d3 = Inr (u, d')"
    unfolding replace_generation_def by (auto simp: stmt_Inr_iff)
  note steps = insert_edges [OF this(4)] insert_symbols [OF this(3)] insert_files [OF this(2)]
  show ?thesis using d1 unfolding steps
    by (simp add: purge_generation_def stmt_simps replaced_parts_def)
qed

lemma record_generation_ok:
  assumes ok: "generations_ok d" and run: "record_generation g d = Inr (u, d')"
    and staged: "gn_state g = state_str Staged"
  shows "generations_ok d' \<and> d' = d\<lparr>rd_generations := rd_generations d'\<rparr> \<and>
    filter (\<lambda>x. gn_repo x \<noteq> gn_repo g) (rd_generations d') = filter (\<lambda>x. gn_repo x \<noteq> gn_repo g) (rd_generations d)"
proof (cases "\<exists>x \<in> set (rd_generations d). is_generation (gn_repo g) (gn_id g) x")
  case True
  define f where "f = (\<lambda>x. if is_generation (gn_repo g) (gn_id g) x
    then x\<lparr>gn_parent := gn_parent g, gn_head := gn_head g, gn_mined := gn_mined g,
           gn_files := gn_files g, gn_digest := gn_digest g\<rparr> else x)"
  have f: "gn_repo (f x) = gn_repo x" "gn_id (f x) = gn_id x" "is_active (f x) = is_active x"
    "gn_repo x \<noteq> gn_repo g \<Longrightarrow> f x = x" for x
    by (simp_all add: f_def is_active_def is_generation_def)
  have d': "d' = d\<lparr>rd_generations := map f (rd_generations d)\<rparr>"
    using run True by (simp add: record_generation_def stmt_simps f_def)
  have "map (\<lambda>g. (gn_repo g, gn_id g)) (map f (rd_generations d)) = map (\<lambda>g. (gn_repo g, gn_id g)) (rd_generations d)"
    by (simp add: f)
  then have keys: "distinct (map (\<lambda>g. (gn_repo g, gn_id g)) (map f (rd_generations d)))"
    using ok unfolding generations_ok_def by metis
  have one: "gn_id (f x) = gn_id (f y)" if "x \<in> set (rd_generations d)" "y \<in> set (rd_generations d)"
    "gn_repo (f x) = gn_repo (f y)" "is_active (f x)" "is_active (f y)" for x y
    using ok that unfolding generations_ok_def f by blast
  have gens: "rd_generations d' = map f (rd_generations d)" by (simp add: d')
  have "generations_ok d'"
  proof (unfold generations_ok_def gens, intro conjI ballI impI)
    show "distinct (map (\<lambda>g. (gn_repo g, gn_id g)) (map f (rd_generations d)))" by (fact keys)
    fix a b
    assume "a \<in> set (map f (rd_generations d))" "b \<in> set (map f (rd_generations d))"
      and both: "gn_repo a = gn_repo b \<and> is_active a \<and> is_active b"
    then obtain x y where "a = f x" "x \<in> set (rd_generations d)" "b = f y" "y \<in> set (rd_generations d)"
      by (auto simp only: list.set_map)
    with both one show "gn_id a = gn_id b" by blast
  qed
  then show ?thesis by (simp add: d' f filter_map_other)
next
  case False
  then have "d' = d\<lparr>rd_generations := rd_generations d @ [g]\<rparr>"
    using run by (simp add: record_generation_def stmt_simps)
  moreover have "\<not> is_active g" using staged by (simp add: is_active_def)
  moreover from this have "generations_ok (d\<lparr>rd_generations := rd_generations d @ [g]\<rparr>)"
    using ok False unfolding generations_ok_def is_generation_def by fastforce
  ultimately show ?thesis by simp
qed

lemma generation_row_of_Inr:
  "generation_row_of env repo c at = Inr g \<Longrightarrow>
     gn_repo g = repo \<and> gn_id g = cg_id c \<and> gn_parent g = cg_parent c \<and> gn_state g = state_str Staged"
  by (auto simp: generation_row_of_def res_simps)

lemma activate_accepted_effect:
  assumes ok: "generations_ok d" and run: "activate_accepted env repo c at ord d = Inr (u, d')"
  shows "generations_ok d' \<and>
    (\<forall>g \<in> set (rd_generations d'). gn_repo g = repo \<longrightarrow> (is_active g \<longleftrightarrow> gn_id g = cg_id c)) \<and>
    (\<exists>g \<in> set (rd_generations d'). gn_repo g = repo \<and> gn_id g = cg_id c) \<and>
    filter (\<lambda>g. gn_repo g \<noteq> repo) (rd_generations d') = filter (\<lambda>g. gn_repo g \<noteq> repo) (rd_generations d) \<and>
    rd_code_files d' = replaced_parts repo (cg_id c) (cg_files c) (rd_code_files d) \<and>
    rd_code_symbols d' = replaced_parts repo (cg_id c) (cg_symbols c) (rd_code_symbols d) \<and>
    rd_code_edges d' = replaced_parts repo (cg_id c) (cg_edges c) (rd_code_edges d)"
proof -
  from run obtain g d1 d2 where row: "generation_row_of env repo c at = Inr g"
    and rec: "record_generation g d = Inr ((), d1)" and rep: "replace_generation repo c d1 = Inr ((), d2)"
    and act: "activate_following repo (cg_id c) at d2 = Inr (u, d')"
    unfolding activate_accepted_def activate_generation_def
    by (auto simp: stmt_Inr_iff split: ordered_by.splits if_splits)
  note g = generation_row_of_Inr [OF row]
  have d1: "generations_ok d1" "d1 = d\<lparr>rd_generations := rd_generations d1\<rparr>"
    "filter (\<lambda>x. gn_repo x \<noteq> repo) (rd_generations d1) = filter (\<lambda>x. gn_repo x \<noteq> repo) (rd_generations d)"
    using record_generation_ok [OF ok rec] g by auto
  have same: "rd_code_files d1 = rd_code_files d" "rd_code_symbols d1 = rd_code_symbols d"
    "rd_code_edges d1 = rd_code_edges d"
    by (subst d1(2), simp)+
  have d2: "rd_generations d2 = rd_generations d1"
    "rd_code_files d2 = replaced_parts repo (cg_id c) (cg_files c) (rd_code_files d)"
    "rd_code_symbols d2 = replaced_parts repo (cg_id c) (cg_symbols c) (rd_code_symbols d)"
    "rd_code_edges d2 = replaced_parts repo (cg_id c) (cg_edges c) (rd_code_edges d)"
    using replace_generation_effect [OF rep] same by simp_all
  have ok2: "generations_ok d2" using d1(1) unfolding generations_ok_def d2(1) .
  from activate_following_takes [OF ok2 act] have took: "taken_over repo (cg_id c) (rd_generations d2) (rd_generations d')"
    and d': "d' = d2\<lparr>rd_generations := rd_generations d'\<rparr>"
    and target: "\<exists>g \<in> set (rd_generations d2). gn_repo g = repo \<and> gn_id g = cg_id c" by blast+
  have "(repo, cg_id c) \<in> set (map (\<lambda>g. (gn_repo g, gn_id g)) (rd_generations d'))"
    using took target unfolding taken_over_def by force
  then have there: "\<exists>g \<in> set (rd_generations d'). gn_repo g = repo \<and> gn_id g = cg_id c" by auto
  have "rd_code_files d' = rd_code_files d2" "rd_code_symbols d' = rd_code_symbols d2"
    "rd_code_edges d' = rd_code_edges d2"
    by (subst d', simp)+
  then show ?thesis
    using taken_over_ok [OF ok2 took] took there d1(3) d2 unfolding taken_over_def by simp
qed

definition same_generations :: "'m rdb \<Rightarrow> 'm rdb \<Rightarrow> bool" where
  "same_generations d d' \<longleftrightarrow> rd_generations d' = rd_generations d"

lemma same_generations_order [simp]: "reflp same_generations" "transp same_generations"
  by (auto simp: reflp_def transp_def same_generations_def)

lemma other_generations:
  "moves same_generations (replace_revision r at)" "moves same_generations (purge_document repo i)"
  "moves same_generations (clear_projection repo)" "moves same_generations (insert_activity a)"
  unfolding replace_revision_def purge_document_def insert_document_def write_passage_def write_link_def
    clear_projection_def purge_generation_def insert_activity_def
  by (auto intro!: moves_rules simp: same_generations_def Let_def)

lemma verdict_generations: "moves same_generations (materialize_verdict e)"
  by (auto simp: moves_def materialize_verdict_def insert_verdict_iff stmt_Inr_iff count_target_def
      count_memory_def count_symbol_def change_def same_generations_def split: feedback_target.splits)

interpretation generations: kept_rows "\<lambda>d d'. generations_ok d \<longrightarrow> generations_ok d'"
proof
  show "reflp (\<lambda>d d'. generations_ok d \<longrightarrow> generations_ok d')"
    "transp (\<lambda>d d'. generations_ok d \<longrightarrow> generations_ok d')"
    by (auto simp: reflp_def transp_def)
  have keep: "generations_ok d'" if "same_generations d d'" "generations_ok d" for d d' :: "'b rdb"
    using that(2) unfolding generations_ok_def that(1) [unfolded same_generations_def] .
  have lift: "moves (\<lambda>d d'. generations_ok d \<longrightarrow> generations_ok d') m"
    if "moves same_generations m" for m :: "('b rdb, 'x) stmt"
    by (rule movesI) (use keep movesD [OF that] in blast)
  show "same_rows d d' \<Longrightarrow> generations_ok d \<longrightarrow> generations_ok d'" for d d' :: "'b rdb"
    using keep [of d d'] unfolding same_rows_def same_generations_def by blast
  show "moves (\<lambda>d d'. generations_ok d \<longrightarrow> generations_ok d') (activate_accepted env repo c at ord)"
    for env repo c at ord
    by (rule movesI) (use activate_accepted_effect in blast)
  show "moves (\<lambda>d d'. generations_ok d \<longrightarrow> generations_ok d') (replace_revision r at)"
    "moves (\<lambda>d d'. generations_ok d \<longrightarrow> generations_ok d') (purge_document repo i)"
    "moves (\<lambda>d d'. generations_ok d \<longrightarrow> generations_ok d') (clear_projection repo)"
    "moves (\<lambda>d d'. generations_ok d \<longrightarrow> generations_ok d') (materialize_verdict e)"
    "moves (\<lambda>d d'. generations_ok d \<longrightarrow> generations_ok d') (materialize_run env a)"
    for r at repo i env c e a
    by (intro lift other_generations verdict_generations
        run_moves_rows [OF same_generations_order] other_generations)+
qed

lemma accepted_materializes:
  assumes run: "apply_one env store epoch op s = (Inr r, s')" and fresh: "\<not> is_answered (rs_db s) (o_id op)"
    and taken: "or_disposition r = Accepted"
  shows "decide env (rs_db s) op = Accepted \<and> materialize env store epoch op Decided s = (Inr r, s')"
proof -
  have unanswered: "replayed env (rs_db s) op = None" using fresh by (simp add: replayed_None)
  then have "decide env (rs_db s) op = Accepted"
    using apply_one_outcome [OF run] taken
    by (auto simp: outcome_def answer_def Let_def split: if_splits)
  with run unanswered show ?thesis by (simp add: apply_one_def andthen_def reads_def)
qed

lemma accepted_code_written:
  assumes "apply_one env store epoch op s = (Inr r, s')" "\<not> is_answered (rs_db s) (o_id op)"
    "or_disposition r = Accepted" "o_kind op = code_kind" "o_op op \<noteq> Tombstone"
  obtains c at bytes digest where "decode_code env op = Inr (Some c)" "code_canonical env c = Inr (bytes, digest)"
    "write_code env epoch op at Decided (Some (c, bytes, digest)) (rs_db s) = Inr (r, rs_db s')"
proof -
  from accepted_materializes [OF assms(1-3)] assms(4)
  have "materialize env store epoch op Decided s = (Inr r, s')" by simp
  then obtain at s1 where iso: "iso_now env s = (Inr at, s1)"
    and applied: "apply_code env epoch op at Decided s1 = (Inr r, s')"
    unfolding materialize_def by (elim andthen_cases) (auto simp: assms(4))
  have db: "rs_db s1 = rs_db s" using iso by (auto simp: iso_now_def)
  from applied obtain found where known: "and_then (decode_code env op) (transpose_opt (\<lambda>c.
         and_then (code_canonical env c) (\<lambda>(bytes, digest). Inr (c, bytes, digest)))) = Inr found"
    and tx: "in_transaction env (write_code env epoch op at Decided found) s1 = (Inr r, s')"
    unfolding apply_code_def by (elim andthen_cases) (auto simp: known_def)
  have "write_code env epoch op at Decided found (rs_db s) = Inr (r, rs_db s')"
    using in_transaction_cases(1) [OF tx] db by auto
  with known assms(5) show thesis
    using that by (auto simp: res_simps decode_code_def split: option.splits if_splits)
qed

text \<open>C16. An accepted code generation takes over its repository, and only that. The payload's
  generation extends what the repository was at (its parent is the active generation, or it is
  the active one again); afterwards it is the one active generation of the repository, its
  files, symbols and edges are exactly the payload's, the rows of every other repository's
  generations are as they were and so is what every other generation holds. And at no time, in
  any sequence of calls, has a repository two active generations.\<close>

theorem code_acceptance_exact:
  assumes ok: "generations_ok (rs_db s)"
    and run: "apply_one env store epoch op s = (Inr r, s')" and fresh: "\<not> is_answered (rs_db s) (o_id op)"
    and taken: "or_disposition r = Accepted" and op: "o_kind op = code_kind" "o_op op \<noteq> Tombstone"
  shows "\<exists>c current. decode_code env op = Inr (Some c) \<and>
    active_generation (o_key op) (rs_db s) = Inr current \<and>
    (cg_parent c = map_option gn_id current \<or> map_option gn_id current = Some (cg_id c)) \<and>
    (\<exists>g \<in> set (rd_generations (rs_db s')). gn_repo g = o_key op \<and> gn_id g = cg_id c) \<and>
    (\<forall>g \<in> set (rd_generations (rs_db s')). gn_repo g = o_key op \<longrightarrow> (is_active g \<longleftrightarrow> gn_id g = cg_id c)) \<and>
    filter (\<lambda>g. gn_repo g \<noteq> o_key op) (rd_generations (rs_db s')) =
      filter (\<lambda>g. gn_repo g \<noteq> o_key op) (rd_generations (rs_db s)) \<and>
    held_projection (rs_db s') (o_key op) (cg_id c) =
      (sort_key fw_path (cg_files c), sort_key (\<lambda>x. (sw_path x, sw_line_start x)) (cg_symbols c),
       sort_key (\<lambda>e. (ew_rel e, ew_src e)) (cg_edges c)) \<and>
    (\<forall>repo i. \<not> (repo = o_key op \<and> i = cg_id c) \<longrightarrow>
       held_projection (rs_db s') repo i = held_projection (rs_db s) repo i) \<and>
    generations_ok (rs_db (calls_run env store jr cs s'))"
proof -
  from accepted_code_written [OF run fresh taken op] obtain c at bytes digest
    where c: "decode_code env op = Inr (Some c)" "code_canonical env c = Inr (bytes, digest)"
    and wrote: "write_code env epoch op at Decided (Some (c, bytes, digest)) (rs_db s) = Inr (r, rs_db s')" .
  from wrote taken obtain g current d1 n d2 where row: "generation_row_of env (o_key op) c at = Inr g"
    and may: "may_activate (o_key op) (gn_parent g) (gn_id g) (rs_db s) = Inr True"
    and act: "activate_accepted env (o_key op) c at Decided (rs_db s) = Inr ((), d1)"
    and app: "append_op epoch (accept_new op (o_key op) (Some (o_key op)) (Some (digest, bytes)) at) d1 = Inr (n, d2)"
    and ans: "accept_answer op epoch n at d2 = Inr (r, rs_db s')"
    unfolding write_code_def by (auto simp: stmt_Inr_iff answer_def split: if_splits)
  obtain current where current: "active_generation (o_key op) (rs_db s) = Inr current"
    and extends: "cg_parent c = map_option gn_id current \<or> map_option gn_id current = Some (cg_id c)"
    using may generation_row_of_Inr [OF row]
    by (auto simp: may_activate_def extends_current_def res_simps)
  have same: "same_rows d1 (rs_db s')"
    using movesD [OF append_op_rows app] movesD [OF accept_answer_rows ans]
    by (rule transpD [OF same_rows_order(2)])
  note effect = activate_accepted_effect [OF ok act]
  have "generations_ok (rs_db s')"
    using effect same unfolding generations_ok_def same_rows_def by metis
  then have "generations_ok (rs_db (calls_run env store jr cs s'))"
    using generations.calls_kept by blast
  moreover have held: "held_projection (rs_db s') repo i =
     (if repo = o_key op \<and> i = cg_id c
      then (sort_key fw_path (cg_files c), sort_key (\<lambda>x. (sw_path x, sw_line_start x)) (cg_symbols c),
       sort_key (\<lambda>e. (ew_rel e, ew_src e)) (cg_edges c))
      else held_projection (rs_db s) repo i)" for repo i
    using effect same by (simp add: held_projection_def same_rows_def held_replaced_parts)
  moreover have "held_projection (rs_db s') (o_key op) (cg_id c) =
      (sort_key fw_path (cg_files c), sort_key (\<lambda>x. (sw_path x, sw_line_start x)) (cg_symbols c),
       sort_key (\<lambda>e. (ew_rel e, ew_src e)) (cg_edges c))"
    "\<forall>repo i. \<not> (repo = o_key op \<and> i = cg_id c) \<longrightarrow>
       held_projection (rs_db s') repo i = held_projection (rs_db s) repo i"
    using held by auto
  moreover have gens: "rd_generations (rs_db s') = rd_generations d1" using same by (simp add: same_rows_def)
  ultimately show ?thesis using c(1) current extends effect unfolding gens by blast
qed

lemma demo_indexing_accepted:
  obtains r s' where "apply_one demo_code_env demo_store ''e'' (demo_indexing ''i'' Upsert None)
      demo_replica_start = (Inr r, s')" "or_disposition r = Accepted"
proof -
  have "map_sum (\<lambda>_. ()) or_disposition (fst (apply_one demo_code_env demo_store ''e''
      (demo_indexing ''i'' Upsert None) demo_replica_start)) = Inr Accepted"
    by code_simp
  then show thesis
    using that by (cases "apply_one demo_code_env demo_store ''e''
      (demo_indexing ''i'' Upsert None) demo_replica_start", cases "fst (apply_one demo_code_env demo_store ''e''
      (demo_indexing ''i'' Upsert None) demo_replica_start)") auto
qed

theorem code_acceptance_exact_witness:
  "\<exists>r s'. apply_one demo_code_env demo_store ''e'' (demo_indexing ''i'' Upsert None) demo_replica_start = (Inr r, s') \<and>
     or_disposition r = Accepted \<and>
     held_projection (rs_db s') ''r'' (cg_id demo_generation) = ([\<lparr>fw_path = ''f'', fw_blob = ''b''\<rparr>], [], []) \<and>
     (\<exists>g \<in> set (rd_generations (rs_db s')). gn_repo g = ''r'' \<and> gn_id g = cg_id demo_generation \<and> is_active g)"
proof (rule demo_indexing_accepted)
  fix r s'
  assume run: "apply_one demo_code_env demo_store ''e'' (demo_indexing ''i'' Upsert None)
      demo_replica_start = (Inr r, s')" and taken: "or_disposition r = Accepted"
  have start: "generations_ok (rs_db demo_replica_start)"
    by (simp add: demo_replica_start_def fresh_rdb_def generations_ok_def)
  have "decode_code demo_code_env (demo_indexing ''i'' Upsert None) = Inr (Some demo_generation)" by code_simp
  then show ?thesis
    using code_acceptance_exact [OF start run demo_start_ok(3) taken, of demo_no_text "[]"] run taken
    by (auto simp: demo_indexing_def demo_generation_def)
qed

section \<open>Documents\<close>

text \<open>The pulled cache holds together: one row per document of a repository, and its passages,
  links and searchable texts all belong to a document it holds.\<close>

definition document_key :: "remote_document_row \<Rightarrow> string \<times> string" where
  "document_key r = (rdoc_repo r, rdoc_id r)"

definition documents_ok :: "'m rdb \<Rightarrow> bool" where
  "documents_ok d \<longleftrightarrow> distinct (map document_key (rd_documents d)) \<and>
     (\<forall>x \<in> set (rd_chunks d). (rch_repo x, rch_id x) \<in> document_key ` set (rd_documents d)) \<and>
     (\<forall>x \<in> set (rd_links d). (rlk_repo x, rlk_id x) \<in> document_key ` set (rd_documents d)) \<and>
     (\<forall>x \<in> set (rd_texts d). (rft_repo x, rft_id x) \<in> document_key ` set (rd_documents d))"

definition passages_of :: "document_revision \<Rightarrow> remote_chunk_row list" where
  "passages_of r = map (\<lambda>c. \<lparr>rch_repo = dr_repo r, rch_id = dr_shared_id r, rch_chunk = c\<rparr>) (dr_chunks r)"

definition texts_of :: "document_revision \<Rightarrow> remote_text_row list" where
  "texts_of r = map (\<lambda>c. \<lparr>rft_repo = dr_repo r, rft_id = dr_shared_id r,
     rft_ordinal = show_int (ch_ordinal c), rft_title = dr_title r, rft_headings = ch_heading c,
     rft_passage = ch_text c, rft_path = dr_path r\<rparr>) (dr_chunks r)"

definition links_of :: "document_revision \<Rightarrow> remote_link_row list" where
  "links_of r = map (\<lambda>l. \<lparr>rlk_repo = dr_repo r, rlk_id = dr_shared_id r, rlk_link = l\<rparr>) (dr_links r)"

definition document_row_of :: "document_revision \<Rightarrow> string \<Rightarrow> remote_document_row" where
  "document_row_of r at = \<lparr>rdoc_repo = dr_repo r, rdoc_id = dr_shared_id r, rdoc_path = dr_path r,
     rdoc_title = dr_title r, rdoc_format = dr_format r, rdoc_hash = dr_hash r,
     rdoc_chunks = int (length (dr_chunks r)), rdoc_accepted = at\<rparr>"

lemma each_passage:
  assumes "each (write_passage r) cs d = Inr (u, d')"
  shows "d' = d\<lparr>rd_chunks := rd_chunks d @ map (\<lambda>c. \<lparr>rch_repo = dr_repo r, rch_id = dr_shared_id r, rch_chunk = c\<rparr>) cs,
    rd_texts := rd_texts d @ map (\<lambda>c. \<lparr>rft_repo = dr_repo r, rft_id = dr_shared_id r,
      rft_ordinal = show_int (ch_ordinal c), rft_title = dr_title r, rft_headings = ch_heading c,
      rft_passage = ch_text c, rft_path = dr_path r\<rparr>) cs\<rparr>"
  using assms by (induction cs arbitrary: d) (fastforce simp: stmt_simps write_passage_def)+

lemma each_link:
  assumes "each (write_link r) ls d = Inr (u, d')"
  shows "d' = d\<lparr>rd_links := rd_links d @ map (\<lambda>l. \<lparr>rlk_repo = dr_repo r, rlk_id = dr_shared_id r, rlk_link = l\<rparr>) ls\<rparr>"
  using assms by (induction ls arbitrary: d) (fastforce simp: stmt_simps write_link_def)+

lemma replace_revision_effect:
  assumes "replace_revision r at d = Inr (u, d')"
  shows "d' = d\<lparr>
    rd_documents := filter (\<lambda>x. document_key x \<noteq> (dr_repo r, dr_shared_id r)) (rd_documents d) @ [document_row_of r at],
    rd_chunks := filter (\<lambda>x. (rch_repo x, rch_id x) \<noteq> (dr_repo r, dr_shared_id r)) (rd_chunks d) @ passages_of r,
    rd_links := filter (\<lambda>x. (rlk_repo x, rlk_id x) \<noteq> (dr_repo r, dr_shared_id r)) (rd_links d) @ links_of r,
    rd_texts := filter (\<lambda>x. (rft_repo x, rft_id x) \<noteq> (dr_repo r, dr_shared_id r)) (rd_texts d) @ texts_of r\<rparr>"
proof -
  from assms obtain d1 d2 d3 where d1: "purge_document (dr_repo r) (dr_shared_id r) d = Inr ((), d1)"
    and d2: "insert_document r at d1 = Inr ((), d2)"
    and d3: "each (write_passage r) (dr_chunks r) d2 = Inr ((), d3)"
    and d': "each (write_link r) (dr_links r) d3 = Inr (u, d')"
    unfolding replace_revision_def by (auto simp: stmt_Inr_iff)
  show ?thesis
    using d1 d2 unfolding each_link [OF d'] each_passage [OF d3]
    by (simp add: purge_document_def insert_document_def stmt_simps document_key_def
        document_row_of_def passages_of_def links_of_def texts_of_def)
qed

lemma distinct_replace:
  "distinct (map k xs) \<Longrightarrow> distinct (map k (filter (\<lambda>x. k x \<noteq> k y) xs @ [y]))"
  by (induction xs) auto

lemma replace_revision_ok:
  assumes ok: "documents_ok d" and run: "replace_revision r at d = Inr (u, d')"
  shows "documents_ok d'"
proof -
  have key: "document_key (document_row_of r at) = (dr_repo r, dr_shared_id r)"
    by (simp add: document_key_def document_row_of_def)
  have "distinct (map document_key (rd_documents d'))"
    using ok distinct_replace [of document_key "rd_documents d" "document_row_of r at"]
    unfolding replace_revision_effect [OF run] key by (simp add: documents_ok_def)
  moreover have "document_key ` set (rd_documents d') =
      document_key ` set (rd_documents d) \<union> {(dr_repo r, dr_shared_id r)}"
    unfolding replace_revision_effect [OF run] using key by auto
  moreover have "set (rd_chunks d') \<subseteq> set (rd_chunks d) \<union> set (passages_of r)"
    "set (rd_links d') \<subseteq> set (rd_links d) \<union> set (links_of r)"
    "set (rd_texts d') \<subseteq> set (rd_texts d) \<union> set (texts_of r)"
    unfolding replace_revision_effect [OF run] by auto
  moreover have "\<forall>x \<in> set (passages_of r). (rch_repo x, rch_id x) = (dr_repo r, dr_shared_id r)"
    "\<forall>x \<in> set (links_of r). (rlk_repo x, rlk_id x) = (dr_repo r, dr_shared_id r)"
    "\<forall>x \<in> set (texts_of r). (rft_repo x, rft_id x) = (dr_repo r, dr_shared_id r)"
    by (auto simp: passages_of_def links_of_def texts_of_def)
  ultimately show ?thesis using ok unfolding documents_ok_def by blast
qed

lemma purge_document_ok:
  assumes "documents_ok d" "purge_document repo i d = Inr (u, d')"
  shows "documents_ok d'"
proof -
  have d': "d' = d\<lparr>
     rd_texts := filter (\<lambda>r. \<not> (rft_repo r = repo \<and> rft_id r = i)) (rd_texts d),
     rd_chunks := filter (\<lambda>r. \<not> (rch_repo r = repo \<and> rch_id r = i)) (rd_chunks d),
     rd_links := filter (\<lambda>r. \<not> (rlk_repo r = repo \<and> rlk_id r = i)) (rd_links d),
     rd_documents := filter (\<lambda>r. \<not> (rdoc_repo r = repo \<and> rdoc_id r = i)) (rd_documents d)\<rparr>"
    using assms(2) by (simp add: purge_document_def stmt_simps)
  have "(a, b) \<in> document_key ` set (rd_documents d')"
    if "(a, b) \<in> document_key ` set (rd_documents d)" "\<not> (a = repo \<and> b = i)" for a b
    using that unfolding d' by (force simp: document_key_def)
  moreover have "distinct (map document_key (rd_documents d'))"
    using assms(1) unfolding d' by (simp add: documents_ok_def distinct_map_filter)
  ultimately show ?thesis using assms(1) unfolding d' documents_ok_def by simp
qed

definition same_documents :: "'m rdb \<Rightarrow> 'm rdb \<Rightarrow> bool" where
  "same_documents d d' \<longleftrightarrow> rd_documents d' = rd_documents d \<and> rd_chunks d' = rd_chunks d \<and>
     rd_links d' = rd_links d \<and> rd_texts d' = rd_texts d"

lemma same_documents_order [simp]: "reflp same_documents" "transp same_documents"
  by (auto simp: reflp_def transp_def same_documents_def)

lemma other_documents:
  "moves same_documents (activate_accepted env repo c at ord)" "moves same_documents (clear_projection repo)"
  "moves same_documents (insert_activity a)" "moves same_documents (materialize_verdict e)"
proof -
  have steps: "moves same_documents (record_generation g)" "moves same_documents (set_generation_state repo i state t)"
    "moves same_documents (purge_generation repo i)" "moves same_documents (replace_generation repo c)"
    for g repo i state t c
    unfolding record_generation_def set_generation_state_def purge_generation_def replace_generation_def
      insert_code_file_def insert_code_symbol_def insert_code_edge_def
    by (auto intro!: moves_rules simp: same_documents_def)
  show "moves same_documents (activate_accepted env repo c at ord)"
    unfolding activate_accepted_def activate_generation_def activate_following_def
    by (auto intro!: moves_rules steps split: option.splits ordered_by.splits)
  show "moves same_documents (clear_projection repo)"
    unfolding clear_projection_def by (auto intro!: moves_rules steps)
  show "moves same_documents (insert_activity a)"
    unfolding insert_activity_def by (auto intro!: moves_rules simp: same_documents_def Let_def)
  show "moves same_documents (materialize_verdict e)"
    by (auto simp: moves_def materialize_verdict_def insert_verdict_iff stmt_Inr_iff count_target_def
        count_memory_def count_symbol_def change_def same_documents_def split: feedback_target.splits)
qed

interpretation documents: kept_rows "\<lambda>d d'. documents_ok d \<longrightarrow> documents_ok d'"
proof
  show "reflp (\<lambda>d d'. documents_ok d \<longrightarrow> documents_ok d')" "transp (\<lambda>d d'. documents_ok d \<longrightarrow> documents_ok d')"
    by (auto simp: reflp_def transp_def)
  have keep: "documents_ok d'" if "same_documents d d'" "documents_ok d" for d d' :: "'b rdb"
    using that by (simp add: documents_ok_def same_documents_def)
  have lift: "moves (\<lambda>d d'. documents_ok d \<longrightarrow> documents_ok d') m"
    if "moves same_documents m" for m :: "('b rdb, 'x) stmt"
    by (rule movesI) (use keep movesD [OF that] in blast)
  show "same_rows d d' \<Longrightarrow> documents_ok d \<longrightarrow> documents_ok d'" for d d' :: "'b rdb"
    using keep [of d d'] unfolding same_rows_def same_documents_def by blast
  show "moves (\<lambda>d d'. documents_ok d \<longrightarrow> documents_ok d') (replace_revision r at)"
    "moves (\<lambda>d d'. documents_ok d \<longrightarrow> documents_ok d') (purge_document repo i)" for r at repo i
    by (rule movesI, use replace_revision_ok in blast) (rule movesI, use purge_document_ok in blast)
  show "moves (\<lambda>d d'. documents_ok d \<longrightarrow> documents_ok d') (activate_accepted env repo c at ord)"
    "moves (\<lambda>d d'. documents_ok d \<longrightarrow> documents_ok d') (clear_projection repo)"
    "moves (\<lambda>d d'. documents_ok d \<longrightarrow> documents_ok d') (materialize_verdict e)"
    "moves (\<lambda>d d'. documents_ok d \<longrightarrow> documents_ok d') (materialize_run env a)"
    for env repo c at ord e a
    by (intro lift other_documents run_moves_rows [OF same_documents_order])+
qed

lemma accepted_document_written:
  assumes "apply_one env store epoch op s = (Inr r, s')" "\<not> is_answered (rs_db s) (o_id op)"
    "or_disposition r = Accepted" "o_kind op = document_kind"
  obtains found at where "decode_document env op = Inr found"
    "write_document env epoch op at found (rs_db s) = Inr (r, rs_db s')"
proof -
  from accepted_materializes [OF assms(1-3)] assms(4)
  have "materialize env store epoch op Decided s = (Inr r, s')" by simp
  then obtain at s1 where iso: "iso_now env s = (Inr at, s1)"
    and applied: "apply_document env epoch op at s1 = (Inr r, s')"
    unfolding materialize_def by (elim andthen_cases) (auto simp: assms(4) kind_defs)
  have db: "rs_db s1 = rs_db s" using iso by (auto simp: iso_now_def)
  from applied obtain found where "decode_document env op = Inr found"
    and tx: "in_transaction env (write_document env epoch op at found) s1 = (Inr r, s')"
    unfolding apply_document_def by (elim andthen_cases) (auto simp: known_def)
  then show thesis using that in_transaction_cases(1) [OF tx] db by auto
qed

text \<open>What the cache shows of one document.\<close>

definition shown_document ::
  "'m rdb \<Rightarrow> string \<Rightarrow> string \<Rightarrow>
   remote_document_row option \<times> chunk_wire list \<times> link_wire list \<times> remote_text_row list" where
  "shown_document d repo i = (held_document d repo i, held_chunks d repo i, held_links d repo i,
     filter (\<lambda>r. rft_repo r = repo \<and> rft_id r = i) (rd_texts d))"

lemma find_filter_other: "(\<And>x. Q x \<Longrightarrow> P x) \<Longrightarrow> find Q (filter P xs) = find Q xs"
  by (induction xs) auto

lemma find_filter_none: "(\<And>x. Q x \<Longrightarrow> \<not> P x) \<Longrightarrow> find Q (filter P xs) = None"
  by (induction xs) auto

lemma find_append_None: "find Q xs = None \<Longrightarrow> find Q (xs @ ys) = find Q ys"
  by (induction xs) (auto split: if_splits)

lemma shown_replaced:
  assumes "replace_revision r at d = Inr (u, d')"
  shows "shown_document d' (dr_repo r) (dr_shared_id r) =
      (Some (document_row_of r at), sort_key ch_ordinal (dr_chunks r),
       sort_key (\<lambda>l. (lk_ordinal l, lk_target l)) (dr_links r), texts_of r)" (is ?self)
    and "\<not> (repo = dr_repo r \<and> i = dr_shared_id r) \<Longrightarrow> shown_document d' repo i = shown_document d repo i"
proof -
  note eff = replace_revision_effect [OF assms]
  have filters: "filter (\<lambda>x. rch_repo x = repo \<and> rch_id x = i) (passages_of r) =
      (if repo = dr_repo r \<and> i = dr_shared_id r then passages_of r else [])"
    "filter (\<lambda>x. rlk_repo x = repo \<and> rlk_id x = i) (links_of r) =
      (if repo = dr_repo r \<and> i = dr_shared_id r then links_of r else [])"
    "filter (\<lambda>x. rft_repo x = repo \<and> rft_id x = i) (texts_of r) =
      (if repo = dr_repo r \<and> i = dr_shared_id r then texts_of r else [])" for repo i
    by (auto simp: passages_of_def links_of_def texts_of_def filter_map o_def)
  have rows: "map rch_chunk (passages_of r) = dr_chunks r" "map rlk_link (links_of r) = dr_links r"
    by (simp_all add: passages_of_def links_of_def o_def)
  have empties: "filter (\<lambda>x. k x = repo \<and> l x = i) (filter (\<lambda>x. (k x, l x) \<noteq> (repo, i)) xs) = []"
    for k l and repo i :: string and xs :: "'x list"
    by (auto simp: filter_empty_conv)
  show ?self unfolding eff
    by (simp add: shown_document_def held_document_def held_chunks_def held_links_def filters rows empties
        find_append_None find_filter_none document_key_def document_row_of_def del: filter_filter)
  assume other: "\<not> (repo = dr_repo r \<and> i = dr_shared_id r)"
  note none = filters [of repo i, unfolded if_not_P [OF other]]
  have keeps: "filter (\<lambda>x. (k x = dr_repo r \<longrightarrow> l x \<noteq> dr_shared_id r) \<and> k x = repo \<and> l x = i) xs =
      filter (\<lambda>x. k x = repo \<and> l x = i) xs" for k l and xs :: "'x list"
    using other by (auto intro: filter_cong)
  have found: "find (\<lambda>x. rdoc_repo x = repo \<and> rdoc_id x = i)
      (filter (\<lambda>x. document_key x \<noteq> (dr_repo r, dr_shared_id r)) xs @ [document_row_of r at]) =
      find (\<lambda>x. rdoc_repo x = repo \<and> rdoc_id x = i) xs" for xs
    using other by (subst find_snoc_other) (auto simp: document_row_of_def document_key_def intro!: find_filter_other)
  show "shown_document d' repo i = shown_document d repo i" unfolding eff
    by (simp add: shown_document_def held_document_def held_chunks_def held_links_def none keeps found)
qed

lemma shown_purged:
  assumes "purge_document repo i d = Inr (u, d')"
  shows "shown_document d' repo' i' =
    (if repo' = repo \<and> i' = i then (None, [], [], []) else shown_document d repo' i')"
proof -
  have d': "d' = d\<lparr>
     rd_texts := filter (\<lambda>r. \<not> (rft_repo r = repo \<and> rft_id r = i)) (rd_texts d),
     rd_chunks := filter (\<lambda>r. \<not> (rch_repo r = repo \<and> rch_id r = i)) (rd_chunks d),
     rd_links := filter (\<lambda>r. \<not> (rlk_repo r = repo \<and> rlk_id r = i)) (rd_links d),
     rd_documents := filter (\<lambda>r. \<not> (rdoc_repo r = repo \<and> rdoc_id r = i)) (rd_documents d)\<rparr>"
    using assms by (simp add: purge_document_def stmt_simps)
  have cut: "filter (\<lambda>x. k x = repo' \<and> l x = i') (filter (\<lambda>x. \<not> (k x = repo \<and> l x = i)) xs) =
     (if repo' = repo \<and> i' = i then [] else filter (\<lambda>x. k x = repo' \<and> l x = i') xs)"
    for k l and xs :: "'x list"
    by (auto simp: filter_empty_conv intro: filter_cong)
  have found: "find (\<lambda>x. rdoc_repo x = repo' \<and> rdoc_id x = i')
      (filter (\<lambda>r. \<not> (rdoc_repo r = repo \<and> rdoc_id r = i)) xs) =
      (if repo' = repo \<and> i' = i then None else find (\<lambda>x. rdoc_repo x = repo' \<and> rdoc_id x = i') xs)" for xs
    by (auto intro: find_filter_other find_filter_none)
  show ?thesis unfolding d'
    by (simp add: shown_document_def held_document_def held_chunks_def held_links_def cut found
        del: filter_filter de_Morgan_conj)
qed

text \<open>C18. An accepted document operation replaces or removes exactly one document of the pulled
  cache. After an upsert or a restore the cache shows, for the payload's repository and id, the
  payload's row, passages in order, links in order and searchable texts; after a deletion it
  shows nothing for the operation's key under the repository the operation names, or under the
  empty name when it names none. Every other document is shown as before. And in any sequence
  of calls the cache keeps one row per document and no passage, link or text without one.\<close>

theorem document_acceptance_exact:
  assumes ok: "documents_ok (rs_db s)"
    and run: "apply_one env store epoch op s = (Inr r, s')" and fresh: "\<not> is_answered (rs_db s) (o_id op)"
    and taken: "or_disposition r = Accepted" and kind: "o_kind op = document_kind"
  shows "(if o_op op = Tombstone
     then let repo = case_option [] id (o_repository op)
       in \<forall>repo' i. shown_document (rs_db s') repo' i =
            (if repo' = repo \<and> i = o_key op then (None, [], [], []) else shown_document (rs_db s) repo' i)
     else \<exists>doc at. decode_document env op = Inr (Some doc) \<and>
       shown_document (rs_db s') (dr_repo doc) (dr_shared_id doc) =
         (Some (document_row_of doc at), sort_key ch_ordinal (dr_chunks doc),
          sort_key (\<lambda>l. (lk_ordinal l, lk_target l)) (dr_links doc), texts_of doc) \<and>
       (\<forall>repo i. \<not> (repo = dr_repo doc \<and> i = dr_shared_id doc) \<longrightarrow>
          shown_document (rs_db s') repo i = shown_document (rs_db s) repo i)) \<and>
    documents_ok (rs_db (calls_run env store jr cs s'))"
proof -
  from accepted_document_written [OF run fresh taken kind] obtain found at
    where found: "decode_document env op = Inr found"
    and wrote: "write_document env epoch op at found (rs_db s) = Inr (r, rs_db s')" .
  have removal: "found = None \<longleftrightarrow> o_op op = Tombstone"
    using found by (auto simp: decode_document_def res_simps split: if_splits)
  have shown: "shown_document d2 = shown_document d1" if "same_rows d1 d2" for d1 d2 :: "'c rdb"
    using that by (intro ext) (simp add: same_rows_def shown_document_def held_document_def
        held_chunks_def held_links_def)
  have tail: "same_rows d1 (rs_db s')" if "append_op epoch new d1 = Inr (n, d2)"
    "accept_answer op epoch n at d2 = Inr (r, rs_db s')" for new d1 n d2
    using movesD [OF append_op_rows that(1)] movesD [OF accept_answer_rows that(2)]
    by (rule transpD [OF same_rows_order(2)])
  have "documents_ok (rs_db s')"
    using apply_one_outcome [OF run] run_movesD [OF documents.apply_one_kept run] ok by blast
  then have kept: "documents_ok (rs_db (calls_run env store jr cs s'))"
    using documents.calls_kept by blast
  show ?thesis
  proof (cases found)
    case None
    define repo where "repo = (case o_repository op of None \<Rightarrow> [] | Some r \<Rightarrow> r)"
    have repo: "case_option [] id (o_repository op) = repo" by (cases "o_repository op") (simp_all add: repo_def)
    from wrote None obtain d1 n d2 where purge: "purge_document repo (o_key op) (rs_db s) = Inr ((), d1)"
      and "append_op epoch (accept_new op (o_key op) (Some repo) None at) d1 = Inr (n, d2)"
      "accept_answer op epoch n at d2 = Inr (r, rs_db s')"
      unfolding write_document_def repo_def by (auto simp: stmt_Inr_iff Let_def)
    then have "shown_document (rs_db s') = shown_document d1" using shown tail by blast
    with kept removal None show ?thesis by (simp add: repo Let_def shown_purged [OF purge])
  next
    case (Some doc)
    from wrote Some obtain bytes digest d1 n d2 where replace: "replace_revision doc at (rs_db s) = Inr ((), d1)"
      and "append_op epoch (accept_new op (o_key op) (Some (dr_repo doc)) (Some (digest, bytes)) at) d1 = Inr (n, d2)"
      "accept_answer op epoch n at d2 = Inr (r, rs_db s')"
      unfolding write_document_def by (auto simp: stmt_Inr_iff split: prod.splits)
    then have "shown_document (rs_db s') = shown_document d1" using shown tail by blast
    with kept removal Some found shown_replaced [OF replace] show ?thesis by auto
  qed
qed

definition demo_revision :: document_revision where
  "demo_revision = \<lparr>dr_shared_id = replicate 32 CHR ''0'', dr_repo = ''r'', dr_path = ''p'',
     dr_title = ''t'', dr_format = ''txt'', dr_hash = ''h'',
     dr_chunks = [\<lparr>ch_ordinal = 0, ch_heading = [], ch_char_start = 0, ch_char_end = 1,
       ch_line_start = 1, ch_line_end = 1, ch_simhash = 0, ch_text = ''x''\<rparr>], dr_links = []\<rparr>"

definition demo_sharing :: "document_revision \<Rightarrow> replica_op \<Rightarrow> replica_operation" where
  "demo_sharing doc op = \<lparr>o_id = ''i'', o_kind = document_kind, o_key = dr_shared_id doc, o_op = op,
     o_schema = 1, o_digest = (if op = Tombstone then None else Some (replicate 64 CHR ''0'')),
     o_payload = (if op = Tombstone then None else Some (document_json doc)),
     o_observed = None, o_repository = None, o_vector = None\<rparr>"

definition demo_document_env :: "document_revision \<Rightarrow> replica_env" where
  "demo_document_env doc = demo_replica (document_json doc)"

theorem document_acceptance_exact_witness:
  "\<exists>r s'. apply_one (demo_document_env demo_revision) demo_store ''e'' (demo_sharing demo_revision Upsert)
       demo_replica_start = (Inr r, s') \<and> or_disposition r = Accepted \<and>
     held_chunks (rs_db s') ''r'' (dr_shared_id demo_revision) = dr_chunks demo_revision"
proof -
  let ?run = "apply_one (demo_document_env demo_revision) demo_store ''e'' (demo_sharing demo_revision Upsert)
    demo_replica_start"
  have "map_sum (\<lambda>_. ()) or_disposition (fst ?run) = Inr Accepted" by code_simp
  then obtain r s' where run: "?run = (Inr r, s')" and taken: "or_disposition r = Accepted"
    by (cases ?run; cases "fst ?run") auto
  have start: "documents_ok (rs_db demo_replica_start)"
    by (simp add: demo_replica_start_def fresh_rdb_def documents_ok_def)
  have "decode_document (demo_document_env demo_revision) (demo_sharing demo_revision Upsert) =
    Inr (Some demo_revision)" by code_simp
  then have "held_chunks (rs_db s') (dr_repo demo_revision) (dr_shared_id demo_revision) =
      sort_key ch_ordinal (dr_chunks demo_revision)"
    using document_acceptance_exact [OF start run demo_start_ok(3) taken, of demo_no_text "[]"]
    by (auto simp: demo_sharing_def shown_document_def)
  then show ?thesis using run taken by (auto simp: demo_revision_def)
qed

end
