(* ===== verification/Replica_Following.thy ===== *)
theory Replica_Following
  imports Replica_Pull Replica_Rows
begin

text \<open>
  What following an upstream guarantees: the cursor names handled positions only, whatever stops
  a page, and one pulled entry does what the upstream decided or nothing. \<open>upholds\<close> is the
  relation between databases every step of a pull keeps: answers, feed rows, settled operations
  and held positions stay.
\<close>

section \<open>What a pull never undoes\<close>

definition settles_entry :: "change_entry \<Rightarrow> outbox_row \<Rightarrow> bool" where
  "settles_entry e r \<longleftrightarrow> ob_state r = ''accepted'' \<and>
     (ob_operation r = ce_id e \<or>
      ob_kind r = ce_kind e \<and> ob_key r = ce_key e \<and>
      (\<exists>op. parse_op (ob_op r) = Inr op \<and> same_bytes e (r, op)))"

definition upholds :: "'m rdb \<Rightarrow> 'm rdb \<Rightarrow> bool" where
  "upholds d d' \<longleftrightarrow>
     (\<forall>i. is_answered d i \<longrightarrow> is_answered d' i) \<and> set (rd_feed d) \<subseteq> set (rd_feed d') \<and>
     (\<forall>e. (\<exists>r \<in> set (rd_outbox d). settles_entry e r) \<longrightarrow> (\<exists>r \<in> set (rd_outbox d'). settles_entry e r)) \<and>
     (\<forall>key epoch n. (\<exists>h \<in> set (rd_holds d). hold_at key epoch n h) \<longrightarrow>
        (\<exists>h \<in> set (rd_holds d'). hold_at key epoch n h))"

definition steady :: "'m rdb \<Rightarrow> 'm rdb \<Rightarrow> bool" where
  "steady d d' \<longleftrightarrow> upholds d d' \<and> rd_cursors d' = rd_cursors d"

lemma upholds_order [simp]: "reflp upholds" "transp upholds"
  by (force simp: reflp_def transp_def upholds_def)+

lemma steady_order [simp]: "reflp steady" "transp steady"
  using upholds_order unfolding reflp_def transp_def steady_def by (metis (no_types))+

lemma steady_refl [simp]: "steady d d"
  using steady_order(1) by (rule reflpD)

lemma steady_trans: "steady d d' \<Longrightarrow> steady d' d'' \<Longrightarrow> steady d d''"
  using steady_order(2) by (rule transpD)

lemma same_outcome: "settles_entry e (with_outcome (UploadAccepted n disposition epoch) at r) \<longleftrightarrow>
    ob_operation r = ce_id e \<or> ob_kind r = ce_kind e \<and> ob_key r = ce_key e \<and>
      (\<exists>op. parse_op (ob_op r) = Inr op \<and> same_bytes e (r, op))"
  by (simp add: settles_entry_def same_bytes_def)

lemma bex_map: "(\<And>r. P r \<Longrightarrow> P (f r)) \<Longrightarrow> \<exists>r \<in> set rs. P r \<Longrightarrow> \<exists>r \<in> set (map f rs). P r"
  by auto

lemma outcome_steady:
  "moves steady (record_outcome i (UploadAccepted n disposition epoch) at)"
proof (rule movesI)
  fix d :: "'a rdb" and x d'
  assume "record_outcome i (UploadAccepted n disposition epoch) at d = Inr (x, d')"
  then have d': "d' = d\<lparr>rd_outbox := map (\<lambda>r. if ob_operation r = i
      then with_outcome (UploadAccepted n disposition epoch) at r else r) (rd_outbox d)\<rparr>"
    (is "_ = d\<lparr>rd_outbox := map ?f _\<rparr>")
    by (auto simp: record_outcome_def)
  have "settles_entry e (?f r)" if "settles_entry e r" for e r
  proof (cases "ob_operation r = i")
    case True
    have "settles_entry e (with_outcome (UploadAccepted n disposition epoch) at r)"
      unfolding same_outcome using that unfolding settles_entry_def by blast
    then show ?thesis using True by simp
  qed (use that in simp)
  note kept = this
  have out: "rd_outbox d' = map ?f (rd_outbox d)" by (simp add: d')
  have "\<exists>r \<in> set (rd_outbox d'). settles_entry e r"
    if "\<exists>r \<in> set (rd_outbox d). settles_entry e r" for e
    unfolding out using that
    by (rule bex_map [where P = "settles_entry e" and f = ?f, rotated]) (rule kept)
  then show "steady d d'"
    unfolding steady_def upholds_def by (simp add: d' is_answered_def)
qed

lemma binding_steady: "moves steady (upsert_binding key b at)"
  by (auto simp: moves_def upsert_binding_def stmt_simps steady_def upholds_def is_answered_def)

lemma hold_steady: "moves steady (record_hold key epoch h at)"
proof (rule movesI)
  fix d :: "'a rdb" and x d'
  assume "record_hold key epoch h at d = Inr (x, d')"
  then show "steady d d'"
    by (fastforce simp: record_hold_def stmt_simps steady_def upholds_def is_answered_def hold_at_def)
qed

lemma same_journal_steady: "same_journal d d' \<Longrightarrow> steady d d'"
  by (auto simp: same_journal_def steady_def upholds_def is_answered_def)

lemma activate_steady: "moves steady (capture_activate canonical digest at)"
proof -
  have "moves same_journal (capture_activate canonical digest at)"
    unfolding capture_activate_def
    by (auto intro!: moves_seq activate_frame split: option.splits)
  then show ?thesis by (auto simp: moves_def intro: same_journal_steady)
qed

lemma answers_steady:
  assumes "answers_to env store op res d d'"
  shows "steady d d' \<and> rd_bindings d' = rd_bindings d \<and>
    (\<forall>r. res = Inr r \<longrightarrow> is_answered d' (o_id op))"
proof (cases res)
  case (Inl e)
  then show ?thesis using assms by (simp add: answers_to_def)
next
  case (Inr r)
  from assms Inr consider n where "settled env store op n d d'"
    | "refused_as op RejectedStale None (o_digest op) (Some stale_plan) d d'"
    by (auto simp: answers_to_def)
  then show ?thesis
  proof cases
    case 1
    then obtain epoch new d1 d2 epoch' at where same: "same_journal d d1" and app: "append_op epoch new d1 = Inr (n, d2)"
      and d': "d' = answered (receipt_of op epoch' Accepted (Some n) (o_digest op) None) at d2"
      unfolding settled_def by blast
    from app have d2: "rd_feed d2 = rd_feed d1 @ [new_feed_row epoch new n]" "rd_answers d2 = rd_answers d1"
      "rd_outbox d2 = rd_outbox d1" "rd_holds d2 = rd_holds d1" "rd_bindings d2 = rd_bindings d1"
      "rd_cursors d2 = rd_cursors d1"
      by (auto simp: append_op_iff appended_def Let_def)
    show ?thesis
      using same unfolding d' Inr
      by (auto simp: steady_def upholds_def is_answered_def answered_def receipt_of_def d2 same_journal_def)
  next
    case 2
    then show ?thesis
      by (auto simp: refused_as_def steady_def upholds_def is_answered_def answered_def receipt_of_def)
  qed
qed

section \<open>The steps of a pull\<close>

lemma each_run_moves:
  assumes "reflp R" "transp R" "\<And>x. run_moves R (f x)"
  shows "run_moves R (each_run f xs)"
  by (induction xs) (auto intro!: run_rules simp: assms)

lemma apply_pulled_moves:
  assumes "reflp R" "transp R"
    and "\<And>epoch. kind_and_shape env (landed way (operation_of e)) = None \<Longrightarrow>
      run_moves R (materialize env store epoch (landed way (operation_of e)) Upstream)"
  shows "run_moves R (apply_pulled env store e way)"
  unfolding apply_pulled_def Let_def
  by (auto intro!: run_rules simp: assms split: option.splits disposition.splits)

lemma apply_entry_moves:
  assumes "run_moves R (apply_pulled env store e Received)"
  shows "run_moves R (apply_entry env store cx e)"
  using assms by (auto simp: run_moves_def apply_entry_def split: prod.splits sum.splits pulled.splits)

lemma settle_entry_moves:
  assumes "reflp R" "transp R"
    and "\<And>i. moves R (record_outcome i (UploadAccepted (Some (ce_sequence e)) disposition (Some epoch)) (pu_at cx))"
    and "\<And>digest. moves R (capture_activate (ce_key e) digest (pu_at cx))"
  shows "run_moves R (settle_entry cx epoch e ids disposition)"
  unfolding settle_entry_def
  by (auto intro!: run_rules each_run_moves simp: assms split: option.splits)

text \<open>A relation every statement of a pull keeps, the cursor's apart.\<close>

locale pull_steps =
  fixes R :: "'m rdb \<Rightarrow> 'm rdb \<Rightarrow> bool" and env :: replica_env and store :: "('f, 'm) memory_store"
  assumes order: "reflp R" "transp R"
    and settling: "moves R (record_outcome i (UploadAccepted n disposition upstream) at)"
    and activating: "moves R (capture_activate canonical digest at)"
    and holding: "moves R (record_hold key upstream_epoch h at)"
    and binding: "moves R (upsert_binding key b at)"
    and materializing: "kind_and_shape env op = None \<Longrightarrow>
      run_moves R (materialize env store epoch op Upstream)"
begin

lemma pull_order [simp]: "reflp R" "transp R"
  by (fact order)+

lemma pulled: "run_moves R (apply_pulled env store e way)"
  by (intro apply_pulled_moves materializing) simp_all

lemma entry: "run_moves R (resolve_entry env store cx epoch e p)"
  unfolding resolve_entry_def hold_entry_def bind_entry_def Let_def
  by (auto intro!: run_rules settle_entry_moves apply_entry_moves pulled settling activating holding
      binding split: pull_rule.splits option.splits)

lemma gap: "run_moves R (record_gap cx c n)"
  unfolding record_gap_def by (auto intro!: run_rules holding split: option.splits)

lemma entries:
  assumes cursor: "\<And>c at. moves R (save_cursor c at)"
  shows "run_moves R (walk_entries env store cx es c p)"
  by (induction es arbitrary: c p)
    (auto intro!: run_rules gap entry cursor simp: Let_def split: prod.splits option.splits)

lemma page:
  assumes cursor: "\<And>c at. moves R (save_cursor c at)"
  shows "run_moves R (pull_page env store cx got c)"
  unfolding pull_page_def walk_page_def
  by (auto intro!: run_rules gap entries cursor simp: Let_def split: sum.splits option.splits)

end

lemma materialize_steady:
  assumes "kind_and_shape env op = None"
  shows "run_moves steady (materialize env store epoch op ord)"
  using answers_steady materialize_answers [OF _ assms] by (blast intro: run_movesI)

interpretation steady_pull: pull_steps steady env store
  by unfold_locales (simp_all add: outcome_steady activate_steady hold_steady binding_steady
      materialize_steady)

lemma client_settles:
  "moves (settles sha) (upsert_binding key b at)" "moves (settles sha) (save_cursor c at)"
  "moves (settles sha) (record_hold key epoch h at)"
  by (auto simp: moves_def upsert_binding_def save_cursor_def record_hold_def stmt_simps settles_def
      journal_ok_def receipts_agree_def extends_def feed_ordered_def revisions_follow_def
      payloads_held_def intro: ages_refl)

lemma activate_settles: "moves (settles sha) (capture_activate canonical digest at)"
proof -
  have frame: "moves same_journal (capture_activate canonical digest at)"
    unfolding capture_activate_def by (auto intro!: moves_seq activate_frame split: option.splits)
  then have "moves same_log (capture_activate canonical digest at)"
    by (auto simp: moves_def same_log_def same_journal_def)
  then show ?thesis by (intro same_log_settles frame_keeps frame)
qed

lemma answers_settle:
  "answers_to env store op res d d' \<Longrightarrow> settles (n_sha256 env) d d'"
  by (auto simp: answers_to_def settles_def split: sum.splits
      dest: settled_settles refused_settles [of _ _ _ _ _ _ _ "n_sha256 env"])

interpretation settling_pull: pull_steps "settles (n_sha256 env)" env store
  by unfold_locales
    (auto intro: outbox_settles activate_settles client_settles run_movesI answers_settle
      dest: materialize_answers)

lemma following: "steady d d' \<Longrightarrow> upholds d d'"
  by (simp add: steady_def)

interpretation following_pull: pull_steps upholds env store
  by unfold_locales
    (auto simp: moves_def run_moves_def intro!: following
      dest: movesD [OF outcome_steady] movesD [OF activate_steady] movesD [OF hold_steady]
        movesD [OF binding_steady] run_movesD [OF materialize_steady])

lemma cursor_upholds: "moves upholds (save_cursor c at)"
  by (auto simp: moves_def save_cursor_def stmt_simps upholds_def is_answered_def)

section \<open>Bindings and cursors read back\<close>

lemma synced_binding_eq:
  "synced_binding d key kind entity = (let rs = filter (binds key kind entity) (rd_bindings d)
     in if rs = [] then None else Some (decode_binding (last rs)))"
proof -
  let ?rs = "filter (binds key kind entity) (rd_bindings d)"
  have "sorted (map (\<lambda>r. (sb_kind r, sb_entity r)) (filter (binds key kind entity) rs))" for rs
    by (induction rs) (auto simp: binds_def)
  then have "sort_key (\<lambda>r. (sb_kind r, sb_entity r)) ?rs = ?rs"
    by (rule sort_key_id_if_sorted)
  moreover have "(\<lambda>r. sb_key r = key \<and> sb_kind r = kind \<and> sb_entity r = entity) = binds key kind entity"
    by (intro ext) (simp add: binds_def)
  ultimately show ?thesis
    by (simp add: synced_binding_def select_bindings_def Let_def last_map)
qed

lemma filter_map_same: "(\<And>x. P (f x) = P x) \<Longrightarrow> filter P (map f xs) = map f (filter P xs)"
  by (simp add: filter_map comp_def)

lemma decode_binding_row_of [simp]: "decode_binding (binding_row_of key b at) = b"
  by (simp add: decode_binding_def binding_row_of_def)

lemma synced_binding_upsert:
  assumes "upsert_binding key b at d = Inr (u, d')"
  shows "synced_binding d' key' kind entity =
    (if key' = key \<and> kind = bd_kind b \<and> entity = bd_entity b then Some b
     else synced_binding d key' kind entity)"
proof -
  let ?hit = "binds key (bd_kind b) (bd_entity b)"
  let ?put = "\<lambda>r. if ?hit r then binding_row_of key b at else r"
  have new: "binds key' kind entity (binding_row_of key b at) \<longleftrightarrow>
      key' = key \<and> kind = bd_kind b \<and> entity = bd_entity b" for key' kind entity
    by (auto simp: binds_def binding_row_of_def)
  have d': "rd_bindings d' = (if \<exists>r \<in> set (rd_bindings d). ?hit r then map ?put (rd_bindings d)
      else rd_bindings d @ [binding_row_of key b at])"
    using assms by (auto simp: upsert_binding_def stmt_simps)
  show ?thesis
  proof (cases "key' = key \<and> kind = bd_kind b \<and> entity = bd_entity b")
    case True
    then have same: "binds key' kind entity = ?hit" by simp
    have "filter ?hit (map ?put rs) = map ?put (filter ?hit rs)" for rs
      using new by (intro filter_map_same) auto
    moreover have "map ?put (filter ?hit rs) = map (\<lambda>_. binding_row_of key b at) (filter ?hit rs)" for rs
      by simp
    ultimately have put: "filter ?hit (map ?put rs) = map (\<lambda>_. binding_row_of key b at) (filter ?hit rs)" for rs
      by metis
    show ?thesis
      using True new [of key "bd_kind b" "bd_entity b"]
      by (auto simp: synced_binding_eq Let_def d' same put last_map filter_empty_conv simp del: filter_map)
  next
    case False
    then have other: "binds key' kind entity r \<Longrightarrow> \<not> ?hit r" for r by (auto simp: binds_def)
    have "filter (binds key' kind entity) (map ?put rs) = filter (binds key' kind entity) rs" for rs
      using other new False by (induction rs) auto
    then show ?thesis using False new by (auto simp: synced_binding_eq d')
  qed
qed

lemma load_cursor_saved:
  assumes "save_cursor c at d = Inr (u, d')"
  shows "load_cursor d' (pc_key c) = Some c"
proof -
  let ?put = "\<lambda>r. if cw_key r = pc_key c then cursor_row_of c at else r"
  have "find (\<lambda>r. cw_key r = pc_key c) (map ?put rs) = Some (cursor_row_of c at)"
    if "\<exists>r \<in> set rs. cw_key r = pc_key c" for rs
    using that by (induction rs) (auto simp: cursor_row_of_def)
  moreover have "find (\<lambda>r. cw_key r = pc_key c) (rs @ [cursor_row_of c at]) = Some (cursor_row_of c at)"
    if "\<not> (\<exists>r \<in> set rs. cw_key r = pc_key c)" for rs
    using that by (induction rs) (auto simp: cursor_row_of_def)
  ultimately have "find (\<lambda>r. cw_key r = pc_key c) (rd_cursors d') = Some (cursor_row_of c at)"
    using assms by (auto simp: save_cursor_def stmt_simps)
  then show ?thesis by (simp add: load_cursor_def cursor_row_of_def)
qed

lemma traverse_member:
  "traverse f xs = Inr ys \<Longrightarrow> y \<in> set ys \<Longrightarrow> \<exists>x \<in> set xs. f x = Inr y"
  by (fastforce simp: traverse_Inr_iff list_all2_conv_all_nth in_set_conv_nth)

lemma read_outbox_member:
  assumes "read_outbox d scope limit = Inr ps" "(r, op) \<in> set ps"
  shows "r \<in> set (rd_outbox d)" "in_outbox_scope scope r" "parse_op (ob_op r) = Inr op"
proof -
  from traverse_member [OF assms(1) [unfolded read_outbox_def] assms(2)]
  have "\<exists>x \<in> set (take limit (sort_key ob_created (filter (in_outbox_scope scope) (rd_outbox d)))).
      x = r \<and> parse_op (ob_op r) = Inr op"
    by (fastforce split: sum.splits)
  then obtain x where x: "x \<in> set (take limit (sort_key ob_created (filter (in_outbox_scope scope) (rd_outbox d))))"
    and r: "x = r" "parse_op (ob_op r) = Inr op"
    by blast
  from set_take_subset x have "x \<in> set (sort_key ob_created (filter (in_outbox_scope scope) (rd_outbox d)))"
    by (rule subsetD)
  with r show "r \<in> set (rd_outbox d)" "in_outbox_scope scope r" "parse_op (ob_op r) = Inr op" by auto
qed

section \<open>A resolved entry is handled\<close>

text \<open>What the entry at a position came to: it is answered here, it is an event held here, an
  operation of this machine that the upstream holds was settled by it, its position is held, or
  its payload is gone at the upstream.\<close>

definition event_held :: "change_entry \<Rightarrow> 'm rdb \<Rightarrow> bool" where
  "event_held e d \<longleftrightarrow> is_event_kind (ce_kind e) \<and>
     (\<exists>row \<in> set (rd_feed d). fd_kind row = ce_kind e \<and> fd_key row = ce_key e \<and> fd_digest row = ce_digest e)"

definition handled :: "exchange_key \<Rightarrow> string \<Rightarrow> 'm rdb \<Rightarrow> change_entry \<Rightarrow> bool" where
  "handled key epoch d e \<longleftrightarrow>
     is_answered d (ce_id e) \<or> event_held e d \<or> (\<exists>r \<in> set (rd_outbox d). settles_entry e r) \<or>
     (\<exists>h \<in> set (rd_holds d). hold_at key epoch (ce_sequence e) h) \<or>
     (ce_op e \<noteq> Tombstone \<and> ce_state e \<noteq> Present)"

lemma handled_stays: "handled key epoch d e \<Longrightarrow> upholds d d' \<Longrightarrow> handled key epoch d' e"
  unfolding handled_def upholds_def event_held_def by blast

definition owes_entry :: "change_entry \<Rightarrow> outbox_row \<Rightarrow> bool" where
  "owes_entry e r \<longleftrightarrow> ob_operation r = ce_id e \<or>
     ob_kind r = ce_kind e \<and> ob_key r = ce_key e \<and>
     (\<exists>op. parse_op (ob_op r) = Inr op \<and> same_bytes e (r, op))"

lemma owes_outcome [simp]:
  "owes_entry e (with_outcome (UploadAccepted n disposition epoch) at r) = owes_entry e r"
  "ob_operation (with_outcome (UploadAccepted n disposition epoch) at r) = ob_operation r"
  "settles_entry e (with_outcome (UploadAccepted n disposition epoch) at r) = owes_entry e r"
  by (simp_all add: owes_entry_def same_bytes_def settles_entry_def)

lemma andthen_Inr: "andthen m f s = (Inr y, s') \<longleftrightarrow> (\<exists>x s1. m s = (Inr x, s1) \<and> f x s1 = (Inr y, s'))"
  by (auto simp: andthen_def split: prod.splits sum.splits)

lemma autocommit_Inr: "autocommit m s = (Inr x, s') \<longleftrightarrow>
    (\<exists>d. m (rs_db s) = Inr (x, d) \<and> s' = s\<lparr>rs_db := d\<rparr>)"
  by (auto simp: autocommit_def split: sum.splits)

lemma run_base_Inr:
  "finish x s = (Inr y, s') \<longleftrightarrow> y = x \<and> s' = s"
  "reads f s = (Inr y, s') \<longleftrightarrow> f (rs_db s) = Inr y \<and> s' = s"
  by (auto simp: finish_def reads_def)

lemmas run_Inr = andthen_Inr autocommit_Inr run_base_Inr

lemma record_outcome_iff:
  "record_outcome i out at d = Inr (k, d') \<longleftrightarrow>
     k = length (filter (\<lambda>r. ob_operation r = i) (rd_outbox d)) \<and>
     d' = d\<lparr>rd_outbox := map (\<lambda>r. if ob_operation r = i then with_outcome out at r else r) (rd_outbox d)\<rparr>"
  by (auto simp: record_outcome_def)

lemma settled_rows:
  assumes "each_run (\<lambda>i. andthen (autocommit (record_outcome i (UploadAccepted n disposition epoch) at))
      (\<lambda>_. finish ())) ids s = (Inr u, s')"
    and "i \<in> set ids" "r \<in> set (rd_outbox (rs_db s))" "ob_operation r = i" "owes_entry e r"
  shows "\<exists>r \<in> set (rd_outbox (rs_db s')). settles_entry e r"
  using assms
proof (induction ids arbitrary: s r)
  case (Cons j ids)
  let ?f = "\<lambda>r. if ob_operation r = j then with_outcome (UploadAccepted n disposition epoch) at r else r"
  define s1 where "s1 = s\<lparr>rs_db := (rs_db s)\<lparr>rd_outbox := map ?f (rd_outbox (rs_db s))\<rparr>\<rparr>"
  have rows: "rd_outbox (rs_db s1) = map ?f (rd_outbox (rs_db s))" by (simp add: s1_def)
  have rest: "each_run (\<lambda>i. andthen (autocommit (record_outcome i (UploadAccepted n disposition epoch) at))
      (\<lambda>_. finish ())) ids s1 = (Inr u, s')"
    using Cons.prems(1) unfolding s1_def by (auto simp: run_Inr record_outcome_iff)
  have there: "?f r \<in> set (rd_outbox (rs_db s1))" using Cons.prems(3) unfolding rows by simp
  show ?case
  proof (cases "ob_operation r = j")
    case True
    then have "settles_entry e (?f r)" using Cons.prems(5) by (simp del: with_outcome.simps)
    with there have hit: "\<exists>r \<in> set (rd_outbox (rs_db s1)). settles_entry e r" by blast
    have quiet: "run_moves steady (each_run (\<lambda>i. andthen (autocommit
        (record_outcome i (UploadAccepted n disposition epoch) at)) (\<lambda>_. finish ())) ids)"
      by (intro each_run_moves run_rules outcome_steady) simp_all
    from run_movesD [OF quiet rest] hit show ?thesis unfolding steady_def upholds_def by blast
  next
    case False
    then show ?thesis using Cons.IH [OF rest, of r] Cons.prems there by auto
  qed
qed simp

lemma settle_entry_settles:
  assumes "settle_entry cx epoch e ids disposition s = (Inr u, s')"
    and "i \<in> set ids" "r \<in> set (rd_outbox (rs_db s))" "ob_operation r = i" "owes_entry e r"
  shows "\<exists>r \<in> set (rd_outbox (rs_db s')). settles_entry e r"
proof -
  from assms(1) obtain v s1 where first: "each_run (\<lambda>i. andthen (autocommit (record_outcome i
         (UploadAccepted (Some (ce_sequence e)) disposition (Some epoch)) (pu_at cx)))
         (\<lambda>_. finish ())) ids s = (Inr v, s1)"
    and rest: "(case ce_digest e of
       Some digest \<Rightarrow>
         if ce_kind e = code_kind then autocommit (capture_activate (ce_key e) digest (pu_at cx))
         else finish ()
     | None \<Rightarrow> finish ()) s1 = (Inr u, s')"
    unfolding settle_entry_def andthen_Inr by blast
  have "run_moves steady (case ce_digest e of
       Some digest \<Rightarrow>
         if ce_kind e = code_kind then autocommit (capture_activate (ce_key e) digest (pu_at cx))
         else finish ()
     | None \<Rightarrow> finish ())"
    by (auto intro!: run_rules activate_steady split: option.splits)
  from run_movesD [OF this rest] settled_rows [OF first assms(2-5)]
  show ?thesis unfolding steady_def upholds_def by blast
qed

lemma already_upstream_member:
  "already_upstream ps e = Some ids \<Longrightarrow> \<exists>p \<in> set ps. same_bytes e p \<and> ob_operation (fst p) \<in> set ids"
  by (induction ps arbitrary: ids) (auto split: if_splits)

lemma known_event_held:
  assumes ok: "journal_ok sha d" and known: "known_event d (operation_of e) = Some Duplicate"
  shows "event_held e d"
proof -
  from known obtain rv where kind: "is_event_kind (ce_kind e)"
    and rv: "find_revision d (ce_kind e) (ce_key e) = Some rv" "rw_digest rv = ce_digest e"
    by (auto simp: known_event_def operation_of_def split: if_splits option.splits)
  from rv(1) ok obtain row where row: "latest (rd_feed d) (ce_kind e) (ce_key e) = Some row"
    and "rv = to_revision_view (revision_from row)"
    by (auto simp: find_revision_def journal_ok_def revisions_follow_def)
  then have "fd_digest row = ce_digest e"
    using rv(2) by (simp add: to_revision_view_def revision_from_def)
  with kind latest_SomeD [OF row] show ?thesis unfolding event_held_def by blast
qed

lemma apply_pulled_handles:
  assumes ok: "journal_ok sha (rs_db s)"
    and run: "apply_pulled env store e Received s = (Inr x, s')" and taken: "\<And>why. x \<noteq> PulledRefused why"
  shows "is_answered (rs_db s') (ce_id e) \<or> event_held e (rs_db s')"
proof -
  let ?op = "operation_of e"
  have id: "o_id ?op = ce_id e" by (simp add: operation_of_def)
  show ?thesis
  proof (cases "replayed env (rs_db s) ?op")
    case (Some r)
    then have "is_answered (rs_db s) (ce_id e)" using replayed_None [of env "rs_db s" ?op] id by auto
    moreover have "s' = s" using run Some by (auto simp: apply_pulled_def Let_def run_Inr)
    ultimately show ?thesis by simp
  next
    case None
    then have shape: "kind_and_shape env ?op = None"
      using run taken by (auto simp: apply_pulled_def Let_def run_Inr split: option.splits)
    with None run taken consider "known_event (rs_db s) ?op = Some Duplicate" "s' = s"
      | epoch r where "materialize env store epoch ?op Upstream s = (Inr r, s')"
      by (auto simp: apply_pulled_def Let_def run_Inr split: option.splits disposition.splits if_splits)
    then show ?thesis
    proof cases
      case 1
      then show ?thesis using known_event_held [OF ok] by simp
    next
      case 2
      from answers_steady [OF materialize_answers [OF this shape]] show ?thesis by (simp add: id)
    qed
  qed
qed

lemma classify_own:
  assumes "classify_entry d cx epoch e = Inr RuleOwn"
  shows "\<exists>r \<in> set (rd_outbox d). ob_operation r = ce_id e"
proof -
  from assms obtain own where own: "read_outbox d (ScopeOperation (ce_id e)) 1 = Inr own" "own \<noteq> []"
    by (auto simp: classify_entry_def Let_def res_simps split: if_splits option.splits)
  then obtain r op where "(r, op) \<in> set own" by (cases own) auto
  from read_outbox_member [OF own(1) this] show ?thesis by auto
qed

lemma classify_upstream:
  assumes "classify_entry d cx epoch e = Inr (RuleAlreadyUpstream ids)"
  shows "\<exists>r \<in> set (rd_outbox d). ob_operation r \<in> set ids \<and> owes_entry e r"
proof -
  from assms obtain pending where pending: "pending_of d (ce_kind e) (ce_key e) = Inr pending"
    and ids: "already_upstream pending e = Some ids"
    by (auto simp: classify_entry_def Let_def res_simps split: if_splits option.splits)
  from already_upstream_member [OF ids] obtain r op where p: "(r, op) \<in> set pending"
    "same_bytes e (r, op)" "ob_operation r \<in> set ids" by fastforce
  from read_outbox_member [OF pending [unfolded pending_of_def] p(1)] p show ?thesis
    unfolding owes_entry_def by auto
qed

lemma classify_rest:
  "classify_entry d cx epoch e = Inr RuleSuperseded \<Longrightarrow> is_superseded d (pu_key cx) epoch e"
  "classify_entry d cx epoch e = Inr RulePayloadGone \<Longrightarrow> ce_op e \<noteq> Tombstone \<and> ce_state e \<noteq> Present"
  by (auto simp: classify_entry_def Let_def res_simps split: if_splits option.splits)

lemma hold_entry_holds:
  assumes "hold_entry cx epoch e reason repository s = (Inr u, s')"
  shows "\<exists>h \<in> set (rd_holds (rs_db s')). hold_at (pu_key cx) epoch (ce_sequence e) h"
  using assms by (auto simp: hold_entry_def run_Inr record_hold_def stmt_simps hold_at_def)

lemma bind_entry_upholds:
  assumes "bind_entry cx epoch e s = (Inr u, s')"
  shows "upholds (rs_db s) (rs_db s')"
  using assms movesD [OF binding_steady] by (fastforce simp: bind_entry_def run_Inr steady_def)

lemma resolve_entry_handles:
  assumes ok: "journal_ok sha (rs_db s)"
    and run: "resolve_entry env store cx epoch e p s = (Inr (None, p'), s')"
  shows "handled (pu_key cx) epoch (rs_db s') e \<or> is_superseded (rs_db s) (pu_key cx) epoch e"
proof -
  from run obtain rule where rule: "classify_entry (rs_db s) cx epoch e = Inr rule"
    by (auto simp: resolve_entry_def Let_def run_Inr)
  show ?thesis
  proof (cases rule)
    case RuleOwn
    from run rule obtain s1 where settle: "settle_entry cx epoch e [ce_id e] ''accepted'' s = (Inr (), s1)"
      and bind: "bind_entry cx epoch e s1 = (Inr (), s')"
      unfolding RuleOwn by (auto simp: resolve_entry_def Let_def run_Inr)
    from classify_own rule RuleOwn obtain r where "r \<in> set (rd_outbox (rs_db s))" "ob_operation r = ce_id e"
      by blast
    from settle_entry_settles [OF settle, of "ce_id e", OF _ this]
    have "handled (pu_key cx) epoch (rs_db s1) e"
      using \<open>ob_operation r = ce_id e\<close> unfolding handled_def owes_entry_def by auto
    then show ?thesis using handled_stays bind_entry_upholds [OF bind] by blast
  next
    case (RuleAlreadyUpstream ids)
    from run rule obtain s1 where settle: "settle_entry cx epoch e ids ''already_upstream'' s = (Inr (), s1)"
      and bind: "bind_entry cx epoch e s1 = (Inr (), s')"
      unfolding RuleAlreadyUpstream by (auto simp: resolve_entry_def Let_def run_Inr)
    from classify_upstream rule RuleAlreadyUpstream obtain r
      where "r \<in> set (rd_outbox (rs_db s))" "ob_operation r \<in> set ids" "owes_entry e r"
      by blast
    from settle_entry_settles [OF settle this(2) this(1) refl this(3)]
    have "handled (pu_key cx) epoch (rs_db s1) e" unfolding handled_def by blast
    then show ?thesis using handled_stays bind_entry_upholds [OF bind] by blast
  next
    case RuleApply
    from run rule obtain s1 where applied: "apply_entry env store cx e s = (Inr None, s1)"
      and bind: "bind_entry cx epoch e s1 = (Inr (), s')"
      unfolding RuleApply by (auto simp: resolve_entry_def Let_def run_Inr split: option.splits)
    from applied obtain x where "apply_pulled env store e Received s = (Inr x, s1)" "\<And>why. x \<noteq> PulledRefused why"
      by (auto simp: apply_entry_def split: prod.splits sum.splits pulled.splits)
    from apply_pulled_handles [OF ok this] have "handled (pu_key cx) epoch (rs_db s1) e"
      unfolding handled_def by blast
    then show ?thesis using handled_stays bind_entry_upholds [OF bind] by blast
  next
    case (RuleUnapproved repository)
    with run rule show ?thesis
      by (auto simp: resolve_entry_def Let_def run_Inr handled_def dest: hold_entry_holds)
  next
    case RulePendingLocal
    with run rule show ?thesis
      by (auto simp: resolve_entry_def Let_def run_Inr handled_def dest: hold_entry_holds)
  next
    case (RuleUnreadable kind)
    with run rule show ?thesis by (auto simp: resolve_entry_def Let_def run_Inr)
  next
    case RuleSuperseded
    with rule classify_rest(1) show ?thesis by blast
  next
    case RulePayloadGone
    with run rule classify_rest(2) [of "rs_db s" cx epoch e] show ?thesis
      by (auto simp: resolve_entry_def Let_def run_Inr handled_def)
  qed
qed

section \<open>A page\<close>

text \<open>Resolving an entry binds its entity to its position and nothing else.\<close>

definition binds_only :: "string \<Rightarrow> change_entry \<Rightarrow> 'm rdb \<Rightarrow> 'm rdb \<Rightarrow> bool" where
  "binds_only epoch e d d' \<longleftrightarrow>
     (\<forall>key kind i. synced_binding d' key kind i = synced_binding d key kind i \<or>
        synced_binding d' key kind i = Some (entry_binding epoch e))"

lemma binds_only_order [simp]: "reflp (binds_only epoch e)" "transp (binds_only epoch e)"
  by (auto simp: reflp_def transp_def binds_only_def) metis

lemma binds_only_same: "rd_bindings d' = rd_bindings d \<Longrightarrow> binds_only epoch e d d'"
  by (simp add: binds_only_def synced_binding_eq)

lemma resolve_entry_binds: "run_moves (binds_only epoch e) (resolve_entry env store cx epoch e p)"
proof -
  let ?R = "binds_only epoch e"
  have settle: "run_moves ?R (settle_entry cx epoch e ids disposition)" for ids disposition
  proof (intro settle_entry_moves)
    show "moves ?R (capture_activate (ce_key e) digest (pu_at cx))" for digest
    proof -
      have "moves same_journal (capture_activate (ce_key e) digest (pu_at cx))"
        unfolding capture_activate_def by (auto intro!: moves_seq activate_frame split: option.splits)
      then show ?thesis by (auto simp: moves_def same_journal_def intro: binds_only_same)
    qed
  qed (auto simp: moves_def record_outcome_iff intro: binds_only_same)
  have hold: "run_moves ?R (hold_entry cx epoch e reason repository)" for reason repository
    unfolding hold_entry_def
    by (intro run_rules) (auto simp: moves_def record_hold_def stmt_simps intro: binds_only_same)
  have "run_moves ?R (materialize env store stream op Upstream)" if "kind_and_shape env op = None" for op stream
    using answers_steady materialize_answers [OF _ that] by (blast intro: run_movesI binds_only_same)
  then have pulled: "run_moves ?R (apply_entry env store cx e)"
    by (intro apply_entry_moves apply_pulled_moves) simp_all
  have bind: "run_moves ?R (bind_entry cx epoch e)"
    unfolding bind_entry_def
    by (intro run_rules) (auto simp: moves_def binds_only_def synced_binding_upsert)
  show ?thesis
    unfolding resolve_entry_def Let_def
    by (auto intro!: run_rules settle hold pulled bind split: pull_rule.splits option.splits)
qed

lemma resolve_entry_stalled:
  assumes run: "resolve_entry env store cx epoch e p s = (Inr (x, p'), s')"
  shows "pg_stalled p' = pg_stalled p"
proof -
  from run obtain rule where "classify_entry (rs_db s) cx epoch e = Inr rule"
    by (auto simp: resolve_entry_def Let_def run_Inr)
  with run show ?thesis
    by (cases rule) (auto simp: resolve_entry_def Let_def run_Inr split: option.splits)
qed

text \<open>Since \<open>d0\<close>, entities were bound to positions up to \<open>m\<close> only.\<close>

definition bound_up_to :: "exchange_key \<Rightarrow> 'm rdb \<Rightarrow> int \<Rightarrow> 'm rdb \<Rightarrow> bool" where
  "bound_up_to key d0 m d \<longleftrightarrow>
     (\<forall>kind i. synced_binding d key kind i = synced_binding d0 key kind i \<or>
        (\<exists>b n. synced_binding d key kind i = Some b \<and> bd_sequence b = Some n \<and> n \<le> m))"

lemma superseded_at_start:
  assumes "bound_up_to key d0 m d" "m < ce_sequence e" "is_superseded d key epoch e"
  shows "is_superseded d0 key epoch e"
proof -
  from assms(3) obtain b n where b: "synced_binding d key (ce_kind e) (ce_key e) = Some b"
    "bd_epoch b = Some epoch" "bd_sequence b = Some n" "ce_sequence e \<le> n"
    by (auto simp: is_superseded_def split: option.splits)
  have "synced_binding d key (ce_kind e) (ce_key e) = synced_binding d0 key (ce_kind e) (ce_key e)"
    using assms(1,2) b unfolding bound_up_to_def by fastforce
  with b show ?thesis by (simp add: is_superseded_def)
qed

lemma bound_up_to_step:
  assumes "bound_up_to key d0 m d" "m < ce_sequence e" "binds_only epoch e d d'"
  shows "bound_up_to key d0 (ce_sequence e) d'"
  unfolding bound_up_to_def
proof (intro allI)
  fix kind i
  have "synced_binding d' key kind i = synced_binding d key kind i \<or>
      synced_binding d' key kind i = Some (entry_binding epoch e)"
    using assms(3) unfolding binds_only_def by blast
  moreover have "synced_binding d key kind i = synced_binding d0 key kind i \<or>
      (\<exists>b n. synced_binding d key kind i = Some b \<and> bd_sequence b = Some n \<and> n \<le> m)"
    using assms(1) unfolding bound_up_to_def by blast
  ultimately show "synced_binding d' key kind i = synced_binding d0 key kind i \<or>
      (\<exists>b n. synced_binding d' key kind i = Some b \<and> bd_sequence b = Some n \<and> n \<le> ce_sequence e)"
    using assms(2) by (force simp: entry_binding_def)
qed

lemma record_gap_bindings: "record_gap cx c n s = (res, s') \<Longrightarrow> rd_bindings (rs_db s') = rd_bindings (rs_db s)"
  by (auto simp: record_gap_def finish_def autocommit_def record_hold_def guarded_def change_def
      split: option.splits if_splits sum.splits)

definition reached :: "pull_cursor \<Rightarrow> change_entry \<Rightarrow> pull_cursor" where
  "reached c e = c\<lparr>pc_applied := ce_sequence e, pc_anchor := Some (ce_sequence e, ce_id e)\<rparr>"

text \<open>How far a page got: the entries before \<open>rest\<close> are handled, the stored cursor stands at the
  last of them, and the page stalled exactly when something is left. \<open>d0\<close> is the database the
  page found.\<close>

definition walked ::
  "pull_context \<Rightarrow> 'm rdb \<Rightarrow> change_entry list \<Rightarrow> pull_cursor \<Rightarrow> 'm rdb \<Rightarrow>
   (error + pull_cursor \<times> paged) \<Rightarrow> 'm rdb \<Rightarrow> bool"
where
  "walked cx d0 es c d res d' \<longleftrightarrow>
     (\<exists>ready rest. es = ready @ rest \<and>
        (\<forall>e \<in> set ready. handled (pu_key cx) (pc_epoch c) d' e \<or> is_superseded d0 (pu_key cx) (pc_epoch c) e) \<and>
        load_cursor d' (pu_key cx) =
          (if ready = [] then load_cursor d (pu_key cx) else Some (reached c (last ready))) \<and>
        (case res of
           Inl _ \<Rightarrow> True
         | Inr (c', p') \<Rightarrow> c' = (if ready = [] then c else reached c (last ready)) \<and>
             map_option fst (pg_stalled p') = (if rest = [] then None else Some (ce_sequence (hd rest)))))"

lemma walked_nothing:
  assumes "steady d d'" "\<And>x. res = Inr x \<Longrightarrow> fst x = c \<and>
    map_option fst (pg_stalled (snd x)) = (if es = [] then None else Some (ce_sequence (hd es)))"
  shows "walked cx d0 es c d res d'"
  unfolding walked_def
  using assms by (intro exI [of _ "[]"] exI [of _ es]) (auto simp: steady_def load_cursor_def split: sum.splits)

lemma reached_fields [simp]:
  "pc_key (reached c e) = pc_key c" "pc_epoch (reached c e) = pc_epoch c" "reached (reached c e) f = reached c f"
  by (simp_all add: reached_def)

lemma walked_step:
  assumes rest: "walked cx d0 es (reached c e) d3 res d'"
    and here: "handled (pu_key cx) (pc_epoch c) d3 e \<or> is_superseded d0 (pu_key cx) (pc_epoch c) e"
    and cursor: "load_cursor d3 (pu_key cx) = Some (reached c e)" and up: "upholds d3 d'"
  shows "walked cx d0 (e # es) c d res d'"
proof -
  from rest obtain ready left where es: "es = ready @ left"
    and hands: "\<forall>x \<in> set ready. handled (pu_key cx) (pc_epoch c) d' x \<or> is_superseded d0 (pu_key cx) (pc_epoch c) x"
    and at: "load_cursor d' (pu_key cx) =
          (if ready = [] then load_cursor d3 (pu_key cx) else Some (reached c (last ready)))"
    and res: "case res of
           Inl _ \<Rightarrow> True
         | Inr (c', p') \<Rightarrow> c' = (if ready = [] then reached c e else reached c (last ready)) \<and>
             map_option fst (pg_stalled p') = (if left = [] then None else Some (ce_sequence (hd left)))"
    unfolding walked_def reached_fields by blast
  show ?thesis
    unfolding walked_def
  proof (intro exI conjI)
    show "e # es = (e # ready) @ left" using es by simp
    show "\<forall>x \<in> set (e # ready). handled (pu_key cx) (pc_epoch c) d' x \<or> is_superseded d0 (pu_key cx) (pc_epoch c) x"
      using hands here handled_stays [OF _ up] by auto
    show "load_cursor d' (pu_key cx) =
        (if e # ready = [] then load_cursor d (pu_key cx) else Some (reached c (last (e # ready))))"
      using at cursor by (cases ready) simp_all
    show "case res of
           Inl _ \<Rightarrow> True
         | Inr (c', p') \<Rightarrow> c' = (if e # ready = [] then c else reached c (last (e # ready))) \<and>
             map_option fst (pg_stalled p') = (if left = [] then None else Some (ce_sequence (hd left)))"
      using res by (cases ready; cases res) (auto split: prod.splits)
  qed
qed

lemma walk_entries_walked:
  assumes "walk_entries env store cx es c p s = (res, s')"
    and "journal_ok (n_sha256 env) (rs_db s)" "receipts_agree (rs_db s)"
    and "sorted_wrt (<) (map ce_sequence es)" "\<forall>e \<in> set es. m < ce_sequence e"
    and "bound_up_to (pu_key cx) d0 m (rs_db s)" "pc_key c = pu_key cx" "pg_stalled p = None"
  shows "walked cx d0 es c (rs_db s) res (rs_db s')"
  using assms
proof (induction es arbitrary: c p s m)
  case Nil
  then show ?case by (intro walked_nothing) (auto simp: finish_def)
next
  case (Cons e es)
  let ?sha = "n_sha256 env" and ?d = "rs_db s"
  from Cons.prems(1) show ?case
    unfolding walk_entries.simps
  proof (cases rule: andthen_cases)
    case (1 err)
    then show ?thesis using run_movesD [OF steady_pull.gap 1(1)] by (intro walked_nothing) auto
  next
    case (2 u s1)
    note gap = run_movesD [OF steady_pull.gap 2(1)] run_movesD [OF settling_pull.gap 2(1)]
      record_gap_bindings [OF 2(1)]
    have ok1: "journal_ok ?sha (rs_db s1)" "receipts_agree (rs_db s1)"
      using gap(2) Cons.prems(2,3) by (auto simp: settles_def)
    have bound1: "bound_up_to (pu_key cx) d0 m (rs_db s1)"
      using Cons.prems(6) gap(3) by (simp add: bound_up_to_def synced_binding_eq)
    from 2(2) show ?thesis
    proof (cases rule: andthen_cases)
      case (1 err)
      then show ?thesis
        using steady_trans [OF gap(1) run_movesD [OF steady_pull.entry 1(1)]] by (intro walked_nothing) auto
    next
      case (2 y s2)
      obtain stall p1 where y: "y = (stall, p1)" by (cases y)
      note run = 2(1) [unfolded y]
      note step = steady_trans [OF gap(1) run_movesD [OF steady_pull.entry run]]
        run_movesD [OF settling_pull.entry run] run_movesD [OF resolve_entry_binds run]
      show ?thesis
      proof (cases stall)
        case (Some reason)
        then show ?thesis using 2(2) step(1) unfolding y by (intro walked_nothing) (auto simp: finish_def)
      next
        case None
        let ?c = "reached c e" and ?p = "p1\<lparr>pg_advanced := True\<rparr>"
        from 2(2) None y obtain s3 where save: "autocommit (save_cursor ?c (pu_at cx)) s2 = (Inr (), s3)"
          and walk: "walk_entries env store cx es ?c ?p s3 = (res, s')"
          by (auto simp: Let_def reached_def andthen_def autocommit_def save_cursor_def change_def)
        from save have saved: "save_cursor ?c (pu_at cx) (rs_db s2) = Inr ((), rs_db s3)"
          by (auto simp: autocommit_Inr)
        have up: "upholds (rs_db s2) (rs_db s3)" "settles ?sha (rs_db s2) (rs_db s3)"
          using movesD [OF cursor_upholds saved] movesD [OF client_settles(2) saved] by blast+
        have ok3: "journal_ok ?sha (rs_db s3)" "receipts_agree (rs_db s3)"
          using ok1 step(2) up(2) by (auto simp: settles_def)
        have "rd_bindings (rs_db s3) = rd_bindings (rs_db s2)"
          using saved by (auto simp: save_cursor_def stmt_simps)
        moreover have "bound_up_to (pu_key cx) d0 (ce_sequence e) (rs_db s2)"
          using bound_up_to_step [OF bound1 _ step(3)] Cons.prems(5) by simp
        ultimately have bound3: "bound_up_to (pu_key cx) d0 (ce_sequence e) (rs_db s3)"
          by (simp add: bound_up_to_def synced_binding_eq)
        have "handled (pu_key cx) (pc_epoch c) (rs_db s2) e \<or> is_superseded (rs_db s1) (pu_key cx) (pc_epoch c) e"
          using resolve_entry_handles [OF ok1(1)] run None by blast
        then have here: "handled (pu_key cx) (pc_epoch c) (rs_db s3) e \<or> is_superseded d0 (pu_key cx) (pc_epoch c) e"
          using handled_stays [OF _ up(1)] superseded_at_start [OF bound1] Cons.prems(5) by auto
        show ?thesis
        proof (rule walked_step [OF _ here])
          show "load_cursor (rs_db s3) (pu_key cx) = Some ?c"
            using load_cursor_saved [OF saved] Cons.prems(7) by simp
          show "upholds (rs_db s3) (rs_db s')"
            using run_movesD [OF following_pull.entries [OF cursor_upholds] walk] .
          show "walked cx d0 es ?c (rs_db s3) res (rs_db s')"
            using Cons.prems(4,5,7,8) resolve_entry_stalled [OF run]
            by (intro Cons.IH [OF walk ok3 _ _ bound3]) auto
        qed
      qed
    qed
  qed
qed

text \<open>The cursor after a whole page: at the continuation the upstream named.\<close>

definition continued :: "changes_response \<Rightarrow> pull_cursor \<Rightarrow> pull_cursor" where
  "continued response c =
     (case cr_next response of
        None \<Rightarrow> c
      | Some n \<Rightarrow> if n \<le> pc_applied c then c else c\<lparr>pc_applied := n, pc_anchor := None\<rparr>)"

lemma continued_same:
  "continued response c = c \<longleftrightarrow> (case cr_next response of None \<Rightarrow> True | Some n \<Rightarrow> n \<le> pc_applied c)"
proof -
  have "c\<lparr>pc_applied := n, pc_anchor := None\<rparr> \<noteq> c" if "\<not> n \<le> pc_applied c" for n
    using that by (cases c) auto
  then show ?thesis by (auto simp: continued_def split: option.splits)
qed

lemma walk_page_cases:
  assumes "walk_page env store cx response c p s = (res, s')"
    and walk: "walk_entries env store cx (cr_entries response) c p s = (first, s1)"
    and key: "\<forall>c1 p1. first = Inr (c1, p1) \<longrightarrow> pc_key c1 = pu_key cx"
  shows "upholds (rs_db s1) (rs_db s') \<and>
    (case res of
       Inl e \<Rightarrow> load_cursor (rs_db s') (pu_key cx) = load_cursor (rs_db s1) (pu_key cx)
     | Inr (c', p') \<Rightarrow> \<exists>c1 p1. first = Inr (c1, p1) \<and> pg_stalled p' = pg_stalled p1 \<and>
         c' = (if pg_stalled p1 = None then continued response c1 else c1) \<and>
         load_cursor (rs_db s') (pu_key cx) =
           (if c' = c1 then load_cursor (rs_db s1) (pu_key cx) else Some c'))"
proof (cases first)
  case (Inl e)
  then show ?thesis
    using assms(1) walk by (auto simp: walk_page_def andthen_def reflpD [OF upholds_order(1)])
next
  case (Inr y)
  obtain c1 p1 where y: "y = (c1, p1)" by (cases y)
  show ?thesis
  proof (cases "pg_stalled p1 = None \<and> continued response c1 \<noteq> c1")
    case False
    then have "res = Inr (c1, p1) \<and> s' = s1"
      using assms(1) walk unfolding walk_page_def continued_same
      by (auto simp: andthen_def Inr y finish_def split: option.splits if_splits)
    with False show ?thesis by (auto simp: Inr y reflpD [OF upholds_order(1)])
  next
    case True
    then obtain n where n: "cr_next response = Some n" "\<not> n \<le> pc_applied c1"
      by (auto simp: continued_same split: option.splits)
    let ?c = "continued response c1"
    have "andthen (record_gap cx c1 n) (\<lambda>_. andthen (autocommit (save_cursor ?c (pu_at cx)))
        (\<lambda>_. finish (?c, p1\<lparr>pg_advanced := True\<rparr>))) s1 = (res, s')"
      using assms(1) walk True n unfolding walk_page_def
      by (simp add: andthen_def [of "walk_entries env store cx (cr_entries response) c p"] Inr y continued_def Let_def)
    then show ?thesis
    proof (cases rule: andthen_cases)
      case (1 e)
      then show ?thesis
        using run_movesD [OF steady_pull.gap 1(1)] by (auto simp: steady_def load_cursor_def)
    next
      case (2 u s2)
      then have saved: "save_cursor ?c (pu_at cx) (rs_db s2) = Inr ((), rs_db s')"
        and res: "res = Inr (?c, p1\<lparr>pg_advanced := True\<rparr>)"
        by (auto simp: andthen_def autocommit_def save_cursor_def change_def finish_def)
      have "upholds (rs_db s1) (rs_db s')"
        using run_movesD [OF following_pull.gap 2(1)] movesD [OF cursor_upholds saved]
        by (rule transpD [OF upholds_order(2)])
      moreover have "pc_key ?c = pu_key cx"
        using key Inr y by (auto simp: continued_def split: option.splits)
      ultimately show ?thesis
        using load_cursor_saved [OF saved] True by (simp add: res Inr y)
    qed
  qed
qed

text \<open>C13. The cursor of a pull names handled positions only. Whatever stops a page (a stall, a
  refused statement half way, its end), the entries it passed are a first part of the page, each
  of them is answered here, is an event held here, was settled by an operation of this machine,
  is held at its position, has lost its payload at the upstream, or was already superseded for
  its entity; the stored cursor stands at the last of them, or, after the whole page, at the
  continuation the upstream named; and a page that stalls names the first entry it did not pass.\<close>

theorem cursor_names_handled:
  assumes ok: "journal_ok (n_sha256 env) (rs_db s)" "receipts_agree (rs_db s)"
    and own: "pc_key c = pu_key cx" and stream: "pc_epoch c = [] \<or> pc_epoch c = cr_epoch response"
    and ascending: "sorted_wrt (<) (map ce_sequence (cr_entries response))"
    and run: "pull_page env store cx (Inr response) c s = (res, s')"
  shows "\<exists>ready rest. cr_entries response = ready @ rest \<and>
    (\<forall>e \<in> set ready. handled (pu_key cx) (cr_epoch response) (rs_db s') e \<or>
       is_superseded (rs_db s) (pu_key cx) (cr_epoch response) e) \<and>
    (let at = (if ready = [] then c else reached c (last ready))\<lparr>pc_epoch := cr_epoch response\<rparr>
     in (case res of
           Inl e \<Rightarrow> load_cursor (rs_db s') (pu_key cx) =
             (if ready = [] then load_cursor (rs_db s) (pu_key cx) else Some at)
         | Inr (c', p') \<Rightarrow> c' = (if rest = [] then continued response at else at) \<and>
             map_option fst (pg_stalled p') = (if rest = [] then None else Some (ce_sequence (hd rest))) \<and>
             load_cursor (rs_db s') (pu_key cx) =
               (if ready = [] \<and> c' = at then load_cursor (rs_db s) (pu_key cx) else Some c')))"
proof -
  let ?es = "cr_entries response" and ?c = "c\<lparr>pc_epoch := cr_epoch response\<rparr>"
  let ?p = "no_page\<lparr>pg_head := cr_head response\<rparr>"
  have run: "walk_page env store cx response ?c ?p s = (res, s')"
    using run stream by (cases c) (auto simp: pull_page_def Let_def split: if_splits)
  obtain first s1 where walk: "walk_entries env store cx ?es ?c ?p s = (first, s1)"
    by (cases "walk_entries env store cx ?es ?c ?p s")
  have bound: "bound_up_to (pu_key cx) (rs_db s) m (rs_db s)" for m by (simp add: bound_up_to_def)
  have below: "\<forall>e \<in> set ?es. (if ?es = [] then 0 else ce_sequence (hd ?es) - 1) < ce_sequence e"
    using ascending by (cases ?es) auto
  have "walked cx (rs_db s) ?es ?c (rs_db s) first (rs_db s1)"
    by (rule walk_entries_walked [OF walk ok ascending below bound]) (simp_all add: own no_page_def)
  then obtain ready rest where es: "?es = ready @ rest"
    and hands: "\<forall>e \<in> set ready. handled (pu_key cx) (cr_epoch response) (rs_db s1) e \<or>
       is_superseded (rs_db s) (pu_key cx) (cr_epoch response) e"
    and stored: "load_cursor (rs_db s1) (pu_key cx) =
       (if ready = [] then load_cursor (rs_db s) (pu_key cx) else Some (reached ?c (last ready)))"
    and got: "\<And>c1 p1. first = Inr (c1, p1) \<Longrightarrow> c1 = (if ready = [] then ?c else reached ?c (last ready)) \<and>
       map_option fst (pg_stalled p1) = (if rest = [] then None else Some (ce_sequence (hd rest)))"
    unfolding walked_def by force
  let ?at = "(if ready = [] then c else reached c (last ready))\<lparr>pc_epoch := cr_epoch response\<rparr>"
  have at: "(if ready = [] then ?c else reached ?c (last ready)) = ?at"
    by (simp add: reached_def)
  have end': "upholds (rs_db s1) (rs_db s')" "case res of
       Inl e \<Rightarrow> load_cursor (rs_db s') (pu_key cx) = load_cursor (rs_db s1) (pu_key cx)
     | Inr (c', p') \<Rightarrow> \<exists>c1 p1. first = Inr (c1, p1) \<and> pg_stalled p' = pg_stalled p1 \<and>
         c' = (if pg_stalled p1 = None then continued response c1 else c1) \<and>
         load_cursor (rs_db s') (pu_key cx) =
           (if c' = c1 then load_cursor (rs_db s1) (pu_key cx) else Some c')"
  proof -
    have key: "\<forall>c1 p1. first = Inr (c1, p1) \<longrightarrow> pc_key c1 = pu_key cx"
      using got own by (auto simp: reached_def)
    note walk_page_cases [OF run walk key]
    then show "upholds (rs_db s1) (rs_db s')" "case res of
       Inl e \<Rightarrow> load_cursor (rs_db s') (pu_key cx) = load_cursor (rs_db s1) (pu_key cx)
     | Inr (c', p') \<Rightarrow> \<exists>c1 p1. first = Inr (c1, p1) \<and> pg_stalled p' = pg_stalled p1 \<and>
         c' = (if pg_stalled p1 = None then continued response c1 else c1) \<and>
         load_cursor (rs_db s') (pu_key cx) =
           (if c' = c1 then load_cursor (rs_db s1) (pu_key cx) else Some c')"
      by blast+
  qed
  have "\<forall>e \<in> set ready. handled (pu_key cx) (cr_epoch response) (rs_db s') e \<or>
       is_superseded (rs_db s) (pu_key cx) (cr_epoch response) e"
    using hands handled_stays [OF _ end'(1)] by blast
  moreover have "case res of
      Inl e \<Rightarrow> load_cursor (rs_db s') (pu_key cx) =
             (if ready = [] then load_cursor (rs_db s) (pu_key cx) else Some ?at)
    | Inr (c', p') \<Rightarrow> c' = (if rest = [] then continued response ?at else ?at) \<and>
             map_option fst (pg_stalled p') = (if rest = [] then None else Some (ce_sequence (hd rest))) \<and>
             load_cursor (rs_db s') (pu_key cx) =
               (if ready = [] \<and> c' = ?at then load_cursor (rs_db s) (pu_key cx) else Some c')"
  proof (cases res)
    case (Inl e)
    then show ?thesis using end'(2) stored at by auto
  next
    case (Inr y)
    obtain c' p' where y: "y = (c', p')" by (cases y)
    from end'(2) Inr y obtain c1 p1 where f: "first = Inr (c1, p1)" "pg_stalled p' = pg_stalled p1"
      "c' = (if pg_stalled p1 = None then continued response c1 else c1)"
      "load_cursor (rs_db s') (pu_key cx) = (if c' = c1 then load_cursor (rs_db s1) (pu_key cx) else Some c')"
      by auto
    from got [OF f(1)] at have c1: "c1 = ?at"
      and stall: "map_option fst (pg_stalled p1) = (if rest = [] then None else Some (ce_sequence (hd rest)))"
      by simp_all
    have none: "pg_stalled p1 = None \<longleftrightarrow> rest = []" using stall by (auto split: if_splits)
    show ?thesis using f(2-4) stall none stored at unfolding c1 Inr y by auto
  qed
  ultimately show ?thesis unfolding Let_def using es by blast
qed

definition demo_entry :: "int \<Rightarrow> string \<Rightarrow> string \<Rightarrow> int \<Rightarrow> string \<Rightarrow> change_entry" where
  "demo_entry n i kind version repository = \<lparr>ce_sequence = n, ce_id = i, ce_kind = kind, ce_key = ''k'',
     ce_op = Tombstone, ce_schema = version, ce_digest = None, ce_payload = None, ce_state = Absent,
     ce_repository = Some repository, ce_at = ''t''\<rparr>"

definition demo_pull :: pull_context where
  "demo_pull = \<lparr>pu_key = \<lparr>xk_api_url = ''u'', xk_workspace = ''w''\<rparr>,
     pu_policy = \<lparr>pol_workspace = ''w'', pol_revision = 1, pol_allowed = [''o/r''], pol_mappings = [],
       pol_identities = []\<rparr>,
     pu_lower = \<lambda>x. x, pu_managed = Some 1, pu_sqlite = \<lambda>_. [], pu_at = ''t''\<rparr>"

text \<open>One entry of a repository that is not approved, a position the server withheld, one entry
  that applies, and one this build cannot read.\<close>

definition demo_changes :: changes_response where
  "demo_changes = \<lparr>cr_protocol = protocol, cr_epoch = ''up'', cr_head = 9, cr_next = Some 5,
     cr_entries = [demo_entry 1 ''a'' document_kind 1 ''o/x'', demo_entry 3 ''b'' document_kind 1 ''o/r'',
       demo_entry 4 ''c'' memory_kind 2 ''o/r'', demo_entry 5 ''d'' document_kind 1 ''o/r'']\<rparr>"

definition demo_cursor :: pull_cursor where
  "demo_cursor = \<lparr>pc_key = pu_key demo_pull, pc_epoch = [], pc_applied = 0, pc_anchor = None\<rparr>"

definition demo_pulled :: "(error + pull_cursor \<times> paged) \<times> (unit, unit) rst" where
  "demo_pulled = pull_page (demo_replica JNull) demo_store demo_pull (Inr demo_changes) demo_cursor
     demo_replica_start"

theorem cursor_names_handled_witness:
  "let d = rs_db (snd demo_pulled)
   in (\<exists>ready rest. cr_entries demo_changes = ready @ rest \<and> rest \<noteq> [] \<and> ce_sequence (hd rest) = 4 \<and>
        (\<forall>e \<in> set ready. handled (pu_key demo_pull) ''up'' d e \<or>
           is_superseded (rs_db demo_replica_start) (pu_key demo_pull) ''up'' e)) \<and>
      map_option pc_applied (load_cursor d (pu_key demo_pull)) = Some 3 \<and>
      map (\<lambda>h. (hd_from h, hd_reason h)) (rd_holds d) = [(1, ''policy''), (2, ''server_withheld'')] \<and>
      map fd_operation (rd_feed d) = [''b'']"
proof -
  let ?d = "rs_db (snd demo_pulled)"
  obtain res s' where run: "demo_pulled = (res, s')" by (cases demo_pulled)
  have ok: "journal_ok sha (rs_db demo_replica_start)" "receipts_agree (rs_db demo_replica_start)" for sha
    by (simp_all add: demo_replica_start_def fresh_ok)
  have stall: "map_sum (\<lambda>_. ()) (\<lambda>(_, p). map_option fst (pg_stalled p)) (fst demo_pulled) = Inr (Some 4)"
    by code_simp
  then obtain c p where res: "res = Inr (c, p)" "map_option fst (pg_stalled p) = Some 4"
    by (cases res) (auto simp: run)
  have "sorted_wrt (<) (map ce_sequence (cr_entries demo_changes))"
    by (simp add: demo_changes_def demo_entry_def)
  from cursor_names_handled [OF ok _ _ this run [unfolded demo_pulled_def]]
  obtain ready rest where "cr_entries demo_changes = ready @ rest"
    "\<forall>e \<in> set ready. handled (pu_key demo_pull) ''up'' (rs_db s') e \<or>
       is_superseded (rs_db demo_replica_start) (pu_key demo_pull) ''up'' e"
    "Some 4 = (if rest = [] then None else Some (ce_sequence (hd rest)))"
    using res by (fastforce simp: demo_cursor_def demo_changes_def Let_def)
  moreover have "map_option pc_applied (load_cursor ?d (pu_key demo_pull)) = Some 3"
    "map (\<lambda>h. (hd_from h, hd_reason h)) (rd_holds ?d) = [(1, ''policy''), (2, ''server_withheld'')]"
    "map fd_operation (rd_feed ?d) = [''b'']"
    by code_simp+
  ultimately show ?thesis by (auto simp: Let_def run split: if_splits)
qed

section \<open>One pulled entry\<close>

lemma write_code_upstream:
  "write_code env epoch op at Upstream found d = Inr (r, d') \<Longrightarrow> or_disposition r = Accepted"
  by (auto simp: write_code_def stmt_Inr_iff accept_answer_iff answer_def split: option.splits prod.splits)

lemma materialize_upstream:
  assumes run: "materialize env store epoch op Upstream s = (Inr r, s')" and ok: "kind_and_shape env op = None"
  shows "\<exists>n. r = answer op Accepted (Some n) None \<and> settled env store op n (rs_db s) (rs_db s')"
proof -
  have "or_disposition r = Accepted" if "o_kind op = code_kind"
  proof -
    from run that obtain at s1 where "apply_code env epoch op at Upstream s1 = (Inr r, s')"
      by (auto simp: materialize_def andthen_Inr)
    then obtain found s2 where "in_transaction env (write_code env epoch op at Upstream found) s2 = (Inr r, s')"
      by (auto simp: apply_code_def andthen_Inr)
    from in_transaction_cases(1) [OF this] show ?thesis using write_code_upstream by auto
  qed
  with materialize_answers [OF run ok] show ?thesis
    by (auto simp: answers_to_def answer_def)
qed

text \<open>C14. What one pulled entry does, whatever the local state of its entity: the upstream's order
  counts, not this engine's. If it is applied, it had not been answered before, holds together
  and has not been erased here, and the feed has grown by exactly one row that carries its
  operation, kind, entity and verb, which is now the entity's revision. Otherwise (a duplicate, a
  refusal, a failure) no row of the database has changed; and a refused entry leaves no answer, so
  it can be pulled again once its cause is gone. Pulled again at any later time, after whatever
  calls, an applied entry writes nothing.\<close>

theorem pulled_entry_exact:
  assumes run: "apply_pulled env store e Received s = (res, s')" and named: "store_named env store"
    and ok: "journal_ok (n_sha256 env) (rs_db s)" "receipts_agree (rs_db s)"
  shows "if res = Inr PulledApplied
    then \<not> is_answered (rs_db s) (ce_id e) \<and> kind_and_shape env (operation_of e) = None \<and>
      \<not> is_erased (rs_db s) (ce_digest e) \<and>
      (\<exists>row. rd_feed (rs_db s') = rd_feed (rs_db s) @ [row] \<and> fd_operation row = ce_id e \<and>
         fd_kind row = ce_kind e \<and> fd_key row = ce_key e \<and> fd_op row = op_str (ce_op e) \<and>
         find (is_revision (ce_kind e) (ce_key e)) (rd_revisions (rs_db s')) = Some (revision_from row)) \<and>
      (\<forall>jr cs s2. s2 = calls_run env store jr cs s' \<longrightarrow>
         apply_pulled env store e Received s2 = (Inr PulledDuplicate, s2))
    else rs_db s' = rs_db s \<and>
      (\<forall>why. res = Inr (PulledRefused why) \<longrightarrow> \<not> is_answered (rs_db s') (ce_id e))"
proof -
  let ?op = "operation_of e"
  have id: "o_id ?op = ce_id e" "o_kind ?op = ce_kind e" "o_key ?op = ce_key e" "o_op ?op = ce_op e"
    "o_digest ?op = ce_digest e" by (simp_all add: operation_of_def)
  show ?thesis
  proof (cases "res = Inr PulledApplied")
    case True
    from run True have fresh: "\<not> is_answered (rs_db s) (ce_id e)" and shape: "kind_and_shape env ?op = None"
      and unerased: "\<not> is_erased (rs_db s) (ce_digest e)"
      by (auto simp: apply_pulled_def Let_def run_Inr replayed_None id is_erased_def
          split: option.splits disposition.splits if_splits)
    from run True fresh shape obtain epoch r where "materialize env store epoch ?op Upstream s = (Inr r, s')"
      by (auto simp: apply_pulled_def Let_def run_Inr replayed_None id
          split: option.splits disposition.splits if_splits)
    from materialize_upstream [OF this shape] obtain n where n: "settled env store ?op n (rs_db s) (rs_db s')" by blast
    then obtain row where row: "rd_feed (rs_db s') = rd_feed (rs_db s) @ [row]" "fd_operation row = ce_id e"
      "fd_kind row = ce_kind e" "fd_key row = ce_key e" "fd_op row = op_str (ce_op e)"
      "find (is_revision (ce_kind e) (ce_key e)) (rd_revisions (rs_db s')) = Some (revision_from row)"
      using named by (cases rule: settled_effect) (simp_all add: id)
    have "settles (n_sha256 env) (rs_db s) (rs_db s')" using settled_settles [OF n] .
    then have ok': "journal_ok (n_sha256 env) (rs_db s')" "receipts_agree (rs_db s')"
      using ok by (auto simp: settles_def)
    have there: "is_answered (rs_db s') (ce_id e)"
      using n by (auto simp: settled_def is_answered_def answered_def receipt_of_def id)
    have "apply_pulled env store e Received s2 = (Inr PulledDuplicate, s2)"
      if s2: "s2 = calls_run env store jr cs s'" for jr cs s2
    proof -
      have "extends (rs_db s') (rs_db s2)"
        using calls_settle [of env s' store jr cs] ok' by (auto simp: settles_def s2)
      then have "is_answered (rs_db s2) (ce_id e)"
        using there by (auto simp: extends_def is_answered_def dest: set_mono_prefix)
      then have "replayed env (rs_db s2) ?op \<noteq> None" by (simp add: replayed_None id)
      then show ?thesis by (auto simp: apply_pulled_def Let_def andthen_def reads_def finish_def)
    qed
    with True fresh shape unerased row show ?thesis by auto
  next
    case False
    have "rs_db s' = rs_db s"
    proof (cases "kind_and_shape env ?op")
      case None
      have quiet: "rs_db s1 = rs_db s" if "materialize env store epoch ?op Upstream s = (Inl err, s1)" for epoch err s1
        using materialize_answers [OF that None] by (simp add: answers_to_def)
      from run False None show ?thesis
        by (auto simp: apply_pulled_def Let_def andthen_def reads_def finish_def dest: quiet
            split: option.splits disposition.splits if_splits prod.splits sum.splits)
    next
      case (Some why)
      with run show ?thesis
        by (auto simp: apply_pulled_def Let_def andthen_def reads_def finish_def split: if_splits)
    qed
    moreover have "\<not> is_answered (rs_db s) (ce_id e)" if "res = Inr (PulledRefused why)" for why
      using run that by (auto simp: apply_pulled_def Let_def run_Inr replayed_None id
          split: option.splits if_splits)
    ultimately show ?thesis using False by simp
  qed
qed

theorem pulled_entry_exact_witness:
  "case apply_pulled (demo_replica JNull) demo_store (demo_entry 3 ''b'' document_kind 1 ''o/r'') Received
      demo_replica_start of
    (res, s') \<Rightarrow> res = Inr PulledApplied \<and>
      (\<exists>row. rd_feed (rs_db s') = [row] \<and> fd_operation row = ''b'' \<and> fd_op row = ''tombstone'') \<and>
      apply_pulled (demo_replica JNull) demo_store (demo_entry 3 ''b'' document_kind 1 ''o/r'') Received s' =
        (Inr PulledDuplicate, s')"
proof -
  let ?e = "demo_entry 3 ''b'' document_kind 1 ''o/r''"
  obtain res s' where run: "apply_pulled (demo_replica JNull) demo_store ?e Received demo_replica_start = (res, s')"
    by fastforce
  have "map_sum (\<lambda>_. ()) id (fst (apply_pulled (demo_replica JNull) demo_store ?e Received
      demo_replica_start)) = Inr PulledApplied"
    by code_simp
  then have res: "res = Inr PulledApplied" by (cases res) (simp_all add: run)
  have ok: "journal_ok sha (rs_db demo_replica_start)" "receipts_agree (rs_db demo_replica_start)" for sha
    by (simp_all add: demo_replica_start_def fresh_ok)
  have start: "rd_feed (rs_db demo_replica_start) = []" by (simp add: demo_replica_start_def fresh_rdb_def)
  have fields: "ce_id ?e = ''b''" "ce_op ?e = Tombstone" by (simp_all add: demo_entry_def)
  note exact = pulled_entry_exact [OF run demo_store_named ok, unfolded if_P [OF res]]
  have "s' = calls_run (demo_replica JNull) demo_store demo_no_text [] s'" by simp
  with exact have again: "apply_pulled (demo_replica JNull) demo_store ?e Received s' = (Inr PulledDuplicate, s')"
    by blast
  from exact obtain row where "rd_feed (rs_db s') = rd_feed (rs_db demo_replica_start) @ [row]"
    "fd_operation row = ce_id ?e" "fd_op row = op_str (ce_op ?e)" by blast
  with again res show ?thesis unfolding start run fields by simp
qed

end
