(* ===== verification/Replica_Rewind.thy ===== *)
theory Replica_Rewind
  imports Replica_Following
begin

text \<open>
  What a rewind of the cursor brings back. A held position that comes due moves the cursor below
  entries resolved long ago (\<open>drain/holds.rs\<close>); one of them may be an operation of this
  machine, which the pull settles again before it asks whether the entry is superseded.
\<close>

section \<open>Reading an own code generation again\<close>

lemma decoded_same: "decoded gs = Inr xs \<Longrightarrow> xs = gs"
  by (auto simp: decoded_def res_simps list_all2_conv_all_nth intro!: nth_equalityI)

lemma capture_activate_takes:
  assumes ok: "generations_ok d" and run: "capture_activate repo digest at d = Inr (u, d')"
    and there: "\<exists>g \<in> set (rd_generations d). gn_repo g = repo \<and> gn_digest g = digest"
  shows "\<exists>g \<in> set (rd_generations d). gn_repo g = repo \<and> gn_digest g = digest \<and>
    taken_over repo (gn_id g) (rd_generations d) (rd_generations d')"
proof -
  from run obtain gs where gs: "all_generations repo d = Inr gs"
    and rest: "(case find (\<lambda>g. gn_digest g = digest) gs of None \<Rightarrow> done_with ()
      | Some g \<Rightarrow> activate_following repo (gn_id g) at) d = Inr (u, d')"
    unfolding capture_activate_def stmt_Inr_iff by blast
  have set: "set gs = {g \<in> set (rd_generations d). gn_repo g = repo}"
    using decoded_same [OF gs [unfolded all_generations_def]] by auto
  then obtain g where g: "find (\<lambda>g. gn_digest g = digest) gs = Some g"
    using there by (cases "find (\<lambda>g. gn_digest g = digest) gs") (auto simp: find_None_iff)
  then have "g \<in> set gs" "gn_digest g = digest" by (auto simp: find_Some_iff)
  moreover have "taken_over repo (gn_id g) (rd_generations d) (rd_generations d')"
    using activate_following_takes [OF ok] rest g by simp
  ultimately show ?thesis using set by auto
qed

text \<open>The generations are left alone by all that follows an own entry: its binding, the cursor, and
  later entries that were answered before and are not operations of this machine.\<close>

definition same_code :: "'m rdb \<Rightarrow> 'm rdb \<Rightarrow> bool" where
  "same_code d d' \<longleftrightarrow> rd_generations d' = rd_generations d"

lemma same_code_order [simp]: "reflp same_code" "transp same_code"
  by (auto simp: reflp_def transp_def same_code_def)

lemma client_same_code:
  "moves same_code (record_outcome i out at)" "moves same_code (upsert_binding key b at)"
  "moves same_code (record_hold key epoch h at)" "moves same_code (save_cursor c at)"
  by (auto simp: moves_def record_outcome_def upsert_binding_def record_hold_def save_cursor_def
      stmt_simps same_code_def)

lemma small_steps_same_code:
  "run_moves same_code (bind_entry cx epoch e)" "run_moves same_code (record_gap cx c n)"
  "run_moves same_code (hold_entry cx epoch e reason repository)"
  unfolding bind_entry_def record_gap_def hold_entry_def
  by (auto intro!: run_rules client_same_code split: option.splits)

lemma settle_same_code:
  assumes "ce_kind e \<noteq> code_kind"
  shows "run_moves same_code (settle_entry cx epoch e ids disposition)"
  unfolding settle_entry_def using assms
  by (auto intro!: run_rules each_run_moves client_same_code split: option.splits)

lemma answered_entry_same_code:
  assumes run: "resolve_entry env store cx epoch e p s = (res, s')"
    and there: "is_answered (rs_db s) (ce_id e)" and foreign: "ce_id e \<notin> ob_operation ` set (rd_outbox (rs_db s))"
  shows "same_code (rs_db s) (rs_db s')"
proof (cases "classify_entry (rs_db s) cx epoch e")
  case (Inl err)
  with run show ?thesis by (auto simp: resolve_entry_def Let_def andthen_def reads_def same_code_def)
next
  case (Inr rule)
  have bound: "run_moves same_code (andthen m (\<lambda>u. andthen (bind_entry cx epoch e) (\<lambda>_. finish x)))"
    if "run_moves same_code m" for m :: "('a, 'b, unit) run" and x :: "string option \<times> paged"
    using that by (auto intro!: run_rules small_steps_same_code)
  have answered: "apply_entry env store cx e s = (Inr None, s)"
  proof -
    have "replayed env (rs_db s) (operation_of e) \<noteq> None"
      using there by (simp add: replayed_None operation_of_def)
    then show ?thesis
      by (auto simp: apply_entry_def apply_pulled_def Let_def andthen_def reads_def finish_def)
  qed
  show ?thesis
  proof (cases rule)
    case RuleOwn
    with classify_own [of "rs_db s" cx epoch e] Inr foreign show ?thesis by force
  next
    case (RuleAlreadyUpstream ids)
    then have "ce_kind e \<noteq> code_kind"
      using Inr by (auto simp: classify_entry_def Let_def res_simps kind_defs split: if_splits option.splits)
    from run_movesD [OF bound [OF settle_same_code [OF this]]] run Inr RuleAlreadyUpstream show ?thesis
      by (fastforce simp: resolve_entry_def Let_def andthen_def [of "reads _"] reads_def)
  next
    case RuleApply
    have "run_moves same_code (andthen (bind_entry cx epoch e) (\<lambda>_. finish x))" for x :: "string option \<times> paged"
      by (auto intro!: run_rules small_steps_same_code)
    from run_movesD [OF this] run Inr RuleApply answered show ?thesis
      by (fastforce simp: resolve_entry_def Let_def andthen_def [of "reads _"] andthen_def [of "apply_entry _ _ _ _"] reads_def)
  next
    case (RuleUnapproved repository)
    have "run_moves same_code (andthen (hold_entry cx epoch e ''policy'' (Some repository)) (\<lambda>_. finish x))"
      for x :: "string option \<times> paged"
      by (auto intro!: run_rules small_steps_same_code)
    from run_movesD [OF this] run Inr RuleUnapproved show ?thesis
      by (fastforce simp: resolve_entry_def Let_def andthen_def [of "reads _"] reads_def)
  next
    case RulePendingLocal
    have "run_moves same_code (andthen (hold_entry cx epoch e ''pending_local'' None) (\<lambda>_. finish x))"
      for x :: "string option \<times> paged"
      by (auto intro!: run_rules small_steps_same_code)
    from run_movesD [OF this] run Inr RulePendingLocal show ?thesis
      by (fastforce simp: resolve_entry_def Let_def andthen_def [of "reads _"] reads_def)
  qed (use run Inr in \<open>auto simp: resolve_entry_def Let_def andthen_def reads_def finish_def same_code_def\<close>)
qed

text \<open>What later entries need: they stay answered, and no row of the outbox changes its id.\<close>

definition same_ids :: "'m rdb \<Rightarrow> 'm rdb \<Rightarrow> bool" where
  "same_ids d d' \<longleftrightarrow> map ob_operation (rd_outbox d') = map ob_operation (rd_outbox d) \<and>
     (\<forall>i. is_answered d i \<longrightarrow> is_answered d' i)"

lemma same_ids_order [simp]: "reflp same_ids" "transp same_ids"
  by (auto simp: reflp_def transp_def same_ids_def)

lemma journal_same_ids: "same_journal d d' \<Longrightarrow> same_ids d d'"
  by (simp add: same_journal_def same_ids_def is_answered_def)

lemma outcome_ids: "ob_operation (with_outcome out at r) = ob_operation r"
  by (cases out) simp_all

lemma answers_same_ids: "answers_to env store op res d d' \<Longrightarrow> same_ids d d'"
proof -
  assume answers: "answers_to env store op res d d'"
  have outbox: "rd_outbox d' = rd_outbox d"
    using answers by (auto simp: answers_to_def settled_def same_journal_def append_op_iff appended_def
        Let_def refused_as_def split: sum.splits)
  with answers_steady [OF answers] show ?thesis
    by (simp add: same_ids_def steady_def upholds_def)
qed

interpretation ids_pull: pull_steps same_ids env store
proof (unfold_locales; (simp; fail)?)
  show "moves same_ids (record_outcome i (UploadAccepted n disposition upstream) at)"
    for i n disposition upstream at
    by (auto simp: moves_def record_outcome_iff same_ids_def is_answered_def comp_def)
  show "moves same_ids (capture_activate canonical digest at)" for canonical digest at
    unfolding capture_activate_def
    by (auto intro!: moves_seq split: option.splits)
      (auto simp: moves_def intro!: journal_same_ids dest: movesD [OF activate_frame(1)])
  show "moves same_ids (record_hold key epoch h at)" "moves same_ids (upsert_binding key b at)"
    for key epoch h at b
    by (auto simp: moves_def record_hold_def upsert_binding_def stmt_simps same_ids_def is_answered_def)
  show "run_moves same_ids (materialize env store epoch op Upstream)"
    if "kind_and_shape env op = None" for op epoch
    using materialize_answers [OF _ that] by (blast intro: run_movesI answers_same_ids)
qed

lemma cursor_same_ids: "moves same_ids (save_cursor c at)"
  by (auto simp: moves_def save_cursor_def stmt_simps same_ids_def is_answered_def)

definition known_foreign :: "'m rdb \<Rightarrow> change_entry \<Rightarrow> bool" where
  "known_foreign d e \<longleftrightarrow> is_answered d (ce_id e) \<and> ce_id e \<notin> ob_operation ` set (rd_outbox d)"

lemma known_foreign_stays: "known_foreign d e \<Longrightarrow> same_ids d d' \<Longrightarrow> known_foreign d' e"
  unfolding known_foreign_def same_ids_def by (metis list.set_map)

lemma known_walk_same_code:
  assumes "walk_entries env store cx es c p s = (res, s')" "\<forall>e \<in> set es. known_foreign (rs_db s) e"
  shows "same_code (rs_db s) (rs_db s')"
  using assms
proof (induction es arbitrary: c p s)
  case Nil
  then show ?case by (simp add: finish_def same_code_def)
next
  case (Cons e es)
  note trans = transpD [OF same_code_order(2)]
  from Cons.prems(1) show ?case
    unfolding walk_entries.simps
  proof (cases rule: andthen_cases)
    case (1 err)
    then show ?thesis using run_movesD [OF small_steps_same_code(2)] by blast
  next
    case (2 u s1)
    have gap: "same_code (rs_db s) (rs_db s1)" "same_ids (rs_db s) (rs_db s1)"
      using run_movesD [OF small_steps_same_code(2) 2(1)] run_movesD [OF ids_pull.gap 2(1)] by blast+
    have e: "known_foreign (rs_db s1) e" using known_foreign_stays [OF _ gap(2)] Cons.prems(2) by simp
    from 2(2) show ?thesis
    proof (cases rule: andthen_cases)
      case (1 err)
      then show ?thesis
        using trans [OF gap(1) answered_entry_same_code [OF 1(1)]] e by (simp add: known_foreign_def)
    next
      case (2 y s2)
      have step: "same_code (rs_db s) (rs_db s2)" "same_ids (rs_db s) (rs_db s2)"
        using trans [OF gap(1) answered_entry_same_code [OF 2(1)]] e
          transpD [OF same_ids_order(2) gap(2) run_movesD [OF ids_pull.entry 2(1)]]
        by (simp_all add: known_foreign_def)
      obtain stall p1 where y: "y = (stall, p1)" by (cases y)
      show ?thesis
      proof (cases stall)
        case (Some reason)
        with 2(2) y step show ?thesis by (auto simp: finish_def)
      next
        case None
        from 2(2) None y obtain s3 where save: "autocommit (save_cursor (reached c e) (pu_at cx)) s2 = (Inr (), s3)"
          and walk: "walk_entries env store cx es (reached c e) (p1\<lparr>pg_advanced := True\<rparr>) s3 = (res, s')"
          by (auto simp: Let_def reached_def andthen_def autocommit_def save_cursor_def change_def)
        have saved: "same_code (rs_db s2) (rs_db s3)" "same_ids (rs_db s2) (rs_db s3)"
          using save movesD [OF client_same_code(4)] movesD [OF cursor_same_ids] by (auto simp: autocommit_Inr)
        have "\<forall>x \<in> set es. known_foreign (rs_db s3) x"
          using Cons.prems(2) known_foreign_stays [OF _ transpD [OF same_ids_order(2) step(2) saved(2)]] by simp
        from Cons.IH [OF walk this] show ?thesis using trans [OF trans [OF step(1) saved(1)]] by blast
      qed
    qed
  qed
qed

lemma own_is_own:
  assumes "\<exists>r \<in> set (rd_outbox d). ob_operation r = ce_id e" "classify_entry d cx epoch e = Inr rule"
  shows "rule = RuleOwn"
proof -
  from assms(2) obtain own where own: "read_outbox d (ScopeOperation (ce_id e)) 1 = Inr own"
    by (auto simp: classify_entry_def res_simps)
  have "filter (in_outbox_scope (ScopeOperation (ce_id e))) (rd_outbox d) \<noteq> []"
    using assms(1) by (auto simp: filter_empty_conv)
  then have "take 1 (sort_key ob_created (filter (in_outbox_scope (ScopeOperation (ce_id e))) (rd_outbox d))) \<noteq> []"
    by (metis One_nat_def take_eq_Nil nat.distinct(1) length_0_conv length_sort)
  then have "own \<noteq> []"
    using own by (auto simp: read_outbox_def traverse_Inr_iff dest: list_all2_lengthD)
  with own assms(2) show ?thesis by (simp add: classify_entry_def Let_def res_simps)
qed


definition demo_row :: "string \<Rightarrow> string \<Rightarrow> string \<Rightarrow> generation_row" where
  "demo_row i digest state = \<lparr>gn_repo = ''o/r'', gn_id = i, gn_parent = None, gn_head = [], gn_mined = None,
     gn_origin = ''local'', gn_state = state, gn_files = 0, gn_digest = digest, gn_created = ''t'',
     gn_activated = None\<rparr>"

definition demo_code_entry :: "int \<Rightarrow> string \<Rightarrow> string \<Rightarrow> change_entry" where
  "demo_code_entry n i digest = \<lparr>ce_sequence = n, ce_id = i, ce_kind = code_kind, ce_key = ''o/r'',
     ce_op = Upsert, ce_schema = 1, ce_digest = Some digest, ce_payload = Some JNull, ce_state = Present,
     ce_repository = Some ''o/r'', ce_at = ''t''\<rparr>"

text \<open>This machine's generation 1 was uploaded and superseded by generation 2 of another machine.\<close>

definition demo_settled :: "unit rdb" where
  "demo_settled = (fresh_rdb ''e'' ''d'' ''t'' ())\<lparr>
     rd_generations := [demo_row ''1'' ''d1'' ''superseded'', demo_row ''2'' ''d2'' ''active''],
     rd_outbox := [\<lparr>ob_operation = ''own'', ob_kind = code_kind, ob_key = ''o/r'', ob_op = ''upsert'',
       ob_digest = Some ''d1'', ob_schema = 1, ob_repository = Some ''o/r'', ob_observed = None,
       ob_state = ''accepted'', ob_upstream_sequence = Some 5, ob_disposition = Some ''accepted'',
       ob_attempts = 0, ob_last_error = None, ob_created = ''t'', ob_updated = ''t'', ob_api_url = None,
       ob_hold_detail = None, ob_hold_reason = None, ob_upstream_epoch = Some ''up'',
       ob_wire_repository = None, ob_workspace = None\<rparr>],
     rd_answers := [\<lparr>an_operation = ''other'', an_epoch = ''e'', an_sequence = Some 1,
       an_disposition = ''accepted'', an_digest = Some ''d2'', an_reason = None, an_at = ''t''\<rparr>]\<rparr>"

definition demo_rewound :: "(error + pull_cursor \<times> paged) \<times> (unit, unit) rst" where
  "demo_rewound = walk_entries (demo_replica JNull) demo_store demo_pull
     [demo_code_entry 5 ''own'' ''d1'', demo_code_entry 9 ''other'' ''d2'']
     (demo_cursor\<lparr>pc_epoch := ''up'', pc_applied := 4\<rparr>) no_page
     \<lparr>rs_db = demo_settled, rs_files = (), rs_ticks = 0, rs_txs = 0\<rparr>"


end
