(* ===== verification/Spec2Isabelle.thy ===== *)
theory Spec2Isabelle
  imports Project_Engine Job_Worker Transfer_Properties Replica_Rewind
begin

text \<open>
  comemory is a memory engine over one SQLite file, reached from the command line, over HTTP and
  over MCP. This development models its project engine (\<open>src/src/domains/projects\<close> on the
  tables of \<open>src/src/store\<close>), the replica journal by which two copies of a store exchange
  their changes (\<open>src/src/domains/sync/replica\<close> on \<open>src/src/store/replica_*.rs\<close>), and the
  background jobs of its HTTP server (\<open>src/src/serve/jobs\<close>), with the strings, identifiers,
  errors and JSON they rest on. Paths below are under \<open>src/src/\<close>.

  \<^bold>\<open>How the parts interact.\<close> A caller (a person with a role or an agent with a set of
  capabilities) sends a command. \<open>domains/projects/authority.rs\<close> decides from the verb table
  whether the caller may run it; the command checks its request with no store access, then runs
  in one SQLite transaction. A writing command goes through the idempotent runner
  (\<open>receipt.rs\<close>): it is keyed by principal and key, its canonical request is digested, a
  stored answer is replayed for the same digest and refused for another one, and the answer is
  stored in the transaction that made the change. Each change writes a row of the activity
  timeline and of the change feed. A whole project is exported to and imported from a bundle
  file. The HTTP server runs long operations as background jobs: a registry of records with their
  watch channels, one write permit, and a worker per job.

  A peer sends an envelope of at most 500 operations, each on one entity: a memory, a document, a
  code generation, a feedback verdict or an activity event. Each operation is settled on its own,
  in one transaction: an operation answered before is answered again from its receipt; otherwise
  \<open>validate.rs\<close> decides, and an accepted operation writes the entity's own table, a row of the
  feed with its payload, the entity's revision and the receipt, a refused one the receipt alone.
  Memories are journalled the same way when they are written locally. Erasing a memory redacts
  its payloads and bars their digests from coming back.

  \<^bold>\<open>Theories and the code they model.\<close>
  \<^item> \<open>Prelude\<close>: the result type, its sequencing (Rust's \<open>?\<close>) and the collections
    \<open>res_simps\<close>, \<open>table_simps\<close>; facts on lists and association lists all parts share.
  \<^item> \<open>Rust_Strings\<close>: Rust's \<open>str\<close> on UTF-8 byte lists. \<open>Json\<close>:
    \<open>serde_json::Value\<close> and \<open>utilities/canonical_json.rs\<close>. \<open>Errors\<close>:
    \<open>errors.rs\<close>, \<open>utilities/project_error.rs\<close>, \<open>error_code.rs\<close> and \<open>exit_code.rs\<close>.
  \<^item> \<open>Identifiers\<close>: \<open>utilities/uuid.rs\<close>, \<open>utilities/dated_id.rs\<close>, slugs, cursors,
    repository names. \<open>Project_Limits\<close>: \<open>limits.rs\<close> and the vocabularies.
    \<open>Project_Authority\<close>: \<open>authority.rs\<close>, \<open>principal.rs\<close>.
  \<^item> \<open>Project_Store\<close>: the project tables as lists of rows in insertion order and every
    statement on them (\<open>store/projects.rs\<close>, \<open>project_read.rs\<close>,
    \<open>project_activity.rs\<close>, \<open>project_changes.rs\<close>, \<open>project_receipts.rs\<close>), unique
    indexes and foreign keys included. \<open>Store_Invariants\<close> and \<open>Store_Progress\<close>: what
    every statement keeps and when it succeeds.
  \<^item> \<open>Project_Receipt\<close>: \<open>receipt.rs\<close> and \<open>write_transaction\<close>; its locale
    \<open>receipted_command\<close> states what a keyed command promises, and every writing command
    interprets it.
  \<^item> \<open>Project_View\<close>, \<open>Project_Create\<close>, \<open>Project_Lifecycle\<close>, \<open>Project_Feed\<close>,
    \<open>Project_Plan\<close>: \<open>view.rs\<close>, \<open>create.rs\<close> with \<open>charter.rs\<close>, \<open>lifecycle.rs\<close>,
    the list and the two timelines, \<open>show.rs\<close> with \<open>plan.rs\<close>.
  \<^item> \<open>Plan_Operations\<close>, \<open>Operation_Rules\<close>, \<open>Project_Proposal\<close>: the twelve typed
    operations and their wire form, the rules on a list of them, and proposing, listing and
    reading proposals. \<open>Project_Evidence\<close>: \<open>evidence.rs\<close>, \<open>evidence_add.rs\<close> and the
    evidence page.
  \<^item> \<open>Project_Engine\<close>: the twelve commands under one caller loop, with the properties that
    hold across commands.
  \<^item> \<open>Table_Shape\<close>, \<open>Project_Bundle\<close>, \<open>Bundle_Check\<close>, \<open>Project_Transfer\<close>,
    \<open>Transfer_Properties\<close>: the table declarations (\<open>store/schema_projects.rs\<close>), the bundle
    (\<open>bundle.rs\<close>), its check (\<open>bundle_check.rs\<close>), export and import over the store seen
    declaration by declaration (\<open>store/project_transfer.rs\<close>).
  \<^item> \<open>Serde\<close>: how \<open>serde\<close> reads and writes the members of a struct.
    \<open>Replica_Contract\<close>: \<open>contract.rs\<close>, the cursor and envelope checks.
    \<open>Replica_Payloads\<close>: the five payloads with their JSON, ids and shape rules
    (\<open>domains/*/replica_payload.rs\<close>, \<open>activity_payload.rs\<close>).
  \<^item> \<open>Replica_Store\<close>, \<open>Replica_Journal\<close>, \<open>Replica_Projection\<close>: the tables
    (\<open>schema_replica.rs\<close> and the tables of pulled documents, code generations, verdicts and
    activity) and the statements on them (\<open>store/replica_*.rs\<close>, \<open>sync_log.rs\<close>,
    \<open>remote_document.rs\<close>, \<open>remote_code.rs\<close>, \<open>code_generation.rs\<close>,
    \<open>feedback.rs\<close>).
  \<^item> \<open>Replica_Accept\<close>: the decision (\<open>validate.rs\<close>, \<open>validate_events.rs\<close>), the
    acceptance of each kind (\<open>materialize.rs\<close>, \<open>code_accept.rs\<close>,
    \<open>document_accept.rs\<close>, \<open>event_accept.rs\<close>), the envelope (\<open>accept.rs\<close>), the staged
    upload (\<open>staging.rs\<close>) and the local writer (\<open>memories/journal.rs\<close>).
  \<^item> \<open>Replica_Invariants\<close>, \<open>Replica_Outcome\<close>: the journal's invariant and what one operation
    may do to the tables; \<open>Replica_Properties\<close>, \<open>Replica_Rows\<close>: the properties under any
    sequence of calls. The locale \<open>kept_rows\<close> of \<open>Replica_Rows\<close> states what a condition on an
    entity's own tables needs to hold under any call; the verdict log, the code generations and
    the document cache interpret it.
  \<^item> \<open>Replica_Client\<close>, \<open>Replica_Pull\<close>: a client's tables (\<open>replica_binding.rs\<close>,
    \<open>replica_cursor.rs\<close>, \<open>replica_pull_hold.rs\<close>, \<open>replica_outbox_hold.rs\<close>), the served page
    (\<open>changes.rs\<close>), one pulled entry (\<open>pulled.rs\<close>), and a page resolved by the rules of
    \<open>drain/pull_rules.rs\<close> with its cursor (\<open>drain/pull.rs\<close>, \<open>holds.rs\<close>).
    \<open>Replica_Following\<close>, \<open>Replica_Rewind\<close>: what a pull guarantees; the locale \<open>pull_steps\<close>
    states what a relation needs to hold along any page.
  \<^item> \<open>Job_Registry\<close>, \<open>Job_Worker\<close>: \<open>serve/jobs.rs\<close> with its registry, and
    \<open>serve/jobs/worker.rs\<close>, whose interleavings are the step relation of the theory.

  \<^bold>\<open>What the lemmas show.\<close> Per statement and per command: the invariant it keeps, its exact
  effect when it succeeds, the exact condition under which it succeeds, and that a failure writes
  nothing. Across commands: integrity under any sequence of calls, idempotence of retries, the
  meaning of a key, monotone history. For the feeds: paging visits each row once. For transfers:
  round trip, all or nothing, order independence. For jobs: safety (one permit, no body twice or
  after a cancel), final terminal states, and that tasks can drain. For the replica: the journal
  stays whole and only grows, what one operation does on every branch, answers are final, erased
  bytes and deleted entities stay so, and each kind's tables hold exactly what was accepted; the cursor
  of a pull names handled positions only.

  \<^bold>\<open>Bounds and fuel.\<close> No definition runs on fuel: every loop of the modelled code is
  structural or has a measure. The code's own bounds are kept as they are: 25 slug attempts, 100
  finished jobs and 20 log lines retained, pages of 50 and at most 200 rows, 200 operations and
  256 KiB per proposal, 16 KiB of metadata per evidence row, 500 operations and
  5 MiB per envelope. Machine integers that may wrap are
  words; the others are \<open>int\<close> or \<open>nat\<close> with the width's bound written out.

  \<^bold>\<open>Parameters.\<close> The record \<open>env\<close> of \<open>Project_Store\<close> holds what is not under \<open>src/\<close>:
  the random source and the clock (numbered reads), timestamp formatting (\<open>time\<close>), the text
  codec of \<open>serde_json\<close>, SHA-256, and whether SQLite can begin and commit. The \<open>url\<close> crate's
  parser and Rust's \<open>Debug\<close> formatting are arguments of what uses them. The replica has its own record
  \<open>replica_env\<close> (clock, digest, text codec, date parsing), a \<open>json_reader\<close> for SQLite's
  \<open>json_extract\<close>, and a record \<open>memory_store\<close> for the mirror of memories and the markdown
  tree, whose writes it calls in order and whose failures it handles. Hypotheses on them are
  named (\<open>codec_ok\<close>, \<open>fresh_ids\<close>, \<open>store_named\<close>) and each has a concrete instance in a
  witness.

  \<^bold>\<open>Not modelled.\<close> SQL text, connections, migrations and \<open>sqlite-vec\<close>: a statement is the
  function on rows it computes. The channels of \<open>tokio\<close> beyond their last value and the HTTP
  framing. Of the replica, the HTTP client and the order of a sync pass, seeding and repairing a
  store, and the sweep of old payloads. The remaining domains
  (retrieval, memories, code index, documents, graph, learning, maintenance, capture, configuration and the command line), which call tree-sitter,
  git, model runtimes and the file system in most of their lines.
\<close>

end
